(* ===== verification/Prelude.thy ===== *)
theory Prelude
  imports Main "HOL-Library.Word" "HOL-Library.Monad_Syntax"
begin

text \<open>
  What every component of the development shares: the names of the C integer types, buffers of
  bytes with checked reads and writes, the byte order of integers in memory, and the lemmas on
  words, lists and the option monad that the component proofs use.

  Memory is modelled per object: a C array is a list of bytes whose length is the allocated size.
  An access outside the array is undefined behaviour in C and the value \<open>None\<close> here, so a proof that
  an operation returns \<open>Some\<close> is a proof that it stays inside its buffers. Integers in memory are
  little-endian (the x86 and ARM targets of the build files), so \<open>htole64\<close> and its kin are the
  identity and \<open>htobe64\<close> swaps the bytes.
\<close>

unbundle bit_operations_syntax

named_theorems mem_simps \<open>rewriting checked reads and writes\<close>
named_theorems xor_simps \<open>cancellation of exclusive or\<close>

type_synonym byte = "8 word"
type_synonym u16 = "16 word"
type_synonym u32 = "32 word"
type_synonym u64 = "64 word"
type_synonym bytes = "byte list"

subsection \<open>Checked reads and writes\<close>

definition rd :: "bytes \<Rightarrow> nat \<Rightarrow> nat \<Rightarrow> bytes option" where
  "rd m i n = (if i + n \<le> length m then Some (take n (drop i m)) else None)"

definition overlay :: "bytes \<Rightarrow> nat \<Rightarrow> bytes \<Rightarrow> bytes" where
  "overlay m i bs = take i m @ bs @ drop (i + length bs) m"

definition wr :: "bytes \<Rightarrow> nat \<Rightarrow> bytes \<Rightarrow> bytes option" where
  "wr m i bs = (if i + length bs \<le> length m then Some (overlay m i bs) else None)"

lemma bind_SomeE: "Option.bind m f = Some y \<Longrightarrow> (\<And>x. m = Some x \<Longrightarrow> f x = Some y \<Longrightarrow> thesis) \<Longrightarrow> thesis"
  by (cases m) simp_all

lemma rd_Some_iff: "rd m i n = Some bs \<longleftrightarrow> i + n \<le> length m \<and> bs = take n (drop i m)"
  by (auto simp: rd_def)

lemma rd_length: "rd m i n = Some bs \<Longrightarrow> length bs = n"
  by (auto simp: rd_def split: if_splits)

lemma length_overlay [simp]: "i + length bs \<le> length m \<Longrightarrow> length (overlay m i bs) = length m"
  by (simp add: overlay_def)

lemma overlay_Nil [simp]: "overlay m i [] = m"
  by (simp add: overlay_def)

lemma overlay_append:
  assumes "i + length a + length b \<le> length m"
  shows "overlay (overlay m i a) (i + length a) b = overlay m i (a @ b)"
proof -
  have "take (i + length a) (overlay m i a) = take i m @ a"
    using assms by (simp add: overlay_def)
  moreover have "drop (i + length a + length b) (overlay m i a) = drop (i + length a + length b) m"
    using assms by (simp add: overlay_def algebra_simps)
  ultimately show ?thesis
    by (simp add: overlay_def add.assoc)
qed

lemma overlay_prepend:
  assumes "i + length a + length b \<le> length m"
  shows "overlay (overlay m (i + length a) b) i a = overlay m i (a @ b)"
proof -
  have "take i (overlay m (i + length a) b) = take i m"
    using assms by (simp add: overlay_def)
  moreover have "drop (i + length a) (overlay m (i + length a) b) = b @ drop (i + length a + length b) m"
    using assms by (simp add: overlay_def)
  ultimately show ?thesis by (simp add: overlay_def add.assoc)
qed

lemma take_below_overlay: "n \<le> i \<Longrightarrow> i + length b \<le> length m \<Longrightarrow> take n (overlay m i b) = take n m"
  by (simp add: overlay_def)

lemma drop_above_overlay: "i + length b \<le> n \<Longrightarrow> n \<le> length m \<Longrightarrow> drop n (overlay m i b) = drop n m"
  by (simp add: overlay_def)

lemma take_drop_overlay [simp]:
  "i + length bs \<le> length m \<Longrightarrow> take (length bs) (drop i (overlay m i bs)) = bs"
  by (simp add: overlay_def)

lemma take_overlay [simp]: "i + length bs \<le> length m \<Longrightarrow> take i (overlay m i bs) = take i m"
  by (simp add: overlay_def)

lemma drop_overlay [simp]:
  "i + length bs \<le> length m \<Longrightarrow> drop (i + length bs) (overlay m i bs) = drop (i + length bs) m"
  by (simp add: overlay_def)

lemma wr_rd_same [mem_simps]: "wr m i bs = Some m' \<Longrightarrow> rd m' i (length bs) = Some bs"
  by (auto simp: wr_def rd_def split: if_splits)

lemma wr_length: "wr m i bs = Some m' \<Longrightarrow> length m' = length m"
  by (auto simp: wr_def split: if_splits)

lemma rd_at: "length xs = i \<Longrightarrow> length ys = n \<Longrightarrow> rd (xs @ ys @ zs) i n = Some ys"
  by (simp add: rd_def)

lemma wr_at: "length xs = i \<Longrightarrow> length ys = length bs \<Longrightarrow> wr (xs @ ys @ zs) i bs = Some (xs @ bs @ zs)"
  by (simp add: wr_def overlay_def)

subsection \<open>Lists of a known length\<close>

lemma list_2: "length xs = 2 \<Longrightarrow> xs = [xs ! 0, xs ! 1]"
  by (cases xs; cases "tl xs") auto

lemma list_4: "length xs = 4 \<Longrightarrow> xs = [xs ! 0, xs ! 1, xs ! 2, xs ! 3]"
  by (rule nth_equalityI) (auto simp: less_Suc_eq numeral_eq_Suc)

subsection \<open>Byte order\<close>

fun le_word :: "bytes \<Rightarrow> 'a::len word" where
  "le_word [] = 0"
| "le_word (b # bs) = ucast b OR push_bit 8 (le_word bs)"

definition le_bytes :: "nat \<Rightarrow> 'a::len word \<Rightarrow> bytes" where
  "le_bytes n w = map (\<lambda>i. ucast (drop_bit (8 * i) w)) [0..<n]"

definition be_bytes :: "nat \<Rightarrow> 'a::len word \<Rightarrow> bytes" where
  "be_bytes n w = rev (le_bytes n w)"

definition be_word :: "bytes \<Rightarrow> 'a::len word" where
  "be_word bs = le_word (rev bs)"

lemma length_le_bytes [simp]: "length (le_bytes n w) = n"
  by (simp add: le_bytes_def)

lemma length_be_bytes [simp]: "length (be_bytes n w) = n"
  by (simp add: be_bytes_def)

lemma bit_le_word:
  "bit (le_word bs :: 'a::len word) n \<longleftrightarrow>
     n < LENGTH('a) \<and> n div 8 < length bs \<and> bit (bs ! (n div 8)) (n mod 8)"
proof (induction bs arbitrary: n)
  case Nil
  then show ?case by simp
next
  case (Cons b bs)
  show ?case
  proof (cases "n < 8")
    case True
    then show ?thesis
      by (auto simp: bit_or_iff bit_unsigned_iff bit_push_bit_iff)
  next
    case False
    then obtain k where k: "n = k + 8"
      by (metis add.commute le_Suc_ex not_less)
    have b: "\<not> bit b (k + 8)"
      using bit_imp_le_length [of b "k + 8"] by auto
    have d: "(k + 8) div 8 = Suc (k div 8)"
      by simp
    show ?thesis
      using Cons.IH [of k] b
      by (auto simp: k d bit_or_iff bit_unsigned_iff bit_push_bit_iff)
  qed
qed

lemma bit_le_bytes:
  assumes "i < n"
  shows "bit (le_bytes n w ! i) j \<longleftrightarrow> j < 8 \<and> bit w (8 * i + j)"
  using assms by (auto simp: le_bytes_def bit_unsigned_iff bit_drop_bit_eq)

lemma le_word_le_bytes:
  fixes w :: "'a::len word"
  assumes "LENGTH('a) = 8 * n"
  shows "le_word (le_bytes n w) = w"
proof (rule bit_word_eqI)
  fix k assume k: "k < LENGTH('a)"
  then have "k div 8 < n"
    using assms by (simp add: less_mult_imp_div_less mult.commute)
  then show "bit (le_word (le_bytes n w) :: 'a word) k \<longleftrightarrow> bit w k"
    using k by (simp add: bit_le_word bit_le_bytes)
qed

lemma le_bytes_le_word:
  assumes "length bs = n" and "8 * n \<le> LENGTH('a)"
  shows "le_bytes n (le_word bs :: 'a::len word) = bs"
proof (rule nth_equalityI)
  show "length (le_bytes n (le_word bs :: 'a word)) = length bs"
    using assms by simp
next
  fix i assume "i < length (le_bytes n (le_word bs :: 'a word))"
  then have i: "i < n" by simp
  show "le_bytes n (le_word bs :: 'a word) ! i = bs ! i"
  proof (rule bit_word_eqI)
    fix j assume j: "j < LENGTH(8)"
    then have "(8 * i + j) div 8 = i" and "(8 * i + j) mod 8 = j"
      by simp_all
    then show "bit (le_bytes n (le_word bs :: 'a word) ! i) j \<longleftrightarrow> bit (bs ! i) j"
      using i j assms by (simp add: bit_le_bytes bit_le_word)
  qed
qed

lemma be_word_be_bytes: "LENGTH('a) = 8 * n \<Longrightarrow> be_word (be_bytes n (w :: 'a::len word)) = w"
  by (simp add: be_word_def be_bytes_def le_word_le_bytes)

lemma be_bytes_be_word:
  "length bs = n \<Longrightarrow> 8 * n \<le> LENGTH('a) \<Longrightarrow> be_bytes n (be_word bs :: 'a::len word) = bs"
  by (simp add: be_word_def be_bytes_def le_bytes_le_word)

lemma le_bytes_xor:
  "le_bytes n (v XOR w) = map2 (XOR) (le_bytes n v) (le_bytes n w)"
proof (rule nth_equalityI)
  fix i assume "i < length (le_bytes n (v XOR w))"
  then show "le_bytes n (v XOR w) ! i = map2 (XOR) (le_bytes n v) (le_bytes n w) ! i"
    by (auto simp: bit_le_bytes bit_xor_iff intro!: bit_word_eqI)
qed simp

text \<open>The names the sources use for the loads and stores of a little-endian host.\<close>

abbreviation ld32 :: "bytes \<Rightarrow> u32" where "ld32 \<equiv> le_word"
abbreviation ld64 :: "bytes \<Rightarrow> u64" where "ld64 \<equiv> le_word"
abbreviation st32 :: "u32 \<Rightarrow> bytes" where "st32 \<equiv> le_bytes 4"
abbreviation st64 :: "u64 \<Rightarrow> bytes" where "st64 \<equiv> le_bytes 8"

lemma ld_st [simp]: "ld32 (st32 a) = a" "ld64 (st64 b) = b"
  by (simp_all add: le_word_le_bytes)

lemma st_ld [simp]: "length bs = 4 \<Longrightarrow> st32 (ld32 bs) = bs" "length cs = 8 \<Longrightarrow> st64 (ld64 cs) = cs"
  by (simp_all add: le_bytes_le_word)

subsection \<open>Exclusive or\<close>

lemma xor_cancel [xor_simps]:
  fixes a b :: "'a::len word"
  shows "(a XOR b) XOR b = a" "b XOR (b XOR a) = a" "(a XOR b) XOR a = b" "b XOR (a XOR b) = a"
  by (auto intro!: bit_word_eqI simp: bit_xor_iff)

lemma map2_xor_cancel [xor_simps]:
  fixes xs ks :: bytes
  shows "length xs = length ks \<Longrightarrow> map2 (XOR) (map2 (XOR) xs ks) ks = xs"
  by (induction xs ks rule: list_induct2) (simp_all add: xor_cancel)

lemma map2_xor_commute:
  fixes xs ys :: bytes
  shows "map2 (XOR) xs ys = map2 (XOR) ys xs"
proof (induction xs arbitrary: ys)
  case (Cons x xs)
  then show ?case by (cases ys) (simp_all add: xor.commute)
qed simp

subsection \<open>Mixing steps are injective\<close>

lemma xorshift_right_zero:
  fixes x :: "'a::len word"
  assumes "x XOR drop_bit k x = 0" and "0 < k"
  shows "x = 0"
proof -
  have eq: "bit x i \<longleftrightarrow> bit x (k + i)" for i
  proof (cases "i < LENGTH('a)")
    case True
    then have "\<not> bit (x XOR drop_bit k x) i" using assms by simp
    then show ?thesis by (simp add: bit_xor_iff bit_drop_bit_eq)
  next
    case False
    then show ?thesis by (auto dest: bit_imp_le_length)
  qed
  have "\<not> bit x i" for i
  proof (induction "LENGTH('a) - i" arbitrary: i rule: less_induct)
    case less
    show ?case
    proof (cases "i < LENGTH('a)")
      case True
      then have "\<not> bit x (k + i)" using less assms(2) by simp
      then show ?thesis using eq by simp
    qed (auto dest: bit_imp_le_length)
  qed
  then show ?thesis by (auto intro: bit_word_eqI)
qed

lemma xorshift_left_zero:
  fixes x :: "'a::len word"
  assumes "x XOR push_bit k x = 0" and "0 < k"
  shows "x = 0"
proof -
  have "\<not> bit x i" for i
  proof (induction i rule: less_induct)
    case (less i)
    show ?case
    proof (cases "i < LENGTH('a)")
      case True
      then have "\<not> bit (x XOR push_bit k x) i" using assms by simp
      then show ?thesis
        using less [of "i - k"] assms(2) True by (auto simp: bit_xor_iff bit_push_bit_iff)
    qed (auto dest: bit_imp_le_length)
  qed
  then show ?thesis by (auto intro: bit_word_eqI)
qed

lemma mult_unit_zero:
  fixes x c d :: u64
  assumes "x * c = 0" and "c * d = 1"
  shows "x = 0"
proof -
  have "x = x * (c * d)" using assms(2) by simp
  also have "\<dots> = (x * c) * d" by (simp only: mult.assoc)
  finally show ?thesis using assms(1) by simp
qed

lemma xorshift_right_inj:
  fixes x y :: "'a::len word"
  assumes "x XOR drop_bit k x = y XOR drop_bit k y" and "0 < k"
  shows "x = y"
proof -
  have "(x XOR y) XOR drop_bit k (x XOR y) = (x XOR drop_bit k x) XOR (y XOR drop_bit k y)"
    by (rule bit_word_eqI) (auto simp: bit_xor_iff bit_drop_bit_eq)
  then have "(x XOR y) XOR drop_bit k (x XOR y) = 0"
    by (simp only: assms(1) xor_self_eq)
  then have "x XOR y = 0"
    by (rule xorshift_right_zero [OF _ assms(2)])
  then show ?thesis
    using xor_cancel(1) [of x y] by simp
qed

lemma mult_unit_inj:
  fixes x y c d :: u64
  assumes "x * c = y * c" and "c * d = 1"
  shows "x = y"
  using mult_unit_zero [of "x - y" c d] assms by (simp add: left_diff_distrib)

end
