(* ===== verification/Types.thy ===== *)
theory Types
  imports Prelude
begin

text \<open>
  The constants of \<^verbatim>\<open>include/n2n_define.h\<close> and the structures of \<^verbatim>\<open>include/n2n_typedefs.h\<close> that travel
  on the wire. A byte array of the C structure is a list of bytes; \<open>wf\<close> predicates say that it has
  the declared size. The union of a socket's IPv4 and IPv6 address is its 16-byte IPv6 member, whose
  first four bytes are the IPv4 member.
\<close>

abbreviation N2N_PKT_VERSION :: byte where "N2N_PKT_VERSION \<equiv> 3"
abbreviation N2N_COMMUNITY_SIZE :: nat where "N2N_COMMUNITY_SIZE \<equiv> 20"
abbreviation N2N_MAC_SIZE :: nat where "N2N_MAC_SIZE \<equiv> 6"
abbreviation N2N_DESC_SIZE :: nat where "N2N_DESC_SIZE \<equiv> 16"
abbreviation N2N_PKT_BUF_SIZE :: nat where "N2N_PKT_BUF_SIZE \<equiv> 4096"
abbreviation N2N_AUTH_MAX_TOKEN_SIZE :: nat where "N2N_AUTH_MAX_TOKEN_SIZE \<equiv> 48"
abbreviation N2N_VERSION_STRING_SIZE :: nat where "N2N_VERSION_STRING_SIZE \<equiv> 20"
abbreviation IPV4_SIZE :: nat where "IPV4_SIZE \<equiv> 4"
abbreviation IPV6_SIZE :: nat where "IPV6_SIZE \<equiv> 16"
abbreviation REG_SUPER_ACK_PAYLOAD_ENTRY_SIZE :: nat where "REG_SUPER_ACK_PAYLOAD_ENTRY_SIZE \<equiv> 26"

abbreviation N2N_FLAGS_SOCKET :: u16 where "N2N_FLAGS_SOCKET \<equiv> 0x0040"
abbreviation N2N_FLAGS_FROM_SUPERNODE :: u16 where "N2N_FLAGS_FROM_SUPERNODE \<equiv> 0x0020"
abbreviation N2N_FLAGS_TYPE_MASK :: u16 where "N2N_FLAGS_TYPE_MASK \<equiv> 0x001f"
abbreviation N2N_FLAGS_BITS_MASK :: u16 where "N2N_FLAGS_BITS_MASK \<equiv> 0xffe0"

abbreviation AF_INET :: byte where "AF_INET \<equiv> 2"
abbreviation AF_INET6 :: byte where "AF_INET6 \<equiv> 10"
abbreviation AF_INVALID :: byte where "AF_INVALID \<equiv> 255"
abbreviation SOCK_STREAM :: byte where "SOCK_STREAM \<equiv> 1"
abbreviation SOCK_DGRAM :: byte where "SOCK_DGRAM \<equiv> 2"

record n2n_ip_subnet =
  net_addr :: u32
  net_bitlen :: byte

record n2n_sock =
  family :: byte
  socktype :: byte
  port :: u16
  addr :: bytes

record n2n_auth =
  scheme :: u16
  token_size :: u16
  token :: bytes

record n2n_common =
  ttl :: byte
  pc :: byte
  flags :: u16
  community :: bytes

record n2n_REGISTER =
  reg_cookie :: u32
  reg_srcMac :: bytes
  reg_dstMac :: bytes
  reg_sock :: n2n_sock
  reg_dev_addr :: n2n_ip_subnet
  reg_dev_desc :: bytes

record n2n_REGISTER_ACK =
  ack_cookie :: u32
  ack_srcMac :: bytes
  ack_dstMac :: bytes
  ack_sock :: n2n_sock

record n2n_PACKET =
  pkt_srcMac :: bytes
  pkt_dstMac :: bytes
  pkt_sock :: n2n_sock
  pkt_transform :: byte
  pkt_compression :: byte

record n2n_REGISTER_SUPER =
  rs_cookie :: u32
  rs_edgeMac :: bytes
  rs_sock :: n2n_sock
  rs_dev_addr :: n2n_ip_subnet
  rs_dev_desc :: bytes
  rs_auth :: n2n_auth
  rs_key_time :: u32

record n2n_REGISTER_SUPER_ACK =
  rsa_cookie :: u32
  rsa_srcMac :: bytes
  rsa_dev_addr :: n2n_ip_subnet
  rsa_lifetime :: u16
  rsa_sock :: n2n_sock
  rsa_auth :: n2n_auth
  rsa_num_sn :: byte
  rsa_key_time :: u32

record n2n_REGISTER_SUPER_NAK =
  nak_cookie :: u32
  nak_srcMac :: bytes
  nak_auth :: n2n_auth

record n2n_UNREGISTER_SUPER =
  unreg_auth :: n2n_auth
  unreg_srcMac :: bytes

record n2n_PEER_INFO =
  pi_aflags :: u16
  pi_srcMac :: bytes
  pi_mac :: bytes
  pi_sock :: n2n_sock
  pi_preferred_sock :: n2n_sock
  pi_load :: u32
  pi_version :: bytes
  pi_uptime :: u64

record n2n_QUERY_PEER =
  qp_aflags :: u16
  qp_srcMac :: bytes
  qp_sock :: n2n_sock
  qp_targetMac :: bytes

subsection \<open>Zeroed structures, as \<open>memset\<close> and \<open>calloc\<close> leave them\<close>

definition zero_sock :: n2n_sock where
  "zero_sock = \<lparr>family = 0, socktype = 0, port = 0, addr = replicate IPV6_SIZE 0\<rparr>"

definition zero_auth :: n2n_auth where
  "zero_auth = \<lparr>scheme = 0, token_size = 0, token = replicate N2N_AUTH_MAX_TOKEN_SIZE 0\<rparr>"

definition zero_mac :: bytes where
  "zero_mac = replicate N2N_MAC_SIZE 0"

definition zero_desc :: bytes where
  "zero_desc = replicate N2N_DESC_SIZE 0"

subsection \<open>Well-formed structures\<close>

definition mac_wf :: "bytes \<Rightarrow> bool" where
  "mac_wf m \<longleftrightarrow> length m = N2N_MAC_SIZE"

definition sock_wf :: "n2n_sock \<Rightarrow> bool" where
  "sock_wf s \<longleftrightarrow> length (addr s) = IPV6_SIZE"

definition auth_wf :: "n2n_auth \<Rightarrow> bool" where
  "auth_wf a \<longleftrightarrow> length (token a) = N2N_AUTH_MAX_TOKEN_SIZE \<and> unat (token_size a) \<le> N2N_AUTH_MAX_TOKEN_SIZE"

definition common_wf :: "n2n_common \<Rightarrow> bool" where
  "common_wf c \<longleftrightarrow> length (community c) = N2N_COMMUNITY_SIZE"

lemma zero_lengths [simp]:
  "length (addr zero_sock) = 16" "length (token zero_auth) = 48"
  "length zero_mac = 6" "length zero_desc = 16"
  by (simp_all add: zero_sock_def zero_auth_def zero_mac_def zero_desc_def)

lemma zero_wf [simp]: "sock_wf zero_sock" "auth_wf zero_auth" "mac_wf zero_mac"
  by (simp_all add: sock_wf_def auth_wf_def mac_wf_def, simp_all add: zero_auth_def)

end
