(* ===== verification/Wire.thy ===== *)
theory Wire
  imports Types
begin

text \<open>
  The encoding and decoding routines of \<^verbatim>\<open>src/wire.c\<close>, in the order of the file.

  An encoder takes the buffer and the index it writes at, and returns its return value with the new
  buffer and index, or \<open>None\<close> when it writes past the end of the buffer. A decoder takes the buffer,
  the number of bytes that remain and the index it reads at, and the old value of its output, which
  it leaves when too few bytes remain.
\<close>

type_synonym wbuf = "bytes \<times> nat"
type_synonym rpos = "nat \<times> nat"

subsection \<open>Integers and buffers\<close>

definition encode_uint8 :: "byte \<Rightarrow> wbuf \<Rightarrow> (int \<times> wbuf) option" where
  "encode_uint8 v = (\<lambda>(base, idx). do {
     base \<leftarrow> wr base idx [v AND 0xff];
     Some (1, base, idx + 1) })"

definition decode_uint8 :: "bytes \<Rightarrow> byte \<Rightarrow> rpos \<Rightarrow> (int \<times> byte \<times> rpos) option" where
  "decode_uint8 base out = (\<lambda>(rem, idx).
     if rem < 1 then Some (0, out, rem, idx)
     else do {
       bs \<leftarrow> rd base idx 1;
       Some (1, bs ! 0 AND 0xff, rem - 1, idx + 1) })"

definition encode_uint16 :: "u16 \<Rightarrow> wbuf \<Rightarrow> (int \<times> wbuf) option" where
  "encode_uint16 v = (\<lambda>(base, idx). do {
     base \<leftarrow> wr base idx [ucast (drop_bit 8 v AND 0xff), ucast (v AND 0xff)];
     Some (2, base, idx + 2) })"

definition decode_uint16 :: "bytes \<Rightarrow> u16 \<Rightarrow> rpos \<Rightarrow> (int \<times> u16 \<times> rpos) option" where
  "decode_uint16 base out = (\<lambda>(rem, idx).
     if rem < 2 then Some (0, out, rem, idx)
     else do {
       bs \<leftarrow> rd base idx 2;
       Some (2, push_bit 8 (ucast (bs ! 0 AND 0xff)) OR ucast (bs ! 1 AND 0xff),
             rem - 2, idx + 2) })"

definition encode_uint32 :: "u32 \<Rightarrow> wbuf \<Rightarrow> (int \<times> wbuf) option" where
  "encode_uint32 v = (\<lambda>(base, idx). do {
     base \<leftarrow> wr base idx [ucast (drop_bit 24 v AND 0xff), ucast (drop_bit 16 v AND 0xff),
                         ucast (drop_bit 8 v AND 0xff), ucast (v AND 0xff)];
     Some (4, base, idx + 4) })"

definition decode_uint32 :: "bytes \<Rightarrow> u32 \<Rightarrow> rpos \<Rightarrow> (int \<times> u32 \<times> rpos) option" where
  "decode_uint32 base out = (\<lambda>(rem, idx).
     if rem < 4 then Some (0, out, rem, idx)
     else do {
       bs \<leftarrow> rd base idx 4;
       Some (4, push_bit 24 (ucast (bs ! 0 AND 0xff)) OR push_bit 16 (ucast (bs ! 1 AND 0xff))
                OR push_bit 8 (ucast (bs ! 2 AND 0xff)) OR ucast (bs ! 3 AND 0xff),
             rem - 4, idx + 4) })"

definition htobe64 :: "u64 \<Rightarrow> u64" where
  "htobe64 v = ld64 (rev (st64 v))"

definition encode_uint64 :: "u64 \<Rightarrow> wbuf \<Rightarrow> (int \<times> wbuf) option" where
  "encode_uint64 v = (\<lambda>(base, idx). do {
     base \<leftarrow> wr base idx (st64 (htobe64 v));
     Some (8, base, idx + 8) })"

text \<open>
  The decoder of 64-bit values adds the index to the value it loads from the start of the buffer,
  where the encoder adds it to the address.
\<close>

definition decode_uint64 :: "bytes \<Rightarrow> u64 \<Rightarrow> rpos \<Rightarrow> (int \<times> u64 \<times> rpos) option" where
  "decode_uint64 base out = (\<lambda>(rem, idx).
     if rem < 8 then Some (0, out, rem, idx)
     else do {
       bs \<leftarrow> rd base 0 8;
       Some (8, htobe64 (ld64 bs + of_nat idx), rem - 8, idx + 8) })"

definition encode_buf :: "bytes \<Rightarrow> nat \<Rightarrow> wbuf \<Rightarrow> (int \<times> wbuf) option" where
  "encode_buf p s = (\<lambda>(base, idx). do {
     bs \<leftarrow> rd p 0 s;
     base \<leftarrow> wr base idx bs;
     Some (int s, base, idx + s) })"

definition decode_buf :: "nat \<Rightarrow> bytes \<Rightarrow> bytes \<Rightarrow> rpos \<Rightarrow> (int \<times> bytes \<times> rpos) option" where
  "decode_buf bufsize base out = (\<lambda>(rem, idx).
     if rem < bufsize then Some (0, out, rem, idx)
     else do {
       bs \<leftarrow> rd base idx bufsize;
       out \<leftarrow> wr out 0 bs;
       Some (int bufsize, out, rem - bufsize, idx + bufsize) })"

definition encode_mac :: "bytes \<Rightarrow> wbuf \<Rightarrow> (int \<times> wbuf) option" where
  "encode_mac m = encode_buf m N2N_MAC_SIZE"

definition decode_mac :: "bytes \<Rightarrow> bytes \<Rightarrow> rpos \<Rightarrow> (int \<times> bytes \<times> rpos) option" where
  "decode_mac = decode_buf N2N_MAC_SIZE"

definition encode_cookie :: "u32 \<Rightarrow> wbuf \<Rightarrow> (int \<times> wbuf) option" where
  "encode_cookie = encode_uint32"

definition decode_cookie :: "bytes \<Rightarrow> u32 \<Rightarrow> rpos \<Rightarrow> (int \<times> u32 \<times> rpos) option" where
  "decode_cookie = decode_uint32"

subsection \<open>The common header\<close>

definition encode_common :: "n2n_common \<Rightarrow> wbuf \<Rightarrow> (int \<times> wbuf) option" where
  "encode_common common st = do {
     (_, st) \<leftarrow> encode_uint8 N2N_PKT_VERSION st;
     (_, st) \<leftarrow> encode_uint8 (ttl common) st;
     let fl = (ucast (pc common) AND N2N_FLAGS_TYPE_MASK) OR (flags common AND N2N_FLAGS_BITS_MASK);
     (_, st) \<leftarrow> encode_uint16 fl st;
     (_, st) \<leftarrow> encode_buf (community common) N2N_COMMUNITY_SIZE st;
     Some (-1, st) }"

definition decode_common :: "bytes \<Rightarrow> n2n_common \<Rightarrow> rpos \<Rightarrow> (int \<times> n2n_common \<times> rpos) option" where
  "decode_common base out st = do {
     let idx0 = snd st;
     (_, dummy, st) \<leftarrow> decode_uint8 base 0 st;
     if N2N_PKT_VERSION \<noteq> dummy then Some (-1, out, st)
     else do {
       (_, t, st) \<leftarrow> decode_uint8 base (ttl out) st;
       (_, fl, st) \<leftarrow> decode_uint16 base (flags out) st;
       (_, cm, st) \<leftarrow> decode_buf N2N_COMMUNITY_SIZE base (community out) st;
       Some (int (snd st) - int idx0,
             \<lparr>ttl = t, pc = ucast (fl AND N2N_FLAGS_TYPE_MASK),
              flags = fl AND N2N_FLAGS_BITS_MASK, community = cm\<rparr>, st) } }"

subsection \<open>Sockets\<close>

definition encode_sock :: "n2n_sock \<Rightarrow> wbuf \<Rightarrow> (int \<times> wbuf) option" where
  "encode_sock sock st =
     (if family sock = AF_INET then do {
        let f = (if socktype sock = SOCK_STREAM then 0x4000 else 0);
        (r1, st) \<leftarrow> encode_uint16 f st;
        (r2, st) \<leftarrow> encode_uint16 (port sock) st;
        (r3, st) \<leftarrow> encode_buf (addr sock) IPV4_SIZE st;
        Some (r1 + r2 + r3, st) }
      else if family sock = AF_INET6 then do {
        let f = (if socktype sock = SOCK_STREAM then 0x8000 OR 0x4000 else 0x8000);
        (r1, st) \<leftarrow> encode_uint16 f st;
        (r2, st) \<leftarrow> encode_uint16 (port sock) st;
        (r3, st) \<leftarrow> encode_buf (addr sock) IPV6_SIZE st;
        Some (r1 + r2 + r3, st) }
      else Some (-1, st))"

text \<open>The decoder returns the difference of a pointer with itself, always zero.\<close>

definition decode_sock :: "bytes \<Rightarrow> n2n_sock \<Rightarrow> rpos \<Rightarrow> (int \<times> n2n_sock \<times> rpos) option" where
  "decode_sock base sock st = do {
     (_, f, st) \<leftarrow> decode_uint16 base 0 st;
     (_, p, st) \<leftarrow> decode_uint16 base (port sock) st;
     (fam, a, st) \<leftarrow>
       (if f AND 0x8000 \<noteq> 0 then do {
          (_, a, st) \<leftarrow> decode_buf IPV6_SIZE base (addr sock) st;
          Some (AF_INET6, a, st) }
        else do {
          (_, a, st) \<leftarrow> decode_buf IPV4_SIZE base (replicate IPV6_SIZE 0) st;
          Some (AF_INET, a, st) });
     Some (0, \<lparr>family = fam, socktype = (if f AND 0x4000 \<noteq> 0 then SOCK_STREAM else SOCK_DGRAM),
               port = p, addr = a\<rparr>, st) }"

definition encode_sock_payload :: "n2n_sock \<Rightarrow> wbuf \<Rightarrow> (int \<times> wbuf) option" where
  "encode_sock_payload sock st = do {
     (r1, st) \<leftarrow> encode_uint8 (family sock) st;
     (r2, st) \<leftarrow> encode_uint8 0 st;
     (r3, st) \<leftarrow> encode_uint8 (ucast (port sock AND 0x00ff)) st;
     (r4, st) \<leftarrow> encode_uint8 (ucast (drop_bit 8 (port sock))) st;
     (r5, st) \<leftarrow> encode_buf (addr sock) IPV6_SIZE st;
     Some (r1 + r2 + r3 + r4 + r5, st) }"

text \<open>The blank byte is skipped without a check, so the remaining count can wrap around.\<close>

definition decode_sock_payload :: "bytes \<Rightarrow> n2n_sock \<Rightarrow> rpos \<Rightarrow> (int \<times> n2n_sock \<times> rpos) option" where
  "decode_sock_payload base sock st = do {
     (r1, fam, st) \<leftarrow> decode_uint8 base (family sock) st;
     let st = ((fst st + (2 ^ 64 - 1)) mod 2 ^ 64, snd st + 1);
     (r2, port_low, st) \<leftarrow> decode_uint8 base 0 st;
     (r3, port_high, st) \<leftarrow> decode_uint8 base 0 st;
     (r4, a, st) \<leftarrow> decode_buf IPV6_SIZE base (addr sock) st;
     Some (r1 + 1 + r2 + r3 + r4,
           sock\<lparr>family := fam, port := push_bit 8 (ucast port_high) + ucast port_low, addr := a\<rparr>,
           st) }"

subsection \<open>Messages\<close>

definition encode_REGISTER ::
  "n2n_common \<Rightarrow> n2n_REGISTER \<Rightarrow> wbuf \<Rightarrow> (int \<times> wbuf) option" where
  "encode_REGISTER common reg st = do {
     (r1, st) \<leftarrow> encode_common common st;
     (r2, st) \<leftarrow> encode_cookie (reg_cookie reg) st;
     (r3, st) \<leftarrow> encode_mac (reg_srcMac reg) st;
     (r4, st) \<leftarrow> encode_mac (reg_dstMac reg) st;
     (r5, st) \<leftarrow> (if flags common AND N2N_FLAGS_SOCKET \<noteq> 0 then encode_sock (reg_sock reg) st
                  else Some (0, st));
     (r6, st) \<leftarrow> encode_uint32 (net_addr (reg_dev_addr reg)) st;
     (r7, st) \<leftarrow> encode_uint8 (net_bitlen (reg_dev_addr reg)) st;
     (r8, st) \<leftarrow> encode_buf (reg_dev_desc reg) N2N_DESC_SIZE st;
     Some (r1 + r2 + r3 + r4 + r5 + r6 + r7 + r8, st) }"

definition decode_REGISTER ::
  "n2n_common \<Rightarrow> bytes \<Rightarrow> rpos \<Rightarrow> (int \<times> n2n_REGISTER \<times> rpos) option" where
  "decode_REGISTER cmn base st = do {
     (r1, ck, st) \<leftarrow> decode_cookie base 0 st;
     (r2, sm, st) \<leftarrow> decode_mac base zero_mac st;
     (r3, dm, st) \<leftarrow> decode_mac base zero_mac st;
     (r4, sk, st) \<leftarrow> (if flags cmn AND N2N_FLAGS_SOCKET \<noteq> 0 then decode_sock base zero_sock st
                      else Some (0, zero_sock, st));
     (r5, na, st) \<leftarrow> decode_uint32 base 0 st;
     (r6, nb, st) \<leftarrow> decode_uint8 base 0 st;
     (r7, dd, st) \<leftarrow> decode_buf N2N_DESC_SIZE base zero_desc st;
     Some (r1 + r2 + r3 + r4 + r5 + r6 + r7,
           \<lparr>reg_cookie = ck, reg_srcMac = sm, reg_dstMac = dm, reg_sock = sk,
            reg_dev_addr = \<lparr>net_addr = na, net_bitlen = nb\<rparr>, reg_dev_desc = dd\<rparr>, st) }"

definition encode_REGISTER_SUPER ::
  "n2n_common \<Rightarrow> n2n_REGISTER_SUPER \<Rightarrow> wbuf \<Rightarrow> (int \<times> wbuf) option" where
  "encode_REGISTER_SUPER common reg st = do {
     (r1, st) \<leftarrow> encode_common common st;
     (r2, st) \<leftarrow> encode_cookie (rs_cookie reg) st;
     (r3, st) \<leftarrow> encode_mac (rs_edgeMac reg) st;
     (r4, st) \<leftarrow> (if flags common AND N2N_FLAGS_SOCKET \<noteq> 0 then encode_sock (rs_sock reg) st
                  else Some (0, st));
     (r5, st) \<leftarrow> encode_uint32 (net_addr (rs_dev_addr reg)) st;
     (r6, st) \<leftarrow> encode_uint8 (net_bitlen (rs_dev_addr reg)) st;
     (r7, st) \<leftarrow> encode_buf (rs_dev_desc reg) N2N_DESC_SIZE st;
     (r8, st) \<leftarrow> encode_uint16 (scheme (rs_auth reg)) st;
     (r9, st) \<leftarrow> encode_uint16 (token_size (rs_auth reg)) st;
     (r10, st) \<leftarrow> encode_buf (token (rs_auth reg)) (unat (token_size (rs_auth reg))) st;
     (r11, st) \<leftarrow> encode_uint32 (rs_key_time reg) st;
     Some (r1 + r2 + r3 + r4 + r5 + r6 + r7 + r8 + r9 + r10 + r11, st) }"

definition decode_REGISTER_SUPER ::
  "n2n_common \<Rightarrow> bytes \<Rightarrow> rpos \<Rightarrow> (int \<times> n2n_REGISTER_SUPER \<times> rpos) option" where
  "decode_REGISTER_SUPER cmn base st = do {
     (r1, ck, st) \<leftarrow> decode_cookie base 0 st;
     (r2, em, st) \<leftarrow> decode_mac base zero_mac st;
     (r3, sk, st) \<leftarrow> (if flags cmn AND N2N_FLAGS_SOCKET \<noteq> 0 then decode_sock base zero_sock st
                      else Some (0, zero_sock, st));
     (r4, na, st) \<leftarrow> decode_uint32 base 0 st;
     (r5, nb, st) \<leftarrow> decode_uint8 base 0 st;
     (r6, dd, st) \<leftarrow> decode_buf N2N_DESC_SIZE base zero_desc st;
     (r7, sc, st) \<leftarrow> decode_uint16 base 0 st;
     (r8, ts, st) \<leftarrow> decode_uint16 base 0 st;
     (r9, tk, st) \<leftarrow> decode_buf (unat ts) base (token zero_auth) st;
     (r10, kt, st) \<leftarrow> decode_uint32 base 0 st;
     Some (r1 + r2 + r3 + r4 + r5 + r6 + r7 + r8 + r9 + r10,
           \<lparr>rs_cookie = ck, rs_edgeMac = em, rs_sock = sk,
            rs_dev_addr = \<lparr>net_addr = na, net_bitlen = nb\<rparr>, rs_dev_desc = dd,
            rs_auth = \<lparr>scheme = sc, token_size = ts, token = tk\<rparr>, rs_key_time = kt\<rparr>, st) }"

definition encode_UNREGISTER_SUPER ::
  "n2n_common \<Rightarrow> n2n_UNREGISTER_SUPER \<Rightarrow> wbuf \<Rightarrow> (int \<times> wbuf) option" where
  "encode_UNREGISTER_SUPER common unreg st = do {
     (r1, st) \<leftarrow> encode_common common st;
     (r2, st) \<leftarrow> encode_uint16 (scheme (unreg_auth unreg)) st;
     (r3, st) \<leftarrow> encode_uint16 (token_size (unreg_auth unreg)) st;
     (r4, st) \<leftarrow> encode_buf (token (unreg_auth unreg)) (unat (token_size (unreg_auth unreg))) st;
     (r5, st) \<leftarrow> encode_mac (unreg_srcMac unreg) st;
     Some (r1 + r2 + r3 + r4 + r5, st) }"

definition decode_UNREGISTER_SUPER ::
  "n2n_common \<Rightarrow> bytes \<Rightarrow> rpos \<Rightarrow> (int \<times> n2n_UNREGISTER_SUPER \<times> rpos) option" where
  "decode_UNREGISTER_SUPER cmn base st = do {
     (r1, sc, st) \<leftarrow> decode_uint16 base 0 st;
     (r2, ts, st) \<leftarrow> decode_uint16 base 0 st;
     (r3, tk, st) \<leftarrow> decode_buf (unat ts) base (token zero_auth) st;
     (r4, sm, st) \<leftarrow> decode_mac base zero_mac st;
     Some (r1 + r2 + r3 + r4,
           \<lparr>unreg_auth = \<lparr>scheme = sc, token_size = ts, token = tk\<rparr>, unreg_srcMac = sm\<rparr>, st) }"

definition encode_REGISTER_ACK ::
  "n2n_common \<Rightarrow> n2n_REGISTER_ACK \<Rightarrow> wbuf \<Rightarrow> (int \<times> wbuf) option" where
  "encode_REGISTER_ACK common reg st = do {
     (r1, st) \<leftarrow> encode_common common st;
     (r2, st) \<leftarrow> encode_cookie (ack_cookie reg) st;
     (r3, st) \<leftarrow> encode_mac (ack_dstMac reg) st;
     (r4, st) \<leftarrow> encode_mac (ack_srcMac reg) st;
     (r5, st) \<leftarrow> (if flags common AND N2N_FLAGS_SOCKET \<noteq> 0 then encode_sock (ack_sock reg) st
                  else Some (0, st));
     Some (r1 + r2 + r3 + r4 + r5, st) }"

definition decode_REGISTER_ACK ::
  "n2n_common \<Rightarrow> bytes \<Rightarrow> rpos \<Rightarrow> (int \<times> n2n_REGISTER_ACK \<times> rpos) option" where
  "decode_REGISTER_ACK cmn base st = do {
     (r1, ck, st) \<leftarrow> decode_cookie base 0 st;
     (r2, dm, st) \<leftarrow> decode_mac base zero_mac st;
     (r3, sm, st) \<leftarrow> decode_mac base zero_mac st;
     (r4, sk, st) \<leftarrow> (if flags cmn AND N2N_FLAGS_SOCKET \<noteq> 0 then decode_sock base zero_sock st
                      else Some (0, zero_sock, st));
     Some (r1 + r2 + r3 + r4,
           \<lparr>ack_cookie = ck, ack_srcMac = sm, ack_dstMac = dm, ack_sock = sk\<rparr>, st) }"

definition encode_REGISTER_SUPER_ACK ::
  "n2n_common \<Rightarrow> n2n_REGISTER_SUPER_ACK \<Rightarrow> bytes \<Rightarrow> wbuf \<Rightarrow> (int \<times> wbuf) option" where
  "encode_REGISTER_SUPER_ACK common reg tmpbuf st = do {
     (r1, st) \<leftarrow> encode_common common st;
     (r2, st) \<leftarrow> encode_cookie (rsa_cookie reg) st;
     (r3, st) \<leftarrow> encode_mac (rsa_srcMac reg) st;
     (r4, st) \<leftarrow> encode_uint32 (net_addr (rsa_dev_addr reg)) st;
     (r5, st) \<leftarrow> encode_uint8 (net_bitlen (rsa_dev_addr reg)) st;
     (r6, st) \<leftarrow> encode_uint16 (rsa_lifetime reg) st;
     (r7, st) \<leftarrow> encode_sock (rsa_sock reg) st;
     (r8, st) \<leftarrow> encode_uint16 (scheme (rsa_auth reg)) st;
     (r9, st) \<leftarrow> encode_uint16 (token_size (rsa_auth reg)) st;
     (r10, st) \<leftarrow> encode_buf (token (rsa_auth reg)) (unat (token_size (rsa_auth reg))) st;
     (r11, st) \<leftarrow> encode_uint8 (rsa_num_sn reg) st;
     (r12, st) \<leftarrow> encode_buf tmpbuf (unat (rsa_num_sn reg) * REG_SUPER_ACK_PAYLOAD_ENTRY_SIZE) st;
     (r13, st) \<leftarrow> encode_uint32 (rsa_key_time reg) st;
     Some (r1 + r2 + r3 + r4 + r5 + r6 + r7 + r8 + r9 + r10 + r11 + r12 + r13, st) }"

definition decode_REGISTER_SUPER_ACK ::
  "n2n_common \<Rightarrow> bytes \<Rightarrow> bytes \<Rightarrow> rpos \<Rightarrow> (int \<times> (n2n_REGISTER_SUPER_ACK \<times> bytes) \<times> rpos) option" where
  "decode_REGISTER_SUPER_ACK cmn base tmpbuf st = do {
     (r1, ck, st) \<leftarrow> decode_cookie base 0 st;
     (r2, sm, st) \<leftarrow> decode_mac base zero_mac st;
     (r3, na, st) \<leftarrow> decode_uint32 base 0 st;
     (r4, nb, st) \<leftarrow> decode_uint8 base 0 st;
     (r5, lt, st) \<leftarrow> decode_uint16 base 0 st;
     (r6, sk, st) \<leftarrow> decode_sock base zero_sock st;
     (r7, sc, st) \<leftarrow> decode_uint16 base 0 st;
     (r8, ts, st) \<leftarrow> decode_uint16 base 0 st;
     (r9, tk, st) \<leftarrow> decode_buf (unat ts) base (token zero_auth) st;
     (r10, ns, st) \<leftarrow> decode_uint8 base 0 st;
     (r11, tb, st) \<leftarrow> decode_buf (unat ns * REG_SUPER_ACK_PAYLOAD_ENTRY_SIZE) base tmpbuf st;
     (r12, kt, st) \<leftarrow> decode_uint32 base 0 st;
     Some (r1 + r2 + r3 + r4 + r5 + r6 + r7 + r8 + r9 + r10 + r11 + r12,
           (\<lparr>rsa_cookie = ck, rsa_srcMac = sm, rsa_dev_addr = \<lparr>net_addr = na, net_bitlen = nb\<rparr>,
             rsa_lifetime = lt, rsa_sock = sk,
             rsa_auth = \<lparr>scheme = sc, token_size = ts, token = tk\<rparr>, rsa_num_sn = ns,
             rsa_key_time = kt\<rparr>, tb), st) }"

definition encode_REGISTER_SUPER_NAK ::
  "n2n_common \<Rightarrow> n2n_REGISTER_SUPER_NAK \<Rightarrow> wbuf \<Rightarrow> (int \<times> wbuf) option" where
  "encode_REGISTER_SUPER_NAK common nak st = do {
     (r1, st) \<leftarrow> encode_common common st;
     (r2, st) \<leftarrow> encode_cookie (nak_cookie nak) st;
     (r3, st) \<leftarrow> encode_mac (nak_srcMac nak) st;
     (r4, st) \<leftarrow> encode_uint16 (scheme (nak_auth nak)) st;
     (r5, st) \<leftarrow> encode_uint16 (token_size (nak_auth nak)) st;
     (r6, st) \<leftarrow> encode_buf (token (nak_auth nak)) (unat (token_size (nak_auth nak))) st;
     Some (r1 + r2 + r3 + r4 + r5 + r6, st) }"

definition decode_REGISTER_SUPER_NAK ::
  "n2n_common \<Rightarrow> bytes \<Rightarrow> rpos \<Rightarrow> (int \<times> n2n_REGISTER_SUPER_NAK \<times> rpos) option" where
  "decode_REGISTER_SUPER_NAK cmn base st = do {
     (r1, ck, st) \<leftarrow> decode_cookie base 0 st;
     (r2, sm, st) \<leftarrow> decode_mac base zero_mac st;
     (r3, sc, st) \<leftarrow> decode_uint16 base 0 st;
     (r4, ts, st) \<leftarrow> decode_uint16 base 0 st;
     (r5, tk, st) \<leftarrow> decode_buf (unat ts) base (token zero_auth) st;
     Some (r1 + r2 + r3 + r4 + r5,
           \<lparr>nak_cookie = ck, nak_srcMac = sm,
            nak_auth = \<lparr>scheme = sc, token_size = ts, token = tk\<rparr>\<rparr>, st) }"

subsection \<open>Socket addresses of the operating system\<close>

text \<open>
  A \<^verbatim>\<open>struct sockaddr\<close> as far as the two functions use it: the family, the port in network order and
  the address members of \<^verbatim>\<open>sockaddr_in\<close> and \<^verbatim>\<open>sockaddr_in6\<close>.
\<close>

record sockaddr =
  sa_family :: byte
  sa_port :: u16
  sin_addr :: bytes
  sin6_addr :: bytes

definition htons :: "u16 \<Rightarrow> u16" where
  "htons v = le_word (rev (le_bytes 2 v))"

abbreviation sizeof_sockaddr_in :: nat where "sizeof_sockaddr_in \<equiv> 16"
abbreviation sizeof_sockaddr_in6 :: nat where "sizeof_sockaddr_in6 \<equiv> 28"

definition fill_sockaddr :: "sockaddr \<Rightarrow> nat \<Rightarrow> n2n_sock \<Rightarrow> int \<times> sockaddr" where
  "fill_sockaddr sa addrlen sock =
     (if family sock = AF_INET \<and> addrlen \<ge> sizeof_sockaddr_in
      then (0, sa\<lparr>sa_family := family sock, sa_port := htons (port sock),
                  sin_addr := take IPV4_SIZE (addr sock)\<rparr>)
      else if family sock = AF_INET6 \<and> addrlen \<ge> sizeof_sockaddr_in6
      then (0, sa\<lparr>sa_family := family sock, sa_port := htons (port sock),
                  sin6_addr := take IPV6_SIZE (addr sock)\<rparr>)
      else (-1, sa))"

definition fill_n2nsock :: "sockaddr \<Rightarrow> int \<times> n2n_sock" where
  "fill_n2nsock sa =
     (if sa_family sa = AF_INET
      then (0, zero_sock\<lparr>family := sa_family sa, port := htons (sa_port sa),
                         addr := overlay (addr zero_sock) 0 (take IPV4_SIZE (sin_addr sa))\<rparr>)
      else if sa_family sa = AF_INET6
      then (0, zero_sock\<lparr>family := sa_family sa, port := htons (sa_port sa),
                         addr := overlay (addr zero_sock) 0 (take IPV6_SIZE (sin6_addr sa))\<rparr>)
      else (-1, zero_sock\<lparr>family := AF_INVALID\<rparr>))"

subsection \<open>Data packets and peer information\<close>

definition encode_PACKET ::
  "n2n_common \<Rightarrow> n2n_PACKET \<Rightarrow> wbuf \<Rightarrow> (int \<times> wbuf) option" where
  "encode_PACKET common pkt st = do {
     (r1, st) \<leftarrow> encode_common common st;
     (r2, st) \<leftarrow> encode_mac (pkt_srcMac pkt) st;
     (r3, st) \<leftarrow> encode_mac (pkt_dstMac pkt) st;
     (r4, st) \<leftarrow> (if flags common AND N2N_FLAGS_SOCKET \<noteq> 0 then encode_sock (pkt_sock pkt) st
                  else Some (0, st));
     (r5, st) \<leftarrow> encode_uint8 (pkt_compression pkt) st;
     (r6, st) \<leftarrow> encode_uint8 (pkt_transform pkt) st;
     Some (r1 + r2 + r3 + r4 + r5 + r6, st) }"

definition decode_PACKET ::
  "n2n_common \<Rightarrow> bytes \<Rightarrow> rpos \<Rightarrow> (int \<times> n2n_PACKET \<times> rpos) option" where
  "decode_PACKET cmn base st = do {
     (r1, sm, st) \<leftarrow> decode_mac base zero_mac st;
     (r2, dm, st) \<leftarrow> decode_mac base zero_mac st;
     (r3, sk, st) \<leftarrow> (if flags cmn AND N2N_FLAGS_SOCKET \<noteq> 0 then decode_sock base zero_sock st
                      else Some (0, zero_sock, st));
     (r4, cp, st) \<leftarrow> decode_uint8 base 0 st;
     (r5, tr, st) \<leftarrow> decode_uint8 base 0 st;
     Some (r1 + r2 + r3 + r4 + r5,
           \<lparr>pkt_srcMac = sm, pkt_dstMac = dm, pkt_sock = sk, pkt_transform = tr,
            pkt_compression = cp\<rparr>, st) }"

definition encode_PEER_INFO ::
  "n2n_common \<Rightarrow> n2n_PEER_INFO \<Rightarrow> wbuf \<Rightarrow> (int \<times> wbuf) option" where
  "encode_PEER_INFO cmn pkt st = do {
     (r1, st) \<leftarrow> encode_common cmn st;
     (r2, st) \<leftarrow> encode_uint16 (pi_aflags pkt) st;
     (r3, st) \<leftarrow> encode_mac (pi_srcMac pkt) st;
     (r4, st) \<leftarrow> encode_mac (pi_mac pkt) st;
     (r5, st) \<leftarrow> encode_sock (pi_sock pkt) st;
     (r6, st) \<leftarrow> (if flags cmn AND N2N_FLAGS_SOCKET \<noteq> 0 then encode_sock (pi_preferred_sock pkt) st
                  else Some (0, st));
     (r7, st) \<leftarrow> encode_uint32 (pi_load pkt) st;
     (r8, st) \<leftarrow> encode_uint32 (ucast (pi_uptime pkt)) st;
     (r9, st) \<leftarrow> encode_buf (pi_version pkt) N2N_VERSION_STRING_SIZE st;
     Some (r1 + r2 + r3 + r4 + r5 + r6 + r7 + r8 + r9, st) }"

definition decode_PEER_INFO ::
  "n2n_common \<Rightarrow> bytes \<Rightarrow> rpos \<Rightarrow> (int \<times> n2n_PEER_INFO \<times> rpos) option" where
  "decode_PEER_INFO cmn base st = do {
     (r1, af, st) \<leftarrow> decode_uint16 base 0 st;
     (r2, sm, st) \<leftarrow> decode_mac base zero_mac st;
     (r3, mc, st) \<leftarrow> decode_mac base zero_mac st;
     (r4, sk, st) \<leftarrow> decode_sock base zero_sock st;
     (r5, ps, st) \<leftarrow> (if flags cmn AND N2N_FLAGS_SOCKET \<noteq> 0 then decode_sock base zero_sock st
                      else Some (0, zero_sock, st));
     (r6, ld, st) \<leftarrow> decode_uint32 base 0 st;
     (r7, up, st) \<leftarrow> decode_uint32 base 0 st;
     (r8, vs, st) \<leftarrow> decode_buf N2N_VERSION_STRING_SIZE base (replicate N2N_VERSION_STRING_SIZE 0) st;
     Some (r1 + r2 + r3 + r4 + r5 + r6 + r7 + r8,
           \<lparr>pi_aflags = af, pi_srcMac = sm, pi_mac = mc, pi_sock = sk, pi_preferred_sock = ps,
            pi_load = ld, pi_version = vs, pi_uptime = ucast up\<rparr>, st) }"

definition encode_QUERY_PEER ::
  "n2n_common \<Rightarrow> n2n_QUERY_PEER \<Rightarrow> wbuf \<Rightarrow> (int \<times> wbuf) option" where
  "encode_QUERY_PEER common pkt st = do {
     (r1, st) \<leftarrow> encode_common common st;
     (r2, st) \<leftarrow> encode_mac (qp_srcMac pkt) st;
     (r3, st) \<leftarrow> encode_mac (qp_targetMac pkt) st;
     (r4, st) \<leftarrow> encode_uint16 (qp_aflags pkt) st;
     Some (r1 + r2 + r3 + r4, st) }"

definition decode_QUERY_PEER ::
  "n2n_common \<Rightarrow> bytes \<Rightarrow> rpos \<Rightarrow> (int \<times> n2n_QUERY_PEER \<times> rpos) option" where
  "decode_QUERY_PEER cmn base st = do {
     (r1, sm, st) \<leftarrow> decode_mac base zero_mac st;
     (r2, tm, st) \<leftarrow> decode_mac base zero_mac st;
     (r3, af, st) \<leftarrow> decode_uint16 base 0 st;
     Some (r1 + r2 + r3,
           \<lparr>qp_aflags = af, qp_srcMac = sm, qp_sock = zero_sock, qp_targetMac = tm\<rparr>, st) }"

end
