(* ===== verification/Wire_Format.thy ===== *)
theory Wire_Format
  imports Wire
begin

text \<open>
  What the routines of \<^verbatim>\<open>src/wire.c\<close> promise. The wire format of each message is given as the list of
  its bytes (\<open>*_bytes\<close>); the encoders refine the appending of that list to the buffer, the decoders
  read it back and never leave the buffer.
\<close>

subsection \<open>Appending to a buffer\<close>

definition emit :: "int \<Rightarrow> bytes \<Rightarrow> wbuf \<Rightarrow> (int \<times> wbuf) option" where
  "emit r bs = (\<lambda>(base, idx).
     if idx + length bs \<le> length base then Some (r, overlay base idx bs, idx + length bs) else None)"

lemma emit_bind:
  "Option.bind (emit r a st) (\<lambda>(x, st'). Option.bind (emit s b st') (g x)) =
   Option.bind (emit r (a @ b) st) (\<lambda>(x, st'). g r (s, st'))"
proof (cases st)
  case (Pair base idx)
  show ?thesis
  proof (cases "idx + length a + length b \<le> length base")
    case True
    then show ?thesis
      by (simp add: Pair emit_def overlay_append add.assoc)
  next
    case False
    then show ?thesis
      by (simp add: Pair emit_def)
  qed
qed

lemma emit_return: "Option.bind (emit r a st) (\<lambda>(x, st'). Some (f x, st')) = emit (f r) a st"
  by (cases st) (simp add: emit_def)

lemma emit_seq: "Option.bind (emit r a st) (\<lambda>(x, st'). emit (f x) b st') = emit (f r) (a @ b) st"
  by (cases st) (auto simp: emit_def overlay_append add.assoc)

lemmas emit_simps = emit_bind emit_return emit_seq Let_def

lemma emit_eq_Some:
  "emit r bs (base, idx) = Some (r', base', idx') \<longleftrightarrow>
     idx + length bs \<le> length base \<and> r' = r \<and> base' = overlay base idx bs \<and> idx' = idx + length bs"
  by (auto simp: emit_def)

lemma and_0xff_byte [simp]: "(v :: byte) AND 0xff = v"
proof -
  have "(0xff :: byte) = -1" by simp
  then show ?thesis by (metis and.right_neutral)
qed

lemma ucast_and_0xff [simp]:
  "(ucast ((v :: u16) AND 0xff) :: byte) = ucast v"
  "(ucast ((w :: u32) AND 0xff) :: byte) = ucast w"
proof -
  have m16: "(0xff :: u16) = mask 8" and m32: "(0xff :: u32) = mask 8"
    by (simp_all add: mask_eq_exp_minus_1)
  show "(ucast (v AND 0xff) :: byte) = ucast v"
    unfolding m16 by (rule bit_word_eqI) (simp add: bit_unsigned_iff bit_and_iff bit_mask_iff)
  show "(ucast (w AND 0xff) :: byte) = ucast w"
    unfolding m32 by (rule bit_word_eqI) (simp add: bit_unsigned_iff bit_and_iff bit_mask_iff)
qed

lemma be_bytes_2: "be_bytes 2 (v :: u16) = [ucast (drop_bit 8 v), ucast v]"
  by (simp add: be_bytes_def le_bytes_def upt_rec numeral_2_eq_2)

lemma be_bytes_4:
  "be_bytes 4 (v :: u32) =
     [ucast (drop_bit 24 v), ucast (drop_bit 16 v), ucast (drop_bit 8 v), ucast v]"
  by (simp add: be_bytes_def le_bytes_def upt_rec)

lemma be_word_2: "(be_word [b0, b1] :: u16) = push_bit 8 (ucast b0) OR ucast b1"
  by (simp add: be_word_def or.commute)

lemma be_word_4:
  "(be_word [b0, b1, b2, b3] :: u32) =
     push_bit 24 (ucast b0) OR push_bit 16 (ucast b1) OR push_bit 8 (ucast b2) OR ucast b3"
  by (simp add: be_word_def push_bit_or or.assoc or.commute or.left_commute)

lemma encode_uint8_emit: "encode_uint8 v = emit 1 [v]"
  by (auto simp: encode_uint8_def emit_def wr_def)

lemma encode_uint16_emit: "encode_uint16 v = emit 2 (be_bytes 2 v)"
  by (auto simp: encode_uint16_def emit_def wr_def be_bytes_2)

lemma encode_uint32_emit: "encode_uint32 v = emit 4 (be_bytes 4 v)"
  by (auto simp: encode_uint32_def emit_def wr_def be_bytes_4)

lemma encode_uint64_emit: "encode_uint64 v = emit 8 (be_bytes 8 v)"
  by (auto simp: encode_uint64_def emit_def wr_def htobe64_def be_bytes_def)

lemma encode_buf_emit: "s \<le> length p \<Longrightarrow> encode_buf p s = emit (int s) (take s p)"
  by (auto simp: encode_buf_def emit_def wr_def rd_def fun_eq_iff)

lemma encode_mac_emit: "mac_wf m \<Longrightarrow> encode_mac m = emit 6 m"
  by (simp add: encode_mac_def encode_buf_emit mac_wf_def)

lemmas encode_emit =
  encode_uint8_emit encode_uint16_emit encode_uint32_emit encode_uint64_emit encode_buf_emit
  encode_mac_emit encode_cookie_def

subsection \<open>Reading from a buffer\<close>

lemma decode_uint8_at:
  "1 \<le> rem \<Longrightarrow> idx + 1 \<le> length base \<Longrightarrow>
   decode_uint8 base out (rem, idx) = Some (1, be_word (take 1 (drop idx base)), rem - 1, idx + 1)"
  by (simp add: decode_uint8_def rd_def take_Suc be_word_def hd_drop_conv_nth)

lemma decode_uint16_at:
  assumes "2 \<le> rem" and "idx + 2 \<le> length base"
  shows "decode_uint16 base out (rem, idx) =
           Some (2, be_word (take 2 (drop idx base)), rem - 2, idx + 2)"
proof -
  let ?bs = "take 2 (drop idx base)"
  have "?bs = [?bs ! 0, ?bs ! 1]"
    by (rule list_2) (use assms in simp)
  then have "(be_word ?bs :: u16) = push_bit 8 (ucast (?bs ! 0)) OR ucast (?bs ! 1)"
    by (metis be_word_2)
  then show ?thesis
    using assms by (simp add: decode_uint16_def rd_def)
qed

lemma decode_uint32_at:
  assumes "4 \<le> rem" and "idx + 4 \<le> length base"
  shows "decode_uint32 base out (rem, idx) =
           Some (4, be_word (take 4 (drop idx base)), rem - 4, idx + 4)"
proof -
  let ?bs = "take 4 (drop idx base)"
  have "?bs = [?bs ! 0, ?bs ! 1, ?bs ! 2, ?bs ! 3]"
    by (rule list_4) (use assms in simp)
  then have "(be_word ?bs :: u32) = push_bit 24 (ucast (?bs ! 0)) OR push_bit 16 (ucast (?bs ! 1))
      OR push_bit 8 (ucast (?bs ! 2)) OR ucast (?bs ! 3)"
    by (metis be_word_4)
  then show ?thesis
    using assms by (simp add: decode_uint32_def rd_def)
qed

lemma decode_buf_at:
  "n \<le> rem \<Longrightarrow> idx + n \<le> length base \<Longrightarrow> n \<le> length out \<Longrightarrow>
   decode_buf n base out (rem, idx) =
     Some (int n, take n (drop idx base) @ drop n out, rem - n, idx + n)"
  by (simp add: decode_buf_def rd_def wr_def overlay_def)

text \<open>
  \<open>feed base e st bs\<close>: the bytes that remain to be decoded at position \<open>st\<close> lie inside the buffer, end
  at \<open>e\<close>, and are \<open>bs\<close>. \<open>yields base e m r y rest\<close>: the decoder \<open>m\<close> returns \<open>r\<close> with output \<open>y\<close> and
  leaves \<open>rest\<close>. \<open>safe base e P m\<close>: \<open>m\<close> does not leave the buffer, and its output satisfies \<open>P\<close>.
\<close>

definition bounded :: "bytes \<Rightarrow> nat \<Rightarrow> rpos \<Rightarrow> bool" where
  "bounded base e st \<longleftrightarrow> snd st + fst st = e \<and> e \<le> length base"

definition feed :: "bytes \<Rightarrow> nat \<Rightarrow> rpos \<Rightarrow> bytes \<Rightarrow> bool" where
  "feed base e st bs \<longleftrightarrow> bounded base e st \<and> take (fst st) (drop (snd st) base) = bs"

definition yields ::
  "bytes \<Rightarrow> nat \<Rightarrow> (int \<times> 'v \<times> rpos) option \<Rightarrow> int \<Rightarrow> 'v \<Rightarrow> bytes \<Rightarrow> bool" where
  "yields base e m r y rest \<longleftrightarrow> (\<exists>st. m = Some (r, y, st) \<and> feed base e st rest)"

definition safe :: "bytes \<Rightarrow> nat \<Rightarrow> ('v \<Rightarrow> bool) \<Rightarrow> (int \<times> 'v \<times> rpos) option \<Rightarrow> bool" where
  "safe base e P m \<longleftrightarrow> (\<exists>r y st. m = Some (r, y, st) \<and> bounded base e st \<and> P y)"

lemma feed_length: "feed base e st bs \<Longrightarrow> length bs = fst st"
  by (auto simp: feed_def bounded_def)

lemma feed_pos: "feed base e st bs \<Longrightarrow> st = (length bs, e - length bs)"
  by (cases st) (auto simp: feed_def bounded_def)

lemma feed_split:
  assumes "feed base e (rem, idx) (a @ rest)" and "length a = n"
  shows "n \<le> rem" "idx + n \<le> length base" "take n (drop idx base) = a"
    "feed base e (rem - n, idx + n) rest"
proof -
  have len: "length a + length rest = rem"
    using feed_length [OF assms(1)] by simp
  then show n: "n \<le> rem" using assms(2) by simp
  then show "idx + n \<le> length base"
    using assms(1) by (simp add: feed_def bounded_def)
  have t: "take rem (drop idx base) = a @ rest"
    using assms(1) by (simp add: feed_def)
  have "take n (drop idx base) = take n (take rem (drop idx base))"
    using n by (simp add: min_def)
  then show "take n (drop idx base) = a"
    using t assms(2) by simp
  have "drop n (take rem (drop idx base)) = rest"
    using t assms(2) by simp
  then show "feed base e (rem - n, idx + n) rest"
    using assms(1) n by (simp add: feed_def bounded_def drop_take add.commute)
qed

lemma feed_splitE:
  assumes "feed base e st (a @ rest)"
  obtains rem idx where "st = (rem, idx)" "length a \<le> rem" "idx + length a \<le> length base"
    "take (length a) (drop idx base) = a" "feed base e (rem - length a, idx + length a) rest"
  using assms feed_split [where a = a and n = "length a", OF _ refl] by (cases st) metis

lemma yields_bind:
  assumes "yields base e m r x rest"
    and "\<And>st. feed base e st rest \<Longrightarrow> yields base e (k (r, x, st)) r' y rest'"
  shows "yields base e (Option.bind m k) r' y rest'"
  using assms by (auto simp: yields_def)

lemma yields_return:
  "feed base e st rest \<Longrightarrow> r = r' \<Longrightarrow> x = y \<Longrightarrow> yields base e (Some (r, x, st)) r' y rest"
  by (simp add: yields_def)

lemma yields_eq: "yields base e m r y rest \<Longrightarrow> m = Some (r, y, length rest, e - length rest)"
  by (auto simp: yields_def dest: feed_pos)

lemma safe_bind:
  assumes "safe base e P m"
    and "\<And>r x st. bounded base e st \<Longrightarrow> P x \<Longrightarrow> safe base e Q (k (r, x, st))"
  shows "safe base e Q (Option.bind m k)"
  using assms by (auto simp: safe_def)

lemma safe_return: "bounded base e st \<Longrightarrow> P x \<Longrightarrow> safe base e P (Some (r, x, st))"
  by (auto simp: safe_def)

text \<open>
  The contract of a field of the wire format: the encoder \<open>enc\<close> appends the bytes \<open>ser v\<close> of a value
  that is \<open>ok\<close>; the decoder \<open>dec\<close>, given an output variable that is \<open>dst\<close> (a buffer of the declared
  size), reads it back, returns \<open>ret v\<close>, never leaves the buffer, and always leaves an output that is \<open>res\<close>.
\<close>

locale wire_field =
  fixes enc :: "'v \<Rightarrow> wbuf \<Rightarrow> (int \<times> wbuf) option"
    and dec :: "bytes \<Rightarrow> 'v \<Rightarrow> rpos \<Rightarrow> (int \<times> 'v \<times> rpos) option"
    and ser :: "'v \<Rightarrow> bytes"
    and ok :: "'v \<Rightarrow> bool"
    and dst :: "'v \<Rightarrow> bool"
    and res :: "'v \<Rightarrow> bool"
    and ret :: "'v \<Rightarrow> int"
  assumes enc_emit: "ok v \<Longrightarrow> snd wb \<le> length (fst wb) \<Longrightarrow>
      enc v wb = emit (int (length (ser v))) (ser v) wb"
    and dec_yields: "feed base e st (ser v @ rest) \<Longrightarrow> ok v \<Longrightarrow> dst out \<Longrightarrow>
      yields base e (dec base out st) (ret v) v rest"
    and dec_safe: "bounded base e st \<Longrightarrow> dst out \<Longrightarrow> safe base e res (dec base out st)"
begin

lemma dec_bind:
  assumes "feed base e st (ser v @ rest)" and "ok v" and "dst out"
    and "\<And>st'. feed base e st' rest \<Longrightarrow> yields base e (k (ret v, v, st')) r y rest'"
  shows "yields base e (Option.bind (dec base out st) k) r y rest'"
  using dec_yields [OF assms(1-3)] assms(4) by (rule yields_bind)

lemma dec_fault_bind:
  assumes "feed base e st (ser v @ rest)" and "ok v" and "dst out"
    and "\<And>st'. feed base e st' rest \<Longrightarrow> k (ret v, v, st') = None"
  shows "Option.bind (dec base out st) k = None"
  using dec_yields [OF assms(1-3)] assms(4) by (auto simp: yields_def)

lemma dec_safe_bind:
  assumes "bounded base e st" and "dst out"
    and "\<And>r x st'. bounded base e st' \<Longrightarrow> res x \<Longrightarrow> safe base e Q (k (r, x, st'))"
  shows "safe base e Q (Option.bind (dec base out st) k)"
  using dec_safe [OF assms(1,2)] assms(3) by (rule safe_bind)

lemma roundtrip:
  assumes "enc v (base, idx) = Some (r, base', idx')" and "ok v" and "dst out" and "idx \<le> length base"
  shows "dec base' out (idx' - idx, idx) = Some (ret v, v, 0, idx')"
proof -
  have "emit (int (length (ser v))) (ser v) (base, idx) = Some (r, base', idx')"
    using assms enc_emit by simp
  then have "feed base' idx' (idx' - idx, idx) (ser v @ [])"
    by (auto simp: emit_eq_Some feed_def bounded_def)
  from yields_eq [OF dec_yields [OF this assms(2,3)]] show ?thesis by simp
qed

end

subsection \<open>The fields\<close>

lemma be_word_simps [simp]:
  "be_word (be_bytes 1 (u :: byte)) = u" "be_word (be_bytes (Suc 0) (u :: byte)) = u"
  "be_word (be_bytes 2 (v :: u16)) = v" "be_word (be_bytes 4 (w :: u32)) = w"
  by (simp_all add: be_word_be_bytes)

lemma be_bytes_1: "be_bytes 1 (v :: byte) = [v]"
  by (simp add: be_bytes_def le_bytes_def)

interpretation u8: wire_field encode_uint8 decode_uint8 "be_bytes 1" "\<lambda>_. True" "\<lambda>_. True" "\<lambda>_. True" "\<lambda>_. 1"
proof unfold_locales
  show "encode_uint8 v wb = emit (int (length (be_bytes 1 v))) (be_bytes 1 v) wb" for v wb
    by (simp add: encode_uint8_emit be_bytes_1 [unfolded One_nat_def])
  show "yields base e (decode_uint8 base out st) 1 v rest"
    if "feed base e st (be_bytes 1 v @ rest)" for base e st v rest out
    using that by (rule feed_splitE) (auto simp: yields_def decode_uint8_at)
  show "safe base e (\<lambda>_. True) (decode_uint8 base out st)" if "bounded base e st" for base e st out
    using that by (cases st) (auto simp: safe_def bounded_def decode_uint8_def rd_def)
qed

interpretation u16: wire_field encode_uint16 decode_uint16 "be_bytes 2" "\<lambda>_. True" "\<lambda>_. True" "\<lambda>_. True" "\<lambda>_. 2"
proof unfold_locales
  show "encode_uint16 v wb = emit (int (length (be_bytes 2 v))) (be_bytes 2 v) wb" for v wb
    by (simp add: encode_uint16_emit)
  show "yields base e (decode_uint16 base out st) 2 v rest"
    if "feed base e st (be_bytes 2 v @ rest)" for base e st v rest out
    using that by (rule feed_splitE) (auto simp: yields_def decode_uint16_at)
  show "safe base e (\<lambda>_. True) (decode_uint16 base out st)" if "bounded base e st" for base e st out
    using that by (cases st) (auto simp: safe_def bounded_def decode_uint16_def rd_def)
qed

interpretation u32: wire_field encode_uint32 decode_uint32 "be_bytes 4" "\<lambda>_. True" "\<lambda>_. True" "\<lambda>_. True" "\<lambda>_. 4"
proof unfold_locales
  show "encode_uint32 v wb = emit (int (length (be_bytes 4 v))) (be_bytes 4 v) wb" for v wb
    by (simp add: encode_uint32_emit)
  show "yields base e (decode_uint32 base out st) 4 v rest"
    if "feed base e st (be_bytes 4 v @ rest)" for base e st v rest out
    using that by (rule feed_splitE) (auto simp: yields_def decode_uint32_at)
  show "safe base e (\<lambda>_. True) (decode_uint32 base out st)" if "bounded base e st" for base e st out
    using that by (cases st) (auto simp: safe_def bounded_def decode_uint32_def rd_def)
qed

text \<open>A buffer of \<open>N\<close> bytes of which the first \<open>n\<close> travel and the others are zero.\<close>

definition padded :: "nat \<Rightarrow> nat \<Rightarrow> bytes \<Rightarrow> bool" where
  "padded n N xs \<longleftrightarrow> length xs = N \<and> drop n xs = replicate (N - n) 0"

lemma padded_full: "padded n n = (\<lambda>xs. length xs = n)"
  by (auto simp: padded_def fun_eq_iff)

lemma buf_field:
  assumes "n \<le> N"
  shows "wire_field (\<lambda>p. encode_buf p n) (decode_buf n) (take n) (padded n N) (padded n N)
    (padded n N) (\<lambda>_. int n)"
proof unfold_locales
  show "encode_buf v n wb = emit (int (length (take n v))) (take n v) wb" if "padded n N v" for v wb
    using that assms by (simp add: padded_def encode_buf_emit)
  show "yields base e (decode_buf n base out st) (int n) v rest"
    if "feed base e st (take n v @ rest)" and v: "padded n N v" and out: "padded n N out"
    for base e st v rest out
  proof -
    have "take n v @ drop n out = v"
      using v out by (metis append_take_drop_id padded_def)
    from that(1) show ?thesis
      by (rule feed_splitE) (use \<open>take n v @ drop n out = v\<close> v out assms in \<open>auto simp: yields_def padded_def decode_buf_at\<close>)
  qed
  show "safe base e (padded n N) (decode_buf n base out st)"
    if "bounded base e st" and "padded n N out" for base e st out
    using that assms
    by (cases st) (auto simp: safe_def bounded_def padded_def decode_buf_def rd_def wr_def overlay_def)
qed

interpretation mac: wire_field encode_mac decode_mac "take 6" mac_wf mac_wf mac_wf "\<lambda>_. 6"
  using buf_field [of 6 6] by (simp add: encode_mac_def [abs_def] decode_mac_def mac_wf_def [abs_def] padded_full)

text \<open>A socket as the wire format has it: the unused part of an IPv4 address is zero.\<close>

definition sock_canon :: "n2n_sock \<Rightarrow> bool" where
  "sock_canon s \<longleftrightarrow> sock_wf s \<and> (family s = AF_INET \<or> family s = AF_INET6)
     \<and> (socktype s = SOCK_STREAM \<or> socktype s = SOCK_DGRAM)
     \<and> (family s = AF_INET \<longrightarrow> drop IPV4_SIZE (addr s) = replicate 12 0)"

definition sock_flags :: "n2n_sock \<Rightarrow> u16" where
  "sock_flags s = (if family s = AF_INET6 then 0x8000 else 0) OR (if socktype s = SOCK_STREAM then 0x4000 else 0)"

definition sock_bytes :: "n2n_sock \<Rightarrow> bytes" where
  "sock_bytes s = be_bytes 2 (sock_flags s) @ be_bytes 2 (port s)
     @ take (if family s = AF_INET then IPV4_SIZE else IPV6_SIZE) (addr s)"

lemmas u8_bind = u8.dec_bind [OF _ TrueI TrueI]
lemmas u16_bind = u16.dec_bind [OF _ TrueI TrueI]
lemmas u32_bind = u32.dec_bind [OF _ TrueI TrueI]
lemmas buf_bind = wire_field.dec_bind [OF buf_field]

lemma decode_sock_yields:
  assumes "feed base e st (sock_bytes s @ rest)" and "sock_canon s" and "sock_wf out"
  shows "yields base e (decode_sock base out st) 0 s rest"
proof -
  have feed: "feed base e st (be_bytes 2 (sock_flags s) @ be_bytes 2 (port s)
     @ take (if family s = AF_INET then IPV4_SIZE else IPV6_SIZE) (addr s) @ rest)"
    using assms(1) by (simp add: sock_bytes_def)
  have v6: "sock_flags s AND 0x8000 \<noteq> 0 \<longleftrightarrow> family s = AF_INET6"
    and tcp: "sock_flags s AND 0x4000 \<noteq> 0 \<longleftrightarrow> socktype s = SOCK_STREAM"
    by (simp_all add: sock_flags_def)
  consider (v4) "family s = AF_INET" "padded 4 16 (addr s)" | (v6) "family s = AF_INET6" "padded 16 16 (addr s)"
    using assms(2) by (auto simp: sock_canon_def sock_wf_def padded_def)
  then show ?thesis
  proof cases
    case v4
    show ?thesis
      unfolding decode_sock_def
      apply (rule u16_bind [OF feed], simp only: prod.case)
      apply (rule u16_bind, assumption)
      apply (simp add: v6 tcp v4 bind_assoc split del: if_split)
      apply (rule buf_bind [where N = 16], simp, assumption, rule v4, simp add: padded_def)
      using assms(2) v4 by (auto simp: sock_canon_def intro!: yields_return)
  next
    case v6
    show ?thesis
      unfolding decode_sock_def
      apply (rule u16_bind [OF feed], simp only: prod.case)
      apply (rule u16_bind, assumption)
      apply (simp add: \<open>(sock_flags s AND 0x8000 \<noteq> 0) = _\<close> tcp v6 bind_assoc split del: if_split)
      apply (rule buf_bind [where N = 16], simp, assumption, rule v6)
      using assms(2,3) v6 by (auto simp: sock_canon_def sock_wf_def padded_full intro!: yields_return)
  qed
qed

lemmas u8_safe = u8.dec_safe_bind [OF _ TrueI]
lemmas u16_safe = u16.dec_safe_bind [OF _ TrueI]
lemmas u32_safe = u32.dec_safe_bind [OF _ TrueI]
lemmas buf_safe = wire_field.dec_safe_bind [OF buf_field]

lemma decode_sock_safe:
  assumes "bounded base e st" and "sock_wf out"
  shows "safe base e sock_wf (decode_sock base out st)"
proof -
  have b: "safe base e (padded m 16) (decode_buf m base a st)"
    if "bounded base e st" "m \<le> 16" "padded m 16 a" for m a st
    using wire_field.dec_safe [OF buf_field] that by blast
  show ?thesis
    unfolding decode_sock_def
    apply (rule u16_safe [OF assms(1)], simp only: prod.case)
    apply (rule u16_safe, assumption)
    apply (simp add: bind_assoc split del: if_split)
    apply (split if_split)
    apply (intro conjI impI; simp only: bind_assoc; rule safe_bind, rule b, assumption, simp)
    using assms(2)
    by (auto simp: padded_def sock_wf_def intro!: safe_return)
qed

lemma encode_sock_emit: "sock_canon s \<Longrightarrow> encode_sock s = emit (int (length (sock_bytes s))) (sock_bytes s)"
  by (rule ext) (auto simp: sock_canon_def sock_wf_def encode_sock_def sock_bytes_def sock_flags_def
      encode_emit emit_simps)

interpretation sock: wire_field encode_sock decode_sock sock_bytes sock_canon sock_wf sock_wf "\<lambda>_. 0"
proof unfold_locales
  show "encode_sock v wb = emit (int (length (sock_bytes v))) (sock_bytes v) wb"
    if "sock_canon v" for v wb
    using that by (simp add: encode_sock_emit)
qed (fact decode_sock_yields decode_sock_safe)+

text \<open>The socket of most messages travels only when a flag of the common header is set.\<close>

definition opt_sock_canon :: "bool \<Rightarrow> n2n_sock \<Rightarrow> bool" where
  "opt_sock_canon f s \<longleftrightarrow> (if f then sock_canon s else s = zero_sock)"

definition opt_sock_bytes :: "bool \<Rightarrow> n2n_sock \<Rightarrow> bytes" where
  "opt_sock_bytes f s = (if f then sock_bytes s else [])"

lemma opt_sock_field:
  "wire_field (\<lambda>s st. if f then encode_sock s st else Some (0, st))
     (\<lambda>base out st. if f then decode_sock base out st else Some (0, out, st))
     (opt_sock_bytes f) (opt_sock_canon f) (\<lambda>s. s = zero_sock) sock_wf (\<lambda>_. 0)"
proof (cases f)
  case True
  then show ?thesis
    by unfold_locales (simp_all add: opt_sock_bytes_def opt_sock_canon_def sock.enc_emit
        sock.dec_yields sock.dec_safe)
next
  case False
  then show ?thesis
    by unfold_locales (auto simp: opt_sock_bytes_def opt_sock_canon_def emit_def yields_def safe_def)
qed

lemmas opt_sock_bind = wire_field.dec_bind [OF opt_sock_field]
lemmas opt_sock_safe = wire_field.dec_safe_bind [OF opt_sock_field]

subsection \<open>The common header\<close>

text \<open>The packet code and the flags share sixteen bits.\<close>

definition common_canon :: "n2n_common \<Rightarrow> bool" where
  "common_canon c \<longleftrightarrow> common_wf c \<and> ucast (pc c) AND N2N_FLAGS_TYPE_MASK = (ucast (pc c) :: u16)
     \<and> flags c AND N2N_FLAGS_BITS_MASK = flags c"

definition common_bytes :: "n2n_common \<Rightarrow> bytes" where
  "common_bytes c = be_bytes 1 N2N_PKT_VERSION @ be_bytes 1 (ttl c)
     @ be_bytes 2 ((ucast (pc c) AND N2N_FLAGS_TYPE_MASK) OR (flags c AND N2N_FLAGS_BITS_MASK))
     @ take N2N_COMMUNITY_SIZE (community c)"

lemma length_common_bytes [simp]: "common_wf c \<Longrightarrow> length (common_bytes c) = 24"
  by (simp add: common_bytes_def common_wf_def)

lemma encode_common_emit: "common_wf c \<Longrightarrow> encode_common c = emit (-1) (common_bytes c)"
  by (rule ext) (simp add: encode_common_def common_bytes_def common_wf_def encode_emit emit_simps
      be_bytes_1 [unfolded One_nat_def])

end
