(* ===== verification/Wire_Messages.thy ===== *)
theory Wire_Messages
  imports Wire_Format
begin

text \<open>
  The messages of \<^verbatim>\<open>src/wire.c\<close>: for each of them its wire format \<open>*_bytes\<close>, the encoder as the appending
  of these bytes, the decoder as their inverse, and the decoder's safety on arbitrary input.
\<close>

subsection \<open>Reading the common header\<close>

lemma mask_split:
  fixes p f :: u16
  assumes "p AND N2N_FLAGS_TYPE_MASK = p" and "f AND N2N_FLAGS_BITS_MASK = f"
  shows "(p OR f) AND N2N_FLAGS_TYPE_MASK = p" "(p OR f) AND N2N_FLAGS_BITS_MASK = f"
proof -
  have "p AND N2N_FLAGS_BITS_MASK = (p AND N2N_FLAGS_TYPE_MASK) AND N2N_FLAGS_BITS_MASK"
    by (simp only: assms(1))
  then have pb: "p AND N2N_FLAGS_BITS_MASK = 0"
    by (simp only: and.assoc) simp
  have "f AND N2N_FLAGS_TYPE_MASK = (f AND N2N_FLAGS_BITS_MASK) AND N2N_FLAGS_TYPE_MASK"
    by (simp only: assms(2))
  then have ft: "f AND N2N_FLAGS_TYPE_MASK = 0"
    by (simp only: and.assoc) simp
  show "(p OR f) AND N2N_FLAGS_TYPE_MASK = p"
    by (simp only: bit.conj_disj_distrib2 assms ft) simp
  show "(p OR f) AND N2N_FLAGS_BITS_MASK = f"
    by (simp only: bit.conj_disj_distrib2 assms pb) simp
qed

lemma decode_common_yields:
  assumes "feed base e st (common_bytes c @ rest)" and "common_canon c" and "common_wf out"
  shows "yields base e (decode_common base out st) 24 c rest"
proof -
  have feed: "feed base e st (be_bytes 1 N2N_PKT_VERSION @ be_bytes 1 (ttl c)
     @ be_bytes 2 (ucast (pc c) OR flags c) @ take N2N_COMMUNITY_SIZE (community c) @ rest)"
    using assms(1,2) by (simp add: common_bytes_def common_canon_def)
  have u: "(ucast (ucast p :: u16) :: byte) = p" for p :: byte
    by (rule bit_word_eqI) (simp add: bit_unsigned_iff)
  have st: "snd st = e - length (common_bytes c @ rest)" "length (common_bytes c @ rest) \<le> e"
    using feed_pos [OF assms(1)] feed_length [OF assms(1)] assms(1) by (auto simp: feed_def bounded_def)
  have cw: "common_wf c" using assms(2) by (simp add: common_canon_def)
  have out: "\<lparr>ttl = ttl c, pc = ucast ((ucast (pc c) OR flags c) AND N2N_FLAGS_TYPE_MASK),
     flags = (ucast (pc c) OR flags c) AND N2N_FLAGS_BITS_MASK, community = community c\<rparr> = c"
    using assms(2) by (simp add: common_canon_def mask_split u)
  show ?thesis
    unfolding decode_common_def Let_def
    apply (rule u8_bind [OF feed], simp only: prod.case simp_thms if_False)
    apply (rule u8_bind, assumption, simp only: prod.case)
    apply (rule u16_bind, assumption, simp only: prod.case)
    apply (rule buf_bind [where N = 20], simp, assumption)
      apply (use assms cw in \<open>simp_all add: common_wf_def padded_full\<close>)
    apply (rule yields_return)
    using st cw by (auto simp: out dest!: feed_pos)
qed

abbreviation has_sock :: "n2n_common \<Rightarrow> bool" where
  "has_sock c \<equiv> flags c AND N2N_FLAGS_SOCKET \<noteq> 0"

lemmas [simp] = be_bytes_1 [unfolded One_nat_def]

subsection \<open>Wire formats\<close>

definition subnet_bytes :: "n2n_ip_subnet \<Rightarrow> bytes" where
  "subnet_bytes n = be_bytes 4 (net_addr n) @ be_bytes 1 (net_bitlen n)"

definition auth_bytes :: "n2n_auth \<Rightarrow> bytes" where
  "auth_bytes a = be_bytes 2 (scheme a) @ be_bytes 2 (token_size a)
     @ take (unat (token_size a)) (token a)"

definition auth_canon :: "n2n_auth \<Rightarrow> bool" where
  "auth_canon a \<longleftrightarrow> auth_wf a \<and> padded (unat (token_size a)) N2N_AUTH_MAX_TOKEN_SIZE (token a)"

definition REGISTER_bytes :: "bool \<Rightarrow> n2n_REGISTER \<Rightarrow> bytes" where
  "REGISTER_bytes f r = be_bytes 4 (reg_cookie r) @ take 6 (reg_srcMac r) @ take 6 (reg_dstMac r)
     @ opt_sock_bytes f (reg_sock r) @ subnet_bytes (reg_dev_addr r) @ take N2N_DESC_SIZE (reg_dev_desc r)"

definition REGISTER_canon :: "bool \<Rightarrow> n2n_REGISTER \<Rightarrow> bool" where
  "REGISTER_canon f r \<longleftrightarrow> mac_wf (reg_srcMac r) \<and> mac_wf (reg_dstMac r)
     \<and> opt_sock_canon f (reg_sock r) \<and> length (reg_dev_desc r) = N2N_DESC_SIZE"

definition REGISTER_ACK_bytes :: "bool \<Rightarrow> n2n_REGISTER_ACK \<Rightarrow> bytes" where
  "REGISTER_ACK_bytes f r = be_bytes 4 (ack_cookie r) @ take 6 (ack_dstMac r) @ take 6 (ack_srcMac r)
     @ opt_sock_bytes f (ack_sock r)"

definition REGISTER_ACK_canon :: "bool \<Rightarrow> n2n_REGISTER_ACK \<Rightarrow> bool" where
  "REGISTER_ACK_canon f r \<longleftrightarrow> mac_wf (ack_srcMac r) \<and> mac_wf (ack_dstMac r) \<and> opt_sock_canon f (ack_sock r)"

definition PACKET_bytes :: "bool \<Rightarrow> n2n_PACKET \<Rightarrow> bytes" where
  "PACKET_bytes f p = take 6 (pkt_srcMac p) @ take 6 (pkt_dstMac p) @ opt_sock_bytes f (pkt_sock p)
     @ be_bytes 1 (pkt_compression p) @ be_bytes 1 (pkt_transform p)"

definition PACKET_canon :: "bool \<Rightarrow> n2n_PACKET \<Rightarrow> bool" where
  "PACKET_canon f p \<longleftrightarrow> mac_wf (pkt_srcMac p) \<and> mac_wf (pkt_dstMac p) \<and> opt_sock_canon f (pkt_sock p)"

definition REGISTER_SUPER_bytes :: "bool \<Rightarrow> n2n_REGISTER_SUPER \<Rightarrow> bytes" where
  "REGISTER_SUPER_bytes f r = be_bytes 4 (rs_cookie r) @ take 6 (rs_edgeMac r)
     @ opt_sock_bytes f (rs_sock r) @ subnet_bytes (rs_dev_addr r) @ take N2N_DESC_SIZE (rs_dev_desc r)
     @ auth_bytes (rs_auth r) @ be_bytes 4 (rs_key_time r)"

definition REGISTER_SUPER_canon :: "bool \<Rightarrow> n2n_REGISTER_SUPER \<Rightarrow> bool" where
  "REGISTER_SUPER_canon f r \<longleftrightarrow> mac_wf (rs_edgeMac r) \<and> opt_sock_canon f (rs_sock r)
     \<and> length (rs_dev_desc r) = N2N_DESC_SIZE \<and> auth_canon (rs_auth r)"

definition REGISTER_SUPER_ACK_bytes :: "n2n_REGISTER_SUPER_ACK \<Rightarrow> bytes \<Rightarrow> bytes" where
  "REGISTER_SUPER_ACK_bytes r tmp = be_bytes 4 (rsa_cookie r) @ take 6 (rsa_srcMac r)
     @ subnet_bytes (rsa_dev_addr r) @ be_bytes 2 (rsa_lifetime r) @ sock_bytes (rsa_sock r)
     @ auth_bytes (rsa_auth r) @ be_bytes 1 (rsa_num_sn r)
     @ take (unat (rsa_num_sn r) * REG_SUPER_ACK_PAYLOAD_ENTRY_SIZE) tmp @ be_bytes 4 (rsa_key_time r)"

definition REGISTER_SUPER_ACK_canon :: "n2n_REGISTER_SUPER_ACK \<Rightarrow> bytes \<Rightarrow> bool" where
  "REGISTER_SUPER_ACK_canon r tmp \<longleftrightarrow> mac_wf (rsa_srcMac r) \<and> sock_canon (rsa_sock r)
     \<and> auth_canon (rsa_auth r) \<and> length tmp = unat (rsa_num_sn r) * REG_SUPER_ACK_PAYLOAD_ENTRY_SIZE"

definition REGISTER_SUPER_NAK_bytes :: "n2n_REGISTER_SUPER_NAK \<Rightarrow> bytes" where
  "REGISTER_SUPER_NAK_bytes r = be_bytes 4 (nak_cookie r) @ take 6 (nak_srcMac r) @ auth_bytes (nak_auth r)"

definition REGISTER_SUPER_NAK_canon :: "n2n_REGISTER_SUPER_NAK \<Rightarrow> bool" where
  "REGISTER_SUPER_NAK_canon r \<longleftrightarrow> mac_wf (nak_srcMac r) \<and> auth_canon (nak_auth r)"

definition UNREGISTER_SUPER_bytes :: "n2n_UNREGISTER_SUPER \<Rightarrow> bytes" where
  "UNREGISTER_SUPER_bytes r = auth_bytes (unreg_auth r) @ take 6 (unreg_srcMac r)"

definition UNREGISTER_SUPER_canon :: "n2n_UNREGISTER_SUPER \<Rightarrow> bool" where
  "UNREGISTER_SUPER_canon r \<longleftrightarrow> mac_wf (unreg_srcMac r) \<and> auth_canon (unreg_auth r)"

definition PEER_INFO_bytes :: "bool \<Rightarrow> n2n_PEER_INFO \<Rightarrow> bytes" where
  "PEER_INFO_bytes f p = be_bytes 2 (pi_aflags p) @ take 6 (pi_srcMac p) @ take 6 (pi_mac p)
     @ sock_bytes (pi_sock p) @ opt_sock_bytes f (pi_preferred_sock p) @ be_bytes 4 (pi_load p)
     @ be_bytes 4 (ucast (pi_uptime p) :: u32) @ take N2N_VERSION_STRING_SIZE (pi_version p)"

definition PEER_INFO_canon :: "bool \<Rightarrow> n2n_PEER_INFO \<Rightarrow> bool" where
  "PEER_INFO_canon f p \<longleftrightarrow> mac_wf (pi_srcMac p) \<and> mac_wf (pi_mac p) \<and> sock_canon (pi_sock p)
     \<and> opt_sock_canon f (pi_preferred_sock p) \<and> length (pi_version p) = N2N_VERSION_STRING_SIZE"

definition QUERY_PEER_bytes :: "n2n_QUERY_PEER \<Rightarrow> bytes" where
  "QUERY_PEER_bytes p = take 6 (qp_srcMac p) @ take 6 (qp_targetMac p) @ be_bytes 2 (qp_aflags p)"

definition QUERY_PEER_canon :: "n2n_QUERY_PEER \<Rightarrow> bool" where
  "QUERY_PEER_canon p \<longleftrightarrow> mac_wf (qp_srcMac p) \<and> mac_wf (qp_targetMac p) \<and> qp_sock p = zero_sock"

lemmas bytes_defs =
  REGISTER_bytes_def REGISTER_ACK_bytes_def PACKET_bytes_def REGISTER_SUPER_bytes_def
  REGISTER_SUPER_ACK_bytes_def REGISTER_SUPER_NAK_bytes_def UNREGISTER_SUPER_bytes_def
  PEER_INFO_bytes_def QUERY_PEER_bytes_def subnet_bytes_def auth_bytes_def append_assoc

lemmas canon_defs =
  REGISTER_canon_def REGISTER_ACK_canon_def PACKET_canon_def REGISTER_SUPER_canon_def
  REGISTER_SUPER_ACK_canon_def REGISTER_SUPER_NAK_canon_def UNREGISTER_SUPER_canon_def
  PEER_INFO_canon_def QUERY_PEER_canon_def

subsection \<open>Encoders append the format\<close>

lemma auth_canonD:
  "auth_canon a \<Longrightarrow> length (token a) = 48" "auth_canon a \<Longrightarrow> unat (token_size a) \<le> 48"
  by (simp_all add: auth_canon_def auth_wf_def)

lemma common_canon_wf: "common_canon c \<Longrightarrow> common_wf c"
  by (simp add: common_canon_def)

lemmas enc_simps = encode_common_emit encode_sock_emit common_canon_wf encode_emit canon_defs bytes_defs
  opt_sock_bytes_def opt_sock_canon_def mac_wf_def auth_canonD min_absorb2

lemma encode_REGISTER_emit:
  assumes "common_canon c" and "REGISTER_canon (has_sock c) r"
  shows "encode_REGISTER c r = emit (int (length (REGISTER_bytes (has_sock c) r)) - 1) (common_bytes c @ REGISTER_bytes (has_sock c) r)"
  by (rule ext, cases "has_sock c") (use assms in \<open>simp_all add: encode_REGISTER_def enc_simps emit_simps\<close>)

lemma encode_REGISTER_ACK_emit:
  assumes "common_canon c" and "REGISTER_ACK_canon (has_sock c) r"
  shows "encode_REGISTER_ACK c r = emit (int (length (REGISTER_ACK_bytes (has_sock c) r)) - 1) (common_bytes c @ REGISTER_ACK_bytes (has_sock c) r)"
  by (rule ext, cases "has_sock c") (use assms in \<open>simp_all add: encode_REGISTER_ACK_def enc_simps emit_simps\<close>)

lemma encode_PACKET_emit:
  assumes "common_canon c" and "PACKET_canon (has_sock c) r"
  shows "encode_PACKET c r = emit (int (length (PACKET_bytes (has_sock c) r)) - 1) (common_bytes c @ PACKET_bytes (has_sock c) r)"
  by (rule ext, cases "has_sock c") (use assms in \<open>simp_all add: encode_PACKET_def enc_simps emit_simps\<close>)

lemma encode_REGISTER_SUPER_emit:
  assumes "common_canon c" and "REGISTER_SUPER_canon (has_sock c) r"
  shows "encode_REGISTER_SUPER c r = emit (int (length (REGISTER_SUPER_bytes (has_sock c) r)) - 1) (common_bytes c @ REGISTER_SUPER_bytes (has_sock c) r)"
  by (rule ext, cases "has_sock c") (use assms in \<open>simp_all add: encode_REGISTER_SUPER_def enc_simps emit_simps\<close>)

lemma encode_REGISTER_SUPER_ACK_emit:
  assumes "common_canon c" and "REGISTER_SUPER_ACK_canon r tmp"
  shows "encode_REGISTER_SUPER_ACK c r tmp = emit (int (length (REGISTER_SUPER_ACK_bytes r tmp)) - 1) (common_bytes c @ REGISTER_SUPER_ACK_bytes r tmp)"
  by (rule ext) (use assms in \<open>simp_all add: encode_REGISTER_SUPER_ACK_def enc_simps emit_simps\<close>)

lemma encode_REGISTER_SUPER_NAK_emit:
  assumes "common_canon c" and "REGISTER_SUPER_NAK_canon r"
  shows "encode_REGISTER_SUPER_NAK c r = emit (int (length (REGISTER_SUPER_NAK_bytes r)) - 1) (common_bytes c @ REGISTER_SUPER_NAK_bytes r)"
  by (rule ext) (use assms in \<open>simp_all add: encode_REGISTER_SUPER_NAK_def enc_simps emit_simps\<close>)

lemma encode_UNREGISTER_SUPER_emit:
  assumes "common_canon c" and "UNREGISTER_SUPER_canon r"
  shows "encode_UNREGISTER_SUPER c r = emit (int (length (UNREGISTER_SUPER_bytes r)) - 1) (common_bytes c @ UNREGISTER_SUPER_bytes r)"
  by (rule ext) (use assms in \<open>simp_all add: encode_UNREGISTER_SUPER_def enc_simps emit_simps\<close>)

lemma encode_PEER_INFO_emit:
  assumes "common_canon c" and "PEER_INFO_canon (has_sock c) r"
  shows "encode_PEER_INFO c r = emit (int (length (PEER_INFO_bytes (has_sock c) r)) - 1) (common_bytes c @ PEER_INFO_bytes (has_sock c) r)"
  by (rule ext, cases "has_sock c") (use assms in \<open>simp_all add: encode_PEER_INFO_def enc_simps emit_simps\<close>)

lemma encode_QUERY_PEER_emit:
  assumes "common_canon c" and "QUERY_PEER_canon r"
  shows "encode_QUERY_PEER c r = emit (int (length (QUERY_PEER_bytes r)) - 1) (common_bytes c @ QUERY_PEER_bytes r)"
  by (rule ext) (use assms in \<open>simp_all add: encode_QUERY_PEER_def enc_simps emit_simps\<close>)

subsection \<open>Decoders read the format back\<close>

lemma token_bind:
  assumes "feed base e st (take (unat (token_size a)) (token a) @ rest)" and "auth_canon a"
    and "\<And>st'. feed base e st' rest \<Longrightarrow>
      yields base e (k (int (unat (token_size a)), token a, st')) r y rest'"
  shows "yields base e (Option.bind (decode_buf (unat (token_size a)) base (token zero_auth) st) k) r y rest'"
proof (rule buf_bind [where N = 48, OF _ assms(1)])
  show "unat (token_size a) \<le> 48" and "padded (unat (token_size a)) 48 (token a)"
    using assms(2) by (simp_all add: auth_canon_def auth_wf_def)
  show "padded (unat (token_size a)) 48 (token zero_auth)"
    by (simp add: padded_def zero_auth_def)
qed (fact assms(3))

lemma full_buf_bind:
  assumes "feed base e st (take n v @ rest)" and "length v = n" and "length out = n"
    and "\<And>st'. feed base e st' rest \<Longrightarrow> yields base e (k (int n, v, st')) r y rest'"
  shows "yields base e (Option.bind (decode_buf n base out st) k) r y rest'"
  by (rule buf_bind [where N = n, OF _ assms(1)]) (simp_all add: padded_full assms)

lemmas dec_chain = u8_bind u16_bind u32_bind mac.dec_bind sock.dec_bind opt_sock_bind token_bind full_buf_bind

lemma decode_REGISTER_yields:
  assumes "feed base e st (REGISTER_bytes (has_sock c) r @ rest)" and "REGISTER_canon (has_sock c) r"
  shows "yields base e (decode_REGISTER c base st)
    (int (length (REGISTER_bytes (has_sock c) r)) - int (length (opt_sock_bytes (has_sock c) (reg_sock r)))) r rest"
proof -
  have c: "mac_wf (reg_srcMac r)" "mac_wf (reg_dstMac r)"
    "opt_sock_canon (has_sock c) (reg_sock r)" "length (reg_dev_desc r) = N2N_DESC_SIZE"
    using assms(2) by (simp_all add: canon_defs)
  show ?thesis
    using assms(1) unfolding decode_REGISTER_def decode_cookie_def bytes_defs
    apply -
    apply (rule dec_chain, assumption, ((rule c zero_wf zero_lengths length_replicate refl)+)?, unfold prod.case)+
    apply (rule yields_return, assumption)
    using c by (simp_all add: mac_wf_def auth_canonD min_absorb2)
qed

lemma decode_REGISTER_ACK_yields:
  assumes "feed base e st (REGISTER_ACK_bytes (has_sock c) r @ rest)" and "REGISTER_ACK_canon (has_sock c) r"
  shows "yields base e (decode_REGISTER_ACK c base st)
    (int (length (REGISTER_ACK_bytes (has_sock c) r)) - int (length (opt_sock_bytes (has_sock c) (ack_sock r)))) r rest"
proof -
  have c: "mac_wf (ack_srcMac r)" "mac_wf (ack_dstMac r)"
    "opt_sock_canon (has_sock c) (ack_sock r)"
    using assms(2) by (simp_all add: canon_defs)
  show ?thesis
    using assms(1) unfolding decode_REGISTER_ACK_def decode_cookie_def bytes_defs
    apply -
    apply (rule dec_chain, assumption, ((rule c zero_wf zero_lengths length_replicate refl)+)?, unfold prod.case)+
    apply (rule yields_return, assumption)
    using c by (simp_all add: mac_wf_def auth_canonD min_absorb2)
qed

lemma decode_PACKET_yields:
  assumes "feed base e st (PACKET_bytes (has_sock c) r @ rest)" and "PACKET_canon (has_sock c) r"
  shows "yields base e (decode_PACKET c base st)
    (int (length (PACKET_bytes (has_sock c) r)) - int (length (opt_sock_bytes (has_sock c) (pkt_sock r)))) r rest"
proof -
  have c: "mac_wf (pkt_srcMac r)" "mac_wf (pkt_dstMac r)"
    "opt_sock_canon (has_sock c) (pkt_sock r)"
    using assms(2) by (simp_all add: canon_defs)
  show ?thesis
    using assms(1) unfolding decode_PACKET_def decode_cookie_def bytes_defs
    apply -
    apply (rule dec_chain, assumption, ((rule c zero_wf zero_lengths length_replicate refl)+)?, unfold prod.case)+
    apply (rule yields_return, assumption)
    using c by (simp_all add: mac_wf_def auth_canonD min_absorb2)
qed

lemma decode_REGISTER_SUPER_yields:
  assumes "feed base e st (REGISTER_SUPER_bytes (has_sock c) r @ rest)" and "REGISTER_SUPER_canon (has_sock c) r"
  shows "yields base e (decode_REGISTER_SUPER c base st)
    (int (length (REGISTER_SUPER_bytes (has_sock c) r)) - int (length (opt_sock_bytes (has_sock c) (rs_sock r)))) r rest"
proof -
  have c: "mac_wf (rs_edgeMac r)" "opt_sock_canon (has_sock c) (rs_sock r)"
    "length (rs_dev_desc r) = N2N_DESC_SIZE" "auth_canon (rs_auth r)"
    using assms(2) by (simp_all add: canon_defs)
  show ?thesis
    using assms(1) unfolding decode_REGISTER_SUPER_def decode_cookie_def bytes_defs
    apply -
    apply (rule dec_chain, assumption, ((rule c zero_wf zero_lengths length_replicate refl)+)?, unfold prod.case)+
    apply (rule yields_return, assumption)
    using c by (simp_all add: mac_wf_def auth_canonD min_absorb2)
qed

lemma decode_REGISTER_SUPER_ACK_yields:
  assumes "feed base e st (REGISTER_SUPER_ACK_bytes r tmp @ rest)" and "REGISTER_SUPER_ACK_canon r tmp" and "length out = length tmp"
  shows "yields base e (decode_REGISTER_SUPER_ACK c base out st)
    (int (length (REGISTER_SUPER_ACK_bytes r tmp)) - int (length (sock_bytes (rsa_sock r)))) (r, tmp) rest"
proof -
  have c: "mac_wf (rsa_srcMac r)" "sock_canon (rsa_sock r)"
    "auth_canon (rsa_auth r)" "length tmp = unat (rsa_num_sn r) * REG_SUPER_ACK_PAYLOAD_ENTRY_SIZE"
    "length out = unat (rsa_num_sn r) * REG_SUPER_ACK_PAYLOAD_ENTRY_SIZE"
    using assms(2,3) by (simp_all add: canon_defs)
  show ?thesis
    using assms(1) unfolding decode_REGISTER_SUPER_ACK_def decode_cookie_def bytes_defs
    apply -
    apply (rule dec_chain, assumption, ((rule c zero_wf zero_lengths length_replicate refl)+)?, unfold prod.case)+
    apply (rule yields_return, assumption)
    using c by (simp_all add: mac_wf_def auth_canonD min_absorb2)
qed

lemma decode_REGISTER_SUPER_NAK_yields:
  assumes "feed base e st (REGISTER_SUPER_NAK_bytes r @ rest)" and "REGISTER_SUPER_NAK_canon r"
  shows "yields base e (decode_REGISTER_SUPER_NAK c base st)
    (int (length (REGISTER_SUPER_NAK_bytes r))) r rest"
proof -
  have c: "mac_wf (nak_srcMac r)" "auth_canon (nak_auth r)"
    using assms(2) by (simp_all add: canon_defs)
  show ?thesis
    using assms(1) unfolding decode_REGISTER_SUPER_NAK_def decode_cookie_def bytes_defs
    apply -
    apply (rule dec_chain, assumption, ((rule c zero_wf zero_lengths length_replicate refl)+)?, unfold prod.case)+
    apply (rule yields_return, assumption)
    using c by (simp_all add: mac_wf_def auth_canonD min_absorb2)
qed

lemma decode_UNREGISTER_SUPER_yields:
  assumes "feed base e st (UNREGISTER_SUPER_bytes r @ rest)" and "UNREGISTER_SUPER_canon r"
  shows "yields base e (decode_UNREGISTER_SUPER c base st)
    (int (length (UNREGISTER_SUPER_bytes r))) r rest"
proof -
  have c: "mac_wf (unreg_srcMac r)" "auth_canon (unreg_auth r)"
    using assms(2) by (simp_all add: canon_defs)
  show ?thesis
    using assms(1) unfolding decode_UNREGISTER_SUPER_def decode_cookie_def bytes_defs
    apply -
    apply (rule dec_chain, assumption, ((rule c zero_wf zero_lengths length_replicate refl)+)?, unfold prod.case)+
    apply (rule yields_return, assumption)
    using c by (simp_all add: mac_wf_def auth_canonD min_absorb2)
qed

lemma ucast_uptime:
  assumes "unat (t :: u64) < 2 ^ 32"
  shows "ucast (ucast t :: u32) = t"
proof (rule word_eq_iff_unsigned [where 'a = nat, THEN iffD2])
  show "unat (ucast (ucast t :: u32) :: u64) = unat t"
    using assms unsigned_less [of t, where 'a = nat]
    by (simp add: unsigned_ucast_eq unsigned_take_bit_eq take_bit_nat_eq_self)
qed

lemma decode_PEER_INFO_yields:
  assumes "feed base e st (PEER_INFO_bytes (has_sock c) r @ rest)" and "PEER_INFO_canon (has_sock c) r" and "unat (pi_uptime r) < 2 ^ 32"
  shows "yields base e (decode_PEER_INFO c base st)
    (int (length (PEER_INFO_bytes (has_sock c) r)) - int (length (sock_bytes (pi_sock r))) - int (length (opt_sock_bytes (has_sock c) (pi_preferred_sock r)))) r rest"
proof -
  have c: "mac_wf (pi_srcMac r)" "mac_wf (pi_mac r)"
    "sock_canon (pi_sock r)" "opt_sock_canon (has_sock c) (pi_preferred_sock r)"
    "length (pi_version r) = N2N_VERSION_STRING_SIZE"
    using assms(2) by (simp_all add: canon_defs)
  show ?thesis
    using assms(1) unfolding decode_PEER_INFO_def decode_cookie_def bytes_defs
    apply -
    apply (rule dec_chain, assumption, ((rule c zero_wf zero_lengths length_replicate refl)+)?, unfold prod.case)+
    apply (rule yields_return, assumption)
    using c assms(3) by (simp_all add: mac_wf_def auth_canonD min_absorb2 ucast_uptime)
qed

lemma decode_QUERY_PEER_yields:
  assumes "feed base e st (QUERY_PEER_bytes r @ rest)" and "QUERY_PEER_canon r"
  shows "yields base e (decode_QUERY_PEER c base st)
    (int (length (QUERY_PEER_bytes r))) r rest"
proof -
  have c: "mac_wf (qp_srcMac r)" "mac_wf (qp_targetMac r)"
    "qp_sock r = zero_sock"
    using assms(2) by (simp_all add: canon_defs)
  show ?thesis
    using assms(1) unfolding decode_QUERY_PEER_def decode_cookie_def bytes_defs
    apply -
    apply (rule dec_chain, assumption, ((rule c zero_wf zero_lengths length_replicate refl)+)?, unfold prod.case)+
    apply (rule yields_return, assumption)
    using c by (simp_all add: mac_wf_def auth_canonD min_absorb2)
qed

subsection \<open>Round trips through the socket\<close>

text \<open>What a receiver does first with a datagram of \<open>n\<close> bytes: it decodes the common header, and the message
  with the decoder that the packet code selects.\<close>

definition receive ::
  "(n2n_common \<Rightarrow> bytes \<Rightarrow> rpos \<Rightarrow> (int \<times> 'm \<times> rpos) option) \<Rightarrow> bytes \<Rightarrow> n2n_common \<Rightarrow> nat
     \<Rightarrow> (n2n_common \<times> 'm \<times> rpos) option" where
  "receive dec base out n = do {
     (_, c, st) \<leftarrow> decode_common base out (n, 0);
     (_, m, st) \<leftarrow> dec c base st;
     Some (c, m, st) }"

lemma receive_emitted:
  assumes enc: "encoded = emit v (common_bytes c @ bs) (base, 0)"
    and c: "common_canon c" "common_wf out" and fits: "24 + length bs \<le> length base"
    and dec: "\<And>e st base'. feed base' e st (bs @ []) \<Longrightarrow> yields base' e (dec c base' st) w m []"
  shows "\<exists>v base' n. encoded = Some (v, base', n) \<and> receive dec base' out n = Some (c, m, 0, n)"
proof -
  let ?base = "overlay base 0 (common_bytes c @ bs)" and ?n = "24 + length bs"
  have len: "length (common_bytes c) = 24"
    using c by (simp add: common_canon_wf)
  have e: "encoded = Some (v, ?base, ?n)"
    using enc fits len by (simp add: emit_def)
  have "feed ?base ?n (?n, 0) (common_bytes c @ bs @ [])"
    using fits len by (auto simp: feed_def bounded_def overlay_def)
  from decode_common_yields [OF this c] obtain st where
    st: "decode_common ?base out (?n, 0) = Some (24, c, st)" and "feed ?base ?n st (bs @ [])"
    by (auto simp: yields_def)
  from yields_eq [OF dec [OF this(2)]] have "dec c ?base st = Some (w, m, 0, ?n)"
    by simp
  then have "receive dec ?base out ?n = Some (c, m, 0, ?n)"
    using st by (simp add: receive_def)
  then show ?thesis using e by blast
qed

lemma length_sock_bytes: "length (sock_bytes s) \<le> 20" "length (opt_sock_bytes f s) \<le> 20"
  by (auto simp: sock_bytes_def opt_sock_bytes_def min_def)

lemma length_auth_bytes: "auth_canon a \<Longrightarrow> length (auth_bytes a) \<le> 52"
  by (simp add: auth_bytes_def auth_canonD)

lemma length_subnet_bytes [simp]: "length (subnet_bytes n) = 5"
  by (simp add: subnet_bytes_def)

text \<open>
  C14. A REGISTER_SUPER that an edge encodes into a packet buffer never overruns the buffer, and the supernode
  that receives the bytes decodes the same common header and the same registration, consuming every byte,
  for every cookie, device address, optional socket, authentication token of at most 48 bytes and key time.
\<close>

theorem REGISTER_SUPER_roundtrip:
  assumes "common_canon c" and "common_wf out" and "REGISTER_SUPER_canon (has_sock c) r"
    and "N2N_PKT_BUF_SIZE \<le> length base"
  shows "\<exists>v base' n. encode_REGISTER_SUPER c r (base, 0) = Some (v, base', n)
    \<and> receive decode_REGISTER_SUPER base' out n = Some (c, r, 0, n)"
proof -
  have "24 + length (REGISTER_SUPER_bytes (has_sock c) r) \<le> length base"
    using assms(3,4) length_auth_bytes [of "rs_auth r"] length_sock_bytes(2) [of "has_sock c" "rs_sock r"]
    by (simp add: REGISTER_SUPER_bytes_def REGISTER_SUPER_canon_def mac_wf_def)
  then show ?thesis
    by (rule receive_emitted [OF encode_REGISTER_SUPER_emit [OF assms(1,3), THEN fun_cong] assms(1,2)])
      (rule decode_REGISTER_SUPER_yields [OF _ assms(3)])
qed

definition ex_common :: n2n_common where
  "ex_common = \<lparr>ttl = 2, pc = 5, flags = N2N_FLAGS_SOCKET, community = replicate 20 0x61\<rparr>"

definition ex_sock :: n2n_sock where
  "ex_sock = \<lparr>family = AF_INET, socktype = SOCK_DGRAM, port = 7654, addr = [10, 0, 0, 1] @ replicate 12 0\<rparr>"

definition ex_auth :: n2n_auth where
  "ex_auth = \<lparr>scheme = 1, token_size = 16, token = replicate 16 0x55 @ replicate 32 0\<rparr>"

definition ex_REGISTER_SUPER :: n2n_REGISTER_SUPER where
  "ex_REGISTER_SUPER = \<lparr>rs_cookie = 0x12345678, rs_edgeMac = [2, 1, 2, 3, 4, 5], rs_sock = ex_sock,
     rs_dev_addr = \<lparr>net_addr = 0x0a000001, net_bitlen = 24\<rparr>, rs_dev_desc = replicate 16 0x65,
     rs_auth = ex_auth, rs_key_time = 7\<rparr>"

lemma ex_canon:
  "common_canon ex_common" "common_wf ex_common" "has_sock ex_common" "sock_canon ex_sock" "auth_canon ex_auth"
  by (simp_all add: common_canon_def common_wf_def ex_common_def sock_canon_def sock_wf_def ex_sock_def
      auth_canon_def auth_wf_def padded_def ex_auth_def)

theorem REGISTER_SUPER_roundtrip_witness:
  "\<exists>v base' n. encode_REGISTER_SUPER ex_common ex_REGISTER_SUPER (replicate 4096 0, 0) = Some (v, base', n)
    \<and> receive decode_REGISTER_SUPER base' ex_common n = Some (ex_common, ex_REGISTER_SUPER, 0, n)"
proof (rule REGISTER_SUPER_roundtrip)
  show "REGISTER_SUPER_canon (has_sock ex_common) ex_REGISTER_SUPER"
    using ex_canon(3-5)
    by (simp add: REGISTER_SUPER_canon_def ex_REGISTER_SUPER_def mac_wf_def opt_sock_canon_def)
qed (simp_all add: ex_canon)

text \<open>
  C17. A REGISTER_SUPER_ACK that fits the buffer is decoded to the same acknowledgement together with the same
  list of supernodes, the variable part that follows it in the message.
\<close>

theorem REGISTER_SUPER_ACK_roundtrip:
  assumes "common_canon c" and "common_wf out" and "REGISTER_SUPER_ACK_canon r tmp"
    and "24 + length (REGISTER_SUPER_ACK_bytes r tmp) \<le> length base" and "length tmp0 = length tmp"
  shows "\<exists>v base' n. encode_REGISTER_SUPER_ACK c r tmp (base, 0) = Some (v, base', n)
    \<and> receive (\<lambda>c b. decode_REGISTER_SUPER_ACK c b tmp0) base' out n = Some (c, (r, tmp), 0, n)"
  by (rule receive_emitted [OF encode_REGISTER_SUPER_ACK_emit [OF assms(1,3), THEN fun_cong] assms(1,2,4)])
    (rule decode_REGISTER_SUPER_ACK_yields [OF _ assms(3,5)])

definition ex_REGISTER_SUPER_ACK :: n2n_REGISTER_SUPER_ACK where
  "ex_REGISTER_SUPER_ACK = \<lparr>rsa_cookie = 9, rsa_srcMac = [2, 1, 2, 3, 4, 5],
     rsa_dev_addr = \<lparr>net_addr = 0x0a000001, net_bitlen = 24\<rparr>, rsa_lifetime = 300, rsa_sock = ex_sock,
     rsa_auth = ex_auth, rsa_num_sn = 2, rsa_key_time = 7\<rparr>"

theorem REGISTER_SUPER_ACK_roundtrip_witness:
  "\<exists>v base' n. encode_REGISTER_SUPER_ACK ex_common ex_REGISTER_SUPER_ACK (replicate 52 3) (replicate 4096 0, 0)
      = Some (v, base', n)
    \<and> receive (\<lambda>c b. decode_REGISTER_SUPER_ACK c b (replicate 52 0)) base' ex_common n
      = Some (ex_common, (ex_REGISTER_SUPER_ACK, replicate 52 3), 0, n)"
proof (rule REGISTER_SUPER_ACK_roundtrip)
  show "REGISTER_SUPER_ACK_canon ex_REGISTER_SUPER_ACK (replicate 52 3)"
    using ex_canon(3-5)
    by (simp add: REGISTER_SUPER_ACK_canon_def ex_REGISTER_SUPER_ACK_def mac_wf_def)
  show "24 + length (REGISTER_SUPER_ACK_bytes ex_REGISTER_SUPER_ACK (replicate 52 3))
      \<le> length (replicate 4096 (0 :: byte))"
    by (simp add: REGISTER_SUPER_ACK_bytes_def ex_REGISTER_SUPER_ACK_def sock_bytes_def auth_bytes_def
        ex_sock_def ex_auth_def)
qed (simp_all add: ex_canon)

text \<open>
  C16. The header of a data packet survives encoding and decoding: addresses, optional socket, transform and
  compression identifiers; the payload starts where the decoder stops.
\<close>

theorem PACKET_roundtrip:
  assumes "common_canon c" and "common_wf out" and "PACKET_canon (has_sock c) p"
    and "N2N_PKT_BUF_SIZE \<le> length base"
  shows "\<exists>v base' n. encode_PACKET c p (base, 0) = Some (v, base', n)
    \<and> receive decode_PACKET base' out n = Some (c, p, 0, n)"
proof -
  have "24 + length (PACKET_bytes (has_sock c) p) \<le> length base"
    using assms(3,4) length_sock_bytes(2) [of "has_sock c" "pkt_sock p"]
    by (simp add: PACKET_bytes_def PACKET_canon_def mac_wf_def)
  then show ?thesis
    by (rule receive_emitted [OF encode_PACKET_emit [OF assms(1,3), THEN fun_cong] assms(1,2)])
      (rule decode_PACKET_yields [OF _ assms(3)])
qed

definition ex_PACKET :: n2n_PACKET where
  "ex_PACKET = \<lparr>pkt_srcMac = [2, 1, 2, 3, 4, 5], pkt_dstMac = [255, 255, 255, 255, 255, 255],
     pkt_sock = ex_sock, pkt_transform = 5, pkt_compression = 1\<rparr>"

theorem PACKET_roundtrip_witness:
  "\<exists>v base' n. encode_PACKET ex_common ex_PACKET (replicate 4096 0, 0) = Some (v, base', n)
    \<and> receive decode_PACKET base' ex_common n = Some (ex_common, ex_PACKET, 0, n)"
proof (rule PACKET_roundtrip)
  show "PACKET_canon (has_sock ex_common) ex_PACKET"
    using ex_canon(3-5) by (simp add: PACKET_canon_def ex_PACKET_def mac_wf_def opt_sock_canon_def)
qed (simp_all add: ex_canon)

text \<open>
  The REGISTER an edge sends to a peer is decoded to the same registration.
\<close>

theorem REGISTER_roundtrip:
  assumes "common_canon c" and "common_wf out" and "REGISTER_canon (has_sock c) r"
    and "N2N_PKT_BUF_SIZE \<le> length base"
  shows "\<exists>v base' n. encode_REGISTER c r (base, 0) = Some (v, base', n)
    \<and> receive decode_REGISTER base' out n = Some (c, r, 0, n)"
proof -
  have "24 + length (REGISTER_bytes (has_sock c) r) \<le> length base"
    using assms(3,4) length_sock_bytes(2) [of "has_sock c" "reg_sock r"]
    by (simp add: REGISTER_bytes_def REGISTER_canon_def mac_wf_def)
  then show ?thesis
    by (rule receive_emitted [OF encode_REGISTER_emit [OF assms(1,3), THEN fun_cong] assms(1,2)])
      (rule decode_REGISTER_yields [OF _ assms(3)])
qed

definition ex_REGISTER :: n2n_REGISTER where
  "ex_REGISTER = \<lparr>reg_cookie = 9, reg_srcMac = [2, 1, 2, 3, 4, 5], reg_dstMac = [2, 1, 2, 3, 4, 6],
     reg_sock = ex_sock, reg_dev_addr = \<lparr>net_addr = 0x0a000001, net_bitlen = 24\<rparr>, reg_dev_desc = replicate 16 0x65\<rparr>"

theorem REGISTER_roundtrip_witness:
  "\<exists>v base' n. encode_REGISTER ex_common ex_REGISTER (replicate 4096 0, 0) = Some (v, base', n)
    \<and> receive decode_REGISTER base' ex_common n = Some (ex_common, ex_REGISTER, 0, n)"
proof (rule REGISTER_roundtrip)
  show "REGISTER_canon (has_sock ex_common) ex_REGISTER"
    using ex_canon(3-5) by (simp add: REGISTER_canon_def ex_REGISTER_def mac_wf_def opt_sock_canon_def)
qed (simp_all add: ex_canon)

text \<open>
  A PEER_INFO survives the round trip as long as the uptime it carries, a 64-bit number of seconds of which
  32 bits travel, is below \<open>2 ^ 32\<close>.
\<close>

theorem PEER_INFO_roundtrip:
  assumes "common_canon c" and "common_wf out" and "PEER_INFO_canon (has_sock c) p"
    and "unat (pi_uptime p) < 2 ^ 32" and "N2N_PKT_BUF_SIZE \<le> length base"
  shows "\<exists>v base' n. encode_PEER_INFO c p (base, 0) = Some (v, base', n)
    \<and> receive decode_PEER_INFO base' out n = Some (c, p, 0, n)"
proof -
  have "24 + length (PEER_INFO_bytes (has_sock c) p) \<le> length base"
    using assms(3,5) length_sock_bytes(2) [of "has_sock c" "pi_preferred_sock p"]
      length_sock_bytes(1) [of "pi_sock p"]
    by (simp add: PEER_INFO_bytes_def PEER_INFO_canon_def mac_wf_def)
  then show ?thesis
    by (rule receive_emitted [OF encode_PEER_INFO_emit [OF assms(1,3), THEN fun_cong] assms(1,2)])
      (rule decode_PEER_INFO_yields [OF _ assms(3,4)])
qed

definition ex_PEER_INFO :: n2n_PEER_INFO where
  "ex_PEER_INFO = \<lparr>pi_aflags = 0, pi_srcMac = [2, 1, 2, 3, 4, 5], pi_mac = [2, 1, 2, 3, 4, 6], pi_sock = ex_sock,
     pi_preferred_sock = ex_sock, pi_load = 3, pi_version = replicate 20 0x33, pi_uptime = 86400\<rparr>"

theorem PEER_INFO_roundtrip_witness:
  "\<exists>v base' n. encode_PEER_INFO ex_common ex_PEER_INFO (replicate 4096 0, 0) = Some (v, base', n)
    \<and> receive decode_PEER_INFO base' ex_common n = Some (ex_common, ex_PEER_INFO, 0, n)"
proof (rule PEER_INFO_roundtrip)
  show "PEER_INFO_canon (has_sock ex_common) ex_PEER_INFO"
    using ex_canon(3-5) by (simp add: PEER_INFO_canon_def ex_PEER_INFO_def mac_wf_def opt_sock_canon_def)
  show "unat (pi_uptime ex_PEER_INFO) < 2 ^ 32" by (simp add: ex_PEER_INFO_def)
qed (simp_all add: ex_canon)

lemma REGISTER_ACK_roundtrip:
  assumes "common_canon c" and "common_wf out" and "REGISTER_ACK_canon (has_sock c) r"
    and "N2N_PKT_BUF_SIZE \<le> length base"
  shows "\<exists>v base' n. encode_REGISTER_ACK c r (base, 0) = Some (v, base', n)
    \<and> receive decode_REGISTER_ACK base' out n = Some (c, r, 0, n)"
proof -
  have "24 + length (REGISTER_ACK_bytes (has_sock c) r) \<le> length base"
    using assms(3,4) length_sock_bytes(2) [of "has_sock c" "ack_sock r"]
    by (simp add: REGISTER_ACK_bytes_def REGISTER_ACK_canon_def mac_wf_def)
  then show ?thesis
    by (rule receive_emitted [OF encode_REGISTER_ACK_emit [OF assms(1,3), THEN fun_cong] assms(1,2)])
      (rule decode_REGISTER_ACK_yields [OF _ assms(3)])
qed

lemma REGISTER_SUPER_NAK_roundtrip:
  assumes "common_canon c" and "common_wf out" and "REGISTER_SUPER_NAK_canon r"
    and "N2N_PKT_BUF_SIZE \<le> length base"
  shows "\<exists>v base' n. encode_REGISTER_SUPER_NAK c r (base, 0) = Some (v, base', n)
    \<and> receive decode_REGISTER_SUPER_NAK base' out n = Some (c, r, 0, n)"
proof -
  have "24 + length (REGISTER_SUPER_NAK_bytes r) \<le> length base"
    using assms(3,4) length_auth_bytes [of "nak_auth r"]
    by (simp add: REGISTER_SUPER_NAK_bytes_def REGISTER_SUPER_NAK_canon_def mac_wf_def)
  then show ?thesis
    by (rule receive_emitted [OF encode_REGISTER_SUPER_NAK_emit [OF assms(1,3), THEN fun_cong] assms(1,2)])
      (rule decode_REGISTER_SUPER_NAK_yields [OF _ assms(3)])
qed

lemma UNREGISTER_SUPER_roundtrip:
  assumes "common_canon c" and "common_wf out" and "UNREGISTER_SUPER_canon r"
    and "N2N_PKT_BUF_SIZE \<le> length base"
  shows "\<exists>v base' n. encode_UNREGISTER_SUPER c r (base, 0) = Some (v, base', n)
    \<and> receive decode_UNREGISTER_SUPER base' out n = Some (c, r, 0, n)"
proof -
  have "24 + length (UNREGISTER_SUPER_bytes r) \<le> length base"
    using assms(3,4) length_auth_bytes [of "unreg_auth r"]
    by (simp add: UNREGISTER_SUPER_bytes_def UNREGISTER_SUPER_canon_def mac_wf_def)
  then show ?thesis
    by (rule receive_emitted [OF encode_UNREGISTER_SUPER_emit [OF assms(1,3), THEN fun_cong] assms(1,2)])
      (rule decode_UNREGISTER_SUPER_yields [OF _ assms(3)])
qed

lemma QUERY_PEER_roundtrip:
  assumes "common_canon c" and "common_wf out" and "QUERY_PEER_canon r"
    and "N2N_PKT_BUF_SIZE \<le> length base"
  shows "\<exists>v base' n. encode_QUERY_PEER c r (base, 0) = Some (v, base', n)
    \<and> receive decode_QUERY_PEER base' out n = Some (c, r, 0, n)"
proof -
  have "24 + length (QUERY_PEER_bytes r) \<le> length base"
    using assms(3,4) 
    by (simp add: QUERY_PEER_bytes_def QUERY_PEER_canon_def mac_wf_def)
  then show ?thesis
    by (rule receive_emitted [OF encode_QUERY_PEER_emit [OF assms(1,3), THEN fun_cong] assms(1,2)])
      (rule decode_QUERY_PEER_yields [OF _ assms(3)])
qed

text \<open>
  C22. The remaining control messages (REGISTER_ACK, REGISTER_SUPER_NAK, UNREGISTER_SUPER and QUERY_PEER) are
  decoded to what was encoded.
\<close>

theorem control_roundtrip:
  assumes "common_canon c" and "common_wf out" and "N2N_PKT_BUF_SIZE \<le> length base"
    and "REGISTER_ACK_canon (has_sock c) a" and "REGISTER_SUPER_NAK_canon k"
    and "UNREGISTER_SUPER_canon u" and "QUERY_PEER_canon q"
  shows "(\<exists>v base' n. encode_REGISTER_ACK c a (base, 0) = Some (v, base', n)
        \<and> receive decode_REGISTER_ACK base' out n = Some (c, a, 0, n))
    \<and> (\<exists>v base' n. encode_REGISTER_SUPER_NAK c k (base, 0) = Some (v, base', n)
        \<and> receive decode_REGISTER_SUPER_NAK base' out n = Some (c, k, 0, n))
    \<and> (\<exists>v base' n. encode_UNREGISTER_SUPER c u (base, 0) = Some (v, base', n)
        \<and> receive decode_UNREGISTER_SUPER base' out n = Some (c, u, 0, n))
    \<and> (\<exists>v base' n. encode_QUERY_PEER c q (base, 0) = Some (v, base', n)
        \<and> receive decode_QUERY_PEER base' out n = Some (c, q, 0, n))"
  by (intro conjI REGISTER_ACK_roundtrip REGISTER_SUPER_NAK_roundtrip UNREGISTER_SUPER_roundtrip
      QUERY_PEER_roundtrip assms)

definition ex_REGISTER_ACK :: n2n_REGISTER_ACK where
  "ex_REGISTER_ACK = \<lparr>ack_cookie = 9, ack_srcMac = [2, 1, 2, 3, 4, 5], ack_dstMac = [2, 1, 2, 3, 4, 6], ack_sock = ex_sock\<rparr>"

definition ex_NAK :: n2n_REGISTER_SUPER_NAK where
  "ex_NAK = \<lparr>nak_cookie = 9, nak_srcMac = [2, 1, 2, 3, 4, 5], nak_auth = ex_auth\<rparr>"

definition ex_UNREGISTER :: n2n_UNREGISTER_SUPER where
  "ex_UNREGISTER = \<lparr>unreg_auth = ex_auth, unreg_srcMac = [2, 1, 2, 3, 4, 5]\<rparr>"

definition ex_QUERY :: n2n_QUERY_PEER where
  "ex_QUERY = \<lparr>qp_aflags = 0, qp_srcMac = [2, 1, 2, 3, 4, 5], qp_sock = zero_sock, qp_targetMac = [2, 1, 2, 3, 4, 6]\<rparr>"

theorem control_roundtrip_witness:
  "(\<exists>v base' n. encode_REGISTER_ACK ex_common ex_REGISTER_ACK (replicate 4096 0, 0) = Some (v, base', n)
        \<and> receive decode_REGISTER_ACK base' ex_common n = Some (ex_common, ex_REGISTER_ACK, 0, n))
    \<and> (\<exists>v base' n. encode_REGISTER_SUPER_NAK ex_common ex_NAK (replicate 4096 0, 0) = Some (v, base', n)
        \<and> receive decode_REGISTER_SUPER_NAK base' ex_common n = Some (ex_common, ex_NAK, 0, n))
    \<and> (\<exists>v base' n. encode_UNREGISTER_SUPER ex_common ex_UNREGISTER (replicate 4096 0, 0) = Some (v, base', n)
        \<and> receive decode_UNREGISTER_SUPER base' ex_common n = Some (ex_common, ex_UNREGISTER, 0, n))
    \<and> (\<exists>v base' n. encode_QUERY_PEER ex_common ex_QUERY (replicate 4096 0, 0) = Some (v, base', n)
        \<and> receive decode_QUERY_PEER base' ex_common n = Some (ex_common, ex_QUERY, 0, n))"
  by (rule control_roundtrip)
    (use ex_canon in \<open>simp_all add: REGISTER_ACK_canon_def REGISTER_SUPER_NAK_canon_def UNREGISTER_SUPER_canon_def
      QUERY_PEER_canon_def ex_REGISTER_ACK_def ex_NAK_def ex_UNREGISTER_def ex_QUERY_def mac_wf_def
      opt_sock_canon_def\<close>)

subsection \<open>Arbitrary input\<close>

lemma full_buf_safe:
  assumes "bounded base e st" and "length out = n"
    and "\<And>r x st'. bounded base e st' \<Longrightarrow> length x = n \<Longrightarrow> safe base e Q (k (r, x, st'))"
  shows "safe base e Q (Option.bind (decode_buf n base out st) k)"
  by (rule buf_safe [where N = n, OF _ assms(1)]) (simp_all add: padded_full assms)

lemmas safe_chain = u8_safe u16_safe u32_safe mac.dec_safe_bind sock.dec_safe_bind opt_sock_safe full_buf_safe

lemma decoders_safe:
  assumes "bounded base e st"
  shows "safe base e (\<lambda>r. mac_wf (reg_srcMac r) \<and> mac_wf (reg_dstMac r) \<and> sock_wf (reg_sock r)
           \<and> length (reg_dev_desc r) = N2N_DESC_SIZE) (decode_REGISTER c base st)"
    and "safe base e (\<lambda>r. mac_wf (ack_srcMac r) \<and> mac_wf (ack_dstMac r) \<and> sock_wf (ack_sock r))
           (decode_REGISTER_ACK c base st)"
    and "safe base e (\<lambda>p. mac_wf (pkt_srcMac p) \<and> mac_wf (pkt_dstMac p) \<and> sock_wf (pkt_sock p))
           (decode_PACKET c base st)"
    and "safe base e (\<lambda>p. mac_wf (pi_srcMac p) \<and> mac_wf (pi_mac p) \<and> sock_wf (pi_sock p)
           \<and> sock_wf (pi_preferred_sock p) \<and> length (pi_version p) = N2N_VERSION_STRING_SIZE)
           (decode_PEER_INFO c base st)"
    and "safe base e (\<lambda>p. mac_wf (qp_srcMac p) \<and> mac_wf (qp_targetMac p)) (decode_QUERY_PEER c base st)"
  unfolding decode_REGISTER_def decode_REGISTER_ACK_def decode_PACKET_def decode_PEER_INFO_def
    decode_QUERY_PEER_def decode_cookie_def
  by (insert assms,
      (rule safe_chain, assumption, ((rule zero_wf zero_lengths length_replicate refl)+)?, unfold prod.case |
       rule safe_return, assumption, simp)+)

text \<open>
  C15. On every datagram, well formed or not, the decoders of REGISTER, REGISTER_ACK, PACKET, PEER_INFO and
  QUERY_PEER terminate without a read or write outside their buffers, their count of remaining bytes never
  wraps around, and the structures they fill have the declared sizes.
\<close>

theorem decoders_memory_safe:
  assumes "idx + rem \<le> length base"
  shows "safe base (idx + rem) (\<lambda>r. mac_wf (reg_srcMac r) \<and> sock_wf (reg_sock r)) (decode_REGISTER c base (rem, idx))
    \<and> safe base (idx + rem) (\<lambda>r. mac_wf (ack_srcMac r) \<and> sock_wf (ack_sock r)) (decode_REGISTER_ACK c base (rem, idx))
    \<and> safe base (idx + rem) (\<lambda>p. mac_wf (pkt_srcMac p) \<and> mac_wf (pkt_dstMac p)) (decode_PACKET c base (rem, idx))
    \<and> safe base (idx + rem) (\<lambda>p. mac_wf (pi_mac p) \<and> sock_wf (pi_sock p)) (decode_PEER_INFO c base (rem, idx))
    \<and> safe base (idx + rem) (\<lambda>p. mac_wf (qp_srcMac p) \<and> mac_wf (qp_targetMac p)) (decode_QUERY_PEER c base (rem, idx))"
proof -
  have "bounded base (idx + rem) (rem, idx)"
    using assms by (simp add: bounded_def)
  then show ?thesis
    using decoders_safe [of base "idx + rem" "(rem, idx)" c]
    by (auto simp: safe_def)
qed

theorem decoders_memory_safe_witness:
  "safe [1, 2, 3] (0 + 3) (\<lambda>p. mac_wf (pkt_srcMac p) \<and> mac_wf (pkt_dstMac p)) (decode_PACKET ex_common [1, 2, 3] (3, 0))"
  using decoders_memory_safe [of 0 3 "[1, 2, 3]" ex_common] by simp

text \<open>
  C23. The decoder of REGISTER_SUPER copies as many bytes into the 48-byte token as the message announces: a
  datagram that announces more than 48 bytes, and carries them, writes past the token.
\<close>

theorem REGISTER_SUPER_token_overflow:
  fixes ck :: u32 and sc ts :: u16
  assumes "feed base e st (be_bytes 4 ck @ take 6 em @ opt_sock_bytes (has_sock c) sk @ subnet_bytes na
      @ take 16 dd @ be_bytes 2 sc @ be_bytes 2 ts @ rest)"
    and "mac_wf em" and "opt_sock_canon (has_sock c) sk" and "length dd = N2N_DESC_SIZE"
    and "N2N_AUTH_MAX_TOKEN_SIZE < unat ts" and "unat ts \<le> length rest"
  shows "decode_REGISTER_SUPER c base st = None"
proof -
  have tok: "decode_buf (unat ts) base (token zero_auth) st' = None" if "feed base e st' rest" for st'
    using feed_length [OF that] that assms(5,6)
    by (cases st') (auto simp: decode_buf_def wr_def rd_def bounded_def feed_def)
  note faults = u32.dec_fault_bind [OF _ TrueI TrueI] u16.dec_fault_bind [OF _ TrueI TrueI]
    u8.dec_fault_bind [OF _ TrueI TrueI] mac.dec_fault_bind wire_field.dec_fault_bind [OF opt_sock_field]
    wire_field.dec_fault_bind [OF buf_field, OF le_refl, unfolded padded_full]
  show ?thesis
    using assms(1) unfolding decode_REGISTER_SUPER_def decode_cookie_def subnet_bytes_def append_assoc
    apply -
    apply (rule faults, assumption, ((rule assms(2-4) zero_wf zero_lengths refl)+)?, unfold prod.case)+
    by (simp add: tok)
qed

definition ex_datagram :: bytes where
  "ex_datagram = be_bytes 4 (9 :: u32) @ take 6 zero_mac @ subnet_bytes \<lparr>net_addr = 0, net_bitlen = 0\<rparr>
     @ take 16 zero_desc @ be_bytes 2 (1 :: u16) @ be_bytes 2 (49 :: u16) @ replicate 49 0x41"

theorem REGISTER_SUPER_token_overflow_witness:
  "decode_REGISTER_SUPER (ex_common\<lparr>flags := 0\<rparr>) ex_datagram (84, 0) = None"
proof (rule REGISTER_SUPER_token_overflow [where e = 84 and ck = 9 and em = zero_mac and sk = zero_sock
      and na = "\<lparr>net_addr = 0, net_bitlen = 0\<rparr>" and dd = zero_desc and sc = 1 and ts = 49 and rest = "replicate 49 0x41"])
  show "feed ex_datagram 84 (84, 0)
     (be_bytes 4 (9 :: u32) @ take 6 zero_mac @ opt_sock_bytes (has_sock (ex_common\<lparr>flags := 0\<rparr>)) zero_sock
      @ subnet_bytes \<lparr>net_addr = 0, net_bitlen = 0\<rparr> @ take 16 zero_desc @ be_bytes 2 (1 :: u16)
      @ be_bytes 2 (49 :: u16) @ replicate 49 0x41)"
    by (simp add: feed_def bounded_def ex_datagram_def opt_sock_bytes_def)
qed (simp_all add: opt_sock_canon_def)

text \<open>
  The two halves of the 64-bit codec agree only at the start of a buffer: there the decoder returns the
  encoded value, while at any other index it returns the first eight bytes of the buffer plus the index,
  whatever bytes stand at the index.
\<close>

theorem decode_uint64_position:
  assumes "8 \<le> rem" and "8 \<le> length base"
  shows "decode_uint64 base out (rem, idx) = Some (8, htobe64 (ld64 (take 8 base) + of_nat idx), rem - 8, idx + 8)
    \<and> (\<forall>v. decode_uint64 (overlay base 0 (be_bytes 8 v)) out (rem, 0) = Some (8, v, rem - 8, 8))"
proof -
  have "st64 (htobe64 v) = be_bytes 8 v" for v
    by (simp add: htobe64_def be_bytes_def)
  then have "htobe64 (ld64 (be_bytes 8 v)) = v" for v
    by (metis htobe64_def ld_st(2) rev_rev_ident st_ld(2) length_be_bytes be_bytes_def)
  then show ?thesis
    using assms by (auto simp: decode_uint64_def rd_def overlay_def)
qed

theorem decode_uint64_position_witness:
  "decode_uint64 (replicate 16 0) 0 (8, 4) = Some (8, htobe64 4, 0, 12)"
proof -
  have "ld64 (replicate 8 0) = 0" by (simp add: numeral_eq_Suc)
  then show ?thesis
    using decode_uint64_position [of 8 "replicate 16 0" 0 4] by simp
qed

lemma port_split: "push_bit 8 (ucast (ucast (drop_bit 8 (p :: u16)) :: byte)) + ucast (ucast (p AND 0x00ff) :: byte) = p"
proof -
  let ?h = "push_bit 8 (ucast (ucast (drop_bit 8 p) :: byte)) :: u16" and ?l = "ucast (ucast p :: byte) :: u16"
  have "?h + ?l = ?h OR ?l"
    by (rule disjunctive_add) (auto simp: bit_push_bit_iff bit_unsigned_iff dest: bit_imp_le_length)
  also have "\<dots> = p"
    by (rule bit_word_eqI) (auto simp: bit_or_iff bit_push_bit_iff bit_unsigned_iff bit_drop_bit_eq)
  finally show ?thesis by simp
qed

definition payload_bytes :: "n2n_sock \<Rightarrow> bytes" where
  "payload_bytes s = be_bytes 1 (family s) @ be_bytes 1 (0 :: byte) @ be_bytes 1 (ucast (port s AND 0x00ff) :: byte)
     @ be_bytes 1 (ucast (drop_bit 8 (port s)) :: byte) @ take IPV6_SIZE (addr s)"

lemma encode_sock_payload_emit: "sock_wf s \<Longrightarrow> encode_sock_payload s = emit 20 (payload_bytes s)"
  by (rule ext) (simp add: encode_sock_payload_def payload_bytes_def encode_emit emit_simps sock_wf_def)

lemma decode_sock_payload_yields:
  assumes "feed base e st (payload_bytes s @ rest)" and "sock_wf s" and "sock_wf out" and "fst st < 2 ^ 64"
  shows "yields base e (decode_sock_payload base out st) 20
           (out\<lparr>family := family s, port := port s, addr := addr s\<rparr>) rest"
proof -
  have f: "feed base e st (be_bytes 1 (family s) @ be_bytes 1 (0 :: byte) @ be_bytes 1 (ucast (port s AND 0x00ff) :: byte)
     @ be_bytes 1 (ucast (drop_bit 8 (port s)) :: byte) @ take 16 (addr s) @ rest)"
    using assms(1) by (simp add: payload_bytes_def)
  have skip: "feed base e ((fst st' + (2 ^ 64 - 1)) mod 2 ^ 64, snd st' + 1) r"
    if "feed base e st' (be_bytes 1 (0 :: byte) @ r)" and "length r < fst st" for st' r
  proof -
    from that(1) obtain n i where st': "st' = (n, i)" "1 \<le> n" "feed base e (n - 1, i + 1) r"
      by (rule feed_splitE) simp
    then have "(n + (2 ^ 64 - 1)) mod 2 ^ 64 = n - 1"
      using feed_length [OF that(1)] that(2) assms(4) by (simp add: mod_if)
    then show ?thesis using st' by simp
  qed
  have le: "length rest + 19 \<le> fst st"
    using feed_length [OF assms(1)] assms(2) by (simp add: payload_bytes_def sock_wf_def)
  show ?thesis
    unfolding decode_sock_payload_def Let_def
    apply (rule u8_bind [OF f], unfold prod.case)
    apply (drule skip)
     apply (use le assms(2) in \<open>simp add: sock_wf_def\<close>)
    apply (rule u8_bind, assumption, unfold prod.case)
    apply (rule u8_bind, assumption, unfold prod.case)
    apply (rule full_buf_bind, assumption, use assms in \<open>simp add: sock_wf_def\<close>, use assms in \<open>simp add: sock_wf_def\<close>)
    by (unfold prod.case, rule yields_return, assumption, simp, simp only: port_split)
qed

text \<open>
  The list of supernodes in an acknowledgement: an entry is decoded to the family, the port and the address
  that were encoded (the socket type does not travel).
\<close>

theorem sock_payload_roundtrip:
  assumes "sock_wf s" and "sock_wf out" and "idx + 20 \<le> length base"
  shows "\<exists>base'. encode_sock_payload s (base, idx) = Some (20, base', idx + 20)
    \<and> decode_sock_payload base' out (20, idx) = Some (20, out\<lparr>family := family s, port := port s, addr := addr s\<rparr>, 0, idx + 20)"
proof -
  let ?base = "overlay base idx (payload_bytes s)"
  have len: "length (payload_bytes s) = 20"
    using assms(1) by (simp add: payload_bytes_def sock_wf_def)
  then have "feed ?base (idx + 20) (20, idx) (payload_bytes s @ [])"
    using assms(3) by (auto simp: feed_def bounded_def overlay_def)
  from yields_eq [OF decode_sock_payload_yields [OF this assms(1,2)]]
  show ?thesis
    using assms len by (simp add: encode_sock_payload_emit emit_def)
qed

theorem sock_payload_roundtrip_witness:
  "\<exists>base'. encode_sock_payload ex_sock (replicate 26 0, 6) = Some (20, base', 6 + 20)
    \<and> decode_sock_payload base' zero_sock (20, 6)
        = Some (20, zero_sock\<lparr>family := family ex_sock, port := port ex_sock, addr := addr ex_sock\<rparr>, 0, 6 + 20)"
  by (rule sock_payload_roundtrip) (use ex_canon in \<open>simp_all add: sock_canon_def\<close>)

text \<open>
  The decoder of such an entry counts down the remaining bytes for the blank second byte without a check: on an
  entry that ends after its first byte the count wraps around to \<open>2 ^ 64 - 1\<close> and the next read is outside the buffer.
\<close>

theorem sock_payload_truncated:
  assumes "length base = idx + 1"
  shows "decode_sock_payload base out (1, idx) = None"
  using assms by (simp add: decode_sock_payload_def decode_uint8_def rd_def)

theorem sock_payload_truncated_witness: "decode_sock_payload [2] zero_sock (1, 0) = None"
  by (rule sock_payload_truncated) simp

end
