(* ===== verification/Ciphers.thy ===== *)
theory Ciphers
  imports Prelude
begin

text \<open>
  The interfaces between the ciphers and the transforms that use them: a stream cipher, whose encryption is its own
  inverse, and a block cipher, from which cipher block chaining is built.
\<close>

subsection \<open>Stream ciphers\<close>

lemma map2_append: "length xs = length us \<Longrightarrow> map2 f (xs @ ys) (us @ vs) = map2 f xs us @ map2 f ys vs"
  by simp

lemma zip_take_left: "length w \<le> n \<Longrightarrow> zip (take n b) w = zip b w"
proof (induction w arbitrary: n b)
  case (Cons x w)
  then show ?case by (cases n; cases b) simp_all
qed simp

lemma map2_xor_twice:
  fixes ks xs :: bytes
  shows "length xs \<le> length ks \<Longrightarrow> map2 (XOR) ks (map2 (XOR) ks xs) = xs"
proof (induction ks xs rule: list_induct2')
  case (4 k ks x xs)
  then show ?case by (simp add: xor_cancel)
qed simp_all

text \<open>
  \<open>stream k iv n\<close> is the key stream of at least \<open>n\<close> bytes that the cipher adds to \<open>n\<close> bytes of data; a longer stream extends
  a shorter one.
\<close>

locale stream_cipher =
  fixes crypt :: "'k \<Rightarrow> bytes \<Rightarrow> bytes \<Rightarrow> bytes"
    and stream :: "'k \<Rightarrow> bytes \<Rightarrow> nat \<Rightarrow> bytes"
  assumes stream_length: "n \<le> length (stream k iv n)"
    and crypt_stream: "length inp \<le> n \<Longrightarrow> crypt k iv inp = map2 (XOR) (stream k iv n) inp"
begin

lemma length_crypt: "length (crypt k iv inp) = length inp"
  using stream_length [of "length inp" k iv] by (simp add: crypt_stream [OF le_refl])

lemma involution: "crypt k iv (crypt k iv inp) = inp"
proof -
  have c: "crypt k iv inp = map2 (XOR) (stream k iv (length inp)) inp"
    by (rule crypt_stream) simp
  have "crypt k iv (crypt k iv inp) = map2 (XOR) (stream k iv (length inp)) (crypt k iv inp)"
    by (rule crypt_stream) (simp add: length_crypt)
  also have "\<dots> = inp"
    unfolding c by (rule map2_xor_twice [OF stream_length])
  finally show ?thesis .
qed

lemma prefix: "crypt k iv (take m inp) = take m (crypt k iv inp)"
proof -
  have "crypt k iv (take m inp) = map2 (XOR) (stream k iv (length inp)) (take m inp)"
    by (rule crypt_stream) simp
  then show ?thesis
    by (simp add: crypt_stream [OF le_refl] take_map take_zip zip_take_left)
qed

text \<open>The payload of the transforms: the IV in front of the encrypted data.\<close>

lemma framed:
  assumes "length iv = 16"
  shows "crypt k (take 16 (iv @ crypt k iv inp)) (drop 16 (iv @ crypt k iv inp)) = inp"
  using assms by (simp add: involution)

end

subsection \<open>Block ciphers\<close>

text \<open>Cipher block chaining over \<open>n\<close> blocks of sixteen bytes, as it is specified.\<close>

fun cbc_enc :: "(bytes \<Rightarrow> bytes) \<Rightarrow> nat \<Rightarrow> bytes \<Rightarrow> bytes \<Rightarrow> bytes" where
  "cbc_enc e 0 iv inp = []"
| "cbc_enc e (Suc n) iv inp = (let c = e (map2 (XOR) iv (take 16 inp)) in c @ cbc_enc e n c (drop 16 inp))"

fun cbc_dec :: "(bytes \<Rightarrow> bytes) \<Rightarrow> nat \<Rightarrow> bytes \<Rightarrow> bytes \<Rightarrow> bytes" where
  "cbc_dec d 0 iv inp = []"
| "cbc_dec d (Suc n) iv inp = map2 (XOR) (d (take 16 inp)) iv @ cbc_dec d n (take 16 inp) (drop 16 inp)"

lemma map2_xor_cancel_left:
  fixes xs ks :: bytes
  shows "length ks = length xs \<Longrightarrow> map2 (XOR) (map2 (XOR) ks xs) ks = xs"
  by (induction ks xs rule: list_induct2) (simp_all add: xor_cancel)

locale block_cipher =
  fixes enc :: "'k \<Rightarrow> bytes \<Rightarrow> bytes" and dec :: "'k \<Rightarrow> bytes \<Rightarrow> bytes"
  assumes enc_length: "length b = 16 \<Longrightarrow> length (enc k b) = 16"
    and dec_length: "length b = 16 \<Longrightarrow> length (dec k b) = 16"
    and dec_enc: "length b = 16 \<Longrightarrow> dec k (enc k b) = b"
begin

lemma length_cbc_enc: "length iv = 16 \<Longrightarrow> length inp = 16 * n \<Longrightarrow> length (cbc_enc (enc k) n iv inp) = 16 * n"
  by (induction n arbitrary: iv inp) (simp_all add: Let_def enc_length)

lemma cbc_roundtrip:
  "length iv = 16 \<Longrightarrow> length inp = 16 * n \<Longrightarrow> cbc_dec (dec k) n iv (cbc_enc (enc k) n iv inp) = inp"
proof (induction n arbitrary: iv inp)
  case (Suc n)
  let ?c = "enc k (map2 (XOR) iv (take 16 inp))"
  have c: "length ?c = 16" using Suc.prems by (intro enc_length) simp
  have "map2 (XOR) (dec k ?c) iv = take 16 inp"
    using Suc.prems by (simp add: dec_enc map2_xor_cancel_left)
  then show ?case
    using Suc c by (simp add: Let_def)
qed simp

lemma cbc_enc_add:
  "length iv = 16 \<Longrightarrow> 16 * (m + n) \<le> length inp \<Longrightarrow>
   \<exists>iv'. length iv' = 16 \<and> cbc_enc (enc k) (m + n) iv inp = cbc_enc (enc k) m iv inp @ cbc_enc (enc k) n iv' (drop (16 * m) inp)"
proof (induction m arbitrary: iv inp)
  case (Suc m)
  let ?c = "enc k (map2 (XOR) iv (take 16 inp))"
  have "length ?c = 16" using Suc.prems by (intro enc_length) simp
  moreover have "16 * (m + n) \<le> length (drop 16 inp)" using Suc.prems by simp
  ultimately obtain iv' where "length iv' = 16" "cbc_enc (enc k) (m + n) ?c (drop 16 inp) =
      cbc_enc (enc k) m ?c (drop 16 inp) @ cbc_enc (enc k) n iv' (drop (16 * m) (drop 16 inp))"
    using Suc.IH by blast
  then show ?case by (auto simp: Let_def add.commute)
qed auto

text \<open>
  Cipher text stealing: the last block of plain text ends in zeros, so that the part of the penultimate cipher block
  that is not sent is found in the decryption of the last one.
\<close>

lemma stolen_block:
  assumes "length c = 16" and "length p = r" and "r \<le> 16"
  shows "take r c @ drop r (dec k (enc k (map2 (XOR) c (p @ replicate (16 - r) 0)))) = c"
proof -
  have "dec k (enc k (map2 (XOR) c (p @ replicate (16 - r) 0))) = map2 (XOR) c (p @ replicate (16 - r) 0)"
    using assms by (intro dec_enc) simp
  moreover have "drop r (map2 (XOR) c (p @ replicate (16 - r) 0)) = drop r c"
  proof -
    have "map2 (XOR) xs (replicate (length xs) 0) = xs" for xs :: bytes
      by (induction xs) simp_all
    from this [of "drop r c"] show ?thesis using assms by (simp add: drop_map drop_zip)
  qed
  ultimately show ?thesis by simp
qed

end

end
