(* ===== verification/Speck.thy ===== *)
theory Speck
  imports Ciphers
begin

text \<open>
  The cipher of \<^verbatim>\<open>src/speck.c\<close> in its portable variant (the part after \<^verbatim>\<open>#else // plain C\<close>): the key expansion,
  counter mode and the single-block routines that the header encryption and the user authentication use.
  The vectorised variants of the same file compute the same function on vector registers and are not modelled.
\<close>

record speck_context =
  speck_key :: "u64 list"
  speck_keysize :: nat

definition ROR :: "u64 \<Rightarrow> nat \<Rightarrow> u64" where
  "ROR x r = drop_bit r x OR push_bit (64 - r) x"

definition ROL :: "u64 \<Rightarrow> nat \<Rightarrow> u64" where
  "ROL x r = push_bit r x OR drop_bit (64 - r) x"

definition speck_R :: "u64 \<times> u64 \<Rightarrow> u64 \<Rightarrow> u64 \<times> u64" where
  "speck_R = (\<lambda>(x, y) k. let x = ROR x 8; x = x + y; x = x XOR k; y = ROL y 3; y = y XOR x in (x, y))"

definition speck_encrypt :: "u64 \<times> u64 \<Rightarrow> speck_context \<Rightarrow> nat \<Rightarrow> u64 \<times> u64" where
  "speck_encrypt uv ctx numrounds = fold (\<lambda>i xy. speck_R xy (speck_key ctx ! i)) [0..<numrounds] uv"

text \<open>
  Counter mode: the loop over whole blocks, then the partial block. The input is the list of its bytes, the output
  the bytes written; the nonce is kept as the pair of its halves, of which the first is counted up.
\<close>

function speck_ctr_loop :: "speck_context \<Rightarrow> nat \<Rightarrow> u64 \<Rightarrow> u64 \<Rightarrow> bytes \<Rightarrow> bytes" where
  "speck_ctr_loop ctx numrounds n0 n1 inp =
     (if length inp \<ge> 16 then
        let (x, y) = speck_encrypt (n1, n0) ctx numrounds in
        st64 (y XOR ld64 (take 8 inp)) @ st64 (x XOR ld64 (take 8 (drop 8 inp)))
          @ speck_ctr_loop ctx numrounds (n0 + 1) n1 (drop 16 inp)
      else if length inp > 0 then
        let (x, y) = speck_encrypt (n1, n0) ctx numrounds; block = st64 y @ st64 x in
        map2 (XOR) (take (length inp) block) inp
      else [])"
  by pat_completeness auto
termination
  by (relation "measure (\<lambda>(ctx, r, n0, n1, inp). length inp)") auto

declare speck_ctr_loop.simps [simp del]

definition speck_ctr :: "speck_context \<Rightarrow> bytes \<Rightarrow> bytes \<Rightarrow> bytes" where
  "speck_ctr ctx n inp =
     (let numrounds = (if speck_keysize ctx = 256 then 34 else 32) in
      speck_ctr_loop ctx numrounds (ld64 (take 8 n)) (ld64 (take 8 (drop 8 n))) inp)"

text \<open>
  The key expansion. With 128-bit keys the loop index is taken back by two after each round, so that it advances
  by one instead of three.
\<close>

function speck_expand_loop :: "nat \<Rightarrow> nat \<Rightarrow> u64 list \<Rightarrow> u64 list \<Rightarrow> u64 list \<times> u64 list" where
  "speck_expand_loop keysize i K key =
     (if i < 33 then
        let key = key[i := K ! 0];
            (x, y) = speck_R (K ! 1, K ! 0) (of_nat i);
            K = K[1 := x, 0 := y] in
        if keysize = 256 then
          let key = key[i + 1 := K ! 0];
              (x, y) = speck_R (K ! 2, K ! 0) (of_nat (i + 1));
              K = K[2 := x, 0 := y];
              key = key[i + 2 := K ! 0];
              (x, y) = speck_R (K ! 3, K ! 0) (of_nat (i + 2));
              K = K[3 := x, 0 := y] in
          speck_expand_loop keysize (i + 3) K key
        else speck_expand_loop keysize (i + 1) K key
      else (K, key))"
  by pat_completeness auto
termination
  by (relation "measure (\<lambda>(keysize, i, K, key). 33 - i)") auto

declare speck_expand_loop.simps [simp del]

definition speck_expand_key :: "bytes \<Rightarrow> nat \<Rightarrow> speck_context" where
  "speck_expand_key k keysize =
     (let K = map (\<lambda>i. if i < keysize div 64 then ld64 (take 8 (drop (8 * i) k)) else 0) [0..<4];
          (K, key) = speck_expand_loop keysize 0 K (replicate 34 0);
          key = key[33 := K ! 0] in
      \<lparr>speck_key = key, speck_keysize = keysize\<rparr>)"

definition speck_init :: "bytes \<Rightarrow> nat \<Rightarrow> int \<times> speck_context" where
  "speck_init k keysize = (1, speck_expand_key k keysize)"

subsection \<open>Single blocks\<close>

definition ROTL64 :: "u64 \<Rightarrow> nat \<Rightarrow> u64" where
  "ROTL64 x r = push_bit r x OR drop_bit (64 - r) x"

definition ROTR64 :: "u64 \<Rightarrow> nat \<Rightarrow> u64" where
  "ROTR64 x r = drop_bit r x OR push_bit (64 - r) x"

definition DR128 :: "u64 \<times> u64 \<Rightarrow> u64 \<Rightarrow> u64 \<times> u64" where
  "DR128 = (\<lambda>(x, y) k. let y = y XOR x; y = ROTR64 y 3; x = x XOR k; x = x - y; x = ROTL64 x 8 in (x, y))"

definition ER128 :: "u64 \<times> u64 \<Rightarrow> u64 \<Rightarrow> u64 \<times> u64" where
  "ER128 = (\<lambda>(x, y) k. let x = (ROTR64 x 8 + y) XOR k; y = ROTL64 y 3 XOR x in (x, y))"

definition speck_128_decrypt :: "speck_context \<Rightarrow> bytes \<Rightarrow> bytes" where
  "speck_128_decrypt ctx inout =
     (let (x, y) = fold (\<lambda>i xy. DR128 xy (speck_key ctx ! i)) (rev [0..<32])
                     (ld64 (take 8 (drop 8 inout)), ld64 (take 8 inout)) in
      st64 y @ st64 x @ drop 16 inout)"

definition speck_128_encrypt :: "speck_context \<Rightarrow> bytes \<Rightarrow> bytes" where
  "speck_128_encrypt ctx inout =
     (let (x, y) = fold (\<lambda>i xy. ER128 xy (speck_key ctx ! i)) [0..<32]
                     (ld64 (take 8 (drop 8 inout)), ld64 (take 8 inout)) in
      st64 y @ st64 x @ drop 16 inout)"

subsection \<open>Rotations\<close>

lemma bit_ROTL64: "0 < r \<Longrightarrow> r < 64 \<Longrightarrow> n < 64 \<Longrightarrow> bit (ROTL64 x r) n \<longleftrightarrow> bit x ((n + (64 - r)) mod 64)"
  by (auto simp: ROTL64_def bit_or_iff bit_push_bit_iff bit_drop_bit_eq mod_if algebra_simps
      dest: bit_imp_le_length)

lemma bit_ROTR64: "0 < r \<Longrightarrow> r < 64 \<Longrightarrow> n < 64 \<Longrightarrow> bit (ROTR64 x r) n \<longleftrightarrow> bit x ((n + r) mod 64)"
  by (auto simp: ROTR64_def bit_or_iff bit_push_bit_iff bit_drop_bit_eq mod_if algebra_simps
      dest: bit_imp_le_length)

lemma rotate_inverse:
  assumes "0 < r" and "r < 64"
  shows "ROTL64 (ROTR64 x r) r = x" "ROTR64 (ROTL64 x r) r = x"
proof -
  show "ROTL64 (ROTR64 x r) r = x"
  proof (rule bit_word_eqI)
    fix n assume "n < LENGTH(64)"
    then show "bit (ROTL64 (ROTR64 x r) r) n \<longleftrightarrow> bit x n"
      using assms by (simp add: bit_ROTL64 bit_ROTR64 mod_add_left_eq)
  qed
  show "ROTR64 (ROTL64 x r) r = x"
  proof (rule bit_word_eqI)
    fix n assume n: "n < LENGTH(64)"
    then have "((n + r) mod 64 + (64 - r)) mod 64 = n"
      using mod_add_left_eq [of "n + r" 64 "64 - r"] assms by simp
    then show "bit (ROTR64 (ROTL64 x r) r) n \<longleftrightarrow> bit x n"
      using assms n by (simp add: bit_ROTL64 bit_ROTR64 del: Nat.add_diff_assoc)
  qed
qed

subsection \<open>Decryption inverts encryption\<close>

lemma DR_ER: "DR128 (ER128 xy k) k = xy"
  by (cases xy) (simp add: DR128_def ER128_def Let_def xor_simps rotate_inverse)

lemma ER_DR: "ER128 (DR128 xy k) k = xy"
  by (cases xy) (simp add: DR128_def ER128_def Let_def xor_simps rotate_inverse)

lemma fold_inverse:
  assumes "\<And>i s. g i (f i s) = s"
  shows "fold g (rev is) (fold f is s) = s"
  by (induction "is" arbitrary: s) (simp_all add: assms)

lemma length_speck_128 [simp]:
  "16 \<le> length b \<Longrightarrow> length (speck_128_encrypt ctx b) = length b"
  "16 \<le> length b \<Longrightarrow> length (speck_128_decrypt ctx b) = length b"
  by (auto simp: speck_128_encrypt_def speck_128_decrypt_def split: prod.split)

lemma halves: "16 \<le> length b \<Longrightarrow> st64 (ld64 (take 8 b)) @ st64 (ld64 (take 8 (drop 8 b))) @ drop 16 b = b"
proof -
  assume "16 \<le> length b"
  then have "st64 (ld64 (take 8 b)) @ st64 (ld64 (take 8 (drop 8 b))) @ drop 16 b
      = take 8 b @ take 8 (drop 8 b) @ drop 8 (drop 8 b)"
    by simp
  also have "\<dots> = b" by (simp only: append_take_drop_id)
  finally show ?thesis .
qed

lemma speck_128_decrypt_encrypt:
  assumes "16 \<le> length b"
  shows "speck_128_decrypt ctx (speck_128_encrypt ctx b) = b"
proof -
  obtain x y where xy: "fold (\<lambda>i xy. ER128 xy (speck_key ctx ! i)) [0..<32]
      (ld64 (take 8 (drop 8 b)), ld64 (take 8 b)) = (x, y)" by fastforce
  have "fold (\<lambda>i xy. DR128 xy (speck_key ctx ! i)) (rev [0..<32]) (x, y)
      = (ld64 (take 8 (drop 8 b)), ld64 (take 8 b))"
    unfolding xy [symmetric] by (rule fold_inverse) (rule DR_ER)
  then show ?thesis
    using halves [OF assms] by (simp add: speck_128_decrypt_def speck_128_encrypt_def xy)
qed

lemma speck_128_encrypt_decrypt:
  assumes "16 \<le> length b"
  shows "speck_128_encrypt ctx (speck_128_decrypt ctx b) = b"
proof -
  obtain x y where xy: "fold (\<lambda>i xy. DR128 xy (speck_key ctx ! i)) (rev [0..<32])
      (ld64 (take 8 (drop 8 b)), ld64 (take 8 b)) = (x, y)" by fastforce
  have "fold (\<lambda>i xy. ER128 xy (speck_key ctx ! i)) (rev (rev [0..<32])) (x, y)
      = (ld64 (take 8 (drop 8 b)), ld64 (take 8 b))"
    unfolding xy [symmetric] by (rule fold_inverse) (rule ER_DR)
  then show ?thesis
    using halves [OF assms] by (simp add: speck_128_decrypt_def speck_128_encrypt_def xy)
qed

text \<open>
  The single-block routines are inverse to each other, for every key schedule and every block.
\<close>

theorem speck_128_inverse:
  assumes "16 \<le> length b"
  shows "speck_128_decrypt ctx (speck_128_encrypt ctx b) = b \<and> speck_128_encrypt ctx (speck_128_decrypt ctx b) = b"
  using assms by (simp add: speck_128_decrypt_encrypt speck_128_encrypt_decrypt)

theorem speck_128_inverse_witness:
  "speck_128_decrypt (speck_expand_key (replicate 16 1) 128)
      (speck_128_encrypt (speck_expand_key (replicate 16 1) 128) (replicate 20 7)) = replicate 20 7"
  using speck_128_inverse [of "replicate 20 7"] by simp

subsection \<open>Counter mode\<close>

text \<open>The key stream of counter mode, block by block.\<close>

definition speck_block :: "speck_context \<Rightarrow> nat \<Rightarrow> u64 \<Rightarrow> u64 \<Rightarrow> bytes" where
  "speck_block ctx numrounds n0 n1 = (let (x, y) = speck_encrypt (n1, n0) ctx numrounds in st64 y @ st64 x)"

fun speck_stream :: "speck_context \<Rightarrow> nat \<Rightarrow> u64 \<Rightarrow> u64 \<Rightarrow> nat \<Rightarrow> bytes" where
  "speck_stream ctx numrounds n0 n1 0 = []"
| "speck_stream ctx numrounds n0 n1 (Suc k) =
     speck_block ctx numrounds n0 n1 @ speck_stream ctx numrounds (n0 + 1) n1 k"

lemma length_speck_block [simp]: "length (speck_block ctx r n0 n1) = 16"
  by (simp add: speck_block_def split: prod.split)

lemma length_speck_stream [simp]: "length (speck_stream ctx r n0 n1 k) = 16 * k"
  by (induction k arbitrary: n0) simp_all

lemma block_xor:
  assumes "length w = 16"
  shows "(case speck_encrypt (n1, n0) ctx r of (x, y) \<Rightarrow> st64 (y XOR ld64 (take 8 w)) @ st64 (x XOR ld64 (drop 8 w)))
    = map2 (XOR) (speck_block ctx r n0 n1) w"
proof -
  obtain x y where xy: "speck_encrypt (n1, n0) ctx r = (x, y)" by fastforce
  have "map2 (XOR) (st64 y @ st64 x) (take 8 w @ drop 8 w)
      = map2 (XOR) (st64 y) (take 8 w) @ map2 (XOR) (st64 x) (drop 8 w)"
    using assms by (intro map2_append) simp
  also have "\<dots> = st64 (y XOR ld64 (take 8 w)) @ st64 (x XOR ld64 (drop 8 w))"
    using assms by (simp add: le_bytes_xor)
  finally show ?thesis by (simp add: xy speck_block_def)
qed

lemma speck_ctr_loop_stream:
  "length inp \<le> 16 * k \<Longrightarrow> speck_ctr_loop ctx r n0 n1 inp = map2 (XOR) (speck_stream ctx r n0 n1 k) inp"
proof (induction k arbitrary: n0 inp)
  case 0
  then show ?case by (simp add: speck_ctr_loop.simps)
next
  case (Suc k)
  show ?case
  proof (cases "16 \<le> length inp")
    case True
    have "speck_ctr_loop ctx r n0 n1 inp =
        map2 (XOR) (speck_block ctx r n0 n1) (take 16 inp) @ speck_ctr_loop ctx r (n0 + 1) n1 (drop 16 inp)"
      using True block_xor [of "take 16 inp" n1 n0 ctx r]
      by (simp add: speck_ctr_loop.simps [of ctx r n0] drop_take split: prod.splits)
    also have "\<dots> = map2 (XOR) (speck_stream ctx r n0 n1 (Suc k)) (take 16 inp @ drop 16 inp)"
      using Suc True by (subst speck_stream.simps, subst map2_append) simp_all
    finally show ?thesis by simp
  next
    case False
    then show ?thesis
      by (auto simp: speck_ctr_loop.simps [of ctx r n0] speck_block_def zip_take_left zip_append1 split: prod.splits)
  qed
qed

text \<open>The key stream of a message, long enough for \<open>n\<close> bytes.\<close>

definition speck_keystream :: "speck_context \<Rightarrow> bytes \<Rightarrow> nat \<Rightarrow> bytes" where
  "speck_keystream ctx iv n = speck_stream ctx (if speck_keysize ctx = 256 then 34 else 32)
     (ld64 (take 8 iv)) (ld64 (take 8 (drop 8 iv))) n"

interpretation speck: stream_cipher speck_ctr speck_keystream
proof
  show "n \<le> length (speck_keystream ctx iv n)" for ctx iv n
    by (simp add: speck_keystream_def)
  show "speck_ctr ctx iv inp = map2 (XOR) (speck_keystream ctx iv n) inp" if "length inp \<le> n" for ctx iv inp n
    using that by (simp add: speck_ctr_def speck_keystream_def speck_ctr_loop_stream)
qed

interpretation speck_block: block_cipher speck_128_encrypt speck_128_decrypt
  by unfold_locales (simp_all add: speck_128_decrypt_encrypt)

lemmas length_speck_ctr [simp] = speck.length_crypt
lemmas speck_ctr_involution = speck.involution
lemmas speck_ctr_take = speck.prefix

text \<open>
  Counter mode decrypts what it encrypts, keeps the length, and encrypts a prefix independently of what
  follows: the first bytes can be decrypted alone, as the header decryption does with the magic bytes.
\<close>

theorem speck_ctr_correct:
  "speck_ctr ctx n (speck_ctr ctx n inp) = inp \<and> length (speck_ctr ctx n inp) = length inp
   \<and> speck_ctr ctx n (take m inp) = take m (speck_ctr ctx n inp)"
  by (simp add: speck_ctr_involution speck_ctr_take)

text \<open>
  The two copies of the round function in the source agree: the round macro of counter mode and the one of the single-block
  routines are the same, so a 32-round counter-mode block is the single-block encryption of the nonce.
\<close>

theorem speck_block_equivalence:
  assumes "length n = 16"
  shows "speck_block ctx 32 (ld64 (take 8 n)) (ld64 (drop 8 n)) = speck_128_encrypt ctx n"
proof -
  have "speck_R = ER128"
    by (simp add: speck_R_def ER128_def ROR_def ROL_def ROTR64_def ROTL64_def)
  then show ?thesis
    using assms by (simp add: speck_block_def speck_encrypt_def speck_128_encrypt_def)
qed

theorem speck_block_equivalence_witness:
  "speck_block (speck_expand_key (replicate 16 1) 128) 32 (ld64 (take 8 (replicate 16 2))) (ld64 (drop 8 (replicate 16 2)))
     = speck_128_encrypt (speck_expand_key (replicate 16 1) 128) (replicate 16 2)"
  by (rule speck_block_equivalence) simp

end
