(* ===== verification/Pearson.thy ===== *)
theory Pearson
  imports Prelude
begin

text \<open>
  The hash functions of \<^verbatim>\<open>src/pearson.c\<close>. The 64, 128 and 256 bit variants run one, two and four lanes over
  the same input; a lane is numbered from one, as the macro \<open>hash_round\<close> does.
\<close>

definition permute64 :: "u64 \<Rightarrow> u64" where
  "permute64 x = (let
     x = x XOR drop_bit 30 x;
     x = x * 0xbf58476d1ce4e5b9;
     x = x XOR drop_bit 27 x;
     x = x * 0x94d049bb133111eb
   in x XOR drop_bit 31 x)"

definition hash_round :: "u64 \<Rightarrow> u64 \<Rightarrow> nat \<Rightarrow> u64" where
  "hash_round hash x part = permute64 ((hash XOR x) - of_nat part)"

definition hash_rounds :: "u64 list \<Rightarrow> u64 \<Rightarrow> u64 list" where
  "hash_rounds hs x = map2 (\<lambda>i h. hash_round h x (Suc i)) [0..<length hs] hs"

function digest_words :: "u64 list \<Rightarrow> bytes \<Rightarrow> u64 list \<times> bytes" where
  "digest_words hs bs =
     (if length bs > 7 then digest_words (hash_rounds hs (ld64 (take 8 bs))) (drop 8 bs) else (hs, bs))"
  by pat_completeness auto
termination
  by (relation "measure (length \<circ> snd)") auto

declare digest_words.simps [simp del]

fun digest_bytes :: "u64 list \<Rightarrow> bytes \<Rightarrow> u64 list" where
  "digest_bytes hs [] = hs"
| "digest_bytes hs (b # bs) = digest_bytes (hash_rounds hs (ucast b)) bs"

definition pearson_digest :: "nat \<Rightarrow> bytes \<Rightarrow> u64 list" where
  "pearson_digest lanes bs = (let
     (hs, rest) = digest_words (replicate lanes 0) bs;
     hs = map NOT hs;
     hs = digest_bytes hs rest;
     hs = map NOT hs
   in hash_rounds hs (of_nat (length bs)))"

definition pearson_hash_256 :: "bytes \<Rightarrow> bytes" where
  "pearson_hash_256 bs = concat (map (be_bytes 8) (rev (pearson_digest 4 bs)))"

definition pearson_hash_128 :: "bytes \<Rightarrow> bytes" where
  "pearson_hash_128 bs = concat (map (be_bytes 8) (rev (pearson_digest 2 bs)))"

definition pearson_hash_64 :: "bytes \<Rightarrow> u64" where
  "pearson_hash_64 bs = hd (pearson_digest 1 bs)"

definition pearson_hash_32 :: "bytes \<Rightarrow> u32" where
  "pearson_hash_32 bs = ucast (pearson_hash_64 bs)"

definition pearson_hash_16 :: "bytes \<Rightarrow> u16" where
  "pearson_hash_16 bs = ucast (pearson_hash_64 bs)"

subsection \<open>Lanes are independent\<close>

lemma digest_words_more:
  "7 < length bs \<Longrightarrow> digest_words hs bs = digest_words (hash_rounds hs (ld64 (take 8 bs))) (drop 8 bs)"
  and digest_words_done: "\<not> 7 < length bs \<Longrightarrow> digest_words hs bs = (hs, bs)"
  by (subst digest_words.simps, simp)+

lemmas digest_words_simps = digest_words_more digest_words_done

lemma length_hash_rounds [simp]: "length (hash_rounds hs x) = length hs"
  by (simp add: hash_rounds_def)

lemma take_hash_rounds: "take m (hash_rounds hs x) = hash_rounds (take m hs) x"
  by (rule nth_equalityI) (auto simp: hash_rounds_def)

lemma take_digest_words:
  "digest_words (take m hs) bs = (take m (fst (digest_words hs bs)), snd (digest_words hs bs))"
proof (induction hs bs rule: digest_words.induct)
  case (1 hs bs)
  show ?case
    using 1 by (cases "7 < length bs") (simp_all add: digest_words_more [of bs hs] digest_words_more [of bs "take m hs"]
        digest_words_done take_hash_rounds)
qed

lemma take_digest_bytes: "digest_bytes (take m hs) bs = take m (digest_bytes hs bs)"
  by (induction hs bs rule: digest_bytes.induct) (simp_all add: take_hash_rounds [symmetric])

lemma take_pearson_digest: "m \<le> n \<Longrightarrow> take m (pearson_digest n bs) = pearson_digest m bs"
  using take_digest_words [of m "replicate n 0" bs]
  by (auto simp: pearson_digest_def Let_def take_hash_rounds take_digest_bytes take_map [symmetric]
      split: prod.splits)

lemma length_digest_words [simp]: "length (fst (digest_words hs bs)) = length hs"
proof (induction hs bs rule: digest_words.induct)
  case (1 hs bs)
  then show ?case by (cases "7 < length bs") (simp_all add: digest_words_more [of bs] digest_words_done)
qed

lemma length_digest_bytes [simp]: "length (digest_bytes hs bs) = length hs"
  by (induction hs bs rule: digest_bytes.induct) simp_all

lemma length_pearson_digest [simp]: "length (pearson_digest n bs) = n"
  by (simp add: pearson_digest_def Let_def case_prod_unfold)

text \<open>
  The hash functions are consistent with each other: the second half of the 256-bit hash is the 128-bit hash,
  and the second half of the 128-bit hash is the 64-bit hash in network order.
\<close>

theorem pearson_hash_halves:
  "drop 16 (pearson_hash_256 bs) = pearson_hash_128 bs
   \<and> drop 8 (pearson_hash_128 bs) = be_bytes 8 (pearson_hash_64 bs)"
proof -
  obtain h1 h2 h3 h4 where d4: "pearson_digest 4 bs = [h1, h2, h3, h4]"
    using list_4 [OF length_pearson_digest [of 4 bs]] by blast
  have d2: "pearson_digest 2 bs = [h1, h2]"
    using take_pearson_digest [of 2 4 bs] d4 by simp
  have d1: "pearson_digest 1 bs = [h1]"
    using take_pearson_digest [of 1 4 bs] d4 by simp
  show ?thesis
    by (simp add: pearson_hash_256_def pearson_hash_128_def pearson_hash_64_def d4 d2 d1 [unfolded One_nat_def])
qed

subsection \<open>A change of one word is detected\<close>

lemma permute64_inj: "permute64 x = permute64 y \<Longrightarrow> x = y"
proof -
  have i1: "(0xbf58476d1ce4e5b9 :: u64) * 0x96DE1B173F119089 = 1"
    and i2: "(0x94d049bb133111eb :: u64) * 0x319642B2D24D8EC3 = 1"
    by simp_all
  assume eq: "permute64 x = permute64 y"
  define f g :: "u64 \<Rightarrow> u64" where "f = (\<lambda>z. (z XOR drop_bit 30 z) * 0xbf58476d1ce4e5b9)"
    and "g = (\<lambda>z. (z XOR drop_bit 27 z) * 0x94d049bb133111eb)"
  have "g (f x) XOR drop_bit 31 (g (f x)) = g (f y) XOR drop_bit 31 (g (f y))"
    using eq by (simp add: permute64_def Let_def f_def g_def)
  then have "g (f x) = g (f y)"
    by (rule xorshift_right_inj) simp
  then have "f x XOR drop_bit 27 (f x) = f y XOR drop_bit 27 (f y)"
    unfolding g_def by (rule mult_unit_inj [OF _ i2])
  then have "f x = f y"
    by (rule xorshift_right_inj) simp
  then have "x XOR drop_bit 30 x = y XOR drop_bit 30 y"
    unfolding f_def by (rule mult_unit_inj [OF _ i1])
  then show ?thesis
    by (rule xorshift_right_inj) simp
qed

lemma hash_round_xor_inj: "hash_round h x p = hash_round h' x' p \<Longrightarrow> h XOR x = h' XOR x'"
  unfolding hash_round_def by (drule permute64_inj) simp

lemma hash_round_inj:
  "hash_round h x p = hash_round h' x p \<Longrightarrow> h = h'" "hash_round h x p = hash_round h x' p \<Longrightarrow> x = x'"
  by (drule hash_round_xor_inj, metis xor_cancel(1)) (drule hash_round_xor_inj, metis xor_cancel(3))

lemma hash_rounds_single: "hash_rounds [h] x = [hash_round h x 1]"
  by (simp add: hash_rounds_def)

lemma digest_words_inj:
  assumes "fst (digest_words [h] bs) = fst (digest_words [h'] bs)"
  shows "h = h'"
  using assms
proof (induction "[h]" bs arbitrary: h h' rule: digest_words.induct)
  case (1 bs)
  show ?case
  proof (cases "7 < length bs")
    case True
    then have "hash_round h (ld64 (take 8 bs)) 1 = hash_round h' (ld64 (take 8 bs)) 1"
      using 1 by (simp add: digest_words_more hash_rounds_single)
    then show ?thesis by (rule hash_round_inj)
  next
    case False
    then show ?thesis using 1 by (simp add: digest_words_done)
  qed
qed

lemma digest_bytes_inj: "digest_bytes [h] bs = digest_bytes [h'] bs \<Longrightarrow> h = h'"
  by (induction "[h]" bs arbitrary: h h' rule: digest_bytes.induct)
    (auto simp: hash_rounds_single dest: hash_round_inj)

lemma digest_words_step:
  "length pre = 8 * n \<Longrightarrow> length w = 8 \<Longrightarrow>
   \<exists>h'. \<forall>w. length w = 8 \<longrightarrow> digest_words [h] (pre @ w @ post) = digest_words [hash_round h' (ld64 w) 1] post"
proof (induction n arbitrary: pre h)
  case 0
  have "digest_words [h] (v @ post) = digest_words [hash_round h (ld64 v) 1] post" if "length v = 8" for v
    using that by (simp add: digest_words_more hash_rounds_single)
  then show ?case using 0 by auto
next
  case (Suc n)
  then have "length (drop 8 pre) = 8 * n" by simp
  from Suc.IH [OF this Suc.prems(2), of "hash_round h (ld64 (take 8 pre)) 1"]
  show ?case
    using Suc.prems by (simp add: digest_words_more hash_rounds_single)
qed

lemma digest_words_snd: "snd (digest_words hs bs) = snd (digest_words hs' bs)"
proof (induction hs bs arbitrary: hs' rule: digest_words.induct)
  case (1 hs bs)
  then show ?case by (cases "7 < length bs") (simp_all add: digest_words_more [of bs] digest_words_done)
qed

text \<open>
  The 64-bit checksum detects every change that is confined to one of the 8-byte words it digests.
\<close>

theorem pearson_hash_64_word_change:
  assumes "length pre = 8 * n" and "length w = 8" and "length w' = 8" and "w \<noteq> w'"
  shows "pearson_hash_64 (pre @ w @ post) \<noteq> pearson_hash_64 (pre @ w' @ post)"
proof
  assume eq: "pearson_hash_64 (pre @ w @ post) = pearson_hash_64 (pre @ w' @ post)"
  obtain h where h: "\<And>w. length w = 8 \<Longrightarrow>
      digest_words [0] (pre @ w @ post) = digest_words [hash_round h (ld64 w) 1] post"
    using digest_words_step [OF assms(1,2)] by blast
  have one: "\<exists>k. fst (digest_words [x] post) = [k]" for x
    using length_digest_words [of "[x]" post] by (metis length_0_conv length_Suc_conv One_nat_def length_Cons list.size(3))
  obtain k k' where k: "digest_words [hash_round h (ld64 w) 1] post = ([k], snd (digest_words [0] post))"
      "digest_words [hash_round h (ld64 w') 1] post = ([k'], snd (digest_words [0] post))"
    using one digest_words_snd by (metis prod.collapse)
  have single: "\<exists>c. digest_bytes [x] r = [c]" for x r
    using length_digest_bytes [of "[x]" r] by (metis length_0_conv length_Suc_conv One_nat_def length_Cons list.size(3))
  obtain c c' where c: "digest_bytes [NOT k] (snd (digest_words [0] post)) = [c]"
      "digest_bytes [NOT k'] (snd (digest_words [0] post)) = [c']"
    using single by metis
  have "hash_round (NOT c) (of_nat (length (pre @ w @ post))) 1 = hash_round (NOT c') (of_nat (length (pre @ w @ post))) 1"
    using eq assms c k h [OF assms(2)] h [OF assms(3)]
    by (simp add: pearson_hash_64_def pearson_digest_def hash_rounds_single)
  then have "c = c'" by (auto dest: hash_round_inj)
  then have "digest_bytes [NOT k] (snd (digest_words [0] post)) = digest_bytes [NOT k'] (snd (digest_words [0] post))"
    using c by simp
  then have "NOT k = NOT k'" by (rule digest_bytes_inj)
  then have "k = k'" by simp
  then have "hash_round h (ld64 w) 1 = hash_round h (ld64 w') 1"
    using k digest_words_inj by (metis fst_conv)
  then have "ld64 w = ld64 w'" by (rule hash_round_inj)
  then show False using assms(2-4) st_ld(2) by metis
qed

theorem pearson_hash_64_word_change_witness:
  "pearson_hash_64 ([] @ [1, 2, 3, 4, 5, 6, 7, 8] @ [9]) \<noteq> pearson_hash_64 ([] @ [1, 2, 3, 4, 5, 6, 7, 0] @ [9])"
  by (rule pearson_hash_64_word_change [where n = 0]) simp_all

end
