(* ===== verification/Random_Numbers.thy ===== *)
theory Random_Numbers
  imports Prelude
begin

text \<open>
  The pseudo random number generator of \<^verbatim>\<open>src/random_numbers.c\<close>: the seeding by splitmix64, XORSHIFT128+,
  the integer square root and the random numbers with higher probability towards the borders. The
  static state of the file is the argument and result of the operations.
\<close>

subsection \<open>The generator\<close>

record rn_generator_state =
  rn_a :: u64
  rn_b :: u64

definition rn_default_state :: rn_generator_state where
  "rn_default_state = \<lparr>rn_a = 0x9E3779B97F4A7C15, rn_b = 0xBF58476D1CE4E5B9\<rparr>"

definition splitmix64 :: "u64 \<Rightarrow> u64 \<times> u64" where
  "splitmix64 s = (let result = s;
       s' = result + 0x9E3779B97F4A7C15;
       result = (result XOR drop_bit 30 result) * 0xBF58476D1CE4E5B9;
       result = (result XOR drop_bit 27 result) * 0x94D049BB133111EB
     in (result XOR drop_bit 31 result, s'))"

definition n2n_rand :: "rn_generator_state \<Rightarrow> u64 \<times> rn_generator_state" where
  "n2n_rand st = (let t = rn_a st; s = rn_b st;
       t = t XOR push_bit 23 t;
       t = t XOR drop_bit 17 t;
       t = t XOR (s XOR drop_bit 26 s)
     in (t + s, \<lparr>rn_a = s, rn_b = t\<rparr>))"

fun rand_skip :: "nat \<Rightarrow> rn_generator_state \<Rightarrow> rn_generator_state" where
  "rand_skip 0 st = st"
| "rand_skip (Suc i) st = rand_skip i (snd (n2n_rand st))"

definition n2n_srand :: "u64 \<Rightarrow> rn_generator_state" where
  "n2n_srand seed = (let (x, s) = splitmix64 seed; (y, s) = splitmix64 s;
       st = \<lparr>rn_a = x, rn_b = y\<rparr>;
       st = (if rn_a st = 0 \<and> rn_b st = 0 then rn_default_state else st)
     in rand_skip 32 st)"

definition rn_zero :: "rn_generator_state \<Rightarrow> bool" where
  "rn_zero st \<longleftrightarrow> rn_a st = 0 \<and> rn_b st = 0"

subsection \<open>The mixing maps only zero to zero\<close>

lemma splitmix64_zero: "fst (splitmix64 s) = 0 \<Longrightarrow> s = 0"
proof -
  assume z: "fst (splitmix64 s) = 0"
  have i1: "(0xBF58476D1CE4E5B9 :: u64) * 0x96DE1B173F119089 = 1"
    and i2: "(0x94D049BB133111EB :: u64) * 0x319642B2D24D8EC3 = 1"
    by simp_all
  show ?thesis
    using z unfolding splitmix64_def Let_def fst_conv
    by (rule xorshift_right_zero [THEN mult_unit_zero [OF _ i2, THEN xorshift_right_zero [THEN
        mult_unit_zero [OF _ i1, THEN xorshift_right_zero]]]]) simp_all
qed

subsection \<open>The state is never all zero\<close>

lemma n2n_rand_nonzero: "\<not> rn_zero st \<Longrightarrow> \<not> rn_zero (snd (n2n_rand st))"
proof
  assume nz: "\<not> rn_zero st" and "rn_zero (snd (n2n_rand st))"
  then have s: "rn_b st = 0"
    and t: "(rn_a st XOR push_bit 23 (rn_a st)) XOR drop_bit 17 (rn_a st XOR push_bit 23 (rn_a st)) = 0"
    unfolding rn_zero_def n2n_rand_def Let_def by (auto simp only: snd_conv rn_generator_state.simps) simp
  from t have "rn_a st XOR push_bit 23 (rn_a st) = 0"
    by (rule xorshift_right_zero) simp
  then have "rn_a st = 0"
    by (rule xorshift_left_zero) simp
  with s nz show False by (simp add: rn_zero_def)
qed

lemma rand_skip_nonzero: "\<not> rn_zero st \<Longrightarrow> \<not> rn_zero (rand_skip i st)"
  by (induction i st rule: rand_skip.induct) (simp_all add: n2n_rand_nonzero)

lemma splitmix64_pair_nonzero:
  "fst (splitmix64 seed) \<noteq> 0 \<or> fst (splitmix64 (snd (splitmix64 seed))) \<noteq> 0"
proof (rule ccontr)
  assume "\<not> ?thesis"
  then have "seed = 0" and "snd (splitmix64 seed) = 0"
    by (auto dest: splitmix64_zero)
  then show False by (simp add: splitmix64_def)
qed

lemma n2n_srand_alt:
  "n2n_srand seed = rand_skip 32 \<lparr>rn_a = fst (splitmix64 seed),
                                 rn_b = fst (splitmix64 (snd (splitmix64 seed)))\<rparr>"
  using splitmix64_pair_nonzero [of seed]
  by (auto simp: n2n_srand_def Let_def split: prod.splits)

text \<open>
  No seed makes both halves of the freshly mixed state zero, so the fallback to the default state after
  the mixing is dead code: seeding is the mixing followed by 32 steps of the generator.
\<close>

theorem n2n_srand_fallback_dead:
  "n2n_srand seed = rand_skip 32 \<lparr>rn_a = fst (splitmix64 seed),
                                 rn_b = fst (splitmix64 (snd (splitmix64 seed)))\<rparr>
    \<and> \<not> rn_zero \<lparr>rn_a = fst (splitmix64 seed), rn_b = fst (splitmix64 (snd (splitmix64 seed)))\<rparr>"
  using splitmix64_pair_nonzero [of seed] by (simp add: n2n_srand_alt rn_zero_def)

text \<open>The states the program can be in: the static initialiser, any seeding, any number of draws.\<close>

inductive rn_reachable :: "rn_generator_state \<Rightarrow> bool" where
  init: "rn_reachable rn_default_state"
| seed: "rn_reachable (n2n_srand s)"
| draw: "rn_reachable st \<Longrightarrow> rn_reachable (snd (n2n_rand st))"

text \<open>
  C19. The generator is never in the all-zero state, from which it would return zero forever, whatever the
  sequence of seedings and draws.
\<close>

theorem rn_reachable_nonzero:
  assumes "rn_reachable st"
  shows "\<not> rn_zero st"
  using assms
proof induction
  case init
  show ?case by (simp add: rn_zero_def rn_default_state_def)
next
  case (seed s)
  then show ?case
    using splitmix64_pair_nonzero [of s]
    unfolding n2n_srand_alt by (intro rand_skip_nonzero) (simp add: rn_zero_def)
next
  case (draw st)
  then show ?case by (simp add: n2n_rand_nonzero)
qed

theorem rn_reachable_nonzero_witness: "\<not> rn_zero (snd (n2n_rand (n2n_srand 0)))"
  by (rule rn_reachable_nonzero, intro rn_reachable.intros)

subsection \<open>Integer square root\<close>

text \<open>
  \<open>int\<close> is the 32-bit signed type; the right shift of a negative value is arithmetic, division by
  two rounded down, so that the counting loop does not end on a negative argument: the value is \<open>None\<close>.
\<close>

definition ftbl :: "int list" where
  "ftbl = [0, 1, 1, 2, 2, 4, 5, 8, 11, 16, 22, 32, 45, 64, 90,
    128, 181, 256, 362, 512, 724, 1024, 1448, 2048, 2896,
    4096, 5792, 8192, 11585, 16384, 23170, 32768, 46340]"

definition ftbl2 :: "int list" where
  "ftbl2 = [32768, 33276, 33776, 34269, 34755, 35235, 35708, 36174,
    36635, 37090, 37540, 37984, 38423, 38858, 39287, 39712,
    40132, 40548, 40960, 41367, 41771, 42170, 42566, 42959,
    43347, 43733, 44115, 44493, 44869, 45241, 45611, 45977]"

partial_function (option) bit_count :: "int \<Rightarrow> nat \<Rightarrow> nat option" where
  "bit_count t cnt = (if t \<noteq> 0 then bit_count (t div 2) (cnt + 1) else Some cnt)"

declare bit_count.simps [code]

definition i_sqrt :: "int \<Rightarrow> int option" where
  "i_sqrt val = do {
     cnt \<leftarrow> bit_count val 0;
     let t = (if 6 \<ge> cnt then val * 2 ^ (6 - cnt) else val div 2 ^ (cnt - 6));
     Some (ftbl ! cnt * ftbl2 ! nat (t mod 32) div 2 ^ 15) }"

definition int_sqrt :: "int \<Rightarrow> int option" where
  "int_sqrt val = do {
     r \<leftarrow> i_sqrt val;
     q \<leftarrow> i_sqrt (val - r * r);
     Some (r + q div 16) }"

text \<open>
  The unsigned arithmetic of \<open>n2n_rand_sqr\<close> is modulo \<open>2 ^ 32\<close>; \<open>None\<close> is also the remainder by zero. The
  random number is drawn from the generator.
\<close>

definition to_int32 :: "int \<Rightarrow> int" where
  "to_int32 x = (x + 2 ^ 31) mod 2 ^ 32 - 2 ^ 31"

definition n2n_rand_sqr :: "u32 \<Rightarrow> rn_generator_state \<Rightarrow> (int \<times> rn_generator_state) option" where
  "n2n_rand_sqr max_n st = do {
     let raw_max = (max_n + 2) * (max_n + 2);
     let (x, st) = n2n_rand st;
     raw_rnd \<leftarrow> (if raw_max = 0 then None else Some (uint x mod uint raw_max));
     q \<leftarrow> int_sqrt (to_int32 raw_rnd);
     let ret = q div 2;
     let ret = (if raw_rnd mod 2 = 1 then ret else - ret);
     let ret = to_int32 (uint max_n div 2 + ret);
     let ret = (if ret < 0 then 0 else ret);
     let ret = (if ret > uint max_n then uint max_n else ret);
     Some (ret, st) }"

subsection \<open>The square root returns and does not exceed the root\<close>

lemma bit_count_nonneg:
  assumes "0 \<le> t" and "t < 2 ^ n"
  shows "\<exists>k \<le> n. bit_count t cnt = Some (cnt + k) \<and> t < 2 ^ k \<and> (0 < t \<longrightarrow> 0 < k \<and> 2 ^ (k - 1) \<le> t)
           \<and> (t = 0 \<longrightarrow> k = 0)"
  using assms
proof (induction n arbitrary: t cnt)
  case 0
  then show ?case by (simp add: bit_count.simps)
next
  case (Suc n)
  show ?case
  proof (cases "t = 0")
    case True
    then show ?thesis by (simp add: bit_count.simps)
  next
    case False
    from Suc.prems have "0 \<le> t div 2" and "t div 2 < 2 ^ n" by auto
    from Suc.IH [OF this, of "cnt + 1"] obtain k where
      k: "k \<le> n" "bit_count (t div 2) (cnt + 1) = Some (cnt + 1 + k)" "t div 2 < 2 ^ k"
        "0 < t div 2 \<longrightarrow> 0 < k \<and> 2 ^ (k - 1) \<le> t div 2" "t div 2 = 0 \<longrightarrow> k = 0"
      by auto
    have low: "2 ^ k \<le> t"
    proof (cases "t div 2 = 0")
      case True
      then show ?thesis using k(5) False Suc.prems by simp
    next
      case nz: False
      then have "0 < k" and "2 * 2 ^ (k - 1) \<le> t"
        using k(4) Suc.prems by auto
      then show ?thesis by (metis Suc_diff_1 power_Suc)
    qed
    have "bit_count t cnt = Some (cnt + Suc k)"
      using False k(2) by (simp add: bit_count.simps [of t])
    then show ?thesis
      using k(1,3) low False Suc.prems by (intro exI [of _ "Suc k"]) auto
  qed
qed

lemma bit_count_negative: "t < 0 \<Longrightarrow> bit_count t cnt = None"
proof -
  have "0 \<le> t" if "bit_count t cnt = Some y" for t cnt y
  proof (rule bit_count.raw_induct [where P = "\<lambda>t cnt y. 0 \<le> t", OF _ that])
    fix f :: "int \<Rightarrow> nat \<Rightarrow> nat option" and t cnt y
    assume ih: "\<And>t cnt y. f t cnt = Some y \<Longrightarrow> 0 \<le> t"
      and body: "(if t \<noteq> 0 then f (t div 2) (cnt + 1) else Some cnt) = Some y"
    show "0 \<le> t"
    proof (cases "t = 0")
      case False
      then have "f (t div 2) (cnt + 1) = Some y" using body by simp
      from ih [OF this] show ?thesis by simp
    qed simp
  qed
  then show "t < 0 \<Longrightarrow> bit_count t cnt = None"
    by (metis not_None_eq not_less)
qed

lemma sqrt_table_high:
  "list_all (\<lambda>cnt. list_all (\<lambda>j. (ftbl ! cnt * ftbl2 ! j div 2 ^ 15) ^ 2 \<le> (32 + int j) * 2 ^ (cnt - 6)) [0..<32]) [6..<32]"
  by code_simp

lemma sqrt_table_low:
  "list_all (\<lambda>cnt. list_all (\<lambda>v. 2 ^ (cnt - 1) \<le> v \<and> v < 2 ^ cnt \<longrightarrow>
     (ftbl ! cnt * ftbl2 ! (v * 2 ^ (6 - cnt) mod 32) div 2 ^ 15) ^ 2 \<le> int v) [0..<32]) [1..<6]"
  by code_simp

lemma tables_nonneg: "list_all (\<lambda>x. 0 \<le> x) ftbl" "list_all (\<lambda>x. 0 \<le> x) ftbl2"
  by code_simp+

lemma list_all_upt: "list_all P [l..<h] \<Longrightarrow> l \<le> k \<Longrightarrow> k < h \<Longrightarrow> P k"
  by (simp add: list_all_iff)

lemma tables_length: "length ftbl = 33" "length ftbl2 = 32"
  by (simp_all add: ftbl_def ftbl2_def)

lemma table_entry_nonneg: "k < 33 \<Longrightarrow> j < 32 \<Longrightarrow> 0 \<le> ftbl ! k * ftbl2 ! j div 2 ^ 15"
  using tables_nonneg by (simp add: list_all_length tables_length pos_imp_zdiv_nonneg_iff)

lemma div_bounds:
  fixes v p l h :: int
  assumes "0 < p" and "l * p \<le> v" and "v < h * p"
  shows "l \<le> v div p" "v div p < h" "(v div p) * p \<le> v"
proof -
  show le: "(v div p) * p \<le> v"
    using assms(1) by (simp add: minus_mod_eq_div_mult [symmetric])
  show "l \<le> v div p"
    using zdiv_mono1 [OF assms(2,1)] assms(1) by simp
  show "v div p < h"
  proof (rule ccontr)
    assume "\<not> v div p < h"
    then have "h * p \<le> (v div p) * p" using assms(1) by (simp add: mult_right_mono)
    then show False using le assms(3) by simp
  qed
qed

lemma entry_high:
  assumes "6 \<le> k" and "k < 32" and "2 ^ (k - 1) \<le> v" and "v < 2 ^ k"
  shows "(ftbl ! k * ftbl2 ! nat (v div 2 ^ (k - 6) mod 32) div 2 ^ 15) ^ 2 \<le> v"
proof -
  define e where "e = k - 6"
  have k: "k = e + 6" "k - 1 = e + 5" using assms(1) by (simp_all add: e_def)
  define t where "t = v div 2 ^ e"
  have v: "32 * 2 ^ e \<le> v" "v < 64 * 2 ^ e"
    using assms(3) [unfolded k(2) power_add] assms(4) [unfolded k(1) power_add] by simp_all
  have t: "32 \<le> t" "t < 64" "t * 2 ^ e \<le> v"
    using div_bounds [OF _ v] by (simp_all add: t_def)
  have "t mod 32 = t - 32" using t(1,2) by presburger
  then have j: "nat (t mod 32) < 32" "32 + int (nat (t mod 32)) = t"
    using t by simp_all
  have "(ftbl ! k * ftbl2 ! nat (t mod 32) div 2 ^ 15) ^ 2 \<le> (32 + int (nat (t mod 32))) * 2 ^ (k - 6)"
    by (rule list_all_upt [OF list_all_upt [OF sqrt_table_high assms(1,2)] le0 j(1)])
  then have "(ftbl ! k * ftbl2 ! nat (t mod 32) div 2 ^ 15) ^ 2 \<le> t * 2 ^ e"
    by (simp only: j(2) e_def)
  also have "\<dots> \<le> v" by (rule t)
  finally show ?thesis by (simp only: t_def e_def)
qed

lemma entry_low:
  assumes "0 < k" and "k < 6" and "2 ^ (k - 1) \<le> v" and "v < 2 ^ k"
  shows "(ftbl ! k * ftbl2 ! nat (v * 2 ^ (6 - k) mod 32) div 2 ^ 15) ^ 2 \<le> v"
proof -
  define n where "n = nat v"
  have "(0 :: int) \<le> 2 ^ (k - 1)" by simp
  then have "0 \<le> v" using assms(3) by (rule order_trans)
  then have v: "v = int n" by (simp add: n_def)
  have n: "2 ^ (k - 1) \<le> n" "n < 2 ^ k"
    using assms(3,4) unfolding v by (metis of_nat_le_iff of_nat_numeral of_nat_power, metis of_nat_less_iff of_nat_numeral of_nat_power)
  have "(2 :: nat) ^ k \<le> 2 ^ 5" using assms(2) by (intro power_increasing) auto
  then have "n < 32" using n(2) by simp
  then have "(ftbl ! k * ftbl2 ! (n * 2 ^ (6 - k) mod 32) div 2 ^ 15) ^ 2 \<le> int n"
    using list_all_upt [OF list_all_upt [OF sqrt_table_low _ assms(2)] le0] assms(1) n by simp
  moreover have "nat (v * 2 ^ (6 - k) mod 32) = n * 2 ^ (6 - k) mod 32"
    unfolding v by (metis nat_int of_nat_mult of_nat_mod of_nat_numeral of_nat_power)
  ultimately show ?thesis by (simp only: v)
qed

lemma i_sqrt_root:
  assumes "0 \<le> v" and "v < 2 ^ 31"
  shows "\<exists>r. i_sqrt v = Some r \<and> 0 \<le> r \<and> r ^ 2 \<le> v"
proof -
  obtain k where k: "k \<le> 31" "bit_count v 0 = Some k" "v < 2 ^ k"
      "0 < v \<longrightarrow> 0 < k \<and> 2 ^ (k - 1) \<le> v" "v = 0 \<longrightarrow> k = 0"
    using bit_count_nonneg [OF assms, of 0] by auto
  define t where "t = (if 6 \<ge> k then v * 2 ^ (6 - k) else v div 2 ^ (k - 6))"
  define r where "r = ftbl ! k * ftbl2 ! nat (t mod 32) div 2 ^ 15"
  have r: "i_sqrt v = Some r"
    using k(2) by (simp add: i_sqrt_def r_def t_def)
  have "0 \<le> r"
    unfolding r_def using k(1) by (intro table_entry_nonneg) (simp_all add: nat_less_iff)
  moreover have "r ^ 2 \<le> v"
  proof (cases "v = 0")
    case True
    then show ?thesis using k(5) by (simp add: r_def ftbl_def)
  next
    case False
    then have low: "0 < k" "2 ^ (k - 1) \<le> v" using k(4) assms(1) by simp_all
    show ?thesis
    proof (cases "6 \<le> k")
      case True
      have "t = v div 2 ^ (k - 6)" using True by (auto simp: t_def)
      then show ?thesis using entry_high [OF True _ low(2) k(3)] k(1) by (simp add: r_def)
    next
      case False
      then show ?thesis using entry_low [OF low(1) _ low(2) k(3)] by (simp add: r_def t_def)
    qed
  qed
  ultimately show ?thesis using r by blast
qed

lemma int_sqrt_returns:
  assumes "0 \<le> v" and "v < 2 ^ 31"
  shows "\<exists>r. int_sqrt v = Some r \<and> 0 \<le> r"
proof -
  obtain r where r: "i_sqrt v = Some r" "0 \<le> r" "r ^ 2 \<le> v"
    using i_sqrt_root [OF assms] by blast
  then have "0 \<le> v - r * r" and "v - r * r < 2 ^ 31"
    using assms by (simp_all add: power2_eq_square) (smt (verit) mult_nonneg_nonneg)
  then obtain q where q: "i_sqrt (v - r * r) = Some q" "0 \<le> q"
    using i_sqrt_root by blast
  then show ?thesis
    using r(1,2) by (simp add: int_sqrt_def)
qed

lemma to_int32_id: "0 \<le> x \<Longrightarrow> x < 2 ^ 31 \<Longrightarrow> to_int32 x = x"
  by (simp add: to_int32_def mod_pos_pos_trivial)

lemma raw_max_value:
  assumes "max_n \<le> (46338 :: u32)"
  shows "uint ((max_n + 2) * (max_n + 2)) = (uint max_n + 2) ^ 2" "(uint max_n + 2) ^ 2 \<le> 2147395600"
proof -
  have m: "0 \<le> uint max_n" "uint max_n \<le> 46338"
    using assms by (simp_all add: word_le_def)
  then have p: "(uint max_n + 2) ^ 2 \<le> 46340 ^ 2"
    by (intro power_mono) simp_all
  then show "(uint max_n + 2) ^ 2 \<le> 2147395600" by simp
  have "uint (max_n + 2) = uint max_n + 2"
    using m by (simp add: uint_word_ariths)
  then show "uint ((max_n + 2) * (max_n + 2)) = (uint max_n + 2) ^ 2"
    using p by (simp add: uint_word_ariths power2_eq_square)
qed

text \<open>
  C21. For every number of nodes up to 46338 and every state of the generator, the drawing of a number returns
  (the loop of the square root ends, also in its second round, and no remainder by zero is taken), and the
  number lies between zero and the given maximum.
\<close>

theorem n2n_rand_sqr_range:
  assumes "max_n \<le> 46338"
  shows "\<exists>r st'. n2n_rand_sqr max_n st = Some (r, st') \<and> 0 \<le> r \<and> r \<le> uint max_n \<and> st' = snd (n2n_rand st)"
proof -
  obtain x st' where x: "n2n_rand st = (x, st')" by fastforce
  let ?m = "uint ((max_n + 2) * (max_n + 2))" and ?raw = "uint x mod uint ((max_n + 2) * (max_n + 2))"
  have "0 < uint max_n + 2" by (rule add_nonneg_pos) simp_all
  then have m: "0 < ?m" "?m \<le> 2147395600"
    using raw_max_value [OF assms] by simp_all
  then have nz: "(max_n + 2) * (max_n + 2) \<noteq> 0" by auto
  have raw: "0 \<le> ?raw" "?raw < 2 ^ 31"
    using order_less_le_trans [OF pos_mod_bound [OF m(1), of "uint x"] m(2)]
      pos_mod_sign [OF m(1), of "uint x"] by simp_all
  obtain q where q: "int_sqrt ?raw = Some q"
    using int_sqrt_returns [OF raw] by blast
  then show ?thesis
    using x nz raw by (simp add: n2n_rand_sqr_def to_int32_id Let_def)
qed

theorem n2n_rand_sqr_range_witness:
  "\<exists>r st'. n2n_rand_sqr 20 rn_default_state = Some (r, st') \<and> 0 \<le> r \<and> r \<le> uint (20 :: u32)
     \<and> st' = snd (n2n_rand rn_default_state)"
  by (rule n2n_rand_sqr_range) (simp add: word_le_def)

text \<open>
  Beyond that bound the squared range exceeds a signed integer: whenever the drawn remainder is \<open>2 ^ 31\<close> or more,
  the square root is asked for a negative number and its counting loop never ends.
\<close>

theorem n2n_rand_sqr_diverges:
  assumes "2 ^ 31 \<le> uint (fst (n2n_rand st)) mod uint ((max_n + 2) * (max_n + 2))"
  shows "n2n_rand_sqr max_n st = None"
proof -
  let ?raw = "uint (fst (n2n_rand st)) mod uint ((max_n + 2) * (max_n + 2))"
  obtain x st' where x: "n2n_rand st = (x, st')" by fastforce
  show ?thesis
  proof (cases "(max_n + 2) * (max_n + 2) = 0")
    case True
    then show ?thesis by (simp add: n2n_rand_sqr_def Let_def x)
  next
    case False
    then have "0 < uint ((max_n + 2) * (max_n + 2))"
      by (metis uint_0_iff order_le_less unsigned_greater_eq)
    then have "?raw < uint ((max_n + 2) * (max_n + 2))"
      by (rule pos_mod_bound)
    also have "\<dots> < 2 ^ 32"
      using uint_bounded [of "(max_n + 2) * (max_n + 2)"] by simp
    finally have "?raw < 2 ^ 32" .
    then have "to_int32 ?raw < 0"
      using assms by (simp add: to_int32_def mod_pos_geq)
    then have "int_sqrt (to_int32 ?raw) = None"
      by (simp add: int_sqrt_def i_sqrt_def bit_count_negative)
    then show ?thesis using False by (simp add: n2n_rand_sqr_def Let_def x)
  qed
qed

theorem n2n_rand_sqr_diverges_witness: "n2n_rand_sqr 60000 \<lparr>rn_a = 0, rn_b = 2 ^ 30\<rparr> = None"
  by (rule n2n_rand_sqr_diverges) (simp add: n2n_rand_def)

end
