(* ===== verification/Header_Encryption.thy ===== *)
theory Header_Encryption
  imports Types Speck Pearson Random_Numbers
begin

text \<open>
  Header encryption, \<^verbatim>\<open>src/header_encryption.c\<close>: the header of a packet is encrypted with a key derived from the
  community name; the first sixteen bytes become an IV that hides a checksum of the packet and a time stamp.
  A packet is a buffer of at least its length; \<open>None\<close> is an access outside the buffer.
\<close>

definition htobe32 :: "u32 \<Rightarrow> u32" where
  "htobe32 v = ld32 (rev (st32 v))"

abbreviation he_magic :: u32 where "he_magic \<equiv> 0x6E320000"

definition packet_header_decrypt ::
  "bytes \<Rightarrow> u16 \<Rightarrow> bytes \<Rightarrow> speck_context \<Rightarrow> speck_context \<Rightarrow> u64 \<Rightarrow> (int \<times> bytes \<times> u64) option" where
  "packet_header_decrypt packet packet_len community_name ctx ctx_iv stamp = do {
     iv \<leftarrow> rd packet 0 16;
     c \<leftarrow> rd packet 16 4;
     let test_magic = htobe32 (ld32 (speck_ctr ctx iv c));
     let header_len = test_magic - he_magic;
     if header_len \<le> ucast packet_len then do {
       body \<leftarrow> rd packet 16 (unat (header_len - 16));
       packet \<leftarrow> wr packet 16 (speck_ctr ctx iv body);
       let packet = speck_128_decrypt ctx_iv packet;
       s \<leftarrow> rd packet 4 8;
       let stamp = be_word s;
       h \<leftarrow> rd packet 0 4;
       let checksum_high = (be_word h :: u32);
       f \<leftarrow> rd packet 20 4;
       packet \<leftarrow> wr packet 0 f;
       name \<leftarrow> rd community_name 0 N2N_COMMUNITY_SIZE;
       packet \<leftarrow> wr packet 4 name;
       p \<leftarrow> rd packet 0 (unat packet_len);
       let checksum = pearson_hash_64 p;
       if drop_bit 32 checksum \<noteq> ucast checksum_high then Some (0, packet, stamp)
       else Some (1, packet, stamp XOR push_bit 32 checksum) }
     else Some (0, packet, stamp) }"

text \<open>The length passed to the cipher is computed in 32 bits on decryption and widened from a negative number here.\<close>

definition packet_header_encrypt ::
  "bytes \<Rightarrow> u16 \<Rightarrow> u16 \<Rightarrow> speck_context \<Rightarrow> speck_context \<Rightarrow> u64 \<Rightarrow> rn_generator_state
     \<Rightarrow> (int \<times> bytes \<times> rn_generator_state) option" where
  "packet_header_encrypt packet header_len packet_len ctx ctx_iv stamp rn = do {
     let magic = he_magic + ucast header_len;
     if packet_len < 24 then Some (-1, packet, rn)
     else do {
       p \<leftarrow> rd packet 0 (unat packet_len);
       let checksum = pearson_hash_64 p;
       f \<leftarrow> rd packet 0 4;
       packet \<leftarrow> wr packet 20 f;
       packet \<leftarrow> wr packet 0 (be_bytes 8 checksum);
       l \<leftarrow> rd packet 4 4;
       packet \<leftarrow> wr packet 4 (st32 (ld32 l XOR htobe32 (ucast (drop_bit 32 stamp))));
       packet \<leftarrow> wr packet 8 (st32 (htobe32 (ucast stamp)));
       let (r, rn) = n2n_rand rn;
       packet \<leftarrow> wr packet 12 (st32 (ucast r));
       let packet = speck_128_encrypt ctx_iv packet;
       packet \<leftarrow> wr packet 16 (st32 (htobe32 magic));
       iv \<leftarrow> rd packet 0 16;
       body \<leftarrow> rd packet 16 (unat (ucast header_len - 16 :: u64));
       packet \<leftarrow> wr packet 16 (speck_ctr ctx iv body);
       Some (0, packet, rn) } }"

text \<open>The four contexts of a community: static and dynamic, for the header and for the IV.\<close>

record he_contexts =
  he_static :: speck_context
  he_dynamic :: speck_context
  he_iv_static :: speck_context
  he_iv_dynamic :: speck_context

definition packet_header_setup_key :: "bytes \<Rightarrow> he_contexts" where
  "packet_header_setup_key community_name =
     (let key = pearson_hash_128 (take N2N_COMMUNITY_SIZE community_name);
          c = snd (speck_init key 128);
          key = pearson_hash_128 key;
          i = snd (speck_init key 128) in
      \<lparr>he_static = c, he_dynamic = c, he_iv_static = i, he_iv_dynamic = i\<rparr>)"

definition packet_header_change_dynamic_key :: "bytes \<Rightarrow> he_contexts \<Rightarrow> he_contexts" where
  "packet_header_change_dynamic_key key_dynamic he =
     (let key = pearson_hash_128 (take 16 key_dynamic);
          he = he\<lparr>he_dynamic := snd (speck_init key 128)\<rparr>;
          key = pearson_hash_128 key in
      he\<lparr>he_iv_dynamic := snd (speck_init key 128)\<rparr>)"

subsection \<open>The encrypted packet\<close>

lemma st32_htobe32 [simp]: "st32 (htobe32 v) = be_bytes 4 v"
  by (simp add: htobe32_def be_bytes_def)

lemma htobe32_ld32: "length b = 4 \<Longrightarrow> htobe32 (ld32 b) = be_word b"
  by (simp add: htobe32_def be_word_def)

definition pre_iv :: "u64 \<Rightarrow> u64 \<Rightarrow> u64 \<Rightarrow> bytes" where
  "pre_iv checksum stamp r = take 4 (be_bytes 8 checksum)
     @ map2 (XOR) (drop 4 (be_bytes 8 checksum)) (be_bytes 4 (ucast (drop_bit 32 stamp) :: u32))
     @ be_bytes 4 (ucast stamp :: u32) @ st32 (ucast r)"

lemma length_pre_iv [simp]: "length (pre_iv c s r) = 16"
  by (simp add: pre_iv_def)

lemma st32_xor_htobe32:
  "length l = 4 \<Longrightarrow> st32 (ld32 l XOR htobe32 v) = map2 (XOR) l (be_bytes 4 v)"
  by (simp add: le_bytes_xor)

lemma speck_128_encrypt_append: "length b = 16 \<Longrightarrow> speck_128_encrypt ctx (b @ w) = speck_128_encrypt ctx b @ w"
  by (simp add: speck_128_encrypt_def split: prod.split)

lemma speck_128_decrypt_append: "length b = 16 \<Longrightarrow> speck_128_decrypt ctx (b @ w) = speck_128_decrypt ctx b @ w"
  by (simp add: speck_128_decrypt_def split: prod.split)

lemma unat_ucast16: "unat (ucast (h :: u16) :: u64) = unat h" "unat (ucast h :: u32) = unat h"
proof -
  have "unat h < 2 ^ 16" using unsigned_less [of h, where 'a = nat] by simp
  then show "unat (ucast h :: u64) = unat h" "unat (ucast h :: u32) = unat h"
    by (simp_all add: unsigned_ucast_eq take_bit_nat_eq_self)
qed

lemma header_len_bytes:
  assumes "24 \<le> unat (h :: u16)"
  shows "unat (ucast h - 16 :: u64) = unat h - 16" "unat (ucast h - 16 :: u32) = unat h - 16"
  using assms by (simp_all add: unat_sub word_le_nat_alt unat_ucast16)

lemma encrypt_result:
  assumes len: "length A = 4" "length c1 = 4" "length c2 = 4" "length c3 = 4" "length c4 = 4" "length c5 = 4"
    "length H = unat header_len - 24" "24 \<le> unat header_len"
    "24 \<le> unat packet_len" "unat packet_len \<le> 24 + length H + length T"
    and iv: "iv = speck_128_encrypt ctx_iv (pre_iv (pearson_hash_64 (take (unat packet_len)
      (A @ c1 @ c2 @ c3 @ c4 @ c5 @ H @ T))) stamp (fst (n2n_rand rn)))"
  shows "packet_header_encrypt (A @ c1 @ c2 @ c3 @ c4 @ c5 @ H @ T) header_len packet_len ctx ctx_iv stamp rn
    = Some (0, iv @ speck_ctr ctx iv (be_bytes 4 (he_magic + ucast header_len) @ A @ H) @ T, snd (n2n_rand rn))"
proof -
  obtain r rn' where r: "n2n_rand rn = (r, rn')" by fastforce
  let ?p = "A @ c1 @ c2 @ c3 @ c4 @ c5 @ H @ T"
  define ck where "ck = pearson_hash_64 (take (unat packet_len) ?p)"
  define b1 b2 where "b1 = take 4 (be_bytes 8 ck)" and "b2 = drop 4 (be_bytes 8 ck)"
  have b: "be_bytes 8 ck = b1 @ b2" "length b1 = 4" "length b2 = 4"
    by (simp_all add: b1_def b2_def)
  have pl: "\<not> packet_len < 24"
    using len(9) by (simp add: word_less_nat_alt)
  let ?m = "he_magic + ucast header_len :: u32"
  let ?hi = "ucast (drop_bit 32 stamp) :: u32" and ?lo = "ucast stamp :: u32"
  let ?x = "map2 (XOR) b2 (be_bytes 4 ?hi)"
  have iv': "iv = speck_128_encrypt ctx_iv (b1 @ ?x @ be_bytes 4 ?lo @ st32 (ucast r))"
    unfolding iv ck_def [symmetric] by (simp add: pre_iv_def b1_def b2_def r)
  have liv: "length iv = 16" unfolding iv' using b by simp
  have s1: "rd ?p 0 (unat packet_len) = Some (take (unat packet_len) ?p)"
    using len by (simp only: rd_def drop_0) simp
  have s2: "rd ?p 0 4 = Some A" "wr ?p 20 A = Some (A @ c1 @ c2 @ c3 @ c4 @ A @ H @ T)"
    using rd_at [of "[]" 0 A 4] wr_at [of "A @ c1 @ c2 @ c3 @ c4" 20 c5 A] len by simp_all
  have s3: "wr (A @ c1 @ c2 @ c3 @ c4 @ A @ H @ T) 0 (be_bytes 8 ck) = Some (b1 @ b2 @ c2 @ c3 @ c4 @ A @ H @ T)"
    using wr_at [of "[]" 0 "A @ c1" "b1 @ b2"] len b by simp
  have s4: "rd (b1 @ b2 @ c2 @ c3 @ c4 @ A @ H @ T) 4 4 = Some b2"
    "wr (b1 @ b2 @ c2 @ c3 @ c4 @ A @ H @ T) 4 ?x = Some (b1 @ ?x @ c2 @ c3 @ c4 @ A @ H @ T)"
    using rd_at [of b1 4 b2 4] wr_at [of b1 4 b2 ?x] len b by simp_all
  have s5: "wr (b1 @ ?x @ c2 @ c3 @ c4 @ A @ H @ T) 8 (be_bytes 4 ?lo) =
      Some (b1 @ ?x @ be_bytes 4 ?lo @ c3 @ c4 @ A @ H @ T)"
    using wr_at [of "b1 @ ?x" 8 c2 "be_bytes 4 ?lo"] len b by simp
  have s6: "wr (b1 @ ?x @ be_bytes 4 ?lo @ c3 @ c4 @ A @ H @ T) 12 (st32 (ucast r)) =
      Some (b1 @ ?x @ be_bytes 4 ?lo @ st32 (ucast r) @ c4 @ A @ H @ T)"
    using wr_at [of "b1 @ ?x @ be_bytes 4 ?lo" 12 c3 "st32 (ucast r)"] len b by simp
  have s7: "speck_128_encrypt ctx_iv (b1 @ ?x @ be_bytes 4 ?lo @ st32 (ucast r) @ c4 @ A @ H @ T) = iv @ c4 @ A @ H @ T"
    using speck_128_encrypt_append [of "b1 @ ?x @ be_bytes 4 ?lo @ st32 (ucast r)"] b by (simp add: iv')
  have s8: "wr (iv @ c4 @ A @ H @ T) 16 (be_bytes 4 ?m) = Some (iv @ be_bytes 4 ?m @ A @ H @ T)"
    using wr_at [of iv 16 c4 "be_bytes 4 ?m"] len liv by simp
  have s9: "rd (iv @ be_bytes 4 ?m @ A @ H @ T) 0 16 = Some iv"
    "rd (iv @ be_bytes 4 ?m @ A @ H @ T) 16 (unat (ucast header_len - 16 :: u64)) = Some (be_bytes 4 ?m @ A @ H)"
    using rd_at [of "[]" 0 iv 16] rd_at [of iv 16 "be_bytes 4 ?m @ A @ H" "unat header_len - 16"] len liv
    by (simp_all add: header_len_bytes)
  have s10: "wr (iv @ be_bytes 4 ?m @ A @ H @ T) 16 (speck_ctr ctx iv (be_bytes 4 ?m @ A @ H)) =
      Some (iv @ speck_ctr ctx iv (be_bytes 4 ?m @ A @ H) @ T)"
    using wr_at [of iv 16 "be_bytes 4 ?m @ A @ H" "speck_ctr ctx iv (be_bytes 4 ?m @ A @ H)" T] liv by simp
  show ?thesis
    unfolding packet_header_encrypt_def Let_def
    by (simp only: pl if_False s1 bind.simps s2 s3 ck_def [symmetric] s4 st32_xor_htobe32 [OF b(3)] st32_htobe32 s5 s6 s7
        s8 s9 s10 r prod.case snd_conv)
qed

subsection \<open>Decryption recovers packet and stamp\<close>

lemma be_bytes_8_split: "be_bytes 8 (s :: u64) = be_bytes 4 (ucast (drop_bit 32 s) :: u32) @ be_bytes 4 (ucast s :: u32)"
proof -
  have "le_bytes 8 s = le_bytes 4 (ucast s :: u32) @ le_bytes 4 (ucast (drop_bit 32 s) :: u32)"
  proof (rule nth_equalityI)
    fix i assume "i < length (le_bytes 8 s)"
    then have "i < 8" by simp
    then show "le_bytes 8 s ! i = (le_bytes 4 (ucast s :: u32) @ le_bytes 4 (ucast (drop_bit 32 s) :: u32)) ! i"
      by (cases "i < 4") (auto intro!: bit_word_eqI simp: nth_append bit_le_bytes bit_unsigned_iff bit_drop_bit_eq algebra_simps)
  qed simp
  then show ?thesis by (simp add: be_bytes_def)
qed

lemma be_bytes_xor: "map2 (XOR) (be_bytes n v) (be_bytes n w) = be_bytes n (v XOR w)"
  by (simp add: be_bytes_def le_bytes_xor zip_rev rev_map)

lemma pre_iv_alt:
  "pre_iv ck stamp r = be_bytes 4 (ucast (drop_bit 32 ck) :: u32) @ be_bytes 8 (stamp XOR push_bit 32 ck) @ st32 (ucast r)"
proof -
  have u: "(ucast (drop_bit 32 (stamp XOR push_bit 32 ck)) :: u32) = ucast ck XOR ucast (drop_bit 32 stamp)"
      "(ucast (stamp XOR push_bit 32 ck) :: u32) = ucast stamp"
    by (auto intro!: bit_word_eqI simp: bit_unsigned_iff bit_xor_iff bit_push_bit_iff bit_drop_bit_eq)
  show ?thesis
    unfolding pre_iv_def be_bytes_8_split [of ck] be_bytes_8_split [of "stamp XOR _"] u
    by (simp add: be_bytes_xor)
qed

lemma magic_cancel: "he_magic + h - he_magic = (h :: u32)"
  by simp

lemma decrypt_result:
  assumes len: "length A = 4" "length H = unat header_len - 24" "24 \<le> unat header_len" "length name = 20"
    "header_len \<le> packet_len" "unat packet_len \<le> 24 + length H + length T"
    and ck: "ck = pearson_hash_64 (take (unat packet_len) (A @ name @ H @ T))"
    and iv: "iv = speck_128_encrypt ctx_iv (pre_iv ck stamp r)"
  shows "packet_header_decrypt (iv @ speck_ctr ctx iv (be_bytes 4 (he_magic + ucast header_len) @ A @ H) @ T)
      packet_len name ctx ctx_iv stamp0 = Some (1, A @ name @ H @ T, stamp)"
proof -
  let ?m = "he_magic + ucast header_len :: u32"
  let ?E = "speck_ctr ctx iv (be_bytes 4 ?m @ A @ H)"
  let ?b1 = "be_bytes 4 (ucast (drop_bit 32 ck) :: u32)" and ?b2 = "be_bytes 8 (stamp XOR push_bit 32 ck)" and ?b3 = "st32 (ucast r)"
  have liv: "length iv = 16" by (simp add: iv)
  have lE: "length ?E = unat header_len - 16" using len by simp
  have s1: "rd (iv @ ?E @ T) 0 16 = Some iv" "rd (iv @ ?E @ T) 16 4 = Some (take 4 ?E)"
    "rd (iv @ ?E @ T) 16 (unat (ucast header_len - 16 :: u32)) = Some ?E"
    using rd_at [of "[]" 0 iv 16 "?E @ T"] rd_at [of iv 16 "take 4 ?E" 4 "drop 4 ?E @ T"]
      rd_at [of iv 16 ?E "unat header_len - 16" T] liv lE len
    by (simp_all add: header_len_bytes del: length_speck_ctr) (metis append.assoc append_take_drop_id)
  have s2: "speck_ctr ctx iv (take 4 ?E) = be_bytes 4 ?m"
    by (simp add: speck_ctr_take speck_ctr_involution)
  have s3: "htobe32 (ld32 (be_bytes 4 ?m)) = ?m"
    by (simp add: htobe32_ld32 be_word_be_bytes)
  have le: "(ucast header_len :: u32) \<le> ucast packet_len"
    using len(5) by (simp add: word_le_nat_alt unat_ucast16)
  have s4: "wr (iv @ ?E @ T) 16 (speck_ctr ctx iv ?E) = Some (iv @ be_bytes 4 ?m @ A @ H @ T)"
    using wr_at [of iv 16 ?E "be_bytes 4 ?m @ A @ H" T] liv by (simp add: speck_ctr_involution)
  have s5: "speck_128_decrypt ctx_iv (iv @ be_bytes 4 ?m @ A @ H @ T) = ?b1 @ ?b2 @ ?b3 @ be_bytes 4 ?m @ A @ H @ T"
    by (simp add: speck_128_decrypt_append [OF liv]) (simp add: iv speck_128_decrypt_encrypt pre_iv_alt)
  have s6: "rd (?b1 @ ?b2 @ ?b3 @ be_bytes 4 ?m @ A @ H @ T) 4 8 = Some ?b2"
    "rd (?b1 @ ?b2 @ ?b3 @ be_bytes 4 ?m @ A @ H @ T) 0 4 = Some ?b1"
    "rd (?b1 @ ?b2 @ ?b3 @ be_bytes 4 ?m @ A @ H @ T) 20 4 = Some A"
    "wr (?b1 @ ?b2 @ ?b3 @ be_bytes 4 ?m @ A @ H @ T) 0 A = Some (A @ ?b2 @ ?b3 @ be_bytes 4 ?m @ A @ H @ T)"
    using rd_at [of ?b1 4 ?b2 8] rd_at [of "[]" 0 ?b1 4] rd_at [of "?b1 @ ?b2 @ ?b3 @ be_bytes 4 ?m" 20 A 4]
      wr_at [of "[]" 0 ?b1 A] len by simp_all
  have s7: "rd name 0 20 = Some name"
    "wr (A @ ?b2 @ ?b3 @ be_bytes 4 ?m @ A @ H @ T) 4 name = Some (A @ name @ H @ T)"
    "rd (A @ name @ H @ T) 0 (unat packet_len) = Some (take (unat packet_len) (A @ name @ H @ T))"
    using wr_at [of A 4 "?b2 @ ?b3 @ be_bytes 4 ?m @ A" name] len
    by (simp add: rd_def, simp, simp only: rd_def drop_0, simp)
  have s8: "(be_word ?b1 :: u32) = ucast (drop_bit 32 ck)" "be_word ?b2 = stamp XOR push_bit 32 ck"
    by (simp_all add: be_word_be_bytes)
  have s9: "(ucast (ucast (drop_bit 32 ck) :: u32) :: u64) = drop_bit 32 ck"
    by (rule bit_word_eqI) (auto simp: bit_unsigned_iff bit_drop_bit_eq dest: bit_imp_le_length)
  show ?thesis
    unfolding packet_header_decrypt_def Let_def
    by (simp only: s1 bind.simps s2 s3 magic_cancel le if_True s4 s5 s6 s7 s8 s9 ck [symmetric] simp_thms if_False xor_cancel)
qed

text \<open>
  C6. Header encryption round trip: for every packet whose bytes 4 to 24 are the community name, every header length
  between 24 and the packet length, every time stamp and random number, encryption stays inside the buffer, and
  decryption with the same keys accepts the packet and restores all of its bytes and the sender's time stamp.
\<close>

theorem packet_header_roundtrip:
  assumes "24 \<le> unat header_len" and "header_len \<le> packet_len" and "unat packet_len \<le> length packet"
    and "take N2N_COMMUNITY_SIZE (drop 4 packet) = name"
  shows "\<exists>packet' rn'. packet_header_encrypt packet header_len packet_len ctx ctx_iv stamp rn = Some (0, packet', rn')
    \<and> packet_header_decrypt packet' packet_len name ctx ctx_iv stamp0 = Some (1, packet, stamp)"
proof -
  define A c1 c2 c3 c4 c5 where "A = take 4 packet" and "c1 = take 4 (drop 4 packet)" and "c2 = take 4 (drop 8 packet)"
    and "c3 = take 4 (drop 12 packet)" and "c4 = take 4 (drop 16 packet)" and "c5 = take 4 (drop 20 packet)"
  define H T where "H = take (unat header_len - 24) (drop 24 packet)" and "T = drop (unat header_len) packet"
  note defs = A_def c1_def c2_def c3_def c4_def c5_def H_def T_def
  have hp: "unat header_len \<le> unat packet_len"
    using assms(2) by (simp add: word_le_nat_alt)
  have step: "take 4 (drop k packet) @ drop (k + 4) packet = drop k packet" for k
    by (metis add.commute append_take_drop_id drop_drop)
  have ht: "H @ T = drop 24 packet"
    unfolding H_def T_def using assms(1) by (metis add.commute append_take_drop_id drop_drop le_add_diff_inverse)
  then have p: "packet = A @ c1 @ c2 @ c3 @ c4 @ c5 @ H @ T"
    using step [of 0] step [of 4] step [of 8] step [of 12] step [of 16] step [of 20] by (simp add: defs)
  have n: "name = c1 @ c2 @ c3 @ c4 @ c5"
  proof -
    have "drop 4 packet = (c1 @ c2 @ c3 @ c4 @ c5) @ H @ T"
      using p by (metis A_def append_eq_conv_conj append_assoc step [of 0] drop0 add_0 same_append_eq)
    moreover have "length (c1 @ c2 @ c3 @ c4 @ c5) = 20" using assms hp by (simp add: defs)
    ultimately show ?thesis using assms(4) by simp
  qed
  have len: "length A = 4" "length c1 = 4" "length c2 = 4" "length c3 = 4" "length c4 = 4" "length c5 = 4"
    "length H = unat header_len - 24" "24 \<le> unat header_len" "24 \<le> unat packet_len"
    "unat packet_len \<le> 24 + length H + length T" "length name = 20"
    using assms hp n by (simp_all add: defs)
  from encrypt_result [where ctx = ctx and ctx_iv = ctx_iv and stamp = stamp and rn = rn, OF len(1-10) refl]
    decrypt_result [where ctx = ctx and ctx_iv = ctx_iv and stamp = stamp and r = "fst (n2n_rand rn)" and ?stamp0.0 = stamp0,
      OF len(1,7,8,11) assms(2) len(10) refl refl]
  show ?thesis
    unfolding n append_assoc p [symmetric] by blast
qed

theorem packet_header_roundtrip_witness:
  "\<exists>packet' rn'. packet_header_encrypt ([3, 2, 0, 3] @ replicate 20 0x61 @ replicate 6 9) 24 30
      (he_static (packet_header_setup_key (replicate 20 0x61))) (he_iv_static (packet_header_setup_key (replicate 20 0x61)))
      77 rn_default_state = Some (0, packet', rn')
    \<and> packet_header_decrypt packet' 30 (replicate 20 0x61) (he_static (packet_header_setup_key (replicate 20 0x61)))
      (he_iv_static (packet_header_setup_key (replicate 20 0x61))) 0 = Some (1, [3, 2, 0, 3] @ replicate 20 0x61 @ replicate 6 9, 77)"
  by (rule packet_header_roundtrip) (simp_all add: word_le_nat_alt)

text \<open>
  A header length below 16 in the decrypted magic bytes is not rejected: the length left to decrypt wraps around to
  almost \<open>2 ^ 32\<close> bytes, and the decryption runs out of every smaller buffer.
\<close>

theorem packet_header_decrypt_short_header:
  assumes "20 \<le> length packet" and "length packet < 2 ^ 32"
    and "take 4 (drop 16 packet) = speck_ctr ctx (take 16 packet) (be_bytes 4 (he_magic + h))"
    and "h < 16" and "h \<le> ucast packet_len"
  shows "packet_header_decrypt packet packet_len name ctx ctx_iv stamp = None"
proof -
  have m: "htobe32 (ld32 (be_bytes 4 (he_magic + h))) - he_magic = h"
    by (simp add: htobe32_ld32 be_word_be_bytes)
  have "unat h < 16" using assms(4) by (simp add: word_less_nat_alt)
  moreover have "unat (h - 16) = 2 ^ 32 - 16 + unat h"
  proof -
    have "h - 16 = of_nat (2 ^ 32 - 16 + unat h)"
      by simp
    then show ?thesis
      using \<open>unat h < 16\<close> by (simp only: unat_of_nat) simp
  qed
  ultimately have "rd packet 16 (unat (h - 16)) = None"
    using assms(2) by (simp add: rd_def)
  then show ?thesis
    using assms(1,3,5)
    by (simp add: packet_header_decrypt_def rd_def [of _ 0 16] rd_def [of _ 16 4] speck_ctr_involution m Let_def)
qed

theorem packet_header_decrypt_short_header_witness:
  "packet_header_decrypt (replicate 16 0 @ speck_ctr (speck_expand_key (replicate 16 1) 128) (replicate 16 0) (be_bytes 4 (he_magic + 3)))
     20 (replicate 20 0x61) (speck_expand_key (replicate 16 1) 128)
     (speck_expand_key (replicate 16 2) 128) 0 = None"
  by (rule packet_header_decrypt_short_header [where h = 3]) (simp_all add: word_le_nat_alt word_less_nat_alt)

end
