(* ===== verification/Time_Stamp.thy ===== *)
theory Time_Stamp
  imports Prelude
begin

text \<open>
  The time stamps of the replay protection, from \<^verbatim>\<open>src/n2n.c\<close>. A stamp holds 32 bits of seconds, then either 20 bits of
  microseconds and an 8-bit counter or, with the lowest bit set, a 28-bit counter. The static variable that
  holds the stamp issued last and the time of day are arguments.
\<close>

abbreviation TIME_STAMP_FRAME :: u64 where "TIME_STAMP_FRAME \<equiv> 0x0000001000000000"
abbreviation TIME_STAMP_JITTER :: u64 where "TIME_STAMP_JITTER \<equiv> 0x0000000027100000"

definition co_masks :: "u64 \<Rightarrow> u64 \<times> u64" where
  "co_masks co =
     (let mask_lo = - co; mask_lo = drop_bit 32 mask_lo; mask_lo = mask_lo OR drop_bit 52 (NOT mask_lo)
      in (mask_lo, NOT mask_lo))"

definition time_stamp :: "u64 \<Rightarrow> u64 \<times> u64 \<Rightarrow> u64" where
  "time_stamp previously_issued tod =
     (let micro_seconds = push_bit 32 (fst tod) + push_bit 12 (snd tod);
          co = drop_bit 63 (push_bit 63 previously_issued);
          (mask_lo, mask_hi) = co_masks co;
          hi_unchanged = (if previously_issued AND mask_hi = micro_seconds AND mask_hi then 1 else 0);
          counter = drop_bit 4 (previously_issued AND mask_lo);
          counter = counter + hi_unchanged;
          counter = counter AND (- hi_unchanged);
          counter = push_bit 4 counter;
          new_co = ((if counter AND mask_lo = 0 then 1 else 0) AND hi_unchanged) OR co;
          (mask_lo, mask_hi) = co_masks new_co;
          micro_seconds = micro_seconds AND mask_hi;
          micro_seconds = micro_seconds OR counter;
          micro_seconds = micro_seconds OR new_co
      in micro_seconds)"

definition initial_time_stamp :: "u64 \<Rightarrow> u64 \<times> u64 \<Rightarrow> u64" where
  "initial_time_stamp previously_issued tod = time_stamp previously_issued tod - TIME_STAMP_FRAME"

text \<open>
  The signed difference is kept as a 64-bit word and read with \<open>sint\<close>. The third argument is the stamp
  that \<open>time_stamp\<close> returns at the time of the call; the pointer to the previous stamp may be null.
\<close>

definition time_stamp_verify_and_update :: "u64 \<Rightarrow> u64 option \<Rightarrow> bool \<Rightarrow> u64 \<Rightarrow> int \<times> u64 option" where
  "time_stamp_verify_and_update stamp previous_stamp allow_jitter now =
     (let co = drop_bit 63 (push_bit 63 stamp);
          diff = stamp - now;
          diff = (if sint diff < 0 then - diff else diff) in
      if sint diff \<ge> sint TIME_STAMP_FRAME then (0, previous_stamp)
      else (case previous_stamp of
          None \<Rightarrow> (1, None)
        | Some prev \<Rightarrow>
            let diff = stamp - prev;
                diff = (if allow_jitter then diff + push_bit (unat (push_bit 3 co)) TIME_STAMP_JITTER else diff) in
            if sint diff \<le> 0 then (0, Some prev)
            else (1, Some (if stamp > prev then stamp else prev))))"

subsection \<open>The two formats of a stamp\<close>

lemma co_cases: "drop_bit 63 (push_bit 63 (p :: u64)) = (if bit p 0 then 1 else 0)"
  by (rule bit_word_eqI) (auto simp: bit_drop_bit_eq bit_push_bit_iff bit_1_iff)

lemma co_masks_simps:
  "co_masks 0 = (mask 12, NOT (mask 12))" "co_masks 1 = (mask 32, NOT (mask 32))"
  by (simp_all add: co_masks_def mask_eq_exp_minus_1)

definition low_width :: "u64 \<Rightarrow> nat" where
  "low_width p = (if bit p 0 then 32 else 12)"

definition co_flag :: "u64 \<Rightarrow> u64" where
  "co_flag p = (if bit p 0 then 1 else 0)"

lemma co_masks_flag: "co_masks (co_flag p) = (mask (low_width p), NOT (mask (low_width p)))"
  by (simp add: co_flag_def low_width_def co_masks_simps)

lemma low_width_bounds: "4 < low_width p" "low_width p < 64" "low_width p \<le> 32"
  by (simp_all add: low_width_def)

text \<open>The microseconds since 1970, left-bound, that the clock shows.\<close>

definition clock_value :: "u64 \<times> u64 \<Rightarrow> u64" where
  "clock_value tod = push_bit 32 (fst tod) + push_bit 12 (snd tod)"

lemma and_not_mask: "(p :: u64) AND NOT (mask w) = push_bit w (drop_bit w p)"
  by (rule bit_word_eqI) (auto simp: bit_and_iff bit_not_iff bit_mask_iff bit_push_bit_iff bit_drop_bit_eq)

lemma drop_push: "drop_bit w (push_bit w (drop_bit w p)) = drop_bit w (p :: u64)"
  by (rule bit_word_eqI) (auto simp: bit_push_bit_iff bit_drop_bit_eq dest: bit_imp_le_length)

lemma and_not_mask_eq_iff:
  "(p :: u64) AND NOT (mask w) = q AND NOT (mask w) \<longleftrightarrow> drop_bit w p = drop_bit w q"
  unfolding and_not_mask by (metis drop_push)

lemma time_stamp_cases:
  fixes p :: u64
  defines "w \<equiv> low_width p" and "co \<equiv> co_flag p"
  shows "drop_bit w p \<noteq> drop_bit w (clock_value tod) \<Longrightarrow>
      time_stamp p tod = push_bit w (drop_bit w (clock_value tod)) OR co"
    and "drop_bit w p = drop_bit w (clock_value tod) \<Longrightarrow> push_bit 4 (drop_bit 4 (take_bit w p) + 1) AND mask w \<noteq> 0 \<Longrightarrow>
      time_stamp p tod = push_bit w (drop_bit w p) OR push_bit 4 (drop_bit 4 (take_bit w p) + 1) OR co"
proof -
  have co: "drop_bit 63 (push_bit 63 p) = co" by (simp add: co_cases co_def co_flag_def)
  have m: "co_masks co = (mask w, NOT (mask w))" by (simp add: co_def w_def co_masks_flag)
  have t: "p AND mask w = take_bit w p" by (simp add: take_bit_eq_mask)
  let ?c = "push_bit 32 (fst tod) + push_bit 12 (snd tod)"
  show "time_stamp p tod = push_bit w (drop_bit w (clock_value tod)) OR co"
    if "drop_bit w p \<noteq> drop_bit w (clock_value tod)"
    using that unfolding time_stamp_def co Let_def m prod.case and_not_mask_eq_iff clock_value_def
    by (simp add: m and_not_mask)
  show "time_stamp p tod = push_bit w (drop_bit w p) OR push_bit 4 (drop_bit 4 (take_bit w p) + 1) OR co"
    if "drop_bit w p = drop_bit w (clock_value tod)" and "push_bit 4 (drop_bit 4 (take_bit w p) + 1) AND mask w \<noteq> 0"
    using that unfolding time_stamp_def co Let_def m prod.case and_not_mask_eq_iff clock_value_def t
    by (simp add: m and_not_mask or.assoc)
qed

lemma unat_drop_bit64: "unat (drop_bit w (p :: u64)) = unat p div 2 ^ w"
proof -
  have "unat (drop_bit w p) = drop_bit w (unat p)"
    using unsigned_less [of p, where 'a = nat]
    by (simp only: unsigned_drop_bit_eq take_bit_nat_eq_self)
  then show ?thesis by (simp only: drop_bit_eq_div)
qed

lemma unat_take_bit64: "unat (take_bit w (p :: u64)) = unat p mod 2 ^ w"
proof -
  have "unat (take_bit w p) = take_bit w (unat p)" by (simp only: unsigned_take_bit_eq)
  then show ?thesis by (simp only: take_bit_eq_mod)
qed

lemma bit_flags: "bit (0xE :: u64) n \<longleftrightarrow> n \<in> {1, 2, 3}"
proof -
  have e: "(0xE :: u64) = push_bit 1 (mask 3)" by (simp add: mask_eq_exp_minus_1)
  show ?thesis unfolding e bit_push_bit_iff bit_mask_iff by auto
qed

lemma flags_clear: "(p :: u64) AND 0xE = 0 \<longleftrightarrow> (\<forall>n \<in> {1, 2, 3}. \<not> bit p n)"
proof
  assume "p AND 0xE = 0"
  then have "\<not> bit (p AND 0xE) n" for n by simp
  then have "\<not> (bit p n \<and> n \<in> {1, 2, 3})" for n by (simp only: bit_and_iff bit_flags not_False_eq_True)
  then show "\<forall>n \<in> {1, 2, 3}. \<not> bit p n" by blast
next
  assume low: "\<forall>n \<in> {1, 2, 3}. \<not> bit p n"
  show "p AND 0xE = 0"
  proof (rule bit_word_eqI)
    fix n show "bit (p AND 0xE) n \<longleftrightarrow> bit (0 :: u64) n"
      unfolding bit_and_iff bit_flags using low by (simp only: bit_0_eq bot_apply bot_bool_def) blast
  qed
qed

lemma drop_bit_mono: "p \<le> q \<Longrightarrow> drop_bit w p \<le> drop_bit w (q :: u64)"
  by (simp add: word_le_nat_alt unat_drop_bit64 div_le_mono)

lemma bit_small: "unat (x :: u64) < 2 ^ k \<Longrightarrow> bit x n \<Longrightarrow> n < k"
proof (rule ccontr)
  assume x: "unat x < 2 ^ k" "bit x n" "\<not> n < k"
  have "take_bit k x = x"
    using x(1) by (simp add: word_eq_iff_unsigned [where 'a = nat] unsigned_take_bit_eq take_bit_nat_eq_self)
  then show False using x(2,3) by (metis bit_take_bit_iff)
qed

lemma stamp_parts:
  fixes p :: u64
  assumes "p AND 0xE = 0"
  shows "p = push_bit (low_width p) (drop_bit (low_width p) p) + push_bit 4 (drop_bit 4 (take_bit (low_width p) p)) + co_flag p"
proof -
  let ?w = "low_width p" and ?y = "push_bit 4 (drop_bit 4 (take_bit (low_width p) p))"
  have low: "\<not> bit p n" if "n \<in> {1, 2, 3}" for n
    using assms that unfolding flags_clear by blast
  have p: "p = push_bit ?w (drop_bit ?w p) OR (?y OR co_flag p)"
  proof (rule bit_word_eqI)
    fix n assume n: "n < LENGTH(64)"
    show "bit p n \<longleftrightarrow> bit (push_bit ?w (drop_bit ?w p) OR (?y OR co_flag p)) n"
    proof (cases "n < 4")
      case True
      then have "n = 0 \<or> n \<in> {1, 2, 3}" by auto
      then have "bit p n \<longleftrightarrow> n = 0 \<and> bit p 0" using low [of n] by auto
      moreover have "bit (push_bit ?w (drop_bit ?w p) OR (?y OR co_flag p)) n \<longleftrightarrow> n = 0 \<and> bit p 0"
        using True low_width_bounds(1) [of p] by (auto simp: bit_or_iff bit_push_bit_iff co_flag_def bit_1_iff)
      ultimately show ?thesis by simp
    next
      case False
      then show ?thesis
        using n by (auto simp: bit_or_iff bit_push_bit_iff bit_drop_bit_eq bit_take_bit_iff co_flag_def bit_1_iff)
    qed
  qed
  have "?y OR co_flag p = ?y + co_flag p"
    by (rule disjunctive_add [symmetric]) (auto simp: bit_push_bit_iff co_flag_def bit_1_iff)
  moreover have "push_bit ?w (drop_bit ?w p) OR (?y OR co_flag p) = push_bit ?w (drop_bit ?w p) + (?y OR co_flag p)"
    using low_width_bounds(1) [of p]
    by (intro disjunctive_add [symmetric])
      (auto simp: bit_or_iff bit_push_bit_iff bit_drop_bit_eq bit_take_bit_iff co_flag_def bit_1_iff)
  ultimately have "push_bit ?w (drop_bit ?w p) OR (?y OR co_flag p) = push_bit ?w (drop_bit ?w p) + ?y + co_flag p"
    by (simp only: add.assoc)
  with p show ?thesis by (rule trans)
qed

lemma time_stamp_same_slot:
  fixes p :: u64
  defines "w \<equiv> low_width p"
  assumes wf: "p AND 0xE = 0" and same: "drop_bit w p = drop_bit w (clock_value tod)"
    and room: "unat (take_bit w p) div 16 + 1 < 2 ^ (w - 4)"
  shows "time_stamp p tod = p + 16" "p < p + 16"
proof -
  let ?y = "drop_bit 4 (take_bit w p)"
  have w: "4 < w" "w < 64" using low_width_bounds by (simp_all add: w_def)
  have uy: "unat ?y = unat (take_bit w p) div 16" by (simp add: unat_drop_bit64)
  have uy1: "unat (?y + 1) = unat ?y + 1"
  proof -
    have "(2 :: nat) ^ (w - 4) \<le> 2 ^ 64"
      using w by (intro power_increasing) simp_all
    then have "unat ?y + 1 < 2 ^ 64"
      using room uy by linarith
    then show ?thesis by (simp add: unat_word_ariths)
  qed
  then have small: "unat (?y + 1) < 2 ^ (w - 4)" using room uy by simp
  have bits: "4 \<le> n \<and> n < w" if "bit (push_bit 4 (?y + 1)) n" for n
    using that bit_small [OF small, of "n - 4"] by (auto simp: bit_push_bit_iff)
  have ne: "push_bit 4 (?y + 1) AND mask w \<noteq> 0"
  proof -
    have "?y + 1 \<noteq> 0" using uy1 by auto
    then obtain n where n: "bit (?y + 1) n" by (metis bit_eqI bit_0_eq bot_apply bot_bool_def)
    then have "n < w - 4" by (rule bit_small [OF small])
    then have "n + 4 < w" "n < 60" using w by linarith+
    then have "bit (push_bit 4 (?y + 1) AND mask w) (n + 4)"
      using n w by (simp add: bit_and_iff bit_push_bit_iff bit_mask_iff)
    then show ?thesis by auto
  qed
  have "time_stamp p tod = push_bit w (drop_bit w p) OR push_bit 4 (?y + 1) OR co_flag p"
    using time_stamp_cases(2) [of p tod] same ne by (simp add: w_def)
  also have "\<dots> = push_bit w (drop_bit w p) + push_bit 4 (?y + 1) + co_flag p"
  proof -
    have "push_bit w (drop_bit w p) + push_bit 4 (?y + 1) = push_bit w (drop_bit w p) OR push_bit 4 (?y + 1)"
      by (rule disjunctive_add) (use bits in \<open>force simp: bit_push_bit_iff [of w]\<close>)
    moreover have "push_bit w (drop_bit w p) OR push_bit 4 (?y + 1) OR co_flag p =
        (push_bit w (drop_bit w p) OR push_bit 4 (?y + 1)) + co_flag p"
      unfolding or.assoc [symmetric] using w
      by (intro disjunctive_add [symmetric]) (auto simp: bit_or_iff bit_push_bit_iff co_flag_def bit_1_iff)
    ultimately show ?thesis by simp
  qed
  also have "\<dots> = p + 16"
    using stamp_parts [OF wf] by (simp add: w_def push_bit_eq_mult algebra_simps)
  finally show "time_stamp p tod = p + 16" .
  have "unat p mod 2 ^ w div 16 + 1 < 2 ^ (w - 4)"
    using room by (simp only: unat_take_bit64)
  then have "(unat p mod 2 ^ w div 16 + 2) * 16 \<le> 2 ^ (w - 4) * 16" by simp
  also have "(2 :: nat) ^ (w - 4) * 16 = 2 ^ w"
    using w power_add [of "2 :: nat" "w - 4" 4] by simp
  finally have "unat p mod 2 ^ w + 17 \<le> 2 ^ w"
    using div_mult_mod_eq [of "unat p mod 2 ^ w" 16] by (simp add: algebra_simps)
  moreover have "unat p div 2 ^ w + 1 \<le> 2 ^ (64 - w)"
  proof -
    have "unat p div 2 ^ w < 2 ^ (64 - w)"
      using unsigned_less [of p, where 'a = nat] w
      by (simp add: div_less_iff_less_mult power_add [symmetric])
    then show ?thesis by simp
  qed
  then have "(unat p div 2 ^ w + 1) * 2 ^ w \<le> 2 ^ (64 - w) * 2 ^ w" by (rule mult_le_mono1)
  then have "unat p div 2 ^ w * 2 ^ w + 2 ^ w \<le> 2 ^ 64"
    using w by (simp add: power_add [symmetric])
  ultimately have "unat p + 16 < 2 ^ 64"
    using div_mult_mod_eq [of "unat p" "2 ^ w"] by linarith
  then show "p < p + 16"
    by (simp add: word_less_nat_alt unat_word_ariths)
qed

text \<open>
  C20. As long as the clock does not go back and the counter of the current slot has room, each stamp is greater than
  the one issued before it and keeps its format; within one slot of the clock successive stamps differ by 16, the unit of the counter.
\<close>

theorem time_stamp_increasing:
  fixes p :: u64
  assumes "p AND 0xE = 0" and "drop_bit (low_width p) p \<le> drop_bit (low_width p) (clock_value tod)"
    and "drop_bit (low_width p) p = drop_bit (low_width p) (clock_value tod) \<longrightarrow>
      unat (take_bit (low_width p) p) div 16 + 1 < 2 ^ (low_width p - 4)"
  shows "p < time_stamp p tod \<and> co_flag (time_stamp p tod) = co_flag p \<and> time_stamp p tod AND 0xE = 0"
proof (cases "drop_bit (low_width p) p = drop_bit (low_width p) (clock_value tod)")
  case True
  note slot = time_stamp_same_slot [OF assms(1) True assms(3) [THEN mp, OF True]]
  have low: "bit (p + 16) n = bit p n" if "n < 4" for n
  proof -
    have "unat (p + 16) = unat p + 16"
      using slot(2) by (simp add: unat_plus_simple [THEN iffD1])
    then have "unat (take_bit 4 (p + 16)) = unat (take_bit 4 p)"
      by (simp only: unat_take_bit64) simp
    then have "take_bit 4 (p + 16) = take_bit 4 p" by (simp only: word_eq_iff_unsigned [where 'a = nat])
    then show ?thesis using that by (metis bit_take_bit_iff)
  qed
  then have "(p + 16) AND 0xE = 0"
    using assms(1) unfolding flags_clear by auto
  then show ?thesis using slot low [of 0] by (simp add: co_flag_def)
next
  case False
  let ?w = "low_width p" and ?new = "time_stamp p tod"
  have new: "?new = push_bit ?w (drop_bit ?w (clock_value tod)) OR co_flag p"
    by (rule time_stamp_cases(1) [OF False])
  then have bits: "bit ?new n \<longleftrightarrow> n = 0 \<and> bit p 0" if "n < 4" for n
    using that low_width_bounds(1) [of p] by (auto simp: bit_or_iff bit_push_bit_iff co_flag_def bit_1_iff)
  have "drop_bit ?w ?new = drop_bit ?w (clock_value tod)"
    unfolding new using low_width_bounds [of p]
    by (intro bit_word_eqI) (auto simp: bit_drop_bit_eq bit_or_iff bit_push_bit_iff co_flag_def bit_1_iff dest: bit_imp_le_length)
  then have "drop_bit ?w p < drop_bit ?w ?new" using False assms(2) by simp
  then have "p < ?new" by (meson drop_bit_mono linorder_not_less)
  then show ?thesis
    using bits unfolding flags_clear by (simp add: co_flag_def)
qed

theorem time_stamp_increasing_witness:
  "push_bit 32 100 < time_stamp (push_bit 32 100) (100, 0)"
  using time_stamp_increasing [of "push_bit 32 100" "(100, 0)"]
  by (simp add: low_width_def clock_value_def)

subsection \<open>Verification\<close>

lemma sint_word_of_int: "- (2 ^ 63) \<le> k \<Longrightarrow> k < 2 ^ 63 \<Longrightarrow> sint (word_of_int k :: u64) = k"
  by (simp add: sint_sbintrunc' signed_take_bit_int_eq_self)

lemma sint_diff:
  fixes s p :: u64
  assumes "\<bar>uint s - uint p\<bar> < 2 ^ 63"
  shows "sint (s - p) = uint s - uint p"
proof -
  have "s - p = word_of_int (uint s - uint p)" by simp
  then show ?thesis using sint_word_of_int [of "uint s - uint p"] assms by (simp only:)
qed

lemma verify_result:
  "time_stamp_verify_and_update stamp (Some prev) jitter now \<in> {(0, Some prev), (1, Some (max stamp prev))}"
  unfolding time_stamp_verify_and_update_def Let_def option.case max_def not_less [symmetric] by auto

lemma verify_cases:
  obtains "time_stamp_verify_and_update stamp (Some prev) jitter now = (0, Some prev)"
  | "time_stamp_verify_and_update stamp (Some prev) jitter now = (1, Some (max stamp prev))"
  using verify_result [of stamp prev jitter now] by blast

text \<open>
  By how much a stamp may be older than the highest one accepted before: nothing without jitter, and with jitter \<open>JITTER\<close>, or 256 times
  as much when the stamp has the counter-only flag.
\<close>

definition tolerance :: "bool \<Rightarrow> u64 \<Rightarrow> int" where
  "tolerance jitter stamp = (if jitter then (if bit stamp 0 then 256 else 1) * uint TIME_STAMP_JITTER else 0)"

lemma tolerance_bounds: "0 \<le> tolerance j s" "tolerance j s < 2 ^ 38" "tolerance False s = 0"
  by (simp_all add: tolerance_def)

lemma tolerance_shift: "(if j then d + push_bit (unat (push_bit 3 (drop_bit 63 (push_bit 63 s)))) TIME_STAMP_JITTER else d) = d + word_of_int (tolerance j s)"
  by (cases "bit s 0") (simp_all add: tolerance_def co_cases)

lemma verify_within:
  assumes "time_stamp_verify_and_update s (Some p) j now = (1, q)" and "\<bar>uint s - uint p\<bar> < 2 ^ 63 - 2 ^ 38"
  shows "uint p < uint s + tolerance j s"
proof -
  have "0 < sint (s - p + word_of_int (tolerance j s))"
    using assms(1) unfolding time_stamp_verify_and_update_def Let_def option.case tolerance_shift by (auto split: if_splits)
  moreover have "s - p + word_of_int (tolerance j s) = word_of_int (uint s - uint p + tolerance j s)" by simp
  moreover have "sint (word_of_int (uint s - uint p + tolerance j s) :: u64) = uint s - uint p + tolerance j s"
    by (rule sint_word_of_int) (use assms(2) tolerance_bounds(1,2) [of j s] in linarith)+
  ultimately show ?thesis by (simp only:)
qed

text \<open>
  The messages that a receiver accepts from a sender, in order: each comes with its stamp, the stamp of the receiver's clock at its arrival and
  whether jitter is allowed for its type. The accepted ones are given with their stamp and their jitter.
\<close>

fun accepted :: "u64 \<Rightarrow> (u64 \<times> u64 \<times> bool) list \<Rightarrow> (u64 \<times> bool) list" where
  "accepted prev [] = []"
| "accepted prev ((stamp, now, jitter) # rest) =
     (case time_stamp_verify_and_update stamp (Some prev) jitter now of
        (r, Some prev') \<Rightarrow> if r = 1 then (stamp, jitter) # accepted prev' rest else accepted prev' rest
      | (r, None) \<Rightarrow> [])"



lemma frame_check:
  fixes stamp now :: u64
  assumes "\<bar>uint stamp - uint now\<bar> < 2 ^ 36"
  shows "\<not> sint (if sint (stamp - now) < 0 then - (stamp - now) else stamp - now) \<ge> sint TIME_STAMP_FRAME"
proof -
  have d: "sint (stamp - now) = uint stamp - uint now" "sint (now - stamp) = uint now - uint stamp"
    using assms by (intro sint_diff; simp)+
  have f: "sint TIME_STAMP_FRAME = 2 ^ 36" by simp
  show ?thesis
    unfolding f using d assms by (auto simp del: sint_sbintrunc)
qed

lemma verify_jitter:
  assumes "\<bar>uint stamp - uint now\<bar> < 2 ^ 36"
  shows "fst (time_stamp_verify_and_update stamp (Some prev) True now) = 1 \<longleftrightarrow>
    0 < sint (stamp - prev + push_bit (if bit stamp 0 then 8 else 0) TIME_STAMP_JITTER)"
proof -
  have "unat (push_bit 3 (drop_bit 63 (push_bit 63 stamp))) = (if bit stamp 0 then 8 else 0)"
    by (simp add: co_cases)
  then show ?thesis
    using frame_check [OF assms]
    by (simp only: time_stamp_verify_and_update_def Let_def option.case if_False if_True) simp
qed

text \<open>
  The window of the jitter: a stamp inside the time frame is accepted exactly if it is less than \<open>JITTER\<close> older than the highest
  stamp accepted before. For stamps with the counter-only flag the window is 256 times as wide (the
  shift by \<open>co << 3\<close> is a multiplication by \<open>2 ^ 8\<close>), not 8 times.
\<close>

theorem jitter_window:
  assumes "\<bar>uint stamp - uint now\<bar> < 2 ^ 36" and "\<bar>uint stamp - uint prev\<bar> < 2 ^ 62"
  shows "fst (time_stamp_verify_and_update stamp (Some prev) True now) = 1 \<longleftrightarrow>
    uint prev - uint stamp < (if bit stamp 0 then 256 else 1) * uint TIME_STAMP_JITTER"
proof -
  define k :: int where "k = (if bit stamp 0 then 256 else 1)"
  have k: "push_bit (if bit stamp 0 then 8 else 0) TIME_STAMP_JITTER = (word_of_int (k * 0x27100000) :: u64)"
    by (simp add: k_def)
  have kb: "0 < k" "k \<le> 256" by (simp_all add: k_def)
  have "sint (stamp - prev + word_of_int (k * 0x27100000)) = uint stamp - uint prev + k * 0x27100000"
  proof -
    have "stamp - prev + word_of_int (k * 0x27100000) = word_of_int (uint stamp - uint prev + k * 0x27100000)"
      by simp
    moreover have "k * 0x27100000 \<le> 256 * 0x27100000" "0 \<le> k * 0x27100000" using kb by simp_all
    ultimately show ?thesis
      using assms(2) by (simp only: sint_word_of_int) (rule sint_word_of_int; simp)
  qed
  then show ?thesis
    unfolding verify_jitter [OF assms(1)] k k_def by (simp only:) auto
qed

theorem jitter_window_witness:
  "fst (time_stamp_verify_and_update (push_bit 32 100 + 1) (Some (push_bit 32 103)) True (push_bit 32 103)) = 1"
  using jitter_window [of "push_bit 32 100 + 1" "push_bit 32 103" "push_bit 32 103"] by simp

text \<open>
  The absolute value of the most negative difference is negative again: a stamp exactly \<open>2 ^ 63\<close> away from the receiver's
  clock passes the check of the time frame.
\<close>

theorem frame_check_wraps:
  "fst (time_stamp_verify_and_update (now + 2 ^ 63) None False now) = 1"
  by (simp add: time_stamp_verify_and_update_def)

end
