(* ===== verification/Auth.thy ===== *)
theory Auth
  imports Types Speck Pearson
begin

text \<open>
  User authentication, \<^verbatim>\<open>src/auth.c\<close>: the printable encoding of keys and the derivation of private and dynamic keys. A
  string is the list of its characters without the terminating zero.
\<close>

subsection \<open>Six bits per character\<close>

definition b2a :: "byte list" where
  "b2a = [0x30, 0x31, 0x32, 0x33, 0x34, 0x35, 0x36, 0x37, 0x38, 0x39, 0x41, 0x42, 0x43, 0x44, 0x45, 0x46,
    0x47, 0x48, 0x49, 0x4a, 0x4b, 0x4c, 0x4d, 0x4e, 0x4f, 0x50, 0x51, 0x52, 0x53, 0x54, 0x55, 0x56,
    0x57, 0x58, 0x59, 0x5a, 0x61, 0x62, 0x63, 0x64, 0x65, 0x66, 0x67, 0x68, 0x69, 0x6a, 0x6b, 0x6c,
    0x6d, 0x6e, 0x6f, 0x70, 0x71, 0x72, 0x73, 0x74, 0x75, 0x76, 0x77, 0x78, 0x79, 0x7a, 0x2b, 0x2d]"

definition a2b :: "byte list" where
  "a2b = [0xff, 0xff, 0xff, 0xff, 0xff, 0xff, 0xff, 0xff, 0xff, 0xff, 0xff, 0x3e, 0xff, 0x3f, 0xff, 0xff,
    0x00, 0x01, 0x02, 0x03, 0x04, 0x05, 0x06, 0x07, 0x08, 0x09, 0xff, 0xff, 0x3e, 0xff, 0x3f, 0xff,
    0xff, 0x0a, 0x0b, 0x0c, 0x0d, 0x0e, 0x0f, 0x10, 0x11, 0x12, 0x13, 0x14, 0x15, 0x16, 0x17, 0x18,
    0x19, 0x1a, 0x1b, 0x1c, 0x1d, 0x1e, 0x1f, 0x20, 0x21, 0x22, 0x23, 0xff, 0xff, 0xff, 0xff, 0xff,
    0xff, 0x24, 0x25, 0x26, 0x27, 0x28, 0x29, 0x2a, 0x2b, 0x2c, 0x2d, 0x2e, 0x2f, 0x30, 0x31, 0x32,
    0x33, 0x34, 0x35, 0x36, 0x37, 0x38, 0x39, 0x3a, 0x3b, 0x3c, 0x3d, 0xff, 0xff, 0xff, 0xff, 0xff]
    @ replicate 160 0"

definition six_bits :: "bytes \<Rightarrow> nat \<Rightarrow> byte" where
  "six_bits inp bit_count =
     (let buf1 = inp ! (bit_count div 8);
          buf1 = push_bit (bit_count mod 8) buf1;
          buf2 = (if bit_count + 8 < 8 * length inp then inp ! (bit_count div 8 + 1) else 0);
          buf2 = drop_bit (8 - bit_count mod 8) buf2;
          buf1 = buf1 OR buf2
      in drop_bit 2 buf1)"

function bin_to_ascii_loop :: "bytes \<Rightarrow> nat \<Rightarrow> bytes" where
  "bin_to_ascii_loop inp bit_count =
     (if bit_count < 8 * length inp
      then b2a ! unat (six_bits inp bit_count) # bin_to_ascii_loop inp (bit_count + 6)
      else [])"
  by pat_completeness auto
termination
  by (relation "measure (\<lambda>(inp, bit_count). 8 * length inp - bit_count)") auto

declare bin_to_ascii_loop.simps [simp del]

definition bin_to_ascii :: "bytes \<Rightarrow> bytes" where
  "bin_to_ascii inp = bin_to_ascii_loop inp 0"

text \<open>
  The decoder looks at \<open>a2b[ch]\<close> to decide whether a character is known and uses \<open>a2b[ch - 0x20]\<close> when it is.
\<close>

definition a2b_value :: "byte \<Rightarrow> u16" where
  "a2b_value ch =
     (if ch > 0x20 \<and> ch < 0x80 then if a2b ! unat ch \<noteq> 0xFF then ucast (a2b ! unat (ch - 0x20)) else 0 else 0)"

fun ascii_to_bin_loop :: "bytes \<Rightarrow> u16 \<Rightarrow> nat \<Rightarrow> bytes" where
  "ascii_to_bin_loop [] buf bit_count = []"
| "ascii_to_bin_loop (ch # inp) buf bit_count =
     (let buf = push_bit 6 buf;
          buf = buf OR a2b_value ch;
          bit_count = bit_count + 6
      in if bit_count div 8 \<noteq> 0
         then ucast (drop_bit (bit_count - 8) buf) # ascii_to_bin_loop inp buf (bit_count - 8)
         else ascii_to_bin_loop inp buf bit_count)"

definition ascii_to_bin :: "bytes \<Rightarrow> bytes" where
  "ascii_to_bin inp = ascii_to_bin_loop inp 0 0"

subsection \<open>Keys\<close>

definition generate_private_key :: "bytes \<Rightarrow> bytes" where
  "generate_private_key inp = pearson_hash_256 (pearson_hash_256 inp)"

definition bind_private_key_to_username :: "bytes \<Rightarrow> bytes \<Rightarrow> bytes" where
  "bind_private_key_to_username prv username = map2 (XOR) prv (pearson_hash_256 username)"

definition calculate_dynamic_key :: "u32 \<Rightarrow> bytes \<Rightarrow> bytes \<Rightarrow> bytes" where
  "calculate_dynamic_key key_time comm fed =
     (let key = pearson_hash_128 (pearson_hash_128 (pearson_hash_128 comm));
          tmp = pearson_hash_128 (pearson_hash_128 (pearson_hash_128 fed));
          key = map2 (XOR) key tmp;
          ctx = snd (speck_init key 128);
          tmp = pearson_hash_128 (pearson_hash_128 (st32 key_time));
          out_key = pearson_hash_128 tmp
      in speck_128_encrypt ctx out_key)"

subsection \<open>The alphabet\<close>

lemma alphabet: "v < 64 \<Longrightarrow> a2b_value (b2a ! v) = of_nat v"
proof -
  have "\<forall>v \<in> set [0..<64]. a2b_value (b2a ! v) = of_nat v"
    by (simp add: a2b_value_def b2a_def a2b_def upt_rec)
  then show "v < 64 \<Longrightarrow> a2b_value (b2a ! v) = of_nat v" by simp
qed

subsection \<open>Three bytes are four characters\<close>

lemma byte_bits: "n < 8 \<longleftrightarrow> n = 0 \<or> n = 1 \<or> n = 2 \<or> n = 3 \<or> n = 4 \<or> n = 5 \<or> n = 6 \<or> n = (7 :: nat)"
  by auto

lemma byte_bit_ge: "8 \<le> n \<Longrightarrow> \<not> bit (x :: byte) n"
  by (auto dest: bit_imp_le_length)

lemmas bit_defs = bit_or_iff bit_push_bit_iff bit_drop_bit_eq bit_unsigned_iff byte_bit_ge

lemma regroup:
  fixes x y z v :: byte and buf :: u16
  defines "s0 \<equiv> drop_bit 2 x" and "s1 \<equiv> drop_bit 2 (push_bit 6 x OR drop_bit 2 y)"
    and "s2 \<equiv> drop_bit 2 (push_bit 4 y OR drop_bit 4 z)" and "s3 \<equiv> drop_bit 2 (push_bit 2 z OR drop_bit 6 v)"
  defines "b1 \<equiv> push_bit 6 buf OR ucast s0"
  defines "b2 \<equiv> push_bit 6 b1 OR ucast s1"
  defines "b3 \<equiv> push_bit 6 b2 OR ucast s2"
  defines "b4 \<equiv> push_bit 6 b3 OR ucast s3"
  shows "ucast (drop_bit 4 b2) = x" "ucast (drop_bit 2 b3) = y" "ucast b4 = z"
proof -
  show "ucast (drop_bit 4 b2) = x"
    unfolding b2_def b1_def s0_def s1_def
    by (rule bit_word_eqI) (simp add: byte_bits, elim disjE; simp add: bit_defs)
  show "ucast (drop_bit 2 b3) = y"
    unfolding b3_def b2_def s1_def s2_def
    by (rule bit_word_eqI) (simp add: byte_bits, elim disjE; simp add: bit_defs)
  show "ucast b4 = z"
    unfolding b4_def b3_def s2_def s3_def
    by (rule bit_word_eqI) (simp add: byte_bits, elim disjE; simp add: bit_defs)
qed

lemma six_small: "unat (drop_bit 2 (x :: byte)) < 64"
proof -
  have "unat (drop_bit 2 x) = drop_bit 2 (unat x)"
    using unsigned_less [of x, where 'a = nat] by (simp only: unsigned_drop_bit_eq take_bit_nat_eq_self)
  then show ?thesis
    using unsigned_less [of x, where 'a = nat] by (simp add: drop_bit_eq_div)
qed

lemma six_char: "a2b_value (b2a ! unat (drop_bit 2 (x :: byte))) = ucast (drop_bit 2 x)"
  by (simp only: alphabet [OF six_small] word_eq_iff_unsigned [where 'a = nat] unsigned_of_nat unsigned_ucast_eq of_nat_id)

lemma six_bits_form:
  "six_bits inp k = drop_bit 2 (push_bit (k mod 8) (inp ! (k div 8))
     OR drop_bit (8 - k mod 8) (if k + 8 < 8 * length inp then inp ! (k div 8 + 1) else 0))"
  by (simp add: six_bits_def Let_def)

lemma nth_3: "(a # b # c # xs) ! (n + 3) = xs ! n"
  by (simp add: numeral_3_eq_3)

lemma bin_to_ascii_shift:
  "bin_to_ascii_loop (a # b # c # inp) (k + 24) = bin_to_ascii_loop inp k"
proof (induction inp k rule: bin_to_ascii_loop.induct)
  case (1 inp k)
  have d: "(k + 24) div 8 = k div 8 + 3" "(k + 24) mod 8 = k mod 8" "k div 8 + 3 + 1 = k div 8 + 1 + 3"
    "k + 24 + 8 < 8 * length (a # b # c # inp) \<longleftrightarrow> k + 8 < 8 * length inp"
    by simp_all presburger+
  have "six_bits (a # b # c # inp) (k + 24) = six_bits inp k"
    by (simp only: six_bits_form d nth_3)
  then show ?case
    using 1 by (simp add: bin_to_ascii_loop.simps [of "a # b # c # inp" "k + 24"] bin_to_ascii_loop.simps [of inp k]
        add.commute add.left_commute)
qed

lemma bin_to_ascii_group:
  "bin_to_ascii_loop (x # y # z # inp) 0 =
     b2a ! unat (drop_bit 2 x) # b2a ! unat (drop_bit 2 (push_bit 6 x OR drop_bit 2 y))
     # b2a ! unat (drop_bit 2 (push_bit 4 y OR drop_bit 4 z))
     # b2a ! unat (drop_bit 2 (push_bit 2 z OR drop_bit 6 (if inp = [] then 0 else hd inp)))
     # bin_to_ascii_loop inp 0"
  using bin_to_ascii_shift [of x y z inp 0]
  by (simp add: bin_to_ascii_loop.simps [of "x # y # z # inp" 0] bin_to_ascii_loop.simps [of "x # y # z # inp" 6]
      bin_to_ascii_loop.simps [of "x # y # z # inp" 12] bin_to_ascii_loop.simps [of "x # y # z # inp" 18]
      six_bits_form hd_conv_nth)

lemma bin_to_ascii_tail:
  "bin_to_ascii_loop [] 0 = []"
  "bin_to_ascii_loop [x] 0 = [b2a ! unat (drop_bit 2 x), b2a ! unat (drop_bit 2 (push_bit 6 x OR drop_bit 2 0))]"
  "bin_to_ascii_loop [x, y] 0 = [b2a ! unat (drop_bit 2 x), b2a ! unat (drop_bit 2 (push_bit 6 x OR drop_bit 2 y)),
     b2a ! unat (drop_bit 2 (push_bit 4 y OR drop_bit 4 0))]"
  by (simp_all add: bin_to_ascii_loop.simps six_bits_form)

lemma decode_chars:
  fixes buf :: u16 and c0 c1 c2 c3 :: byte
  defines "b1 \<equiv> push_bit 6 buf OR a2b_value c0"
  defines "b2 \<equiv> push_bit 6 b1 OR a2b_value c1"
  defines "b3 \<equiv> push_bit 6 b2 OR a2b_value c2"
  defines "b4 \<equiv> push_bit 6 b3 OR a2b_value c3"
  shows "ascii_to_bin_loop [c0, c1] buf 0 = [ucast (drop_bit 4 b2)]"
    "ascii_to_bin_loop [c0, c1, c2] buf 0 = [ucast (drop_bit 4 b2), ucast (drop_bit 2 b3)]"
    "ascii_to_bin_loop (c0 # c1 # c2 # c3 # rest) buf 0 =
       ucast (drop_bit 4 b2) # ucast (drop_bit 2 b3) # ucast b4 # ascii_to_bin_loop rest b4 0"
  by (simp_all add: Let_def b1_def b2_def b3_def b4_def)

lemma ascii_to_bin_back: "ascii_to_bin_loop (bin_to_ascii_loop inp 0) buf 0 = inp"
proof (induction "length inp" arbitrary: inp buf rule: less_induct)
  case less
  consider "inp = []" | x where "inp = [x]" | x y where "inp = [x, y]" | x y z rest where "inp = x # y # z # rest"
    by (metis list.exhaust)
  then show ?case
  proof cases
    case 1
    then show ?thesis by (simp add: bin_to_ascii_tail)
  next
    case (2 x)
    show ?thesis by (simp only: 2 bin_to_ascii_tail decode_chars six_char regroup)
  next
    case (3 x y)
    show ?thesis by (simp only: 3 bin_to_ascii_tail decode_chars six_char regroup)
  next
    case (4 x y z rest)
    then have "ascii_to_bin_loop (bin_to_ascii_loop rest 0) buf 0 = rest" for buf
      using less by simp
    then show ?thesis by (simp only: 4 bin_to_ascii_group decode_chars six_char regroup)
  qed
qed

text \<open>
  The printable form of a key or token is decoded to the same bytes, for every length: what an edge stores in its
  configuration is what the supernode reads.
\<close>

theorem ascii_roundtrip: "ascii_to_bin (bin_to_ascii inp) = inp"
  by (simp add: ascii_to_bin_def bin_to_ascii_def ascii_to_bin_back)

text \<open>
  The test for unknown characters looks at the wrong entry of the table: the character \<open>!\<close>, which has the code of an
  invalid character, is not skipped but sets all of the eight bits of its entry \<open>0xff\<close>.
\<close>

theorem ascii_to_bin_invalid: "a2b_value 0x21 = 0xff \<and> ascii_to_bin [0x30, 0x21] = [0x0f] \<and> ascii_to_bin [0x30, 0x30] = [0]"
  by (simp add: a2b_value_def a2b_def ascii_to_bin_def)

end
