(* ===== verification/CC20.thy ===== *)
theory CC20
  imports Ciphers
begin

text \<open>
  ChaCha20, \<^verbatim>\<open>src/cc20.c\<close> in its portable variant (after \<^verbatim>\<open>#else // plain C\<close>); the variants on top of OpenSSL and SSE2
  are not modelled. A context holds the state and the key stream as lists of sixteen 32-bit words.
\<close>

record cc20_context =
  cc20_keystream32 :: "u32 list"
  cc20_state :: "u32 list"
  cc20_key :: bytes

abbreviation CC20_IV_SIZE :: nat where "CC20_IV_SIZE \<equiv> 16"
abbreviation CC20_KEY_BYTES :: nat where "CC20_KEY_BYTES \<equiv> 32"

definition ROL32 :: "u32 \<Rightarrow> nat \<Rightarrow> u32" where
  "ROL32 x r = push_bit r x OR drop_bit (32 - r) x"

text \<open>The words that \<open>memcpy\<close> leaves in an array of 32-bit words.\<close>

fun words32 :: "nat \<Rightarrow> bytes \<Rightarrow> u32 list" where
  "words32 0 bs = []"
| "words32 (Suc n) bs = ld32 (take 4 bs) # words32 n (drop 4 bs)"

text \<open>The characters \<open>expand 32-byte k\<close>.\<close>

definition magic_constant :: bytes where
  "magic_constant = [0x65, 0x78, 0x70, 0x61, 0x6e, 0x64, 0x20, 0x33, 0x32, 0x2d, 0x62, 0x79, 0x74, 0x65, 0x20, 0x6b]"

definition cc20_init_block :: "cc20_context \<Rightarrow> bytes \<Rightarrow> cc20_context" where
  "cc20_init_block ctx nonce =
     ctx\<lparr>cc20_state := words32 4 magic_constant @ words32 8 (cc20_key ctx) @ words32 4 nonce\<rparr>"

definition CC20_QUARTERROUND :: "u32 list \<Rightarrow> nat \<Rightarrow> nat \<Rightarrow> nat \<Rightarrow> nat \<Rightarrow> u32 list" where
  "CC20_QUARTERROUND x a b c d =
     (let x = x[a := x ! a + x ! b]; x = x[d := ROL32 (x ! d XOR x ! a) 16];
          x = x[c := x ! c + x ! d]; x = x[b := ROL32 (x ! b XOR x ! c) 12];
          x = x[a := x ! a + x ! b]; x = x[d := ROL32 (x ! d XOR x ! a) 8];
          x = x[c := x ! c + x ! d]; x = x[b := ROL32 (x ! b XOR x ! c) 7]
      in x)"

definition CC20_DOUBLE_ROUND :: "u32 list \<Rightarrow> u32 list" where
  "CC20_DOUBLE_ROUND s =
     (let s = CC20_QUARTERROUND s 0 4 8 12;
          s = CC20_QUARTERROUND s 1 5 9 13;
          s = CC20_QUARTERROUND s 2 6 10 14;
          s = CC20_QUARTERROUND s 3 7 11 15;
          s = CC20_QUARTERROUND s 0 5 10 15;
          s = CC20_QUARTERROUND s 1 6 11 12;
          s = CC20_QUARTERROUND s 2 7 8 13;
          s = CC20_QUARTERROUND s 3 4 9 14
      in s)"

definition cc20_block_next :: "cc20_context \<Rightarrow> cc20_context" where
  "cc20_block_next ctx =
     (let state = cc20_state ctx;
          ks = (CC20_DOUBLE_ROUND ^^ 10) state;
          ks = map2 (+) ks state
      in ctx\<lparr>cc20_keystream32 := ks, cc20_state := state[12 := state ! 12 + 1]\<rparr>)"

text \<open>The sixteen statements that add the key stream to a block, word by word.\<close>

fun xor_words :: "bytes \<Rightarrow> u32 list \<Rightarrow> bytes" where
  "xor_words inp [] = []"
| "xor_words inp (k # ks) = st32 (ld32 (take 4 inp) XOR k) @ xor_words (drop 4 inp) ks"

definition keystream8 :: "cc20_context \<Rightarrow> bytes" where
  "keystream8 ctx = concat (map st32 (cc20_keystream32 ctx))"

function cc20_crypt_loop :: "cc20_context \<Rightarrow> bytes \<Rightarrow> bytes \<times> cc20_context" where
  "cc20_crypt_loop ctx inp =
     (if length inp \<ge> 64 then
        let ctx = cc20_block_next ctx;
            out = xor_words (take 64 inp) (cc20_keystream32 ctx);
            (outs, ctx) = cc20_crypt_loop ctx (drop 64 inp)
        in (out @ outs, ctx)
      else if length inp > 0 then
        let ctx = cc20_block_next ctx
        in (map2 (XOR) inp (take (length inp) (keystream8 ctx)), ctx)
      else ([], ctx))"
  by pat_completeness auto
termination
  by (relation "measure (\<lambda>(ctx, inp). length inp)") auto

declare cc20_crypt_loop.simps [simp del]

definition cc20_crypt_ctx :: "cc20_context \<Rightarrow> bytes \<Rightarrow> bytes \<Rightarrow> bytes \<times> cc20_context" where
  "cc20_crypt_ctx ctx iv inp = cc20_crypt_loop (cc20_init_block ctx iv) inp"

definition cc20_init :: "bytes \<Rightarrow> int \<times> cc20_context" where
  "cc20_init key = (0, \<lparr>cc20_keystream32 = replicate 16 0, cc20_state = replicate 16 0, cc20_key = take CC20_KEY_BYTES key\<rparr>)"

text \<open>The output alone: it depends on the context only through the key.\<close>

definition cc20_crypt :: "cc20_context \<Rightarrow> bytes \<Rightarrow> bytes \<Rightarrow> bytes" where
  "cc20_crypt ctx iv inp = fst (cc20_crypt_ctx ctx iv inp)"

subsection \<open>The key stream\<close>

lemma length_words32 [simp]: "length (words32 n bs) = n"
  by (induction n arbitrary: bs) simp_all

lemma length_quarterround [simp]: "length (CC20_QUARTERROUND x a b c d) = length x"
  by (simp add: CC20_QUARTERROUND_def Let_def)

lemma length_double_round [simp]: "length (CC20_DOUBLE_ROUND x) = length x"
  by (simp add: CC20_DOUBLE_ROUND_def Let_def)

lemma length_double_rounds [simp]: "length ((CC20_DOUBLE_ROUND ^^ n) x) = length x"
  by (induction n) simp_all

lemma block_next_lengths [simp]:
  "length (cc20_state ctx) = 16 \<Longrightarrow> length (cc20_keystream32 (cc20_block_next ctx)) = 16"
  "length (cc20_state (cc20_block_next ctx)) = length (cc20_state ctx)"
  by (simp_all add: cc20_block_next_def Let_def)

lemma length_init_block [simp]: "length (cc20_state (cc20_init_block ctx iv)) = 16"
  by (simp add: cc20_init_block_def)

lemma length_concat_st32: "length (concat (map st32 ks)) = 4 * length ks"
  by (induction ks) simp_all

lemma length_keystream8 [simp]: "length (keystream8 ctx) = 4 * length (cc20_keystream32 ctx)"
  by (simp add: keystream8_def length_concat_st32)

lemma xor_words_bytes:
  "length inp = 4 * length ks \<Longrightarrow> xor_words inp ks = map2 (XOR) (concat (map st32 ks)) inp"
proof (induction ks arbitrary: inp)
  case (Cons k ks)
  have "map2 (XOR) (st32 k @ concat (map st32 ks)) (take 4 inp @ drop 4 inp)
      = map2 (XOR) (st32 k) (take 4 inp) @ map2 (XOR) (concat (map st32 ks)) (drop 4 inp)"
    using Cons.prems by (intro map2_append) simp
  moreover have "st32 (ld32 (take 4 inp) XOR k) = map2 (XOR) (st32 k) (take 4 inp)"
    using Cons.prems by (simp add: le_bytes_xor map2_xor_commute)
  ultimately show ?case using Cons by simp
qed simp

fun cc20_stream :: "cc20_context \<Rightarrow> nat \<Rightarrow> bytes" where
  "cc20_stream ctx 0 = []"
| "cc20_stream ctx (Suc n) = keystream8 (cc20_block_next ctx) @ cc20_stream (cc20_block_next ctx) n"

lemma length_cc20_stream: "length (cc20_state ctx) = 16 \<Longrightarrow> length (cc20_stream ctx n) = 64 * n"
  by (induction n arbitrary: ctx) simp_all

lemma cc20_crypt_loop_stream:
  "length (cc20_state ctx) = 16 \<Longrightarrow> length inp \<le> 64 * n \<Longrightarrow>
   fst (cc20_crypt_loop ctx inp) = map2 (XOR) (cc20_stream ctx n) inp"
proof (induction n arbitrary: ctx inp)
  case 0
  then show ?case by (simp add: cc20_crypt_loop.simps)
next
  case (Suc n)
  let ?c = "cc20_block_next ctx"
  show ?case
  proof (cases "64 \<le> length inp")
    case True
    have "fst (cc20_crypt_loop ctx inp) =
        xor_words (take 64 inp) (cc20_keystream32 ?c) @ fst (cc20_crypt_loop ?c (drop 64 inp))"
      using True by (simp add: cc20_crypt_loop.simps [of ctx] Let_def case_prod_unfold)
    also have "\<dots> = map2 (XOR) (keystream8 ?c) (take 64 inp) @ map2 (XOR) (cc20_stream ?c n) (drop 64 inp)"
      using Suc True by (simp add: xor_words_bytes keystream8_def)
    also have "\<dots> = map2 (XOR) (cc20_stream ctx (Suc n)) (take 64 inp @ drop 64 inp)"
      using Suc.prems True by (subst cc20_stream.simps, subst map2_append) simp_all
    finally show ?thesis by simp
  next
    case False
    have "map2 (XOR) inp (take (length inp) ks) = map2 (XOR) ks inp" for ks :: bytes
      by (subst map2_xor_commute) (simp add: zip_take_left)
    then show ?thesis
      using False Suc.prems by (simp add: cc20_crypt_loop.simps [of ctx] zip_append1 Let_def)
  qed
qed

definition cc20_keystream :: "cc20_context \<Rightarrow> bytes \<Rightarrow> nat \<Rightarrow> bytes" where
  "cc20_keystream ctx iv n = cc20_stream (cc20_init_block ctx iv) n"

interpretation cc20: stream_cipher cc20_crypt cc20_keystream
proof
  show "n \<le> length (cc20_keystream ctx iv n)" for ctx iv n
    by (simp add: cc20_keystream_def length_cc20_stream)
  show "cc20_crypt ctx iv inp = map2 (XOR) (cc20_keystream ctx iv n) inp" if "length inp \<le> n" for ctx iv inp n
    using that by (simp add: cc20_crypt_def cc20_crypt_ctx_def cc20_keystream_def cc20_crypt_loop_stream)
qed

text \<open>
  ChaCha20 decrypts what it encrypts and keeps the length, whatever was left in the context by earlier packets: the
  output depends on key, IV and input only.
\<close>

theorem cc20_crypt_correct:
  assumes "cc20_key ctx = cc20_key ctx'"
  shows "cc20_crypt ctx iv (cc20_crypt ctx' iv inp) = inp \<and> length (cc20_crypt ctx iv inp) = length inp"
proof -
  have "cc20_stream (cc20_init_block ctx iv) n = cc20_stream (cc20_init_block ctx' iv) n" for n
  proof -
    have "cc20_stream c n = cc20_stream c' n" if "cc20_state c = cc20_state c'" for c c' n
      using that by (induction n arbitrary: c c') (simp_all add: cc20_block_next_def keystream8_def Let_def)
    then show ?thesis using assms by (simp add: cc20_init_block_def)
  qed
  then have "cc20_crypt ctx' iv inp = cc20_crypt ctx iv inp" for inp
    by (simp add: cc20.crypt_stream [OF le_refl] cc20_keystream_def)
  then show ?thesis by (simp add: cc20.involution cc20.length_crypt)
qed

theorem cc20_crypt_correct_witness:
  "cc20_crypt (snd (cc20_init (replicate 32 1))) (replicate 16 2)
     (cc20_crypt (cc20_block_next (snd (cc20_init (replicate 32 1)))) (replicate 16 2) [1, 2, 3]) = [1, 2, 3]"
  using cc20_crypt_correct [of "snd (cc20_init (replicate 32 1))" "cc20_block_next (snd (cc20_init (replicate 32 1)))"]
  by (simp add: cc20_block_next_def Let_def)

end
