(* ===== verification/Twofish.thy ===== *)
theory Twofish
  imports Ciphers
begin

text \<open>
  Twofish, \<^verbatim>\<open>src/tf.c\<close>: tables, key schedule, the block cipher, and cipher block chaining with its decryption on three
  parallel rails. A context holds the round keys and the keyed tables.
\<close>

record tf_context =
  tf_N :: nat
  tf_K :: "u32 list"
  tf_QF :: "u32 list list"

abbreviation TF_BLOCK_SIZE :: nat where "TF_BLOCK_SIZE \<equiv> 16"

subsection \<open>Tables\<close>

definition RS :: "byte list list" where
  "RS = [[0x01, 0xA4, 0x55, 0x87, 0x5A, 0x58, 0xDB, 0x9E],
         [0xA4, 0x56, 0x82, 0xF3, 0x1E, 0xC6, 0x68, 0xE5],
         [0x02, 0xA1, 0xFC, 0xC1, 0x47, 0xAE, 0x3D, 0x19],
         [0xA4, 0x55, 0x87, 0x5A, 0x58, 0xDB, 0x9E, 0x03]]"

definition tf_Q0 :: "byte list" where
  "tf_Q0 = [
    0xA9, 0x67, 0xB3, 0xE8, 0x04, 0xFD, 0xA3, 0x76, 0x9A, 0x92, 0x80, 0x78, 0xE4, 0xDD, 0xD1, 0x38,
    0x0D, 0xC6, 0x35, 0x98, 0x18, 0xF7, 0xEC, 0x6C, 0x43, 0x75, 0x37, 0x26, 0xFA, 0x13, 0x94, 0x48,
    0xF2, 0xD0, 0x8B, 0x30, 0x84, 0x54, 0xDF, 0x23, 0x19, 0x5B, 0x3D, 0x59, 0xF3, 0xAE, 0xA2, 0x82,
    0x63, 0x01, 0x83, 0x2E, 0xD9, 0x51, 0x9B, 0x7C, 0xA6, 0xEB, 0xA5, 0xBE, 0x16, 0x0C, 0xE3, 0x61,
    0xC0, 0x8C, 0x3A, 0xF5, 0x73, 0x2C, 0x25, 0x0B, 0xBB, 0x4E, 0x89, 0x6B, 0x53, 0x6A, 0xB4, 0xF1,
    0xE1, 0xE6, 0xBD, 0x45, 0xE2, 0xF4, 0xB6, 0x66, 0xCC, 0x95, 0x03, 0x56, 0xD4, 0x1C, 0x1E, 0xD7,
    0xFB, 0xC3, 0x8E, 0xB5, 0xE9, 0xCF, 0xBF, 0xBA, 0xEA, 0x77, 0x39, 0xAF, 0x33, 0xC9, 0x62, 0x71,
    0x81, 0x79, 0x09, 0xAD, 0x24, 0xCD, 0xF9, 0xD8, 0xE5, 0xC5, 0xB9, 0x4D, 0x44, 0x08, 0x86, 0xE7,
    0xA1, 0x1D, 0xAA, 0xED, 0x06, 0x70, 0xB2, 0xD2, 0x41, 0x7B, 0xA0, 0x11, 0x31, 0xC2, 0x27, 0x90,
    0x20, 0xF6, 0x60, 0xFF, 0x96, 0x5C, 0xB1, 0xAB, 0x9E, 0x9C, 0x52, 0x1B, 0x5F, 0x93, 0x0A, 0xEF,
    0x91, 0x85, 0x49, 0xEE, 0x2D, 0x4F, 0x8F, 0x3B, 0x47, 0x87, 0x6D, 0x46, 0xD6, 0x3E, 0x69, 0x64,
    0x2A, 0xCE, 0xCB, 0x2F, 0xFC, 0x97, 0x05, 0x7A, 0xAC, 0x7F, 0xD5, 0x1A, 0x4B, 0x0E, 0xA7, 0x5A,
    0x28, 0x14, 0x3F, 0x29, 0x88, 0x3C, 0x4C, 0x02, 0xB8, 0xDA, 0xB0, 0x17, 0x55, 0x1F, 0x8A, 0x7D,
    0x57, 0xC7, 0x8D, 0x74, 0xB7, 0xC4, 0x9F, 0x72, 0x7E, 0x15, 0x22, 0x12, 0x58, 0x07, 0x99, 0x34,
    0x6E, 0x50, 0xDE, 0x68, 0x65, 0xBC, 0xDB, 0xF8, 0xC8, 0xA8, 0x2B, 0x40, 0xDC, 0xFE, 0x32, 0xA4,
    0xCA, 0x10, 0x21, 0xF0, 0xD3, 0x5D, 0x0F, 0x00, 0x6F, 0x9D, 0x36, 0x42, 0x4A, 0x5E, 0xC1, 0xE0]"

definition tf_Q1 :: "byte list" where
  "tf_Q1 = [
    0x75, 0xF3, 0xC6, 0xF4, 0xDB, 0x7B, 0xFB, 0xC8, 0x4A, 0xD3, 0xE6, 0x6B, 0x45, 0x7D, 0xE8, 0x4B,
    0xD6, 0x32, 0xD8, 0xFD, 0x37, 0x71, 0xF1, 0xE1, 0x30, 0x0F, 0xF8, 0x1B, 0x87, 0xFA, 0x06, 0x3F,
    0x5E, 0xBA, 0xAE, 0x5B, 0x8A, 0x00, 0xBC, 0x9D, 0x6D, 0xC1, 0xB1, 0x0E, 0x80, 0x5D, 0xD2, 0xD5,
    0xA0, 0x84, 0x07, 0x14, 0xB5, 0x90, 0x2C, 0xA3, 0xB2, 0x73, 0x4C, 0x54, 0x92, 0x74, 0x36, 0x51,
    0x38, 0xB0, 0xBD, 0x5A, 0xFC, 0x60, 0x62, 0x96, 0x6C, 0x42, 0xF7, 0x10, 0x7C, 0x28, 0x27, 0x8C,
    0x13, 0x95, 0x9C, 0xC7, 0x24, 0x46, 0x3B, 0x70, 0xCA, 0xE3, 0x85, 0xCB, 0x11, 0xD0, 0x93, 0xB8,
    0xA6, 0x83, 0x20, 0xFF, 0x9F, 0x77, 0xC3, 0xCC, 0x03, 0x6F, 0x08, 0xBF, 0x40, 0xE7, 0x2B, 0xE2,
    0x79, 0x0C, 0xAA, 0x82, 0x41, 0x3A, 0xEA, 0xB9, 0xE4, 0x9A, 0xA4, 0x97, 0x7E, 0xDA, 0x7A, 0x17,
    0x66, 0x94, 0xA1, 0x1D, 0x3D, 0xF0, 0xDE, 0xB3, 0x0B, 0x72, 0xA7, 0x1C, 0xEF, 0xD1, 0x53, 0x3E,
    0x8F, 0x33, 0x26, 0x5F, 0xEC, 0x76, 0x2A, 0x49, 0x81, 0x88, 0xEE, 0x21, 0xC4, 0x1A, 0xEB, 0xD9,
    0xC5, 0x39, 0x99, 0xCD, 0xAD, 0x31, 0x8B, 0x01, 0x18, 0x23, 0xDD, 0x1F, 0x4E, 0x2D, 0xF9, 0x48,
    0x4F, 0xF2, 0x65, 0x8E, 0x78, 0x5C, 0x58, 0x19, 0x8D, 0xE5, 0x98, 0x57, 0x67, 0x7F, 0x05, 0x64,
    0xAF, 0x63, 0xB6, 0xFE, 0xF5, 0xB7, 0x3C, 0xA5, 0xCE, 0xE9, 0x68, 0x44, 0xE0, 0x4D, 0x43, 0x69,
    0x29, 0x2E, 0xAC, 0x15, 0x59, 0xA8, 0x0A, 0x9E, 0x6E, 0x47, 0xDF, 0x34, 0x35, 0x6A, 0xCF, 0xDC,
    0x22, 0xC9, 0xC0, 0x9B, 0x89, 0xD4, 0xED, 0xAB, 0x12, 0xA2, 0x0D, 0x52, 0xBB, 0x02, 0x2F, 0xA9,
    0xD7, 0x61, 0x1E, 0xB4, 0x50, 0x04, 0xF6, 0xC2, 0x16, 0x25, 0x86, 0x56, 0x55, 0x09, 0xBE, 0x91]"

definition mult5B :: "byte list" where
  "mult5B = [
    0x00, 0x5B, 0xB6, 0xED, 0x05, 0x5E, 0xB3, 0xE8, 0x0A, 0x51, 0xBC, 0xE7, 0x0F, 0x54, 0xB9, 0xE2,
    0x14, 0x4F, 0xA2, 0xF9, 0x11, 0x4A, 0xA7, 0xFC, 0x1E, 0x45, 0xA8, 0xF3, 0x1B, 0x40, 0xAD, 0xF6,
    0x28, 0x73, 0x9E, 0xC5, 0x2D, 0x76, 0x9B, 0xC0, 0x22, 0x79, 0x94, 0xCF, 0x27, 0x7C, 0x91, 0xCA,
    0x3C, 0x67, 0x8A, 0xD1, 0x39, 0x62, 0x8F, 0xD4, 0x36, 0x6D, 0x80, 0xDB, 0x33, 0x68, 0x85, 0xDE,
    0x50, 0x0B, 0xE6, 0xBD, 0x55, 0x0E, 0xE3, 0xB8, 0x5A, 0x01, 0xEC, 0xB7, 0x5F, 0x04, 0xE9, 0xB2,
    0x44, 0x1F, 0xF2, 0xA9, 0x41, 0x1A, 0xF7, 0xAC, 0x4E, 0x15, 0xF8, 0xA3, 0x4B, 0x10, 0xFD, 0xA6,
    0x78, 0x23, 0xCE, 0x95, 0x7D, 0x26, 0xCB, 0x90, 0x72, 0x29, 0xC4, 0x9F, 0x77, 0x2C, 0xC1, 0x9A,
    0x6C, 0x37, 0xDA, 0x81, 0x69, 0x32, 0xDF, 0x84, 0x66, 0x3D, 0xD0, 0x8B, 0x63, 0x38, 0xD5, 0x8E,
    0xA0, 0xFB, 0x16, 0x4D, 0xA5, 0xFE, 0x13, 0x48, 0xAA, 0xF1, 0x1C, 0x47, 0xAF, 0xF4, 0x19, 0x42,
    0xB4, 0xEF, 0x02, 0x59, 0xB1, 0xEA, 0x07, 0x5C, 0xBE, 0xE5, 0x08, 0x53, 0xBB, 0xE0, 0x0D, 0x56,
    0x88, 0xD3, 0x3E, 0x65, 0x8D, 0xD6, 0x3B, 0x60, 0x82, 0xD9, 0x34, 0x6F, 0x87, 0xDC, 0x31, 0x6A,
    0x9C, 0xC7, 0x2A, 0x71, 0x99, 0xC2, 0x2F, 0x74, 0x96, 0xCD, 0x20, 0x7B, 0x93, 0xC8, 0x25, 0x7E,
    0xF0, 0xAB, 0x46, 0x1D, 0xF5, 0xAE, 0x43, 0x18, 0xFA, 0xA1, 0x4C, 0x17, 0xFF, 0xA4, 0x49, 0x12,
    0xE4, 0xBF, 0x52, 0x09, 0xE1, 0xBA, 0x57, 0x0C, 0xEE, 0xB5, 0x58, 0x03, 0xEB, 0xB0, 0x5D, 0x06,
    0xD8, 0x83, 0x6E, 0x35, 0xDD, 0x86, 0x6B, 0x30, 0xD2, 0x89, 0x64, 0x3F, 0xD7, 0x8C, 0x61, 0x3A,
    0xCC, 0x97, 0x7A, 0x21, 0xC9, 0x92, 0x7F, 0x24, 0xC6, 0x9D, 0x70, 0x2B, 0xC3, 0x98, 0x75, 0x2E]"

definition multEF :: "byte list" where
  "multEF = [
    0x00, 0xEF, 0xB7, 0x58, 0x07, 0xE8, 0xB0, 0x5F, 0x0E, 0xE1, 0xB9, 0x56, 0x09, 0xE6, 0xBE, 0x51,
    0x1C, 0xF3, 0xAB, 0x44, 0x1B, 0xF4, 0xAC, 0x43, 0x12, 0xFD, 0xA5, 0x4A, 0x15, 0xFA, 0xA2, 0x4D,
    0x38, 0xD7, 0x8F, 0x60, 0x3F, 0xD0, 0x88, 0x67, 0x36, 0xD9, 0x81, 0x6E, 0x31, 0xDE, 0x86, 0x69,
    0x24, 0xCB, 0x93, 0x7C, 0x23, 0xCC, 0x94, 0x7B, 0x2A, 0xC5, 0x9D, 0x72, 0x2D, 0xC2, 0x9A, 0x75,
    0x70, 0x9F, 0xC7, 0x28, 0x77, 0x98, 0xC0, 0x2F, 0x7E, 0x91, 0xC9, 0x26, 0x79, 0x96, 0xCE, 0x21,
    0x6C, 0x83, 0xDB, 0x34, 0x6B, 0x84, 0xDC, 0x33, 0x62, 0x8D, 0xD5, 0x3A, 0x65, 0x8A, 0xD2, 0x3D,
    0x48, 0xA7, 0xFF, 0x10, 0x4F, 0xA0, 0xF8, 0x17, 0x46, 0xA9, 0xF1, 0x1E, 0x41, 0xAE, 0xF6, 0x19,
    0x54, 0xBB, 0xE3, 0x0C, 0x53, 0xBC, 0xE4, 0x0B, 0x5A, 0xB5, 0xED, 0x02, 0x5D, 0xB2, 0xEA, 0x05,
    0xE0, 0x0F, 0x57, 0xB8, 0xE7, 0x08, 0x50, 0xBF, 0xEE, 0x01, 0x59, 0xB6, 0xE9, 0x06, 0x5E, 0xB1,
    0xFC, 0x13, 0x4B, 0xA4, 0xFB, 0x14, 0x4C, 0xA3, 0xF2, 0x1D, 0x45, 0xAA, 0xF5, 0x1A, 0x42, 0xAD,
    0xD8, 0x37, 0x6F, 0x80, 0xDF, 0x30, 0x68, 0x87, 0xD6, 0x39, 0x61, 0x8E, 0xD1, 0x3E, 0x66, 0x89,
    0xC4, 0x2B, 0x73, 0x9C, 0xC3, 0x2C, 0x74, 0x9B, 0xCA, 0x25, 0x7D, 0x92, 0xCD, 0x22, 0x7A, 0x95,
    0x90, 0x7F, 0x27, 0xC8, 0x97, 0x78, 0x20, 0xCF, 0x9E, 0x71, 0x29, 0xC6, 0x99, 0x76, 0x2E, 0xC1,
    0x8C, 0x63, 0x3B, 0xD4, 0x8B, 0x64, 0x3C, 0xD3, 0x82, 0x6D, 0x35, 0xDA, 0x85, 0x6A, 0x32, 0xDD,
    0xA8, 0x47, 0x1F, 0xF0, 0xAF, 0x40, 0x18, 0xF7, 0xA6, 0x49, 0x11, 0xFE, 0xA1, 0x4E, 0x16, 0xF9,
    0xB4, 0x5B, 0x03, 0xEC, 0xB3, 0x5C, 0x04, 0xEB, 0xBA, 0x55, 0x0D, 0xE2, 0xBD, 0x52, 0x0A, 0xE5]"

subsection \<open>Key setup\<close>

definition tf_ROL :: "u32 \<Rightarrow> nat \<Rightarrow> u32" where
  "tf_ROL x n = push_bit (n mod 32) x OR drop_bit (32 - n mod 32) x"

definition tf_ROR :: "u32 \<Rightarrow> nat \<Rightarrow> u32" where
  "tf_ROR x n = drop_bit (n mod 32) x OR push_bit (32 - n mod 32) x"

definition b0 :: "u32 \<Rightarrow> byte" where "b0 x = ucast x"
definition b1 :: "u32 \<Rightarrow> byte" where "b1 x = ucast (drop_bit 8 x)"
definition b2 :: "u32 \<Rightarrow> byte" where "b2 x = ucast (drop_bit 16 x)"
definition b3 :: "u32 \<Rightarrow> byte" where "b3 x = ucast (drop_bit 24 x)"

definition U8S_TO_U32 :: "byte \<Rightarrow> byte \<Rightarrow> byte \<Rightarrow> byte \<Rightarrow> u32" where
  "U8S_TO_U32 r0 r1 r2 r3 = push_bit 24 (ucast r0) XOR push_bit 16 (ucast r1) XOR push_bit 8 (ucast r2) XOR ucast r3"

function polyMult_loop :: "u32 \<Rightarrow> u32 \<Rightarrow> u32 \<Rightarrow> u32" where
  "polyMult_loop p q t =
     (if p \<noteq> 0 then polyMult_loop (drop_bit 1 p) (push_bit 1 q) (if p AND 1 \<noteq> 0 then t XOR q else t) else t)"
  by pat_completeness auto
termination
proof (relation "measure (\<lambda>(p, q, t). unat p)")
  fix p q t :: u32 assume "p \<noteq> 0"
  then have "0 < unat p" by (simp add: unat_gt_0)
  moreover have "unat (drop_bit 1 p) = unat p div 2"
  proof -
    have "unat (drop_bit 1 p) = drop_bit 1 (unat p)"
      using unsigned_less [of p, where 'a = nat] by (simp only: unsigned_drop_bit_eq take_bit_nat_eq_self)
    then show ?thesis by (simp add: drop_bit_eq_div)
  qed
  ultimately show "((drop_bit 1 p, push_bit 1 q, if p AND 1 \<noteq> 0 then t XOR q else t), p, q, t)
      \<in> measure (\<lambda>(p, q, t). unat p)"
    by simp
qed simp

declare polyMult_loop.simps [simp del]

definition polyMult :: "u32 \<Rightarrow> u32 \<Rightarrow> u32" where
  "polyMult p q = polyMult_loop p q 0"

fun gfMod_loop :: "nat \<Rightarrow> u32 \<Rightarrow> u32 \<Rightarrow> u32" where
  "gfMod_loop 0 t modulus = t"
| "gfMod_loop (Suc i) t modulus =
     (let tt = t XOR modulus in gfMod_loop i (if tt < t then tt else t) (drop_bit 1 modulus))"

definition gfMod :: "u32 \<Rightarrow> u32 \<Rightarrow> u32" where
  "gfMod t modulus = gfMod_loop 8 t (push_bit 7 modulus)"

definition gfMult :: "u32 \<Rightarrow> u32 \<Rightarrow> u32 \<Rightarrow> u32" where
  "gfMult p q modulus = gfMod (polyMult p q) modulus"

definition RSMatrixMultiply :: "byte list \<Rightarrow> u32" where
  "RSMatrixMultiply sd =
     (let row = (\<lambda>j. fold (\<lambda>k t. t XOR ucast (gfMult (ucast (RS ! j ! k)) (ucast (sd ! k)) 0x14D)) [0..<8] (0 :: byte))
      in U8S_TO_U32 (row 3) (row 2) (row 1) (row 0))"

text \<open>The permutations of the h function: the cases fall through from longer to shorter keys.\<close>

definition q_perm :: "byte \<times> byte \<times> byte \<times> byte \<Rightarrow> u32 list \<Rightarrow> nat \<Rightarrow> byte \<times> byte \<times> byte \<times> byte" where
  "q_perm y L k =
     (let (y0, y1, y2, y3) = y;
          (y0, y1, y2, y3) =
            (if k = 4 then (tf_Q1 ! unat y0 XOR b0 (L ! 3), tf_Q0 ! unat y1 XOR b1 (L ! 3),
                            tf_Q0 ! unat y2 XOR b2 (L ! 3), tf_Q1 ! unat y3 XOR b3 (L ! 3))
             else (y0, y1, y2, y3));
          (y0, y1, y2, y3) =
            (if k = 4 \<or> k = 3 then (tf_Q1 ! unat y0 XOR b0 (L ! 2), tf_Q1 ! unat y1 XOR b1 (L ! 2),
                                    tf_Q0 ! unat y2 XOR b2 (L ! 2), tf_Q0 ! unat y3 XOR b3 (L ! 2))
             else (y0, y1, y2, y3))
      in if k = 4 \<or> k = 3 \<or> k = 2
         then (tf_Q1 ! unat (tf_Q0 ! unat (tf_Q0 ! unat y0 XOR b0 (L ! 1)) XOR b0 (L ! 0)),
               tf_Q0 ! unat (tf_Q0 ! unat (tf_Q1 ! unat y1 XOR b1 (L ! 1)) XOR b1 (L ! 0)),
               tf_Q1 ! unat (tf_Q1 ! unat (tf_Q0 ! unat y2 XOR b2 (L ! 1)) XOR b2 (L ! 0)),
               tf_Q0 ! unat (tf_Q1 ! unat (tf_Q1 ! unat y3 XOR b3 (L ! 1)) XOR b3 (L ! 0)))
         else (y0, y1, y2, y3))"

definition tf_h :: "u32 \<Rightarrow> u32 list \<Rightarrow> nat \<Rightarrow> u32" where
  "tf_h X L k =
     (let (y0, y1, y2, y3) = q_perm (b0 X, b1 X, b2 X, b3 X) L k;
          z0 = multEF ! unat y0 XOR y1 XOR multEF ! unat y2 XOR mult5B ! unat y3;
          z1 = multEF ! unat y0 XOR mult5B ! unat y1 XOR y2 XOR multEF ! unat y3;
          z2 = mult5B ! unat y0 XOR multEF ! unat y1 XOR multEF ! unat y2 XOR y3;
          z3 = y0 XOR multEF ! unat y1 XOR mult5B ! unat y2 XOR mult5B ! unat y3
      in U8S_TO_U32 z0 z1 z2 z3)"

definition or_bytes :: "byte \<Rightarrow> byte \<Rightarrow> byte \<Rightarrow> byte \<Rightarrow> u32" where
  "or_bytes r0 r1 r2 r3 = push_bit 24 (ucast r0) OR push_bit 16 (ucast r1) OR push_bit 8 (ucast r2) OR ucast r3"

definition fullKey :: "u32 list \<Rightarrow> nat \<Rightarrow> u32 list list" where
  "fullKey L k =
     (let y = (\<lambda>i. q_perm (of_nat i, of_nat i, of_nat i, of_nat i) L k) in
      [map (\<lambda>i. let (y0, _, _, _) = y i
                 in or_bytes (multEF ! unat y0) (multEF ! unat y0) (mult5B ! unat y0) y0) [0..<256],
       map (\<lambda>i. let (_, y1, _, _) = y i
                 in or_bytes y1 (mult5B ! unat y1) (multEF ! unat y1) (multEF ! unat y1)) [0..<256],
       map (\<lambda>i. let (_, _, y2, _) = y i
                 in or_bytes (multEF ! unat y2) y2 (multEF ! unat y2) (mult5B ! unat y2)) [0..<256],
       map (\<lambda>i. let (_, _, _, y3) = y i
                 in or_bytes (mult5B ! unat y3) (multEF ! unat y3) y3 (mult5B ! unat y3)) [0..<256]])"

definition keySched :: "bytes \<Rightarrow> nat \<Rightarrow> u32 list \<times> u32 list \<times> nat" where
  "keySched M N =
     (let k = (N + 63) div 64;
          Me = map (\<lambda>i. ld32 (take 4 (drop (8 * i) M))) [0..<k];
          Mo = map (\<lambda>i. ld32 (take 4 (drop (8 * i + 4) M))) [0..<k];
          S = rev (map (\<lambda>i. RSMatrixMultiply
                [b0 (Me ! i), b1 (Me ! i), b2 (Me ! i), b3 (Me ! i), b0 (Mo ! i), b1 (Mo ! i), b2 (Mo ! i), b3 (Mo ! i)]) [0..<k]);
          K = concat (map (\<lambda>i.
                let A = tf_h (of_nat (2 * i * 0x01010101)) Me k;
                    B = tf_ROL (tf_h (of_nat (2 * i * 0x01010101 + 0x01010101)) Mo k) 8
                in [A + B, tf_ROL (A + 2 * B) 9]) [0..<20])
      in (S, K, k))"

definition tf_init :: "bytes \<Rightarrow> nat \<Rightarrow> int \<times> tf_context" where
  "tf_init key key_size =
     (let (S, K, k) = keySched key key_size
      in (0, \<lparr>tf_N = key_size, tf_K = K, tf_QF = fullKey S k\<rparr>))"

subsection \<open>The block cipher\<close>

type_synonym tf_regs = "u32 \<times> u32 \<times> u32 \<times> u32"

definition fkh :: "tf_context \<Rightarrow> u32 \<Rightarrow> u32" where
  "fkh ctx X = tf_QF ctx ! 0 ! unat (b0 X) XOR tf_QF ctx ! 1 ! unat (b1 X)
     XOR tf_QF ctx ! 2 ! unat (b2 X) XOR tf_QF ctx ! 3 ! unat (b3 X)"

definition ENC_ROUND :: "tf_context \<Rightarrow> nat \<Rightarrow> tf_regs \<Rightarrow> tf_regs" where
  "ENC_ROUND ctx round = (\<lambda>(R0, R1, R2, R3).
     let T0 = fkh ctx R0; T1 = fkh ctx (tf_ROL R1 8);
         R2 = tf_ROR (R2 XOR (T1 + T0 + tf_K ctx ! (2 * round + 8))) 1;
         R3 = tf_ROL R3 1 XOR (2 * T1 + T0 + tf_K ctx ! (2 * round + 9))
     in (R0, R1, R2, R3))"

definition DEC_ROUND :: "tf_context \<Rightarrow> nat \<Rightarrow> tf_regs \<Rightarrow> tf_regs" where
  "DEC_ROUND ctx round = (\<lambda>(R0, R1, R2, R3).
     let T0 = fkh ctx R0; T1 = fkh ctx (tf_ROL R1 8);
         R2 = tf_ROL R2 1 XOR (T0 + T1 + tf_K ctx ! (2 * round + 8));
         R3 = tf_ROR (R3 XOR (T0 + 2 * T1 + tf_K ctx ! (2 * round + 9))) 1
     in (R0, R1, R2, R3))"

definition swap_regs :: "tf_regs \<Rightarrow> tf_regs" where
  "swap_regs = (\<lambda>(R0, R1, R2, R3). (R2, R3, R0, R1))"

text \<open>The rounds alternate the roles of the register pairs.\<close>

definition enc_rounds :: "tf_context \<Rightarrow> tf_regs \<Rightarrow> tf_regs" where
  "enc_rounds ctx = fold (\<lambda>r R. if even r then ENC_ROUND ctx r R else swap_regs (ENC_ROUND ctx r (swap_regs R))) [0..<16]"

definition dec_rounds :: "tf_context \<Rightarrow> tf_regs \<Rightarrow> tf_regs" where
  "dec_rounds ctx = fold (\<lambda>r R. if odd r then DEC_ROUND ctx r R else swap_regs (DEC_ROUND ctx r (swap_regs R))) (rev [0..<16])"

definition w32 :: "bytes \<Rightarrow> nat \<Rightarrow> u32" where
  "w32 bs i = ld32 (take 4 (drop (4 * i) bs))"

definition twofish_internal_encrypt :: "tf_context \<Rightarrow> bytes \<Rightarrow> bytes" where
  "twofish_internal_encrypt ctx PT =
     (let (R0, R1, R2, R3) = enc_rounds ctx (tf_K ctx ! 0 XOR w32 PT 0, tf_K ctx ! 1 XOR w32 PT 1,
                                             tf_K ctx ! 2 XOR w32 PT 2, tf_K ctx ! 3 XOR w32 PT 3)
      in st32 (R2 XOR tf_K ctx ! 4) @ st32 (R3 XOR tf_K ctx ! 5) @ st32 (R0 XOR tf_K ctx ! 6) @ st32 (R1 XOR tf_K ctx ! 7))"

definition twofish_internal_decrypt :: "tf_context \<Rightarrow> bytes \<Rightarrow> bytes" where
  "twofish_internal_decrypt ctx CT =
     (let (R0, R1, R2, R3) = dec_rounds ctx (tf_K ctx ! 4 XOR w32 CT 0, tf_K ctx ! 5 XOR w32 CT 1,
                                             tf_K ctx ! 6 XOR w32 CT 2, tf_K ctx ! 7 XOR w32 CT 3)
      in st32 (R2 XOR tf_K ctx ! 0) @ st32 (R3 XOR tf_K ctx ! 1) @ st32 (R0 XOR tf_K ctx ! 2) @ st32 (R1 XOR tf_K ctx ! 3))"

subsection \<open>Decryption inverts encryption\<close>

lemma bit_tf_ROL: "0 < r \<Longrightarrow> r < 32 \<Longrightarrow> n < 32 \<Longrightarrow> bit (tf_ROL x r) n \<longleftrightarrow> bit x ((n + (32 - r)) mod 32)"
  by (auto simp: tf_ROL_def bit_or_iff bit_push_bit_iff bit_drop_bit_eq mod_if algebra_simps
      dest: bit_imp_le_length)

lemma bit_tf_ROR: "0 < r \<Longrightarrow> r < 32 \<Longrightarrow> n < 32 \<Longrightarrow> bit (tf_ROR x r) n \<longleftrightarrow> bit x ((n + r) mod 32)"
  by (auto simp: tf_ROR_def bit_or_iff bit_push_bit_iff bit_drop_bit_eq mod_if algebra_simps
      dest: bit_imp_le_length)

lemma tf_rotate_inverse:
  assumes "0 < r" and "r < 32"
  shows "tf_ROL (tf_ROR x r) r = x" "tf_ROR (tf_ROL x r) r = x"
proof -
  show "tf_ROL (tf_ROR x r) r = x"
  proof (rule bit_word_eqI)
    fix n assume "n < LENGTH(32)"
    then show "bit (tf_ROL (tf_ROR x r) r) n \<longleftrightarrow> bit x n"
      using assms by (simp add: bit_tf_ROL bit_tf_ROR mod_add_left_eq)
  qed
  show "tf_ROR (tf_ROL x r) r = x"
  proof (rule bit_word_eqI)
    fix n assume n: "n < LENGTH(32)"
    then have "((n + r) mod 32 + (32 - r)) mod 32 = n"
      using mod_add_left_eq [of "n + r" 32 "32 - r"] assms by simp
    then show "bit (tf_ROR (tf_ROL x r) r) n \<longleftrightarrow> bit x n"
      using assms n by (simp add: bit_tf_ROL bit_tf_ROR del: Nat.add_diff_assoc)
  qed
qed

lemma DEC_ENC_ROUND: "DEC_ROUND ctx r (ENC_ROUND ctx r R) = R"
  by (cases R) (simp add: DEC_ROUND_def ENC_ROUND_def Let_def tf_rotate_inverse xor_cancel add.commute)

lemma swap_swap [simp]: "swap_regs (swap_regs R) = R"
  by (simp add: swap_regs_def split: prod.split)

lemma rounds_inverse: "dec_rounds ctx (swap_regs (enc_rounds ctx R)) = swap_regs R"
proof -
  define e where "e = (\<lambda>r R. if even r then ENC_ROUND ctx r R else swap_regs (ENC_ROUND ctx r (swap_regs R)))"
  define d where "d = (\<lambda>r R. if odd r then DEC_ROUND ctx r R else swap_regs (DEC_ROUND ctx r (swap_regs R)))"
  have step: "d r (swap_regs (e r R)) = swap_regs R" for r R
    by (simp add: d_def e_def DEC_ENC_ROUND)
  have "fold d (rev rs) (swap_regs (fold e rs R)) = swap_regs R" for rs
    by (induction rs arbitrary: R) (simp_all add: step)
  then show ?thesis by (simp add: dec_rounds_def enc_rounds_def e_def d_def)
qed

lemma w32_append:
  assumes "length a = 4" and "length b = 4" and "length c = 4" and "length d = 4"
  shows "w32 (a @ b @ c @ d) 0 = ld32 a" "w32 (a @ b @ c @ d) 1 = ld32 b" "w32 (a @ b @ c @ d) (Suc 0) = ld32 b"
    "w32 (a @ b @ c @ d) 2 = ld32 c" "w32 (a @ b @ c @ d) 3 = ld32 d"
  using assms by (simp_all add: w32_def)

lemma block_words:
  assumes "length B = 16"
  shows "st32 (w32 B 0) @ st32 (w32 B 1) @ st32 (w32 B 2) @ st32 (w32 B 3) = B"
proof -
  have "st32 (w32 B 0) @ st32 (w32 B 1) @ st32 (w32 B 2) @ st32 (w32 B 3)
      = take 4 B @ take 4 (drop 4 B) @ take 4 (drop 8 B) @ take 4 (drop 12 B)"
    using assms by (simp add: w32_def)
  also have "\<dots> = B"
    using assms append_take_drop_id [of 4 B] append_take_drop_id [of 4 "drop 4 B"] append_take_drop_id [of 4 "drop 8 B"]
    by simp
  finally show ?thesis .
qed

lemma length_twofish [simp]:
  "length (twofish_internal_encrypt ctx B) = 16" "length (twofish_internal_decrypt ctx B) = 16"
  by (auto simp: twofish_internal_encrypt_def twofish_internal_decrypt_def split: prod.split)

lemma twofish_decrypt_encrypt:
  assumes "length B = 16"
  shows "twofish_internal_decrypt ctx (twofish_internal_encrypt ctx B) = B"
proof -
  obtain R0 R1 R2 R3 where R: "enc_rounds ctx (tf_K ctx ! 0 XOR w32 B 0, tf_K ctx ! 1 XOR w32 B 1,
      tf_K ctx ! 2 XOR w32 B 2, tf_K ctx ! 3 XOR w32 B 3) = (R0, R1, R2, R3)"
    by (metis prod.exhaust)
  from rounds_inverse [of ctx "(tf_K ctx ! 0 XOR w32 B 0, tf_K ctx ! 1 XOR w32 B 1,
      tf_K ctx ! 2 XOR w32 B 2, tf_K ctx ! 3 XOR w32 B 3)", unfolded R]
  have d: "dec_rounds ctx (R2, R3, R0, R1) = (tf_K ctx ! 2 XOR w32 B 2, tf_K ctx ! 3 XOR w32 B 3,
      tf_K ctx ! 0 XOR w32 B 0, tf_K ctx ! 1 XOR w32 B 1)"
    by (simp add: swap_regs_def)
  show ?thesis
    unfolding twofish_internal_encrypt_def R Let_def prod.case
    using block_words [OF assms] d
    by (simp add: twofish_internal_decrypt_def w32_append xor_cancel One_nat_def [symmetric] del: One_nat_def)
qed

interpretation twofish: block_cipher twofish_internal_encrypt twofish_internal_decrypt
  by unfold_locales (simp_all add: twofish_decrypt_encrypt)

subsection \<open>Cipher block chaining\<close>

definition fix_xor :: "bytes \<Rightarrow> bytes \<Rightarrow> bytes" where
  "fix_xor target source =
     st32 (w32 target 0 XOR w32 source 0) @ st32 (w32 target 1 XOR w32 source 1)
     @ st32 (w32 target 2 XOR w32 source 2) @ st32 (w32 target 3 XOR w32 source 3)"

text \<open>\<open>i\<close> is the number of blocks that remain, \<open>inp\<close> the rest of the input.\<close>

fun tf_cbc_encrypt_loop :: "tf_context \<Rightarrow> nat \<Rightarrow> bytes \<Rightarrow> bytes \<Rightarrow> bytes" where
  "tf_cbc_encrypt_loop ctx 0 tmp inp = []"
| "tf_cbc_encrypt_loop ctx (Suc i) tmp inp =
     (let tmp = fix_xor tmp (take 16 inp);
          tmp = twofish_internal_encrypt ctx tmp
      in tmp @ tf_cbc_encrypt_loop ctx i tmp (drop 16 inp))"

definition tf_cbc_encrypt :: "tf_context \<Rightarrow> bytes \<Rightarrow> bytes \<Rightarrow> int \<times> bytes" where
  "tf_cbc_encrypt ctx iv inp =
     (let n = length inp div TF_BLOCK_SIZE
      in (int (n * TF_BLOCK_SIZE), tf_cbc_encrypt_loop ctx n (take 16 iv) inp))"

text \<open>
  Decryption may be called with the same buffer for input and output. The memory is the pair of the input and the
  output buffer; a store goes to both when they are the same object.
\<close>

type_synonym io_mem = "bytes \<times> bytes"

definition put32 :: "bool \<Rightarrow> nat \<Rightarrow> u32 \<Rightarrow> io_mem \<Rightarrow> io_mem" where
  "put32 shared pos w = (\<lambda>(i, out). (if shared then overlay i pos (st32 w) else i, overlay out pos (st32 w)))"

definition in32 :: "io_mem \<Rightarrow> nat \<Rightarrow> nat \<Rightarrow> u32" where
  "in32 m pos k = w32 (drop pos (fst m)) k"

definition load_regs :: "tf_context \<Rightarrow> io_mem \<Rightarrow> nat \<Rightarrow> tf_regs" where
  "load_regs ctx m pos = (tf_K ctx ! 4 XOR in32 m pos 0, tf_K ctx ! 5 XOR in32 m pos 1,
                          tf_K ctx ! 6 XOR in32 m pos 2, tf_K ctx ! 7 XOR in32 m pos 3)"

text \<open>
  The body of the first loop: three blocks are loaded and decrypted (the rounds of the three rails, interleaved in the
  source, do not share registers), then stored from the last word to the first.
\<close>

definition tf_three_rails :: "tf_context \<Rightarrow> bool \<Rightarrow> bytes \<Rightarrow> nat \<Rightarrow> io_mem \<Rightarrow> bytes \<times> io_mem" where
  "tf_three_rails ctx shared ivec pos m =
     (let old = take 16 (drop (pos + 32) (fst m));
          (Q0, Q1, Q2, Q3) = dec_rounds ctx (load_regs ctx m pos);
          (R0, R1, R2, R3) = dec_rounds ctx (load_regs ctx m (pos + 16));
          (S0, S1, S2, S3) = dec_rounds ctx (load_regs ctx m (pos + 32));
          m = put32 shared (pos + 44) (S1 XOR tf_K ctx ! 3 XOR in32 m pos 7) m;
          m = put32 shared (pos + 40) (S0 XOR tf_K ctx ! 2 XOR in32 m pos 6) m;
          m = put32 shared (pos + 36) (S3 XOR tf_K ctx ! 1 XOR in32 m pos 5) m;
          m = put32 shared (pos + 32) (S2 XOR tf_K ctx ! 0 XOR in32 m pos 4) m;
          m = put32 shared (pos + 28) (R1 XOR tf_K ctx ! 3 XOR in32 m pos 3) m;
          m = put32 shared (pos + 24) (R0 XOR tf_K ctx ! 2 XOR in32 m pos 2) m;
          m = put32 shared (pos + 20) (R3 XOR tf_K ctx ! 1 XOR in32 m pos 1) m;
          m = put32 shared (pos + 16) (R2 XOR tf_K ctx ! 0 XOR in32 m pos 0) m;
          m = put32 shared (pos + 12) (Q1 XOR tf_K ctx ! 3 XOR w32 ivec 3) m;
          m = put32 shared (pos + 8) (Q0 XOR tf_K ctx ! 2 XOR w32 ivec 2) m;
          m = put32 shared (pos + 4) (Q3 XOR tf_K ctx ! 1 XOR w32 ivec 1) m;
          m = put32 shared pos (Q2 XOR tf_K ctx ! 0 XOR w32 ivec 0) m
      in (old, m))"

definition tf_one_rail :: "tf_context \<Rightarrow> bool \<Rightarrow> bytes \<Rightarrow> nat \<Rightarrow> io_mem \<Rightarrow> bytes \<times> io_mem" where
  "tf_one_rail ctx shared ivec pos m =
     (let old = take 16 (drop pos (fst m));
          (Q0, Q1, Q2, Q3) = dec_rounds ctx (load_regs ctx m pos);
          m = put32 shared (pos + 12) (Q1 XOR tf_K ctx ! 3 XOR w32 ivec 3) m;
          m = put32 shared (pos + 8) (Q0 XOR tf_K ctx ! 2 XOR w32 ivec 2) m;
          m = put32 shared (pos + 4) (Q3 XOR tf_K ctx ! 1 XOR w32 ivec 1) m;
          m = put32 shared pos (Q2 XOR tf_K ctx ! 0 XOR w32 ivec 0) m
      in (old, m))"

fun tf_cbc_decrypt_loop :: "tf_context \<Rightarrow> bool \<Rightarrow> nat \<Rightarrow> bytes \<Rightarrow> nat \<Rightarrow> io_mem \<Rightarrow> io_mem" where
  "tf_cbc_decrypt_loop ctx shared n ivec pos m =
     (if n > 2 then
        let (ivec, m) = tf_three_rails ctx shared ivec pos m
        in tf_cbc_decrypt_loop ctx shared (n - 3) ivec (pos + 48) m
      else if n \<noteq> 0 then
        let (ivec, m) = tf_one_rail ctx shared ivec pos m
        in tf_cbc_decrypt_loop ctx shared (n - 1) ivec (pos + 16) m
      else m)"

declare tf_cbc_decrypt_loop.simps [simp del]

text \<open>The return value multiplies the loop variable, which is zero by then.\<close>

definition tf_cbc_decrypt :: "tf_context \<Rightarrow> bool \<Rightarrow> nat \<Rightarrow> bytes \<Rightarrow> io_mem \<Rightarrow> int \<times> io_mem" where
  "tf_cbc_decrypt ctx shared in_len iv m =
     (0, tf_cbc_decrypt_loop ctx shared (in_len div TF_BLOCK_SIZE) (take 16 iv) 0 m)"

definition tf_ecb_decrypt :: "tf_context \<Rightarrow> bytes \<Rightarrow> int \<times> bytes" where
  "tf_ecb_decrypt ctx inp = (int TF_BLOCK_SIZE, twofish_internal_decrypt ctx (take TF_BLOCK_SIZE inp))"

definition tf_ecb_encrypt :: "tf_context \<Rightarrow> bytes \<Rightarrow> int \<times> bytes" where
  "tf_ecb_encrypt ctx inp = (int TF_BLOCK_SIZE, twofish_internal_encrypt ctx (take TF_BLOCK_SIZE inp))"

subsection \<open>The chaining computes its specification, in place or not\<close>

lemma map2_append4:
  assumes "length a = length a'" and "length b = length b'" and "length c = length c'"
  shows "map2 f (a @ b @ c @ d) (a' @ b' @ c' @ d') = map2 f a a' @ map2 f b b' @ map2 f c c' @ map2 f d d'"
  using assms by simp

lemma xor_words16:
  assumes "length x = 16" and "length y = 16"
  shows "st32 (w32 x 0 XOR w32 y 0) @ st32 (w32 x 1 XOR w32 y 1) @ st32 (w32 x 2 XOR w32 y 2) @ st32 (w32 x 3 XOR w32 y 3)
    = map2 (XOR) x y"
proof -
  have "map2 (XOR) (st32 (w32 x 0) @ st32 (w32 x 1) @ st32 (w32 x 2) @ st32 (w32 x 3))
      (st32 (w32 y 0) @ st32 (w32 y 1) @ st32 (w32 y 2) @ st32 (w32 y 3)) =
    st32 (w32 x 0 XOR w32 y 0) @ st32 (w32 x 1 XOR w32 y 1) @ st32 (w32 x 2 XOR w32 y 2) @ st32 (w32 x 3 XOR w32 y 3)"
    by (simp only: map2_append4 length_le_bytes le_bytes_xor)
  then show ?thesis by (simp only: block_words [OF assms(1)] block_words [OF assms(2)])
qed

lemma tf_cbc_encrypt_loop_spec:
  "length tmp = 16 \<Longrightarrow> 16 * n \<le> length inp \<Longrightarrow>
   tf_cbc_encrypt_loop ctx n tmp inp = cbc_enc (twofish_internal_encrypt ctx) n tmp inp"
proof (induction n arbitrary: tmp inp)
  case (Suc n)
  have "fix_xor tmp (take 16 inp) = map2 (XOR) tmp (take 16 inp)"
    using Suc.prems by (simp add: fix_xor_def xor_words16 [unfolded One_nat_def])
  then show ?case using Suc by (simp add: Let_def)
qed simp

definition stored :: "bool \<Rightarrow> bytes \<Rightarrow> bytes \<Rightarrow> nat \<Rightarrow> bytes \<Rightarrow> io_mem" where
  "stored shared i out p bs = (if shared then overlay i p bs else i, overlay out p bs)"

lemma put32_stored:
  "q = p + 4 \<Longrightarrow> q + length bs \<le> length i \<Longrightarrow> q + length bs \<le> length out \<Longrightarrow>
   put32 shared p w (stored shared i out q bs) = stored shared i out p (st32 w @ bs)"
  using overlay_prepend [of p "st32 w" bs i] overlay_prepend [of p "st32 w" bs out]
  by (simp add: put32_def stored_def)

lemma put32_first: "put32 shared p w (i, out) = stored shared i out p (st32 w)"
  by (simp add: put32_def stored_def)

lemma in32_stored:
  assumes "pos + 4 * k + 4 \<le> p" and "p + length bs \<le> length i"
  shows "in32 (stored shared i out p bs) pos k = in32 (i, out) pos k"
proof -
  have "take 4 (drop (4 * k) (drop pos (overlay i p bs))) = take 4 (drop (4 * k) (drop pos i))"
  proof -
    have "take 4 (drop (4 * k) (drop pos m)) = drop (pos + 4 * k) (take (pos + 4 * k + 4) m)" for m :: bytes
      by (simp add: drop_take add.commute)
    then show ?thesis using assms by (simp add: take_below_overlay)
  qed
  then show ?thesis by (simp add: in32_def w32_def stored_def)
qed

lemma block_at:
  "pos + 16 \<le> length i \<Longrightarrow> j < 4 \<Longrightarrow> in32 (i, out) pos j = w32 (take 16 (drop pos i)) j"
  by (simp add: in32_def w32_def take_drop min_def)

lemma rail_output:
  assumes "length y = 16" and "dec_rounds ctx (load_regs ctx (i, out) pos) = (Q0, Q1, Q2, Q3)" and "pos + 16 \<le> length i"
  shows "st32 (Q2 XOR tf_K ctx ! 0 XOR w32 y 0) @ st32 (Q3 XOR tf_K ctx ! 1 XOR w32 y 1)
      @ st32 (Q0 XOR tf_K ctx ! 2 XOR w32 y 2) @ st32 (Q1 XOR tf_K ctx ! 3 XOR w32 y 3)
    = map2 (XOR) (twofish_internal_decrypt ctx (take 16 (drop pos i))) y"
proof -
  let ?B = "take 16 (drop pos i)"
  have D: "twofish_internal_decrypt ctx ?B =
      st32 (Q2 XOR tf_K ctx ! 0) @ st32 (Q3 XOR tf_K ctx ! 1) @ st32 (Q0 XOR tf_K ctx ! 2) @ st32 (Q1 XOR tf_K ctx ! 3)"
    using assms by (simp add: twofish_internal_decrypt_def load_regs_def block_at)
  show ?thesis
    using xor_words16 [of "twofish_internal_decrypt ctx ?B" y] assms(1) unfolding D by (simp add: w32_append xor.assoc)
qed

lemma one_rail_spec:
  assumes "pos + 16 \<le> length i" and "pos + 16 \<le> length out" and "length ivec = 16"
  shows "tf_one_rail ctx shared ivec pos (i, out) = (take 16 (drop pos i),
    stored shared i out pos (map2 (XOR) (twofish_internal_decrypt ctx (take 16 (drop pos i))) ivec))"
proof -
  obtain Q0 Q1 Q2 Q3 where Q: "dec_rounds ctx (load_regs ctx (i, out) pos) = (Q0, Q1, Q2, Q3)"
    by (metis prod.exhaust)
  show ?thesis
    unfolding rail_output [OF assms(3) Q assms(1), symmetric] using assms
    by (simp add: tf_one_rail_def Q Let_def put32_first put32_stored)
qed

lemma w32_shift: "pos + 16 * b + 16 \<le> length i \<Longrightarrow> j < 4 \<Longrightarrow> in32 (i, out) pos (4 * b + j) = w32 (take 16 (drop (pos + 16 * b) i)) j"
  by (simp add: in32_def w32_def take_drop min_def algebra_simps)

lemma three_rails_spec:
  assumes "pos + 48 \<le> length i" and "pos + 48 \<le> length out" and "length ivec = 16"
  shows "tf_three_rails ctx shared ivec pos (i, out) = (take 16 (drop (pos + 32) i),
    stored shared i out pos
      (map2 (XOR) (twofish_internal_decrypt ctx (take 16 (drop pos i))) ivec
       @ map2 (XOR) (twofish_internal_decrypt ctx (take 16 (drop (pos + 16) i))) (take 16 (drop pos i))
       @ map2 (XOR) (twofish_internal_decrypt ctx (take 16 (drop (pos + 32) i))) (take 16 (drop (pos + 16) i))))"
proof -
  obtain Q0 Q1 Q2 Q3 where Q: "dec_rounds ctx (load_regs ctx (i, out) pos) = (Q0, Q1, Q2, Q3)"
    by (metis prod.exhaust)
  obtain R0 R1 R2 R3 where R: "dec_rounds ctx (load_regs ctx (i, out) (pos + 16)) = (R0, R1, R2, R3)"
    by (metis prod.exhaust)
  obtain S0 S1 S2 S3 where S: "dec_rounds ctx (load_regs ctx (i, out) (pos + 32)) = (S0, S1, S2, S3)"
    by (metis prod.exhaust)
  let ?B0 = "take 16 (drop pos i)" and ?B1 = "take 16 (drop (pos + 16) i)"
  have l: "length ?B0 = 16" "length ?B1 = 16" using assms by simp_all
  have w: "in32 (i, out) pos 0 = w32 ?B0 0" "in32 (i, out) pos 1 = w32 ?B0 1" "in32 (i, out) pos 2 = w32 ?B0 2"
    "in32 (i, out) pos 3 = w32 ?B0 3" "in32 (i, out) pos 4 = w32 ?B1 0" "in32 (i, out) pos 5 = w32 ?B1 1"
    "in32 (i, out) pos 6 = w32 ?B1 2" "in32 (i, out) pos 7 = w32 ?B1 3"
    using assms w32_shift [of pos 1 i 0 out] w32_shift [of pos 1 i 1 out] w32_shift [of pos 1 i 2 out]
      w32_shift [of pos 1 i 3 out]
    by (simp_all add: block_at)
  have le: "pos + 16 \<le> length i" "pos + 16 + 16 \<le> length i" "pos + 32 + 16 \<le> length i" using assms(1) by simp_all
  show ?thesis
    unfolding rail_output [OF assms(3) Q le(1), symmetric] rail_output [OF l(1) R le(2), symmetric]
      rail_output [OF l(2) S le(3), symmetric]
    using assms
    by (simp add: tf_three_rails_def Q R S Let_def put32_first put32_stored in32_stored w [unfolded One_nat_def])
qed

lemma stored_lengths:
  "p + length bs \<le> length i \<Longrightarrow> p + length bs \<le> length out \<Longrightarrow>
   \<exists>i' out'. stored shared i out p bs = (i', out') \<and> length i' = length i \<and> length out' = length out
     \<and> out' = overlay out p bs \<and> (\<forall>q \<ge> p + length bs. q \<le> length i \<longrightarrow> drop q i' = drop q i)"
  by (auto simp: stored_def drop_above_overlay)

lemma length_cbc_dec: "length iv = 16 \<Longrightarrow> 16 * n \<le> length inp \<Longrightarrow>
   length (cbc_dec (twofish_internal_decrypt ctx) n iv inp) = 16 * n"
  by (induction n arbitrary: iv inp) simp_all

lemma tf_cbc_decrypt_loop_spec:
  "pos + 16 * n \<le> length i \<Longrightarrow> pos + 16 * n \<le> length out \<Longrightarrow> length ivec = 16 \<Longrightarrow>
   snd (tf_cbc_decrypt_loop ctx shared n ivec pos (i, out)) =
     overlay out pos (cbc_dec (twofish_internal_decrypt ctx) n ivec (drop pos i))"
proof (induction n arbitrary: ivec pos i out rule: less_induct)
  case (less n)
  let ?D = "twofish_internal_decrypt ctx"
  consider "n = 0" | m where "n = m + 3" | "0 < n" "n \<le> 2"
    by (metis le_Suc_ex add.commute not_less_eq_eq numeral_3_eq_3 numeral_2_eq_2 neq0_conv)
  then show ?case
  proof cases
    case 1
    then show ?thesis by (simp add: tf_cbc_decrypt_loop.simps)
  next
    case (2 m)
    let ?X = "map2 (XOR) (?D (take 16 (drop pos i))) ivec
       @ map2 (XOR) (?D (take 16 (drop (pos + 16) i))) (take 16 (drop pos i))
       @ map2 (XOR) (?D (take 16 (drop (pos + 32) i))) (take 16 (drop (pos + 16) i))"
    have X: "length ?X = 48" using less.prems 2 by simp
    obtain i' out' where s: "stored shared i out pos ?X = (i', out')" "length i' = length i" "length out' = length out"
        "out' = overlay out pos ?X" "drop (pos + 48) i' = drop (pos + 48) i"
      using stored_lengths [of pos ?X i out shared] X less.prems 2 by auto
    have three: "tf_three_rails ctx shared ivec pos (i, out) = (take 16 (drop (pos + 32) i), i', out')"
      using three_rails_spec [of pos i out ivec ctx shared] s(1) less.prems 2 by simp
    have ih: "snd (tf_cbc_decrypt_loop ctx shared m (take 16 (drop (pos + 32) i)) (pos + 48) (i', out')) =
        overlay out' (pos + 48) (cbc_dec ?D m (take 16 (drop (pos + 32) i)) (drop (pos + 48) i))"
      using less.IH [of m "pos + 48" i' out' "take 16 (drop (pos + 32) i)"] less.prems 2 s by simp
    have "overlay (overlay out pos ?X) (pos + 48) c = overlay out pos (?X @ c)" if "length c = 16 * m" for c
      using overlay_append [of pos ?X c out] X that less.prems 2 by simp
    moreover have "cbc_dec ?D n ivec (drop pos i) = ?X @ cbc_dec ?D m (take 16 (drop (pos + 32) i)) (drop (pos + 48) i)"
      using 2 by (simp add: numeral_3_eq_3 add.commute)
    moreover have "tf_cbc_decrypt_loop ctx shared n ivec pos (i, out) =
        tf_cbc_decrypt_loop ctx shared m (take 16 (drop (pos + 32) i)) (pos + 48) (i', out')"
      by (subst tf_cbc_decrypt_loop.simps) (simp add: three 2)
    ultimately show ?thesis
      using ih s(4) less.prems 2 by (simp add: length_cbc_dec)
  next
    case 3
    then obtain m where m: "n = Suc m" by (cases n) auto
    let ?X = "map2 (XOR) (?D (take 16 (drop pos i))) ivec"
    have X: "length ?X = 16" using less.prems m by simp
    obtain i' out' where s: "stored shared i out pos ?X = (i', out')" "length i' = length i" "length out' = length out"
        "out' = overlay out pos ?X" "drop (pos + 16) i' = drop (pos + 16) i"
      using stored_lengths [of pos ?X i out shared] X less.prems m by auto
    have one: "tf_one_rail ctx shared ivec pos (i, out) = (take 16 (drop pos i), i', out')"
      using one_rail_spec [of pos i out ivec ctx shared] s(1) less.prems m by simp
    have ih: "snd (tf_cbc_decrypt_loop ctx shared m (take 16 (drop pos i)) (pos + 16) (i', out')) =
        overlay out' (pos + 16) (cbc_dec ?D m (take 16 (drop pos i)) (drop (pos + 16) i))"
      using less.IH [of m "pos + 16" i' out' "take 16 (drop pos i)"] less.prems m s by simp
    have "overlay (overlay out pos ?X) (pos + 16) c = overlay out pos (?X @ c)" if "length c = 16 * m" for c
      using overlay_append [of pos ?X c out] X that less.prems m by simp
    moreover have "tf_cbc_decrypt_loop ctx shared n ivec pos (i, out) =
        tf_cbc_decrypt_loop ctx shared m (take 16 (drop pos i)) (pos + 16) (i', out')"
      using 3 by (subst tf_cbc_decrypt_loop.simps) (simp add: one m)
    ultimately show ?thesis
      using ih s(4) less.prems m by (simp add: length_cbc_dec add.commute)
  qed
qed

text \<open>
  Twofish: the block decryption inverts the block encryption, for every key schedule.
\<close>

theorem twofish_inverse:
  assumes "length B = TF_BLOCK_SIZE"
  shows "twofish_internal_decrypt ctx (twofish_internal_encrypt ctx B) = B
    \<and> snd (tf_ecb_decrypt ctx (snd (tf_ecb_encrypt ctx B))) = B"
  using assms by (simp add: tf_ecb_decrypt_def tf_ecb_encrypt_def twofish_decrypt_encrypt)

theorem twofish_inverse_witness:
  "twofish_internal_decrypt (snd (tf_init (replicate 32 1) 256))
     (twofish_internal_encrypt (snd (tf_init (replicate 32 1) 256)) (replicate 16 7)) = replicate 16 7"
  using twofish_inverse [of "replicate 16 7"] by simp

text \<open>
  C18. The optimised decryption in cipher block chaining mode, three blocks at a time and with input and output buffer
  possibly the same, computes the specified block by block decryption of its input, writes nothing else, and
  inverts the encryption.
\<close>

theorem tf_cbc_decrypt_correct:
  assumes "16 * n \<le> length i" and "16 * n \<le> length out" and "length iv = 16" and "shared \<longrightarrow> i = out"
  shows "snd (snd (tf_cbc_decrypt ctx shared (16 * n) iv (i, out))) =
      cbc_dec (twofish_internal_decrypt ctx) n iv i @ drop (16 * n) out
    \<and> (\<forall>inp. length inp = 16 * n \<and> take (16 * n) i = snd (tf_cbc_encrypt ctx iv inp) \<longrightarrow>
        take (16 * n) (snd (snd (tf_cbc_decrypt ctx shared (16 * n) iv (i, out)))) = inp)"
proof -
  have cut: "cbc_dec d n v (take (16 * n) x) = cbc_dec d n v x" for d v and x :: bytes
    by (induction n arbitrary: v x) (simp_all add: drop_take)
  have spec: "snd (snd (tf_cbc_decrypt ctx shared (16 * n) iv (i, out))) =
      cbc_dec (twofish_internal_decrypt ctx) n iv i @ drop (16 * n) out"
    using assms tf_cbc_decrypt_loop_spec [of 0 n i out iv ctx shared]
    by (simp add: tf_cbc_decrypt_def overlay_def length_cbc_dec)
  moreover have "cbc_dec (twofish_internal_decrypt ctx) n iv i = inp"
    if "length inp = 16 * n" and "take (16 * n) i = snd (tf_cbc_encrypt ctx iv inp)" for inp
  proof -
    have "take (16 * n) i = cbc_enc (twofish_internal_encrypt ctx) n iv inp"
      using that assms(3) by (simp add: tf_cbc_encrypt_def tf_cbc_encrypt_loop_spec Let_def)
    then show ?thesis
      using twofish.cbc_roundtrip [OF assms(3) that(1), of ctx] cut [of _ iv i] by metis
  qed
  ultimately show ?thesis using assms by (auto simp: length_cbc_dec)
qed

theorem tf_cbc_decrypt_correct_witness:
  "snd (snd (tf_cbc_decrypt (snd (tf_init (replicate 32 1) 256)) True (16 * 4) (replicate 16 0) (replicate 64 5, replicate 64 5))) =
     cbc_dec (twofish_internal_decrypt (snd (tf_init (replicate 32 1) 256))) 4 (replicate 16 0) (replicate 64 5) @ drop (16 * 4) (replicate 64 5)"
  by (rule tf_cbc_decrypt_correct [THEN conjunct1]) simp_all

end
