(* ===== verification/Transforms.thy ===== *)
theory Transforms
  imports Wire_Format Random_Numbers Pearson Speck CC20 Twofish
begin

text \<open>
  The payload transforms \<^verbatim>\<open>src/transform_null.c\<close>, \<^verbatim>\<open>src/transform_speck.c\<close>, \<^verbatim>\<open>src/transform_cc20.c\<close> and
  \<^verbatim>\<open>src/transform_tf.c\<close>. An operation takes the output buffer, its size as the caller passes it, the input buffer and the
  number of bytes in it, and returns the return value and the new output buffer; encoders draw the IV from the
  random number generator. Subtractions of \<open>size_t\<close> wrap around.
\<close>

definition size_sub :: "nat \<Rightarrow> nat \<Rightarrow> nat" where
  "size_sub a b = (a + 2 ^ 64 - b) mod 2 ^ 64"

lemma size_sub_le: "b \<le> a \<Longrightarrow> a < 2 ^ 64 \<Longrightarrow> size_sub a b = a - b"
proof -
  assume "b \<le> a" and "a < 2 ^ 64"
  then have "a + 2 ^ 64 - b = (a - b) + 2 ^ 64" and "a - b < 2 ^ 64" by simp_all
  then show ?thesis by (simp only: size_sub_def mod_add_self2 mod_less)
qed

subsection \<open>No encryption\<close>

definition transop_encode_null ::
  "bytes \<Rightarrow> nat \<Rightarrow> bytes \<Rightarrow> nat \<Rightarrow> rn_generator_state \<Rightarrow> (int \<times> bytes \<times> rn_generator_state) option" where
  "transop_encode_null outbuf out_len inbuf in_len rn =
     (if out_len \<ge> in_len then do {
        p \<leftarrow> rd inbuf 0 in_len;
        outbuf \<leftarrow> wr outbuf 0 p;
        Some (int in_len, outbuf, rn) }
      else Some (-1, outbuf, rn))"

definition transop_decode_null :: "bytes \<Rightarrow> nat \<Rightarrow> bytes \<Rightarrow> nat \<Rightarrow> (int \<times> bytes) option" where
  "transop_decode_null outbuf out_len inbuf in_len =
     (if out_len \<ge> in_len then do {
        p \<leftarrow> rd inbuf 0 in_len;
        outbuf \<leftarrow> wr outbuf 0 p;
        Some (int in_len, outbuf) }
      else Some (-1, outbuf))"

subsection \<open>Speck\<close>

abbreviation TRANSOP_SPECK_PREAMBLE_SIZE :: nat where "TRANSOP_SPECK_PREAMBLE_SIZE \<equiv> 16"

definition setup_speck_key :: "bytes \<Rightarrow> speck_context" where
  "setup_speck_key password = snd (speck_init (pearson_hash_256 password) 256)"

definition transop_encode_speck :: "speck_context \<Rightarrow>
    bytes \<Rightarrow> nat \<Rightarrow> bytes \<Rightarrow> nat \<Rightarrow> rn_generator_state \<Rightarrow> (int \<times> bytes \<times> rn_generator_state) option" where
  "transop_encode_speck ctx outbuf out_len inbuf in_len rn =
     (if in_len \<le> N2N_PKT_BUF_SIZE then
        if in_len + TRANSOP_SPECK_PREAMBLE_SIZE \<le> out_len then do {
          let (r, rn) = n2n_rand rn;
          (_, st) \<leftarrow> encode_uint64 r (outbuf, 0);
          let (r, rn) = n2n_rand rn;
          (_, outbuf, _) \<leftarrow> encode_uint64 r st;
          iv \<leftarrow> rd outbuf 0 16;
          p \<leftarrow> rd inbuf 0 in_len;
          outbuf \<leftarrow> wr outbuf TRANSOP_SPECK_PREAMBLE_SIZE (speck_ctr ctx iv p);
          Some (int in_len + int TRANSOP_SPECK_PREAMBLE_SIZE, outbuf, rn) }
        else Some (-1, outbuf, rn)
      else Some (-1, outbuf, rn))"

definition transop_decode_speck :: "speck_context \<Rightarrow> bytes \<Rightarrow> nat \<Rightarrow> bytes \<Rightarrow> nat \<Rightarrow> (int \<times> bytes) option" where
  "transop_decode_speck ctx outbuf out_len inbuf in_len =
     (if size_sub in_len TRANSOP_SPECK_PREAMBLE_SIZE \<le> N2N_PKT_BUF_SIZE \<and> in_len \<ge> TRANSOP_SPECK_PREAMBLE_SIZE then do {
        let len = in_len - TRANSOP_SPECK_PREAMBLE_SIZE;
        iv \<leftarrow> rd inbuf 0 16;
        c \<leftarrow> rd inbuf TRANSOP_SPECK_PREAMBLE_SIZE len;
        outbuf \<leftarrow> wr outbuf 0 (speck_ctr ctx iv c);
        Some (int len, outbuf) }
      else Some (0, outbuf))"

subsection \<open>ChaCha20\<close>

abbreviation CC20_PREAMBLE_SIZE :: nat where "CC20_PREAMBLE_SIZE \<equiv> 16"

definition setup_cc20_key :: "bytes \<Rightarrow> cc20_context" where
  "setup_cc20_key password = snd (cc20_init (pearson_hash_256 password))"

definition transop_encode_cc20 :: "cc20_context \<Rightarrow>
    bytes \<Rightarrow> nat \<Rightarrow> bytes \<Rightarrow> nat \<Rightarrow> rn_generator_state \<Rightarrow> (int \<times> bytes \<times> rn_generator_state) option" where
  "transop_encode_cc20 ctx outbuf out_len inbuf in_len rn =
     (if in_len \<le> N2N_PKT_BUF_SIZE then
        if in_len + CC20_PREAMBLE_SIZE \<le> out_len then do {
          let (r, rn) = n2n_rand rn;
          (_, st) \<leftarrow> encode_uint64 r (outbuf, 0);
          let (r, rn) = n2n_rand rn;
          (_, outbuf, _) \<leftarrow> encode_uint64 r st;
          iv \<leftarrow> rd outbuf 0 16;
          p \<leftarrow> rd inbuf 0 in_len;
          outbuf \<leftarrow> wr outbuf CC20_PREAMBLE_SIZE (cc20_crypt ctx iv p);
          Some (int in_len + int CC20_PREAMBLE_SIZE, outbuf, rn) }
        else Some (-1, outbuf, rn)
      else Some (-1, outbuf, rn))"

text \<open>The decoder passes the length of the whole input, IV included, to the cipher.\<close>

definition transop_decode_cc20 :: "cc20_context \<Rightarrow> bytes \<Rightarrow> nat \<Rightarrow> bytes \<Rightarrow> nat \<Rightarrow> (int \<times> bytes) option" where
  "transop_decode_cc20 ctx outbuf out_len inbuf in_len =
     (if size_sub in_len CC20_PREAMBLE_SIZE \<le> N2N_PKT_BUF_SIZE \<and> in_len \<ge> CC20_PREAMBLE_SIZE then do {
        let len = in_len - CC20_PREAMBLE_SIZE;
        iv \<leftarrow> rd inbuf 0 16;
        c \<leftarrow> rd inbuf CC20_PREAMBLE_SIZE in_len;
        outbuf \<leftarrow> wr outbuf 0 (cc20_crypt ctx iv c);
        Some (int len, outbuf) }
      else Some (0, outbuf))"

subsection \<open>Twofish\<close>

abbreviation TF_PREAMBLE_SIZE :: nat where "TF_PREAMBLE_SIZE \<equiv> 16"

definition tf_null_iv :: bytes where
  "tf_null_iv = replicate 16 0"

definition setup_tf_key :: "bytes \<Rightarrow> tf_context" where
  "setup_tf_key password = snd (tf_init (pearson_hash_256 password) 256)"

text \<open>\<open>assembly\<close> is the uninitialised array on the stack of 4096 bytes; \<open>tf_cbc_encrypt\<close> writes whole blocks to the output.\<close>

definition transop_encode_tf :: "tf_context \<Rightarrow> bytes \<Rightarrow>
    bytes \<Rightarrow> nat \<Rightarrow> bytes \<Rightarrow> nat \<Rightarrow> rn_generator_state \<Rightarrow> (int \<times> bytes \<times> rn_generator_state) option" where
  "transop_encode_tf ctx assembly outbuf out_len inbuf in_len rn =
     (if in_len \<le> N2N_PKT_BUF_SIZE then
        if in_len + TF_PREAMBLE_SIZE + TF_BLOCK_SIZE \<le> out_len then do {
          let (r, rn) = n2n_rand rn;
          (_, st) \<leftarrow> encode_uint64 r (assembly, 0);
          let (r, rn) = n2n_rand rn;
          (_, assembly, _) \<leftarrow> encode_uint64 r st;
          (_, assembly, idx) \<leftarrow> encode_buf inbuf in_len (assembly, TF_PREAMBLE_SIZE);
          let padded_len = ((idx - 1) div TF_BLOCK_SIZE + 1) * TF_BLOCK_SIZE;
          let padding = padded_len - idx;
          assembly \<leftarrow> wr assembly idx (replicate TF_BLOCK_SIZE 0);
          p \<leftarrow> rd assembly 0 padded_len;
          outbuf \<leftarrow> wr outbuf 0 (snd (tf_cbc_encrypt ctx tf_null_iv p));
          outbuf \<leftarrow> (if padding \<noteq> 0 then do {
              buf \<leftarrow> rd outbuf (padded_len - TF_BLOCK_SIZE) TF_BLOCK_SIZE;
              prev \<leftarrow> rd outbuf (padded_len - 2 * TF_BLOCK_SIZE) TF_BLOCK_SIZE;
              outbuf \<leftarrow> wr outbuf (padded_len - TF_BLOCK_SIZE) prev;
              wr outbuf (padded_len - 2 * TF_BLOCK_SIZE) buf }
            else Some outbuf);
          Some (int idx, outbuf, rn) }
        else Some (0, outbuf, rn)
      else Some (0, outbuf, rn))"

definition transop_decode_tf :: "tf_context \<Rightarrow> bytes \<Rightarrow> bytes \<Rightarrow> nat \<Rightarrow> bytes \<Rightarrow> nat \<Rightarrow> (int \<times> bytes) option" where
  "transop_decode_tf ctx assembly outbuf out_len inbuf in_len =
     (if size_sub in_len TF_PREAMBLE_SIZE \<le> N2N_PKT_BUF_SIZE \<and> in_len \<ge> TF_PREAMBLE_SIZE \<and> in_len \<ge> TF_BLOCK_SIZE
      then do {
        let rest = in_len mod TF_BLOCK_SIZE;
        result \<leftarrow> (if rest \<noteq> 0 then do {
            let penultimate_block = (in_len div TF_BLOCK_SIZE - 1) * TF_BLOCK_SIZE;
            p \<leftarrow> rd inbuf 0 penultimate_block;
            assembly \<leftarrow> wr assembly 0 p;
            pen \<leftarrow> rd inbuf penultimate_block TF_BLOCK_SIZE;
            let buf = snd (tf_ecb_decrypt ctx pen);
            t \<leftarrow> rd inbuf (in_len - rest) rest;
            buf \<leftarrow> wr buf 0 t;
            assembly \<leftarrow> wr assembly (penultimate_block + TF_BLOCK_SIZE) pen;
            assembly \<leftarrow> wr assembly penultimate_block buf;
            _ \<leftarrow> rd assembly 0 (in_len + TF_BLOCK_SIZE - rest);
            let assembly = snd (snd (tf_cbc_decrypt ctx True (in_len + TF_BLOCK_SIZE - rest) tf_null_iv (assembly, assembly)));
            z \<leftarrow> rd assembly in_len (TF_BLOCK_SIZE - rest);
            Some (if z \<noteq> take (TF_BLOCK_SIZE - rest) tf_null_iv then None else Some assembly) }
          else do {
            c \<leftarrow> rd inbuf 0 in_len;
            _ \<leftarrow> rd assembly 0 in_len;
            Some (Some (snd (snd (tf_cbc_decrypt ctx False in_len tf_null_iv (inbuf, assembly))))) });
        case result of
          None \<Rightarrow> Some (-1, outbuf)
        | Some assembly \<Rightarrow> do {
            let len = in_len - TF_PREAMBLE_SIZE;
            p \<leftarrow> rd assembly TF_PREAMBLE_SIZE len;
            outbuf \<leftarrow> wr outbuf 0 p;
            Some (int len, outbuf) } }
      else Some (-1, outbuf))"

subsection \<open>What a transform promises\<close>

text \<open>
  The contract between the edge and its transform: data that leave room for the \<open>overhead\<close> in an output buffer of at most 4096
  bytes are encoded inside the buffer, and the receiver, whose buffers have a slack of sixteen bytes, recovers
  them from the encoded bytes.
\<close>

locale transop =
  fixes fwd :: "bytes \<Rightarrow> nat \<Rightarrow> bytes \<Rightarrow> nat \<Rightarrow> rn_generator_state \<Rightarrow> (int \<times> bytes \<times> rn_generator_state) option"
    and rev_op :: "bytes \<Rightarrow> nat \<Rightarrow> bytes \<Rightarrow> nat \<Rightarrow> (int \<times> bytes) option"
    and overhead :: nat
  assumes fwd_ok: "in_len \<le> length inbuf \<Longrightarrow> in_len + overhead \<le> out_len \<Longrightarrow> out_len \<le> length outbuf \<Longrightarrow>
      out_len \<le> N2N_PKT_BUF_SIZE \<Longrightarrow> \<exists>n out rn'. fwd outbuf out_len inbuf in_len rn = Some (int n, out, rn')
        \<and> n \<le> in_len + overhead \<and> length out = length outbuf"
    and rev_ok: "in_len \<le> length inbuf \<Longrightarrow> in_len + overhead \<le> out_len \<Longrightarrow> out_len \<le> length outbuf \<Longrightarrow>
      out_len \<le> N2N_PKT_BUF_SIZE \<Longrightarrow> fwd outbuf out_len inbuf in_len rn = Some (int n, out, rn') \<Longrightarrow>
      take n inbuf' = take n out \<Longrightarrow> n + 16 \<le> length inbuf' \<Longrightarrow> n \<le> out_len' \<Longrightarrow> n \<le> length outbuf' \<Longrightarrow>
      \<exists>out'. rev_op outbuf' out_len' inbuf' n = Some (int in_len, out') \<and> take in_len out' = take in_len inbuf"
begin

text \<open>A frame sent over the network: encoded, copied behind a header of \<open>h\<close> bytes, received and decoded.\<close>

lemma transport:
  assumes "in_len \<le> length inbuf" and "in_len + overhead \<le> out_len" and "out_len \<le> length outbuf"
    and "out_len \<le> N2N_PKT_BUF_SIZE"
    and "in_len + overhead \<le> out_len'" and "in_len + overhead \<le> length outbuf'" and "16 \<le> length slack"
  shows "\<exists>n out rn' out'. fwd outbuf out_len inbuf in_len rn = Some (int n, out, rn')
    \<and> rev_op outbuf' out_len' (take n out @ slack) n = Some (int in_len, out') \<and> take in_len out' = take in_len inbuf"
proof -
  obtain n out rn' where f: "fwd outbuf out_len inbuf in_len rn = Some (int n, out, rn')" "n \<le> in_len + overhead"
      "length out = length outbuf"
    using fwd_ok [OF assms(1-4)] by blast
  then have n: "n \<le> length out" using assms(2,3) by simp
  then have "take n (take n out @ slack) = take n out" and "n + 16 \<le> length (take n out @ slack)"
    using assms(7) by simp_all
  then show ?thesis
    using rev_ok [OF assms(1-4) f(1), of "take n out @ slack" out_len' outbuf'] f assms(5,6) by auto
qed

end

interpretation null_op: transop transop_encode_null transop_decode_null 0
proof
  show "\<exists>n out rn'. transop_encode_null outbuf out_len inbuf in_len rn = Some (int n, out, rn')
      \<and> n \<le> in_len + 0 \<and> length out = length outbuf"
    if "in_len \<le> length inbuf" "in_len + 0 \<le> out_len" "out_len \<le> length outbuf" "out_len \<le> N2N_PKT_BUF_SIZE"
    for in_len inbuf out_len outbuf rn
    using that by (simp add: transop_encode_null_def rd_def wr_def)
  show "\<exists>out'. transop_decode_null outbuf' out_len' inbuf' n = Some (int in_len, out') \<and> take in_len out' = take in_len inbuf"
    if "in_len \<le> length inbuf" "in_len + 0 \<le> out_len" "out_len \<le> length outbuf" "out_len \<le> N2N_PKT_BUF_SIZE"
      "transop_encode_null outbuf out_len inbuf in_len rn = Some (int n, out, rn')" "take n inbuf' = take n out"
      "n + 16 \<le> length inbuf'" "n \<le> out_len'" "n \<le> length outbuf'"
    for in_len inbuf out_len outbuf rn n out rn' inbuf' out_len' outbuf'
    using that by (auto simp: transop_encode_null_def transop_decode_null_def rd_def wr_def overlay_def)
qed

text \<open>The bytes drawn for the IV, and the buffer that starts with them.\<close>

definition rand_iv :: "rn_generator_state \<Rightarrow> bytes" where
  "rand_iv rn = be_bytes 8 (fst (n2n_rand rn)) @ be_bytes 8 (fst (n2n_rand (snd (n2n_rand rn))))"

lemma length_rand_iv [simp]: "length (rand_iv rn) = 16"
  by (simp add: rand_iv_def)

lemma encode_iv:
  assumes "n2n_rand rn = (r1, rn1)" and "n2n_rand rn1 = (r2, rn2)" and "16 \<le> length buf"
  shows "Option.bind (encode_uint64 r1 (buf, 0)) (\<lambda>(_, st). Option.bind (encode_uint64 r2 st) g)
    = g (8, overlay buf 0 (rand_iv rn), 16)"
  using assms overlay_append [of 0 "be_bytes 8 r1" "be_bytes 8 r2" buf]
  by (simp add: encode_uint64_emit emit_def rand_iv_def)

text \<open>The two transforms over a stream cipher, with the cipher as an argument.\<close>

definition iv_encode :: "(bytes \<Rightarrow> bytes \<Rightarrow> bytes) \<Rightarrow>
    bytes \<Rightarrow> nat \<Rightarrow> bytes \<Rightarrow> nat \<Rightarrow> rn_generator_state \<Rightarrow> (int \<times> bytes \<times> rn_generator_state) option" where
  "iv_encode crypt outbuf out_len inbuf in_len rn =
     (if in_len \<le> N2N_PKT_BUF_SIZE then
        if in_len + 16 \<le> out_len then do {
          let (r, rn) = n2n_rand rn;
          (_, st) \<leftarrow> encode_uint64 r (outbuf, 0);
          let (r, rn) = n2n_rand rn;
          (_, outbuf, _) \<leftarrow> encode_uint64 r st;
          iv \<leftarrow> rd outbuf 0 16;
          p \<leftarrow> rd inbuf 0 in_len;
          outbuf \<leftarrow> wr outbuf 16 (crypt iv p);
          Some (int in_len + 16, outbuf, rn) }
        else Some (-1, outbuf, rn)
      else Some (-1, outbuf, rn))"

lemma stream_encoders:
  "transop_encode_speck ctx = iv_encode (speck_ctr ctx)"
  "transop_encode_cc20 cctx = iv_encode (cc20_crypt cctx)"
  by (intro ext; simp add: transop_encode_speck_def transop_encode_cc20_def iv_encode_def)+

lemma iv_encode_result:
  assumes "in_len \<le> length inbuf" and "in_len + 16 \<le> out_len" and "out_len \<le> length outbuf" and "out_len \<le> N2N_PKT_BUF_SIZE"
    and len: "\<And>iv p. length (crypt iv p) = length p"
  shows "\<exists>rn'. iv_encode crypt outbuf out_len inbuf in_len rn = Some (int (in_len + 16),
    overlay outbuf 0 (rand_iv rn @ crypt (rand_iv rn) (take in_len inbuf)), rn')"
proof -
  obtain r1 rn1 r2 rn2 where r: "n2n_rand rn = (r1, rn1)" "n2n_rand rn1 = (r2, rn2)" by fastforce
  have "16 \<le> length outbuf" "in_len \<le> N2N_PKT_BUF_SIZE" using assms by simp_all
  moreover have "take 16 (overlay outbuf 0 (rand_iv rn)) = rand_iv rn" by (simp add: overlay_def)
  ultimately show ?thesis
    using assms overlay_append [of 0 "rand_iv rn" "crypt (rand_iv rn) (take in_len inbuf)" outbuf]
    by (simp add: iv_encode_def r encode_iv [OF r] rd_def wr_def)
qed

lemma iv_received:
  assumes "take (m + 16) inbuf' = take (m + 16) (overlay outbuf 0 (iv @ c))" and "length iv = 16" and "length c = m"
  shows "take 16 inbuf' = iv" and "take m (drop 16 inbuf') = c"
proof -
  have all: "take (m + 16) inbuf' = iv @ c" using assms by (simp add: overlay_def)
  show "take 16 inbuf' = iv" using arg_cong [OF all, of "take 16"] assms(2) by simp
  show "take m (drop 16 inbuf') = c" using arg_cong [OF all, of "drop 16"] assms(2,3) by (simp add: drop_take)
qed

interpretation speck_op: transop "transop_encode_speck ctx" "transop_decode_speck ctx" 16 for ctx
proof
  show "\<exists>n out rn'. transop_encode_speck ctx outbuf out_len inbuf in_len rn = Some (int n, out, rn')
      \<and> n \<le> in_len + 16 \<and> length out = length outbuf"
    if "in_len \<le> length inbuf" "in_len + 16 \<le> out_len" "out_len \<le> length outbuf" "out_len \<le> N2N_PKT_BUF_SIZE"
    for in_len inbuf out_len outbuf rn
    using iv_encode_result [OF that, of "speck_ctr ctx" rn] that
    by (auto simp: stream_encoders cc20.length_crypt intro!: exI [of _ "in_len + 16"])
  show "\<exists>out'. transop_decode_speck ctx outbuf' out_len' inbuf' n = Some (int in_len, out') \<and> take in_len out' = take in_len inbuf"
    if "in_len \<le> length inbuf" "in_len + 16 \<le> out_len" "out_len \<le> length outbuf" "out_len \<le> N2N_PKT_BUF_SIZE"
      "transop_encode_speck ctx outbuf out_len inbuf in_len rn = Some (int n, out, rn')" "take n inbuf' = take n out"
      "n + 16 \<le> length inbuf'" "n \<le> out_len'" "n \<le> length outbuf'"
    for in_len inbuf out_len outbuf rn n out rn' inbuf' out_len' outbuf'
  proof -
    let ?c = "speck_ctr ctx (rand_iv rn) (take in_len inbuf)"
    have n: "n = in_len + 16" "out = overlay outbuf 0 (rand_iv rn @ ?c)"
      using iv_encode_result [OF that(1-4), of "speck_ctr ctx" rn] that(5) by (auto simp: stream_encoders cc20.length_crypt)
    have "take 16 inbuf' = rand_iv rn" "take in_len (drop 16 inbuf') = ?c"
      using iv_received [of in_len inbuf' outbuf "rand_iv rn" ?c] that n by simp_all
    then show ?thesis
      using that n by (simp add: transop_decode_speck_def size_sub_le rd_def wr_def overlay_def speck_ctr_involution)
  qed
qed

interpretation cc20_op: transop "transop_encode_cc20 ctx" "transop_decode_cc20 ctx" 16 for ctx
proof
  show "\<exists>n out rn'. transop_encode_cc20 ctx outbuf out_len inbuf in_len rn = Some (int n, out, rn')
      \<and> n \<le> in_len + 16 \<and> length out = length outbuf"
    if "in_len \<le> length inbuf" "in_len + 16 \<le> out_len" "out_len \<le> length outbuf" "out_len \<le> N2N_PKT_BUF_SIZE"
    for in_len inbuf out_len outbuf rn
    using iv_encode_result [OF that, of "cc20_crypt ctx" rn] that
    by (auto simp: stream_encoders cc20.length_crypt intro!: exI [of _ "in_len + 16"])
  show "\<exists>out'. transop_decode_cc20 ctx outbuf' out_len' inbuf' n = Some (int in_len, out') \<and> take in_len out' = take in_len inbuf"
    if "in_len \<le> length inbuf" "in_len + 16 \<le> out_len" "out_len \<le> length outbuf" "out_len \<le> N2N_PKT_BUF_SIZE"
      "transop_encode_cc20 ctx outbuf out_len inbuf in_len rn = Some (int n, out, rn')" "take n inbuf' = take n out"
      "n + 16 \<le> length inbuf'" "n \<le> out_len'" "n \<le> length outbuf'"
    for in_len inbuf out_len outbuf rn n out rn' inbuf' out_len' outbuf'
  proof -
    let ?c = "cc20_crypt ctx (rand_iv rn) (take in_len inbuf)"
    let ?d = "cc20_crypt ctx (rand_iv rn) (take n (drop 16 inbuf'))"
    have n: "n = in_len + 16" "out = overlay outbuf 0 (rand_iv rn @ ?c)"
      using iv_encode_result [OF that(1-4), of "cc20_crypt ctx" rn] that(5) by (auto simp: stream_encoders cc20.length_crypt)
    have iv: "take 16 inbuf' = rand_iv rn" "take in_len (drop 16 inbuf') = ?c"
      using iv_received [of in_len inbuf' outbuf "rand_iv rn" ?c] that n by (simp_all add: cc20.length_crypt)
    have "take in_len ?d = cc20_crypt ctx (rand_iv rn) (take in_len (drop 16 inbuf'))"
      using n by (simp add: cc20.prefix [symmetric])
    then have "take in_len ?d = take in_len inbuf" by (simp add: iv cc20.involution)
    then show ?thesis
      using that n iv by (simp add: transop_decode_cc20_def size_sub_le rd_def wr_def overlay_def cc20.length_crypt)
  qed
qed

subsection \<open>Cipher text stealing\<close>

text \<open>The transforms over a block cipher, with its modes as arguments.\<close>

definition null_iv :: bytes where
  "null_iv = replicate 16 0"

definition cts_encode :: "(bytes \<Rightarrow> bytes) \<Rightarrow> bytes \<Rightarrow>
    bytes \<Rightarrow> nat \<Rightarrow> bytes \<Rightarrow> nat \<Rightarrow> rn_generator_state \<Rightarrow> (int \<times> bytes \<times> rn_generator_state) option" where
  "cts_encode cbc assembly outbuf out_len inbuf in_len rn =
     (if in_len \<le> N2N_PKT_BUF_SIZE then
        if in_len + 16 + 16 \<le> out_len then do {
          let (r, rn) = n2n_rand rn;
          (_, st) \<leftarrow> encode_uint64 r (assembly, 0);
          let (r, rn) = n2n_rand rn;
          (_, assembly, _) \<leftarrow> encode_uint64 r st;
          (_, assembly, idx) \<leftarrow> encode_buf inbuf in_len (assembly, 16);
          let padded_len = ((idx - 1) div 16 + 1) * 16;
          let padding = padded_len - idx;
          assembly \<leftarrow> wr assembly idx (replicate 16 0);
          p \<leftarrow> rd assembly 0 padded_len;
          outbuf \<leftarrow> wr outbuf 0 (cbc p);
          outbuf \<leftarrow> (if padding \<noteq> 0 then do {
              buf \<leftarrow> rd outbuf (padded_len - 16) 16;
              prev \<leftarrow> rd outbuf (padded_len - 2 * 16) 16;
              outbuf \<leftarrow> wr outbuf (padded_len - 16) prev;
              wr outbuf (padded_len - 2 * 16) buf }
            else Some outbuf);
          Some (int idx, outbuf, rn) }
        else Some (0, outbuf, rn)
      else Some (0, outbuf, rn))"

definition cts_decode :: "(bytes \<Rightarrow> bytes) \<Rightarrow> (bool \<Rightarrow> nat \<Rightarrow> bytes \<times> bytes \<Rightarrow> bytes) \<Rightarrow>
    bytes \<Rightarrow> bytes \<Rightarrow> nat \<Rightarrow> bytes \<Rightarrow> nat \<Rightarrow> (int \<times> bytes) option" where
  "cts_decode ecb cbc assembly outbuf out_len inbuf in_len =
     (if size_sub in_len 16 \<le> N2N_PKT_BUF_SIZE \<and> in_len \<ge> 16 \<and> in_len \<ge> 16
      then do {
        let rest = in_len mod 16;
        result \<leftarrow> (if rest \<noteq> 0 then do {
            let penultimate_block = (in_len div 16 - 1) * 16;
            p \<leftarrow> rd inbuf 0 penultimate_block;
            assembly \<leftarrow> wr assembly 0 p;
            pen \<leftarrow> rd inbuf penultimate_block 16;
            let buf = ecb pen;
            t \<leftarrow> rd inbuf (in_len - rest) rest;
            buf \<leftarrow> wr buf 0 t;
            assembly \<leftarrow> wr assembly (penultimate_block + 16) pen;
            assembly \<leftarrow> wr assembly penultimate_block buf;
            _ \<leftarrow> rd assembly 0 (in_len + 16 - rest);
            let assembly = cbc True (in_len + 16 - rest) (assembly, assembly);
            z \<leftarrow> rd assembly in_len (16 - rest);
            Some (if z \<noteq> take (16 - rest) null_iv then None else Some assembly) }
          else do {
            c \<leftarrow> rd inbuf 0 in_len;
            _ \<leftarrow> rd assembly 0 in_len;
            Some (Some (cbc False in_len (inbuf, assembly))) });
        case result of
          None \<Rightarrow> Some (-1, outbuf)
        | Some assembly \<Rightarrow> do {
            let len = in_len - 16;
            p \<leftarrow> rd assembly 16 len;
            outbuf \<leftarrow> wr outbuf 0 p;
            Some (int len, outbuf) } }
      else Some (-1, outbuf))"

definition cts_blocks :: "nat \<Rightarrow> nat" where
  "cts_blocks idx = (idx - 1) div 16 + 1"

definition cts_plain :: "bytes \<Rightarrow> bytes \<Rightarrow> bytes" where
  "cts_plain iv p = (let q = iv @ p in q @ replicate (16 * cts_blocks (length q) - length q) 0)"

lemma cts_blocks_bounds: "0 < idx \<Longrightarrow> idx \<le> 16 * cts_blocks idx" "0 < idx \<Longrightarrow> 16 * cts_blocks idx < idx + 16"
  by (simp_all add: cts_blocks_def)

lemma length_cts_plain: "length iv = 16 \<Longrightarrow> length (cts_plain iv p) = 16 * cts_blocks (16 + length p)"
  using cts_blocks_bounds [of "16 + length p"] by (simp add: cts_plain_def Let_def)

definition swap_last :: "nat \<Rightarrow> bytes \<Rightarrow> bytes" where
  "swap_last n c = take (16 * n - 32) c @ drop (16 * n - 16) c @ take 16 (drop (16 * n - 32) c)"

abbreviation cts_cipher :: "(bytes \<Rightarrow> bytes) \<Rightarrow> bytes \<Rightarrow> bytes" where
  "cts_cipher e p \<equiv> cbc_enc e (length p div 16) null_iv p"

definition cts_message :: "(bytes \<Rightarrow> bytes) \<Rightarrow> bytes \<Rightarrow> bytes \<Rightarrow> bytes" where
  "cts_message e iv p = (let n = cts_blocks (16 + length p); c = cts_cipher e (cts_plain iv p) in
     if length p mod 16 = 0 then c else swap_last n c)"

lemma length_null_iv [simp]: "length null_iv = 16"
  by (simp add: null_iv_def)

lemma cts_blocks_ge2: "0 < m \<Longrightarrow> 2 \<le> cts_blocks (16 + m)"
  by (simp add: cts_blocks_def)

lemma cts_blocks_exact: "cts_blocks (16 + m) * 16 = 16 + m \<longleftrightarrow> m mod 16 = 0"
proof -
  obtain q r where m: "m = 16 * q + r" and r: "r < 16" by (metis mult_div_mod_eq mod_less_divisor zero_less_numeral)
  show ?thesis
  proof (cases r)
    case 0
    then show ?thesis by (simp add: cts_blocks_def m)
  next
    case (Suc r')
    then have "(15 + m) div 16 = q + 1" using m r by simp
    moreover have "m mod 16 = r" using m r by simp
    ultimately show ?thesis using Suc m by (simp add: cts_blocks_def)
  qed
qed

lemma length_swap_last: "length c = 16 * n \<Longrightarrow> 2 \<le> n \<Longrightarrow> length (swap_last n c) = 16 * n"
  by (auto simp: swap_last_def dest!: le_Suc_ex)

lemma take_padded:
  "length q \<le> k \<Longrightarrow> k \<le> length q + 16 \<Longrightarrow> take k (overlay m 0 (q @ replicate 16 0)) = q @ replicate (k - length q) 0"
  by (simp add: overlay_def min_def)

lemma swap_in_buffer:
  assumes "length c = 16 * n" and "2 \<le> n" and "16 * n \<le> length buf"
  shows "(do { b \<leftarrow> rd (overlay buf 0 c) (16 * n - 16) 16; prev \<leftarrow> rd (overlay buf 0 c) (16 * n - 2 * 16) 16;
      o1 \<leftarrow> wr (overlay buf 0 c) (16 * n - 16) prev; wr o1 (16 * n - 2 * 16) b }) = Some (overlay buf 0 (swap_last n c))"
proof -
  obtain m where m: "n = m + 2" using assms(2) by (metis le_add_diff_inverse2)
  let ?X = "take (16 * m) c" and ?Y = "take 16 (drop (16 * m) c)" and ?Z = "drop (16 * m + 16) c" and ?D = "drop (16 * n) buf"
  have o: "overlay buf 0 c = ?X @ ?Y @ ?Z @ ?D"
    using assms(1) by (simp add: overlay_def m ac_simps flip: drop_drop)
  have l: "length ?X = 16 * m" "length ?Y = 16" "length ?Z = 16" using assms(1) m by simp_all
  have "rd (overlay buf 0 c) (16 * m + 16) 16 = Some ?Z" "rd (overlay buf 0 c) (16 * m) 16 = Some ?Y"
    unfolding o using l rd_at [of "?X @ ?Y" "16 * m + 16" ?Z 16 ?D] rd_at [of ?X "16 * m" ?Y 16 "?Z @ ?D"] by simp_all
  moreover have "wr (overlay buf 0 c) (16 * m + 16) ?Y = Some (?X @ ?Y @ ?Y @ ?D)"
    unfolding o using l wr_at [of "?X @ ?Y" "16 * m + 16" ?Z ?Y ?D] by simp
  moreover have "wr (?X @ ?Y @ ?Y @ ?D) (16 * m) ?Z = Some (?X @ ?Z @ ?Y @ ?D)"
    using l wr_at [of ?X "16 * m" ?Y ?Z "?Y @ ?D"] by simp
  moreover have "overlay buf 0 (swap_last n c) = ?X @ ?Z @ ?Y @ ?D"
    using l m assms(1) by (simp add: overlay_def swap_last_def ac_simps)
  moreover have "16 * n - 16 = 16 * m + 16" "16 * n - 2 * 16 = 16 * m" using m by simp_all
  ultimately show ?thesis by (simp only: Option.bind.bind_lunit)
qed

text \<open>The tail of the encoder, from the padded plain text on.\<close>

definition cts_emit :: "(bytes \<Rightarrow> bytes) \<Rightarrow> nat \<Rightarrow> bytes \<Rightarrow> bytes \<Rightarrow> (bytes) option" where
  "cts_emit cbc idx assembly outbuf = do {
     p \<leftarrow> rd assembly 0 (((idx - 1) div 16 + 1) * 16);
     outbuf \<leftarrow> wr outbuf 0 (cbc p);
     if ((idx - 1) div 16 + 1) * 16 - idx \<noteq> 0 then do {
         b \<leftarrow> rd outbuf (((idx - 1) div 16 + 1) * 16 - 16) 16;
         prev \<leftarrow> rd outbuf (((idx - 1) div 16 + 1) * 16 - 2 * 16) 16;
         outbuf \<leftarrow> wr outbuf (((idx - 1) div 16 + 1) * 16 - 16) prev;
         wr outbuf (((idx - 1) div 16 + 1) * 16 - 2 * 16) b }
       else Some outbuf }"

lemma cts_plain_stolen:
  assumes "length iv = 16" and "length p = 16 * m + r" and "0 < r" and "r < 16"
  shows "cts_blocks (16 + length p) = m + 2" and "length (cts_plain iv p) = 16 * (m + 2)"
    and "cts_plain iv p = iv @ p @ replicate (16 - r) 0"
proof -
  have "(15 + length p) div 16 = m + 1" using assms by simp
  then show n: "cts_blocks (16 + length p) = m + 2" by (simp add: cts_blocks_def)
  then show "length (cts_plain iv p) = 16 * (m + 2)" using assms(1) by (simp add: length_cts_plain)
  show "cts_plain iv p = iv @ p @ replicate (16 - r) 0" using assms n by (simp add: cts_plain_def Let_def)
qed

lemma cbc_dec_take: "cbc_dec d n v (take (16 * n) x) = cbc_dec d n v x"
  by (induction n arbitrary: v x) (simp_all add: drop_take)

text \<open>What the transforms rely on: the modes are chaining with the block cipher and no initial value; decryption writes the blocks to the output buffer.\<close>

locale cts = block_cipher +
  fixes cbc_encrypt :: "'a \<Rightarrow> bytes \<Rightarrow> bytes" and ecb_decrypt :: "'a \<Rightarrow> bytes \<Rightarrow> bytes"
    and cbc_decrypt :: "'a \<Rightarrow> bool \<Rightarrow> nat \<Rightarrow> bytes \<times> bytes \<Rightarrow> bytes"
  assumes cbc_encrypt: "length p = 16 * n \<Longrightarrow> cbc_encrypt ctx p = cbc_enc (enc ctx) n null_iv p"
    and ecb_decrypt: "length b = 16 \<Longrightarrow> ecb_decrypt ctx b = dec ctx b"
    and cbc_decrypt: "16 * n \<le> length i \<Longrightarrow> 16 * n \<le> length out \<Longrightarrow> (shared \<longrightarrow> i = out) \<Longrightarrow>
      cbc_decrypt ctx shared (16 * n) (i, out) = cbc_dec (dec ctx) n null_iv i @ drop (16 * n) out"
begin

lemma length_cts_message:
  assumes "length iv = 16"
  shows "length (cts_message (enc ctx) iv p) = 16 * cts_blocks (16 + length p)"
proof -
  have c: "length (cts_cipher (enc ctx) (cts_plain iv p)) = 16 * cts_blocks (16 + length p)"
    using assms by (simp add: length_cbc_enc length_cts_plain)
  show ?thesis
    using c cts_blocks_ge2 [of "length p"] by (cases "p = []") (simp_all add: cts_message_def Let_def length_swap_last)
qed

lemma cts_emit_result:
  assumes "length iv = 16" and "rd assembly 0 (16 * cts_blocks (16 + length p)) = Some (cts_plain iv p)"
    and "16 * cts_blocks (16 + length p) \<le> length outbuf"
  shows "cts_emit (cbc_encrypt ctx) (16 + length p) assembly outbuf = Some (overlay outbuf 0 (cts_message (enc ctx) iv p))"
proof -
  let ?n = "cts_blocks (16 + length p)" and ?c = "cts_cipher (enc ctx) (cts_plain iv p)"
  have n: "16 + length p \<le> 16 * ?n" by (rule cts_blocks_bounds; simp)
  have pad: "((16 + length p - 1) div 16 + 1) * 16 = 16 * ?n" by (simp add: cts_blocks_def)
  have cbc: "(cbc_encrypt ctx (cts_plain iv p)) = ?c"
    using cbc_encrypt [of "cts_plain iv p" ?n ctx] assms(1) by (simp add: length_cts_plain)
  have c: "length ?c = 16 * ?n" using assms(1) by (simp add: length_cbc_enc length_cts_plain)
  then have w: "wr outbuf 0 ?c = Some (overlay outbuf 0 ?c)" using assms(3) by (simp add: wr_def)
  have msg: "cts_message (enc ctx) iv p = (if 16 * ?n - (16 + length p) = 0 then ?c else swap_last ?n ?c)"
    using n cts_blocks_exact [of "length p"] by (auto simp: cts_message_def Let_def)
  show ?thesis
  proof (cases "16 * ?n - (16 + length p) = 0")
    case True
    then show ?thesis unfolding cts_emit_def pad by (simp add: assms(2) cbc w msg del: diff_is_0_eq)
  next
    case False
    then have "2 \<le> ?n" using n cts_blocks_ge2 [of "length p"] by (cases "p = []") (simp_all add: cts_blocks_def)
    then show ?thesis
      unfolding cts_emit_def pad using False swap_in_buffer [OF c _ assms(3)]
      by (simp only: assms(2) Option.bind.bind_lunit cbc w msg if_True if_False simp_thms not_False_eq_True)
  qed
qed

lemma cts_encode_result:
  assumes "length assembly = N2N_PKT_BUF_SIZE"
    and "in_len \<le> length inbuf" and "in_len + 32 \<le> out_len" and "out_len \<le> length outbuf" and "out_len \<le> N2N_PKT_BUF_SIZE"
  shows "\<exists>rn'. cts_encode (cbc_encrypt ctx) assembly outbuf out_len inbuf in_len rn = Some (int (in_len + 16),
    overlay outbuf 0 (cts_message (enc ctx) (rand_iv rn) (take in_len inbuf)), rn')"
proof -
  obtain r1 rn1 r2 rn2 where r: "n2n_rand rn = (r1, rn1)" "n2n_rand rn1 = (r2, rn2)" by fastforce
  let ?p = "take in_len inbuf" and ?q = "rand_iv rn @ take in_len inbuf" and ?n = "cts_blocks (16 + in_len)"
  let ?a = "overlay assembly 0 (?q @ replicate 16 0)"
  have p: "length ?p = in_len" and q: "length ?q = 16 + in_len" using assms by simp_all
  have n: "16 + in_len \<le> 16 * ?n" "16 * ?n < 16 + in_len + 16" by (rule cts_blocks_bounds; simp)+
  have asm: "overlay (overlay assembly 0 (rand_iv rn)) 16 ?p = overlay assembly 0 ?q"
    using overlay_append [of 0 "rand_iv rn" ?p assembly] assms by simp
  have zero: "wr (overlay assembly 0 ?q) (16 + in_len) (replicate 16 0) = Some ?a"
    using overlay_append [of 0 ?q "replicate 16 0" assembly] assms q by (simp add: wr_def)
  have "length ?a = N2N_PKT_BUF_SIZE" using assms q by simp
  then have plain: "rd ?a 0 (16 * ?n) = Some (cts_plain (rand_iv rn) ?p)"
    using n take_padded [of ?q "16 * ?n" assembly] q assms by (simp add: rd_def cts_plain_def Let_def)
  have "cts_encode (cbc_encrypt ctx) assembly outbuf out_len inbuf in_len rn =
      Option.bind (cts_emit (cbc_encrypt ctx) (16 + in_len) ?a outbuf) (\<lambda>out. Some (int (16 + in_len), out, rn2))"
    unfolding cts_encode_def cts_emit_def
    using assms by (simp add: r encode_iv [OF r] encode_buf_emit emit_def asm zero Let_def not_le cong: if_cong)
  then show ?thesis
    using cts_emit_result [of "rand_iv rn" ?a ?p outbuf ctx] plain n assms by (simp add: p ac_simps)
qed

text \<open>The receiver undoes the exchange of the last two blocks.\<close>

lemma cts_message_stolen:
  assumes "length iv = 16" and "length p mod 16 \<noteq> 0"
  obtains A c1 c2 m where "cts_cipher (enc ctx) (cts_plain iv p) = A @ c1 @ c2" "cts_message (enc ctx) iv p = A @ c2 @ c1"
    "length A = 16 * m" "length c1 = 16" "length c2 = 16" "16 + length p = 16 * (m + 1) + length p mod 16"
    "take (length p mod 16) c1 @ drop (length p mod 16) (dec ctx c2) = c1"
proof -
  let ?r = "length p mod 16" and ?P = "cts_plain iv p" and ?E = "enc ctx"
  define m where "m = length p div 16"
  have lp: "length p = 16 * m + ?r" by (simp add: m_def)
  have r: "0 < ?r" "?r < 16" using assms(2) by simp_all
  have n: "cts_blocks (16 + length p) = m + 2" and P: "length ?P = 16 * (m + 2)" "?P = (iv @ p) @ replicate (16 - ?r) 0"
    using cts_plain_stolen [OF assms(1) lp r] by simp_all
  obtain iv' where iv': "length iv' = 16" "cbc_enc ?E (m + 2) null_iv ?P = cbc_enc ?E m null_iv ?P @ cbc_enc ?E 2 iv' (drop (16 * m) ?P)"
    using cbc_enc_add [of null_iv m 2 ?P ctx] P(1) by auto
  let ?Q = "drop (16 * m) ?P"
  let ?c1 = "?E (map2 (XOR) iv' (take 16 ?Q))"
  let ?last = "drop (16 * m) p @ replicate (16 - ?r) 0"
  let ?c2 = "?E (map2 (XOR) ?c1 ?last)"
  have "drop 16 ?P = p @ replicate (16 - ?r) 0" using P(2) assms(1) by simp
  moreover have "drop 16 ?Q = drop (16 * m) (drop 16 ?P)" by (simp add: add.commute)
  ultimately have last: "take 16 (drop 16 ?Q) = ?last" "length ?last = 16"
    using lp r by simp_all
  have A: "length (cbc_enc ?E m null_iv ?P) = 16 * m"
  proof -
    have "length (cbc_enc ?E k v x) = 16 * k" if "length v = 16" "16 * k \<le> length x" for k v x
      using that by (induction k arbitrary: v x) (simp_all add: Let_def enc_length)
    then show ?thesis using P(1) by simp
  qed
  have c1: "length ?c1 = 16" using iv'(1) P(1) by (intro enc_length) simp
  have c2: "length ?c2 = 16" using c1 last(2) by (intro enc_length) simp
  have cipher: "cts_cipher (enc ctx) ?P = cbc_enc ?E m null_iv ?P @ ?c1 @ ?c2"
    using iv'(2) P(1) last(1) by (simp add: numeral_2_eq_2 Let_def)
  show thesis
  proof
    show "cts_cipher (enc ctx) ?P = cbc_enc ?E m null_iv ?P @ ?c1 @ ?c2" by (rule cipher)
    show "cts_message (enc ctx) iv p = cbc_enc ?E m null_iv ?P @ ?c2 @ ?c1"
      using assms(2) n A c1 c2 unfolding cts_message_def Let_def cipher swap_last_def by simp
    show "16 + length p = 16 * (m + 1) + ?r" by (simp add: m_def)
    show "take ?r ?c1 @ drop ?r (dec ctx ?c2) = ?c1"
      using r lp by (intro stolen_block [OF c1]) simp_all
  qed (simp_all add: A c1 c2)
qed

lemma cbc_decrypt_buffer:
  assumes "16 * n \<le> length i" and "16 * n \<le> length out" and "take (16 * n) i = cts_cipher (enc ctx) P" and "length P = 16 * n"
    and "shared \<longrightarrow> i = out"
  shows "(cbc_decrypt ctx shared (16 * n) (i, out)) = P @ drop (16 * n) out"
proof -
  have "cbc_dec (dec ctx) n null_iv i = P"
    using cbc_roundtrip [of null_iv P n ctx] cbc_dec_take [of "dec ctx" n null_iv i]
      assms(3,4) by simp
  then show ?thesis
    using assms cbc_decrypt [of n i out shared ctx] by simp
qed

lemma cts_decode_result:
  assumes "length assembly = N2N_PKT_BUF_SIZE" and "length iv = 16" and "length p + 32 \<le> N2N_PKT_BUF_SIZE"
    and "n = 16 + length p" and "take n inbuf' = take n (cts_message (enc ctx) iv p)" and "n \<le> length inbuf'"
    and "n \<le> length outbuf'"
  shows "cts_decode (ecb_decrypt ctx) (cbc_decrypt ctx) assembly outbuf' out_len' inbuf' n = Some (int (length p), overlay outbuf' 0 p)"
proof (cases "length p mod 16 = 0")
  case True
  let ?P = "cts_plain iv p"
  define k where "k = cts_blocks (16 + length p)"
  have k: "16 * k = n" using cts_blocks_exact [of "length p"] True assms(4) by (simp add: k_def)
  have P: "?P = iv @ p" "length ?P = 16 * k" using k assms(2,4) by (simp_all add: cts_plain_def k_def)
  have "take (16 * k) inbuf' = cts_cipher (enc ctx) ?P"
    using assms(2,5) k True P length_cts_message [OF assms(2), of ctx p] by (simp add: cts_message_def Let_def k_def)
  then have "(cbc_decrypt ctx False n (inbuf', assembly)) = (iv @ p) @ drop n assembly"
    using cbc_decrypt_buffer [of k inbuf' assembly ctx ?P False] assms k P by simp
  then show ?thesis
    using assms True by (simp add: cts_decode_def size_sub_le rd_def wr_def)
next
  case False
  let ?r = "length p mod 16" and ?P = "cts_plain iv p"
  obtain A c1 c2 m where t: "cts_cipher (enc ctx) ?P = A @ c1 @ c2" "cts_message (enc ctx) iv p = A @ c2 @ c1"
    "length A = 16 * m" "length c1 = 16" "length c2 = 16" "16 + length p = 16 * (m + 1) + ?r"
    "take ?r c1 @ drop ?r (dec ctx c2) = c1"
    using cts_message_stolen [OF assms(2) False] by metis
  have r: "0 < ?r" "?r < 16" using False by simp_all
  have n: "n = 16 * m + 16 + ?r" "n mod 16 = ?r" "(n div 16 - 1) * 16 = 16 * m" "n + 16 - ?r = 16 * (m + 2)"
    using t(6) assms(4) by simp_all
  have tn: "take n inbuf' = A @ c2 @ take ?r c1" using assms(5) t n(1) by simp
  have inb: "inbuf' = A @ c2 @ take ?r c1 @ drop n inbuf'"
    using append_take_drop_id [of n inbuf'] unfolding tn by simp
  have reads: "rd inbuf' 0 (16 * m) = Some A" "rd inbuf' (16 * m) 16 = Some c2" "rd inbuf' (n - ?r) ?r = Some (take ?r c1)"
  proof -
    show "rd inbuf' 0 (16 * m) = Some A" by (subst inb) (simp add: rd_def t)
    show "rd inbuf' (16 * m) 16 = Some c2" by (subst inb) (rule rd_at; simp add: t)
    show "rd inbuf' (n - ?r) ?r = Some (take ?r c1)"
      by (subst inb) (use rd_at [of "A @ c2" "n - ?r" "take ?r c1" ?r "drop n inbuf'"] r n(1) t in simp)
  qed
  have buf: "wr (ecb_decrypt ctx c2) 0 (take ?r c1) = Some c1"
    using t r by (simp add: ecb_decrypt dec_length wr_def overlay_def)
  let ?M = "take 16 (drop (16 * m) assembly)" and ?L = "take 16 (drop (16 * m + 16) assembly)" and ?D = "drop (16 * (m + 2)) assembly"
  have le: "16 * (m + 2) \<le> length assembly" using n assms(1,3,4) by simp
  have asm: "drop (16 * m) assembly = ?M @ ?L @ ?D"
    using append_take_drop_id [of 16 "drop (16 * m) assembly"] append_take_drop_id [of 16 "drop (16 * m + 16) assembly"]
    by (simp add: ac_simps)
  have writes: "wr assembly 0 A = Some (A @ ?M @ ?L @ ?D)"
      "wr (A @ ?M @ ?L @ ?D) (16 * m + 16) c2 = Some (A @ ?M @ c2 @ ?D)"
      "wr (A @ ?M @ c2 @ ?D) (16 * m) c1 = Some (A @ c1 @ c2 @ ?D)"
  proof -
    show "wr assembly 0 A = Some (A @ ?M @ ?L @ ?D)" unfolding asm [symmetric] using le t by (simp add: wr_def overlay_def)
    show "wr (A @ ?M @ ?L @ ?D) (16 * m + 16) c2 = Some (A @ ?M @ c2 @ ?D)"
      using wr_at [of "A @ ?M" "16 * m + 16" ?L c2 ?D] le t by simp
    show "wr (A @ ?M @ c2 @ ?D) (16 * m) c1 = Some (A @ c1 @ c2 @ ?D)"
      using wr_at [of A "16 * m" ?M c1 "c2 @ ?D"] le t by simp
  qed
  have P: "?P = iv @ p @ replicate (16 - ?r) 0" "length ?P = 16 * (m + 2)"
  proof -
    have "k = 16 * m + r'" if "16 + k = 16 * (m + 1) + r'" for k r' :: nat using that by simp
    from this [OF t(6)] have lp: "length p = 16 * m + ?r" .
    show "?P = iv @ p @ replicate (16 - ?r) 0" by (rule cts_plain_stolen(3) [OF assms(2) lp r])
    show "length ?P = 16 * (m + 2)" by (rule cts_plain_stolen(2) [OF assms(2) lp r])
  qed
  let ?B = "A @ c1 @ c2 @ ?D"
  have B: "length ?B = N2N_PKT_BUF_SIZE" using le t assms(1) by simp
  have cbc: "(cbc_decrypt ctx True (16 * (m + 2)) (?B, ?B)) = ?P @ ?D"
    using cbc_decrypt_buffer [of "m + 2" ?B ?B ctx ?P True] t P(2) le B assms(1) by simp
  have z: "rd (?P @ ?D) n (16 - ?r) = Some (take (16 - ?r) null_iv)"
    using rd_at [of "iv @ p" n "replicate (16 - ?r) 0" "16 - ?r" ?D] P(1) assms(2,4) r by (simp add: null_iv_def min_def)
  have res: "rd (?P @ ?D) 16 (length p) = Some p"
    using rd_at [of iv 16 p "length p" "replicate (16 - ?r) 0 @ ?D"] P(1) assms(2) by simp
  have whole: "rd ?B 0 (16 * (m + 2)) = Some (take (16 * (m + 2)) ?B)" using B le assms(1) by (simp add: rd_def)
  have guard: "size_sub n 16 \<le> N2N_PKT_BUF_SIZE \<and> n \<ge> 16 \<and> n \<ge> 16" using assms(3,4) by (simp add: size_sub_le)
  have out: "wr outbuf' 0 p = Some (overlay outbuf' 0 p)" using assms(4,7) by (simp add: wr_def)
  show ?thesis
    unfolding cts_decode_def Let_def n(2,3,4)
    using guard r by (simp only: reads writes buf cbc z whole Option.bind.bind_lunit if_True if_False False not_False_eq_True
        simp_thms option.case) (use res out in \<open>simp add: assms(4)\<close>)
qed

lemma cts_transop: "transop (cts_encode (cbc_encrypt ctx) (take 4096 a @ replicate (4096 - length a) 0))
    (cts_decode (ecb_decrypt ctx) (cbc_decrypt ctx) (take 4096 b @ replicate (4096 - length b) 0)) 32"
proof
  have stack: "length (take 4096 x @ replicate (4096 - length x) 0) = N2N_PKT_BUF_SIZE" for x :: bytes by simp
  show "\<exists>n out rn'. cts_encode (cbc_encrypt ctx) (take 4096 a @ replicate (4096 - length a) 0) outbuf out_len inbuf in_len rn
      = Some (int n, out, rn') \<and> n \<le> in_len + 32 \<and> length out = length outbuf"
    if "in_len \<le> length inbuf" "in_len + 32 \<le> out_len" "out_len \<le> length outbuf" "out_len \<le> N2N_PKT_BUF_SIZE"
    for in_len inbuf out_len outbuf rn
    using cts_encode_result [OF stack that, of ctx a rn] cts_blocks_bounds(2) [of "16 + in_len"] that
    by (auto simp: length_cts_message intro!: exI [of _ "in_len + 16"])
  show "\<exists>out'. cts_decode (ecb_decrypt ctx) (cbc_decrypt ctx) (take 4096 b @ replicate (4096 - length b) 0) outbuf' out_len' inbuf' n
      = Some (int in_len, out') \<and> take in_len out' = take in_len inbuf"
    if "in_len \<le> length inbuf" "in_len + 32 \<le> out_len" "out_len \<le> length outbuf" "out_len \<le> N2N_PKT_BUF_SIZE"
      "cts_encode (cbc_encrypt ctx) (take 4096 a @ replicate (4096 - length a) 0) outbuf out_len inbuf in_len rn = Some (int n, out, rn')"
      "take n inbuf' = take n out" "n + 16 \<le> length inbuf'" "n \<le> out_len'" "n \<le> length outbuf'"
    for in_len inbuf out_len outbuf rn n out rn' inbuf' out_len' outbuf'
  proof -
    let ?p = "take in_len inbuf"
    have n: "n = 16 + length ?p" "out = overlay outbuf 0 (cts_message (enc ctx) (rand_iv rn) ?p)"
      using cts_encode_result [OF stack that(1-4), of ctx a rn] that(1,5) by auto
    have "n \<le> 16 * cts_blocks (16 + length ?p)" using cts_blocks_bounds(1) [of "16 + length ?p"] n(1) by simp
    then have "take n out = take n (cts_message (enc ctx) (rand_iv rn) ?p)"
      by (simp add: n(2) overlay_def length_cts_message)
    then show ?thesis
      using cts_decode_result [OF stack length_rand_iv, of ?p n inbuf' ctx rn outbuf' b out_len'] n(1) that
      by (simp add: overlay_def)
  qed
qed

end

subsection \<open>Twofish with cipher text stealing\<close>

lemma tf_null_iv_eq: "tf_null_iv = null_iv"
  by (simp add: tf_null_iv_def null_iv_def)

interpretation tf_cts: cts twofish_internal_encrypt twofish_internal_decrypt "\<lambda>ctx p. snd (tf_cbc_encrypt ctx tf_null_iv p)"
    "\<lambda>ctx b. snd (tf_ecb_decrypt ctx b)" "\<lambda>ctx shared n m. snd (snd (tf_cbc_decrypt ctx shared n tf_null_iv m))"
proof
  show "snd (tf_cbc_encrypt ctx tf_null_iv p) = cbc_enc (twofish_internal_encrypt ctx) n null_iv p" if "length p = 16 * n" for p n ctx
    using that by (simp add: tf_null_iv_eq tf_cbc_encrypt_def tf_cbc_encrypt_loop_spec Let_def)
  show "snd (snd (tf_cbc_decrypt ctx shared (16 * n) tf_null_iv (i, out))) = cbc_dec (twofish_internal_decrypt ctx) n null_iv i @ drop (16 * n) out"
    if "16 * n \<le> length i" "16 * n \<le> length out" for n i out ctx shared
    using that tf_cbc_decrypt_loop_spec [of 0 n i out null_iv ctx shared] by (simp add: tf_null_iv_eq tf_cbc_decrypt_def overlay_def length_cbc_dec)
qed (simp add: tf_ecb_decrypt_def)

lemma tf_coders:
  "transop_encode_tf ctx = cts_encode (\<lambda>p. snd (tf_cbc_encrypt ctx tf_null_iv p))"
  "transop_decode_tf ctx = cts_decode (\<lambda>b. snd (tf_ecb_decrypt ctx b)) (\<lambda>shared n m. snd (snd (tf_cbc_decrypt ctx shared n tf_null_iv m)))"
  by (intro ext; simp only: transop_encode_tf_def transop_decode_tf_def cts_encode_def cts_decode_def tf_null_iv_eq)+

interpretation tf_op: transop "transop_encode_tf ctx (take 4096 a @ replicate (4096 - length a) 0)"
    "transop_decode_tf ctx (take 4096 b @ replicate (4096 - length b) 0)" 32 for ctx a b
  unfolding tf_coders by (rule tf_cts.cts_transop)

subsection \<open>Properties\<close>

text \<open>
  C7. A payload encoded with any of the transforms, null, Speck, ChaCha20 and Twofish, is recovered by the
  receiver's decoder from the bytes that were sent, whatever stands in the buffers before, whatever follows the packet in
  the receiver's buffer (of which there are at least sixteen bytes), for all keys and states of the random number generator.
\<close>

theorem transop_roundtrip:
  assumes "in_len \<le> length inbuf" and "in_len + 32 \<le> out_len" and "out_len \<le> length outbuf"
    and "out_len \<le> N2N_PKT_BUF_SIZE" and "in_len + 32 \<le> out_len'" and "in_len + 32 \<le> length outbuf'" and "16 \<le> length slack"
    and "length assembly = N2N_PKT_BUF_SIZE" and "length assembly' = N2N_PKT_BUF_SIZE"
    and "(fwd, rev_op) \<in> {(transop_encode_null, transop_decode_null), (transop_encode_speck ctx, transop_decode_speck ctx),
      (transop_encode_cc20 cctx, transop_decode_cc20 cctx), (transop_encode_tf tctx assembly, transop_decode_tf tctx assembly')}"
  shows "\<exists>n out rn' out'. fwd outbuf out_len inbuf in_len rn = Some (int n, out, rn')
    \<and> rev_op outbuf' out_len' (take n out @ slack) n = Some (int in_len, out') \<and> take in_len out' = take in_len inbuf"
proof -
  have le: "in_len + 16 \<le> out_len" "in_len + 0 \<le> out_len" "in_len + 16 \<le> out_len'" "in_len + 0 \<le> out_len'"
    "in_len + 16 \<le> length outbuf'" "in_len + 0 \<le> length outbuf'" using assms(2,5,6) by simp_all
  note tf = tf_op.transport [OF assms(1-7), of tctx assembly rn assembly']
  note st = speck_op.transport [OF assms(1) le(1) assms(3,4) le(3,5) assms(7), of ctx rn]
    cc20_op.transport [OF assms(1) le(1) assms(3,4) le(3,5) assms(7), of cctx rn]
    null_op.transport [OF assms(1) le(2) assms(3,4) le(4,6) assms(7), of rn]
  show ?thesis using assms(8-10) tf st by auto
qed

theorem transop_roundtrip_witness:
  "\<exists>n out rn' out'. transop_encode_tf (setup_tf_key [1, 2, 3]) (replicate 4096 9) (replicate 200 7) 100 (replicate 21 5) 21 rn_default_state = Some (int n, out, rn')
    \<and> transop_decode_tf (setup_tf_key [1, 2, 3]) (replicate 4096 8) (replicate 60 6) 60 (take n out @ replicate 16 4) n = Some (int 21, out')
    \<and> take 21 out' = take 21 (replicate 21 5)"
  by (rule transop_roundtrip [where assembly = "replicate 4096 9" and assembly' = "replicate 4096 8" and tctx = "setup_tf_key [1, 2, 3]"]) simp_all

text \<open>
  The ChaCha20 decoder passes the length of the whole input to the cipher, which then reads sixteen
  bytes behind the payload: for every packet of acceptable length that fills its input buffer it accesses memory outside of
  that buffer, and likewise for every output buffer that holds exactly the decoded data.
\<close>

theorem cc20_decode_overrun:
  assumes "16 \<le> length inbuf" and "length inbuf \<le> N2N_PKT_BUF_SIZE + 16"
  shows "transop_decode_cc20 ctx outbuf out_len inbuf (length inbuf) = None
    \<and> transop_decode_cc20 ctx (replicate (length inbuf - 16) 0) out_len (inbuf @ slack) (length inbuf) = None"
  using assms by (auto simp: transop_decode_cc20_def size_sub_le rd_def wr_def cc20.length_crypt)

theorem cc20_decode_overrun_witness:
  "transop_decode_cc20 (setup_cc20_key [1]) (replicate 100 0) 100 (replicate 40 3) (length (replicate 40 (3 :: byte))) = None"
  by (rule cc20_decode_overrun [THEN conjunct1]) simp_all

text \<open>
  The guard of the Twofish decoder admits packets that are longer than its assembly buffer of 4096 bytes: a
  packet of 4097 to 4112 bytes is copied past the end of that buffer.
\<close>

theorem tf_decode_overflow:
  assumes "N2N_PKT_BUF_SIZE < in_len" and "in_len \<le> N2N_PKT_BUF_SIZE + 16" and "length assembly = N2N_PKT_BUF_SIZE"
  shows "transop_decode_tf ctx assembly outbuf out_len inbuf in_len = None"
proof (cases "in_len mod 16 = 0")
  case True
  then show ?thesis using assms by (auto simp: transop_decode_tf_def size_sub_le rd_def)
next
  case False
  define r where "r = in_len - 4096"
  have r: "in_len = 4096 + r" "r \<le> 16" using assms by (simp_all add: r_def)
  have m: "in_len mod 16 = r mod 16" using r(1) mod_mult_self3 [of 256 16 r] by simp
  then have "r < 16" using r(2) False by (cases "r = 16") simp_all
  then have n: "in_len div 16 = 256" "in_len mod 16 = r" "r \<noteq> 0"
    using r m False div_nat_eqI [of 16 256 in_len] by (simp_all split: if_splits)
  have w: "wr assembly 0 p = Some (overlay assembly 0 p)" "wr (overlay assembly 0 p) 4096 pen = None"
    if "rd inbuf 0 4080 = Some p" "rd inbuf 4080 16 = Some pen" for p pen
    using that [THEN rd_length] assms(3) by (simp_all add: wr_def)
  show ?thesis
    using assms n by (cases "rd inbuf 0 4080"; cases "rd inbuf 4080 16") (simp_all add: transop_decode_tf_def size_sub_le w)
qed

theorem tf_decode_overflow_witness:
  "transop_decode_tf (setup_tf_key [1]) (replicate 4096 0) (replicate 4096 0) 4096 (replicate 4100 0) 4100 = None"
  by (rule tf_decode_overflow) simp_all

end
