(* ===== verification/Tables.thy ===== *)
theory Tables
  imports Prelude "HOL-Library.Multiset"
begin

text \<open>
  The hash tables of \<^verbatim>\<open>include/uthash.h\<close>, as the program uses them: a table is the list of its entries in the order
  of the application, in which \<open>HASH_ITER\<close> walks, to which \<open>HASH_ADD\<close> appends and which \<open>HASH_SORT\<close> sorts. A pointer to an entry is its
  index. The buckets only speed up \<open>HASH_FIND\<close>; which one of several entries with the key it returns is not
  relied on, because the tables keep their keys distinct.
\<close>

subsection \<open>Finding, adding, deleting\<close>

primrec find_index :: "('e \<Rightarrow> bool) \<Rightarrow> 'e list \<Rightarrow> nat option" where
  "find_index P [] = None"
| "find_index P (e # l) = (if P e then Some 0 else map_option Suc (find_index P l))"

definition HASH_FIND :: "('e \<Rightarrow> 'k) \<Rightarrow> 'k \<Rightarrow> 'e list \<Rightarrow> nat option" where
  "HASH_FIND key k l = find_index (\<lambda>e. key e = k) l"

definition HASH_ADD :: "'e \<Rightarrow> 'e list \<Rightarrow> 'e list" where
  "HASH_ADD e l = l @ [e]"

definition HASH_DEL :: "nat \<Rightarrow> 'e list \<Rightarrow> 'e list" where
  "HASH_DEL i l = take i l @ drop (Suc i) l"

lemma find_index_Some: "find_index P l = Some i \<Longrightarrow> i < length l \<and> P (l ! i) \<and> (\<forall>j < i. \<not> P (l ! j))"
proof (induction l arbitrary: i)
  case (Cons e l)
  then show ?case by (auto simp: less_Suc_eq_0_disj nth_Cons' split: if_splits)
qed simp

lemma find_index_None: "find_index P l = None \<longleftrightarrow> (\<forall>e \<in> set l. \<not> P e)"
  by (induction l) auto

lemma find_index_append:
  "find_index P (l @ m) = (case find_index P l of Some i \<Rightarrow> Some i | None \<Rightarrow> map_option (\<lambda>i. i + length l) (find_index P m))"
  by (induction l) (auto simp: option.map_comp o_def option.map_ident split: option.splits)

lemma length_HASH_DEL [simp]: "i < length l \<Longrightarrow> length (HASH_DEL i l) = length l - 1"
  by (simp add: HASH_DEL_def)

lemma set_HASH_DEL_subset: "set (HASH_DEL i l) \<subseteq> set l"
  by (auto simp: HASH_DEL_def dest: in_set_takeD in_set_dropD)

lemma split_at: "i < length l \<Longrightarrow> l = take i l @ l ! i # drop (Suc i) l"
  by (rule id_take_nth_drop)

text \<open>
  What the clients of a table rely on: a lookup finds an entry with the key exactly if there is one, a new entry is found under
  its key, a deleted one is not, and keys stay distinct.
\<close>

locale table =
  fixes key :: "'e \<Rightarrow> 'k"
    and hfind :: "'k \<Rightarrow> 'e list \<Rightarrow> nat option"
    and hadd :: "'e \<Rightarrow> 'e list \<Rightarrow> 'e list"
    and hdel :: "nat \<Rightarrow> 'e list \<Rightarrow> 'e list"
  assumes hfind_Some: "hfind k l = Some i \<Longrightarrow> i < length l \<and> key (l ! i) = k"
    and hfind_None: "hfind k l = None \<longleftrightarrow> k \<notin> key ` set l"
    and set_hadd: "set (hadd e l) = insert e (set l)"
    and distinct_hadd: "distinct (map key l) \<Longrightarrow> key e \<notin> key ` set l \<Longrightarrow> distinct (map key (hadd e l))"
    and set_hdel: "distinct (map key l) \<Longrightarrow> i < length l \<Longrightarrow> set (hdel i l) = set l - {l ! i}"
    and distinct_hdel: "distinct (map key l) \<Longrightarrow> i < length l \<Longrightarrow> distinct (map key (hdel i l))"
begin

text \<open>The entry that a lookup yields, if any.\<close>

definition entry :: "'k \<Rightarrow> 'e list \<Rightarrow> 'e option" where
  "entry k l = map_option (\<lambda>i. l ! i) (hfind k l)"

lemma entry_None: "entry k l = None \<longleftrightarrow> k \<notin> key ` set l"
  by (simp add: entry_def hfind_None)

lemma entry_Some:
  assumes "distinct (map key l)"
  shows "entry k l = Some e \<longleftrightarrow> e \<in> set l \<and> key e = k"
proof
  assume "entry k l = Some e"
  then obtain i where i: "hfind k l = Some i" "e = l ! i" by (auto simp: entry_def)
  then show "e \<in> set l \<and> key e = k" using hfind_Some [OF i(1)] by auto
next
  assume e: "e \<in> set l \<and> key e = k"
  then have "hfind k l \<noteq> None" by (auto simp: hfind_None)
  then obtain i where i: "hfind k l = Some i" by auto
  then have "l ! i \<in> set l" "key (l ! i) = k" using hfind_Some [OF i] by auto
  then have "l ! i = e" using e assms by (auto simp: distinct_map inj_on_def)
  then show "entry k l = Some e" using i by (simp add: entry_def)
qed

lemma entry_hadd:
  assumes "distinct (map key l)" and "key e \<notin> key ` set l"
  shows "entry k (hadd e l) = (if k = key e then Some e else entry k l)"
proof -
  have d: "distinct (map key (hadd e l))" by (rule distinct_hadd [OF assms])
  have "entry k (hadd e l) = Some e' \<longleftrightarrow> (if k = key e then e' = e else entry k l = Some e')" for e'
    using assms(2) unfolding entry_Some [OF d] entry_Some [OF assms(1)] by (auto simp: set_hadd image_iff)
  then show ?thesis by (metis option.exhaust)
qed

lemma entry_hdel:
  assumes "distinct (map key l)" and "i < length l"
  shows "entry k (hdel i l) = (if k = key (l ! i) then None else entry k l)"
proof -
  have d: "distinct (map key (hdel i l))" by (rule distinct_hdel [OF assms])
  have inj: "e = l ! i" if "e \<in> set l" "key e = key (l ! i)" for e
    using that assms nth_mem [OF assms(2)] by (auto simp: distinct_map inj_on_def)
  show ?thesis
  proof (cases "k = key (l ! i)")
    case True
    then show ?thesis using inj by (auto simp: entry_None set_hdel [OF assms])
  next
    case False
    then have "entry k (hdel i l) = Some e \<longleftrightarrow> entry k l = Some e" for e
      unfolding entry_Some [OF d] entry_Some [OF assms(1)] by (auto simp: set_hdel [OF assms])
    then show ?thesis using False by (metis option.exhaust)
  qed
qed

text \<open>An entry that gets a new key is deleted and added again.\<close>

lemma rekey_distinct:
  assumes "distinct (map key l)" and "i < length l" and "key e \<notin> key ` set l"
  shows "distinct (map key (hadd e (hdel i l)))"
  by (rule distinct_hadd [OF distinct_hdel [OF assms(1,2)]]) (use assms set_hdel [OF assms(1,2)] in auto)

end

lemma map_HASH_DEL: "map f (HASH_DEL i l) = HASH_DEL i (map f l)"
  by (simp add: HASH_DEL_def take_map drop_map)

lemma distinct_HASH_DEL: "distinct l \<Longrightarrow> distinct (HASH_DEL i l)"
  by (auto simp: HASH_DEL_def set_take_disj_set_drop_if_distinct dest: in_set_takeD)

lemma set_HASH_DEL:
  assumes "distinct l" and "i < length l"
  shows "set (HASH_DEL i l) = set l - {l ! i}"
proof -
  have "set l = insert (l ! i) (set (HASH_DEL i l))"
    by (subst split_at [OF assms(2)]) (simp add: HASH_DEL_def)
  moreover have "l ! i \<notin> set (HASH_DEL i l)"
    using assms by (subst (asm) split_at [OF assms(2)]) (simp add: HASH_DEL_def)
  ultimately show ?thesis by auto
qed

interpretation hash: table key "HASH_FIND key" HASH_ADD HASH_DEL for key :: "'e \<Rightarrow> 'k"
proof
  fix k :: 'k and l :: "'e list" and e :: 'e and i
  show "HASH_FIND key k l = Some i \<Longrightarrow> i < length l \<and> key (l ! i) = k"
    unfolding HASH_FIND_def by (drule find_index_Some) simp
  show "HASH_FIND key k l = None \<longleftrightarrow> k \<notin> key ` set l"
    by (auto simp: HASH_FIND_def find_index_None)
  show "set (HASH_ADD e l) = insert e (set l)" by (simp add: HASH_ADD_def)
  show "distinct (map key l) \<Longrightarrow> key e \<notin> key ` set l \<Longrightarrow> distinct (map key (HASH_ADD e l))"
    by (simp add: HASH_ADD_def)
  show "distinct (map key (HASH_DEL i l))" if "distinct (map key l)"
    using that by (simp add: map_HASH_DEL distinct_HASH_DEL)
  show "set (HASH_DEL i l) = set l - {l ! i}" if "distinct (map key l)" "i < length l"
    using that by (simp add: set_HASH_DEL distinct_map)
qed

subsection \<open>Sorting\<close>

text \<open>
  \<open>HASH_SRT\<close>: passes that merge adjacent runs of \<open>insize\<close> entries, with the size doubled until one merge covers
  the list. An entry of the first run goes first unless the comparison is positive.
\<close>

fun hs_merge :: "('e \<Rightarrow> 'e \<Rightarrow> int) \<Rightarrow> 'e list \<Rightarrow> 'e list \<Rightarrow> 'e list" where
  "hs_merge cmp [] qs = qs"
| "hs_merge cmp ps [] = ps"
| "hs_merge cmp (p # ps) (q # qs) =
     (if cmp p q \<le> 0 then p # hs_merge cmp ps (q # qs) else q # hs_merge cmp (p # ps) qs)"

function hs_pass :: "('e \<Rightarrow> 'e \<Rightarrow> int) \<Rightarrow> nat \<Rightarrow> 'e list \<Rightarrow> nat \<times> 'e list" where
  "hs_pass cmp insize l =
     (if l = [] \<or> insize = 0 then (0, l)
      else let (nmerges, rest) = hs_pass cmp insize (drop insize (drop insize l))
           in (Suc nmerges, hs_merge cmp (take insize l) (take insize (drop insize l)) @ rest))"
  by pat_completeness auto
termination by (relation "measure (\<lambda>(_, _, l). length l)") auto

declare hs_pass.simps [simp del]

lemma hs_pass_nmerges: "0 < n \<Longrightarrow> length l \<le> n \<Longrightarrow> fst (hs_pass cmp n l) \<le> 1"
  by (subst hs_pass.simps) (simp add: hs_pass.simps [of cmp n "[]"])

lemma length_hs_merge: "length (hs_merge cmp ps qs) = length ps + length qs"
  by (induction cmp ps qs rule: hs_merge.induct) auto

lemma length_hs_pass: "length (snd (hs_pass cmp n l)) = length l"
proof (induction cmp n l rule: hs_pass.induct)
  case (1 cmp n l)
  then show ?case
    by (subst hs_pass.simps) (auto simp: length_hs_merge min_def split: prod.splits)
qed

function hs_loop :: "('e \<Rightarrow> 'e \<Rightarrow> int) \<Rightarrow> nat \<Rightarrow> 'e list \<Rightarrow> 'e list" where
  "hs_loop cmp insize l =
     (let (nmerges, l') = hs_pass cmp insize l in if nmerges \<le> 1 \<or> insize = 0 then l' else hs_loop cmp (insize * 2) l')"
  by pat_completeness auto
termination
proof (relation "measure (\<lambda>(cmp, n, l). length l - n)")
  fix cmp :: "'e \<Rightarrow> 'e \<Rightarrow> int" and n l x nmerges l'
  assume x: "x = hs_pass cmp n l" "(nmerges, l') = x" "\<not> (nmerges \<le> 1 \<or> n = 0)"
  then have "nmerges = fst (hs_pass cmp n l)" "length l' = length l" by (metis fst_conv, metis length_hs_pass snd_conv)
  then have "n < length l" using hs_pass_nmerges [of n l cmp] x(3) by fastforce
  then show "((cmp, n * 2, l'), (cmp, n, l)) \<in> measure (\<lambda>(cmp, n, l). length l - n)"
    using x(3) \<open>length l' = length l\<close> by (simp add: diff_less_mono2)
qed simp

declare hs_loop.simps [simp del]

definition HASH_SORT :: "('e \<Rightarrow> 'e \<Rightarrow> int) \<Rightarrow> 'e list \<Rightarrow> 'e list" where
  "HASH_SORT cmp l = hs_loop cmp 1 l"

text \<open>With a comparison that orders by a key, the result is the stable sort by that key.\<close>

lemma mset_hs_merge: "mset (hs_merge cmp ps qs) = mset ps + mset qs"
  by (induction cmp ps qs rule: hs_merge.induct) auto

lemma set_hs_merge: "set (hs_merge cmp ps qs) = set ps \<union> set qs"
  by (induction cmp ps qs rule: hs_merge.induct) auto

lemma hs_merge_Nil2 [simp]: "hs_merge cmp ps [] = ps"
  by (cases ps) auto

locale comparison =
  fixes cmp :: "'e \<Rightarrow> 'e \<Rightarrow> int" and rank :: "'e \<Rightarrow> int"
  assumes cmp_rank: "cmp x y \<le> 0 \<longleftrightarrow> rank x \<le> rank y"
begin

lemma sorted_merge:
  "sorted (map rank ps) \<Longrightarrow> sorted (map rank qs) \<Longrightarrow> sorted (map rank (hs_merge cmp ps qs))"
proof (induction ps arbitrary: qs)
  case (Cons p ps)
  from Cons.prems(2) show ?case
  proof (induction qs)
    case (Cons q qs)
    then show ?case
      using Cons.prems \<open>sorted (map rank (p # ps))\<close> Cons.IH \<open>\<And>qs. sorted (map rank ps) \<Longrightarrow> sorted (map rank qs) \<Longrightarrow>
        sorted (map rank (hs_merge cmp ps qs))\<close> [of "q # qs"]
      by (auto simp: cmp_rank set_hs_merge)
  qed (use Cons.prems in simp)
qed simp

lemma stable_merge:
  "sorted (map rank ps) \<Longrightarrow> filter (\<lambda>x. rank x = k) (hs_merge cmp ps qs) =
     filter (\<lambda>x. rank x = k) ps @ filter (\<lambda>x. rank x = k) qs"
proof (induction ps arbitrary: qs)
  case (Cons p ps)
  note IH = Cons.IH and sorted = Cons.prems
  show ?case
  proof (induction qs)
    case (Cons q qs)
    show ?case
    proof (cases "cmp p q \<le> 0")
      case True
      then show ?thesis using IH [of "q # qs"] sorted by simp
    next
      case False
      then have "filter (\<lambda>x. rank x = k) (p # ps) = []" if "rank q = k"
        using that sorted by (auto simp: cmp_rank filter_empty_conv)
      then show ?thesis using False Cons.IH by auto
    qed
  qed simp
qed simp

definition runs :: "nat \<Rightarrow> 'e list \<Rightarrow> bool" where
  "runs n l \<longleftrightarrow> (\<forall>k. sorted (map rank (take n (drop (k * n) l))))"

lemma runs_sorted: "sorted (map rank l) \<Longrightarrow> runs n l"
  by (simp add: runs_def take_map [symmetric] drop_map [symmetric] sorted_wrt_take sorted_wrt_drop)

lemma runs_append: "length p = n \<Longrightarrow> sorted (map rank p) \<Longrightarrow> runs n r \<Longrightarrow> runs n (p @ r)"
  unfolding runs_def
proof
  fix k assume "length p = n" "sorted (map rank p)" "\<forall>k. sorted (map rank (take n (drop (k * n) r)))"
  then show "sorted (map rank (take n (drop (k * n) (p @ r))))" by (cases k) simp_all
qed

lemma runs_drop: "runs n l \<Longrightarrow> runs n (drop n l)"
  unfolding runs_def by (metis add.commute drop_drop mult_Suc)

lemma runs_take: "runs n l \<Longrightarrow> sorted (map rank (take n l))"
  unfolding runs_def by (metis drop_0 mult_0)

lemma pass_correct:
  assumes "0 < n" and "runs n l"
  shows "runs (n * 2) (snd (hs_pass cmp n l)) \<and> mset (snd (hs_pass cmp n l)) = mset l
    \<and> filter (\<lambda>x. rank x = k) (snd (hs_pass cmp n l)) = filter (\<lambda>x. rank x = k) l
    \<and> (fst (hs_pass cmp n l) \<le> 1 \<longrightarrow> sorted (map rank (snd (hs_pass cmp n l))))"
  using assms(2)
proof (induction l rule: length_induct)
  case (1 l)
  show ?case
  proof (cases "l = []")
    case True
    then show ?thesis by (simp add: hs_pass.simps [of cmp n "[]"] runs_def)
  next
    case False
    let ?p = "take n l" and ?q = "take n (drop n l)" and ?r = "drop n (drop n l)"
    let ?m = "hs_merge cmp ?p ?q"
    obtain c rest where rest: "hs_pass cmp n ?r = (c, rest)" by fastforce
    have step: "hs_pass cmp n l = (Suc c, ?m @ rest)"
      using False assms(1) by (subst hs_pass.simps) (simp add: rest del: drop_drop)
    have sp: "sorted (map rank ?p)" "sorted (map rank ?q)" using runs_take [OF "1.prems"] runs_take [OF runs_drop [OF "1.prems"]] .
    have sm: "sorted (map rank ?m)" by (rule sorted_merge [OF sp])
    have "length ?r < length l" using False assms(1) by simp
    then have IH: "runs (n * 2) rest" "mset rest = mset ?r" "filter (\<lambda>x. rank x = k) rest = filter (\<lambda>x. rank x = k) ?r"
        "c \<le> 1 \<longrightarrow> sorted (map rank rest)"
      using "1.IH" runs_drop [OF runs_drop [OF "1.prems"]] rest by (metis fst_conv snd_conv)+
    have l: "l = ?p @ ?q @ ?r" by (simp del: drop_drop)
    have "runs (n * 2) (?m @ rest)"
    proof (cases "?r = []")
      case True
      then show ?thesis using runs_sorted [OF sm] rest by (simp add: hs_pass.simps [of cmp n "[]"])
    next
      case False
      then have "length ?m = n * 2" by (simp add: length_hs_merge)
      then show ?thesis by (rule runs_append [OF _ sm IH(1)])
    qed
    moreover have "mset (?m @ rest) = mset l" by (subst (2) l) (simp add: mset_hs_merge IH(2) del: append_take_drop_id)
    moreover have "filter (\<lambda>x. rank x = k) (?m @ rest) = filter (\<lambda>x. rank x = k) l"
      by (subst (2) l) (simp add: stable_merge [OF sp(1)] IH(3) del: append_take_drop_id)
    moreover have "Suc c \<le> 1 \<longrightarrow> sorted (map rank (?m @ rest))"
    proof
      assume "Suc c \<le> 1"
      then have "?r = []" using rest assms(1) hs_pass.simps [of cmp n ?r] by (cases "?r = []") (auto split: prod.splits)
      then show "sorted (map rank (?m @ rest))" using rest sm by (simp add: hs_pass.simps [of cmp n "[]"])
    qed
    ultimately show ?thesis by (simp add: step)
  qed
qed

lemma loop_correct:
  assumes "0 < n" and "runs n l"
  shows "mset (hs_loop cmp n l) = mset l \<and> filter (\<lambda>x. rank x = k) (hs_loop cmp n l) = filter (\<lambda>x. rank x = k) l
    \<and> sorted (map rank (hs_loop cmp n l))"
  using assms
proof (induction "length l - n" arbitrary: n l rule: less_induct)
  case less
  obtain c l' where pass: "hs_pass cmp n l = (c, l')" by fastforce
  note P = pass_correct [OF less.prems, unfolded pass, simplified]
  show ?case
  proof (cases "c \<le> 1")
    case True
    then show ?thesis using P by (subst (1 2 3) hs_loop.simps) (simp add: pass)
  next
    case False
    have "length l' = length l" using length_hs_pass [of cmp n l] pass by simp
    moreover have "n < length l" using False hs_pass_nmerges [of n l cmp] pass less.prems(1) by fastforce
    ultimately have "length l' - n * 2 < length l - n" using less.prems(1) by simp
    then show ?thesis
      using less.hyps [of l' "n * 2"] P False less.prems(1) by (subst (1 2 3) hs_loop.simps) (simp add: pass)
  qed
qed

lemma hash_sort_stable: "HASH_SORT cmp l = sort_key rank l"
proof -
  have "sorted (map rank (take 1 m))" for m by (cases m) simp_all
  then have "runs 1 l" unfolding runs_def by blast
  note L = loop_correct [OF zero_less_one this]
  show ?thesis unfolding HASH_SORT_def
  proof (rule properties_for_sort_key [symmetric])
    show "mset (hs_loop cmp 1 l) = mset l" using L by blast
    show "filter (\<lambda>x. rank k = rank x) (hs_loop cmp 1 l) = filter (\<lambda>x. rank k = rank x) l" for k
      using L [of "rank k"] by (simp add: eq_commute)
    show "sorted (map rank (hs_loop cmp 1 l))" using L by blast
  qed
qed

end

interpretation by_rank: comparison "\<lambda>x y. rank x - rank y" rank for rank :: "'e \<Rightarrow> int"
  by unfold_locales simp

text \<open>A comparison matters only where it is positive, and only on the entries of the table.\<close>

lemma hs_merge_cong:
  "(\<And>x y. x \<in> set ps \<Longrightarrow> y \<in> set qs \<Longrightarrow> cmp x y \<le> 0 \<longleftrightarrow> cmp' x y \<le> 0) \<Longrightarrow> hs_merge cmp ps qs = hs_merge cmp' ps qs"
  by (induction cmp ps qs rule: hs_merge.induct) auto

lemma hs_pass_cong:
  "(\<And>x y. x \<in> set l \<Longrightarrow> y \<in> set l \<Longrightarrow> cmp x y \<le> 0 \<longleftrightarrow> cmp' x y \<le> 0) \<Longrightarrow> hs_pass cmp n l = hs_pass cmp' n l"
proof (induction cmp n l rule: hs_pass.induct)
  case (1 cmp n l)
  have "hs_merge cmp (take n l) (take n (drop n l)) = hs_merge cmp' (take n l) (take n (drop n l))"
    using "1.prems" by (intro hs_merge_cong) (meson in_set_dropD in_set_takeD)
  moreover have "hs_pass cmp n (drop n (drop n l)) = hs_pass cmp' n (drop n (drop n l))" if "\<not> (l = [] \<or> n = 0)"
    using "1.IH" [OF that] "1.prems" by (meson in_set_dropD)
  ultimately show ?case by (subst (1 2) hs_pass.simps) auto
qed

lemma set_hs_pass: "set (snd (hs_pass cmp n l)) = set l"
proof (induction cmp n l rule: hs_pass.induct)
  case (1 cmp n l)
  have "set (take n l) \<union> set (take n (drop n l)) \<union> set (drop n (drop n l)) = set l"
    by (metis append_take_drop_id set_append sup.assoc)
  then show ?case using "1.IH" by (subst hs_pass.simps) (auto simp: set_hs_merge split: prod.splits)
qed

lemma hs_loop_cong:
  "(\<And>x y. x \<in> set l \<Longrightarrow> y \<in> set l \<Longrightarrow> cmp x y \<le> 0 \<longleftrightarrow> cmp' x y \<le> 0) \<Longrightarrow> hs_loop cmp n l = hs_loop cmp' n l"
proof (induction cmp n l rule: hs_loop.induct)
  case (1 cmp n l)
  have p: "hs_pass cmp n l = hs_pass cmp' n l" by (rule hs_pass_cong [OF "1.prems"])
  obtain c l' where l': "hs_pass cmp n l = (c, l')" by fastforce
  then have "set l' = set l" by (metis set_hs_pass snd_conv)
  then have "hs_loop cmp (n * 2) l' = hs_loop cmp' (n * 2) l'" if "\<not> (c \<le> 1 \<or> n = 0)"
    using "1.IH" [OF l' [symmetric] refl that] "1.prems" by simp
  then show ?case using l' p by (subst (1 2) hs_loop.simps) auto
qed

lemma HASH_SORT_by_rank:
  assumes "\<And>x y. x \<in> set l \<Longrightarrow> y \<in> set l \<Longrightarrow> cmp x y \<le> 0 \<longleftrightarrow> (rank x :: int) \<le> rank y"
  shows "HASH_SORT cmp l = sort_key rank l"
proof -
  have "HASH_SORT cmp l = HASH_SORT (\<lambda>x y. rank x - rank y) l"
    unfolding HASH_SORT_def by (rule hs_loop_cong) (simp add: assms)
  then show ?thesis by (simp add: by_rank.hash_sort_stable)
qed

text \<open>Whatever the comparison, sorting permutes the entries.\<close>

lemma mset_hs_pass: "mset (snd (hs_pass cmp n l)) = mset l"
proof (induction cmp n l rule: hs_pass.induct)
  case (1 cmp n l)
  have "mset (take n l) + mset (take n (drop n l)) + mset (drop n (drop n l)) = mset l"
    by (metis append_take_drop_id mset_append add.assoc)
  then show ?case using "1.IH" by (subst hs_pass.simps) (auto simp: mset_hs_merge split: prod.splits)
qed

lemma mset_HASH_SORT: "mset (HASH_SORT cmp l) = mset l"
proof -
  have "mset (hs_loop cmp n l) = mset l" for n
  proof (induction cmp n l rule: hs_loop.induct)
    case (1 cmp n l)
    obtain c l' where l': "hs_pass cmp n l = (c, l')" by fastforce
    then have "mset l' = mset l" by (metis mset_hs_pass snd_conv)
    then show ?case using "1.IH" [OF l' [symmetric] refl] l' by (subst hs_loop.simps) auto
  qed
  then show ?thesis by (simp add: HASH_SORT_def)
qed

end
