(* ===== verification/N2n_Util.thy ===== *)
theory N2n_Util
  imports Types Random_Numbers
begin

text \<open>
  Helpers of \<^verbatim>\<open>src/n2n.c\<close> that the supernode and the edge share: hardware addresses and their text form, subnet
  masks, comparison of sockets, and the filling and combining of memory areas.
\<close>

subsection \<open>Subnet masks\<close>

text \<open>
  Beyond 32 bits the shift count is negative, which is undefined in C, and for 255 the loop over a \<open>uint8_t\<close> would not even end.
\<close>

function bitlen2mask_loop :: "nat \<Rightarrow> nat \<Rightarrow> u32 \<Rightarrow> u32 option" where
  "bitlen2mask_loop i bitlen msk =
     (if i \<le> bitlen then
        if i \<le> 32 then bitlen2mask_loop (Suc i) bitlen (msk OR push_bit (32 - i) 1) else None
      else Some msk)"
  by pat_completeness auto
termination by (relation "measure (\<lambda>(i, _, _). 33 - i)") auto

declare bitlen2mask_loop.simps [simp del]

definition bitlen2mask :: "byte \<Rightarrow> u32 option" where
  "bitlen2mask bitlen = bitlen2mask_loop 1 (unat bitlen) 0"

primrec mask2bitlen_loop :: "nat \<Rightarrow> nat \<Rightarrow> u32 \<Rightarrow> byte \<Rightarrow> byte" where
  "mask2bitlen_loop 0 i msk bitlen = bitlen"
| "mask2bitlen_loop (Suc n) i msk bitlen =
     (if push_bit i msk AND 0x80000000 \<noteq> 0 then mask2bitlen_loop n (Suc i) msk (bitlen + 1) else bitlen)"

definition mask2bitlen :: "u32 \<Rightarrow> byte" where
  "mask2bitlen msk = mask2bitlen_loop 32 0 msk 0"

text \<open>The mask of a prefix length: its highest bits.\<close>

definition prefix_mask :: "nat \<Rightarrow> u32" where
  "prefix_mask n = NOT (mask (32 - n))"

lemma bit_prefix_mask: "n \<le> 32 \<Longrightarrow> bit (prefix_mask n) k \<longleftrightarrow> 32 - n \<le> k \<and> k < 32"
  by (auto simp: prefix_mask_def bit_not_iff bit_mask_iff)

lemma prefix_mask_Suc: "n < 32 \<Longrightarrow> prefix_mask n OR push_bit (32 - Suc n) 1 = prefix_mask (Suc n)"
  by (rule bit_word_eqI) (auto simp: bit_or_iff bit_prefix_mask push_bit_of_1 bit_exp_iff)

lemma bitlen2mask_loop_prefix:
  "i \<le> Suc bitlen \<Longrightarrow> 0 < i \<Longrightarrow> bitlen2mask_loop i bitlen (prefix_mask (i - 1)) =
     (if bitlen \<le> 32 then Some (prefix_mask bitlen) else None)" if "i \<le> 33"
  using that
proof (induction "Suc bitlen - i" arbitrary: i)
  case 0
  then show ?case by (subst bitlen2mask_loop.simps) auto
next
  case (Suc n)
  show ?case
  proof (cases "i \<le> 32")
    case True
    then have "prefix_mask (i - 1) OR push_bit (32 - i) 1 = prefix_mask i"
      using Suc.prems prefix_mask_Suc [of "i - 1"] by simp
    then show ?thesis
      using Suc.hyps(1) [of "Suc i"] Suc.hyps(2) Suc.prems True by (subst bitlen2mask_loop.simps) auto
  next
    case False
    then show ?thesis using Suc by (subst bitlen2mask_loop.simps) auto
  qed
qed

lemma bitlen2mask_eq: "bitlen2mask b = (if b \<le> 32 then Some (prefix_mask (unat b)) else None)"
proof -
  have "prefix_mask 0 = 0" by (rule bit_word_eqI) (simp add: bit_prefix_mask)
  then show ?thesis
    using bitlen2mask_loop_prefix [of 1 "unat b"] by (simp add: bitlen2mask_def word_le_nat_alt)
qed

lemma test_top_bit: "i < 32 \<Longrightarrow> push_bit i (m :: u32) AND 0x80000000 \<noteq> 0 \<longleftrightarrow> bit m (31 - i)"
  using and_exp_eq_0_iff_not_bit [of "push_bit i m" 31] by (simp add: bit_push_bit_iff)

lemma mask2bitlen_loop_prefix:
  assumes "n \<le> 32"
  shows "i + k = 32 \<Longrightarrow> i \<le> n \<Longrightarrow> mask2bitlen_loop k i (prefix_mask n) (of_nat i) = of_nat n"
proof (induction k arbitrary: i)
  case (Suc k)
  then have "push_bit i (prefix_mask n) AND 0x80000000 \<noteq> 0 \<longleftrightarrow> i < n"
    using assms by (subst test_top_bit) (auto simp: bit_prefix_mask)
  then show ?case using Suc.IH [of "Suc i"] Suc.prems by (auto simp: add.commute)
qed (use assms in simp)

subsection \<open>Hardware addresses\<close>

definition broadcast_mac :: bytes where "broadcast_mac = [0xFF, 0xFF, 0xFF, 0xFF, 0xFF, 0xFF]"
definition multicast_mac :: bytes where "multicast_mac = [0x01, 0x00, 0x5E, 0x00, 0x00, 0x00]"
definition ipv6_multicast_mac :: bytes where "ipv6_multicast_mac = [0x33, 0x33, 0x00, 0x00, 0x00, 0x00]"
definition null_mac :: bytes where "null_mac = [0, 0, 0, 0, 0, 0]"

definition is_multi_broadcast :: "bytes \<Rightarrow> bool" where
  "is_multi_broadcast dest_mac \<longleftrightarrow>
     (let is_broadcast = (take N2N_MAC_SIZE broadcast_mac = take N2N_MAC_SIZE dest_mac);
          is_multicast = (take 3 multicast_mac = take 3 dest_mac \<and> drop_bit 7 (dest_mac ! 3) = 0);
          is_ipv6_multicast = (take 2 ipv6_multicast_mac = take 2 dest_mac)
      in is_broadcast \<or> is_multicast \<or> is_ipv6_multicast)"

definition is_broadcast :: "bytes \<Rightarrow> bool" where
  "is_broadcast dest_mac \<longleftrightarrow> take N2N_MAC_SIZE broadcast_mac = take N2N_MAC_SIZE dest_mac"

definition is_null_mac :: "bytes \<Rightarrow> bool" where
  "is_null_mac dest_mac \<longleftrightarrow> take N2N_MAC_SIZE null_mac = take N2N_MAC_SIZE dest_mac"

lemma is_null_mac_iff: "mac_wf m \<Longrightarrow> is_null_mac m \<longleftrightarrow> m = null_mac"
  by (auto simp: is_null_mac_def mac_wf_def null_mac_def)

text \<open>The conversion of \<open>strtol\<close> to base 16, on a string of at most two characters: blanks, a sign, a prefix \<open>0x\<close> and digits.\<close>

definition hex_value :: "char \<Rightarrow> nat option" where
  "hex_value c = (let n = of_char c in
     if 48 \<le> n \<and> n \<le> (57 :: nat) then Some (n - 48)
     else if 65 \<le> n \<and> n \<le> 70 then Some (n - 55)
     else if 97 \<le> n \<and> n \<le> 102 then Some (n - 87)
     else None)"

fun hex_digits :: "int \<Rightarrow> string \<Rightarrow> int" where
  "hex_digits v [] = v"
| "hex_digits v (c # s) = (case hex_value c of None \<Rightarrow> v | Some d \<Rightarrow> hex_digits (v * 16 + int d) s)"

definition is_space :: "char \<Rightarrow> bool" where
  "is_space c \<longleftrightarrow> c = CHR 0x20 \<or> of_char c \<in> {9 .. 13 :: nat}"

definition strtol16 :: "string \<Rightarrow> int" where
  "strtol16 s =
     (let s = dropWhile is_space s;
          neg = (s \<noteq> [] \<and> hd s = CHR ''-'');
          s = (if s \<noteq> [] \<and> (hd s = CHR ''-'' \<or> hd s = CHR ''+'') then tl s else s);
          s = (if length s > 2 \<and> hd s = CHR ''0'' \<and> s ! 1 \<in> {CHR ''x'', CHR ''X''} \<and> hex_value (s ! 2) \<noteq> None then drop 2 s else s);
          v = hex_digits 0 s
      in if neg then - v else v)"

text \<open>A string that ends early ends the conversion, so the two characters are cut at a terminating zero.\<close>

definition hex2byte :: "string \<Rightarrow> byte" where
  "hex2byte s = word_of_int (strtol16 (takeWhile (\<lambda>c. c \<noteq> CHR 0x00) (take 2 s)))"

primrec str2mac_loop :: "nat \<Rightarrow> string \<Rightarrow> bytes option" where
  "str2mac_loop 0 s = Some []"
| "str2mac_loop (Suc n) s =
     (let s = drop 1 s in
      if length s < 2 then None
      else map_option ((#) (hex2byte s)) (str2mac_loop n (drop 2 s)))"

definition str2mac :: "string \<Rightarrow> bytes option" where
  "str2mac s = (if length s < 2 then None else map_option ((#) (hex2byte s)) (str2mac_loop 5 (drop 2 s)))"

definition hex_upper :: "nat \<Rightarrow> char" where
  "hex_upper n = char_of (if n < 10 then 48 + n else 55 + n)"

definition hex02 :: "byte \<Rightarrow> string" where
  "hex02 b = [hex_upper (unat b div 16), hex_upper (unat b mod 16)]"

definition macaddr_str :: "bytes \<Rightarrow> string" where
  "macaddr_str mac = hex02 (mac ! 0) @ '':'' @ hex02 (mac ! 1) @ '':'' @ hex02 (mac ! 2) @ '':'' @
     hex02 (mac ! 3) @ '':'' @ hex02 (mac ! 4) @ '':'' @ hex02 (mac ! 5)"

subsection \<open>Sockets and memory\<close>

definition sock_equal :: "n2n_sock \<Rightarrow> n2n_sock \<Rightarrow> bool" where
  "sock_equal a b \<longleftrightarrow>
     (if port a \<noteq> port b then False
      else if family a \<noteq> family b then False
      else if family a = AF_INET then take IPV4_SIZE (addr a) = take IPV4_SIZE (addr b)
      else take IPV6_SIZE (addr a) = take IPV6_SIZE (addr b))"

text \<open>\<open>memrnd\<close> draws one number per four bytes, then one per remaining byte.\<close>

fun memrnd :: "nat \<Rightarrow> rn_generator_state \<Rightarrow> bytes \<times> rn_generator_state" where
  "memrnd len rn =
     (if len \<ge> 4 then
        let (r, rn) = n2n_rand rn; (bs, rn) = memrnd (len - 4) rn in (st32 (ucast r) @ bs, rn)
      else if len > 0 then
        let (r, rn) = n2n_rand rn; (bs, rn) = memrnd (len - 1) rn in (ucast r # bs, rn)
      else ([], rn))"

declare memrnd.simps [simp del]

fun memxor_loop :: "nat \<Rightarrow> bytes \<Rightarrow> bytes \<Rightarrow> bytes" where
  "memxor_loop len dst src =
     (if len \<ge> 4 then
        st32 (ld32 (take 4 dst) XOR ld32 (take 4 src)) @ memxor_loop (len - 4) (drop 4 dst) (drop 4 src)
      else if len > 0 then (hd dst XOR hd src) # memxor_loop (len - 1) (tl dst) (tl src)
      else dst)"

declare memxor_loop.simps [simp del]

definition memxor :: "bytes \<Rightarrow> nat \<Rightarrow> bytes \<Rightarrow> nat \<Rightarrow> bytes option" where
  "memxor destination pos source len = do {
     d \<leftarrow> rd destination pos len;
     s \<leftarrow> rd source 0 len;
     wr destination pos (memxor_loop len d s) }"

lemma length_memrnd [simp]: "length (fst (memrnd len rn)) = len"
proof (induction len rn rule: memrnd.induct)
  case (1 len rn)
  then show ?case by (subst memrnd.simps) (auto split: prod.splits)
qed

lemma memxor_loop_map2:
  "length dst = len \<Longrightarrow> length src = len \<Longrightarrow> memxor_loop len dst src = map2 (XOR) dst src"
proof (induction len dst src rule: memxor_loop.induct)
  case (1 len dst src)
  consider "len \<ge> 4" | "0 < len" "len < 4" | "len = 0" by linarith
  then show ?case
  proof cases
    case 1
    have "st32 (ld32 (take 4 dst) XOR ld32 (take 4 src)) = map2 (XOR) (take 4 dst) (take 4 src)"
      using 1 "1.prems" by (simp add: le_bytes_xor)
    then have "memxor_loop len dst src = map2 (XOR) (take 4 dst @ drop 4 dst) (take 4 src @ drop 4 src)"
      using 1 "1.prems" "1.IH"(1) by (subst memxor_loop.simps) (simp del: append_take_drop_id)
    then show ?thesis by simp
  next
    case 2
    then obtain d dst' s src' where "dst = d # dst'" "src = s # src'"
      using "1.prems" by (metis length_greater_0_conv neq_Nil_conv)
    then show ?thesis using 2 "1.prems" "1.IH"(2) by (subst memxor_loop.simps) simp
  next
    case 3
    then show ?thesis using "1.prems" by (subst memxor_loop.simps) simp
  qed
qed

subsection \<open>Properties\<close>

lemma of_char_upper: "n < 16 \<Longrightarrow> of_char (hex_upper n) = (if n < 10 then 48 + n else 55 + n)"
  by (simp add: hex_upper_def of_char_of)

lemma hex_value_upper: "n < 16 \<Longrightarrow> hex_value (hex_upper n) = Some n"
  by (auto simp: hex_value_def of_char_upper Let_def)

lemma upper_not_special:
  assumes "n < 16"
  shows "\<not> is_space (hex_upper n)" "hex_upper n \<noteq> CHR ''-''" "hex_upper n \<noteq> CHR ''+''" "hex_upper n \<noteq> CHR 0x00"
proof -
  have c: "(of_char (hex_upper n) :: nat) \<in> {48..57} \<union> {65..70}" using of_char_upper [OF assms] assms by auto
  show "\<not> is_space (hex_upper n)"
  proof
    assume "is_space (hex_upper n)"
    then have "(of_char (hex_upper n) :: nat) \<in> insert 32 {9..13}" by (auto simp: is_space_def)
    with c show False by auto
  qed
  show "hex_upper n \<noteq> CHR ''-''" "hex_upper n \<noteq> CHR ''+''" "hex_upper n \<noteq> CHR 0x00" using c by force+
qed

lemma hex2byte_hex02: "hex2byte (hex02 b @ s) = b"
proof -
  have n: "unat b div 16 < 16" "unat b mod 16 < 16" using unsigned_less [where 'a = nat and w = b] by (simp_all add: less_mult_imp_div_less)
  have "int (unat b div 16) * 16 + int (unat b mod 16) = int (unat b)"
    by (metis div_mult_mod_eq of_nat_add of_nat_mult of_nat_numeral)
  then have "strtol16 (hex02 b) = int (unat b)"
    using upper_not_special [OF n(1)] upper_not_special [OF n(2)] hex_value_upper [OF n(1)] hex_value_upper [OF n(2)]
    by (simp add: strtol16_def hex02_def Let_def)
  moreover have "takeWhile (\<lambda>c. c \<noteq> CHR 0x00) (take 2 (hex02 b @ s)) = hex02 b"
    using upper_not_special(4) [OF n(1)] upper_not_special(4) [OF n(2)] by (simp add: hex02_def)
  ultimately show ?thesis by (simp add: hex2byte_def)
qed

lemma length_hex02 [simp]: "length (hex02 b) = 2"
  by (simp add: hex02_def)

lemma str2mac_macaddr: "str2mac (macaddr_str [a, b, c, d, e, f]) = Some [a, b, c, d, e, f]"
proof -
  have last: "hex2byte (hex02 f) = f" using hex2byte_hex02 [of f "[]"] by simp
  show ?thesis
    by (simp add: str2mac_def macaddr_str_def numeral_eq_Suc hex2byte_hex02 last)
qed

text \<open>
  Prefix lengths and masks: for every prefix length up to 32 the conversion to a mask yields the mask with that many leading ones, and
  the conversion back the same length; for every greater length the conversion is undefined.
\<close>

theorem bitlen_mask_roundtrip:
  "(b \<le> 32 \<longrightarrow> (\<exists>m. bitlen2mask b = Some m \<and> mask2bitlen m = b \<and> (\<forall>k < 32. bit m k \<longleftrightarrow> 32 - unat b \<le> k)))
   \<and> (\<not> b \<le> 32 \<longrightarrow> bitlen2mask b = None)"
proof -
  have "mask2bitlen (prefix_mask (unat b)) = b" if "b \<le> 32"
    using that mask2bitlen_loop_prefix [of "unat b" 0 32] by (simp add: mask2bitlen_def word_le_nat_alt)
  then show ?thesis by (auto simp: bitlen2mask_eq bit_prefix_mask word_le_nat_alt)
qed

theorem bitlen_mask_roundtrip_witness: "\<exists>m. bitlen2mask 24 = Some m \<and> mask2bitlen m = 24"
  using bitlen_mask_roundtrip [of 24] by (auto simp: word_le_nat_alt)

end
