(* ===== verification/Peers.thy ===== *)
theory Peers
  imports N2n_Util Tables Time_Stamp Wire
begin

text \<open>
  What lies outside of the program's data structures, and the lists of peers of \<^verbatim>\<open>src/n2n.c\<close> that both the supernode and the edge keep.
\<close>

subsection \<open>The process and its environment\<close>

text \<open>
  The static variables of the process (the state of the random number generator and the stamp issued last), the readings of
  the clock by \<open>gettimeofday\<close>, the results of the calls of \<open>sendto\<close> (return value and \<open>errno\<close>), and a record of what was sent
  to which socket and of the descriptors that were closed. The readings and the results are given as functions of the
  number of calls made before, so that a statement for all of them is one for every behaviour of the environment.
\<close>

record runtime =
  rt_rn :: rn_generator_state
  rt_stamp :: u64
  rt_clock :: "nat \<Rightarrow> u64 \<times> u64"
  rt_reads :: nat
  rt_net :: "nat \<Rightarrow> int \<times> int"
  rt_sent :: "(int \<times> sockaddr \<times> bytes) list"
  rt_kcp :: "nat \<Rightarrow> int \<times> bool"
  rt_kcp_sent :: "(n2n_sock \<times> bytes) list"
  rt_closed :: "int list"

text \<open>An environment whose clock counts seconds and whose network takes nothing.\<close>

definition quiet_runtime :: runtime where
  "quiet_runtime = \<lparr>rt_rn = rn_default_state, rt_stamp = 0, rt_clock = (\<lambda>n. (of_nat n, 0)), rt_reads = 0, rt_net = (\<lambda>n. (0, 0)), rt_sent = [], rt_kcp = (\<lambda>n. (- 1, False)), rt_kcp_sent = [], rt_closed = []\<rparr>"

definition rt_time_stamp :: "runtime \<Rightarrow> u64 \<times> runtime" where
  "rt_time_stamp rt =
     (let s = time_stamp (rt_stamp rt) (rt_clock rt (rt_reads rt))
      in (s, rt\<lparr>rt_stamp := s, rt_reads := rt_reads rt + 1\<rparr>))"

definition rt_initial_time_stamp :: "runtime \<Rightarrow> u64 \<times> runtime" where
  "rt_initial_time_stamp rt = (let (s, rt) = rt_time_stamp rt in (s - TIME_STAMP_FRAME, rt))"

definition rt_rand :: "runtime \<Rightarrow> u64 \<times> runtime" where
  "rt_rand rt = (let (r, rn) = n2n_rand (rt_rn rt) in (r, rt\<lparr>rt_rn := rn\<rparr>))"

definition rt_sendto :: "int \<Rightarrow> sockaddr \<Rightarrow> bytes \<Rightarrow> runtime \<Rightarrow> (int \<times> int) \<times> runtime" where
  "rt_sendto fd sa data rt = (rt_net rt (length (rt_sent rt)), rt\<lparr>rt_sent := rt_sent rt @ [(fd, sa, data)]\<rparr>)"

definition rt_close :: "int \<Rightarrow> runtime \<Rightarrow> runtime" where
  "rt_close fd rt = rt\<lparr>rt_closed := rt_closed rt @ [fd]\<rparr>"

subsection \<open>Peers\<close>

record peer_info =
  mac_addr :: bytes
  dev_addr :: n2n_ip_subnet
  dev_desc :: bytes
  peer_sock :: n2n_sock
  socket_fd :: int
  preferred_sock :: n2n_sock
  last_cookie :: u32
  peer_auth :: n2n_auth
  peer_timeout :: int
  purgeable :: bool
  last_seen :: int
  last_p2p :: int
  last_sent_query :: int
  selection_criterion :: u64
  last_valid_time_stamp :: u64
  ip_addr :: "string option"
  local_peer :: byte
  uptime :: int
  version :: bytes

definition zero_peer :: peer_info where
  "zero_peer = \<lparr>mac_addr = zero_mac, dev_addr = \<lparr>net_addr = 0, net_bitlen = 0\<rparr>, dev_desc = zero_desc, peer_sock = zero_sock,
     socket_fd = 0, preferred_sock = zero_sock, last_cookie = 0, peer_auth = zero_auth, peer_timeout = 0, purgeable = False,
     last_seen = 0, last_p2p = 0, last_sent_query = 0, selection_criterion = 0, last_valid_time_stamp = 0, ip_addr = None,
     local_peer = 0, uptime = 0, version = replicate N2N_VERSION_STRING_SIZE 0\<rparr>"

definition sn_selection_criterion_default :: u64 where
  "sn_selection_criterion_default = drop_bit 1 (- 1) - 1"

definition sn_selection_criterion_bad :: u64 where
  "sn_selection_criterion_bad = drop_bit 1 (- 1)"

definition sn_selection_criterion_good :: u64 where
  "sn_selection_criterion_good = drop_bit 1 (- 1) - 2"

definition sn_selection_criterion_init :: "peer_info option \<Rightarrow> peer_info option" where
  "sn_selection_criterion_init peer = map_option (\<lambda>p. p\<lparr>selection_criterion := sn_selection_criterion_default\<rparr>) peer"

abbreviation HASH_FIND_PEER :: "peer_info list \<Rightarrow> bytes \<Rightarrow> nat option" where
  "HASH_FIND_PEER l mac \<equiv> HASH_FIND mac_addr mac l"

datatype skip_add = SN_ADD | SN_ADD_SKIP | SN_ADD_ADDED

text \<open>
  The returned pointer is the index of the peer in the new list. A peer that is found by its socket under another address
  moves to the end of the list when it gets the new one.
\<close>

definition add_sn_to_list_by_mac_or_sock ::
  "peer_info list \<Rightarrow> n2n_sock \<Rightarrow> bytes \<Rightarrow> skip_add \<Rightarrow> runtime \<Rightarrow> nat option \<times> peer_info list \<times> skip_add \<times> runtime" where
  "add_sn_to_list_by_mac_or_sock sn_list sock mac skip rt =
     (let peer = (if \<not> is_null_mac mac then HASH_FIND_PEER sn_list mac else None) in
      if peer = None then
        case find_index (\<lambda>scan. peer_sock scan = sock) sn_list of
          Some i \<Rightarrow>
            if \<not> is_null_mac mac then
              let scan = sn_list ! i; sn_list = HASH_DEL i sn_list; scan = scan\<lparr>mac_addr := mac\<rparr>;
                  sn_list = HASH_ADD scan sn_list
              in (Some (length sn_list - 1), sn_list, skip, rt)
            else (Some i, sn_list, skip, rt)
        | None \<Rightarrow>
            if skip = SN_ADD then
              let (st, rt) = rt_initial_time_stamp rt;
                  p = zero_peer\<lparr>selection_criterion := sn_selection_criterion_default, last_valid_time_stamp := st,
                                purgeable := True, peer_sock := sock, mac_addr := mac\<rparr>
              in (Some (length sn_list), HASH_ADD p sn_list, SN_ADD_ADDED, rt)
            else (None, sn_list, skip, rt)
      else (peer, sn_list, skip, rt))"

subsection \<open>TCP connections and purging\<close>

record n2n_tcp_connection =
  tc_fd :: int
  tc_sock :: sockaddr
  tc_sock_len :: nat
  tc_expected :: u16
  tc_position :: u16
  tc_buffer :: bytes
  tc_inactive :: bool

text \<open>
  \<open>conns\<close> is \<open>None\<close> for callers that pass a null pointer for the table of connections.
\<close>

fun purge_peer_list_loop :: "int \<Rightarrow> int \<Rightarrow> peer_info list \<Rightarrow> n2n_tcp_connection list option \<Rightarrow> runtime
    \<Rightarrow> nat \<times> peer_info list \<times> n2n_tcp_connection list option \<times> runtime" where
  "purge_peer_list_loop keep_fd purge_before [] conns rt = (0, [], conns, rt)"
| "purge_peer_list_loop keep_fd purge_before (scan # l) conns rt =
     (if purgeable scan \<and> last_seen scan < purge_before then
        let (conns, rt) =
          (if socket_fd scan \<ge> 0 \<and> socket_fd scan \<noteq> keep_fd then
             case conns of None \<Rightarrow> (conns, rt)
             | Some cs \<Rightarrow>
                 (Some (case HASH_FIND tc_fd (socket_fd scan) cs of None \<Rightarrow> cs | Some i \<Rightarrow> HASH_DEL i cs),
                  rt_close (socket_fd scan) rt)
           else (conns, rt));
          (n, l, conns, rt) = purge_peer_list_loop keep_fd purge_before l conns rt
        in (Suc n, l, conns, rt)
      else let (n, l, conns, rt) = purge_peer_list_loop keep_fd purge_before l conns rt in (n, scan # l, conns, rt))"

definition purge_peer_list :: "peer_info list \<Rightarrow> int \<Rightarrow> n2n_tcp_connection list option \<Rightarrow> int \<Rightarrow> runtime
    \<Rightarrow> nat \<times> peer_info list \<times> n2n_tcp_connection list option \<times> runtime" where
  "purge_peer_list peer_list socket_not_to_close conns purge_before rt =
     purge_peer_list_loop socket_not_to_close purge_before peer_list conns rt"

definition purge_expired_nodes :: "peer_info list \<Rightarrow> int \<Rightarrow> n2n_tcp_connection list option \<Rightarrow> int \<Rightarrow> int \<Rightarrow> int \<Rightarrow> int \<Rightarrow> runtime
    \<Rightarrow> nat \<times> peer_info list \<times> n2n_tcp_connection list option \<times> int \<times> runtime" where
  "purge_expired_nodes peer_list socket_not_to_close conns last_purge frequency timeout now rt =
     (if now - last_purge < frequency then (0, peer_list, conns, last_purge, rt)
      else let (num_reg, peer_list, conns, rt) = purge_peer_list peer_list socket_not_to_close conns (now - timeout) rt
           in (num_reg, peer_list, conns, now, rt))"

definition clear_peer_list :: "peer_info list \<Rightarrow> nat \<times> peer_info list" where
  "clear_peer_list peer_list = (length peer_list, [])"

subsection \<open>The lists of supernodes keep their addresses apart\<close>

text \<open>
  Supernodes whose address is not known yet are listed under the null address, all others under distinct ones.
\<close>

definition known_macs :: "peer_info list \<Rightarrow> bytes list" where
  "known_macs l = filter (\<lambda>m. \<not> is_null_mac m) (map mac_addr l)"

definition sn_list_ok :: "peer_info list \<Rightarrow> bool" where
  "sn_list_ok l \<longleftrightarrow> distinct (known_macs l)"

lemma known_macs_simps [simp]:
  "known_macs [] = []" "known_macs (l @ m) = known_macs l @ known_macs m"
  "known_macs (p # l) = (if is_null_mac (mac_addr p) then known_macs l else mac_addr p # known_macs l)"
  by (simp_all add: known_macs_def)

lemma sn_list_ok_distinct: "distinct (map mac_addr l) \<Longrightarrow> sn_list_ok l"
  by (simp add: sn_list_ok_def known_macs_def)

lemma HASH_FIND_PEER_None: "HASH_FIND_PEER l mac = None \<Longrightarrow> mac \<notin> set (known_macs l)"
  by (auto simp: known_macs_def hash.hfind_None)

lemma sn_list_ok_del:
  assumes "sn_list_ok l"
  shows "sn_list_ok (HASH_DEL i l)" and "set (known_macs (HASH_DEL i l)) \<subseteq> set (known_macs l)"
proof -
  have l: "take i l @ drop i l = l" by simp
  have "drop i l = (if i < length l then l ! i # drop (Suc i) l else [])" by (simp add: Cons_nth_drop_Suc)
  then have "known_macs l = known_macs (take i l) @
      (if i < length l \<and> \<not> is_null_mac (mac_addr (l ! i)) then [mac_addr (l ! i)] else []) @ known_macs (drop (Suc i) l)"
    using arg_cong [OF l, of known_macs] by (auto split: if_splits)
  then show "sn_list_ok (HASH_DEL i l)" and "set (known_macs (HASH_DEL i l)) \<subseteq> set (known_macs l)"
    using assms by (auto simp: sn_list_ok_def HASH_DEL_def)
qed

lemma sn_list_ok_add:
  assumes "sn_list_ok l" and "mac_addr p \<notin> set (known_macs l)"
  shows "sn_list_ok (HASH_ADD p l)"
  using assms by (auto simp: sn_list_ok_def HASH_ADD_def)

lemma add_sn_sock_None: "find_index (\<lambda>scan. peer_sock scan = sock) l = None \<longleftrightarrow> sock \<notin> peer_sock ` set l"
  by (auto simp: find_index_None)

lemma add_sn_list_ok:
  assumes "sn_list_ok l"
  shows "sn_list_ok (fst (snd (add_sn_to_list_by_mac_or_sock l sock mac skip rt)))"
proof (cases "\<not> is_null_mac mac \<and> HASH_FIND_PEER l mac \<noteq> None")
  case False
  then have new: "mac \<notin> set (known_macs l)" by (auto simp: known_macs_def dest: HASH_FIND_PEER_None)
  obtain st rt' where rt: "rt_initial_time_stamp rt = (st, rt')" by fastforce
  have "sn_list_ok (HASH_ADD (p\<lparr>mac_addr := mac\<rparr>) (HASH_DEL i l))" for p i
    using new sn_list_ok_del [OF assms] by (intro sn_list_ok_add) auto
  moreover have "sn_list_ok (HASH_ADD p l)" if "mac_addr p = mac" for p
    using new that assms by (intro sn_list_ok_add) auto
  ultimately show ?thesis
    using False assms
    by (auto simp: add_sn_to_list_by_mac_or_sock_def Let_def rt split: option.splits)
qed (use assms in \<open>auto simp: add_sn_to_list_by_mac_or_sock_def Let_def\<close>)

lemma add_sn_result:
  assumes "add_sn_to_list_by_mac_or_sock l sock mac skip rt = (r, l', skip', rt')"
  shows "case r of Some i \<Rightarrow> i < length l' \<and> (mac_addr (l' ! i) = mac \<or> is_null_mac mac \<and> peer_sock (l' ! i) = sock)
     | None \<Rightarrow> skip \<noteq> SN_ADD \<and> l' = l"
proof -
  obtain st rt'' where rt: "rt_initial_time_stamp rt = (st, rt'')" by fastforce
  show ?thesis
    using assms hash.hfind_Some [of mac_addr mac l] find_index_Some [of "\<lambda>scan. peer_sock scan = sock" l]
    by (auto simp: add_sn_to_list_by_mac_or_sock_def Let_def rt HASH_ADD_def nth_append split: option.splits if_splits)
qed

lemma purge_loop_result:
  "purge_peer_list_loop keep before l conns rt = (n, l', conns', rt') \<Longrightarrow>
   l' = filter (\<lambda>p. \<not> (purgeable p \<and> last_seen p < before)) l \<and> n = length l - length l'"
proof (induction l arbitrary: conns rt n l')
  case (Cons p l)
  obtain c r where s: "(if socket_fd p \<ge> 0 \<and> socket_fd p \<noteq> keep then
             case conns of None \<Rightarrow> (conns, rt)
             | Some cs \<Rightarrow>
                 (Some (case HASH_FIND tc_fd (socket_fd p) cs of None \<Rightarrow> cs | Some i \<Rightarrow> HASH_DEL i cs),
                  rt_close (socket_fd p) rt)
           else (conns, rt)) = (c, r)" by fastforce
  have le: "length (filter P l) \<le> length l" for P by (rule length_filter_le)
  show ?case
    using Cons.prems Cons.IH [of c r] Cons.IH [of conns rt] le [of "\<lambda>p. purgeable p \<longrightarrow> \<not> last_seen p < before"]
    by (auto simp: s Suc_diff_le split: if_splits prod.splits)
qed simp

subsection \<open>Properties\<close>

text \<open>
  C28. The list of supernodes: looking up, re-keying and adding keep the known hardware addresses distinct, the returned pointer is a valid one to a peer
  with the address asked for (or, for an unknown address, with the socket asked for), and a call that may add always returns a peer.
\<close>

theorem add_sn_correct:
  assumes "sn_list_ok l" and "add_sn_to_list_by_mac_or_sock l sock mac skip rt = (r, l', skip', rt')"
  shows "sn_list_ok l' \<and> (skip = SN_ADD \<longrightarrow> r \<noteq> None)
    \<and> (\<forall>i. r = Some i \<longrightarrow> i < length l' \<and> (mac_addr (l' ! i) = mac \<or> is_null_mac mac \<and> peer_sock (l' ! i) = sock))"
  using add_sn_list_ok [OF assms(1), of sock mac skip rt] add_sn_result [OF assms(2)] assms(2)
  by (auto split: option.splits)

theorem add_sn_correct_witness:
  "let (r, l', skip', rt') = add_sn_to_list_by_mac_or_sock [zero_peer] zero_sock [1, 2, 3, 4, 5, 6] SN_ADD
       quiet_runtime
   in sn_list_ok l' \<and> r = Some 0 \<and> mac_addr (l' ! 0) = [1, 2, 3, 4, 5, 6]"
proof -
  have "sn_list_ok [zero_peer]" by (simp add: sn_list_ok_def)
  moreover have "add_sn_to_list_by_mac_or_sock [zero_peer] zero_sock [1, 2, 3, 4, 5, 6] SN_ADD quiet_runtime =
      (Some 0, [zero_peer\<lparr>mac_addr := [1, 2, 3, 4, 5, 6]\<rparr>], SN_ADD, quiet_runtime)"
    by (simp add: add_sn_to_list_by_mac_or_sock_def is_null_mac_def null_mac_def HASH_FIND_def zero_peer_def zero_mac_def
        numeral_eq_Suc HASH_DEL_def HASH_ADD_def)
  ultimately show ?thesis
    using add_sn_correct [of "[zero_peer]" zero_sock "[1, 2, 3, 4, 5, 6]" SN_ADD quiet_runtime] by simp
qed

text \<open>
  Purging removes exactly the purgeable peers that were last seen before the limit, keeps the order of the others, and returns the
  number of the removed ones; before the purge interval has passed it does nothing.
\<close>

theorem purge_expired_nodes_correct:
  "(now - last_purge < frequency \<longrightarrow> purge_expired_nodes l keep conns last_purge frequency timeout now rt = (0, l, conns, last_purge, rt))
   \<and> (\<not> now - last_purge < frequency \<longrightarrow> (\<exists>conns' rt'. purge_expired_nodes l keep conns last_purge frequency timeout now rt =
        (length (filter (\<lambda>p. purgeable p \<and> last_seen p < now - timeout) l),
         filter (\<lambda>p. \<not> (purgeable p \<and> last_seen p < now - timeout)) l, conns', now, rt')))"
proof -
  obtain n l' conns' rt' where p: "purge_peer_list_loop keep (now - timeout) l conns rt = (n, l', conns', rt')"
    by (metis prod.exhaust)
  have "length l - length (filter (\<lambda>p. \<not> (purgeable p \<and> last_seen p < now - timeout)) l) =
      length (filter (\<lambda>p. purgeable p \<and> last_seen p < now - timeout) l)"
    using sum_length_filter_compl [of "\<lambda>p. purgeable p \<and> last_seen p < now - timeout" l] by simp
  then show ?thesis
    using purge_loop_result [OF p] p by (auto simp: purge_expired_nodes_def purge_peer_list_def)
qed

theorem purge_expired_nodes_correct_witness:
  "\<exists>conns' rt'. purge_expired_nodes [zero_peer\<lparr>purgeable := True, last_seen := 5\<rparr>, zero_peer] 3 None 0 30 60 100
      quiet_runtime
    = (1, [zero_peer], conns', 100, rt')"
  using purge_expired_nodes_correct [where l = "[zero_peer\<lparr>purgeable := True, last_seen := 5\<rparr>, zero_peer]" and now = 100 and
      last_purge = 0 and frequency = 30 and timeout = 60 and keep = 3 and conns = None and
      rt = quiet_runtime]
  by (simp add: zero_peer_def)

end
