(* ===== verification/Regex.thy ===== *)
theory Regex
  imports Prelude
begin

text \<open>
  The regular expressions for the names of allowed communities, \<^verbatim>\<open>src/n2n_regex.c\<close>. A C string is the list of its bytes without the
  terminating zero. \<open>None\<close> is an access outside of a string or an array, or the use of a value that was never written.
\<close>

subsection \<open>Compiled expressions\<close>

abbreviation MAX_REGEXP_OBJECTS :: nat where "MAX_REGEXP_OBJECTS \<equiv> 30"
abbreviation MAX_CHAR_CLASS_LEN :: nat where "MAX_CHAR_CLASS_LEN \<equiv> 40"

datatype regex_type = UNUSED | DOT | BEGIN | END | QUESTIONMARK | STAR | PLUS | CHAR_TYPE | CHAR_CLASS | INV_CHAR_CLASS | DIGIT | NOT_DIGIT
  | ALPHA | NOT_ALPHA | WHITESPACE | NOT_WHITESPACE

text \<open>The union of a character and a pointer to a character class, which is an index into the buffer of all classes.\<close>

datatype regex_union = Undef | Ch byte | Ccl nat

record regex_t =
  rtype :: regex_type
  runion :: regex_union

text \<open>The two static arrays of \<open>re_compile\<close>, which keep their contents from one expression to the next.\<close>

record regex_static =
  re_compiled :: "regex_t list"
  ccl_buf :: bytes

definition regex_init :: regex_static where
  "regex_init = \<lparr>re_compiled = replicate MAX_REGEXP_OBJECTS \<lparr>rtype = UNUSED, runion = Ch 0\<rparr>, ccl_buf = replicate MAX_CHAR_CLASS_LEN 0\<rparr>"

definition char_at :: "bytes \<Rightarrow> nat \<Rightarrow> byte option" where
  "char_at s i = (if i < length s then Some (s ! i) else if i = length s then Some 0 else None)"

text \<open>
  The copying of a character class: \<open>Inl\<close> is the return of a null pointer, \<open>Inr (i, bufidx, buf)\<close> the end of the class
  at index \<open>i\<close> of the pattern.
\<close>

function ccl_loop :: "bytes \<Rightarrow> nat \<Rightarrow> nat \<Rightarrow> bytes \<Rightarrow> (bytes + nat \<times> nat \<times> bytes) option" where
  "ccl_loop pattern i bufidx buf = do {
     let i = i + 1;
     c \<leftarrow> char_at pattern i;
     if c = 0x5D \<or> c = 0 then Some (Inr (i, bufidx, buf))
     else if c = 0x5C then
       if bufidx \<ge> MAX_CHAR_CLASS_LEN - 1 then Some (Inl buf)
       else do {
         c' \<leftarrow> char_at pattern (i + 1);
         buf \<leftarrow> wr buf bufidx [c];
         buf \<leftarrow> wr buf (bufidx + 1) [c'];
         ccl_loop pattern (i + 1) (bufidx + 2) buf }
     else if bufidx \<ge> MAX_CHAR_CLASS_LEN then Some (Inl buf)
     else do {
       buf \<leftarrow> wr buf bufidx [c];
       ccl_loop pattern i (bufidx + 1) buf } }"
  by pat_completeness auto
termination
  by (relation "measure (\<lambda>(pattern, i, _, _). length pattern + 1 - i)") (auto simp: char_at_def split: if_splits)

declare ccl_loop.simps [simp del]

definition escape_type :: "byte \<Rightarrow> regex_type" where
  "escape_type c =
     (if c = 0x64 then DIGIT else if c = 0x44 then NOT_DIGIT else if c = 0x77 then ALPHA else if c = 0x57 then NOT_ALPHA
      else if c = 0x73 then WHITESPACE else if c = 0x53 then NOT_WHITESPACE else CHAR_TYPE)"

text \<open>One round of the loop: \<open>Inl\<close> is the return of a null pointer, \<open>Inr (i, bufidx, entry, buf)\<close> with the index of the last character used and the new entry.\<close>

definition compile_one :: "bytes \<Rightarrow> nat \<Rightarrow> nat \<Rightarrow> regex_t \<Rightarrow> bytes \<Rightarrow> ((regex_t \<times> bytes) + nat \<times> nat \<times> regex_t \<times> bytes) option" where
  "compile_one pattern i bufidx e buf = do {
     c \<leftarrow> char_at pattern i;
     if c = 0x2E then Some (Inr (i, bufidx, e\<lparr>rtype := DOT\<rparr>, buf))
     else if c = 0x2A then Some (Inr (i, bufidx, e\<lparr>rtype := STAR\<rparr>, buf))
     else if c = 0x2B then Some (Inr (i, bufidx, e\<lparr>rtype := PLUS\<rparr>, buf))
     else if c = 0x3F then Some (Inr (i, bufidx, e\<lparr>rtype := QUESTIONMARK\<rparr>, buf))
     else if c = 0x5C then do {
       n \<leftarrow> char_at pattern (i + 1);
       Some (Inr (if n \<noteq> 0 then
                    (i + 1, bufidx, if escape_type n = CHAR_TYPE then e\<lparr>rtype := CHAR_TYPE, runion := Ch n\<rparr> else e\<lparr>rtype := escape_type n\<rparr>, buf)
                  else (i, bufidx, e, buf))) }
     else if c = 0x5B then do {
       n \<leftarrow> char_at pattern (i + 1);
       let (i, ty) = (if n = 0x5E then (i + 1, INV_CHAR_CLASS) else (i, CHAR_CLASS));
       r \<leftarrow> ccl_loop pattern i bufidx buf;
       (case r of
          Inl buf \<Rightarrow> Some (Inl (e\<lparr>rtype := ty\<rparr>, buf))
        | Inr (i, idx, buf) \<Rightarrow>
            if idx \<ge> MAX_CHAR_CLASS_LEN then Some (Inl (e\<lparr>rtype := ty\<rparr>, buf))
            else do {
              buf \<leftarrow> wr buf idx [0];
              Some (Inr (i, idx + 1, e\<lparr>rtype := ty, runion := Ccl bufidx\<rparr>, buf)) }) }
     else Some (Inr (i, bufidx, e\<lparr>rtype := CHAR_TYPE, runion := Ch c\<rparr>, buf)) }"


text \<open>The result is \<open>None\<close> for the null pointer.\<close>

function compile_loop :: "bytes \<Rightarrow> nat \<Rightarrow> nat \<Rightarrow> nat \<Rightarrow> regex_static \<Rightarrow> (regex_t list option \<times> regex_static) option" where
  "compile_loop pattern i j bufidx st = do {
     c \<leftarrow> char_at pattern i;
     if c \<noteq> 0 \<and> j + 1 < MAX_REGEXP_OBJECTS then do {
       r \<leftarrow> compile_one pattern i bufidx (re_compiled st ! j) (ccl_buf st);
       (case r of
          Inl (e, buf) \<Rightarrow> Some (None, \<lparr>re_compiled = (re_compiled st)[j := e], ccl_buf = buf\<rparr>)
        | Inr (i, idx, e, buf) \<Rightarrow> compile_loop pattern (i + 1) (j + 1) idx \<lparr>re_compiled = (re_compiled st)[j := e], ccl_buf = buf\<rparr>) }
     else
       let st = st\<lparr>re_compiled := (re_compiled st)[j := (re_compiled st ! j)\<lparr>rtype := UNUSED\<rparr>]\<rparr>
       in Some (Some (re_compiled st), st) }"
  by pat_completeness auto
termination by (relation "measure (\<lambda>(_, _, j, _, _). MAX_REGEXP_OBJECTS - j)") auto

declare compile_loop.simps [simp del]

definition re_compile :: "bytes \<Rightarrow> regex_static \<Rightarrow> (regex_t list option \<times> regex_static) option" where
  "re_compile pattern st = compile_loop pattern 0 0 1 st"

subsection \<open>Matching\<close>

definition matchdigit :: "byte \<Rightarrow> bool" where
  "matchdigit c \<longleftrightarrow> 0x30 \<le> c \<and> c \<le> 0x39"

definition matchalpha :: "byte \<Rightarrow> bool" where
  "matchalpha c \<longleftrightarrow> (0x61 \<le> c \<and> c \<le> 0x7A) \<or> (0x41 \<le> c \<and> c \<le> 0x5A)"

definition matchwhitespace :: "byte \<Rightarrow> bool" where
  "matchwhitespace c \<longleftrightarrow> c = 0x20 \<or> c = 0x09 \<or> c = 0x0A \<or> c = 0x0D \<or> c = 0x0C \<or> c = 0x0B"

definition matchalphanum :: "byte \<Rightarrow> bool" where
  "matchalphanum c \<longleftrightarrow> c = 0x5F \<or> matchalpha c \<or> matchdigit c"

definition matchdot :: "byte \<Rightarrow> bool" where
  "matchdot c \<longleftrightarrow> c \<noteq> 0x0A \<and> c \<noteq> 0x0D"

definition ismetachar :: "byte \<Rightarrow> bool" where
  "ismetachar c \<longleftrightarrow> c \<in> {0x73, 0x53, 0x77, 0x57, 0x64, 0x44}"

definition matchmetachar :: "byte \<Rightarrow> byte \<Rightarrow> bool" where
  "matchmetachar c m =
     (if m = 0x64 then matchdigit c else if m = 0x44 then \<not> matchdigit c
      else if m = 0x77 then matchalphanum c else if m = 0x57 then \<not> matchalphanum c
      else if m = 0x73 then matchwhitespace c else if m = 0x53 then \<not> matchwhitespace c else c = m)"

text \<open>The classes are read from the buffer at an index; its characters are signed, as on the usual platforms.\<close>

definition matchrange :: "bytes \<Rightarrow> byte \<Rightarrow> nat \<Rightarrow> bool option" where
  "matchrange buf c k =
     (if c = 0x2D then Some False
      else do {
        s0 \<leftarrow> rd buf k 1;
        if hd s0 = 0 \<or> hd s0 = 0x2D then Some False
        else do {
          s1 \<leftarrow> rd buf (k + 1) 1;
          if hd s1 \<noteq> 0x2D then Some False
          else do {
            s2 \<leftarrow> rd buf (k + 2) 1;
            Some (hd s2 \<noteq> 0 \<and> sint (hd s0) \<le> sint c \<and> sint c \<le> sint (hd s2)) } } })"

function matchcharclass :: "bytes \<Rightarrow> byte \<Rightarrow> nat \<Rightarrow> bool option" where
  "matchcharclass buf c k = do {
     b \<leftarrow> matchrange buf c k;
     if b then Some True
     else do {
       s0 \<leftarrow> rd buf k 1;
       if hd s0 = 0x5C then do {
         s1 \<leftarrow> rd buf (k + 1) 1;
         if matchmetachar c (hd s1) then Some True
         else if c = hd s1 \<and> \<not> ismetachar c then Some True
         else if hd s1 \<noteq> 0 then matchcharclass buf c (k + 2) else Some False }
       else if c = hd s0 then
         if c = 0x2D then do {
           p \<leftarrow> (if k = 0 then None else rd buf (k - 1) 1);
           n \<leftarrow> rd buf (k + 1) 1;
           Some (hd p = 0 \<or> hd n = 0) }
         else Some True
       else if hd s0 \<noteq> 0 then matchcharclass buf c (k + 1) else Some False } }"
  by pat_completeness auto
termination
  by (relation "measure (\<lambda>(buf, _, k). length buf - k)") (auto simp: rd_def split: if_splits)

declare matchcharclass.simps [simp del]

text \<open>A literal is an unsigned character, the character of the text a signed one: a byte from \<open>0x80\<close> on matches no literal.\<close>

definition matchone :: "bytes \<Rightarrow> regex_t \<Rightarrow> byte \<Rightarrow> bool option" where
  "matchone buf p c =
     (case rtype p of
        DOT \<Rightarrow> Some (matchdot c)
      | CHAR_CLASS \<Rightarrow> (case runion p of Ccl k \<Rightarrow> matchcharclass buf c k | _ \<Rightarrow> None)
      | INV_CHAR_CLASS \<Rightarrow> (case runion p of Ccl k \<Rightarrow> map_option Not (matchcharclass buf c k) | _ \<Rightarrow> None)
      | DIGIT \<Rightarrow> Some (matchdigit c) | NOT_DIGIT \<Rightarrow> Some (\<not> matchdigit c)
      | ALPHA \<Rightarrow> Some (matchalphanum c) | NOT_ALPHA \<Rightarrow> Some (\<not> matchalphanum c)
      | WHITESPACE \<Rightarrow> Some (matchwhitespace c) | NOT_WHITESPACE \<Rightarrow> Some (\<not> matchwhitespace c)
      | _ \<Rightarrow> (case runion p of Ch ch \<Rightarrow> Some (uint ch = sint c) | _ \<Rightarrow> None))"

text \<open>How many characters a repeated symbol takes, and the tries from the longest repetition on. The matcher for the rest of the pattern is an argument.\<close>

primrec match_run :: "bytes \<Rightarrow> regex_t \<Rightarrow> bytes \<Rightarrow> nat option" where
  "match_run buf p [] = Some 0"
| "match_run buf p (c # text) = do { b \<leftarrow> matchone buf p c; if b then map_option Suc (match_run buf p text) else Some 0 }"

type_synonym matcher = "bytes \<Rightarrow> int \<Rightarrow> (bool \<times> int) option"

primrec backtrack :: "matcher \<Rightarrow> nat \<Rightarrow> bytes \<Rightarrow> nat \<Rightarrow> int \<Rightarrow> (bool \<times> int) option" where
  "backtrack m 0 text low ml = Some (False, ml)"
| "backtrack m (Suc n) text low ml = do {
     (r, ml) \<leftarrow> m (drop (low + n) text) ml;
     if r then Some (True, ml) else backtrack m n text low (ml - 1) }"

definition matchstar :: "bytes \<Rightarrow> regex_t \<Rightarrow> matcher \<Rightarrow> matcher" where
  "matchstar buf p m text ml = do {
     k \<leftarrow> match_run buf p text;
     (r, ml') \<leftarrow> backtrack m (k + 1) text 0 (ml + int k);
     Some (if r then (True, ml') else (False, ml)) }"

definition matchplus :: "bytes \<Rightarrow> regex_t \<Rightarrow> matcher \<Rightarrow> matcher" where
  "matchplus buf p m text ml = do {
     k \<leftarrow> match_run buf p text;
     backtrack m k text 1 (ml + int k) }"

definition matchquestion :: "bytes \<Rightarrow> regex_t \<Rightarrow> matcher \<Rightarrow> matcher" where
  "matchquestion buf p m text ml =
     (if rtype p = UNUSED then Some (True, ml)
      else do {
        (r, ml) \<leftarrow> m text ml;
        if r then Some (True, ml)
        else case text of
          [] \<Rightarrow> Some (False, ml)
        | c # rest \<Rightarrow> do {
            b \<leftarrow> matchone buf p c;
            if b then do { (r, ml) \<leftarrow> m rest ml; Some (if r then (True, ml + 1) else (False, ml)) }
            else Some (False, ml) } })"

text \<open>The loop of \<open>matchpattern\<close>, with the length at its start in \<open>pre\<close>.\<close>

fun pattern_loop :: "bytes \<Rightarrow> int \<Rightarrow> regex_t list \<Rightarrow> matcher" where
  "pattern_loop buf pre [] text ml = None"
| "pattern_loop buf pre (p # rest) text ml =
     (if rtype p = UNUSED then matchquestion buf p (\<lambda>text ml. None) text ml
      else case rest of
        [] \<Rightarrow> None
      | q # pat \<Rightarrow>
          if rtype q = QUESTIONMARK then matchquestion buf p (\<lambda>text ml. pattern_loop buf ml pat text ml) text ml
          else if rtype q = STAR then matchstar buf p (\<lambda>text ml. pattern_loop buf ml pat text ml) text ml
          else if rtype q = PLUS then matchplus buf p (\<lambda>text ml. pattern_loop buf ml pat text ml) text ml
          else if rtype p = END \<and> rtype q = UNUSED then Some (text = [], ml)
          else (case text of
              [] \<Rightarrow> Some (False, pre)
            | c # text \<Rightarrow> do { b \<leftarrow> matchone buf p c; if b then pattern_loop buf pre rest text (ml + 1) else Some (False, pre) }))"

definition matchpattern :: "bytes \<Rightarrow> regex_t list \<Rightarrow> matcher" where
  "matchpattern buf pat text ml = pattern_loop buf ml pat text ml"

fun re_matchp_loop :: "bytes \<Rightarrow> regex_t list \<Rightarrow> int \<Rightarrow> bytes \<Rightarrow> int \<Rightarrow> (int \<times> int) option" where
  "re_matchp_loop buf pat idx text ml = do {
     (r, ml) \<leftarrow> matchpattern buf pat text ml;
     if r then Some (if text = [] then -1 else idx, ml)
     else case text of [] \<Rightarrow> Some (-1, ml) | _ # text \<Rightarrow> re_matchp_loop buf pat (idx + 1) text ml }"

declare re_matchp_loop.simps [simp del]

text \<open>The position of the match, or \<open>-1\<close>, and its length. A null pointer for the pattern matches nothing.\<close>

definition re_matchp :: "bytes \<Rightarrow> regex_t list option \<Rightarrow> bytes \<Rightarrow> (int \<times> int) option" where
  "re_matchp buf pattern text =
     (case pattern of
        None \<Rightarrow> Some (-1, 0)
      | Some (p # rest) \<Rightarrow>
          if rtype p = BEGIN then map_option (\<lambda>(r, ml). (if r then 0 else -1, ml)) (matchpattern buf rest text 0)
          else re_matchp_loop buf (p # rest) 0 text 0
      | Some [] \<Rightarrow> None)"


subsection \<open>The language of an expression\<close>

definition sym_ok :: "bytes \<Rightarrow> regex_t \<Rightarrow> byte \<Rightarrow> bool" where
  "sym_ok buf p c \<longleftrightarrow> matchone buf p c = Some True"

fun re_lang :: "bytes \<Rightarrow> regex_t list \<Rightarrow> bytes \<Rightarrow> bool" where
  "re_lang buf [] w = False"
| "re_lang buf (p # rest) w =
     (if rtype p = UNUSED then w = []
      else case rest of
        [] \<Rightarrow> False
      | q # pat \<Rightarrow>
          if rtype q = QUESTIONMARK then re_lang buf pat w \<or> (case w of [] \<Rightarrow> False | c # w \<Rightarrow> sym_ok buf p c \<and> re_lang buf pat w)
          else if rtype q = STAR then \<exists>k \<in> {..length w}. list_all (sym_ok buf p) (take k w) \<and> re_lang buf pat (drop k w)
          else if rtype q = PLUS then \<exists>k \<in> {1..length w}. list_all (sym_ok buf p) (take k w) \<and> re_lang buf pat (drop k w)
          else if rtype p = END \<and> rtype q = UNUSED then w = []
          else (case w of [] \<Rightarrow> False | c # w \<Rightarrow> sym_ok buf p c \<and> re_lang buf rest w))"

text \<open>The number of repetitions and options in an expression.\<close>

fun quantifiers :: "regex_t list \<Rightarrow> nat" where
  "quantifiers [] = 0"
| "quantifiers (p # rest) =
     (if rtype p = UNUSED then 0
      else case rest of
        [] \<Rightarrow> 0
      | q # pat \<Rightarrow> if rtype q \<in> {QUESTIONMARK, STAR, PLUS} then Suc (quantifiers pat) else quantifiers rest)"

text \<open>
  A matcher is exact for a language when it fails only with the length it was given, and when it succeeds only on a text
  that starts with a word of the language, whose length it adds.
\<close>

definition exact :: "(bytes \<Rightarrow> bool) \<Rightarrow> matcher \<Rightarrow> bool" where
  "exact L m \<longleftrightarrow> (\<forall>text ml r ml'. m text ml = Some (r, ml') \<longrightarrow>
     (if r then \<exists>k \<le> length text. L (take k text) \<and> ml' = ml + int k else ml' = ml))"

lemma exactI:
  assumes "\<And>text ml ml'. m text ml = Some (True, ml') \<Longrightarrow> \<exists>k \<le> length text. L (take k text) \<and> ml' = ml + int k"
    and "\<And>text ml ml'. m text ml = Some (False, ml') \<Longrightarrow> ml' = ml"
  shows "exact L m"
  using assms unfolding exact_def by (auto split: if_split)

lemma exactD:
  "exact L m \<Longrightarrow> m text ml = Some (True, ml') \<Longrightarrow> \<exists>k \<le> length text. L (take k text) \<and> ml' = ml + int k"
  "exact L m \<Longrightarrow> m text ml = Some (False, ml') \<Longrightarrow> ml' = ml"
  unfolding exact_def by (fastforce split: if_splits)+

lemma match_run_sym:
  "match_run buf p text = Some k \<Longrightarrow> k \<le> length text \<and> list_all (sym_ok buf p) (take k text)"
  by (induction "text" arbitrary: k) (auto simp: sym_ok_def bind_eq_Some_conv split: if_splits)

lemma backtrack_exact:
  assumes "exact L m"
  shows "backtrack m n text low ml = Some (True, ml') \<Longrightarrow>
      \<exists>j < n. \<exists>k \<le> length text - (low + j). L (take k (drop (low + j) text)) \<and> ml' = ml - int (n - 1 - j) + int k"
    and "backtrack m n text low ml = Some (False, ml') \<Longrightarrow> ml' = ml - int n"
proof (induction n arbitrary: ml)
  case (Suc n)
  {
    case 1
    then obtain r ml1 where m: "m (drop (low + n) text) ml = Some (r, ml1)" by (auto simp: bind_eq_Some_conv)
    show ?case
    proof (cases r)
      case True
      then show ?thesis using 1 m exactD(1) [OF assms, of "drop (low + n) text" ml ml1] by (intro exI [of _ n]) auto
    next
      case False
      then have "ml1 = ml" using m exactD(2) [OF assms] by simp
      then have "backtrack m n text low (ml - 1) = Some (True, ml')" using 1 m False by simp
      from Suc.IH(1) [OF this] obtain j k where "j < n" "k \<le> length text - (low + j)" "L (take k (drop (low + j) text))"
        "ml' = ml - 1 - int (n - 1 - j) + int k" by blast
      moreover from \<open>j < n\<close> have "1 + int (n - 1 - j) = int (Suc n - 1 - j)" by simp
      ultimately show ?thesis by (intro exI [of _ j]) (auto simp: algebra_simps)
    qed
  next
    case 2
    then obtain r ml1 where m: "m (drop (low + n) text) ml = Some (r, ml1)" "\<not> r" by (auto simp: bind_eq_Some_conv split: if_splits)
    then have "ml1 = ml" using exactD(2) [OF assms] by simp
    then show ?case using 2 m Suc.IH(2) [of "ml - 1"] by simp
  }
qed simp_all


lemma run_word:
  assumes "j \<le> n" and "match_run buf p text = Some n" and "k \<le> length text - j" and "L (take k (drop j text))"
  shows "j + k \<le> length text" and "list_all (sym_ok buf p) (take j (take (j + k) text))" and "L (drop j (take (j + k) text))"
proof -
  have n: "n \<le> length text" "list_all (sym_ok buf p) (take n text)" using match_run_sym [OF assms(2)] by simp_all
  then show "j + k \<le> length text" using assms(1,3) by simp
  have "set (take j text) \<subseteq> set (take n text)" using assms(1) by (rule set_take_subset_set_take)
  then show "list_all (sym_ok buf p) (take j (take (j + k) text))"
    using n(2) by (auto simp: list_all_iff)
  show "L (drop j (take (j + k) text))" using assms(4) by (simp add: drop_take)
qed

lemma matchstar_exact:
  assumes "exact L m"
  shows "exact (\<lambda>w. \<exists>k \<in> {..length w}. list_all (sym_ok buf p) (take k w) \<and> L (drop k w)) (matchstar buf p m)"
proof (rule exactI)
  fix w ml ml'
  assume "matchstar buf p m w ml = Some (True, ml')"
  then obtain n where n: "match_run buf p w = Some n" and b: "backtrack m (n + 1) w 0 (ml + int n) = Some (True, ml')"
    by (auto simp: matchstar_def bind_eq_Some_conv simp del: backtrack.simps split: if_splits)
  from backtrack_exact(1) [OF assms b] obtain j k where jk: "j < n + 1" "k \<le> length w - j" "L (take k (drop j w))"
    "ml' = ml + int n - int (n + 1 - 1 - j) + int k" by auto
  then have "ml' = ml + int (j + k)" by simp
  moreover have "j \<le> n" using jk(1) by simp
  note r = run_word [of j n buf p w k L, OF this n jk(2,3)]
  ultimately show "\<exists>k \<le> length w. (\<exists>i \<in> {..length (take k w)}. list_all (sym_ok buf p) (take i (take k w)) \<and> L (drop i (take k w))) \<and> ml' = ml + int k"
    by (intro exI [of _ "j + k"] conjI bexI [of _ j]) (use r in simp_all)
next
  fix w ml ml'
  assume "matchstar buf p m w ml = Some (False, ml')"
  then show "ml' = ml" by (auto simp: matchstar_def bind_eq_Some_conv split: if_splits)
qed

lemma matchplus_exact:
  assumes "exact L m"
  shows "exact (\<lambda>w. \<exists>k \<in> {1..length w}. list_all (sym_ok buf p) (take k w) \<and> L (drop k w)) (matchplus buf p m)"
proof (rule exactI)
  fix w ml ml'
  assume "matchplus buf p m w ml = Some (True, ml')"
  then obtain n where n: "match_run buf p w = Some n" and b: "backtrack m n w 1 (ml + int n) = Some (True, ml')"
    by (auto simp: matchplus_def bind_eq_Some_conv)
  from backtrack_exact(1) [OF assms b] obtain j k where jk: "j < n" "k \<le> length w - (1 + j)" "L (take k (drop (1 + j) w))"
    "ml' = ml + int n - int (n - 1 - j) + int k" by auto
  then have "ml' = ml + int (1 + j + k)" by simp
  moreover have "1 + j \<le> n" using jk(1) by simp
  note r = run_word [of "1 + j" n buf p w k L, OF this n jk(2,3)]
  ultimately show "\<exists>k \<le> length w. (\<exists>i \<in> {1..length (take k w)}. list_all (sym_ok buf p) (take i (take k w)) \<and> L (drop i (take k w))) \<and> ml' = ml + int k"
    by (intro exI [of _ "1 + j + k"] conjI bexI [of _ "1 + j"]) (use r in simp_all)
next
  fix w ml ml'
  assume "matchplus buf p m w ml = Some (False, ml')"
  then show "ml' = ml" using backtrack_exact(2) [OF assms] by (fastforce simp: matchplus_def bind_eq_Some_conv)
qed

lemma matchquestion_exact:
  assumes "exact L m" and "rtype p \<noteq> UNUSED"
  shows "exact (\<lambda>w. L w \<or> (case w of [] \<Rightarrow> False | c # w \<Rightarrow> sym_ok buf p c \<and> L w)) (matchquestion buf p m)"
proof (rule exactI)
  fix w ml ml'
  assume q: "matchquestion buf p m w ml = Some (True, ml')"
  then obtain r ml1 where m: "m w ml = Some (r, ml1)" using assms(2) by (auto simp: matchquestion_def bind_eq_Some_conv)
  show "\<exists>k \<le> length w. (L (take k w) \<or> (case take k w of [] \<Rightarrow> False | c # w \<Rightarrow> sym_ok buf p c \<and> L w)) \<and> ml' = ml + int k"
  proof (cases r)
    case True
    then show ?thesis using q m exactD(1) [OF assms(1), of w ml ml'] assms(2) by (auto simp: matchquestion_def)
  next
    case False
    then have ml1: "ml1 = ml" using m exactD(2) [OF assms(1)] by simp
    obtain c rest where w: "w = c # rest" using q m False assms(2) by (cases w) (auto simp: matchquestion_def)
    with q m False assms(2) ml1 obtain ml2 where "sym_ok buf p c" "m rest ml = Some (True, ml2)" "ml' = ml2 + 1"
      by (auto simp: matchquestion_def sym_ok_def bind_eq_Some_conv split: if_splits)
    moreover from this obtain k where "k \<le> length rest" "L (take k rest)" "ml2 = ml + int k" using exactD(1) [OF assms(1)] by blast
    ultimately show ?thesis by (intro exI [of _ "Suc k"]) (simp add: w)
  qed
next
  fix w ml ml'
  assume q: "matchquestion buf p m w ml = Some (False, ml')"
  then obtain ml1 where m: "m w ml = Some (False, ml1)"
    using assms(2) by (auto simp: matchquestion_def bind_eq_Some_conv split: if_splits)
  then have ml1: "ml1 = ml" using exactD(2) [OF assms(1)] by blast
  show "ml' = ml"
  proof (cases w)
    case Nil
    then show ?thesis using q m ml1 assms(2) by (simp add: matchquestion_def)
  next
    case (Cons c rest)
    then show ?thesis using q m ml1 assms(2) exactD(2) [OF assms(1), of rest ml ml']
      by (auto simp: matchquestion_def bind_eq_Some_conv split: if_splits)
  qed
qed

subsection \<open>Full matches\<close>

definition no_end :: "regex_t list \<Rightarrow> bool" where
  "no_end pat \<longleftrightarrow> (\<forall>p \<in> set pat. rtype p \<noteq> END)"

declare pattern_loop.simps(2) [simp del] re_lang.simps(2) [simp del] quantifiers.simps(2) [simp del]

definition plain_step :: "regex_t \<Rightarrow> regex_t list \<Rightarrow> bool" where
  "plain_step p rest \<longleftrightarrow> rtype p \<noteq> UNUSED \<and> rtype p \<noteq> END \<and> rest \<noteq> [] \<and> rtype (hd rest) \<notin> {QUESTIONMARK, STAR, PLUS}"

lemma plain_step_simps:
  assumes "plain_step p rest"
  shows "pattern_loop buf pre (p # rest) text ml = (case text of
      [] \<Rightarrow> Some (False, pre)
    | c # text \<Rightarrow> do { b \<leftarrow> matchone buf p c; if b then pattern_loop buf pre rest text (ml + 1) else Some (False, pre) })"
    and "re_lang buf (p # rest) w = (case w of [] \<Rightarrow> False | c # w \<Rightarrow> sym_ok buf p c \<and> re_lang buf rest w)"
    and "quantifiers (p # rest) = quantifiers rest"
proof -
  obtain q pat where r: "rest = q # pat" using assms by (cases rest) (auto simp: plain_step_def)
  have q: "rtype p \<noteq> UNUSED" "rtype p \<noteq> END" "rtype q \<noteq> QUESTIONMARK" "rtype q \<noteq> STAR" "rtype q \<noteq> PLUS"
    using assms by (simp_all add: plain_step_def r)
  show "pattern_loop buf pre (p # rest) text ml = (case text of
      [] \<Rightarrow> Some (False, pre)
    | c # text \<Rightarrow> do { b \<leftarrow> matchone buf p c; if b then pattern_loop buf pre rest text (ml + 1) else Some (False, pre) })"
    by (subst pattern_loop.simps(2)) (simp add: r q)
  show "re_lang buf (p # rest) w = (case w of [] \<Rightarrow> False | c # w \<Rightarrow> sym_ok buf p c \<and> re_lang buf rest w)"
    by (subst re_lang.simps(2)) (simp add: r q)
  show "quantifiers (p # rest) = quantifiers rest"
    by (subst quantifiers.simps(2)) (simp add: r q)
qed

lemma quantifiers_cases:
  assumes "no_end (p # rest)"
  obtains "rtype p = UNUSED" | "rtype p \<noteq> UNUSED" "rest = []" | "plain_step p rest"
    | q pat where "rtype p \<noteq> UNUSED" "rest = q # pat" "rtype q \<in> {QUESTIONMARK, STAR, PLUS}"
  using assms by (cases rest) (auto simp: plain_step_def no_end_def)

lemma pattern_loop_stop:
  "rtype p = UNUSED \<Longrightarrow> pattern_loop buf pre (p # rest) text ml = Some (True, ml)" "rtype p = UNUSED \<Longrightarrow> re_lang buf (p # rest) w = (w = [])"
  "rtype p \<noteq> UNUSED \<Longrightarrow> pattern_loop buf pre [p] text ml = None"
  by (simp_all add: pattern_loop.simps re_lang.simps matchquestion_def)

lemma pattern_loop_plain:
  assumes "quantifiers pat = 0" and "no_end pat"
  shows "pattern_loop buf pre pat text ml = Some (r, ml') \<Longrightarrow>
    (if r then \<exists>k \<le> length text. re_lang buf pat (take k text) \<and> ml' = ml + int k else ml' = pre)"
  using assms
proof (induction pat arbitrary: "text" ml)
  case (Cons p rest)
  have ne: "no_end rest" using Cons.prems(3) by (simp add: no_end_def)
  show ?case
  proof (cases rule: quantifiers_cases [OF Cons.prems(3)])
    case 1
    then show ?thesis using Cons.prems(1) by (auto simp: pattern_loop_stop)
  next
    case 2
    then show ?thesis using Cons.prems(1) by (simp add: pattern_loop_stop)
  next
    case 3
    note step = plain_step_simps [OF 3]
    show ?thesis
    proof (cases "text")
      case Nil
      then show ?thesis using Cons.prems(1) by (auto simp: step)
    next
      case (Cons c w)
      show ?thesis
      proof (cases "matchone buf p c = Some True")
        case True
        then have loop: "pattern_loop buf pre rest w (ml + 1) = Some (r, ml')" using Cons.prems(1) by (simp add: step \<open>text = c # w\<close>)
        have zero: "quantifiers rest = 0" using Cons.prems(2) by (simp add: step)
        show ?thesis
        proof (cases r)
          case r: True
          with Cons.IH [OF loop zero ne] obtain k where "k \<le> length w" "re_lang buf rest (take k w)" "ml' = ml + 1 + int k" by auto
          then show ?thesis using True r by (simp add: step \<open>text = c # w\<close> sym_ok_def) (rule exI [of _ "Suc k"], simp add: sym_ok_def)
        next
          case r: False
          then show ?thesis using Cons.IH [OF loop zero ne] by simp
        qed
      next
        case False
        then show ?thesis using Cons.prems(1) by (auto simp: step \<open>text = c # w\<close> bind_eq_Some_conv split: if_splits)
      qed
    qed
  next
    case (4 q pat)
    then show ?thesis using Cons.prems(2) by (simp add: quantifiers.simps)
  qed
qed simp


lemma pattern_loop_exact: "quantifiers pat = 0 \<Longrightarrow> no_end pat \<Longrightarrow> exact (re_lang buf pat) (\<lambda>text ml. pattern_loop buf ml pat text ml)"
  using pattern_loop_plain unfolding exact_def by blast

lemma pattern_loop_one:
  assumes "quantifiers pat \<le> 1" and "no_end pat" and "pattern_loop buf pre pat text ml = Some (True, ml')"
  shows "\<exists>k \<le> length text. re_lang buf pat (take k text) \<and> ml' = ml + int k"
  using assms
proof (induction pat arbitrary: "text" ml)
  case (Cons p rest)
  have ne: "no_end rest" using Cons.prems(2) by (simp add: no_end_def)
  show ?case
  proof (cases rule: quantifiers_cases [OF Cons.prems(2)])
    case 1
    then show ?thesis using Cons.prems(3) by (auto simp: pattern_loop_stop)
  next
    case 2
    then show ?thesis using Cons.prems(3) by (simp add: pattern_loop_stop)
  next
    case 3
    note step = plain_step_simps [OF 3]
    obtain c w where w: "text = c # w" using Cons.prems(3) by (cases "text") (simp_all add: step)
    have "sym_ok buf p c" and "pattern_loop buf pre rest w (ml + 1) = Some (True, ml')"
      using Cons.prems(3) by (auto simp: step w sym_ok_def bind_eq_Some_conv split: if_splits)
    moreover from Cons.IH [OF _ ne this(2)] Cons.prems(1) obtain k where "k \<le> length w" "re_lang buf rest (take k w)" "ml' = ml + 1 + int k"
      by (auto simp: step)
    ultimately show ?thesis by (intro exI [of _ "Suc k"]) (simp add: step w)
  next
    case (4 q pat)
    then have "quantifiers pat = 0" "no_end pat" using Cons.prems(1) ne by (simp_all add: quantifiers.simps(2) no_end_def)
    note rest = pattern_loop_exact [OF this, of buf]
    note E = matchquestion_exact [OF rest 4(1), of buf] matchstar_exact [OF rest, of buf p] matchplus_exact [OF rest, of buf p]
    have L: "re_lang buf (p # rest) w = (if rtype q = QUESTIONMARK then re_lang buf pat w \<or> (case w of [] \<Rightarrow> False | c # w \<Rightarrow> sym_ok buf p c \<and> re_lang buf pat w)
          else if rtype q = STAR then \<exists>k \<in> {..length w}. list_all (sym_ok buf p) (take k w) \<and> re_lang buf pat (drop k w)
          else \<exists>k \<in> {1..length w}. list_all (sym_ok buf p) (take k w) \<and> re_lang buf pat (drop k w))" for w
      using 4 by (subst re_lang.simps(2)) auto
    let ?m = "\<lambda>text ml. pattern_loop buf ml pat text ml"
    have "(if rtype q = QUESTIONMARK then matchquestion buf p ?m text ml
      else if rtype q = STAR then matchstar buf p ?m text ml else matchplus buf p ?m text ml) = Some (True, ml')"
      using Cons.prems(3) 4 by (subst (asm) pattern_loop.simps(2)) auto
    then show ?thesis
      using exactD(1) [OF E(1), of "text" ml ml'] exactD(1) [OF E(2), of "text" ml ml'] exactD(1) [OF E(3), of "text" ml ml']
      unfolding L by (auto split: if_splits)
  qed
qed simp

text \<open>
  C34. The expressions for the names of communities, as far as they have at most one quantifier (a star, a plus or a question mark): a match that starts at the first
  character and is as long as the name, which is what the supernode asks for, is one of the whole name with the language of the expression.
\<close>

theorem re_matchp_sound:
  assumes "quantifiers pat \<le> 1" and "no_end pat" and "\<forall>p \<in> set pat. rtype p \<noteq> BEGIN"
    and "re_matchp buf (Some pat) name = Some (0, int (length name))"
  shows "re_lang buf pat name"
proof -
  obtain p rest where pat: "pat = p # rest" using assms(4) by (cases pat) (auto simp: re_matchp_def)
  have loop: "re_matchp_loop buf pat 0 name 0 = Some (0, int (length name))" using assms(3,4) by (simp add: re_matchp_def pat)
  have later: "i \<le> j \<or> j = -1" if "re_matchp_loop buf pat i w ml = Some (j, ml')" for i w ml j ml'
    using that
  proof (induction buf pat i w ml rule: re_matchp_loop.induct)
    case (1 buf pat i w ml)
    then show ?case by (subst (asm) (2) re_matchp_loop.simps) (fastforce simp: bind_eq_Some_conv split: if_splits list.splits)
  qed
  obtain r ml where m: "matchpattern buf pat name 0 = Some (r, ml)" using loop by (subst (asm) re_matchp_loop.simps) (auto simp: bind_eq_Some_conv)
  have "r"
  proof (rule ccontr)
    assume "\<not> r"
    then obtain c w where "re_matchp_loop buf pat 1 w ml = Some (0, int (length name))"
      using loop m by (subst (asm) re_matchp_loop.simps) (auto split: list.splits)
    then show False using later by fastforce
  qed
  then have "ml = int (length name)" using loop m by (subst (asm) re_matchp_loop.simps) (simp split: if_splits)
  then have "\<exists>k \<le> length name. re_lang buf pat (take k name) \<and> int (length name) = 0 + int k"
    using m \<open>r\<close> by (intro pattern_loop_one [OF assms(1,2)]) (simp add: matchpattern_def)
  then show ?thesis by auto
qed


subsection \<open>Wrong lengths\<close>

text \<open>Matching commutes with a shift of the length it starts from.\<close>

definition shifted :: "int \<Rightarrow> (bool \<times> int) option \<Rightarrow> (bool \<times> int) option" where
  "shifted x = map_option (\<lambda>(r, l). (r, l + x))"

lemma shifted_simps [simp]: "shifted x None = None" "shifted x (Some (r, l)) = Some (r, l + x)"
  by (simp_all add: shifted_def)

lemma backtrack_shift:
  assumes "\<And>text ml. m text (ml + x) = shifted x (m text ml)"
  shows "backtrack m n text low (ml + x) = shifted x (backtrack m n text low ml)"
proof (induction n arbitrary: ml)
  case (Suc n)
  show ?case using Suc [of "_ - 1"] by (cases "m (drop (low + n) text) ml") (auto simp: assms algebra_simps)
qed simp

lemma matchers_shift:
  assumes "\<And>text ml. m text (ml + x) = shifted x (m text ml)"
  shows "matchstar buf p m text (ml + x) = shifted x (matchstar buf p m text ml)"
    and "matchplus buf p m text (ml + x) = shifted x (matchplus buf p m text ml)"
    and "matchquestion buf p m text (ml + x) = shifted x (matchquestion buf p m text ml)"
proof -
  have b: "backtrack m n text low (ml + x + int k) = shifted x (backtrack m n text low (ml + int k))" for n low k
    using backtrack_shift [of m x, OF assms, of n "text" low "ml + int k"] by (simp add: algebra_simps)
  show "matchplus buf p m text (ml + x) = shifted x (matchplus buf p m text ml)"
    by (cases "match_run buf p text") (simp_all add: matchplus_def b)
  show "matchstar buf p m text (ml + x) = shifted x (matchstar buf p m text ml)"
  proof (cases "match_run buf p text")
    case (Some k)
    then show ?thesis
      by (cases "backtrack m (k + 1) text 0 (ml + int k)") (auto simp: matchstar_def b simp del: backtrack.simps)
  qed (simp add: matchstar_def)
  show "matchquestion buf p m text (ml + x) = shifted x (matchquestion buf p m text ml)"
  proof (cases "rtype p = UNUSED \<or> m text ml = None")
    case False
    then obtain r l where "m text ml = Some (r, l)" by auto
    then show ?thesis
      by (auto simp: matchquestion_def assms bind_eq_Some_conv split: list.split bind_splits)
  qed (auto simp: matchquestion_def assms)
qed

lemma pattern_loop_shift: "pattern_loop buf (pre + x) pat text (ml + x) = shifted x (pattern_loop buf pre pat text ml)"
proof (induction "length pat" arbitrary: pat pre "text" ml rule: less_induct)
  case less
  show ?case
  proof (cases pat)
    case (Cons p rest)
    show ?thesis
    proof (cases rest)
      case Nil
      then show ?thesis by (simp add: \<open>pat = p # rest\<close> pattern_loop.simps matchquestion_def)
    next
      case rest: (Cons q pat')
      have IH: "pattern_loop buf (ml + x) pat' text (ml + x) = shifted x (pattern_loop buf ml pat' text ml)" for "text" ml
        using less [of pat'] by (simp add: \<open>pat = p # rest\<close> rest)
      have IH': "pattern_loop buf (pre + x) rest text (ml + x + 1) = shifted x (pattern_loop buf pre rest text (ml + 1))" for "text"
        using less [of rest pre "text" "ml + 1"] by (simp add: \<open>pat = p # rest\<close> algebra_simps)
      note M = matchers_shift [of "\<lambda>text ml. pattern_loop buf ml pat' text ml" x, OF IH]
      consider "rtype p = UNUSED" | "rtype q \<in> {QUESTIONMARK, STAR, PLUS}" | "rtype p = END" "rtype q = UNUSED" | "plain_step p rest"
        | "rtype p = END" "rtype q \<notin> {QUESTIONMARK, STAR, PLUS, UNUSED}"
        by (auto simp: plain_step_def rest)
      then show ?thesis
      proof cases
        case 4
        note step = plain_step_simps(1) [OF this]
        show ?thesis
        proof (cases "text")
          case (Cons c w)
          then show ?thesis using IH' [of w] by (cases "matchone buf p c") (simp_all add: step \<open>pat = p # rest\<close>)
        qed (simp add: step \<open>pat = p # rest\<close>)
      next
        case 5
        then have step: "pattern_loop buf pre (p # rest) text ml = (case text of [] \<Rightarrow> Some (False, pre)
          | c # text \<Rightarrow> do { b \<leftarrow> matchone buf p c; if b then pattern_loop buf pre rest text (ml + 1) else Some (False, pre) })" for pre "text" ml
          by (subst pattern_loop.simps(2)) (auto simp: rest)
        show ?thesis
        proof (cases "text")
          case (Cons c w)
          then show ?thesis using IH' [of w] by (cases "matchone buf p c") (simp_all add: step \<open>pat = p # rest\<close>)
        qed (simp add: step \<open>pat = p # rest\<close>)
      next
        case 1
        then show ?thesis by (simp add: \<open>pat = p # rest\<close> pattern_loop_stop(1))
      next
        case 2
        show ?thesis
        proof (cases "rtype p = UNUSED")
          case False
          then show ?thesis using 2 M [of buf p "text" ml]
            unfolding \<open>pat = p # rest\<close> rest pattern_loop.simps(2) by auto
        qed (simp add: \<open>pat = p # rest\<close> pattern_loop_stop(1))
      next
        case 3
        then show ?thesis by (simp add: \<open>pat = p # rest\<close> rest pattern_loop.simps(2))
      qed
    qed
  qed simp
qed

lemma matchpattern_at: "matchpattern buf pat text ml = shifted ml (matchpattern buf pat text 0)"
  using pattern_loop_shift [of buf 0 ml pat "text" 0] by (simp add: matchpattern_def)

text \<open>
  Plain symbols \<open>ps\<close> before a quantified symbol: a try that gets over the plain symbols and fails behind them leaves them in the length, and
  one that fails within them does not.
\<close>

definition plain_symbols :: "regex_t list \<Rightarrow> bool" where
  "plain_symbols ps \<longleftrightarrow> (\<forall>p \<in> set ps. rtype p \<notin> {UNUSED, END, QUESTIONMARK, STAR, PLUS})"

definition prefix_ok :: "bytes \<Rightarrow> regex_t list \<Rightarrow> bytes \<Rightarrow> bool" where
  "prefix_ok buf ps w \<longleftrightarrow> list_all2 (sym_ok buf) ps (take (length ps) w)"

lemma quantified_exact:
  assumes "rtype q \<notin> {UNUSED, END, QUESTIONMARK, STAR, PLUS}" and "rtype k \<in> {QUESTIONMARK, STAR, PLUS}" and "quantifiers tail = 0" and "no_end tail"
    and "pattern_loop buf pre (q # k # tail) text ml = Some (False, ml')"
  shows "ml' = ml"
proof -
  note rest = pattern_loop_exact [OF assms(3,4), of buf]
  have q: "rtype q \<noteq> UNUSED" using assms(1) by simp
  let ?m = "\<lambda>text ml. pattern_loop buf ml tail text ml"
  have "(if rtype k = QUESTIONMARK then matchquestion buf q ?m text ml
      else if rtype k = STAR then matchstar buf q ?m text ml else matchplus buf q ?m text ml) = Some (False, ml')"
    using assms(5,2) q by (subst (asm) pattern_loop.simps(2)) auto
  then show ?thesis
    using exactD(2) [OF matchquestion_exact [OF rest q, of buf], of "text" ml ml'] exactD(2) [OF matchstar_exact [OF rest, of buf q], of "text" ml ml']
      exactD(2) [OF matchplus_exact [OF rest, of buf q], of "text" ml ml'] by (auto split: if_splits)
qed

lemma failed_try_length:
  assumes "plain_symbols ps" and "rtype q \<notin> {UNUSED, END, QUESTIONMARK, STAR, PLUS}" and "rtype k \<in> {QUESTIONMARK, STAR, PLUS}"
    and "quantifiers tail = 0" and "no_end tail"
    and "pattern_loop buf pre (ps @ q # k # tail) text ml = Some (False, ml')"
  shows "ml' = (if prefix_ok buf ps text then ml + int (length ps) else pre)"
  using assms(1,6)
proof (induction ps arbitrary: "text" ml)
  case Nil
  then show ?case using quantified_exact [OF assms(2-5)] by (simp add: prefix_ok_def)
next
  case (Cons p ps)
  have "plain_step p (ps @ q # k # tail)"
    using Cons.prems(1) assms(2) by (cases ps) (auto simp: plain_step_def plain_symbols_def)
  note step = plain_step_simps(1) [OF this]
  have ps: "plain_symbols ps" using Cons.prems(1) by (simp add: plain_symbols_def)
  show ?case
  proof (cases "text")
    case Nil
    then show ?thesis using Cons.prems(2) by (simp add: step prefix_ok_def)
  next
    case w: (Cons c w)
    show ?thesis
    proof (cases "sym_ok buf p c")
      case True
      then have "pattern_loop buf pre (ps @ q # k # tail) w (ml + 1) = Some (False, ml')" using Cons.prems(2) by (simp add: step w sym_ok_def)
      from Cons.IH [OF ps this] True show ?thesis by (simp add: w prefix_ok_def)
    next
      case False
      then show ?thesis using Cons.prems(2) by (auto simp: step w sym_ok_def prefix_ok_def bind_eq_Some_conv split: if_splits)
    qed
  qed
qed

lemma match_run_all: "list_all (sym_ok buf p) text \<Longrightarrow> match_run buf p text = Some (length text)"
  by (induction "text") (auto simp: sym_ok_def)

lemma backtrack_sum:
  assumes "\<And>i ml. j < i \<Longrightarrow> i \<le> n \<Longrightarrow> m (drop i text) ml = Some (False, ml + int (d i))" and "\<And>ml. m (drop j text) ml = Some (True, ml + l)" and "j \<le> n"
  shows "backtrack m (Suc n) text 0 ml = Some (True, ml - int (n - j) + int (\<Sum>i \<in> {j<..n}. d i) + l)"
  using assms(3,1)
proof (induction n arbitrary: ml rule: dec_induct)
  case base
  then show ?case using assms(2) by simp
next
  case (step n)
  have "m (drop (Suc n) text) ml = Some (False, ml + int (d (Suc n)))" using step by simp
  moreover have "backtrack m (Suc n) text 0 (ml + int (d (Suc n)) - 1) =
      Some (True, (ml + int (d (Suc n)) - 1) - int (n - j) + int (\<Sum>i \<in> {j<..n}. d i) + l)"
    using step by simp
  moreover have "{j<..Suc n} = insert (Suc n) {j<..n}" using step(1) by auto
  ultimately show ?case using step(1) by (subst backtrack.simps) (simp add: Suc_diff_le del: backtrack.simps)
qed


subsection \<open>Concrete expressions\<close>

definition str :: "string \<Rightarrow> bytes" where
  "str s = map (\<lambda>c. of_nat (of_char c)) s"

definition compiled :: "string \<Rightarrow> regex_t list" where
  "compiled s = (case re_compile (str s) regex_init of Some (Some pat, _) \<Rightarrow> pat | _ \<Rightarrow> [])"

theorem re_matchp_sound_witness:
  "quantifiers (compiled ''a*b'') = 1 \<and> re_matchp (ccl_buf regex_init) (Some (compiled ''a*b'')) (str ''aab'') = Some (0, 3)
   \<and> re_lang (ccl_buf regex_init) (compiled ''a*b'') (str ''aab'')"
proof -
  have "quantifiers (compiled ''a*b'') = 1" by code_simp
  moreover have "re_matchp (ccl_buf regex_init) (Some (compiled ''a*b'')) (str ''aab'') = Some (0, 3)" by code_simp
  moreover have "list_all (\<lambda>p. rtype p \<noteq> END \<and> rtype p \<noteq> BEGIN) (compiled ''a*b'')" by code_simp
  moreover have "length (str ''aab'') = 3" by (simp add: str_def)
  ultimately show ?thesis
    using re_matchp_sound [of "compiled ''a*b''" "ccl_buf regex_init" "str ''aab''"] by (auto simp: no_end_def list_all_iff)
qed

lemma compiled_two_stars: "\<exists>tail. compiled ''.*ab*c'' = [\<lparr>rtype = DOT, runion = Ch 0\<rparr>, \<lparr>rtype = STAR, runion = Ch 0\<rparr>, \<lparr>rtype = CHAR_TYPE, runion = Ch 0x61\<rparr>,
    \<lparr>rtype = CHAR_TYPE, runion = Ch 0x62\<rparr>, \<lparr>rtype = STAR, runion = Ch 0\<rparr>, \<lparr>rtype = CHAR_TYPE, runion = Ch 0x63\<rparr>, \<lparr>rtype = UNUSED, runion = Ch 0\<rparr>] @ tail"
proof -
  have "take 7 (compiled ''.*ab*c'') = [\<lparr>rtype = DOT, runion = Ch 0\<rparr>, \<lparr>rtype = STAR, runion = Ch 0\<rparr>, \<lparr>rtype = CHAR_TYPE, runion = Ch 0x61\<rparr>,
    \<lparr>rtype = CHAR_TYPE, runion = Ch 0x62\<rparr>, \<lparr>rtype = STAR, runion = Ch 0\<rparr>, \<lparr>rtype = CHAR_TYPE, runion = Ch 0x63\<rparr>, \<lparr>rtype = UNUSED, runion = Ch 0\<rparr>]"
    by code_simp
  then show ?thesis by (metis append_take_drop_id)
qed

lemma not_in_two_stars: "\<not> re_lang (ccl_buf regex_init) (compiled ''.*ab*c'') (str ''acaa'')"
proof -
  obtain tail where tail: "compiled ''.*ab*c'' = [\<lparr>rtype = DOT, runion = Ch 0\<rparr>, \<lparr>rtype = STAR, runion = Ch 0\<rparr>, \<lparr>rtype = CHAR_TYPE, runion = Ch 0x61\<rparr>,
    \<lparr>rtype = CHAR_TYPE, runion = Ch 0x62\<rparr>, \<lparr>rtype = STAR, runion = Ch 0\<rparr>, \<lparr>rtype = CHAR_TYPE, runion = Ch 0x63\<rparr>, \<lparr>rtype = UNUSED, runion = Ch 0\<rparr>] @ tail"
    using compiled_two_stars by blast
  show ?thesis unfolding tail by (auto simp: re_lang.simps(2) sym_ok_def matchone_def str_def take_Cons' drop_Cons')
qed


text \<open>
  The character classes of all expressions share one static buffer: compiling a second expression overwrites the classes of the first. Here the
  class \<^verbatim>\<open>[a-c]\<close> of a rule that admitted \<^verbatim>\<open>b\<close> has become \<^verbatim>\<open>[x-z]\<close> once the next rule has been loaded.
\<close>

theorem re_compile_shares_classes:
  "case re_compile (str ''[a-c]'') regex_init of
     Some (Some pat, st) \<Rightarrow>
       (case re_compile (str ''[x-z]'') st of
          Some (_, st') \<Rightarrow>
            re_matchp (ccl_buf st) (Some pat) (str ''b'') = Some (0, 1) \<and>
            re_matchp (ccl_buf st') (Some pat) (str ''b'') = Some (-1, 0) \<and>
            re_matchp (ccl_buf st') (Some pat) (str ''y'') = Some (0, 1)
        | None \<Rightarrow> False)
   | _ \<Rightarrow> False"
  by code_simp

end
