(* ===== verification/Supernode.thy ===== *)
theory Supernode
  imports Peers Header_Encryption Auth Regex
begin

text \<open>
  The data of the supernode, its authentication of edges and its table of registered edges, from \<^verbatim>\<open>src/sn_utils.c\<close>.

  A community is referred to by its index in the table of communities; the federation of supernodes is the community
  in that table with \<open>is_federation\<close> set, as \<^verbatim>\<open>src/supernode.c\<close> puts it there. The four contexts of the header encryption
  are kept together, and absent where the code has null pointers. The static buffer that the regular expressions share is kept with the rules. Allocation does not fail.
\<close>

subsection \<open>Data\<close>

abbreviation N2N_PRIVATE_PUBLIC_KEY_SIZE :: nat where "N2N_PRIVATE_PUBLIC_KEY_SIZE \<equiv> 32"
abbreviation N2N_AUTH_CHALLENGE_SIZE :: nat where "N2N_AUTH_CHALLENGE_SIZE \<equiv> 16"

abbreviation n2n_auth_none :: u16 where "n2n_auth_none \<equiv> 0"
abbreviation n2n_auth_simple_id :: u16 where "n2n_auth_simple_id \<equiv> 1"
abbreviation n2n_auth_user_password :: u16 where "n2n_auth_user_password \<equiv> 2"

datatype header_encryption = HEADER_ENCRYPTION_UNKNOWN | HEADER_ENCRYPTION_NONE | HEADER_ENCRYPTION_ENABLED

record sn_user =
  user_public_key :: bytes
  user_shared_secret :: bytes
  user_shared_secret_ctx :: speck_context
  user_name :: bytes

record node_supernode_association =
  assoc_mac :: bytes
  assoc_sock :: sockaddr
  assoc_sock_len :: nat
  assoc_last_seen :: int

record sn_community =
  comm_name :: bytes
  is_federation :: bool
  comm_purgeable :: bool
  comm_header_encryption :: header_encryption
  comm_he :: "he_contexts option"
  dynamic_key :: bytes
  edges :: "peer_info list"
  assoc :: "node_supernode_association list"
  allowed_users :: "sn_user list"
  number_enc_packets :: int
  auto_ip_net :: n2n_ip_subnet

record sn_stats =
  st_errors :: nat
  st_reg_super :: nat
  st_reg_super_nak :: nat
  st_fwd :: nat
  st_broadcast :: nat
  st_last_fwd :: int
  st_last_reg_super :: int

record n2n_kcp_ctx =
  kcp_remote_sock :: n2n_sock
  kcp_conv :: u32
  kcp_active :: bool
  kcp_rx_confirm_count :: byte
  kcp_last_seen :: int
  kcp_dead :: bool

record n2n_sn =
  sn_start_time :: int
  sn_version :: bytes
  stats :: sn_stats
  sn_mac_addr :: bytes
  sn_sock :: int
  tcp_connections :: "n2n_tcp_connection list"
  udp_kcp_ctrl_connections :: "n2n_kcp_ctx list"
  udp_kcp_data_connections :: "n2n_kcp_ctx list"
  min_auto_ip_net :: n2n_ip_subnet
  max_auto_ip_net :: n2n_ip_subnet
  lock_communities :: bool
  communities :: "sn_community list"
  rules :: "regex_t list option list"
  re_classes :: bytes
  sn_auth :: n2n_auth
  dynamic_key_time :: u32
  override_spoofing_protection :: bool

definition zero_community :: sn_community where
  "zero_community = \<lparr>comm_name = replicate N2N_COMMUNITY_SIZE 0, is_federation = False, comm_purgeable = False,
     comm_header_encryption = HEADER_ENCRYPTION_UNKNOWN, comm_he = None, dynamic_key = replicate N2N_AUTH_CHALLENGE_SIZE 0,
     edges = [], assoc = [], allowed_users = [], number_enc_packets = 0, auto_ip_net = \<lparr>net_addr = 0, net_bitlen = 0\<rparr>\<rparr>"

text \<open>The key of a community is its name up to the terminating zero.\<close>

definition cstr :: "bytes \<Rightarrow> bytes" where
  "cstr s = takeWhile (\<lambda>b. b \<noteq> 0) s"

definition comm_key :: "sn_community \<Rightarrow> bytes" where
  "comm_key c = cstr (comm_name c)"

definition HASH_FIND_COMMUNITY :: "sn_community list \<Rightarrow> bytes \<Rightarrow> nat option" where
  "HASH_FIND_COMMUNITY l name = HASH_FIND comm_key (cstr name) l"

definition comm_init :: "sn_community \<Rightarrow> bytes \<Rightarrow> sn_community" where
  "comm_init comm cmn =
     (let name = cstr cmn; name = take N2N_COMMUNITY_SIZE (name @ replicate N2N_COMMUNITY_SIZE 0)
      in comm\<lparr>comm_name := name[N2N_COMMUNITY_SIZE - 1 := 0], is_federation := False\<rparr>)"

definition reg_lifetime :: u16 where
  "reg_lifetime = 15"

subsection \<open>Authentication of edges\<close>

text \<open>
  The answer to a user with password: the challenge encrypted again in the first half of the token, and in the second half the
  challenge, decrypted, combined with the dynamic key of the community and the shared secret, and encrypted.
\<close>

definition user_answer :: "sn_user \<Rightarrow> sn_community \<Rightarrow> n2n_auth \<Rightarrow> n2n_auth option" where
  "user_answer user comm presented = do {
     let tok = token presented;
     c \<leftarrow> rd tok N2N_PRIVATE_PUBLIC_KEY_SIZE N2N_AUTH_CHALLENGE_SIZE;
     tok \<leftarrow> wr tok 0 c;
     let tok = speck_128_encrypt (user_shared_secret_ctx user) tok;
     let tok = take 32 tok @ speck_128_decrypt (user_shared_secret_ctx user) (drop 32 tok);
     tok \<leftarrow> memxor tok N2N_PRIVATE_PUBLIC_KEY_SIZE (dynamic_key comm) N2N_AUTH_CHALLENGE_SIZE;
     tok \<leftarrow> memxor tok N2N_PRIVATE_PUBLIC_KEY_SIZE (user_shared_secret user) N2N_AUTH_CHALLENGE_SIZE;
     let tok = take 32 tok @ speck_128_encrypt (user_shared_secret_ctx user) (drop 32 tok);
     Some (presented\<lparr>token := tok\<rparr>) }"

definition find_user :: "sn_community \<Rightarrow> n2n_auth \<Rightarrow> sn_user option" where
  "find_user comm a =
     map_option ((!) (allowed_users comm)) (HASH_FIND user_public_key (take N2N_PRIVATE_PUBLIC_KEY_SIZE (token a)) (allowed_users comm))"

text \<open>\<open>answer\<close> is \<open>None\<close> for a null pointer. The sign of \<open>memcmp\<close> is not used by the callers.\<close>

definition auth_edge :: "n2n_auth \<Rightarrow> n2n_auth \<Rightarrow> n2n_auth option \<Rightarrow> sn_community \<Rightarrow> (int \<times> n2n_auth option) option" where
  "auth_edge present presented answer comm =
     (if scheme present = n2n_auth_none then Some (0, map_option (\<lambda>_. zero_auth) answer)
      else if scheme present = n2n_auth_simple_id \<and> scheme presented = n2n_auth_simple_id then
        Some (if present = presented then 0 else 1, map_option (\<lambda>_. zero_auth) answer)
      else if scheme present = n2n_auth_user_password \<and> scheme presented = n2n_auth_user_password then
        case find_user comm presented of
          Some user \<Rightarrow>
            (case answer of None \<Rightarrow> Some (0, None)
             | Some _ \<Rightarrow> do { a \<leftarrow> user_answer user comm presented; Some (0, Some a) })
        | None \<Rightarrow> Some (-1, answer)
      else Some (-1, answer))"

definition handle_remote_auth :: "n2n_auth \<Rightarrow> n2n_auth \<Rightarrow> sn_community \<Rightarrow> (int \<times> n2n_auth) option" where
  "handle_remote_auth remote_auth answer_auth comm =
     (if (allowed_users comm = []) \<noteq> (scheme remote_auth \<noteq> n2n_auth_user_password) then Some (-1, answer_auth)
      else if scheme remote_auth = n2n_auth_none \<or> scheme remote_auth = n2n_auth_simple_id then Some (0, zero_auth)
      else if scheme remote_auth = n2n_auth_user_password then
        case find_user comm remote_auth of
          Some user \<Rightarrow> do { a \<leftarrow> user_answer user comm remote_auth; Some (0, a) }
        | None \<Rightarrow> Some (-1, answer_auth)
      else Some (-1, answer_auth))"

definition get_local_auth :: "n2n_sn \<Rightarrow> n2n_auth" where
  "get_local_auth sss = sn_auth sss"

subsection \<open>The table of edges\<close>

datatype update_edge_ret_value = update_edge_no_change | update_edge_sock_change | update_edge_new_sn | update_edge_auth_fail

definition edge_preferred_sock :: "n2n_common \<Rightarrow> n2n_REGISTER_SUPER \<Rightarrow> n2n_sock \<Rightarrow> n2n_sock" where
  "edge_preferred_sock cmn reg old =
     (if flags cmn AND N2N_FLAGS_SOCKET \<noteq> 0 then rs_sock reg else old\<lparr>family := AF_INVALID\<rparr>)"

text \<open>The lookup: by hardware address, then by the address of the tap device, in which case the entry gets the new hardware address.\<close>

definition lookup_edge :: "n2n_REGISTER_SUPER \<Rightarrow> peer_info list \<Rightarrow> nat option \<times> peer_info list" where
  "lookup_edge reg l =
     (case HASH_FIND_PEER l (rs_edgeMac reg) of
        Some i \<Rightarrow> (Some i, l)
      | None \<Rightarrow>
          (case find_index (\<lambda>iter. net_addr (dev_addr iter) = net_addr (rs_dev_addr reg)) l of
             Some i \<Rightarrow>
               let scan = l ! i; l = HASH_DEL i l; scan = scan\<lparr>mac_addr := rs_edgeMac reg\<rparr>; l = HASH_ADD scan l
               in (Some (length l - 1), l)
           | None \<Rightarrow> (None, l)))"

definition new_edge :: "n2n_sn \<Rightarrow> n2n_common \<Rightarrow> n2n_REGISTER_SUPER \<Rightarrow> n2n_sock \<Rightarrow> int \<Rightarrow> u64 \<Rightarrow> peer_info" where
  "new_edge sss cmn reg sender_sock fd stamp =
     (let scan = zero_peer\<lparr>purgeable := True, mac_addr := rs_edgeMac reg, dev_addr := rs_dev_addr reg, dev_desc := rs_dev_desc reg,
            peer_sock := sender_sock, socket_fd := fd, last_cookie := rs_cookie reg, last_valid_time_stamp := stamp\<rparr>;
          scan = scan\<lparr>preferred_sock := edge_preferred_sock cmn reg (preferred_sock scan), peer_auth := rs_auth reg\<rparr>
      in if scheme (rs_auth reg) = n2n_auth_simple_id \<and> override_spoofing_protection sss
         then scan\<lparr>peer_auth := (peer_auth scan)\<lparr>scheme := n2n_auth_none\<rparr>\<rparr> else scan)"

definition update_edge :: "n2n_sn \<Rightarrow> n2n_common \<Rightarrow> n2n_REGISTER_SUPER \<Rightarrow> sn_community \<Rightarrow> n2n_sock \<Rightarrow> int \<Rightarrow> n2n_auth \<Rightarrow> skip_add \<Rightarrow> int
    \<Rightarrow> runtime \<Rightarrow> (update_edge_ret_value \<times> sn_community \<times> n2n_auth \<times> runtime) option" where
  "update_edge sss cmn reg comm sender_sock fd answer_auth skip now rt =
     (case lookup_edge reg (edges comm) of
        (None, l) \<Rightarrow> do {
          (r, answer_auth) \<leftarrow> handle_remote_auth (rs_auth reg) answer_auth comm;
          if r = 0 then
            if skip = SN_ADD then
              let (stamp, rt) = rt_initial_time_stamp rt;
                  scan = new_edge sss cmn reg sender_sock fd stamp
              in Some (update_edge_new_sn, comm\<lparr>edges := HASH_ADD (scan\<lparr>last_seen := now\<rparr>) l\<rparr>, answer_auth, rt)
            else Some (update_edge_new_sn, comm\<lparr>edges := l\<rparr>, answer_auth, rt)
          else Some (update_edge_auth_fail, comm\<lparr>edges := l\<rparr>, answer_auth, rt) }
      | (Some i, l) \<Rightarrow> do {
          (r, answer) \<leftarrow> auth_edge (peer_auth (l ! i)) (rs_auth reg) (Some answer_auth) comm;
          let answer_auth = (case answer of Some a \<Rightarrow> a | None \<Rightarrow> answer_auth);
          let scan = l ! i;
          if r = 0 then
            if \<not> sock_equal sender_sock (peer_sock scan) then
              let scan = scan\<lparr>dev_addr := rs_dev_addr reg, dev_desc := rs_dev_desc reg, peer_sock := sender_sock, socket_fd := fd,
                    last_cookie := rs_cookie reg, preferred_sock := edge_preferred_sock cmn reg (preferred_sock scan), last_seen := now\<rparr>
              in Some (update_edge_sock_change, comm\<lparr>edges := l[i := scan]\<rparr>, answer_auth, rt)
            else
              Some (update_edge_no_change, comm\<lparr>edges := l[i := scan\<lparr>last_cookie := rs_cookie reg, last_seen := now\<rparr>]\<rparr>, answer_auth, rt)
          else Some (update_edge_auth_fail, comm\<lparr>edges := l\<rparr>, answer_auth, rt) })"

subsection \<open>The table keeps its keys distinct\<close>

abbreviation edges_ok :: "peer_info list \<Rightarrow> bool" where
  "edges_ok l \<equiv> distinct (map mac_addr l)"

lemma update_fields_macs [simp]: "mac_addr p = mac_addr (l ! i) \<Longrightarrow> map mac_addr (l[i := p]) = map mac_addr l"
  by (simp add: map_update) (metis list_update_id map_update)

lemma lookup_edge_ok: "edges_ok l \<Longrightarrow> edges_ok (snd (lookup_edge reg l))"
proof (cases "HASH_FIND_PEER l (rs_edgeMac reg)")
  case None
  assume d: "edges_ok l"
  have new: "rs_edgeMac reg \<notin> mac_addr ` set l" using None by (simp add: hash.hfind_None)
  have "edges_ok (HASH_ADD (scan\<lparr>mac_addr := rs_edgeMac reg\<rparr>) (HASH_DEL i l))"
    if "i < length l" for i scan
    by (rule hash.rekey_distinct [OF d that]) (use new in simp)
  then show ?thesis
    using None d by (auto simp: lookup_edge_def Let_def dest: find_index_Some split: option.splits)
qed (auto simp: lookup_edge_def)

lemma lookup_edge_Some:
  assumes "lookup_edge reg l = (Some i, l')"
  shows "i < length l' \<and> mac_addr (l' ! i) = rs_edgeMac reg"
  using assms hash.hfind_Some [of mac_addr "rs_edgeMac reg" l i]
    find_index_Some [of "\<lambda>iter. net_addr (dev_addr iter) = net_addr (rs_dev_addr reg)" l]
  by (auto simp: lookup_edge_def Let_def HASH_ADD_def nth_append split: option.splits)

lemma lookup_edge_None:
  assumes "lookup_edge reg l = (None, l')"
  shows "l' = l" and "rs_edgeMac reg \<notin> mac_addr ` set l"
  using assms by (auto simp: lookup_edge_def Let_def hash.hfind_None [symmetric] split: option.splits)

lemma new_edge_fields [simp]:
  "mac_addr (new_edge sss cmn reg sk fd st) = rs_edgeMac reg" "peer_sock (new_edge sss cmn reg sk fd st) = sk"
  "last_cookie (new_edge sss cmn reg sk fd st) = rs_cookie reg" "socket_fd (new_edge sss cmn reg sk fd st) = fd"
  by (simp_all add: new_edge_def Let_def)

lemma sock_equal_refl [simp]: "sock_equal s s"
  by (simp add: sock_equal_def)

text \<open>What a call of \<open>update_edge\<close> can do, by its result.\<close>

lemma update_edge_cases:
  assumes "update_edge sss cmn reg comm sk fd ans skip now rt = Some (ret, comm', ans', rt')"
  obtains (fail) "ret = update_edge_auth_fail" "edges comm' = snd (lookup_edge reg (edges comm))"
  | (skipped) "ret = update_edge_new_sn" "skip \<noteq> SN_ADD" "edges comm' = edges comm" "rs_edgeMac reg \<notin> mac_addr ` set (edges comm)"
  | (added) p where "ret = update_edge_new_sn" "skip = SN_ADD" "edges comm' = HASH_ADD p (edges comm)"
      "mac_addr p = rs_edgeMac reg" "rs_edgeMac reg \<notin> mac_addr ` set (edges comm)"
      "sock_equal sk (peer_sock p)" "last_cookie p = rs_cookie reg" "last_seen p = now"
  | (known) i p where "ret \<in> {update_edge_no_change, update_edge_sock_change}" "i < length (edges comm')"
      "edges comm' = (snd (lookup_edge reg (edges comm)))[i := p]" "mac_addr p = rs_edgeMac reg"
      "mac_addr (snd (lookup_edge reg (edges comm)) ! i) = rs_edgeMac reg"
      "sock_equal sk (peer_sock p)" "last_cookie p = rs_cookie reg" "last_seen p = now"
proof (cases "lookup_edge reg (edges comm)")
  case (Pair r l)
  show thesis
  proof (cases r)
    case None
    note l = lookup_edge_None [OF Pair [unfolded None]]
    obtain st rt1 where rt: "rt_initial_time_stamp rt = (st, rt1)" by fastforce
    have "edges comm' = HASH_ADD p (edges comm) \<Longrightarrow> ret = update_edge_new_sn \<Longrightarrow> skip = SN_ADD \<Longrightarrow>
        p = (new_edge sss cmn reg sk fd st)\<lparr>last_seen := now\<rparr> \<Longrightarrow> thesis" for p
      using added [of p] l(2) by simp
    then show thesis
      using assms fail skipped l Pair None
      by (auto simp: update_edge_def Let_def rt bind_eq_Some_conv split: if_splits)
  next
    case (Some i)
    note i = lookup_edge_Some [OF Pair [unfolded Some]]
    have "edges comm' = l[i := p] \<Longrightarrow> ret \<in> {update_edge_no_change, update_edge_sock_change} \<Longrightarrow> mac_addr p = rs_edgeMac reg \<Longrightarrow>
        sock_equal sk (peer_sock p) \<Longrightarrow> last_cookie p = rs_cookie reg \<Longrightarrow> last_seen p = now \<Longrightarrow> thesis" for p
      using known [of i p] i Pair by simp
    then show thesis
      using assms fail i Pair Some
      by (auto simp: update_edge_def Let_def bind_eq_Some_conv split: if_splits)
  qed
qed

lemma update_edge_ok:
  assumes "update_edge sss cmn reg comm sk fd ans skip now rt = Some (ret, comm', ans', rt')" and "edges_ok (edges comm)"
  shows "edges_ok (edges comm')"
  using assms(1)
proof (cases rule: update_edge_cases)
  case (added p)
  then show ?thesis using hash.distinct_hadd [of mac_addr "edges comm" p] assms(2) by simp
next
  case (known i p)
  then show ?thesis using lookup_edge_ok [OF assms(2), of reg] by simp
qed (use assms(2) lookup_edge_ok [OF assms(2), of reg] in simp_all)

text \<open>
  C25. Registration: the table of edges never holds two entries with the same hardware address, and after every registration that is not
  refused (and not one that must not be added) the registering edge is found in the table under its hardware address, with its
  socket, its cookie and the current time.
\<close>

theorem update_edge_registers:
  assumes "edges_ok (edges comm)" and "update_edge sss cmn reg comm sk fd ans skip now rt = Some (ret, comm', ans', rt')"
  shows "edges_ok (edges comm') \<and>
    (ret \<noteq> update_edge_auth_fail \<and> (skip = SN_ADD \<or> ret \<noteq> update_edge_new_sn) \<longrightarrow>
      (\<exists>i. HASH_FIND_PEER (edges comm') (rs_edgeMac reg) = Some i \<and> i < length (edges comm') \<and>
        sock_equal sk (peer_sock (edges comm' ! i)) \<and> last_cookie (edges comm' ! i) = rs_cookie reg \<and> last_seen (edges comm' ! i) = now))"
proof -
  have ok: "edges_ok (edges comm')" by (rule update_edge_ok [OF assms(2,1)])
  have found: "\<exists>i. HASH_FIND_PEER (edges comm') (rs_edgeMac reg) = Some i \<and> i < length (edges comm') \<and> edges comm' ! i = p"
    if "p \<in> set (edges comm')" "mac_addr p = rs_edgeMac reg" for p
    using hash.entry_Some [OF ok, of "rs_edgeMac reg" p] that hash.hfind_Some [of mac_addr "rs_edgeMac reg" "edges comm'"]
    by (auto simp: hash.entry_def)
  from assms(2) show ?thesis
  proof (cases rule: update_edge_cases)
    case (added p)
    then show ?thesis using ok found [of p] by (auto simp: HASH_ADD_def)
  next
    case (known i p)
    moreover have "p \<in> set (edges comm')" using known by (auto simp: set_update_memI)
    ultimately show ?thesis using ok found [of p] by auto
  qed (use ok in auto)
qed

text \<open>Plain values for concrete runs: a supernode without communities and a registration without options.\<close>

definition bare_sn :: n2n_sn where
  "bare_sn = \<lparr>sn_start_time = 0, sn_version = replicate 20 0,
     stats = \<lparr>st_errors = 0, st_reg_super = 0, st_reg_super_nak = 0, st_fwd = 0, st_broadcast = 0, st_last_fwd = 0, st_last_reg_super = 0\<rparr>,
     sn_mac_addr = [2, 0, 0, 0, 0, 1], sn_sock = 3, tcp_connections = [], udp_kcp_ctrl_connections = [], udp_kcp_data_connections = [],
     min_auto_ip_net = \<lparr>net_addr = 0x0A800000, net_bitlen = 24\<rparr>, max_auto_ip_net = \<lparr>net_addr = 0x0AFFFF00, net_bitlen = 24\<rparr>,
     lock_communities = False, communities = [], rules = [], re_classes = ccl_buf regex_init, sn_auth = zero_auth, dynamic_key_time = 0, override_spoofing_protection = False\<rparr>"

definition plain_common :: n2n_common where
  "plain_common = \<lparr>ttl = 2, pc = 5, flags = 0, community = replicate 20 0\<rparr>"

definition plain_reg :: "bytes \<Rightarrow> u32 \<Rightarrow> byte \<Rightarrow> n2n_REGISTER_SUPER" where
  "plain_reg mac ip tok = \<lparr>rs_cookie = 7, rs_edgeMac = mac, rs_sock = zero_sock, rs_dev_addr = \<lparr>net_addr = ip, net_bitlen = 24\<rparr>,
     rs_dev_desc = zero_desc, rs_auth = \<lparr>scheme = n2n_auth_simple_id, token_size = 16, token = replicate 48 tok\<rparr>, rs_key_time = 0\<rparr>"

theorem update_edge_registers_witness:
  "\<exists>comm' ans' rt'. update_edge bare_sn plain_common (plain_reg [2, 0, 0, 0, 0, 9] 5 1) zero_community zero_sock 3 zero_auth SN_ADD 100 quiet_runtime
     = Some (update_edge_new_sn, comm', ans', rt')
   \<and> (\<exists>i. HASH_FIND_PEER (edges comm') [2, 0, 0, 0, 0, 9] = Some i \<and> last_seen (edges comm' ! i) = 100)"
proof -
  obtain st rt' where rt: "rt_initial_time_stamp quiet_runtime = (st, rt')" by fastforce
  obtain comm' ans' where u: "update_edge bare_sn plain_common (plain_reg [2, 0, 0, 0, 0, 9] 5 1) zero_community zero_sock 3 zero_auth SN_ADD 100 quiet_runtime
     = Some (update_edge_new_sn, comm', ans', rt')"
    by (simp add: update_edge_def lookup_edge_def HASH_FIND_def zero_community_def handle_remote_auth_def plain_reg_def rt)
  then show ?thesis
    using update_edge_registers [OF _ u] by (auto simp: zero_community_def plain_reg_def)
qed

text \<open>
  C26. The protection against spoofed addresses has a gap: a registration from an unknown hardware address with the tap address
  of a registered edge is refused if its token is wrong, but by then the entry of the registered edge already has the
  new hardware address: the registered edge is not found under its own address any more, and what is sent to
  the address of the refused one goes to it.
\<close>

theorem update_edge_mac_takeover:
  assumes "edges_ok (edges comm)" and "rs_edgeMac reg \<notin> mac_addr ` set (edges comm)"
    and "find_index (\<lambda>iter. net_addr (dev_addr iter) = net_addr (rs_dev_addr reg)) (edges comm) = Some i"
    and "auth_edge (peer_auth (edges comm ! i)) (rs_auth reg) (Some ans) comm = Some (r, a)" and "r \<noteq> 0"
  shows "\<exists>comm' ans'. update_edge sss cmn reg comm sk fd ans skip now rt = Some (update_edge_auth_fail, comm', ans', rt)
    \<and> HASH_FIND_PEER (edges comm') (mac_addr (edges comm ! i)) = None
    \<and> (\<exists>j. HASH_FIND_PEER (edges comm') (rs_edgeMac reg) = Some j \<and> edges comm' ! j = (edges comm ! i)\<lparr>mac_addr := rs_edgeMac reg\<rparr>)"
proof -
  let ?l = "edges comm" and ?p = "(edges comm ! i)\<lparr>mac_addr := rs_edgeMac reg\<rparr>"
  have i: "i < length ?l" using find_index_Some [OF assms(3)] by simp
  let ?l' = "HASH_ADD ?p (HASH_DEL i ?l)"
  have l': "lookup_edge reg ?l = (Some (length ?l' - 1), ?l')" "?l' ! (length ?l' - 1) = ?p"
    using assms(2,3) by (simp_all add: lookup_edge_def hash.hfind_None [THEN iffD2] HASH_ADD_def nth_append Let_def)
  have set: "set ?l' = insert ?p (set ?l - {?l ! i})"
    using hash.set_hdel [OF assms(1) i] by (simp add: hash.set_hadd)
  have "p = ?l ! i" if "p \<in> set ?l" "mac_addr p = mac_addr (?l ! i)" for p
    using that assms(1) i by (auto simp: distinct_map inj_on_def)
  then have old: "mac_addr (?l ! i) \<notin> mac_addr ` set ?l'"
    using assms(2) nth_mem [OF i] by (auto simp: set) (metis imageI)
  have d: "edges_ok ?l'" by (rule hash.rekey_distinct [OF assms(1) i]) (use assms(2) in simp)
  have "hash.entry mac_addr (rs_edgeMac reg) ?l' = Some ?p"
    using hash.entry_Some [OF d] by (simp add: set)
  then obtain j where j: "HASH_FIND_PEER ?l' (rs_edgeMac reg) = Some j" "?l' ! j = ?p"
    by (auto simp: hash.entry_def)
  have "update_edge sss cmn reg comm sk fd ans skip now rt =
      Some (update_edge_auth_fail, comm\<lparr>edges := ?l'\<rparr>, case a of Some a \<Rightarrow> a | None \<Rightarrow> ans, rt)"
    using assms(4,5) by (simp only: update_edge_def l' prod.case option.case) simp
  then show ?thesis using old j by (simp add: hash.hfind_None)
qed

theorem update_edge_mac_takeover_witness:
  "let comm = zero_community\<lparr>edges := [zero_peer\<lparr>mac_addr := [2, 0, 0, 0, 0, 9], dev_addr := \<lparr>net_addr = 5, net_bitlen = 24\<rparr>,
         peer_auth := rs_auth (plain_reg [2, 0, 0, 0, 0, 9] 5 1)\<rparr>]\<rparr>;
       reg = plain_reg [2, 0, 0, 0, 0, 0x66] 5 2
   in \<exists>comm' ans'. update_edge bare_sn plain_common reg comm zero_sock 3 zero_auth SN_ADD 100 quiet_runtime = Some (update_edge_auth_fail, comm', ans', quiet_runtime)
    \<and> HASH_FIND_PEER (edges comm') [2, 0, 0, 0, 0, 9] = None"
proof -
  define comm where "comm = zero_community\<lparr>edges := [zero_peer\<lparr>mac_addr := [2, 0, 0, 0, 0, 9], dev_addr := \<lparr>net_addr = 5, net_bitlen = 24\<rparr>,
         peer_auth := rs_auth (plain_reg [2, 0, 0, 0, 0, 9] 5 1)\<rparr>]\<rparr>"
  have "auth_edge (peer_auth (edges comm ! 0)) (rs_auth (plain_reg [2, 0, 0, 0, 0, 0x66] 5 2)) (Some zero_auth) comm = Some (1, Some zero_auth)"
    by (simp add: comm_def auth_edge_def plain_reg_def numeral_eq_Suc)
  then have "\<exists>comm' ans'. update_edge bare_sn plain_common (plain_reg [2, 0, 0, 0, 0, 0x66] 5 2) comm zero_sock 3 zero_auth SN_ADD 100 quiet_runtime =
        Some (update_edge_auth_fail, comm', ans', quiet_runtime)
    \<and> HASH_FIND_PEER (edges comm') (mac_addr (edges comm ! 0)) = None"
    using update_edge_mac_takeover [of comm "plain_reg [2, 0, 0, 0, 0, 0x66] 5 2" 0 zero_auth 1 "Some zero_auth" bare_sn plain_common zero_sock 3 SN_ADD 100 quiet_runtime]
    by (auto simp: comm_def plain_reg_def)
  then show ?thesis unfolding Let_def comm_def [symmetric] by (simp add: comm_def)
qed

end
