(* ===== verification/Handshake.thy ===== *)
theory Handshake
  imports Supernode
begin

text \<open>
  The authentication with user name and password, across the two programs: the edge's part (\<open>get_local_auth\<close> and
  \<open>handle_remote_auth\<close> of \<^verbatim>\<open>src/edge_utils.c\<close>) and its composition with the supernode's.
\<close>

abbreviation N2N_AUTH_PW_TOKEN_SIZE :: nat where "N2N_AUTH_PW_TOKEN_SIZE \<equiv> 48"

text \<open>
  The token to send and the edge's stored one; \<open>auth\<close> is what the caller's structure holds before. The context of the shared secret is
  there for the scheme with password only.
\<close>

definition edge_get_local_auth ::
  "n2n_auth \<Rightarrow> speck_context \<Rightarrow> n2n_auth \<Rightarrow> rn_generator_state \<Rightarrow> (n2n_auth \<times> n2n_auth \<times> rn_generator_state) option" where
  "edge_get_local_auth conf_auth shared_secret_ctx auth rn =
     (if scheme conf_auth = n2n_auth_simple_id then Some (conf_auth, conf_auth, rn)
      else if scheme conf_auth = n2n_auth_user_password then do {
        let (challenge, rn) = memrnd N2N_AUTH_CHALLENGE_SIZE rn;
        tok \<leftarrow> wr (token conf_auth) N2N_PRIVATE_PUBLIC_KEY_SIZE challenge;
        stored \<leftarrow> wr (token conf_auth) N2N_PRIVATE_PUBLIC_KEY_SIZE challenge;
        let tok = take 32 tok @ speck_128_encrypt shared_secret_ctx (drop 32 tok);
        Some (conf_auth\<lparr>token := tok\<rparr>, conf_auth\<lparr>token := stored\<rparr>, rn) }
      else Some (auth, conf_auth, rn))"

definition edge_handle_remote_auth ::
  "n2n_auth \<Rightarrow> speck_context \<Rightarrow> bytes \<Rightarrow> he_contexts \<Rightarrow> n2n_auth \<Rightarrow> (int \<times> he_contexts) option" where
  "edge_handle_remote_auth conf_auth shared_secret_ctx shared_secret he remote_auth =
     (if scheme conf_auth = n2n_auth_user_password then do {
        tmp \<leftarrow> rd (token remote_auth) 0 N2N_AUTH_PW_TOKEN_SIZE;
        let tmp = speck_128_decrypt shared_secret_ctx tmp;
        let tmp = speck_128_decrypt shared_secret_ctx tmp;
        c \<leftarrow> rd (token conf_auth) N2N_PRIVATE_PUBLIC_KEY_SIZE N2N_AUTH_CHALLENGE_SIZE;
        if take N2N_AUTH_CHALLENGE_SIZE tmp \<noteq> c then Some (-1, he)
        else do {
          let tmp = take 32 tmp @ speck_128_decrypt shared_secret_ctx (drop 32 tmp);
          tmp \<leftarrow> memxor tmp N2N_PRIVATE_PUBLIC_KEY_SIZE c N2N_AUTH_CHALLENGE_SIZE;
          tmp \<leftarrow> memxor tmp N2N_PRIVATE_PUBLIC_KEY_SIZE shared_secret N2N_AUTH_CHALLENGE_SIZE;
          Some (0, packet_header_change_dynamic_key (drop N2N_PRIVATE_PUBLIC_KEY_SIZE tmp) he) } }
      else Some (0, he))"

subsection \<open>The steps of the handshake on the parts of the token\<close>

lemma speck_128_append:
  "length b = 16 \<Longrightarrow> speck_128_encrypt ctx (b @ r) = speck_128_encrypt ctx b @ r"
  "length b = 16 \<Longrightarrow> speck_128_decrypt ctx (b @ r) = speck_128_decrypt ctx b @ r"
  by (simp_all add: speck_128_encrypt_def speck_128_decrypt_def split: prod.splits)

lemma memxor_at:
  assumes "length a = pos" and "length b = n" and "n \<le> length src"
  shows "memxor (a @ b) pos src n = Some (a @ map2 (XOR) b src)"
proof -
  have "zip b (take n src) = zip b src" using assms(2) by (metis zip_commute zip_take_left le_refl)
  then show ?thesis
    using assms by (simp add: memxor_def rd_def wr_def overlay_def memxor_loop_map2)
qed

lemma three_way_xor:
  fixes ch dk ss :: bytes
  assumes "length ch = n" and "length dk = n" and "n \<le> length ss"
  shows "map2 (XOR) (map2 (XOR) (map2 (XOR) (map2 (XOR) ch dk) ss) ch) ss = dk"
  using assms
proof (induction ch dk arbitrary: n ss rule: list_induct2')
  case (4 c ch d dk)
  then obtain s ss' where ss: "ss = s # ss'" by (cases ss) auto
  have "(((c XOR d) XOR s) XOR c) XOR s = d" by (rule bit_word_eqI) (auto simp: bit_xor_iff)
  then show ?case using 4 ss by simp
qed auto

lemma length_speck_16 [simp]: "length b = 16 \<Longrightarrow> length (speck_128_encrypt ctx b) = 16" "length b = 16 \<Longrightarrow> length (speck_128_decrypt ctx b) = 16"
  by simp_all

lemma user_answer_token:
  assumes "token presented = a @ b @ c" and "length a = 16" and "length b = 16" and "length c = 16"
    and "length (dynamic_key comm) = 16" and "16 \<le> length (user_shared_secret user)"
  shows "user_answer user comm presented = Some (presented\<lparr>token :=
    speck_128_encrypt (user_shared_secret_ctx user) c @ b @
    speck_128_encrypt (user_shared_secret_ctx user)
      (map2 (XOR) (map2 (XOR) (speck_128_decrypt (user_shared_secret_ctx user) c) (dynamic_key comm)) (user_shared_secret user))\<rparr>)"
proof -
  let ?E = "speck_128_encrypt (user_shared_secret_ctx user)" and ?D = "speck_128_decrypt (user_shared_secret_ctx user)"
  have 1: "rd (token presented) 32 16 = Some c" "wr (token presented) 0 c = Some (c @ b @ c)"
    using assms(1-4) by (simp_all add: rd_def wr_def overlay_def)
  have 2: "take 32 (?E (c @ b @ c)) @ ?D (drop 32 (?E (c @ b @ c))) = (?E c @ b) @ ?D c"
    using assms(2-4) by (simp add: speck_128_append)
  have 3: "memxor ((?E c @ b) @ ?D c) 32 (dynamic_key comm) 16 = Some ((?E c @ b) @ map2 (XOR) (?D c) (dynamic_key comm))"
    using assms by (intro memxor_at) simp_all
  have 4: "memxor ((?E c @ b) @ map2 (XOR) (?D c) (dynamic_key comm)) 32 (user_shared_secret user) 16 =
      Some ((?E c @ b) @ map2 (XOR) (map2 (XOR) (?D c) (dynamic_key comm)) (user_shared_secret user))"
    using assms by (intro memxor_at) simp_all
  show ?thesis
    unfolding user_answer_def Let_def
    by (simp only: 1 Option.bind.bind_lunit 2 3 4) (use assms in simp)
qed

lemma edge_accepts:
  assumes "scheme conf = n2n_auth_user_password" and "token conf = pk @ ch" and "length pk = 32" and "length ch = 16"
    and "token answer = speck_128_encrypt ctx (speck_128_encrypt ctx ch) @ b @ speck_128_encrypt ctx (map2 (XOR) (map2 (XOR) ch dk) ss)"
    and "length b = 16" and "length dk = 16" and "16 \<le> length ss"
  shows "edge_handle_remote_auth conf ctx ss he answer = Some (0, packet_header_change_dynamic_key dk he)"
proof -
  let ?E = "speck_128_encrypt ctx" and ?D = "speck_128_decrypt ctx" and ?x = "map2 (XOR) (map2 (XOR) ch dk) ss"
  have x: "length ?x = 16" using assms by simp
  have de: "?D (?E y) = y" if "length y = 16" for y using speck_block.dec_enc [OF that, of ctx] by simp
  have 1: "rd (token answer) 0 48 = Some (?E (?E ch) @ b @ ?E ?x)" using assms x by (simp add: rd_def)
  have 2: "?D (?D (?E (?E ch) @ b @ ?E ?x)) = ch @ b @ ?E ?x" using assms(4) by (simp add: speck_128_append de)
  have 3: "rd (token conf) 32 16 = Some ch" using assms by (simp add: rd_def)
  have 4: "take 16 (ch @ b @ ?E ?x) = ch" using assms(4) by simp
  have 5: "take 32 (ch @ b @ ?E ?x) @ ?D (drop 32 (ch @ b @ ?E ?x)) = (ch @ b) @ ?x" using assms(4,6) x by (simp add: de)
  have 6: "memxor ((ch @ b) @ ?x) 32 ch 16 = Some ((ch @ b) @ map2 (XOR) ?x ch)"
    using assms x by (intro memxor_at) simp_all
  have 7: "memxor ((ch @ b) @ map2 (XOR) ?x ch) 32 ss 16 = Some ((ch @ b) @ dk)"
    using assms x memxor_at [of "ch @ b" 32 "map2 (XOR) ?x ch" 16 ss] three_way_xor [of ch 16 dk ss] by simp
  have 8: "drop 32 ((ch @ b) @ dk) = dk" using assms by simp
  show ?thesis
    unfolding edge_handle_remote_auth_def Let_def
    by (simp only: assms(1) if_True refl 1 Option.bind.bind_lunit 2 3 4 not_True_eq_False if_False 5 6 7 8 simp_thms)
qed

text \<open>
  C27. The handshake of a user with password: for every random challenge, the supernode that knows the user's public key and shares the secret with
  the edge (the result of the key agreement) accepts the token the edge sends, and the edge accepts the answer
  and obtains the dynamic key of the community from it, with which it sets up the encryption of its headers.
\<close>

theorem handshake_delivers_dynamic_key:
  assumes "scheme conf = n2n_auth_user_password" and "length (token conf) = N2N_AUTH_MAX_TOKEN_SIZE"
    and "find_user comm conf = Some user" and "user_shared_secret_ctx user = ctx" and "user_shared_secret user = secret"
    and "16 \<le> length secret" and "length (dynamic_key comm) = 16"
  shows "\<exists>sent conf' rn' answer. edge_get_local_auth conf ctx auth rn = Some (sent, conf', rn')
    \<and> handle_remote_auth sent ans comm = Some (0, answer)
    \<and> edge_handle_remote_auth conf' ctx secret he answer = Some (0, packet_header_change_dynamic_key (dynamic_key comm) he)"
proof -
  obtain ch rn' where ch: "memrnd 16 rn = (ch, rn')" by fastforce
  have lch: "length ch = 16" using length_memrnd [of 16 rn] ch by simp
  define pk where "pk = take 32 (token conf)"
  have pk: "length pk = 32" "pk = take 16 pk @ drop 16 pk" using assms(2) by (simp add: pk_def, simp)
  let ?E = "speck_128_encrypt ctx"
  let ?sent = "conf\<lparr>token := pk @ ?E ch\<rparr>" and ?conf = "conf\<lparr>token := pk @ ch\<rparr>"
  have w: "wr (token conf) 32 ch = Some (pk @ ch)" using assms(2) lch by (simp add: wr_def overlay_def pk_def)
  have e: "edge_get_local_auth conf ctx auth rn = Some (?sent, ?conf, rn')"
    using assms(1) w pk(1) by (simp add: edge_get_local_auth_def ch)
  have u: "find_user comm ?sent = Some user" "allowed_users comm \<noteq> []"
    using assms(3) pk(1) by (auto simp: find_user_def pk_def HASH_FIND_def)
  let ?answer = "?sent\<lparr>token := ?E (?E ch) @ drop 16 pk @ ?E (map2 (XOR) (map2 (XOR) ch (dynamic_key comm)) secret)\<rparr>"
  have de: "speck_128_decrypt ctx (?E ch) = ch" using speck_block.dec_enc [OF lch, of ctx] .
  have "user_answer user comm ?sent = Some ?answer"
    using user_answer_token [of ?sent "take 16 pk" "drop 16 pk" "?E ch" comm user] pk lch assms(4-7) de by simp
  then have "handle_remote_auth ?sent ans comm = Some (0, ?answer)"
    using u assms(1) by (simp add: handle_remote_auth_def)
  moreover have "edge_handle_remote_auth ?conf ctx secret he ?answer = Some (0, packet_header_change_dynamic_key (dynamic_key comm) he)"
    using assms pk(1) lch by (intro edge_accepts [where b = "drop 16 pk"]) simp_all
  ultimately show ?thesis using e by blast
qed

theorem handshake_delivers_dynamic_key_witness:
  "let ctx = snd (speck_init (replicate 16 3) 128);
       user = \<lparr>user_public_key = replicate 32 9, user_shared_secret = replicate 32 3, user_shared_secret_ctx = ctx, user_name = zero_desc\<rparr>;
       comm = zero_community\<lparr>allowed_users := [user], dynamic_key := replicate 16 0x77\<rparr>;
       conf = \<lparr>scheme = n2n_auth_user_password, token_size = 48, token = replicate 32 9 @ replicate 16 0\<rparr>;
       he = packet_header_setup_key (replicate 20 0x61)
   in \<exists>sent conf' rn' answer. edge_get_local_auth conf ctx zero_auth rn_default_state = Some (sent, conf', rn')
     \<and> handle_remote_auth sent zero_auth comm = Some (0, answer)
     \<and> edge_handle_remote_auth conf' ctx (replicate 32 3) he answer = Some (0, packet_header_change_dynamic_key (replicate 16 0x77) he)"
  unfolding Let_def
  using handshake_delivers_dynamic_key [where
      conf = "\<lparr>scheme = n2n_auth_user_password, token_size = 48, token = replicate 32 9 @ replicate 16 0\<rparr>" and
      comm = "zero_community\<lparr>allowed_users := [\<lparr>user_public_key = replicate 32 9, user_shared_secret = replicate 32 3,
        user_shared_secret_ctx = snd (speck_init (replicate 16 3) 128), user_name = zero_desc\<rparr>], dynamic_key := replicate 16 0x77\<rparr>" and
      user = "\<lparr>user_public_key = replicate 32 9, user_shared_secret = replicate 32 3,
        user_shared_secret_ctx = snd (speck_init (replicate 16 3) 128), user_name = zero_desc\<rparr>" and
      ctx = "snd (speck_init (replicate 16 3) 128)" and secret = "replicate 32 3" and
      auth = zero_auth and ans = zero_auth and rn = rn_default_state and he = "packet_header_setup_key (replicate 20 0x61)"]
  by (simp add: find_user_def HASH_FIND_def)

end
