(* ===== verification/Auto_IP.thy ===== *)
theory Auto_IP
  imports Supernode
begin

text \<open>
  The automatic assignment of addresses by the supernode, from \<^verbatim>\<open>src/sn_utils.c\<close>: a free address of the community's
  subnet for an edge, and a free subnet for a community.
\<close>

subsection \<open>Addresses for edges\<close>

definition host_id :: "peer_info \<Rightarrow> u32 option" where
  "host_id p = map_option (\<lambda>m. net_addr (dev_addr p) AND NOT m) (bitlen2mask (net_bitlen (dev_addr p)))"

text \<open>The difference of the signed integers wraps around as on the targets.\<close>

definition peer_tap_ip_sort :: "peer_info \<Rightarrow> peer_info \<Rightarrow> int option" where
  "peer_tap_ip_sort a b = do {
     a_host_id \<leftarrow> host_id a;
     b_host_id \<leftarrow> host_id b;
     Some (sint (a_host_id - b_host_id)) }"

text \<open>Sorting compares every entry of a list of two or more, so one with an impossible prefix length makes it undefined.\<close>

definition sort_edges :: "peer_info list \<Rightarrow> peer_info list option" where
  "sort_edges l =
     (if length l \<ge> 2 \<and> (\<exists>p \<in> set l. host_id p = None) then None
      else Some (HASH_SORT (\<lambda>a b. case peer_tap_ip_sort a b of Some d \<Rightarrow> d | None \<Rightarrow> 0) l))"

fun ip_addr_available :: "peer_info list \<Rightarrow> u32 \<Rightarrow> bool" where
  "ip_addr_available [] ip = True"
| "ip_addr_available (peer # l) ip =
     (if net_addr (dev_addr peer) > ip then True
      else if net_addr (dev_addr peer) = ip then False
      else ip_addr_available l ip)"

lemma unat_inc:
  assumes "(host :: u32) < limit"
  shows "unat (host + 1) = unat host + 1"
proof -
  have "unat host < unat limit" using assms by (simp add: word_less_nat_alt)
  moreover have "unat limit < 2 ^ 32" using unsigned_less [where w = limit and 'a = nat] by simp
  ultimately show ?thesis by (simp add: unat_plus_if')
qed

text \<open>
  The two searches. The variable \<open>success\<close> is not initialised: \<open>None\<close> as long as no address has been tried.
\<close>

function ip_down :: "peer_info list \<Rightarrow> u32 \<Rightarrow> u32 \<Rightarrow> bool option \<times> u32 \<Rightarrow> bool option \<times> u32" where
  "ip_down l net_id host st =
     (if host > net_id then
        if ip_addr_available l host then (Some True, host) else ip_down l net_id (host - 1) (Some False, host)
      else st)"
  by pat_completeness auto
termination
proof (relation "measure (\<lambda>(_, _, host, _). unat host)", goal_cases)
  case (2 l net_id host st)
  then have "host \<noteq> 0" by auto
  then have "unat (host - 1) < unat host" by (simp add: unat_minus_one) (simp add: unat_gt_0)
  then show ?case by simp
qed simp

function ip_up :: "peer_info list \<Rightarrow> u32 \<Rightarrow> u32 \<Rightarrow> bool option \<times> u32 \<Rightarrow> bool option \<times> u32" where
  "ip_up l limit host st =
     (if host < limit then
        if ip_addr_available l host then (Some True, host) else ip_up l limit (host + 1) (Some False, host)
      else st)"
  by pat_completeness auto
termination
proof (relation "measure (\<lambda>(_, limit, host, _). unat limit - unat host)", goal_cases)
  case (2 l limit host st)
  then show ?case using unat_inc [of host limit] by (simp add: word_less_nat_alt)
qed simp

declare ip_down.simps [simp del] ip_up.simps [simp del]

definition first_proposal :: "bytes \<Rightarrow> u32 \<Rightarrow> u32 \<Rightarrow> u32" where
  "first_proposal desc net_id max_host =
     (let tmp = pearson_hash_32 desc AND max_host;
          tmp = (if tmp = 0 then tmp + 1 else tmp);
          tmp = (if tmp = max_host then tmp - 1 else tmp)
      in tmp OR net_id)"

definition assign_one_ip_addr :: "sn_community \<Rightarrow> bytes \<Rightarrow> n2n_ip_subnet \<Rightarrow> (int \<times> sn_community \<times> n2n_ip_subnet) option" where
  "assign_one_ip_addr comm desc ip = do {
     msk \<leftarrow> bitlen2mask (net_bitlen (auto_ip_net comm));
     let net_id = net_addr (auto_ip_net comm) AND msk;
     let max_host = NOT msk;
     l \<leftarrow> sort_edges (edges comm);
     let tmp = first_proposal desc net_id max_host;
     let ip = ip\<lparr>net_bitlen := net_bitlen (auto_ip_net comm)\<rparr>;
     let (success, a) = ip_down l net_id tmp (None, net_addr ip);
     s \<leftarrow> success;
     let (success, a) = (if \<not> s then ip_up l (net_id + max_host) (tmp + 1) (success, a) else (success, a));
     s \<leftarrow> success;
     Some (if s then 0 else -1, comm\<lparr>edges := l\<rparr>, ip\<lparr>net_addr := a\<rparr>) }"

subsection \<open>Words as a network part and a host part\<close>

lemma unat_and_mask: "unat ((x :: u32) AND NOT (prefix_mask b)) = unat x mod 2 ^ (32 - b)"
proof -
  have "x AND NOT (prefix_mask b) = take_bit (32 - b) x" by (simp add: prefix_mask_def take_bit_eq_mask)
  then show ?thesis by (simp only: unsigned_take_bit_eq) (simp only: take_bit_eq_mod)
qed

lemma unat_and_prefix: "unat ((x :: u32) AND prefix_mask b) = unat x - unat x mod 2 ^ (32 - b)"
proof -
  let ?h = "x AND NOT (prefix_mask b)"
  have "(x AND prefix_mask b) + ?h = x"
    by (subst disjunctive_add) (auto simp: bit_and_iff bit_not_iff intro!: bit_word_eqI simp: bit_or_iff)
  then have "x AND prefix_mask b = x - ?h" by (metis add_diff_cancel_right')
  moreover have "?h \<le> x" by (simp add: word_le_nat_alt unat_and_mask)
  ultimately show ?thesis using unat_sub [of ?h x] by (simp add: unat_and_mask)
qed

lemma same_net_order:
  assumes "(x :: u32) AND prefix_mask b = y AND prefix_mask b"
  shows "x AND NOT (prefix_mask b) \<le> y AND NOT (prefix_mask b) \<longleftrightarrow> x \<le> y"
proof -
  let ?p = "2 ^ (32 - b) :: nat"
  have "unat x - unat x mod ?p = unat y - unat y mod ?p"
    using arg_cong [OF assms, of unat] by (simp only: unat_and_prefix)
  moreover have "unat x mod ?p \<le> unat x" "unat y mod ?p \<le> unat y" by simp_all
  ultimately show ?thesis unfolding word_le_nat_alt unat_and_mask by linarith
qed

lemma sint_diff_le:
  assumes "unat (x :: u32) < 2 ^ 31" and "unat y < 2 ^ 31"
  shows "sint (x - y) \<le> 0 \<longleftrightarrow> x \<le> y"
proof -
  have b: "uint x < 2 ^ 31" "uint y < 2 ^ 31" using assms unfolding uint_nat of_nat_less_numeral_power_cancel_iff by simp_all
  have "x - y = word_of_int (uint x - uint y)" by simp
  moreover have "sint (word_of_int k :: u32) = k" if "- (2 ^ 31) \<le> k" "k < 2 ^ 31" for k
    using that by (simp add: sint_sbintrunc' signed_take_bit_int_eq_self)
  moreover have "0 \<le> uint x" "0 \<le> uint y" by simp_all
  then have "- (2 ^ 31) \<le> uint x - uint y" "uint x - uint y < 2 ^ 31" using b by linarith+
  ultimately have "sint (x - y) = uint x - uint y" by (simp only:)
  then show ?thesis by (simp add: word_le_def)
qed

subsection \<open>The edges of a community within its subnet\<close>

text \<open>All edges use addresses of the community's subnet, as those that got them from the supernode do.\<close>

definition in_subnet :: "sn_community \<Rightarrow> bool" where
  "in_subnet comm \<longleftrightarrow> (\<forall>p \<in> set (edges comm). net_bitlen (dev_addr p) = net_bitlen (auto_ip_net comm)
     \<and> net_addr (dev_addr p) AND prefix_mask (unat (net_bitlen (auto_ip_net comm))) =
         net_addr (auto_ip_net comm) AND prefix_mask (unat (net_bitlen (auto_ip_net comm))))"

abbreviation tap_ip :: "peer_info \<Rightarrow> u32" where
  "tap_ip p \<equiv> net_addr (dev_addr p)"

lemma available_sorted: "sorted (map tap_ip l) \<Longrightarrow> ip_addr_available l ip \<longleftrightarrow> ip \<notin> tap_ip ` set l"
  by (induction l) auto

lemma sort_edges_in_subnet:
  assumes "in_subnet comm" and "1 \<le> net_bitlen (auto_ip_net comm)" and "net_bitlen (auto_ip_net comm) \<le> 32"
  shows "\<exists>l. sort_edges (edges comm) = Some l \<and> mset l = mset (edges comm) \<and> sorted (map tap_ip l)"
proof -
  define b where "b = unat (net_bitlen (auto_ip_net comm))"
  have b: "1 \<le> b" "b \<le> 32" using assms(2,3) by (simp_all add: b_def word_le_nat_alt)
  have h: "host_id p = Some (tap_ip p AND NOT (prefix_mask b))" if "p \<in> set (edges comm)" for p
    using that assms(1,3) by (simp add: in_subnet_def host_id_def bitlen2mask_eq b_def)
  have small: "unat (x AND NOT (prefix_mask b)) < 2 ^ 31" for x :: u32
  proof -
    have "unat x mod 2 ^ (32 - b) < 2 ^ (32 - b)" by simp
    also have "\<dots> \<le> 2 ^ 31" using b(1) by (intro power_increasing) simp_all
    finally show ?thesis by (simp only: unat_and_mask)
  qed
  let ?cmp = "\<lambda>x y. case peer_tap_ip_sort x y of Some d \<Rightarrow> d | None \<Rightarrow> 0"
  have "?cmp x y \<le> 0 \<longleftrightarrow> uint (tap_ip x) \<le> uint (tap_ip y)" if "x \<in> set (edges comm)" "y \<in> set (edges comm)" for x y
  proof -
    have "tap_ip x AND prefix_mask b = tap_ip y AND prefix_mask b" using that assms(1) by (simp add: in_subnet_def b_def)
    then show ?thesis
      using h [OF that(1)] h [OF that(2)] sint_diff_le [OF small small] same_net_order
      by (simp add: peer_tap_ip_sort_def flip: word_le_def)
  qed
  then have sort: "HASH_SORT ?cmp (edges comm) = sort_key (\<lambda>p. uint (tap_ip p)) (edges comm)"
    by (rule HASH_SORT_by_rank)
  have "sort_edges (edges comm) = Some (sort_key (\<lambda>p. uint (tap_ip p)) (edges comm))"
    using h sort by (auto simp: sort_edges_def)
  moreover have "sorted (map tap_ip (sort_key (\<lambda>p. uint (tap_ip p)) (edges comm)))"
  proof -
    have "sorted (map (\<lambda>p. uint (tap_ip p)) (sort_key (\<lambda>p. uint (tap_ip p)) (edges comm)))" by (rule sorted_sort_key)
    then show ?thesis by (simp only: sorted_map word_le_def)
  qed
  ultimately show ?thesis by simp
qed

lemma ip_down_result:
  assumes "net_id < host"
  shows "case ip_down l net_id host st of (s, a) \<Rightarrow>
    (s = Some True \<and> net_id < a \<and> a \<le> host \<and> ip_addr_available l a)
    \<or> (s = Some False \<and> (\<forall>x. net_id < x \<and> x \<le> host \<longrightarrow> \<not> ip_addr_available l x))"
  using assms
proof (induction l net_id host st rule: ip_down.induct)
  case (1 l net_id host st)
  then have "host \<noteq> 0" by auto
  then have h: "unat (host - 1) = unat host - 1" "0 < unat host" using unat_minus_one [of host] by (auto simp: unat_gt_0)
  have le: "x \<le> host - 1 \<or> x = host" if "x \<le> host" for x
    using that h by (auto simp: word_le_nat_alt word_eq_iff_unsigned [where 'a = nat])
  show ?case
  proof (cases "ip_addr_available l host")
    case True
    then show ?thesis using "1.prems" by (simp add: ip_down.simps)
  next
    case False
    show ?thesis
    proof (cases "net_id < host - 1")
      case True
      have "host - 1 \<le> host" using h by (simp add: word_le_nat_alt)
      then show ?thesis
        using "1.IH" [OF "1.prems" False True] "1.prems" False le
        by (subst ip_down.simps) (fastforce split: prod.splits)
    next
      case up: False
      then have "ip_down l net_id (host - 1) (Some False, host) = (Some False, host)" by (subst ip_down.simps) simp
      moreover have "x = host" if "net_id < x" "x \<le> host" for x
        using that le [of x] up by auto
      ultimately show ?thesis using "1.prems" False by (subst ip_down.simps) auto
    qed
  qed
qed

lemma ip_up_result:
  "case ip_up l limit host (Some False, a0) of (s, a) \<Rightarrow>
    (s = Some True \<and> host \<le> a \<and> a < limit \<and> ip_addr_available l a)
    \<or> (s = Some False \<and> (\<forall>x. host \<le> x \<and> x < limit \<longrightarrow> \<not> ip_addr_available l x))"
proof (induction l limit host "(Some False, a0)" arbitrary: a0 rule: ip_up.induct)
  case (1 l limit host)
  show ?case
  proof (cases "host < limit")
    case False
    then show ?thesis by (subst ip_up.simps) auto
  next
    case True
    note h = unat_inc [OF True]
    have ge: "x = host \<or> host + 1 \<le> x" if "host \<le> x" for x
      using that h by (auto simp: word_le_nat_alt word_eq_iff_unsigned [where 'a = nat])
    show ?thesis
    proof (cases "ip_addr_available l host")
      case avail: True
      then show ?thesis using True by (subst ip_up.simps) simp
    next
      case na: False
      have "host \<le> host + 1" using h by (simp add: word_le_nat_alt)
      then show ?thesis
        using 1 [OF True na] True na ge by (subst ip_up.simps) (fastforce split: prod.splits)
    qed
  qed
qed


subsection \<open>The range searched\<close>

lemma unat_not_prefix: "unat (NOT (prefix_mask b)) = 2 ^ (32 - b) - 1"
proof -
  have "NOT (prefix_mask b) = mask (32 - b)" by (simp add: prefix_mask_def)
  moreover have "min LENGTH(32) (32 - b) = 32 - b" by simp
  ultimately show ?thesis
    by (simp only: unat_eq_nat_uint uint_mask_eq) (simp add: mask_eq_exp_minus_1 nat_diff_distrib nat_power_eq)
qed

lemma unat_add_host:
  assumes "b \<le> 32" and "unat (h :: u32) < 2 ^ (32 - b)"
  shows "unat (h + (x AND prefix_mask b)) = unat h + unat (x AND prefix_mask b)"
proof -
  let ?k = "2 ^ (32 - b) :: nat"
  have x: "unat x < 2 ^ b * ?k"
    using unsigned_less [where 'a = nat and w = x] assms(1) by (simp add: power_add [symmetric])
  then have "unat x div ?k < 2 ^ b" by (simp add: less_mult_imp_div_less)
  then have "(unat x div ?k + 1) * ?k \<le> 2 ^ b * ?k" by (intro mult_right_mono) simp_all
  then have "unat x div ?k * ?k + ?k \<le> 2 ^ 32" using assms(1) by (simp add: power_add [symmetric])
  moreover have "unat (x AND prefix_mask b) = unat x div ?k * ?k"
    unfolding unat_and_prefix by (simp add: minus_mod_eq_div_mult)
  ultimately show ?thesis using assms(2) by (simp add: unat_plus_if')
qed

lemma or_is_add:
  assumes "b \<le> 32" and "unat (h :: u32) < 2 ^ (32 - b)"
  shows "h OR (x AND prefix_mask b) = h + (x AND prefix_mask b)"
proof -
  have "take_bit (32 - b) h = h"
    unfolding word_unat_eq_iff unsigned_take_bit_eq using assms(2) by (simp add: take_bit_eq_mod)
  then have "bit h n \<Longrightarrow> n < 32 - b" for n by (metis bit_take_bit_iff)
  then show ?thesis
    using assms(1) by (intro disjunctive_add [symmetric]) (fastforce simp: bit_and_iff bit_prefix_mask)
qed

lemma first_proposal_range:
  assumes "b \<le> 30"
  shows "x AND prefix_mask b < first_proposal desc (x AND prefix_mask b) (NOT (prefix_mask b))"
    and "first_proposal desc (x AND prefix_mask b) (NOT (prefix_mask b)) < (x AND prefix_mask b) + NOT (prefix_mask b)"
proof -
  let ?M = "NOT (prefix_mask b)" and ?N = "x AND prefix_mask b" and ?k = "2 ^ (32 - b) :: nat"
  let ?t = "pearson_hash_32 desc AND ?M"
  let ?u = "if ?t = 0 then ?t + 1 else ?t"
  let ?h = "if ?u = ?M then ?u - 1 else ?u"
  have "(2::nat) ^ 2 \<le> ?k" using assms by (intro power_increasing) simp_all
  then have k: "4 \<le> ?k" by simp
  have M: "unat ?M = ?k - 1" by (rule unat_not_prefix)
  have "unat ?t < ?k" by (simp only: unat_and_mask) simp
  then have "\<exists>u. ?u = u \<and> 0 < unat u \<and> unat u \<le> unat ?M"
    using M k by (cases "?t = 0") (simp_all add: unat_gt_0)
  then obtain u where u: "?u = u" "0 < unat u" "unat u \<le> unat ?M" by blast
  have "unat (u - 1) = unat u - 1" using u(2) unat_minus_one [of u] by (simp add: unat_gt_0)
  moreover have "u \<noteq> ?M \<Longrightarrow> unat u \<noteq> unat ?M" by (simp add: word_unat_eq_iff)
  ultimately have h: "0 < unat ?h" "unat ?h < unat ?M" unfolding u(1) using u(2,3) M k by (auto split: if_splits)
  have fp: "first_proposal desc ?N ?M = ?h + ?N"
    unfolding first_proposal_def Let_def using h M assms by (intro or_is_add) simp_all
  have "unat (?h + ?N) = unat ?h + unat ?N" using h M assms by (intro unat_add_host) simp_all
  moreover have "unat (?M + ?N) = unat ?M + unat ?N" using M k assms by (intro unat_add_host) simp_all
  ultimately show "?N < first_proposal desc ?N ?M" "first_proposal desc ?N ?M < ?N + ?M"
    unfolding fp word_less_nat_alt using h by (simp_all add: add.commute)
qed

text \<open>The addresses for hosts of the community's subnet: neither that of the network nor the one for broadcasts.\<close>

definition subnet_hosts :: "sn_community \<Rightarrow> u32 set" where
  "subnet_hosts comm = (let m = prefix_mask (unat (net_bitlen (auto_ip_net comm))); n = net_addr (auto_ip_net comm) AND m
     in {x. n < x \<and> x < n + NOT m})"



definition small_net :: sn_community where
  "small_net = zero_community\<lparr>auto_ip_net := \<lparr>net_addr = 0x0A000000, net_bitlen = 29\<rparr>,
     edges := [zero_peer\<lparr>dev_addr := \<lparr>net_addr = 0x0A000003, net_bitlen = 29\<rparr>\<rparr>]\<rparr>"

lemma small_net_hosts: "(0x0A000001 :: u32) \<in> subnet_hosts small_net"
proof -
  have "prefix_mask 29 = 0xFFFFFFF8" by (simp add: prefix_mask_def mask_eq_exp_minus_1)
  then show ?thesis by (simp add: subnet_hosts_def small_net_def Let_def)
qed



subsection \<open>Subnets for communities\<close>

text \<open>\<open>comm\<close> is the index of the community the subnet is for. A prefix length above 32 makes the check undefined.\<close>

fun subnet_available_loop :: "(nat \<times> sn_community) list \<Rightarrow> nat \<Rightarrow> u32 \<Rightarrow> u32 \<Rightarrow> bool option" where
  "subnet_available_loop [] comm net_id msk = Some True"
| "subnet_available_loop ((i, cmn) # l) comm net_id msk =
     (if i = comm then subnet_available_loop l comm net_id msk
      else if is_federation cmn then subnet_available_loop l comm net_id msk
      else do {
        m \<leftarrow> bitlen2mask (net_bitlen (auto_ip_net cmn));
        if net_id \<le> net_addr (auto_ip_net cmn) + NOT m \<and> net_id + NOT msk \<ge> net_addr (auto_ip_net cmn) then Some False
        else subnet_available_loop l comm net_id msk })"

definition subnet_available :: "n2n_sn \<Rightarrow> nat \<Rightarrow> u32 \<Rightarrow> u32 \<Rightarrow> bool option" where
  "subnet_available sss comm net_id msk = subnet_available_loop (enumerate 0 (communities sss)) comm net_id msk"

text \<open>The two searches, with the wrap-around of their counter; \<open>None\<close> is also a search that does not end.\<close>

partial_function (option) net_down :: "(u32 \<Rightarrow> bool option) \<Rightarrow> u32 \<Rightarrow> u32 \<Rightarrow> u32 \<Rightarrow> bool option \<Rightarrow> (bool option \<times> u32) option" where
  "net_down avail lo net_increment net_id_i success =
     (if net_id_i \<ge> lo then do {
        s \<leftarrow> avail net_id_i;
        if s then Some (Some True, net_id_i) else net_down avail lo net_increment (net_id_i - net_increment) (Some False) }
      else Some (success, net_id_i))"

partial_function (option) net_up :: "(u32 \<Rightarrow> bool option) \<Rightarrow> u32 \<Rightarrow> u32 \<Rightarrow> u32 \<Rightarrow> bool option \<Rightarrow> (bool option \<times> u32) option" where
  "net_up avail hi net_increment net_id_i success =
     (if net_id_i \<le> hi then do {
        s \<leftarrow> avail net_id_i;
        if s then Some (Some True, net_id_i) else net_up avail hi net_increment (net_id_i + net_increment) (Some False) }
      else Some (success, net_id_i))"

declare net_down.simps [code] net_up.simps [code]

definition assign_one_ip_subnet :: "n2n_sn \<Rightarrow> nat \<Rightarrow> (int \<times> n2n_sn) option" where
  "assign_one_ip_subnet sss comm = do {
     let bl = unat (net_bitlen (min_auto_ip_net sss));
     let lo = net_addr (min_auto_ip_net sss);
     let hi = net_addr (max_auto_ip_net sss);
     msk \<leftarrow> bitlen2mask (net_bitlen (min_auto_ip_net sss));
     if bl = 0 then None else do {
     let no_subnets = drop_bit (32 - bl) (hi - lo) + 1;
     if no_subnets = 0 then None else do {
     let net_id = pearson_hash_32 (comm_name (communities sss ! comm)) mod no_subnets;
     let net_id = lo + push_bit (32 - bl) net_id;
     let net_increment = NOT msk + 1;
     (success, net_id_i) \<leftarrow> net_down (\<lambda>i. subnet_available sss comm i msk) lo net_increment net_id None;
     s \<leftarrow> success;
     (success, net_id_i) \<leftarrow>
       (if \<not> s then net_up (\<lambda>i. subnet_available sss comm i msk) hi net_increment (net_id + net_increment) success
        else Some (success, net_id_i));
     s \<leftarrow> success;
     let net = (if s then \<lparr>net_addr = net_id_i, net_bitlen = net_bitlen (min_auto_ip_net sss)\<rparr> else \<lparr>net_addr = 0, net_bitlen = 0\<rparr>);
     Some (if s then 0 else -1, sss\<lparr>communities := (communities sss)[comm := (communities sss ! comm)\<lparr>auto_ip_net := net\<rparr>]\<rparr>) }}}"


text \<open>The option \<open>-a\<close> of the supernode, after the parsing of its three numbers.\<close>

definition set_auto_ip_range :: "u32 \<Rightarrow> u32 \<Rightarrow> byte \<Rightarrow> n2n_sn \<Rightarrow> (int \<times> n2n_sn) option" where
  "set_auto_ip_range net_min net_max bitlen sss = do {
     msk \<leftarrow> bitlen2mask bitlen;
     Some (if net_min = - 1 \<or> net_min = 0 \<or> net_max = - 1 \<or> net_max = 0 \<or> net_min > net_max
             \<or> net_min AND NOT msk \<noteq> 0 \<or> net_max AND NOT msk \<noteq> 0 then (2, sss)
           else if bitlen > 30 \<or> bitlen = 0 then (2, sss)
           else (0, sss\<lparr>min_auto_ip_net := \<lparr>net_addr = net_min, net_bitlen = bitlen\<rparr>,
                        max_auto_ip_net := \<lparr>net_addr = net_max, net_bitlen = bitlen\<rparr>\<rparr>)) }"

subsection \<open>Subnets are kept apart\<close>

text \<open>The addresses of a subnet, and that a subnet starts at a multiple of its size.\<close>

definition net_range :: "n2n_ip_subnet \<Rightarrow> u32 set" where
  "net_range s = {net_addr s .. net_addr s + NOT (prefix_mask (unat (net_bitlen s)))}"

definition net_ok :: "n2n_ip_subnet \<Rightarrow> bool" where
  "net_ok s \<longleftrightarrow> net_bitlen s \<le> 32 \<and> net_addr s AND prefix_mask (unat (net_bitlen s)) = net_addr s"

lemma net_ok_end:
  assumes "net_ok s"
  shows "net_addr s \<le> net_addr s + NOT (prefix_mask (unat (net_bitlen s)))"
proof -
  let ?b = "unat (net_bitlen s)"
  have b: "?b \<le> 32" and a: "net_addr s AND prefix_mask ?b = net_addr s"
    using assms by (simp_all add: net_ok_def word_le_nat_alt)
  have "unat (NOT (prefix_mask ?b) + (net_addr s AND prefix_mask ?b)) = unat (NOT (prefix_mask ?b)) + unat (net_addr s AND prefix_mask ?b)"
    using b by (intro unat_add_host) (simp_all add: unat_not_prefix)
  then show ?thesis unfolding a word_le_nat_alt by (simp add: add.commute)
qed

lemma subnet_available_loop_ok:
  assumes "\<forall>(i, cmn) \<in> set l. net_ok (auto_ip_net cmn)" and "net_ok \<lparr>net_addr = x, net_bitlen = b\<rparr>"
  shows "subnet_available_loop l comm x (prefix_mask (unat b)) =
    Some (\<forall>(i, cmn) \<in> set l. i = comm \<or> is_federation cmn \<or> net_range \<lparr>net_addr = x, net_bitlen = b\<rparr> \<inter> net_range (auto_ip_net cmn) = {})"
  using assms(1)
proof (induction l)
  case (Cons e l)
  obtain i cmn where e: "e = (i, cmn)" by fastforce
  let ?n = "auto_ip_net cmn"
  have ok: "net_ok ?n" using Cons.prems e by simp
  then have m: "bitlen2mask (net_bitlen ?n) = Some (prefix_mask (unat (net_bitlen ?n)))"
    by (simp add: net_ok_def bitlen2mask_eq)
  have "net_range \<lparr>net_addr = x, net_bitlen = b\<rparr> \<inter> net_range ?n = {} \<longleftrightarrow>
    \<not> (x \<le> net_addr ?n + NOT (prefix_mask (unat (net_bitlen ?n))) \<and> x + NOT (prefix_mask (unat b)) \<ge> net_addr ?n)"
    using net_ok_end [OF ok] net_ok_end [OF assms(2)] by (auto simp: net_range_def)
  then show ?case using Cons m by (simp add: e)
qed simp


lemma net_down_result:
  assumes "unat start = unat lo + j * unat inc" and "0 < unat inc" and "unat inc \<le> unat lo"
    and "\<forall>i x. i \<le> j \<and> unat x = unat lo + i * unat inc \<longrightarrow> avail x = Some (A x)"
  shows "\<exists>s x. net_down avail lo inc start st = Some (s, x)
    \<and> (s = Some True \<and> A x \<and> (\<exists>i \<le> j. unat x = unat lo + i * unat inc)
      \<or> s = Some False \<and> (\<forall>i \<le> j. \<forall>y. unat y = unat lo + i * unat inc \<longrightarrow> \<not> A y))"
  using assms(1,4)
proof (induction j arbitrary: start st)
  case 0
  have "start = lo" using 0(1) by (simp add: word_unat_eq_iff)
  moreover have "\<not> lo \<le> lo - inc"
    using assms(2,3) unat_sub [of inc lo] by (simp add: word_le_nat_alt)
  then have "net_down avail lo inc (lo - inc) (Some False) = Some (Some False, lo - inc)" by (subst net_down.simps) simp
  moreover have "avail lo = Some (A lo)" using 0(2) by simp
  moreover have "net_down avail lo inc lo st = (if A lo then Some (Some True, lo) else net_down avail lo inc (lo - inc) (Some False))"
    using \<open>avail lo = Some (A lo)\<close> by (subst net_down.simps) simp
  moreover have "y = lo" if "unat y = unat lo" for y using that by (simp add: word_unat_eq_iff)
  ultimately show ?case by fastforce
next
  case (Suc j)
  have ge: "lo \<le> start" using Suc.prems(1) by (simp add: word_le_nat_alt)
  have a: "avail start = Some (A start)" using Suc.prems by blast
  have step: "net_down avail lo inc start st = (if A start then Some (Some True, start) else net_down avail lo inc (start - inc) (Some False))"
    using ge a by (subst net_down.simps) simp
  have "inc \<le> start" using Suc.prems(1) by (simp add: word_le_nat_alt)
  then have next_start: "unat (start - inc) = unat lo + j * unat inc" using unat_sub [of inc start] Suc.prems(1) by simp
  have top: "y = start" if "unat y = unat lo + Suc j * unat inc" for y using that Suc.prems(1) by (simp add: word_unat_eq_iff)
  show ?case
  proof (cases "A start")
    case True
    then show ?thesis using step Suc.prems(1) by auto
  next
    case False
    have ok: "\<forall>i x. i \<le> j \<and> unat x = unat lo + i * unat inc \<longrightarrow> avail x = Some (A x)" using Suc.prems(2) le_SucI by blast
    from Suc.IH [OF next_start ok, where st = "Some False"] obtain s x where r: "net_down avail lo inc (start - inc) (Some False) = Some (s, x)"
      and c: "s = Some True \<and> A x \<and> (\<exists>i \<le> j. unat x = unat lo + i * unat inc)
        \<or> s = Some False \<and> (\<forall>i \<le> j. \<forall>y. unat y = unat lo + i * unat inc \<longrightarrow> \<not> A y)"
      by (elim exE conjE)
    have "net_down avail lo inc start st = Some (s, x)" using step False r by simp
    moreover have "\<forall>i \<le> Suc j. \<forall>y. unat y = unat lo + i * unat inc \<longrightarrow> \<not> A y"
      if "\<forall>i \<le> j. \<forall>y. unat y = unat lo + i * unat inc \<longrightarrow> \<not> A y"
      using that top False by (metis le_Suc_eq)
    ultimately show ?thesis using c le_SucI by blast
  qed
qed

lemma net_up_result:
  assumes "unat hi + unat inc < 2 ^ 32" and "0 < unat inc"
    and "\<And>i x. unat x = unat start + i * unat inc \<Longrightarrow> x \<le> hi \<Longrightarrow> avail x = Some (A x)"
  shows "\<exists>s x. net_up avail hi inc start (Some False) = Some (s, x)
    \<and> (s = Some True \<and> A x \<and> x \<le> hi \<and> (\<exists>i. unat x = unat start + i * unat inc)
      \<or> s = Some False \<and> (\<forall>i y. unat y = unat start + i * unat inc \<and> y \<le> hi \<longrightarrow> \<not> A y))"
  using assms(3)
proof (induction "2 ^ 32 - unat start" arbitrary: start rule: less_induct)
  case less
  show ?case
  proof (cases "start \<le> hi")
    case False
    then have "net_up avail hi inc start (Some False) = Some (Some False, start)" by (subst net_up.simps) simp
    then show ?thesis using False by (auto simp: word_le_nat_alt)
  next
    case True
    have a: "avail start = Some (A start)" using less.prems [of start 0] True by simp
    have step: "net_up avail hi inc start (Some False) = (if A start then Some (Some True, start) else net_up avail hi inc (start + inc) (Some False))"
      using True a by (subst net_up.simps) simp
    have up: "unat (start + inc) = unat start + unat inc"
      using True assms(1) by (simp add: unat_plus_if' word_le_nat_alt)
    show ?thesis
    proof (cases "A start")
      case True
      then show ?thesis using step \<open>start \<le> hi\<close> by (auto intro: exI [of _ 0])
    next
      case False
      have later: "unat x = unat start + Suc i * unat inc \<longleftrightarrow> unat x = unat (start + inc) + i * unat inc" for x i by (simp add: up add.assoc)
      have "unat start < 2 ^ 32" using unsigned_less [where w = start and 'a = nat] by simp
      then have "2 ^ 32 - unat (start + inc) < 2 ^ 32 - unat start" using up assms(2) by simp
      moreover have "\<And>i x. unat x = unat (start + inc) + i * unat inc \<Longrightarrow> x \<le> hi \<Longrightarrow> avail x = Some (A x)"
        using less.prems later by blast
      ultimately have IH: "\<exists>s x. net_up avail hi inc (start + inc) (Some False) = Some (s, x)
        \<and> (s = Some True \<and> A x \<and> x \<le> hi \<and> (\<exists>i. unat x = unat (start + inc) + i * unat inc)
          \<or> s = Some False \<and> (\<forall>i y. unat y = unat (start + inc) + i * unat inc \<and> y \<le> hi \<longrightarrow> \<not> A y))"
        by (rule less.hyps)
      have all: "(\<forall>i y. unat y = unat start + i * unat inc \<and> y \<le> hi \<longrightarrow> \<not> A y)"
        if "\<forall>i y. unat y = unat (start + inc) + i * unat inc \<and> y \<le> hi \<longrightarrow> \<not> A y"
      proof (intro allI impI)
        fix i y
        assume y: "unat y = unat start + i * unat inc \<and> y \<le> hi"
        show "\<not> A y"
          using that False y word_unat_eq_iff [of y start] by (cases i) (auto simp: later [symmetric] simp del: mult_Suc)
      qed
      have some: "\<exists>i. unat x = unat start + i * unat inc" if "unat x = unat (start + inc) + i * unat inc" for x i
        using that later by blast
      have "net_up avail hi inc start (Some False) = net_up avail hi inc (start + inc) (Some False)" using step False by simp
      then show ?thesis using IH all some by metis
    qed
  qed
qed


text \<open>The subnets the supernode may hand out, and that one cuts no subnet of another community.\<close>

definition subnet_choices :: "n2n_sn \<Rightarrow> n2n_ip_subnet set" where
  "subnet_choices sss = {s. net_ok s \<and> net_bitlen s = net_bitlen (min_auto_ip_net sss)
     \<and> net_addr (min_auto_ip_net sss) \<le> net_addr s \<and> net_addr s \<le> net_addr (max_auto_ip_net sss)}"

definition subnet_free :: "n2n_sn \<Rightarrow> nat \<Rightarrow> n2n_ip_subnet \<Rightarrow> bool" where
  "subnet_free sss comm s \<longleftrightarrow> (\<forall>i < length (communities sss). i \<noteq> comm \<and> \<not> is_federation (communities sss ! i)
     \<longrightarrow> net_range s \<inter> net_range (auto_ip_net (communities sss ! i)) = {})"

lemma subnet_available_free:
  assumes "\<forall>cmn \<in> set (communities sss). net_ok (auto_ip_net cmn)" and "net_ok s"
  shows "subnet_available sss comm (net_addr s) (prefix_mask (unat (net_bitlen s))) = Some (subnet_free sss comm s)"
proof -
  have s: "\<lparr>net_addr = net_addr s, net_bitlen = net_bitlen s\<rparr> = s" by simp
  have "\<forall>(i, cmn) \<in> set (enumerate 0 (communities sss)). net_ok (auto_ip_net cmn)"
    using assms(1) by (auto simp: in_set_enumerate_eq)
  then show ?thesis
    using subnet_available_loop_ok [of "enumerate 0 (communities sss)" "net_addr s" "net_bitlen s" comm, unfolded s] assms(2)
    unfolding subnet_available_def subnet_free_def by (fastforce simp: in_set_enumerate_eq)
qed

lemma net_ok_iff: "b \<le> 32 \<Longrightarrow> net_ok \<lparr>net_addr = x, net_bitlen = b\<rparr> \<longleftrightarrow> 2 ^ (32 - unat b) dvd unat x"
proof -
  assume "b \<le> 32"
  have "x AND prefix_mask (unat b) = x \<longleftrightarrow> unat x - unat x mod 2 ^ (32 - unat b) = unat x"
    by (simp add: word_unat_eq_iff unat_and_prefix)
  also have "\<dots> \<longleftrightarrow> 2 ^ (32 - unat b) dvd unat x"
  proof -
    have "unat x mod 2 ^ (32 - unat b) \<le> unat x" by simp
    then show ?thesis unfolding dvd_eq_mod_eq_0 by linarith
  qed
  finally show ?thesis using \<open>b \<le> 32\<close> by (simp add: net_ok_def)
qed

text \<open>The numbers of the search for a range that passes the check of the option.\<close>

lemma auto_ip_range_numbers:
  assumes "set_auto_ip_range lo hi bl sss = Some (0, sss')" and "hi + NOT (prefix_mask (unat bl)) \<noteq> - 1"
  defines "inc \<equiv> 2 ^ (32 - unat bl)"
  shows "bl \<le> 32" and "unat bl \<noteq> 0" and "lo \<le> hi" and "inc dvd unat lo" and "inc \<le> unat lo" and "unat hi + inc < 2 ^ 32"
    and "unat (NOT (prefix_mask (unat bl)) + 1) = inc"
proof -
  have bl: "1 \<le> unat bl" "unat bl \<le> 30" and nz: "lo \<noteq> 0" and le: "lo \<le> hi"
    and al: "lo AND NOT (prefix_mask (unat bl)) = 0" "hi AND NOT (prefix_mask (unat bl)) = 0"
    using assms(1)
    by (auto simp: set_auto_ip_range_def bitlen2mask_eq word_le_nat_alt not_less unat_eq_0 Suc_le_eq unat_gt_0 bind_eq_Some_conv split: if_splits)
  show "bl \<le> 32" "unat bl \<noteq> 0" "lo \<le> hi" using bl le by (simp_all add: word_le_nat_alt)
  have "unat lo mod inc = 0" "unat hi mod inc = 0"
    using al [THEN arg_cong [of _ _ unat]] by (simp_all add: unat_and_mask inc_def)
  then have d': "inc dvd unat hi" and d: "inc dvd unat lo" by (simp_all add: dvd_eq_mod_eq_0)
  show "inc dvd unat lo" by (rule d)
  then show "inc \<le> unat lo" using nz by (intro dvd_imp_le) (simp_all add: unat_gt_0)
  have hi: "hi AND prefix_mask (unat bl) = hi"
    using net_ok_iff [OF \<open>bl \<le> 32\<close>, of hi] d' by (simp add: net_ok_def inc_def)
  have "unat (NOT (prefix_mask (unat bl)) + (hi AND prefix_mask (unat bl))) = unat (NOT (prefix_mask (unat bl))) + unat (hi AND prefix_mask (unat bl))"
    using bl by (intro unat_add_host) (simp_all add: unat_not_prefix)
  then have "unat (hi + NOT (prefix_mask (unat bl))) = unat hi + (inc - 1)"
    unfolding hi by (simp add: unat_not_prefix inc_def add.commute)
  moreover have "unat (hi + NOT (prefix_mask (unat bl))) \<noteq> unat (- 1 :: u32)"
    using assms(2) word_unat_eq_iff by blast
  moreover have "unat (hi + NOT (prefix_mask (unat bl))) < 2 ^ 32"
    using unsigned_less [where w = "hi + NOT (prefix_mask (unat bl))" and 'a = nat] by simp
  moreover have "0 < inc" by (simp add: inc_def)
  moreover have "unat (- 1 :: u32) = 2 ^ 32 - 1" by (simp add: unsigned_minus_1_eq_mask mask_eq_exp_minus_1)
  ultimately show "unat hi + inc < 2 ^ 32" by simp
  have "inc \<le> 2 ^ 31" unfolding inc_def using bl by (intro power_increasing) simp_all
  then show "unat (NOT (prefix_mask (unat bl)) + 1) = inc"
    using \<open>0 < inc\<close> by (simp add: unat_plus_if' unat_not_prefix flip: inc_def)
qed


lemma first_subnet:
  assumes "unat (hi :: u32) - unat lo < 2 ^ 32 - 2 ^ k" and "lo \<le> hi" and "k < 32"
  defines "n \<equiv> drop_bit k (hi - lo) + 1"
  shows "n \<noteq> 0" and "\<exists>j. unat (lo + push_bit k (h mod n)) = unat lo + j * 2 ^ k \<and> lo + push_bit k (h mod n) \<le> hi"
proof -
  let ?D = "(unat hi - unat lo) div 2 ^ k" and ?j = "unat (h mod n)"
  have hi: "unat lo \<le> unat hi" "unat hi < 2 ^ 32"
    using assms(2) unsigned_less [where w = hi and 'a = nat] by (simp_all add: word_le_nat_alt)
  have "unat (hi - lo) = unat hi - unat lo" using assms(2) by (rule unat_sub)
  moreover have "unat (drop_bit k (hi - lo)) = drop_bit k (take_bit 32 (unat (hi - lo)))" by (simp only: unsigned_drop_bit_eq) simp
  ultimately have D: "unat (drop_bit k (hi - lo)) = ?D" using hi(2) by (simp add: drop_bit_eq_div take_bit_nat_eq_self)
  have "?D * 2 ^ k \<le> unat hi - unat lo" by (simp add: div_times_less_eq_dividend)
  then have "?D * 2 ^ k < 2 ^ 32 - 2 ^ k" using assms(1) by (rule le_less_trans)
  then have "(?D + 1) * 2 ^ k < 2 ^ 32" by (simp only: less_diff_conv) simp
  moreover have "(?D + 1) * 1 \<le> (?D + 1) * 2 ^ k" by (intro mult_le_mono2) simp
  ultimately have "?D + 1 < 2 ^ 32" unfolding mult_1_right by (rule le_less_trans [rotated])
  then have n: "unat n = ?D + 1" unfolding n_def using D by (simp add: unat_plus_if')
  then show "n \<noteq> 0" by auto
  have "?j = unat h mod unat n" by (simp add: unat_mod_distrib)
  then have "?j \<le> ?D" using n by (metis Suc_eq_plus1 mod_Suc_le_divisor)
  then have j: "?j * 2 ^ k \<le> unat hi - unat lo"
    using \<open>?D * 2 ^ k \<le> unat hi - unat lo\<close> by (meson le_trans mult_le_mono1)
  have "unat (push_bit k (h mod n)) = take_bit 32 (push_bit k ?j)" by (simp only: unsigned_push_bit_eq) simp
  then have "unat (push_bit k (h mod n)) = ?j * 2 ^ k"
    using j hi by (simp only: push_bit_eq_mult) (simp add: take_bit_nat_eq_self)
  moreover have "unat lo + ?j * 2 ^ k < 2 ^ 32" using j hi by linarith
  ultimately have "unat (lo + push_bit k (h mod n)) = unat lo + ?j * 2 ^ k" by (simp add: unat_plus_if')
  then show "\<exists>j. unat (lo + push_bit k (h mod n)) = unat lo + j * 2 ^ k \<and> lo + push_bit k (h mod n) \<le> hi"
    using j hi by (auto simp: word_le_nat_alt)
qed


text \<open>Both searches one after the other, over a range of multiples that does not reach the end of the address space.\<close>

lemma net_search_result:
  assumes "unat start = unat lo + j * unat inc" and "start \<le> hi" and "0 < unat inc" and "unat inc \<le> unat lo" and "unat hi + unat inc < 2 ^ 32"
    and avail: "\<And>i x. unat x = unat lo + i * unat inc \<Longrightarrow> avail x = Some (A x)"
  defines "C \<equiv> {x. (\<exists>i. unat x = unat lo + i * unat inc) \<and> x \<le> hi}"
  obtains x where "net_down avail lo inc start None = Some (Some True, x)" "A x" "x \<in> C"
  | y x where "net_down avail lo inc start None = Some (Some False, y)"
      "net_up avail hi inc (start + inc) (Some False) = Some (Some True, x)" "A x" "x \<in> C"
  | y x where "net_down avail lo inc start None = Some (Some False, y)"
      "net_up avail hi inc (start + inc) (Some False) = Some (Some False, x)" "\<forall>x \<in> C. \<not> A x"
proof -
  have up: "unat (start + inc) = unat lo + Suc j * unat inc"
    using assms(1,2,5) by (simp add: unat_plus_if' word_le_nat_alt)
  have "\<forall>i x. i \<le> j \<and> unat x = unat lo + i * unat inc \<longrightarrow> avail x = Some (A x)" using avail by blast
  from net_down_result [OF assms(1,3,4) this, where st = None] obtain s y where
    d: "net_down avail lo inc start None = Some (s, y)" and
    dc: "s = Some True \<and> A y \<and> (\<exists>i \<le> j. unat y = unat lo + i * unat inc)
      \<or> s = Some False \<and> (\<forall>i \<le> j. \<forall>x. unat x = unat lo + i * unat inc \<longrightarrow> \<not> A x)" by (elim exE conjE)
  have above: "unat (start + inc) + i * unat inc = unat lo + (Suc j + i) * unat inc" for i unfolding up by (simp add: algebra_simps)
  have "\<exists>s x. net_up avail hi inc (start + inc) (Some False) = Some (s, x)
    \<and> (s = Some True \<and> A x \<and> x \<le> hi \<and> (\<exists>i. unat x = unat (start + inc) + i * unat inc)
      \<or> s = Some False \<and> (\<forall>i y. unat y = unat (start + inc) + i * unat inc \<and> y \<le> hi \<longrightarrow> \<not> A y))"
    using avail unfolding above
    by (intro net_up_result [OF assms(5,3), where start = "start + inc" and avail = avail and A = A, unfolded above]) blast
  then obtain s' x where
    u: "net_up avail hi inc (start + inc) (Some False) = Some (s', x)" and
    uc: "s' = Some True \<and> A x \<and> x \<le> hi \<and> (\<exists>i. unat x = unat lo + (Suc j + i) * unat inc)
      \<or> s' = Some False \<and> (\<forall>i y. unat y = unat lo + (Suc j + i) * unat inc \<and> y \<le> hi \<longrightarrow> \<not> A y)"
    unfolding above by (elim exE conjE)
  consider "s = Some True" | "s = Some False" "s' = Some True" | "s = Some False" "s' = Some False" using dc uc by blast
  then show thesis
  proof cases
    case 1
    then obtain i where "A y" "i \<le> j" "unat y = unat lo + i * unat inc" using dc by auto
    moreover from this have "y \<le> start" using assms(1) by (simp add: word_le_nat_alt)
    ultimately show thesis using that(1) d 1 assms(2) by (auto simp: C_def)
  next
    case 2
    then show thesis using that(2) d u uc unfolding C_def by blast
  next
    case 3
    have "\<not> A x" if "unat x = unat lo + i * unat inc" "x \<le> hi" for x i
    proof (cases "i \<le> j")
      case False
      then have "i = Suc j + (i - Suc j)" by simp
      then show ?thesis using uc 3(2) that by (metis option.inject)
    qed (use dc 3 that in auto)
    then show thesis using that(3) d u 3 unfolding C_def by blast
  qed
qed

text \<open>
  C32. The assignment of a subnet to a community: for every address range that the option of the supernode admits and that does not
  end at 255.255.255.255, the search returns. When some subnet of the range cuts no subnet of another community, it
  reports success and the community gets one; otherwise it reports \<open>-1\<close> and the community is left with 0.0.0.0/0. Nothing else changes.
\<close>

theorem assign_one_ip_subnet_correct:
  assumes range: "set_auto_ip_range (net_addr (min_auto_ip_net sss)) (net_addr (max_auto_ip_net sss)) (net_bitlen (min_auto_ip_net sss)) sss = Some (0, sss)"
    and top: "net_addr (max_auto_ip_net sss) + NOT (prefix_mask (unat (net_bitlen (min_auto_ip_net sss)))) \<noteq> - 1"
    and nets: "\<forall>cmn \<in> set (communities sss). net_ok (auto_ip_net cmn)"
  shows "\<exists>r s. assign_one_ip_subnet sss comm =
      Some (r, sss\<lparr>communities := (communities sss)[comm := (communities sss ! comm)\<lparr>auto_ip_net := s\<rparr>]\<rparr>)
    \<and> (if \<exists>s \<in> subnet_choices sss. subnet_free sss comm s then r = 0 \<and> s \<in> subnet_choices sss \<and> subnet_free sss comm s
       else r = -1 \<and> s = \<lparr>net_addr = 0, net_bitlen = 0\<rparr>)"
proof -
  define lo hi bl where "lo = net_addr (min_auto_ip_net sss)" and "hi = net_addr (max_auto_ip_net sss)" and "bl = net_bitlen (min_auto_ip_net sss)"
  define m where "m = prefix_mask (unat bl)"
  define inc where "inc = NOT m + 1"
  define start where "start = lo + push_bit (32 - unat bl) (pearson_hash_32 (comm_name (communities sss ! comm)) mod (drop_bit (32 - unat bl) (hi - lo) + 1))"
  let ?s = "\<lambda>x. \<lparr>net_addr = x, net_bitlen = bl\<rparr>"
  let ?avail = "\<lambda>i. subnet_available sss comm i m" and ?A = "\<lambda>x. subnet_free sss comm (?s x)"
  note num = auto_ip_range_numbers [OF range top, folded lo_def hi_def bl_def m_def]
  have inc: "unat inc = 2 ^ (32 - unat bl)" unfolding inc_def by (rule num(7))
  have ok: "net_ok (?s x) \<longleftrightarrow> unat inc dvd unat x" for x using net_ok_iff [OF num(1)] inc by simp
  have avail: "?avail x = Some (?A x)" if "unat inc dvd unat x" for x
    using subnet_available_free [OF nets, of "?s x" comm] ok that by (simp add: m_def)
  have multiple: "unat inc dvd unat lo + i * unat inc" for i using num(4) inc by simp
  let ?C = "{x. (\<exists>i. unat x = unat lo + i * unat inc) \<and> x \<le> hi}"
  have choice: "s \<in> subnet_choices sss \<longleftrightarrow> (\<exists>x \<in> ?C. s = ?s x)" for s
  proof -
    have "unat inc dvd unat x \<and> lo \<le> x \<longleftrightarrow> (\<exists>i. unat x = unat lo + i * unat inc)" for x
    proof
      assume "unat inc dvd unat x \<and> lo \<le> x"
      then have "unat inc dvd unat x - unat lo" "unat lo \<le> unat x" using num(4) inc by (simp_all add: word_le_nat_alt dvd_diff_nat)
      then show "\<exists>i. unat x = unat lo + i * unat inc" by (metis dvdE le_add_diff_inverse mult.commute)
    qed (auto simp: inc num(4) word_le_nat_alt)
    moreover have "s \<in> subnet_choices sss \<longleftrightarrow> (\<exists>x. s = ?s x \<and> (unat inc dvd unat x \<and> lo \<le> x) \<and> x \<le> hi)"
      by (cases s) (auto simp: subnet_choices_def ok simp flip: lo_def hi_def bl_def)
    ultimately show ?thesis by auto
  qed
  have "32 - unat bl < 32" "unat hi - unat lo < 2 ^ 32 - 2 ^ (32 - unat bl)" using num(2,6) by simp_all
  note first = first_subnet [OF this(2) num(3) this(1)]
  obtain j where start: "unat start = unat lo + j * unat inc" "start \<le> hi"
    using first(2) unfolding start_def inc by blast
  have pos: "0 < unat inc" "unat inc \<le> unat lo" "unat hi + unat inc < 2 ^ 32" using num(5,6) by (simp_all add: inc)
  have mask: "bitlen2mask bl = Some m" using num(1) by (simp add: bitlen2mask_eq m_def)
  have run: "assign_one_ip_subnet sss comm = do {
     (success, net_id_i) \<leftarrow> net_down ?avail lo inc start None;
     s \<leftarrow> success;
     (success, net_id_i) \<leftarrow> (if \<not> s then net_up ?avail hi inc (start + inc) success else Some (success, net_id_i));
     s \<leftarrow> success;
     let net = (if s then ?s net_id_i else \<lparr>net_addr = 0, net_bitlen = 0\<rparr>);
     Some (if s then 0 else -1, sss\<lparr>communities := (communities sss)[comm := (communities sss ! comm)\<lparr>auto_ip_net := net\<rparr>]\<rparr>) }"
    unfolding assign_one_ip_subnet_def Let_def lo_def [symmetric] hi_def [symmetric] bl_def [symmetric] mask start_def inc_def
    using num(2) first(1) by simp
  show ?thesis
  proof (rule net_search_result [OF start pos, of ?avail ?A])
    fix x assume "net_down ?avail lo inc start None = Some (Some True, x)" "?A x" "x \<in> ?C"
    then show ?thesis using choice by (intro exI [of _ 0] exI [of _ "?s x"]) (auto simp: run)
  next
    fix y x assume "net_down ?avail lo inc start None = Some (Some False, y)"
      "net_up ?avail hi inc (start + inc) (Some False) = Some (Some True, x)" "?A x" "x \<in> ?C"
    then show ?thesis using choice by (intro exI [of _ 0] exI [of _ "?s x"]) (auto simp: run)
  next
    fix y x assume "net_down ?avail lo inc start None = Some (Some False, y)"
      "net_up ?avail hi inc (start + inc) (Some False) = Some (Some False, x)" "\<forall>x \<in> ?C. \<not> ?A x"
    moreover from this(3) have "\<not> (\<exists>s \<in> subnet_choices sss. subnet_free sss comm s)" using choice by auto
    ultimately show ?thesis by (intro exI [of _ "-1"] exI [of _ "\<lparr>net_addr = 0, net_bitlen = 0\<rparr>"]) (auto simp: run)
  qed (use avail multiple in simp)
qed


definition default_sn :: n2n_sn where
  "default_sn = bare_sn\<lparr>communities := [zero_community]\<rparr>"

lemma default_sn_simps [simp]:
  "min_auto_ip_net default_sn = \<lparr>net_addr = 0x0A800000, net_bitlen = 24\<rparr>"
  "max_auto_ip_net default_sn = \<lparr>net_addr = 0x0AFFFF00, net_bitlen = 24\<rparr>"
  "communities default_sn = [zero_community]"
  by (simp_all add: default_sn_def bare_sn_def)

lemma prefix_mask_24: "prefix_mask 24 = 0xFFFFFF00"
  by (simp add: prefix_mask_def mask_eq_exp_minus_1)

theorem assign_one_ip_subnet_correct_witness:
  "\<exists>s. assign_one_ip_subnet default_sn 0 = Some (0, default_sn\<lparr>communities := [zero_community\<lparr>auto_ip_net := s\<rparr>]\<rparr>)
    \<and> s \<in> subnet_choices default_sn"
proof -
  have "set_auto_ip_range (net_addr (min_auto_ip_net default_sn)) (net_addr (max_auto_ip_net default_sn)) (net_bitlen (min_auto_ip_net default_sn)) default_sn
      = Some (0, default_sn)"
    by (simp add: set_auto_ip_range_def bitlen2mask_eq prefix_mask_24)
  moreover have "net_addr (max_auto_ip_net default_sn) + NOT (prefix_mask (unat (net_bitlen (min_auto_ip_net default_sn)))) \<noteq> - 1"
    by (simp add: prefix_mask_24)
  moreover have "\<forall>cmn \<in> set (communities default_sn). net_ok (auto_ip_net cmn)"
    by (simp add: zero_community_def net_ok_def)
  moreover have "\<lparr>net_addr = 0x0A800000, net_bitlen = 24\<rparr> \<in> subnet_choices default_sn"
    by (simp add: subnet_choices_def net_ok_def prefix_mask_24)
  then have "\<exists>s \<in> subnet_choices default_sn. subnet_free default_sn 0 s" by (auto simp: subnet_free_def)
  ultimately show ?thesis using assign_one_ip_subnet_correct [of default_sn 0] by (auto split: if_splits)
qed

text \<open>
  A community that is left with 0.0.0.0/0 counts as one that uses every address: as long as it exists, no subnet is available to
  any other community, even when subnets have become free.
\<close>

theorem unassigned_net_blocks:
  assumes "i < length (communities sss)" and "i \<noteq> comm" and "\<not> is_federation (communities sss ! i)"
    and "auto_ip_net (communities sss ! i) = \<lparr>net_addr = 0, net_bitlen = 0\<rparr>" and "\<forall>cmn \<in> set (communities sss). net_ok (auto_ip_net cmn)"
    and "net_ok s"
  shows "subnet_available sss comm (net_addr s) (prefix_mask (unat (net_bitlen s))) = Some False"
proof -
  have "prefix_mask 0 = 0" by (rule bit_word_eqI) (simp add: bit_prefix_mask)
  then have "net_range (auto_ip_net (communities sss ! i)) = UNIV" by (auto simp: assms(4) net_range_def)
  moreover have "net_addr s \<in> net_range s" using net_ok_end [OF assms(6)] by (simp add: net_range_def)
  ultimately have "\<not> subnet_free sss comm s" using assms(1-3) by (auto simp: subnet_free_def)
  then show ?thesis by (simp add: subnet_available_free [OF assms(5,6)])
qed

end
