(* ===== verification/Sn_Send.thy ===== *)
theory Sn_Send
  imports Supernode "HOL-Library.Sublist"
begin

text \<open>
  How the supernode sends, from \<^verbatim>\<open>src/sn_utils.c\<close> and \<^verbatim>\<open>src/kcp_bridge.c\<close>: to a socket or a peer over UDP, TCP or a KCP session, to all
  nodes of a community and to the one a packet is for.

  The KCP library itself is outside of the program. What it answers to a payload, a result and whether the session counts as
  dead afterwards, is part of the environment (\<open>rt_kcp\<close>). A failed TCP connection is closed while a payload is sent, and with it
  goes the entry of an edge; the functions that may close one return which entry was freed, so that the callers know which of
  their pointers dangle. \<open>traceEvent\<close> is a macro for a function call, so that its arguments are evaluated at every trace level:
  the traces of a broadcast and of a forwarded packet read the entry that was sent to, after sending, and are \<open>None\<close> when it is
  gone by then. Other traces read nothing that sending frees; they are left out.
\<close>

subsection \<open>KCP sessions\<close>

datatype n2n_kcp_channel = N2N_KCP_CHANNEL_CTRL | N2N_KCP_CHANNEL_DATA

datatype n2n_sn_transport_policy =
  N2N_SN_TRANSPORT_POLICY_DEFAULT | N2N_SN_TRANSPORT_POLICY_FORCE_RAW_UDP | N2N_SN_TRANSPORT_POLICY_PREFER_KCP

fun n2n_kcp_other_channel :: "n2n_kcp_channel \<Rightarrow> n2n_kcp_channel" where
  "n2n_kcp_other_channel N2N_KCP_CHANNEL_DATA = N2N_KCP_CHANNEL_CTRL"
| "n2n_kcp_other_channel N2N_KCP_CHANNEL_CTRL = N2N_KCP_CHANNEL_DATA"

fun n2n_kcp_sn_table :: "n2n_sn \<Rightarrow> n2n_kcp_channel \<Rightarrow> n2n_kcp_ctx list" where
  "n2n_kcp_sn_table sss N2N_KCP_CHANNEL_DATA = udp_kcp_data_connections sss"
| "n2n_kcp_sn_table sss N2N_KCP_CHANNEL_CTRL = udp_kcp_ctrl_connections sss"

fun set_kcp_table :: "n2n_kcp_channel \<Rightarrow> n2n_kcp_ctx list \<Rightarrow> n2n_sn \<Rightarrow> n2n_sn" where
  "set_kcp_table N2N_KCP_CHANNEL_DATA l sss = sss\<lparr>udp_kcp_data_connections := l\<rparr>"
| "set_kcp_table N2N_KCP_CHANNEL_CTRL l sss = sss\<lparr>udp_kcp_ctrl_connections := l\<rparr>"

definition n2n_kcp_sn_find_ctx :: "n2n_sn \<Rightarrow> n2n_sock \<Rightarrow> n2n_kcp_channel \<Rightarrow> nat option" where
  "n2n_kcp_sn_find_ctx sss remote channel = HASH_FIND kcp_remote_sock remote (n2n_kcp_sn_table sss channel)"

definition n2n_kcp_sn_drop_ctx :: "n2n_sn \<Rightarrow> nat \<Rightarrow> n2n_kcp_channel \<Rightarrow> n2n_sn" where
  "n2n_kcp_sn_drop_ctx sss ctx channel = set_kcp_table channel (HASH_DEL ctx (n2n_kcp_sn_table sss channel)) sss"

text \<open>One half of the search: an active session of the channel, unless it is dead, in which case it is dropped.\<close>

definition live_ctx :: "n2n_sn \<Rightarrow> n2n_sock \<Rightarrow> n2n_kcp_channel \<Rightarrow> nat option \<times> n2n_sn" where
  "live_ctx sss remote channel =
     (case n2n_kcp_sn_find_ctx sss remote channel of
        None \<Rightarrow> (None, sss)
      | Some i \<Rightarrow>
          if kcp_active (n2n_kcp_sn_table sss channel ! i) then
            if kcp_dead (n2n_kcp_sn_table sss channel ! i) then (None, n2n_kcp_sn_drop_ctx sss i channel) else (Some i, sss)
          else (None, sss))"

definition n2n_kcp_sn_find_send_ctx :: "n2n_sn \<Rightarrow> n2n_sock \<Rightarrow> n2n_kcp_channel \<Rightarrow> (nat \<times> n2n_kcp_channel) option \<times> n2n_sn" where
  "n2n_kcp_sn_find_send_ctx sss remote channel =
     (case live_ctx sss remote channel of
        (Some i, sss) \<Rightarrow> (Some (i, channel), sss)
      | (None, sss) \<Rightarrow>
          let channel = n2n_kcp_other_channel channel in
          case live_ctx sss remote channel of (Some i, sss) \<Rightarrow> (Some (i, channel), sss) | (None, sss) \<Rightarrow> (None, sss))"

definition n2n_kcp_sn_send :: "n2n_sn \<Rightarrow> int \<Rightarrow> sockaddr \<Rightarrow> bytes \<Rightarrow> n2n_kcp_channel \<Rightarrow> runtime \<Rightarrow> int \<times> n2n_sn \<times> runtime" where
  "n2n_kcp_sn_send sss fd socket pkt channel rt =
     (if fd \<noteq> sn_sock sss then (-1, sss, rt)
      else let remote = snd (fill_n2nsock socket) in
        case n2n_kcp_sn_find_send_ctx sss remote channel of
          (None, sss) \<Rightarrow> (-1, sss, rt)
        | (Some (i, channel), sss) \<Rightarrow>
            let (rc, dead) = rt_kcp rt (length (rt_kcp_sent rt));
                rt = rt\<lparr>rt_kcp_sent := rt_kcp_sent rt @ [(remote, pkt)]\<rparr>
            in if rc < 0 then (-1, sss, rt)
               else let l = n2n_kcp_sn_table sss channel
                    in (int (length pkt), set_kcp_table channel (l[i := (l ! i)\<lparr>kcp_dead := dead\<rparr>]) sss, rt))"

definition peer_has_active_kcp :: "n2n_sn \<Rightarrow> peer_info \<Rightarrow> bool" where
  "peer_has_active_kcp sss peer =
     (if socket_fd peer \<ge> 0 \<and> socket_fd peer \<noteq> sn_sock sss then False
      else let act = (\<lambda>l. case HASH_FIND kcp_remote_sock (peer_sock peer) l of Some i \<Rightarrow> kcp_active (l ! i) | None \<Rightarrow> False)
           in act (udp_kcp_ctrl_connections sss) \<or> act (udp_kcp_data_connections sss))"

subsection \<open>Closing a connection\<close>

definition upd_comm :: "nat \<Rightarrow> (sn_community \<Rightarrow> sn_community) \<Rightarrow> n2n_sn \<Rightarrow> n2n_sn" where
  "upd_comm c f sss = sss\<lparr>communities := (communities sss)[c := f (communities sss ! c)]\<rparr>"

fun find_edge_by_fd :: "int \<Rightarrow> sn_community list \<Rightarrow> (nat \<times> nat) option" where
  "find_edge_by_fd fd [] = None"
| "find_edge_by_fd fd (comm # l) =
     (case find_index (\<lambda>edge. socket_fd edge = fd) (edges comm) of
        Some i \<Rightarrow> Some (0, i)
      | None \<Rightarrow> map_option (\<lambda>(c, i). (Suc c, i)) (find_edge_by_fd fd l))"

definition free_edge :: "nat \<times> nat \<Rightarrow> n2n_sn \<Rightarrow> n2n_sn" where
  "free_edge e sss = upd_comm (fst e) (\<lambda>comm. comm\<lparr>edges := HASH_DEL (snd e) (edges comm)\<rparr>) sss"

definition close_tcp_connection :: "n2n_sn \<Rightarrow> nat option \<Rightarrow> runtime \<Rightarrow> (nat \<times> nat) option \<times> n2n_sn \<times> runtime" where
  "close_tcp_connection sss conn rt =
     (case conn of
        None \<Rightarrow> (None, sss, rt)
      | Some k \<Rightarrow>
          let cn = tcp_connections sss ! k;
              e = find_edge_by_fd (tc_fd cn) (communities sss);
              sss = (case e of Some p \<Rightarrow> free_edge p sss | None \<Rightarrow> sss)
          in (e, sss\<lparr>tcp_connections := (tcp_connections sss)[k := cn\<lparr>tc_inactive := True\<rparr>]\<rparr>, rt_close (tc_fd cn) rt))"

subsection \<open>Sending to a socket or a peer\<close>

type_synonym send_result = "int \<times> (nat \<times> nat) option \<times> n2n_sn \<times> runtime"

definition kcp_route :: "n2n_sn \<Rightarrow> n2n_sock \<Rightarrow> n2n_kcp_channel \<Rightarrow> bool" where
  "kcp_route sss remote channel =
     (let act = (\<lambda>ch. case n2n_kcp_sn_find_ctx sss remote ch of Some i \<Rightarrow> kcp_active (n2n_kcp_sn_table sss ch ! i) | None \<Rightarrow> False)
      in act channel \<or> act (n2n_kcp_other_channel channel))"

definition sendto_fd :: "n2n_sn \<Rightarrow> int \<Rightarrow> sockaddr \<Rightarrow> bytes \<Rightarrow> n2n_kcp_channel \<Rightarrow> n2n_sn_transport_policy \<Rightarrow> runtime \<Rightarrow> send_result" where
  "sendto_fd sss fd socket pkt channel policy rt =
     (let (kcp_sent, sss, rt) =
        (if fd = sn_sock sss \<and> policy \<noteq> N2N_SN_TRANSPORT_POLICY_FORCE_RAW_UDP \<and> kcp_route sss (snd (fill_n2nsock socket)) channel
         then n2n_kcp_sn_send sss fd socket pkt channel rt else (-1, sss, rt))
      in if kcp_sent \<ge> 0 then (kcp_sent, None, sss, rt)
         else let ((sent, errno), rt) = rt_sendto fd socket pkt rt
              in if sent \<le> 0 \<and> errno \<noteq> 0 \<and> fd \<ge> 0 \<and> fd \<noteq> sn_sock sss then
                   let (e, sss, rt) = close_tcp_connection sss (HASH_FIND tc_fd fd (tcp_connections sss)) rt
                   in (-1, e, sss, rt)
                 else (sent, None, sss, rt))"

definition sendto_sock :: "n2n_sn \<Rightarrow> int \<Rightarrow> sockaddr \<Rightarrow> bytes \<Rightarrow> n2n_kcp_channel \<Rightarrow> n2n_sn_transport_policy \<Rightarrow> runtime \<Rightarrow> send_result" where
  "sendto_sock sss fd socket pkt channel policy rt =
     (if fd \<ge> 0 \<and> fd \<noteq> sn_sock sss then
        case sendto_fd sss fd socket (be_bytes 2 (of_nat (length pkt) :: u16)) channel policy rt of
          (sent, e, sss, rt) \<Rightarrow> if sent \<le> 0 then (-1, e, sss, rt) else sendto_fd sss fd socket pkt channel policy rt
      else sendto_fd sss fd socket pkt channel policy rt)"

definition zero_sockaddr :: sockaddr where
  "zero_sockaddr = \<lparr>sa_family = 0, sa_port = 0, sin_addr = replicate 4 0, sin6_addr = replicate 16 0\<rparr>"

abbreviation N2N_SN_LEGACY_SAFE_UDP_SIZE :: nat where "N2N_SN_LEGACY_SAFE_UDP_SIZE \<equiv> 2048"

definition sendto_peer :: "n2n_sn \<Rightarrow> peer_info \<Rightarrow> bytes \<Rightarrow> bool \<Rightarrow> n2n_kcp_channel \<Rightarrow> n2n_sn_transport_policy \<Rightarrow> runtime \<Rightarrow> send_result" where
  "sendto_peer sss peer pkt drop_oversized channel policy rt =
     (if family (peer_sock peer) = AF_INET then
        if drop_oversized \<and> socket_fd peer = sn_sock sss \<and> \<not> peer_has_active_kcp sss peer \<and> length pkt > N2N_SN_LEGACY_SAFE_UDP_SIZE
        then (int (length pkt), None, sss, rt)
        else sendto_sock sss (if socket_fd peer \<ge> 0 then socket_fd peer else sn_sock sss)
               (snd (fill_sockaddr zero_sockaddr sizeof_sockaddr_in (peer_sock peer))) pkt channel policy rt
      else (-1, None, sss, rt))"


subsection \<open>Broadcasting and forwarding\<close>

abbreviation LAST_SEEN_SN_INACTIVE :: int where "LAST_SEEN_SN_INACTIVE \<equiv> 90"

abbreviation n2n_packet :: byte where "n2n_packet \<equiv> 3"

definition packet_transport_policy_from_flags :: "u16 \<Rightarrow> n2n_sn_transport_policy" where
  "packet_transport_policy_from_flags fl = N2N_SN_TRANSPORT_POLICY_FORCE_RAW_UDP"

definition packet_channel :: "n2n_common \<Rightarrow> n2n_kcp_channel" where
  "packet_channel cmn = (if pc cmn = n2n_packet then N2N_KCP_CHANNEL_DATA else N2N_KCP_CHANNEL_CTRL)"

definition packet_policy :: "n2n_common \<Rightarrow> n2n_sn_transport_policy" where
  "packet_policy cmn = (if pc cmn = n2n_packet then packet_transport_policy_from_flags (flags cmn) else N2N_SN_TRANSPORT_POLICY_DEFAULT)"

definition federation :: "n2n_sn \<Rightarrow> nat option" where
  "federation sss = find_index is_federation (communities sss)"

text \<open>
  One loop over the edges of a community. Both traces, of a success and of a failure, read \<open>scan->sock\<close> and \<open>scan->mac_addr\<close>:
  \<open>None\<close> when sending has freed \<open>scan\<close>. \<open>HASH_ITER\<close> has fetched the next entry before the body runs: \<open>None\<close> also when that one has been
  freed in the meantime. The first argument bounds the number of iterations; entries only disappear, so that the
  number of entries at the start is enough.
\<close>

definition next_entry :: "nat \<Rightarrow> nat \<Rightarrow> nat \<Rightarrow> (nat \<times> nat) option \<Rightarrow> nat option" where
  "next_entry c i n freed =
     (case freed of
        None \<Rightarrow> Some (i + 1)
      | Some (c', j) \<Rightarrow> if c' \<noteq> c then Some (i + 1)
          else if j = i + 1 \<and> j < n then None
          else if j \<le> i then Some i else Some (i + 1))"

primrec send_loop :: "nat \<Rightarrow> nat \<Rightarrow> nat \<Rightarrow> (peer_info \<Rightarrow> bool) \<Rightarrow> bool \<Rightarrow> n2n_common \<Rightarrow> bytes \<Rightarrow> n2n_sn \<Rightarrow> runtime \<Rightarrow> (n2n_sn \<times> runtime) option" where
  "send_loop 0 c i sel drop_oversized cmn pkt sss rt = Some (sss, rt)"
| "send_loop (Suc k) c i sel drop_oversized cmn pkt sss rt =
     (let l = edges (communities sss ! c) in
      if i < length l then
        if sel (l ! i) then do {
          let (sent, freed, sss, rt) = sendto_peer sss (l ! i) pkt drop_oversized (packet_channel cmn) (packet_policy cmn) rt;
          let sss = (if sent \<noteq> int (length pkt) then sss\<lparr>stats := (stats sss)\<lparr>st_errors := st_errors (stats sss) + 1\<rparr>\<rparr>
                     else sss\<lparr>stats := (stats sss)\<lparr>st_broadcast := st_broadcast (stats sss) + 1\<rparr>\<rparr>);
          if freed = Some (c, i) then None
          else do { i \<leftarrow> next_entry c i (length l) freed; send_loop k c i sel drop_oversized cmn pkt sss rt } }
        else send_loop k c (i + 1) sel drop_oversized cmn pkt sss rt
      else Some (sss, rt))"

definition try_broadcast :: "n2n_sn \<Rightarrow> nat option \<Rightarrow> n2n_common \<Rightarrow> bytes \<Rightarrow> bool \<Rightarrow> bytes \<Rightarrow> int \<Rightarrow> runtime \<Rightarrow> (n2n_sn \<times> runtime) option" where
  "try_broadcast sss comm cmn srcMac from_supernode pkt now rt = do {
     (sss, rt) \<leftarrow>
       (if \<not> from_supernode then do {
          f \<leftarrow> federation sss;
          send_loop (length (edges (communities sss ! f))) f 0 (\<lambda>scan. last_seen scan + LAST_SEEN_SN_INACTIVE > now) False cmn pkt sss rt }
        else Some (sss, rt));
     (case comm of
        None \<Rightarrow> Some (sss, rt)
      | Some c \<Rightarrow> send_loop (length (edges (communities sss ! c))) c 0 (\<lambda>scan. srcMac \<noteq> mac_addr scan) (pc cmn = n2n_packet) cmn pkt sss rt) }"

definition try_forward :: "n2n_sn \<Rightarrow> nat \<Rightarrow> n2n_common \<Rightarrow> bytes \<Rightarrow> bool \<Rightarrow> bytes \<Rightarrow> int \<Rightarrow> runtime \<Rightarrow> (int \<times> n2n_sn \<times> runtime) option" where
  "try_forward sss c cmn dstMac from_supernode pkt now rt =
     (case HASH_FIND_PEER (edges (communities sss ! c)) dstMac of
        Some i \<Rightarrow>
          let (sent, freed, sss, rt) =
            sendto_peer sss (edges (communities sss ! c) ! i) pkt (pc cmn = n2n_packet) (packet_channel cmn) (packet_policy cmn) rt
          in if freed = Some (c, i) then None
             else Some (if sent = int (length pkt) then (0, sss\<lparr>stats := (stats sss)\<lparr>st_fwd := st_fwd (stats sss) + 1\<rparr>\<rparr>, rt)
                        else (-1, sss\<lparr>stats := (stats sss)\<lparr>st_errors := st_errors (stats sss) + 1\<rparr>\<rparr>, rt))
      | None \<Rightarrow>
          if \<not> from_supernode then
            case HASH_FIND assoc_mac dstMac (assoc (communities sss ! c)) of
              Some k \<Rightarrow>
                let (_, _, sss, rt) = sendto_sock sss (sn_sock sss) (assoc_sock (assoc (communities sss ! c) ! k)) pkt
                  N2N_KCP_CHANNEL_DATA (packet_transport_policy_from_flags (flags cmn)) rt
                in Some (0, sss, rt)
            | None \<Rightarrow> do { (sss, rt) \<leftarrow> try_broadcast sss None cmn (sn_mac_addr sss) from_supernode pkt now rt; Some (0, sss, rt) }
          else Some (-2, sss, rt))"


subsection \<open>What sending changes\<close>

text \<open>
  Sending changes nothing of the supernode but its statistics, its connections and sessions, and it may take edges from the
  communities.
\<close>

definition fewer_edges :: "sn_community \<Rightarrow> sn_community \<Rightarrow> bool" where
  "fewer_edges a b \<longleftrightarrow> (\<exists>l. b = a\<lparr>edges := l\<rparr> \<and> subseq l (edges a))"

definition sn_rest :: "n2n_sn \<Rightarrow> n2n_sn" where
  "sn_rest s = s\<lparr>communities := [], stats := stats bare_sn, tcp_connections := [], udp_kcp_ctrl_connections := [], udp_kcp_data_connections := []\<rparr>"

definition sn_frame :: "n2n_sn \<Rightarrow> n2n_sn \<Rightarrow> bool" where
  "sn_frame s t \<longleftrightarrow> list_all2 fewer_edges (communities s) (communities t) \<and> sn_rest t = sn_rest s"

lemma fewer_edges_refl [simp]: "fewer_edges a a"
  unfolding fewer_edges_def by (intro exI [of _ "edges a"]) simp

lemma fewer_edges_trans: "fewer_edges a b \<Longrightarrow> fewer_edges b c \<Longrightarrow> fewer_edges a c"
  by (auto simp: fewer_edges_def intro: subseq_order.trans)

lemma sn_frame_refl [simp]: "sn_frame s s"
  by (simp add: sn_frame_def list_all2_refl)

lemma sn_frame_trans: "sn_frame s t \<Longrightarrow> sn_frame t u \<Longrightarrow> sn_frame s u"
  unfolding sn_frame_def using list_all2_trans [of fewer_edges fewer_edges fewer_edges] fewer_edges_trans by fastforce

lemma sn_frame_stats [simp]: "sn_frame s (s\<lparr>stats := x\<rparr>)"
  by (simp add: sn_frame_def sn_rest_def list_all2_refl)

lemma sn_frame_fields:
  assumes "sn_frame s t"
  shows "sn_sock t = sn_sock s" "sn_mac_addr t = sn_mac_addr s" "lock_communities t = lock_communities s"
    "dynamic_key_time t = dynamic_key_time s" "min_auto_ip_net t = min_auto_ip_net s" "max_auto_ip_net t = max_auto_ip_net s"
proof -
  have e: "f (sn_rest t) = f (sn_rest s)" for f :: "n2n_sn \<Rightarrow> 'a" using assms by (simp add: sn_frame_def)
  show "sn_sock t = sn_sock s" "sn_mac_addr t = sn_mac_addr s" "lock_communities t = lock_communities s"
    "dynamic_key_time t = dynamic_key_time s" "min_auto_ip_net t = min_auto_ip_net s" "max_auto_ip_net t = max_auto_ip_net s"
    using e [of sn_sock] e [of sn_mac_addr] e [of lock_communities] e [of dynamic_key_time] e [of min_auto_ip_net] e [of max_auto_ip_net]
    by (simp_all add: sn_rest_def)
qed

lemma sn_frame_length: "sn_frame s t \<Longrightarrow> length (communities t) = length (communities s)"
  by (auto simp: sn_frame_def dest: list_all2_lengthD)

lemma sn_frame_nth: "sn_frame s t \<Longrightarrow> c < length (communities s) \<Longrightarrow> fewer_edges (communities s ! c) (communities t ! c)"
  by (auto simp: sn_frame_def dest: list_all2_nthD)

lemma subseq_HASH_DEL: "subseq (HASH_DEL i l) l"
proof -
  have "subseq (drop (Suc i) l) (drop i l)" using suffix_imp_subseq suffix_drop [of 1 "drop i l"] by (metis drop_drop plus_1_eq_Suc)
  then have "subseq (take i l @ drop (Suc i) l) (take i l @ drop i l)" by (intro list_emb_append_mono) simp_all
  then show ?thesis by (simp add: HASH_DEL_def)
qed

lemma free_edge_frame: "sn_frame s (free_edge e s)"
proof -
  have "fewer_edges a (a\<lparr>edges := HASH_DEL i (edges a)\<rparr>)" for a i
    unfolding fewer_edges_def using subseq_HASH_DEL by blast
  then have "list_all2 fewer_edges l (l[c := (l ! c)\<lparr>edges := HASH_DEL i (edges (l ! c))\<rparr>])" for l c i
    by (intro list_all2_all_nthI) (simp, metis fewer_edges_refl nth_list_update_eq nth_list_update_neq)
  then show ?thesis by (simp add: free_edge_def upd_comm_def sn_frame_def sn_rest_def)
qed

lemma set_kcp_table_frame [simp]: "sn_frame s (set_kcp_table ch l s)"
  by (cases ch) (simp_all add: sn_frame_def sn_rest_def list_all2_refl)

lemma live_ctx_frame: "sn_frame s (snd (live_ctx s remote ch))"
  by (simp add: live_ctx_def n2n_kcp_sn_drop_ctx_def split: option.split)

lemma find_send_ctx_frame: "sn_frame s (snd (n2n_kcp_sn_find_send_ctx s remote ch))"
  using live_ctx_frame [of s remote ch] live_ctx_frame [of "snd (live_ctx s remote ch)" remote "n2n_kcp_other_channel ch"]
  by (auto simp: n2n_kcp_sn_find_send_ctx_def Let_def split: prod.splits option.splits intro: sn_frame_trans)

lemma kcp_send_frame: "sn_frame s (fst (snd (n2n_kcp_sn_send s fd sa pkt ch rt)))"
  using find_send_ctx_frame [of s "snd (fill_n2nsock sa)" ch]
  by (auto simp: n2n_kcp_sn_send_def Let_def split: prod.splits option.splits intro: sn_frame_trans [OF _ set_kcp_table_frame])

lemma close_tcp_frame: "sn_frame s (fst (snd (close_tcp_connection s conn rt)))"
proof -
  have "sn_frame s (t\<lparr>tcp_connections := x\<rparr>)" if "sn_frame s t" for t x
    using that by (rule sn_frame_trans) (simp add: sn_frame_def sn_rest_def list_all2_refl)
  then show ?thesis using free_edge_frame by (auto simp: close_tcp_connection_def Let_def split: option.split)
qed

text \<open>
  Sending to a descriptor either keeps all entries, or it closes the TCP connection of the descriptor and frees the first
  entry that uses it.
\<close>

lemma sendto_fd_cases:
  assumes "sendto_fd s fd sa pkt ch pol rt = (sent, freed, t, rt')"
  shows "sn_frame s t" and "freed \<noteq> None \<Longrightarrow> sent = -1 \<and> fd \<ge> 0 \<and> fd \<noteq> sn_sock s \<and> find_edge_by_fd fd (communities s) = freed"
    and "freed = None \<Longrightarrow> fd \<ge> 0 \<Longrightarrow> fd \<noteq> sn_sock s \<Longrightarrow> sent > 0 \<Longrightarrow> t = s"
proof -
  obtain k s1 rt1 where k: "(if fd = sn_sock s \<and> pol \<noteq> N2N_SN_TRANSPORT_POLICY_FORCE_RAW_UDP \<and> kcp_route s (snd (fill_n2nsock sa)) ch
         then n2n_kcp_sn_send s fd sa pkt ch rt else (-1, s, rt)) = (k, s1, rt1)" by (metis prod_cases3)
  obtain n er rt2 where n: "rt_sendto fd sa pkt rt1 = ((n, er), rt2)" by (metis prod.exhaust)
  obtain e s2 rt3 where c: "close_tcp_connection s1 (HASH_FIND tc_fd fd (tcp_connections s1)) rt2 = (e, s2, rt3)" by (metis prod_cases3)
  have r: "(sent, freed, t, rt') =
    (if k \<ge> 0 then (k, None, s1, rt1)
     else if n \<le> 0 \<and> er \<noteq> 0 \<and> fd \<ge> 0 \<and> fd \<noteq> sn_sock s1 then (-1, e, s2, rt3) else (n, None, s1, rt2))"
    using assms unfolding sendto_fd_def k by (simp add: n c Let_def cong: if_cong)
  have f1: "sn_frame s s1" using k kcp_send_frame [of s fd sa pkt ch rt] by (auto split: if_splits)
  have f2: "sn_frame s1 s2" using close_tcp_frame [of s1 "HASH_FIND tc_fd fd (tcp_connections s1)" rt2] c by simp
  show "sn_frame s t" using r f1 sn_frame_trans [OF f1 f2] by (auto split: if_splits)
  have s1: "s1 = s" if "fd \<noteq> sn_sock s" using k that by simp
  show "sent = -1 \<and> fd \<ge> 0 \<and> fd \<noteq> sn_sock s \<and> find_edge_by_fd fd (communities s) = freed" if nf: "freed \<noteq> None"
  proof -
    have q: "freed = e" "sent = -1" "fd \<ge> 0" "fd \<noteq> sn_sock s1" using r nf by (auto split: if_splits)
    then have "fd \<noteq> sn_sock s" using sn_frame_fields(1) [OF f1] by simp
    moreover obtain i where "HASH_FIND tc_fd fd (tcp_connections s1) = Some i" "tc_fd (tcp_connections s1 ! i) = fd"
      using c q(1) nf by (cases "HASH_FIND tc_fd fd (tcp_connections s1)")
        (auto simp: close_tcp_connection_def HASH_FIND_def dest: find_index_Some)
    ultimately show ?thesis using c q s1 by (simp add: close_tcp_connection_def Let_def)
  qed
  show "t = s" if "freed = None" "fd \<ge> 0" "fd \<noteq> sn_sock s" "sent > 0"
    using r that s1 by (auto split: if_splits)
qed

lemma sendto_sock_cases:
  assumes "sendto_sock s fd sa pkt ch pol rt = (sent, freed, t, rt')"
  shows "sn_frame s t" and "freed \<noteq> None \<Longrightarrow> fd \<ge> 0 \<and> fd \<noteq> sn_sock s \<and> find_edge_by_fd fd (communities s) = freed"
proof -
  let ?len = "be_bytes 2 (of_nat (length pkt) :: u16)"
  obtain n e s1 rt1 where f: "sendto_fd s fd sa ?len ch pol rt = (n, e, s1, rt1)" by (metis prod_cases4)
  note first = sendto_fd_cases [OF f]
  have "sn_frame s t \<and> (freed \<noteq> None \<longrightarrow> fd \<ge> 0 \<and> fd \<noteq> sn_sock s \<and> find_edge_by_fd fd (communities s) = freed)"
  proof (cases "fd \<ge> 0 \<and> fd \<noteq> sn_sock s")
    case False
    then have "sendto_fd s fd sa pkt ch pol rt = (sent, freed, t, rt')" using assms by (auto simp: sendto_sock_def)
    from sendto_fd_cases(1,2) [OF this] show ?thesis by blast
  next
    case tcp: True
    show ?thesis
    proof (cases "n \<le> 0")
      case True
      then show ?thesis using assms first tcp by (auto simp: sendto_sock_def f)
    next
      case False
      then have "e = None" using first(2) by (cases e) auto
      then have "s1 = s" using first(3) tcp False by auto
      then have "sendto_fd s fd sa pkt ch pol rt1 = (sent, freed, t, rt')" using assms tcp False by (simp add: sendto_sock_def f)
      from sendto_fd_cases(1,2) [OF this] show ?thesis by blast
    qed
  qed
  then show "sn_frame s t" "freed \<noteq> None \<Longrightarrow> fd \<ge> 0 \<and> fd \<noteq> sn_sock s \<and> find_edge_by_fd fd (communities s) = freed" by blast+
qed

lemma sendto_peer_cases:
  assumes "sendto_peer s p pkt d ch pol rt = (sent, freed, t, rt')"
  shows "sn_frame s t" and "freed \<noteq> None \<Longrightarrow> find_edge_by_fd (socket_fd p) (communities s) = freed"
proof -
  have "sn_frame s t \<and> (freed \<noteq> None \<longrightarrow> find_edge_by_fd (socket_fd p) (communities s) = freed)"
    using assms sendto_sock_cases [of s "if socket_fd p \<ge> 0 then socket_fd p else sn_sock s" _ pkt ch pol rt sent freed t rt']
    by (auto simp: sendto_peer_def split: if_splits)
  then show "sn_frame s t" "freed \<noteq> None \<Longrightarrow> find_edge_by_fd (socket_fd p) (communities s) = freed" by blast+
qed

lemma sendto_peer_tcp:
  assumes "sendto_peer s p pkt d ch pol rt = (sent, freed, t, rt')" and "freed \<noteq> None"
  shows "socket_fd p \<ge> 0 \<and> socket_fd p \<noteq> sn_sock s"
  using assms sendto_sock_cases(2) [of s "if socket_fd p \<ge> 0 then socket_fd p else sn_sock s" _ pkt ch pol rt sent freed t rt']
  by (auto simp: sendto_peer_def split: if_splits)

subsection \<open>Loops over edges that sending may free\<close>

text \<open>
  A send over TCP fails at the \<open>n\<close>th message when the system reports an error for it, and \<open>tcp_reachable\<close> says that
  some entry of the supernode is reached over TCP. Without a failed send over TCP, nothing is freed.
\<close>

definition net_fails :: "runtime \<Rightarrow> nat \<Rightarrow> bool" where
  "net_fails rt n \<longleftrightarrow> fst (rt_net rt n) \<le> 0 \<and> snd (rt_net rt n) \<noteq> 0"

definition tcp_reachable :: "n2n_sn \<Rightarrow> bool" where
  "tcp_reachable s \<longleftrightarrow> (\<exists>comm \<in> set (communities s). \<exists>p \<in> set (edges comm). socket_fd p \<ge> 0 \<and> socket_fd p \<noteq> sn_sock s)"

lemma net_fails_cong: "rt_net rt' = rt_net rt \<Longrightarrow> net_fails rt' n = net_fails rt n"
  by (simp add: net_fails_def)

lemma kcp_send_net [simp]: "rt_net (snd (snd (n2n_kcp_sn_send s fd sa pkt ch rt))) = rt_net rt"
  by (auto simp: n2n_kcp_sn_send_def Let_def split: prod.split option.split)

lemma close_tcp_net [simp]: "rt_net (snd (snd (close_tcp_connection s conn rt))) = rt_net rt"
  by (auto simp: close_tcp_connection_def rt_close_def Let_def split: option.split)

lemma sendto_fd_net:
  assumes "sendto_fd s fd sa pkt ch pol rt = (sent, freed, t, rt')"
  shows "rt_net rt' = rt_net rt" "freed \<noteq> None \<Longrightarrow> \<exists>n. net_fails rt n"
proof -
  obtain k s1 rt1 where k: "(if fd = sn_sock s \<and> pol \<noteq> N2N_SN_TRANSPORT_POLICY_FORCE_RAW_UDP \<and> kcp_route s (snd (fill_n2nsock sa)) ch
         then n2n_kcp_sn_send s fd sa pkt ch rt else (-1, s, rt)) = (k, s1, rt1)" by (metis prod_cases3)
  have 1: "rt_net rt1 = rt_net rt" using arg_cong [OF k, of "\<lambda>r. rt_net (snd (snd r))"] by (simp split: if_splits)
  obtain n er rt2 where n: "rt_sendto fd sa pkt rt1 = ((n, er), rt2)" by (metis prod.exhaust)
  have 2: "rt_net rt2 = rt_net rt" "rt_net rt (length (rt_sent rt1)) = (n, er)" using n 1 by (auto simp: rt_sendto_def)
  obtain e s2 rt3 where c: "close_tcp_connection s1 (HASH_FIND tc_fd fd (tcp_connections s1)) rt2 = (e, s2, rt3)" by (metis prod_cases3)
  have 3: "rt_net rt3 = rt_net rt" using close_tcp_net [of s1 "HASH_FIND tc_fd fd (tcp_connections s1)" rt2] c 2 by simp
  have r: "(sent, freed, t, rt') =
    (if k \<ge> 0 then (k, None, s1, rt1)
     else if n \<le> 0 \<and> er \<noteq> 0 \<and> fd \<ge> 0 \<and> fd \<noteq> sn_sock s1 then (-1, e, s2, rt3) else (n, None, s1, rt2))"
    using assms unfolding sendto_fd_def k by (simp add: n c Let_def cong: if_cong)
  show "rt_net rt' = rt_net rt" using r 1 2 3 by (auto split: if_splits)
  show "\<exists>n. net_fails rt n" if "freed \<noteq> None"
    using r that 2(2) by (intro exI [of _ "length (rt_sent rt1)"]) (auto simp: net_fails_def split: if_splits)
qed

lemma sendto_peer_net:
  assumes "sendto_peer s p pkt d ch pol rt = (sent, freed, t, rt')"
  shows "rt_net rt' = rt_net rt" "freed \<noteq> None \<Longrightarrow> \<exists>n. net_fails rt n"
proof -
  have sock: "rt_net rt' = rt_net rt \<and> (freed \<noteq> None \<longrightarrow> (\<exists>n. net_fails rt n))"
    if s: "sendto_sock s fd sa pkt ch pol rt = (sent, freed, t, rt')" for fd sa
  proof -
    obtain n e s1 rt1 where f: "sendto_fd s fd sa (be_bytes 2 (of_nat (length pkt) :: u16)) ch pol rt = (n, e, s1, rt1)" by (metis prod_cases4)
    note first = sendto_fd_net [OF this]
    show ?thesis
    proof (cases "fd \<ge> 0 \<and> fd \<noteq> sn_sock s \<and> n \<le> 0")
      case True
      then show ?thesis using first s by (auto simp: sendto_sock_def f)
    next
      case False
      then consider "sendto_fd s1 fd sa pkt ch pol rt1 = (sent, freed, t, rt')" | "sendto_fd s fd sa pkt ch pol rt = (sent, freed, t, rt')"
        using s by (auto simp: sendto_sock_def f split: if_splits)
      then show ?thesis using first(1) net_fails_cong [OF first(1)] by cases (use sendto_fd_net in metis)+
    qed
  qed
  then show "rt_net rt' = rt_net rt" "freed \<noteq> None \<Longrightarrow> \<exists>n. net_fails rt n"
    using assms by (auto simp: sendto_peer_def split: if_splits)
qed

lemma subseq_in_set: "subseq xs ys \<Longrightarrow> x \<in> set xs \<Longrightarrow> x \<in> set ys"
  by (induction xs ys rule: list_emb.induct) auto

lemma sn_frame_tcp: "sn_frame s t \<Longrightarrow> tcp_reachable t \<Longrightarrow> tcp_reachable s"
proof -
  assume f: "sn_frame s t" and "tcp_reachable t"
  then obtain c i where ci: "c < length (communities t)" "i < length (edges (communities t ! c))"
    "socket_fd (edges (communities t ! c) ! i) \<ge> 0" "socket_fd (edges (communities t ! c) ! i) \<noteq> sn_sock t"
    by (auto simp: tcp_reachable_def in_set_conv_nth)
  then have c: "c < length (communities s)" using sn_frame_length [OF f] by simp
  then have "subseq (edges (communities t ! c)) (edges (communities s ! c))"
    using sn_frame_nth [OF f, of c] by (auto simp: fewer_edges_def)
  then have "edges (communities t ! c) ! i \<in> set (edges (communities s ! c))" using nth_mem [OF ci(2)] by (rule subseq_in_set)
  then show "tcp_reachable s"
    using ci(3,4) nth_mem [OF c] sn_frame_fields(1) [OF f] unfolding tcp_reachable_def by (metis (no_types))
qed

lemma send_loop_returns:
  assumes "c < length (communities s)" and "tcp_reachable s \<longrightarrow> (\<forall>n. \<not> net_fails rt n)"
  shows "\<exists>t rt'. send_loop k c i sel d cmn pkt s rt = Some (t, rt') \<and> sn_frame s t \<and> rt_net rt' = rt_net rt"
  using assms
proof (induction k arbitrary: i s rt)
  case (Suc k)
  let ?l = "edges (communities s ! c)"
  show ?case
  proof (cases "i < length ?l \<and> sel (?l ! i)")
    case True
    obtain n e t rt' where st: "sendto_peer s (?l ! i) pkt d (packet_channel cmn) (packet_policy cmn) rt = (n, e, t, rt')" by (metis prod_cases4)
    define u where "u = (if n \<noteq> int (length pkt) then t\<lparr>stats := (stats t)\<lparr>st_errors := st_errors (stats t) + 1\<rparr>\<rparr>
      else t\<lparr>stats := (stats t)\<lparr>st_broadcast := st_broadcast (stats t) + 1\<rparr>\<rparr>)"
    have su: "sn_frame s u"
      by (auto simp: u_def intro: sn_frame_trans [OF sendto_peer_cases(1) [OF st]])
    have e: "e = None"
    proof (rule ccontr)
      assume e: "e \<noteq> None"
      have "tcp_reachable s" using sendto_peer_tcp [OF st e] nth_mem [OF Suc.prems(1)] nth_mem [of i ?l] True
        unfolding tcp_reachable_def by (metis (no_types))
      then show False using Suc.prems(2) sendto_peer_net(2) [OF st e] by blast
    qed
    have "c < length (communities u)" using Suc.prems(1) sn_frame_length [OF su] by simp
    moreover have "tcp_reachable u \<longrightarrow> (\<forall>n. \<not> net_fails rt' n)"
      using Suc.prems(2) sn_frame_tcp [OF su] net_fails_cong [OF sendto_peer_net(1) [OF st]] by blast
    ultimately obtain v rt'' where v: "send_loop k c (i + 1) sel d cmn pkt u rt' = Some (v, rt'')" "sn_frame u v" "rt_net rt'' = rt_net rt'"
      using Suc.IH by blast
    have "send_loop (Suc k) c i sel d cmn pkt s rt = Some (v, rt'')"
      using True v(1) by (simp add: st e u_def next_entry_def)
    then show ?thesis using sn_frame_trans [OF su v(2)] v(3) sendto_peer_net(1) [OF st] by auto
  next
    case False
    then show ?thesis using Suc by (cases "i < length ?l") auto
  qed
qed simp

text \<open>
  A broadcast ends and leaves all else of the supernode as it was, apart from connections, sessions, statistics and edges
  that are gone, unless a send over a TCP connection fails.
\<close>

lemma try_broadcast_returns:
  assumes "federation s \<noteq> None" and "\<forall>c. comm = Some c \<longrightarrow> c < length (communities s)"
    and "tcp_reachable s \<longrightarrow> (\<forall>n. \<not> net_fails rt n)"
  shows "\<exists>t rt'. try_broadcast s comm cmn srcMac from_sn pkt now rt = Some (t, rt') \<and> sn_frame s t"
proof -
  obtain f where f: "federation s = Some f" using assms(1) by auto
  then have "f < length (communities s)" by (auto simp: federation_def dest: find_index_Some)
  then have "\<exists>t rt'. (if \<not> from_sn then send_loop (length (edges (communities s ! f))) f 0 (\<lambda>scan. last_seen scan + LAST_SEEN_SN_INACTIVE > now) False cmn pkt s rt
         else Some (s, rt)) = Some (t, rt') \<and> sn_frame s t \<and> rt_net rt' = rt_net rt"
  proof (cases from_sn)
    case False
    then show ?thesis using send_loop_returns [OF \<open>f < length (communities s)\<close> assms(3)] by (simp only: if_True simp_thms)
  qed simp
  then obtain t rt' where
    t: "(if \<not> from_sn then send_loop (length (edges (communities s ! f))) f 0 (\<lambda>scan. last_seen scan + LAST_SEEN_SN_INACTIVE > now) False cmn pkt s rt
         else Some (s, rt)) = Some (t, rt')" "sn_frame s t" "rt_net rt' = rt_net rt" by blast
  have run: "try_broadcast s comm cmn srcMac from_sn pkt now rt = (case comm of None \<Rightarrow> Some (t, rt')
      | Some c \<Rightarrow> send_loop (length (edges (communities t ! c))) c 0 (\<lambda>scan. srcMac \<noteq> mac_addr scan) (pc cmn = n2n_packet) cmn pkt t rt')"
    using t(1) by (cases from_sn) (simp_all add: try_broadcast_def f)
  show ?thesis
  proof (cases comm)
    case (Some c)
    then have "c < length (communities t)" using assms(2) sn_frame_length [OF t(2)] by simp
    moreover have "tcp_reachable t \<longrightarrow> (\<forall>n. \<not> net_fails rt' n)"
      using assms(3) sn_frame_tcp [OF t(2)] net_fails_cong [OF t(3)] by blast
    ultimately obtain u rt'' where
      "send_loop (length (edges (communities t ! c))) c 0 (\<lambda>scan. srcMac \<noteq> mac_addr scan) (pc cmn = n2n_packet) cmn pkt t rt' = Some (u, rt'')"
      and u: "sn_frame t u" using send_loop_returns by blast
    then have "try_broadcast s comm cmn srcMac from_sn pkt now rt = Some (u, rt'')" using run Some by simp
    then show ?thesis using sn_frame_trans [OF t(2) u] by blast
  qed (use run t(2) in simp)
qed

subsection \<open>Who gets a data packet\<close>

definition udp_peer :: "n2n_sn \<Rightarrow> peer_info \<Rightarrow> bool" where
  "udp_peer s p \<longleftrightarrow> family (peer_sock p) = AF_INET \<and> (socket_fd p < 0 \<or> socket_fd p = sn_sock s)"

definition datagram :: "n2n_sn \<Rightarrow> bytes \<Rightarrow> peer_info \<Rightarrow> int \<times> sockaddr \<times> bytes" where
  "datagram s pkt p = (sn_sock s, snd (fill_sockaddr zero_sockaddr sizeof_sockaddr_in (peer_sock p)), pkt)"

lemma sendto_sock_udp:
  assumes "sn_sock s = fd \<or> fd < 0"
  shows "sendto_sock s fd sa pkt ch N2N_SN_TRANSPORT_POLICY_FORCE_RAW_UDP rt =
    (fst (rt_net rt (length (rt_sent rt))), None, s, rt\<lparr>rt_sent := rt_sent rt @ [(fd, sa, pkt)]\<rparr>)"
  using assms by (auto simp: sendto_sock_def sendto_fd_def rt_sendto_def split: prod.split)

lemma sendto_peer_udp:
  assumes "udp_peer s p" and "length pkt \<le> N2N_SN_LEGACY_SAFE_UDP_SIZE"
  shows "sendto_peer s p pkt d ch N2N_SN_TRANSPORT_POLICY_FORCE_RAW_UDP rt =
    (fst (rt_net rt (length (rt_sent rt))), None, s, rt\<lparr>rt_sent := rt_sent rt @ [datagram s pkt p]\<rparr>)"
  using assms by (auto simp: sendto_peer_def udp_peer_def datagram_def sendto_sock_udp)

lemma datagram_stats [simp]: "datagram (s\<lparr>stats := x\<rparr>) pkt = datagram s pkt" "udp_peer (s\<lparr>stats := x\<rparr>) = udp_peer s"
  by (simp_all add: datagram_def udp_peer_def fun_eq_iff)

lemma send_loop_udp_prefix:
  assumes "\<forall>p \<in> set (take m (drop i (edges (communities s ! c)))). udp_peer s p" and "length pkt \<le> N2N_SN_LEGACY_SAFE_UDP_SIZE"
    and "pc cmn = n2n_packet" and "i + m \<le> length (edges (communities s ! c))"
  shows "\<exists>st. send_loop (m + k) c i sel d cmn pkt s rt = send_loop k c (i + m) sel d cmn pkt (s\<lparr>stats := st\<rparr>)
    (rt\<lparr>rt_sent := rt_sent rt @ map (datagram s pkt) (filter sel (take m (drop i (edges (communities s ! c)))))\<rparr>)"
  using assms(1,4)
proof (induction m arbitrary: i s rt)
  case 0
  then show ?case by (intro exI [of _ "stats s"]) simp
next
  case (Suc m)
  let ?l = "edges (communities s ! c)"
  have i: "i < length ?l" using Suc.prems(2) by simp
  note split = Cons_nth_drop_Suc [OF i, symmetric]
  have udp: "udp_peer s (?l ! i)" "\<forall>p \<in> set (take m (drop (Suc i) ?l)). udp_peer s p" using Suc.prems(1) by (simp_all add: split)
  show ?case
  proof (cases "sel (?l ! i)")
    case False
    then show ?thesis using i Suc.IH [of "Suc i" s rt] udp Suc.prems(2) by (simp add: split)
  next
    case sel: True
    define n where "n = fst (rt_net rt (length (rt_sent rt)))"
    define u where "u = (if n \<noteq> int (length pkt) then s\<lparr>stats := (stats s)\<lparr>st_errors := st_errors (stats s) + 1\<rparr>\<rparr>
      else s\<lparr>stats := (stats s)\<lparr>st_broadcast := st_broadcast (stats s) + 1\<rparr>\<rparr>)"
    define rt1 where "rt1 = rt\<lparr>rt_sent := rt_sent rt @ [datagram s pkt (?l ! i)]\<rparr>"
    obtain st where u: "u = s\<lparr>stats := st\<rparr>" by (cases "n \<noteq> int (length pkt)") (simp_all add: u_def)
    have step: "send_loop (Suc m + k) c i sel d cmn pkt s rt = send_loop (m + k) c (Suc i) sel d cmn pkt u rt1"
      using i sel sendto_peer_udp [OF udp(1) assms(2)] assms(3)
      by (simp add: packet_policy_def packet_transport_policy_from_flags_def next_entry_def u_def n_def rt1_def)
    show ?thesis
      using Suc.IH [of "Suc i" "s\<lparr>stats := st\<rparr>" rt1] udp Suc.prems(2) unfolding step u by (simp add: split sel rt1_def)
  qed
qed

lemma send_loop_end [simp]: "length (edges (communities s ! c)) \<le> i \<Longrightarrow> send_loop k c i sel d cmn pkt s rt = Some (s, rt)"
  by (cases k) simp_all

lemma send_loop_udp:
  assumes "\<forall>p \<in> set (edges (communities s ! c)). udp_peer s p" and "length pkt \<le> N2N_SN_LEGACY_SAFE_UDP_SIZE" and "pc cmn = n2n_packet"
  shows "\<exists>st. send_loop (length (edges (communities s ! c))) c 0 sel d cmn pkt s rt =
    Some (s\<lparr>stats := st\<rparr>, rt\<lparr>rt_sent := rt_sent rt @ map (datagram s pkt) (filter sel (edges (communities s ! c)))\<rparr>)"
  using send_loop_udp_prefix [of "length (edges (communities s ! c))" 0 s c pkt cmn 0 sel d rt] assms by simp

definition active_supernodes :: "n2n_sn \<Rightarrow> int \<Rightarrow> peer_info list" where
  "active_supernodes s now = (case federation s of None \<Rightarrow> [] | Some f \<Rightarrow>
     filter (\<lambda>p. last_seen p + LAST_SEEN_SN_INACTIVE > now) (edges (communities s ! f)))"

definition udp_only :: "n2n_sn \<Rightarrow> bool" where
  "udp_only s \<longleftrightarrow> (\<forall>comm \<in> set (communities s). \<forall>p \<in> set (edges comm). udp_peer s p)"

lemma udp_only_nth: "udp_only s \<Longrightarrow> c < length (communities s) \<Longrightarrow> \<forall>p \<in> set (edges (communities s ! c)). udp_peer s p"
  using nth_mem unfolding udp_only_def by fast

lemma broadcast_supernodes:
  assumes "udp_only s" and "length pkt \<le> N2N_SN_LEGACY_SAFE_UDP_SIZE" and "pc cmn = n2n_packet" and "federation s \<noteq> None"
  shows "\<exists>st. try_broadcast s None cmn srcMac False pkt now rt =
    Some (s\<lparr>stats := st\<rparr>, rt\<lparr>rt_sent := rt_sent rt @ map (datagram s pkt) (active_supernodes s now)\<rparr>)"
proof -
  obtain f where f: "federation s = Some f" using assms(4) by auto
  then have "f < length (communities s)" by (auto simp: federation_def dest: find_index_Some)
  then show ?thesis
    using send_loop_udp [OF udp_only_nth [OF assms(1)] assms(2,3), of f "\<lambda>p. last_seen p + LAST_SEEN_SN_INACTIVE > now" False rt]
    by (auto simp: try_broadcast_def f active_supernodes_def)
qed

text \<open>
  C31. The delivery of a broadcast: with edges and supernodes that are reached over UDP, and whatever the network answers, a data packet
  of at most 2048 bytes that comes from an edge is sent once to every supernode seen lately and once to every edge
  of the community but its source; one that comes from a supernode goes to the edges only.
\<close>

theorem try_broadcast_delivers:
  assumes "udp_only s" and "length pkt \<le> N2N_SN_LEGACY_SAFE_UDP_SIZE" and "pc cmn = n2n_packet" and "federation s \<noteq> None"
    and "c < length (communities s)"
  shows "\<exists>st. try_broadcast s (Some c) cmn srcMac from_sn pkt now rt =
    Some (s\<lparr>stats := st\<rparr>, rt\<lparr>rt_sent := rt_sent rt @ map (datagram s pkt)
      ((if from_sn then [] else active_supernodes s now) @ filter (\<lambda>p. mac_addr p \<noteq> srcMac) (edges (communities s ! c)))\<rparr>)"
proof -
  let ?sup = "if from_sn then [] else active_supernodes s now"
  have to_edges: "\<exists>st'. send_loop (length (edges (communities s ! c))) c 0 (\<lambda>p. srcMac \<noteq> mac_addr p) True cmn pkt (s\<lparr>stats := st\<rparr>) rt1 =
    Some (s\<lparr>stats := st'\<rparr>, rt1\<lparr>rt_sent := rt_sent rt1 @ map (datagram s pkt) (filter (\<lambda>p. mac_addr p \<noteq> srcMac) (edges (communities s ! c)))\<rparr>)" for st rt1
    using send_loop_udp [of "s\<lparr>stats := st\<rparr>" c pkt cmn "\<lambda>p. srcMac \<noteq> mac_addr p" True rt1]
      udp_only_nth [OF assms(1,5)] assms(2,3) by (simp add: eq_commute [of srcMac])
  show ?thesis
  proof (cases from_sn)
    case True
    then show ?thesis using to_edges [of "stats s" rt] assms(3) by (simp add: try_broadcast_def)
  next
    case False
    obtain st where b: "try_broadcast s None cmn srcMac False pkt now rt =
      Some (s\<lparr>stats := st\<rparr>, rt\<lparr>rt_sent := rt_sent rt @ map (datagram s pkt) (active_supernodes s now)\<rparr>)"
      using broadcast_supernodes [OF assms(1-4)] by blast
    have "try_broadcast s (Some c) cmn srcMac False pkt now rt = do {
        (s, rt) \<leftarrow> try_broadcast s None cmn srcMac False pkt now rt;
        send_loop (length (edges (communities s ! c))) c 0 (\<lambda>p. srcMac \<noteq> mac_addr p) (pc cmn = n2n_packet) cmn pkt s rt }"
      by (simp add: try_broadcast_def split: bind_splits)
    then show ?thesis
      using to_edges [of st "rt\<lparr>rt_sent := rt_sent rt @ map (datagram s pkt) (active_supernodes s now)\<rparr>"] False assms(3) by (simp add: b)
  qed
qed

subsection \<open>A broken TCP connection\<close>

text \<open>
  The entry \<open>i\<close> of the community \<open>c\<close> is an edge that is connected over TCP, and no entry before it has the same socket. A message to it
  fails when either the length or the payload cannot be sent.
\<close>

definition tcp_entry :: "n2n_sn \<Rightarrow> nat \<Rightarrow> nat \<Rightarrow> bool" where
  "tcp_entry s c i \<longleftrightarrow> c < length (communities s) \<and> i < length (edges (communities s ! c)) \<and>
     (let p = edges (communities s ! c) ! i in
      family (peer_sock p) = AF_INET \<and> socket_fd p \<ge> 0 \<and> socket_fd p \<noteq> sn_sock s \<and>
      HASH_FIND tc_fd (socket_fd p) (tcp_connections s) \<noteq> None \<and> find_edge_by_fd (socket_fd p) (communities s) = Some (c, i))"

definition message_fails :: "runtime \<Rightarrow> nat \<Rightarrow> bool" where
  "message_fails rt n \<longleftrightarrow> net_fails rt n \<or> fst (rt_net rt n) > 0 \<and> net_fails rt (Suc n)"

lemma tcp_entry_stats [simp]: "tcp_entry (s\<lparr>stats := x\<rparr>) = tcp_entry s"
  by (simp add: tcp_entry_def fun_eq_iff)

lemma sendto_fd_breaks:
  assumes "net_fails rt (length (rt_sent rt))" and "fd \<ge> 0" "fd \<noteq> sn_sock s" and "HASH_FIND tc_fd fd (tcp_connections s) = Some k"
  shows "\<exists>t rt'. sendto_fd s fd sa pkt ch pol rt = (-1, find_edge_by_fd fd (communities s), t, rt')"
proof -
  have "tc_fd (tcp_connections s ! k) = fd" using assms(4) by (auto simp: HASH_FIND_def dest: find_index_Some)
  moreover obtain n er where "rt_net rt (length (rt_sent rt)) = (n, er)" "n \<le> 0" "er \<noteq> 0"
    using assms(1) by (cases "rt_net rt (length (rt_sent rt))") (auto simp: net_fails_def)
  ultimately show ?thesis using assms(2-4) by (simp add: sendto_fd_def rt_sendto_def close_tcp_connection_def Let_def)
qed

lemma sendto_peer_breaks:
  assumes "tcp_entry s c i" and "message_fails rt (length (rt_sent rt))"
  shows "\<exists>t rt'. sendto_peer s (edges (communities s ! c) ! i) pkt d ch pol rt = (-1, Some (c, i), t, rt')"
proof -
  let ?p = "edges (communities s ! c) ! i"
  obtain k where p: "family (peer_sock ?p) = AF_INET" "socket_fd ?p \<ge> 0" "socket_fd ?p \<noteq> sn_sock s"
    "HASH_FIND tc_fd (socket_fd ?p) (tcp_connections s) = Some k" "find_edge_by_fd (socket_fd ?p) (communities s) = Some (c, i)"
    using assms(1) by (auto simp: tcp_entry_def Let_def)
  have "\<exists>t rt'. sendto_sock s (socket_fd ?p) sa pkt ch pol rt = (-1, Some (c, i), t, rt')" for sa
  proof (cases "net_fails rt (length (rt_sent rt))")
    case True
    from sendto_fd_breaks [OF this p(2-4), of sa "be_bytes 2 (of_nat (length pkt) :: u16)" ch pol] p show ?thesis by (auto simp: sendto_sock_def)
  next
    case False
    define rt1 where "rt1 = rt\<lparr>rt_sent := rt_sent rt @ [(socket_fd ?p, sa, be_bytes 2 (of_nat (length pkt) :: u16))]\<rparr>"
    obtain n er where n: "rt_net rt (length (rt_sent rt)) = (n, er)" "n > 0"
      using assms(2) False by (cases "rt_net rt (length (rt_sent rt))") (auto simp: message_fails_def)
    have "net_fails rt1 (length (rt_sent rt1))" using assms(2) False by (auto simp: message_fails_def rt1_def net_fails_def)
    from sendto_fd_breaks [OF this p(2-4), of sa pkt ch pol] obtain t rt' where
      "sendto_fd s (socket_fd ?p) sa pkt ch pol rt1 = (-1, Some (c, i), t, rt')" using p(5) by auto
    moreover have "sendto_fd s (socket_fd ?p) sa (be_bytes 2 (of_nat (length pkt) :: u16)) ch pol rt = (n, None, s, rt1)"
      using n p(3) by (simp add: sendto_fd_def rt_sendto_def rt1_def)
    ultimately show ?thesis using p n(2) by (simp add: sendto_sock_def)
  qed
  then show ?thesis using p by (simp add: sendto_peer_def)
qed

lemma send_loop_breaks:
  assumes "tcp_entry s c i" and "message_fails rt (length (rt_sent rt))" and "sel (edges (communities s ! c) ! i)"
  shows "send_loop (Suc k) c i sel d cmn pkt s rt = None"
proof -
  obtain t rt' where "sendto_peer s (edges (communities s ! c) ! i) pkt d (packet_channel cmn) (packet_policy cmn) rt = (-1, Some (c, i), t, rt')"
    using sendto_peer_breaks [OF assms(1,2)] by blast
  then show ?thesis using assms(1,3) by (simp add: tcp_entry_def)
qed

lemma send_loop_prefix_breaks:
  assumes "tcp_entry s c i" and "\<forall>p \<in> set (take i (edges (communities s ! c))). udp_peer s p"
    and "length pkt \<le> N2N_SN_LEGACY_SAFE_UDP_SIZE" and "pc cmn = n2n_packet" and "sel (edges (communities s ! c) ! i)"
    and "message_fails rt (length (rt_sent rt) + length (filter sel (take i (edges (communities s ! c)))))"
  shows "send_loop (length (edges (communities s ! c))) c 0 sel d cmn pkt s rt = None"
proof -
  let ?l = "edges (communities s ! c)"
  have i: "i < length ?l" using assms(1) by (simp add: tcp_entry_def)
  define k where "k = length ?l - Suc i"
  define rt1 where "rt1 = rt\<lparr>rt_sent := rt_sent rt @ map (datagram s pkt) (filter sel (take i ?l))\<rparr>"
  have len: "length ?l = i + Suc k" using i by (simp add: k_def)
  obtain st where st: "send_loop (i + Suc k) c 0 sel d cmn pkt s rt = send_loop (Suc k) c i sel d cmn pkt (s\<lparr>stats := st\<rparr>) rt1"
    using send_loop_udp_prefix [of i 0 s c pkt cmn "Suc k" sel d rt] assms(2-4) i by (auto simp: rt1_def)
  have "message_fails rt1 (length (rt_sent rt1))" using assms(6) by (simp add: rt1_def message_fails_def net_fails_def)
  then have "send_loop (Suc k) c i sel d cmn pkt (s\<lparr>stats := st\<rparr>) rt1 = None"
    by (intro send_loop_breaks) (simp_all add: assms(1,5))
  then show ?thesis by (simp only: len st)
qed

text \<open>
  C30. A broken TCP connection makes the supernode read freed memory. When sending to an edge that is connected over TCP fails, be it the
  length or the payload, its entry is freed, and the trace that follows still reads its socket and its hardware address: this happens to every message that
  is forwarded to the edge, and to every broadcast of a data packet of at most 2048 bytes that reaches it, where the supernodes and the edges before it in the
  community are reached over UDP. The failing message is the one after those to the supernodes (if the packet comes from an edge) and to
  the edges before it.
\<close>

theorem broken_connection_use_after_free:
  assumes "tcp_entry s c i"
  shows "(HASH_FIND_PEER (edges (communities s ! c)) dstMac = Some i \<and> message_fails rt (length (rt_sent rt)) \<longrightarrow>
      try_forward s c cmn dstMac from_sn pkt now rt = None) \<and>
    ((\<forall>p \<in> set (take i (edges (communities s ! c))). udp_peer s p) \<and>
      federation s = Some f \<and> (\<forall>p \<in> set (edges (communities s ! f)). udp_peer s p) \<and>
      length pkt \<le> N2N_SN_LEGACY_SAFE_UDP_SIZE \<and> pc cmn = n2n_packet \<and> mac_addr (edges (communities s ! c) ! i) \<noteq> srcMac \<and>
      message_fails rt (length (rt_sent rt) + length ((if from_sn then [] else active_supernodes s now) @
        filter (\<lambda>p. mac_addr p \<noteq> srcMac) (take i (edges (communities s ! c))))) \<longrightarrow>
      try_broadcast s (Some c) cmn srcMac from_sn pkt now rt = None)"
proof (intro conjI impI; elim conjE)
  assume find: "HASH_FIND_PEER (edges (communities s ! c)) dstMac = Some i" and "message_fails rt (length (rt_sent rt))"
  then obtain t rt' where "sendto_peer s (edges (communities s ! c) ! i) pkt (pc cmn = n2n_packet) (packet_channel cmn) (packet_policy cmn) rt =
      (-1, Some (c, i), t, rt')"
    using sendto_peer_breaks [OF assms] by blast
  then show "try_forward s c cmn dstMac from_sn pkt now rt = None" by (simp add: try_forward_def find)
next
  assume udp: "\<forall>p \<in> set (take i (edges (communities s ! c))). udp_peer s p" "\<forall>p \<in> set (edges (communities s ! f)). udp_peer s p"
    and f: "federation s = Some f" and pkt: "length pkt \<le> N2N_SN_LEGACY_SAFE_UDP_SIZE" "pc cmn = n2n_packet"
    and mac: "mac_addr (edges (communities s ! c) ! i) \<noteq> srcMac"
    and fails: "message_fails rt (length (rt_sent rt) + length ((if from_sn then [] else active_supernodes s now) @
      filter (\<lambda>p. mac_addr p \<noteq> srcMac) (take i (edges (communities s ! c)))))"
  define rt1 where "rt1 = rt\<lparr>rt_sent := rt_sent rt @ map (datagram s pkt) (if from_sn then [] else active_supernodes s now)\<rparr>"
  obtain st where first: "(if \<not> from_sn then send_loop (length (edges (communities s ! f))) f 0 (\<lambda>scan. last_seen scan + LAST_SEEN_SN_INACTIVE > now) False cmn pkt s rt
      else Some (s, rt)) = Some (s\<lparr>stats := st\<rparr>, rt1)"
  proof (cases from_sn)
    case True
    then show ?thesis using that [of "stats s"] by (simp add: rt1_def)
  next
    case False
    then show ?thesis
      using send_loop_udp [OF udp(2) pkt, of "\<lambda>scan. last_seen scan + LAST_SEEN_SN_INACTIVE > now" False rt] that
      by (auto simp: rt1_def active_supernodes_def f)
  qed
  have st: "try_broadcast s (Some c) cmn srcMac from_sn pkt now rt =
      send_loop (length (edges (communities s ! c))) c 0 (\<lambda>scan. srcMac \<noteq> mac_addr scan) (pc cmn = n2n_packet) cmn pkt (s\<lparr>stats := st\<rparr>) rt1"
    using first by (cases from_sn) (simp_all add: try_broadcast_def f)
  have "message_fails rt1 (length (rt_sent rt1) + length (filter (\<lambda>p. srcMac \<noteq> mac_addr p) (take i (edges (communities s ! c)))))"
    using fails by (simp add: rt1_def message_fails_def net_fails_def eq_commute [of srcMac] add.assoc)
  then show "try_broadcast s (Some c) cmn srcMac from_sn pkt now rt = None"
    using send_loop_prefix_breaks [of "s\<lparr>stats := st\<rparr>" c i pkt cmn "\<lambda>scan. srcMac \<noteq> mac_addr scan" rt1 "pc cmn = n2n_packet"] assms udp(1) pkt mac
    by (simp add: st)
qed

text \<open>
  C39. Forwarding: with edges and supernodes that are reached over UDP, a data packet of at most 2048 bytes goes to the edge that is registered under the
  destination address and to nobody else. A packet for an unknown edge is dropped when it comes from a supernode; otherwise
  it goes to the supernode that the edge is associated with, or else to all supernodes seen lately.
\<close>

theorem try_forward_delivers:
  assumes "udp_only s" and "length pkt \<le> N2N_SN_LEGACY_SAFE_UDP_SIZE" and "pc cmn = n2n_packet" and "federation s \<noteq> None"
    and "c < length (communities s)"
  shows "\<exists>r st. try_forward s c cmn dstMac from_sn pkt now rt = Some (r, s\<lparr>stats := st\<rparr>, rt\<lparr>rt_sent := rt_sent rt @
      (case HASH_FIND_PEER (edges (communities s ! c)) dstMac of
         Some i \<Rightarrow> [datagram s pkt (edges (communities s ! c) ! i)]
       | None \<Rightarrow> if from_sn then []
           else case HASH_FIND assoc_mac dstMac (assoc (communities s ! c)) of
             Some k \<Rightarrow> [(sn_sock s, assoc_sock (assoc (communities s ! c) ! k), pkt)]
           | None \<Rightarrow> map (datagram s pkt) (active_supernodes s now))\<rparr>)"
proof (cases "HASH_FIND_PEER (edges (communities s ! c)) dstMac")
  case (Some i)
  then have "i < length (edges (communities s ! c))" by (auto simp: HASH_FIND_def dest: find_index_Some)
  then have "udp_peer s (edges (communities s ! c) ! i)" using udp_only_nth [OF assms(1,5)] by simp
  from sendto_peer_udp [OF this assms(2)] show ?thesis
    by (auto simp: try_forward_def Some assms(3) packet_policy_def packet_transport_policy_from_flags_def)
next
  case None
  show ?thesis
  proof (cases from_sn)
    case True
    then show ?thesis by (intro exI [of _ "-2"] exI [of _ "stats s"]) (simp add: try_forward_def None)
  next
    case False
    then show ?thesis
      using broadcast_supernodes [OF assms(1-4), of "sn_mac_addr s" now rt]
      by (cases "HASH_FIND assoc_mac dstMac (assoc (communities s ! c))")
        (auto simp: try_forward_def None packet_transport_policy_from_flags_def sendto_sock_udp intro: exI [of _ "stats s"])
  qed
qed


subsection \<open>A supernode with a federation, a community and three edges\<close>

definition test_edge :: "byte \<Rightarrow> peer_info" where
  "test_edge b = zero_peer\<lparr>mac_addr := [2, 0, 0, 0, 0, b], socket_fd := 3,
     peer_sock := zero_sock\<lparr>family := AF_INET, port := 1000, addr := [10, 0, 0, b] @ replicate 12 0\<rparr>\<rparr>"

definition test_supernode :: "peer_info" where
  "test_supernode = (test_edge 9)\<lparr>last_seen := 50\<rparr>"

definition test_sn :: n2n_sn where
  "test_sn = bare_sn\<lparr>communities := [zero_community\<lparr>is_federation := True, edges := [test_supernode, test_edge 8]\<rparr>,
     zero_community\<lparr>edges := [test_edge 1, test_edge 2]\<rparr>]\<rparr>"

lemma test_sn_ok: "udp_only test_sn" "federation test_sn = Some 0" "length (communities test_sn) = 2"
  by (simp_all add: udp_only_def test_sn_def udp_peer_def test_edge_def test_supernode_def federation_def zero_community_def bare_sn_def)

lemma test_sn_edges: "communities test_sn ! Suc 0 = zero_community\<lparr>edges := [test_edge 1, test_edge 2]\<rparr>" "mac_addr (test_edge b) = [2, 0, 0, 0, 0, b]"
  by (simp_all add: test_sn_def test_edge_def)

lemma test_sn_supernodes: "active_supernodes test_sn 100 = [test_supernode]"
  by (simp add: active_supernodes_def test_sn_ok) (simp add: test_sn_def test_supernode_def test_edge_def zero_peer_def)

theorem try_broadcast_delivers_witness:
  "\<exists>st. try_broadcast test_sn (Some 1) (plain_common\<lparr>pc := n2n_packet\<rparr>) [2, 0, 0, 0, 0, 1] False [1, 2, 3] 100 quiet_runtime =
     Some (test_sn\<lparr>stats := st\<rparr>,
       quiet_runtime\<lparr>rt_sent := [datagram test_sn [1, 2, 3] test_supernode, datagram test_sn [1, 2, 3] (test_edge 2)]\<rparr>)"
  using try_broadcast_delivers [of test_sn "[1, 2, 3]" "plain_common\<lparr>pc := n2n_packet\<rparr>" 1 "[2, 0, 0, 0, 0, 1]" False 100 quiet_runtime]
  by (simp add: test_sn_ok test_sn_edges test_sn_supernodes quiet_runtime_def)

theorem try_forward_delivers_witness:
  "\<exists>r st. try_forward test_sn 1 (plain_common\<lparr>pc := n2n_packet\<rparr>) [2, 0, 0, 0, 0, 2] False [1, 2, 3] 100 quiet_runtime =
     Some (r, test_sn\<lparr>stats := st\<rparr>, quiet_runtime\<lparr>rt_sent := [datagram test_sn [1, 2, 3] (test_edge 2)]\<rparr>)"
proof -
  have "HASH_FIND_PEER (edges (communities test_sn ! 1)) [2, 0, 0, 0, 0, 2] = Some 1" by (simp add: test_sn_edges HASH_FIND_def)
  then show ?thesis
    using try_forward_delivers [of test_sn "[1, 2, 3]" "plain_common\<lparr>pc := n2n_packet\<rparr>" 1 "[2, 0, 0, 0, 0, 2]" False 100 quiet_runtime]
    by (simp add: test_sn_ok test_sn_edges quiet_runtime_def)
qed

text \<open>The same supernode with a third edge, whose TCP connection breaks: the messages to the supernode and to the second edge arrive, the third fails.\<close>

definition tcp_test_sn :: n2n_sn where
  "tcp_test_sn = test_sn\<lparr>communities := (communities test_sn)[1 := zero_community\<lparr>edges := [test_edge 1, test_edge 2, (test_edge 3)\<lparr>socket_fd := 7\<rparr>]\<rparr>],
     tcp_connections := [\<lparr>tc_fd = 7, tc_sock = zero_sockaddr, tc_sock_len = 16, tc_expected = 2, tc_position = 0, tc_buffer = [], tc_inactive = False\<rparr>]\<rparr>"

definition breaking_runtime :: "nat \<Rightarrow> runtime" where
  "breaking_runtime k = quiet_runtime\<lparr>rt_net := (\<lambda>n. if n < k then (3, 0) else (-1, 32))\<rparr>"

lemma tcp_test_sn_ok:
  "tcp_entry tcp_test_sn 1 2" "federation tcp_test_sn = Some 0" "active_supernodes tcp_test_sn 100 = [test_supernode]"
  "edges (communities tcp_test_sn ! 0) = [test_supernode, test_edge 8]"
  "edges (communities tcp_test_sn ! Suc 0) = [test_edge 1, test_edge 2, (test_edge 3)\<lparr>socket_fd := 7\<rparr>]"
  "udp_peer tcp_test_sn test_supernode" "udp_peer tcp_test_sn (test_edge b)"
  by (simp_all add: tcp_test_sn_def test_sn_def test_supernode_def test_edge_def tcp_entry_def federation_def active_supernodes_def udp_peer_def
    HASH_FIND_def bare_sn_def zero_community_def zero_peer_def)

lemma breaking_runtime_fails: "message_fails (breaking_runtime k) k" "rt_sent (breaking_runtime k) = []"
  by (simp_all add: message_fails_def net_fails_def breaking_runtime_def quiet_runtime_def)

theorem broken_connection_use_after_free_witness:
  "try_forward tcp_test_sn 1 (plain_common\<lparr>pc := n2n_packet\<rparr>) [2, 0, 0, 0, 0, 3] False [1, 2, 3] 100 (breaking_runtime 0) = None \<and>
   try_broadcast tcp_test_sn (Some 1) (plain_common\<lparr>pc := n2n_packet\<rparr>) [2, 0, 0, 0, 0, 1] False [1, 2, 3] 100 (breaking_runtime 2) = None"
proof -
  have "HASH_FIND_PEER (edges (communities tcp_test_sn ! 1)) [2, 0, 0, 0, 0, 3] = Some 2"
    by (simp add: tcp_test_sn_ok test_sn_edges HASH_FIND_def)
  moreover have "message_fails (breaking_runtime 2) (length (rt_sent (breaking_runtime 2)) + length ((if False then [] else active_supernodes tcp_test_sn 100) @
      filter (\<lambda>p. mac_addr p \<noteq> [2, 0, 0, 0, 0, 1]) (take 2 (edges (communities tcp_test_sn ! 1)))))"
    using breaking_runtime_fails(1) [of 2] by (simp add: tcp_test_sn_ok test_sn_edges breaking_runtime_fails(2) numeral_2_eq_2)
  ultimately show ?thesis
    using broken_connection_use_after_free [OF tcp_test_sn_ok(1), of "[2, 0, 0, 0, 0, 3]" "breaking_runtime 0"]
      broken_connection_use_after_free [OF tcp_test_sn_ok(1), of _ _ _ _ "[1, 2, 3]" 100 0 "[2, 0, 0, 0, 0, 1]"]
    by (simp add: tcp_test_sn_ok test_sn_edges breaking_runtime_fails)
qed

end
