(* ===== verification/Sn_Maintain.thy ===== *)
theory Sn_Maintain
  imports Sn_Send
begin

text \<open>
  What the supernode does from time to time, and what it keeps about edges of other supernodes, from \<^verbatim>\<open>src/sn_utils.c\<close>: purging of edges,
  associations and communities, sorting of the communities, new dynamic keys, and the registration with the other supernodes.
\<close>

abbreviation PURGE_REGISTRATION_FREQUENCY :: int where "PURGE_REGISTRATION_FREQUENCY \<equiv> 30"
abbreviation RE_REG_AND_PURGE_FREQUENCY :: int where "RE_REG_AND_PURGE_FREQUENCY \<equiv> 10"
abbreviation REGISTRATION_TIMEOUT :: int where "REGISTRATION_TIMEOUT \<equiv> 60"
abbreviation LAST_SEEN_SN_ACTIVE :: int where "LAST_SEEN_SN_ACTIVE \<equiv> 20"
abbreviation LAST_SEEN_SN_NEW :: int where "LAST_SEEN_SN_NEW \<equiv> 60"
abbreviation SORT_COMMUNITIES_INTERVAL :: int where "SORT_COMMUNITIES_INTERVAL \<equiv> 90"
abbreviation N2N_SN_PKTBUF_SIZE :: nat where "N2N_SN_PKTBUF_SIZE \<equiv> 4096"
abbreviation N2N_DEFAULT_TTL :: byte where "N2N_DEFAULT_TTL \<equiv> 2"
abbreviation n2n_register_super :: byte where "n2n_register_super \<equiv> 5"
abbreviation n2n_re_register_super :: byte where "n2n_re_register_super \<equiv> 12"

subsection \<open>Edges of other supernodes\<close>

definition update_node_supernode_association :: "sn_community \<Rightarrow> bytes \<Rightarrow> sockaddr \<Rightarrow> nat \<Rightarrow> int \<Rightarrow> sn_community" where
  "update_node_supernode_association comm edgeMac sender_sock sock_size now =
     (case HASH_FIND assoc_mac edgeMac (assoc comm) of
        None \<Rightarrow> comm\<lparr>assoc := HASH_ADD \<lparr>assoc_mac = edgeMac, assoc_sock = sender_sock, assoc_sock_len = sock_size, assoc_last_seen = now\<rparr> (assoc comm)\<rparr>
      | Some _ \<Rightarrow> comm)"

subsection \<open>Purging\<close>

text \<open>The test looks at the head of the list, that is at the first association that is still there, and not at the current one.\<close>

fun purge_assoc_loop :: "int \<Rightarrow> node_supernode_association list \<Rightarrow> node_supernode_association list \<Rightarrow> nat \<times> node_supernode_association list" where
  "purge_assoc_loop limit kept [] = (0, kept)"
| "purge_assoc_loop limit kept (a # l) =
     (if assoc_last_seen (hd (kept @ a # l)) < limit then let (n, l) = purge_assoc_loop limit kept l in (Suc n, l)
      else purge_assoc_loop limit (kept @ [a]) l)"

fun purge_communities_loop :: "int \<Rightarrow> int \<Rightarrow> sn_community list \<Rightarrow> n2n_tcp_connection list \<Rightarrow> runtime
    \<Rightarrow> sn_community list \<times> n2n_tcp_connection list \<times> runtime" where
  "purge_communities_loop fd now [] conns rt = ([], conns, rt)"
| "purge_communities_loop fd now (comm # l) conns rt =
     (if is_federation comm then
        let (l, conns, rt) = purge_communities_loop fd now l conns rt in (comm # l, conns, rt)
      else
        let (num_reg, es, conns', rt) = purge_peer_list (edges comm) fd (Some conns) (now - REGISTRATION_TIMEOUT) rt;
            conns = (case conns' of Some cs \<Rightarrow> cs | None \<Rightarrow> conns);
            (num_assoc, as) = purge_assoc_loop (now - 3 * REGISTRATION_TIMEOUT) [] (assoc comm);
            comm = comm\<lparr>edges := es, assoc := as\<rparr>;
            (l, conns, rt) = purge_communities_loop fd now l conns rt
        in (if edges comm = [] \<and> comm_purgeable comm then l else comm # l, conns, rt))"

definition purge_expired_communities :: "n2n_sn \<Rightarrow> int \<Rightarrow> int \<Rightarrow> runtime \<Rightarrow> n2n_sn \<times> int \<times> runtime" where
  "purge_expired_communities sss last_purge now rt =
     (if now - last_purge < PURGE_REGISTRATION_FREQUENCY then (sss, last_purge, rt)
      else let (cs, conns, rt) = purge_communities_loop (sn_sock sss) now (communities sss) (tcp_connections sss) rt
           in (sss\<lparr>communities := cs, tcp_connections := conns\<rparr>, now, rt))"

subsection \<open>Sorting\<close>

text \<open>The difference of two 64-bit numbers is returned as an \<open>int\<close>.\<close>

definition number_enc_packets_sort :: "sn_community \<Rightarrow> sn_community \<Rightarrow> int" where
  "number_enc_packets_sort a b = to_int32 (number_enc_packets b - number_enc_packets a)"

definition sort_communities :: "n2n_sn \<Rightarrow> int \<Rightarrow> int \<Rightarrow> n2n_sn \<times> int" where
  "sort_communities sss last_sort now =
     (if now - last_sort < SORT_COMMUNITIES_INTERVAL then (sss, last_sort)
      else (sss\<lparr>communities := map (\<lambda>comm. comm\<lparr>number_enc_packets := 0\<rparr>) (HASH_SORT number_enc_packets_sort (communities sss))\<rparr>, now))"

subsection \<open>Dynamic keys\<close>

definition comm_dynamic_key :: "u32 \<Rightarrow> bytes \<Rightarrow> sn_community \<Rightarrow> sn_community" where
  "comm_dynamic_key key_time fed comm =
     (if is_federation comm \<or> allowed_users comm = [] then comm
      else let key = calculate_dynamic_key key_time (comm_name comm) fed
           in comm\<lparr>dynamic_key := key, comm_he := map_option (packet_header_change_dynamic_key key) (comm_he comm)\<rparr>)"

definition calculate_dynamic_keys :: "n2n_sn \<Rightarrow> n2n_sn option" where
  "calculate_dynamic_keys sss = do {
     f \<leftarrow> federation sss;
     Some (sss\<lparr>communities := map (comm_dynamic_key (dynamic_key_time sss) (comm_name (communities sss ! f))) (communities sss)\<rparr>) }"

subsection \<open>Sending to every edge of a community\<close>

text \<open>Header encryption of a packet that lies at the start of a buffer, with the stamp and the random number it draws.\<close>

definition encrypt_header :: "bool \<Rightarrow> sn_community \<Rightarrow> bytes \<Rightarrow> nat \<Rightarrow> nat \<Rightarrow> runtime \<Rightarrow> (bytes \<times> runtime) option" where
  "encrypt_header dynamic comm buf header_len packet_len rt = do {
     he \<leftarrow> comm_he comm;
     let (stamp, rt) = rt_time_stamp rt;
     (_, buf, rn) \<leftarrow> packet_header_encrypt buf (of_nat header_len) (of_nat packet_len)
       (if dynamic then he_dynamic he else he_static he) (if dynamic then he_iv_dynamic he else he_iv_static he) stamp (rt_rn rt);
     Some (buf, rt\<lparr>rt_rn := rn\<rparr>) }"

definition empty_pktbuf :: bytes where
  "empty_pktbuf = replicate N2N_SN_PKTBUF_SIZE 0"

text \<open>The loop of \<open>HASH_ITER\<close> over the edges of a community with a body that sends, as in \<open>send_loop\<close>.\<close>

primrec edge_loop :: "nat \<Rightarrow> nat \<Rightarrow> nat \<Rightarrow> (nat \<Rightarrow> n2n_sn \<Rightarrow> runtime \<Rightarrow> ((nat \<times> nat) option \<times> n2n_sn \<times> runtime) option)
    \<Rightarrow> n2n_sn \<Rightarrow> runtime \<Rightarrow> (n2n_sn \<times> runtime) option" where
  "edge_loop 0 c i body sss rt = Some (sss, rt)"
| "edge_loop (Suc k) c i body sss rt =
     (let n = length (edges (communities sss ! c)) in
      if i < n then do {
        (freed, sss, rt) \<leftarrow> body i sss rt;
        i \<leftarrow> next_entry c i n freed;
        edge_loop k c i body sss rt }
      else Some (sss, rt))"

definition re_register_edge :: "nat \<Rightarrow> nat \<Rightarrow> n2n_sn \<Rightarrow> runtime \<Rightarrow> ((nat \<times> nat) option \<times> n2n_sn \<times> runtime) option" where
  "re_register_edge c i sss rt = do {
     let comm = communities sss ! c;
     let cmn = \<lparr>ttl = N2N_DEFAULT_TTL, pc = n2n_re_register_super, flags = N2N_FLAGS_FROM_SUPERNODE, community = comm_name comm\<rparr>;
     (_, buf, encx) \<leftarrow> encode_common cmn (empty_pktbuf, 0);
     (buf, rt) \<leftarrow> encrypt_header True comm buf encx encx rt;
     let (_, freed, sss, rt) = sendto_peer sss (edges comm ! i) (take encx buf) False N2N_KCP_CHANNEL_CTRL N2N_SN_TRANSPORT_POLICY_DEFAULT rt;
     Some (freed, sss, rt) }"

primrec re_register_loop :: "nat \<Rightarrow> nat \<Rightarrow> n2n_sn \<Rightarrow> runtime \<Rightarrow> (n2n_sn \<times> runtime) option" where
  "re_register_loop 0 c sss rt = Some (sss, rt)"
| "re_register_loop (Suc n) c sss rt = do {
     let comm = communities sss ! c;
     (sss, rt) \<leftarrow> (if is_federation comm \<or> allowed_users comm = [] then Some (sss, rt)
       else edge_loop (length (edges comm)) c 0 (re_register_edge c) sss rt);
     re_register_loop n (c + 1) sss rt }"

definition send_re_register_super :: "n2n_sn \<Rightarrow> runtime \<Rightarrow> (n2n_sn \<times> runtime) option" where
  "send_re_register_super sss rt = re_register_loop (length (communities sss)) 0 sss rt"

subsection \<open>Registration with other supernodes\<close>

definition htonl :: "u32 \<Rightarrow> u32" where
  "htonl v = htobe32 v"

definition upd_edge :: "nat \<Rightarrow> nat \<Rightarrow> (peer_info \<Rightarrow> peer_info) \<Rightarrow> n2n_sn \<Rightarrow> n2n_sn" where
  "upd_edge c i f sss = upd_comm c (\<lambda>comm. comm\<lparr>edges := (edges comm)[i := f (edges comm ! i)]\<rparr>) sss"

definition register_with_peer :: "nat \<Rightarrow> bool \<Rightarrow> int \<Rightarrow> nat \<Rightarrow> n2n_sn \<Rightarrow> runtime \<Rightarrow> ((nat \<times> nat) option \<times> n2n_sn \<times> runtime) option" where
  "register_with_peer c forced now i sss rt =
     (let comm = communities sss ! c; peer = edges comm ! i in
      if \<not> forced \<and> now - last_seen peer \<le> LAST_SEEN_SN_ACTIVE then Some (None, sss, rt)
      else do {
        let cmn = \<lparr>ttl = N2N_DEFAULT_TTL, pc = n2n_register_super, flags = N2N_FLAGS_FROM_SUPERNODE, community = comm_name comm\<rparr>;
        let (r, rt) = rt_rand rt;
        let sss = upd_edge c i (\<lambda>p. p\<lparr>last_cookie := ucast r\<rparr>) sss;
        let reg = \<lparr>rs_cookie = ucast r, rs_edgeMac = sn_mac_addr sss, rs_sock = zero_sock,
          rs_dev_addr = \<lparr>net_addr = htonl (net_addr (dev_addr peer)), net_bitlen = mask2bitlen (htonl (ucast (net_bitlen (dev_addr peer))))\<rparr>,
          rs_dev_desc = zero_desc, rs_auth = get_local_auth sss, rs_key_time = dynamic_key_time sss\<rparr>;
        (_, buf, idx) \<leftarrow> encode_REGISTER_SUPER cmn reg (empty_pktbuf, 0);
        (buf, rt) \<leftarrow> encrypt_header False comm buf idx idx rt;
        let (_, freed, sss, rt) = sendto_peer sss (edges (communities sss ! c) ! i) (take idx buf) False N2N_KCP_CHANNEL_CTRL N2N_SN_TRANSPORT_POLICY_DEFAULT rt;
        Some (freed, sss, rt) })"

text \<open>\<open>time_now\<close> is the reading of the clock by \<open>purge_expired_nodes\<close>.\<close>

definition re_register_and_purge_supernodes :: "n2n_sn \<Rightarrow> nat option \<Rightarrow> int \<Rightarrow> int \<Rightarrow> bool \<Rightarrow> int \<Rightarrow> runtime \<Rightarrow> (n2n_sn \<times> int \<times> runtime) option" where
  "re_register_and_purge_supernodes sss comm last_purge now forced time_now rt =
     (if \<not> forced \<and> now - last_purge < RE_REG_AND_PURGE_FREQUENCY then Some (sss, last_purge, rt)
      else case comm of
        None \<Rightarrow> Some (sss, last_purge, rt)
      | Some c \<Rightarrow> do {
          let (sss, last_purge, rt) =
            (if forced then (sss, last_purge, rt)
             else let (_, es, conns, last_purge, rt) = purge_expired_nodes (edges (communities sss ! c)) (sn_sock sss) (Some (tcp_connections sss)) last_purge
                      RE_REG_AND_PURGE_FREQUENCY LAST_SEEN_SN_INACTIVE time_now rt;
                    sss = upd_comm c (\<lambda>comm. comm\<lparr>edges := es\<rparr>) sss
                  in (case conns of Some cs \<Rightarrow> sss\<lparr>tcp_connections := cs\<rparr> | None \<Rightarrow> sss, last_purge, rt));
          (sss, rt) \<leftarrow> edge_loop (length (edges (communities sss ! c))) c 0 (register_with_peer c forced now) sss rt;
          Some (sss, last_purge, rt) })"

subsection \<open>What purging and sorting do\<close>

text \<open>The loop over the associations removes a prefix: it stops removing at the first association that is still fresh.\<close>

abbreviation stale_assoc :: "int \<Rightarrow> node_supernode_association \<Rightarrow> bool" where
  "stale_assoc limit a \<equiv> assoc_last_seen a < limit"

lemma purge_assoc_kept:
  "kept \<noteq> [] \<Longrightarrow> \<not> stale_assoc limit (hd kept) \<Longrightarrow> purge_assoc_loop limit kept l = (0, kept @ l)"
  by (induction l arbitrary: kept) simp_all

lemma purge_assoc_loop_eq:
  "purge_assoc_loop limit [] l = (length (takeWhile (stale_assoc limit) l), dropWhile (stale_assoc limit) l)"
  by (induction l) (simp_all add: purge_assoc_kept)

definition live_edge :: "int \<Rightarrow> peer_info \<Rightarrow> bool" where
  "live_edge now p \<longleftrightarrow> \<not> (purgeable p \<and> last_seen p < now - REGISTRATION_TIMEOUT)"

definition purged :: "int \<Rightarrow> sn_community \<Rightarrow> sn_community" where
  "purged now comm =
     (if is_federation comm then comm
      else comm\<lparr>edges := filter (live_edge now) (edges comm), assoc := dropWhile (stale_assoc (now - 3 * REGISTRATION_TIMEOUT)) (assoc comm)\<rparr>)"

definition idle :: "sn_community \<Rightarrow> bool" where
  "idle comm \<longleftrightarrow> \<not> is_federation comm \<and> edges comm = [] \<and> comm_purgeable comm"

lemma purge_communities_loop_eq:
  "fst (purge_communities_loop fd now l conns rt) = filter (\<lambda>comm. \<not> idle comm) (map (purged now) l)"
proof (induction l arbitrary: conns rt)
  case (Cons comm l)
  obtain n es cs rt1 where p: "purge_peer_list (edges comm) fd (Some conns) (now - REGISTRATION_TIMEOUT) rt = (n, es, cs, rt1)"
    by (metis prod_cases4)
  have es: "es = filter (live_edge now) (edges comm)"
    using purge_loop_result [OF p [unfolded purge_peer_list_def]] by (simp add: live_edge_def [abs_def])
  show ?case
    using Cons.IH [of conns rt] Cons.IH [of "case cs of Some cs \<Rightarrow> cs | None \<Rightarrow> conns" rt1]
    by (auto simp: p es purge_assoc_loop_eq purged_def idle_def Let_def split: prod.splits)
qed simp

text \<open>
  C33. Purging: apart from the federation every community loses the purgeable edges that have been silent for longer than the
  timeout, in the order of the others, and of its associations the leading ones that are out of date; a purgeable community that
  is left without edges goes, all others stay. Before the interval has passed nothing happens.
\<close>

theorem purge_expired_communities_correct:
  "(now - last_purge < PURGE_REGISTRATION_FREQUENCY \<longrightarrow> purge_expired_communities sss last_purge now rt = (sss, last_purge, rt))
   \<and> (PURGE_REGISTRATION_FREQUENCY \<le> now - last_purge \<longrightarrow> (\<exists>conns rt'. purge_expired_communities sss last_purge now rt =
        (sss\<lparr>communities := filter (\<lambda>comm. \<not> idle comm) (map (purged now) (communities sss)), tcp_connections := conns\<rparr>, now, rt')))"
proof -
  obtain cs conns rt' where l: "purge_communities_loop (sn_sock sss) now (communities sss) (tcp_connections sss) rt = (cs, conns, rt')"
    by (metis prod_cases3)
  then have "cs = filter (\<lambda>comm. \<not> idle comm) (map (purged now) (communities sss))"
    using purge_communities_loop_eq [of "sn_sock sss" now "communities sss" "tcp_connections sss" rt] by simp
  then show ?thesis by (auto simp: purge_expired_communities_def l)
qed

theorem purge_expired_communities_correct_witness:
  "\<exists>conns rt'. purge_expired_communities test_sn 0 1000 quiet_runtime =
     (test_sn\<lparr>communities := filter (\<lambda>comm. \<not> idle comm) (map (purged 1000) (communities test_sn)), tcp_connections := conns\<rparr>, 1000, rt')"
  using purge_expired_communities_correct [of 1000 0 test_sn quiet_runtime] by simp

text \<open>
  Sorting: as long as no community has seen \<open>2 ^ 31\<close> encrypted packets, the communities are sorted stably by the number of
  encrypted packets, the busiest first, so that the search for the key that fits tries them in this order; the counters start again at zero.
\<close>

theorem sort_communities_correct:
  assumes "\<forall>comm \<in> set (communities sss). 0 \<le> number_enc_packets comm \<and> number_enc_packets comm < 2 ^ 31"
    and "SORT_COMMUNITIES_INTERVAL \<le> now - last_sort"
  shows "sort_communities sss last_sort now =
    (sss\<lparr>communities := map (\<lambda>comm. comm\<lparr>number_enc_packets := 0\<rparr>) (sort_key (\<lambda>comm. - number_enc_packets comm) (communities sss))\<rparr>, now)"
proof -
  have "number_enc_packets_sort a b = - number_enc_packets a - (- number_enc_packets b)"
    if "a \<in> set (communities sss)" "b \<in> set (communities sss)" for a b
    using bspec [OF assms(1) that(1)] bspec [OF assms(1) that(2)] by (simp add: number_enc_packets_sort_def to_int32_def mod_pos_pos_trivial)
  then have "HASH_SORT number_enc_packets_sort (communities sss) = sort_key (\<lambda>comm. - number_enc_packets comm) (communities sss)"
    by (intro HASH_SORT_by_rank) simp
  then show ?thesis using assms(2) by (simp add: sort_communities_def)
qed

theorem sort_communities_correct_witness:
  "sort_communities test_sn 0 100 =
    (test_sn\<lparr>communities := map (\<lambda>comm. comm\<lparr>number_enc_packets := 0\<rparr>) (sort_key (\<lambda>comm. - number_enc_packets comm) (communities test_sn))\<rparr>, 100)"
  by (rule sort_communities_correct) (simp_all add: test_sn_def zero_community_def)

end
