(* ===== verification/Sn_Process.thy ===== *)
theory Sn_Process
  imports Sn_Maintain Auto_IP
begin

text \<open>
  The processing of a datagram by the supernode, \<open>process_udp\<close> of \<^verbatim>\<open>src/sn_utils.c\<close>, with one definition per kind of message.
\<close>

abbreviation MSG_TYPE_REGISTER :: byte where "MSG_TYPE_REGISTER \<equiv> 1"
abbreviation MSG_TYPE_PACKET :: byte where "MSG_TYPE_PACKET \<equiv> 3"
abbreviation MSG_TYPE_REGISTER_SUPER :: byte where "MSG_TYPE_REGISTER_SUPER \<equiv> 5"
abbreviation MSG_TYPE_UNREGISTER_SUPER :: byte where "MSG_TYPE_UNREGISTER_SUPER \<equiv> 6"
abbreviation MSG_TYPE_REGISTER_SUPER_ACK :: byte where "MSG_TYPE_REGISTER_SUPER_ACK \<equiv> 7"
abbreviation MSG_TYPE_REGISTER_SUPER_NAK :: byte where "MSG_TYPE_REGISTER_SUPER_NAK \<equiv> 8"
abbreviation MSG_TYPE_PEER_INFO :: byte where "MSG_TYPE_PEER_INFO \<equiv> 10"
abbreviation MSG_TYPE_QUERY_PEER :: byte where "MSG_TYPE_QUERY_PEER \<equiv> 11"
abbreviation MSG_TYPE_MAX_TYPE :: u16 where "MSG_TYPE_MAX_TYPE \<equiv> 11"
abbreviation n2n_register_super_ack :: byte where "n2n_register_super_ack \<equiv> 7"
abbreviation n2n_register_super_nak :: byte where "n2n_register_super_nak \<equiv> 8"
abbreviation n2n_peer_info :: byte where "n2n_peer_info \<equiv> 10"
abbreviation N2N_REG_SUP_HASH_CHECK_LEN :: nat where "N2N_REG_SUP_HASH_CHECK_LEN \<equiv> 16"
abbreviation N2N_SPECK_IVEC_SIZE :: nat where "N2N_SPECK_IVEC_SIZE \<equiv> 16"
abbreviation REG_SUPER_ACK_PAYLOAD_SPACE :: nat where "REG_SUPER_ACK_PAYLOAD_SPACE \<equiv> 1166"

subsection \<open>The local variables of \<open>process_udp\<close>\<close>

text \<open>
  What the handling of a message reads: the datagram with its sender, the decoded common header with its TTL already decremented, and the
  position behind it. \<open>ud_stamp\<close> is absent where the variable has no value, as for an unencrypted header. \<open>ud_comm\<close> and \<open>ud_sn\<close>
  are indices into the communities and into the edges of the federation.
\<close>

record udp_locals =
  ud_sender_sock :: sockaddr
  ud_sock_size :: nat
  ud_fd :: int
  ud_buf :: bytes
  ud_size :: nat
  ud_now :: int
  ud_sender :: n2n_sock
  ud_cmn :: n2n_common
  ud_pos :: rpos
  ud_stamp :: "u64 option"
  ud_hash :: bytes
  ud_comm :: "nat option"
  ud_from_sn :: bool
  ud_sn :: "nat option"

type_synonym udp_result = "(int \<times> n2n_sn \<times> runtime) option"

definition encrypted :: "sn_community \<Rightarrow> bool" where
  "encrypted comm \<longleftrightarrow> comm_header_encryption comm = HEADER_ENCRYPTION_ENABLED"

subsection \<open>Time stamps\<close>

definition find_edge_time_stamp_and_verify :: "nat \<Rightarrow> nat option \<Rightarrow> bytes \<Rightarrow> u64 \<Rightarrow> bool \<Rightarrow> n2n_sn \<Rightarrow> runtime \<Rightarrow> (bool \<times> n2n_sn \<times> runtime) option" where
  "find_edge_time_stamp_and_verify c sn mac stamp allow_jitter sss rt = do {
     loc \<leftarrow> (case sn of
        Some i \<Rightarrow> do { f \<leftarrow> federation sss; Some (Some (f, i)) }
      | None \<Rightarrow> Some (map_option (\<lambda>i. (c, i)) (HASH_FIND_PEER (edges (communities sss ! c)) mac)));
     let previous = map_option (\<lambda>(c, i). last_valid_time_stamp (edges (communities sss ! c) ! i)) loc;
     let (now, rt) = rt_time_stamp rt;
     let (r, previous) = time_stamp_verify_and_update stamp previous allow_jitter now;
     let sss = (case (loc, previous) of (Some (c, i), Some p) \<Rightarrow> upd_edge c i (\<lambda>e. e\<lparr>last_valid_time_stamp := p\<rparr>) sss | _ \<Rightarrow> sss);
     Some (r \<noteq> 0, sss, rt) }"

text \<open>The check that precedes the handling of every message, for a community with encrypted headers.\<close>

definition stamp_ok :: "udp_locals \<Rightarrow> nat \<Rightarrow> bytes \<Rightarrow> bool \<Rightarrow> n2n_sn \<Rightarrow> runtime \<Rightarrow> (bool \<times> n2n_sn \<times> runtime) option" where
  "stamp_ok ud c mac allow_jitter sss rt =
     (if encrypted (communities sss ! c) then do {
        stamp \<leftarrow> ud_stamp ud;
        find_edge_time_stamp_and_verify c (ud_sn ud) mac stamp allow_jitter sss rt }
      else Some (True, sss, rt))"

text \<open>The same for the two messages that an unknown community may receive.\<close>

definition stamp_ok_any :: "udp_locals \<Rightarrow> bytes \<Rightarrow> bool \<Rightarrow> n2n_sn \<Rightarrow> runtime \<Rightarrow> (bool \<times> n2n_sn \<times> runtime) option" where
  "stamp_ok_any ud mac allow_jitter sss rt =
     (case ud_comm ud of Some c \<Rightarrow> stamp_ok ud c mac allow_jitter sss rt | None \<Rightarrow> Some (True, sss, rt))"

subsection \<open>PACKET and REGISTER\<close>

text \<open>Encrypts a packet of \<open>len\<close> bytes if its community asks for it.\<close>

definition seal :: "bool \<Rightarrow> sn_community \<Rightarrow> bytes \<Rightarrow> nat \<Rightarrow> nat \<Rightarrow> runtime \<Rightarrow> (bytes \<times> runtime) option" where
  "seal dynamic comm buf header_len len rt =
     (if encrypted comm then encrypt_header dynamic comm buf header_len len rt else Some (buf, rt))"

definition handle_PACKET :: "udp_locals \<Rightarrow> n2n_sn \<Rightarrow> runtime \<Rightarrow> udp_result" where
  "handle_PACKET ud sss rt =
     (case ud_comm ud of
        None \<Rightarrow> Some (-1, sss, rt)
      | Some c \<Rightarrow> do {
          let sss = sss\<lparr>stats := (stats sss)\<lparr>st_last_fwd := ud_now ud\<rparr>\<rparr>;
          let cmn = ud_cmn ud;
          (_, pkt, pos) \<leftarrow> decode_PACKET cmn (ud_buf ud) (ud_pos ud);
          let idx = snd pos;
          (ok, sss, rt) \<leftarrow> stamp_ok ud c (pkt_srcMac pkt) True sss rt;
          if \<not> ok then Some (-1, sss, rt)
          else do {
            let comm = communities sss ! c;
            let unicast = \<not> is_multi_broadcast (pkt_dstMac pkt);
            let iv = (\<lambda>len. if allowed_users comm \<noteq> [] then min len N2N_SPECK_IVEC_SIZE else 0);
            (rec_buf, encx, rt) \<leftarrow>
              (if \<not> ud_from_sn ud then do {
                 let cmn2 = cmn\<lparr>flags := flags cmn OR (N2N_FLAGS_SOCKET OR N2N_FLAGS_FROM_SUPERNODE)\<rparr>;
                 (_, buf, oldEncx) \<leftarrow> encode_PACKET cmn2 (pkt\<lparr>pkt_sock := ud_sender ud\<rparr>) (empty_pktbuf, 0);
                 payload \<leftarrow> (if idx \<le> ud_size ud then rd (ud_buf ud) idx (ud_size ud - idx) else None);
                 (_, buf, encx) \<leftarrow> encode_buf payload (length payload) (buf, oldEncx);
                 (buf, rt) \<leftarrow> seal True comm buf (oldEncx + iv (encx - oldEncx)) encx rt;
                 Some (buf, encx, rt) }
               else do {
                 (buf, rt) \<leftarrow> seal True comm (ud_buf ud) (idx + iv (ud_size ud - idx)) (ud_size ud) rt;
                 Some (buf, ud_size ud, rt) });
            if unicast then do {
              (_, sss, rt) \<leftarrow> try_forward sss c cmn (pkt_dstMac pkt) (ud_from_sn ud) (take encx rec_buf) (ud_now ud) rt;
              Some (0, sss, rt) }
            else do {
              (sss, rt) \<leftarrow> try_broadcast sss (Some c) cmn (pkt_srcMac pkt) (ud_from_sn ud) (take encx rec_buf) (ud_now ud) rt;
              Some (0, sss, rt) } } })"

definition handle_REGISTER :: "udp_locals \<Rightarrow> n2n_sn \<Rightarrow> runtime \<Rightarrow> udp_result" where
  "handle_REGISTER ud sss rt =
     (case ud_comm ud of
        None \<Rightarrow> Some (-1, sss, rt)
      | Some c \<Rightarrow> do {
          let sss = sss\<lparr>stats := (stats sss)\<lparr>st_last_fwd := ud_now ud\<rparr>\<rparr>;
          let cmn = ud_cmn ud;
          (_, reg, pos) \<leftarrow> decode_REGISTER cmn (ud_buf ud) (ud_pos ud);
          (ok, sss, rt) \<leftarrow> stamp_ok ud c (reg_srcMac reg) False sss rt;
          if \<not> ok then Some (-1, sss, rt)
          else if is_multi_broadcast (reg_dstMac reg) then Some (0, sss, rt)
          else do {
            let comm = communities sss ! c;
            (rec_buf, encx) \<leftarrow>
              (if flags cmn AND N2N_FLAGS_FROM_SUPERNODE = 0 then do {
                 let cmn2 = cmn\<lparr>flags := flags cmn OR (N2N_FLAGS_SOCKET OR N2N_FLAGS_FROM_SUPERNODE)\<rparr>;
                 (_, buf, encx) \<leftarrow> encode_REGISTER cmn2 (reg\<lparr>reg_sock := ud_sender ud\<rparr>) (empty_pktbuf, 0);
                 Some (buf, encx) }
               else Some (ud_buf ud, ud_size ud));
            (rec_buf, rt) \<leftarrow> seal True comm rec_buf encx encx rt;
            (_, sss, rt) \<leftarrow> try_forward sss c cmn (reg_dstMac reg) (ud_from_sn ud) (take encx rec_buf) (ud_now ud) rt;
            Some (0, sss, rt) } })"


subsection \<open>REGISTER_SUPER\<close>

text \<open>Whether a rule admits the whole name of a community.\<close>

fun rule_match :: "bytes \<Rightarrow> regex_t list option list \<Rightarrow> bytes \<Rightarrow> bool option" where
  "rule_match classes [] name = Some False"
| "rule_match classes (re # l) name = do {
     (allowed_match, match_length) \<leftarrow> re_matchp classes re (cstr name);
     if allowed_match \<noteq> -1 \<and> match_length = int (length (cstr name)) \<and> allowed_match = 0 then Some True
     else rule_match classes l name }"

definition new_community :: "bytes \<Rightarrow> sn_community" where
  "new_community name = (comm_init zero_community name)\<lparr>comm_header_encryption := HEADER_ENCRYPTION_NONE, comm_he := None,
     comm_purgeable := True, number_enc_packets := 0\<rparr>"

text \<open>The community of a registration: an admitted unknown one is added. The first result is absent when the registration is discarded.\<close>

definition admit_community :: "udp_locals \<Rightarrow> n2n_sn \<Rightarrow> (nat option \<times> n2n_sn) option" where
  "admit_community ud sss =
     (case ud_comm ud of
        Some c \<Rightarrow> Some (Some c, sss)
      | None \<Rightarrow> do {
          matched \<leftarrow> (if lock_communities sss then rule_match (re_classes sss) (rules sss) (community (ud_cmn ud)) else Some False);
          if lock_communities sss \<and> \<not> matched then Some (None, sss)
          else do {
            let c = length (communities sss);
            let sss = sss\<lparr>communities := HASH_ADD (new_community (community (ud_cmn ud))) (communities sss)\<rparr>;
            (_, sss) \<leftarrow> assign_one_ip_subnet sss c;
            Some (Some c, sss) } })"

text \<open>The list of supernodes for the acknowledgement. The number of entries is counted up before the check for space.\<close>

fun payload_loop :: "int \<Rightarrow> peer_info list \<Rightarrow> n2n_sock \<Rightarrow> int \<Rightarrow> nat \<Rightarrow> bytes \<Rightarrow> (nat \<times> bytes) option" where
  "payload_loop skip [] sock now num buf = Some (num, buf)"
| "payload_loop skip (peer # l) sock now num buf =
     (if skip \<noteq> 0 then payload_loop (skip - 1) l sock now num buf
      else if family (peer_sock peer) = AF_INVALID \<or> peer_sock peer = sock \<or> now - last_seen peer \<ge> LAST_SEEN_SN_NEW then payload_loop skip l sock now num buf
      else if (num + 1) * REG_SUPER_ACK_PAYLOAD_ENTRY_SIZE > REG_SUPER_ACK_PAYLOAD_SPACE then Some (num + 1, buf)
      else do {
        (_, b, _) \<leftarrow> encode_sock_payload (peer_sock peer) (replicate 20 0, 0);
        buf \<leftarrow> wr buf (num * REG_SUPER_ACK_PAYLOAD_ENTRY_SIZE) b;
        buf \<leftarrow> wr buf (num * REG_SUPER_ACK_PAYLOAD_ENTRY_SIZE + 20) (mac_addr peer);
        payload_loop skip l sock now (num + 1) buf })"

definition supernode_list :: "n2n_sock \<Rightarrow> int \<Rightarrow> n2n_sn \<Rightarrow> runtime \<Rightarrow> (nat \<times> bytes \<times> runtime) option" where
  "supernode_list sock now sss rt = do {
     f \<leftarrow> federation sss;
     let l = edges (communities sss ! f);
     let skip = int (length l) - 1;
     (skip, rt) \<leftarrow> (if skip < 0 then Some (0, rt) else do { (r, rn) \<leftarrow> n2n_rand_sqr (of_int skip) (rt_rn rt); Some (r, rt\<lparr>rt_rn := rn\<rparr>) });
     (num, buf) \<leftarrow> payload_loop skip l sock now 0 (replicate REG_SUPER_ACK_PAYLOAD_SPACE 0);
     Some (num, buf, rt) }"

text \<open>The hash that follows an encrypted registration or answer of a community with users.\<close>

definition append_hash :: "sn_community \<Rightarrow> sn_user option \<Rightarrow> bytes \<times> nat \<Rightarrow> (bytes \<times> nat) option" where
  "append_hash comm user = (\<lambda>(buf, encx).
     if encrypted comm \<and> allowed_users comm \<noteq> [] then do {
       u \<leftarrow> user;
       p \<leftarrow> rd buf 0 encx;
       let h = speck_128_encrypt (user_shared_secret_ctx u) (pearson_hash_128 p);
       (_, st) \<leftarrow> encode_buf h N2N_REG_SUP_HASH_CHECK_LEN (buf, encx);
       Some st }
     else Some (buf, encx))"

text \<open>The check of the hash: \<open>None\<close> in the second result for a wrong one.\<close>

definition check_hash :: "udp_locals \<Rightarrow> sn_community \<Rightarrow> n2n_REGISTER_SUPER \<Rightarrow> (sn_user option \<times> bytes option) option" where
  "check_hash ud comm reg =
     (if allowed_users comm = [] then Some (None, Some (ud_hash ud))
      else case find_user comm (rs_auth reg) of
        None \<Rightarrow> Some (None, Some (ud_hash ud))
      | Some user \<Rightarrow> do {
          let h = speck_128_encrypt (user_shared_secret_ctx user) (ud_hash ud);
          t \<leftarrow> rd (ud_buf ud) (ud_size ud - N2N_REG_SUP_HASH_CHECK_LEN) N2N_REG_SUP_HASH_CHECK_LEN;
          Some (Some user, if h = t then Some h else None) })"

definition needs_address :: "n2n_REGISTER_SUPER \<Rightarrow> bool" where
  "needs_address reg \<longleftrightarrow> (let a = rs_dev_addr reg in net_addr a = 0 \<or> net_addr a = 0xFFFFFFFF \<or> net_bitlen a = 0 \<or> net_addr a AND 0xFFFF0000 = 0xA9FE0000)"

definition send_nak :: "udp_locals \<Rightarrow> nat \<Rightarrow> n2n_REGISTER_SUPER \<Rightarrow> n2n_common \<Rightarrow> bytes \<Rightarrow> n2n_sn \<Rightarrow> runtime \<Rightarrow> udp_result" where
  "send_nak ud c reg cmn2 hash sss rt = do {
     let comm = communities sss ! c;
     let nak = \<lparr>nak_cookie = rs_cookie reg, nak_srcMac = rs_edgeMac reg, nak_auth = zero_auth\<rparr>;
     (_, buf, encx) \<leftarrow> encode_REGISTER_SUPER_NAK (cmn2\<lparr>pc := n2n_register_super_nak\<rparr>) nak (empty_pktbuf, 0);
     (buf, rt) \<leftarrow> seal False comm buf encx encx rt;
     (buf, encx) \<leftarrow> (if encrypted comm \<and> allowed_users comm \<noteq> [] then do {
         (_, st) \<leftarrow> encode_buf hash N2N_REG_SUP_HASH_CHECK_LEN (buf, encx); Some st }
       else Some (buf, encx));
     let (_, _, sss, rt) = sendto_sock sss (ud_fd ud) (ud_sender_sock ud) (take encx buf) N2N_KCP_CHANNEL_CTRL N2N_SN_TRANSPORT_POLICY_DEFAULT rt;
     Some (0, sss, rt) }"

text \<open>A new key time: all edges register again under the old keys, then the keys change and the other supernodes are told.\<close>

definition set_key_time :: "u32 \<Rightarrow> int \<Rightarrow> n2n_sn \<Rightarrow> runtime \<Rightarrow> (n2n_sn \<times> runtime) option" where
  "set_key_time key_time now sss rt =
     (if key_time > dynamic_key_time sss then do {
        (sss, rt) \<leftarrow> send_re_register_super sss rt;
        sss \<leftarrow> calculate_dynamic_keys (sss\<lparr>dynamic_key_time := key_time\<rparr>);
        f \<leftarrow> federation sss;
        (sss, _, rt) \<leftarrow> re_register_and_purge_supernodes sss (Some f) 0 now True now rt;
        Some (sss, rt) }
      else Some (sss, rt))"

definition forward_registration :: "udp_locals \<Rightarrow> nat \<Rightarrow> n2n_REGISTER_SUPER \<Rightarrow> n2n_common \<Rightarrow> sn_user option \<Rightarrow> n2n_sn \<Rightarrow> runtime \<Rightarrow> (n2n_sn \<times> runtime) option" where
  "forward_registration ud c reg cmn2 user sss rt =
     (if is_null_mac (rs_edgeMac reg) then Some (sss, rt)
      else do {
        let comm = communities sss ! c;
        (_, buf, encx) \<leftarrow> encode_REGISTER_SUPER (cmn2\<lparr>pc := n2n_register_super\<rparr>) (reg\<lparr>rs_sock := ud_sender ud\<rparr>) (empty_pktbuf, 0);
        (buf, rt) \<leftarrow> seal False comm buf encx encx rt;
        (buf, encx) \<leftarrow> append_hash comm user (buf, encx);
        try_broadcast sss None (ud_cmn ud) (rs_edgeMac reg) (ud_from_sn ud) (take encx buf) (ud_now ud) rt })"

definition send_ack :: "udp_locals \<Rightarrow> nat \<Rightarrow> n2n_REGISTER_SUPER_ACK \<Rightarrow> bytes \<Rightarrow> n2n_common \<Rightarrow> sn_user option \<Rightarrow> n2n_sn \<Rightarrow> runtime \<Rightarrow> udp_result" where
  "send_ack ud c ack payload cmn2 user sss rt = do {
     let comm = communities sss ! c;
     (_, buf, encx) \<leftarrow> encode_REGISTER_SUPER_ACK (cmn2\<lparr>pc := n2n_register_super_ack\<rparr>) ack payload (empty_pktbuf, 0);
     (buf, rt) \<leftarrow> seal False comm buf encx encx rt;
     (buf, encx) \<leftarrow> append_hash comm user (buf, encx);
     let (_, _, sss, rt) = sendto_sock sss (ud_fd ud) (ud_sender_sock ud) (take encx buf) N2N_KCP_CHANNEL_CTRL N2N_SN_TRANSPORT_POLICY_DEFAULT rt;
     Some (0, sss, rt) }"

text \<open>An edge is taken from the list, either directly or together with its TCP connection.\<close>

definition remove_edge :: "nat \<Rightarrow> nat \<Rightarrow> n2n_sn \<Rightarrow> runtime \<Rightarrow> n2n_sn \<times> runtime" where
  "remove_edge c i sss rt =
     (let fd = socket_fd (edges (communities sss ! c) ! i) in
      if fd \<noteq> sn_sock sss \<and> fd \<ge> 0 then snd (close_tcp_connection sss (HASH_FIND tc_fd fd (tcp_connections sss)) rt)
      else (free_edge (c, i) sss, rt))"

definition register_elsewhere :: "udp_locals \<Rightarrow> nat \<Rightarrow> n2n_REGISTER_SUPER \<Rightarrow> n2n_sn \<Rightarrow> runtime \<Rightarrow> n2n_sn \<times> runtime" where
  "register_elsewhere ud c reg sss rt =
     (let sss = upd_comm c (\<lambda>comm. update_node_supernode_association comm (rs_edgeMac reg) (ud_sender_sock ud) (ud_sock_size ud) (ud_now ud)) sss
      in case HASH_FIND_PEER (edges (communities sss ! c)) (rs_edgeMac reg) of
           None \<Rightarrow> (sss, rt)
         | Some i \<Rightarrow> remove_edge c i sss rt)"


text \<open>The address for an edge that has none, and the entry of a supernode that registers with the federation.\<close>

definition ack_address :: "nat \<Rightarrow> n2n_REGISTER_SUPER \<Rightarrow> n2n_sn \<Rightarrow> (n2n_ip_subnet \<times> n2n_sn) option" where
  "ack_address c reg sss =
     (let comm = communities sss ! c; none = \<lparr>net_addr = 0, net_bitlen = 0\<rparr> in
      if \<not> is_federation comm \<and> needs_address reg then do {
        (_, comm, ip) \<leftarrow> assign_one_ip_addr comm (rs_dev_desc reg) none;
        Some (ip, upd_comm c (\<lambda>_. comm) sss) }
      else Some (none, sss))"

definition add_federated :: "nat \<Rightarrow> n2n_sock \<Rightarrow> bytes \<Rightarrow> skip_add \<Rightarrow> (skip_add \<Rightarrow> peer_info \<Rightarrow> peer_info) \<Rightarrow> n2n_sn \<Rightarrow> runtime \<Rightarrow> (nat option \<times> n2n_sn \<times> runtime)" where
  "add_federated f sock mac skip upd sss rt =
     (let (p, l, skip, rt) = add_sn_to_list_by_mac_or_sock (edges (communities sss ! f)) sock mac skip rt;
          l = (case p of Some i \<Rightarrow> l[i := upd skip (l ! i)] | None \<Rightarrow> l)
      in (p, upd_comm f (\<lambda>comm. comm\<lparr>edges := l\<rparr>) sss, rt))"

text \<open>The registration itself, in a community that is known and with a hash that is right.\<close>

definition register_super :: "udp_locals \<Rightarrow> nat \<Rightarrow> n2n_REGISTER_SUPER \<Rightarrow> sn_user option \<Rightarrow> bytes \<Rightarrow> n2n_sn \<Rightarrow> runtime \<Rightarrow> udp_result" where
  "register_super ud c reg user hash sss rt = do {
     let cmn = ud_cmn ud;
     let fed = is_federation (communities sss ! c);
     let cmn2 = \<lparr>ttl = N2N_DEFAULT_TTL, pc = n2n_register_super_ack, flags = N2N_FLAGS_SOCKET OR N2N_FLAGS_FROM_SUPERNODE, community = community cmn\<rparr>;
     (ip, sss) \<leftarrow> ack_address c reg sss;
     let (_, sss, rt) =
       (if fed then add_federated c (ud_sender ud) (rs_edgeMac reg) SN_ADD (\<lambda>_ p. p\<lparr>last_seen := ud_now ud, socket_fd := sn_sock sss\<rparr>) sss rt
        else (None, sss, rt));
     (num, payload, rt) \<leftarrow> supernode_list (ud_sender ud) (ud_now ud) sss rt;
     (ret, comm, auth, rt) \<leftarrow>
       (if fed then Some (update_edge_no_change, communities sss ! c, zero_auth, rt)
        else update_edge sss cmn reg (communities sss ! c) (ud_sender ud) (ud_fd ud) zero_auth
          (if flags cmn AND N2N_FLAGS_FROM_SUPERNODE \<noteq> 0 \<or> is_null_mac (rs_edgeMac reg) then SN_ADD_SKIP else SN_ADD) (ud_now ud) rt);
     let sss = upd_comm c (\<lambda>_. comm) sss;
     if ret = update_edge_auth_fail then send_nak ud c reg cmn2 hash sss rt
     else if flags cmn AND N2N_FLAGS_FROM_SUPERNODE = 0 \<or> flags cmn AND N2N_FLAGS_SOCKET = 0 then do {
       (sss, rt) \<leftarrow> forward_registration ud c reg cmn2 user sss rt;
       (sss, rt) \<leftarrow> (if fed then set_key_time (rs_key_time reg) (ud_now ud) sss rt else Some (sss, rt));
       let ack = \<lparr>rsa_cookie = rs_cookie reg, rsa_srcMac = sn_mac_addr sss, rsa_dev_addr = ip, rsa_lifetime = reg_lifetime,
         rsa_sock = ud_sender ud, rsa_auth = auth, rsa_num_sn = of_nat num, rsa_key_time = (if fed then dynamic_key_time sss else 0)\<rparr>;
       send_ack ud c ack payload cmn2 user sss rt }
     else let (sss, rt) = register_elsewhere ud c reg sss rt in Some (0, sss, rt) }"

definition handle_REGISTER_SUPER :: "udp_locals \<Rightarrow> n2n_sn \<Rightarrow> runtime \<Rightarrow> udp_result" where
  "handle_REGISTER_SUPER ud sss rt = do {
     let sss = sss\<lparr>stats := (stats sss)\<lparr>st_last_reg_super := ud_now ud, st_reg_super := st_reg_super (stats sss) + 1\<rparr>\<rparr>;
     (_, reg, _) \<leftarrow> decode_REGISTER_SUPER (ud_cmn ud) (ud_buf ud) (ud_pos ud);
     (ok, sss, rt) \<leftarrow> stamp_ok_any ud (rs_edgeMac reg) False sss rt;
     if \<not> ok then Some (-1, sss, rt)
     else do {
       (admitted, sss) \<leftarrow> admit_community ud sss;
       (case admitted of
          None \<Rightarrow> Some (-1, sss, rt)
        | Some c \<Rightarrow> do {
            (user, hash) \<leftarrow> check_hash ud (communities sss ! c) reg;
            (case hash of
               None \<Rightarrow> Some (-1, sss, rt)
             | Some hash \<Rightarrow>
                 if rs_edgeMac reg = sn_mac_addr sss then Some (-1, sss, rt)
                 else register_super ud c reg user hash sss rt) }) } }"

subsection \<open>The other messages\<close>

definition handle_UNREGISTER_SUPER :: "udp_locals \<Rightarrow> n2n_sn \<Rightarrow> runtime \<Rightarrow> udp_result" where
  "handle_UNREGISTER_SUPER ud sss rt =
     (case ud_comm ud of
        None \<Rightarrow> Some (-1, sss, rt)
      | Some c \<Rightarrow>
          if is_federation (communities sss ! c) then Some (-1, sss, rt)
          else do {
            (_, unreg, _) \<leftarrow> decode_UNREGISTER_SUPER (ud_cmn ud) (ud_buf ud) (ud_pos ud);
            (ok, sss, rt) \<leftarrow> stamp_ok ud c (unreg_srcMac unreg) False sss rt;
            if \<not> ok then Some (-1, sss, rt)
            else case HASH_FIND_PEER (edges (communities sss ! c)) (unreg_srcMac unreg) of
              None \<Rightarrow> Some (0, sss, rt)
            | Some i \<Rightarrow> do {
                (auth, _) \<leftarrow> auth_edge (peer_auth (edges (communities sss ! c) ! i)) (unreg_auth unreg) None (communities sss ! c);
                let (sss, rt) = (if auth = 0 then remove_edge c i sss rt else (sss, rt));
                Some (0, sss, rt) } })"

text \<open>The supernodes named in an acknowledgement become known; those that are new still have to show that they are there.\<close>

primrec add_payload_loop :: "nat \<Rightarrow> nat \<Rightarrow> nat \<Rightarrow> bytes \<Rightarrow> int \<Rightarrow> n2n_sn \<Rightarrow> runtime \<Rightarrow> (n2n_sn \<times> runtime) option" where
  "add_payload_loop 0 k f buf now sss rt = Some (sss, rt)"
| "add_payload_loop (Suc n) k f buf now sss rt = do {
     b \<leftarrow> rd buf (k * REG_SUPER_ACK_PAYLOAD_ENTRY_SIZE) 20;
     mac \<leftarrow> rd buf (k * REG_SUPER_ACK_PAYLOAD_ENTRY_SIZE + 20) N2N_MAC_SIZE;
     (_, sock, _) \<leftarrow> decode_sock_payload b zero_sock (20, 0);
     let (_, sss, rt) = add_federated f sock mac SN_ADD
       (\<lambda>skip p. if skip = SN_ADD_ADDED then p\<lparr>socket_fd := sn_sock sss, last_seen := now - LAST_SEEN_SN_NEW\<rparr> else p\<lparr>socket_fd := sn_sock sss\<rparr>) sss rt;
     add_payload_loop n (k + 1) f buf now sss rt }"

definition handle_REGISTER_SUPER_ACK :: "udp_locals \<Rightarrow> n2n_sn \<Rightarrow> runtime \<Rightarrow> udp_result" where
  "handle_REGISTER_SUPER_ACK ud sss rt =
     (case ud_comm ud of
        None \<Rightarrow> Some (-1, sss, rt)
      | Some c \<Rightarrow>
          if \<not> ud_from_sn ud \<or> \<not> is_federation (communities sss ! c) then Some (-1, sss, rt)
          else do {
            (_, (ack, payload), _) \<leftarrow> decode_REGISTER_SUPER_ACK (ud_cmn ud) (ud_buf ud) (replicate REG_SUPER_ACK_PAYLOAD_SPACE 0) (ud_pos ud);
            (ok, sss, rt) \<leftarrow> stamp_ok ud c (rsa_srcMac ack) False sss rt;
            if \<not> ok then Some (-1, sss, rt)
            else do {
              f \<leftarrow> federation sss;
              let (scan, sss, rt) = add_federated f (ud_sender ud) (rsa_srcMac ack) SN_ADD_SKIP (\<lambda>_ p. p\<lparr>last_seen := ud_now ud\<rparr>) sss rt;
              (case scan of
                 None \<Rightarrow> Some (0, sss, rt)
               | Some i \<Rightarrow>
                   if rsa_cookie ack = last_cookie (edges (communities sss ! f) ! i) then do {
                     (sss, rt) \<leftarrow> add_payload_loop (unat (rsa_num_sn ack)) 0 f payload (ud_now ud) sss rt;
                     (sss, rt) \<leftarrow> set_key_time (rsa_key_time ack) (ud_now ud) sss rt;
                     Some (0, sss, rt) }
                   else Some (0, sss, rt)) } })"

text \<open>The entry of the edge is read again after the refusal has been passed on, and by then sending may have freed it.\<close>

definition handle_REGISTER_SUPER_NAK :: "udp_locals \<Rightarrow> n2n_sn \<Rightarrow> runtime \<Rightarrow> udp_result" where
  "handle_REGISTER_SUPER_NAK ud sss rt =
     (case ud_comm ud of
        None \<Rightarrow> Some (-1, sss, rt)
      | Some c \<Rightarrow> do {
          (_, nak, _) \<leftarrow> decode_REGISTER_SUPER_NAK (ud_cmn ud) (ud_buf ud) (ud_pos ud);
          (ok, sss, rt) \<leftarrow> stamp_ok ud c (nak_srcMac nak) False sss rt;
          let comm = communities sss ! c;
          if \<not> ok then Some (-1, sss, rt)
          else case HASH_FIND_PEER (edges comm) (nak_srcMac nak) of
            None \<Rightarrow> Some (0, sss, rt)
          | Some i \<Rightarrow>
              if is_federation comm then Some (0, sss, rt)
              else do {
                (_, buf, encx) \<leftarrow> encode_REGISTER_SUPER_NAK (ud_cmn ud) nak (empty_pktbuf, 0);
                (buf, rt) \<leftarrow> seal False comm buf encx encx rt;
                (buf, encx) \<leftarrow> (if encrypted comm \<and> allowed_users comm \<noteq> [] then do {
                    (_, st) \<leftarrow> encode_buf (ud_hash ud) N2N_REG_SUP_HASH_CHECK_LEN (buf, encx); Some st }
                  else Some (buf, encx));
                let (_, freed, sss, rt) = sendto_peer sss (edges comm ! i) (take encx buf) False N2N_KCP_CHANNEL_CTRL N2N_SN_TRANSPORT_POLICY_DEFAULT rt;
                (case freed of
                   None \<Rightarrow> let (sss, rt) = remove_edge c i sss rt in Some (0, sss, rt)
                 | Some (c', j) \<Rightarrow>
                     if c' = c \<and> j = i then None
                     else let (sss, rt) = remove_edge c (if c' = c \<and> j < i then i - 1 else i) sss rt in Some (0, sss, rt)) } })"

definition sn_selection_criterion_gather_data :: "n2n_sn \<Rightarrow> u64" where
  "sn_selection_criterion_gather_data sss =
     htobe64 (sum_list (map (\<lambda>comm. let tmp = of_nat (length (edges comm)) + 1 in if encrypted comm then tmp * 2 else tmp) (communities sss)))"

text \<open>The fields of the answer to a query that the code leaves unset are those of \<open>pi0\<close>.\<close>

definition handle_QUERY_PEER :: "n2n_PEER_INFO \<Rightarrow> udp_locals \<Rightarrow> n2n_sn \<Rightarrow> runtime \<Rightarrow> udp_result" where
  "handle_QUERY_PEER pi0 ud sss rt = do {
     let cmn = ud_cmn ud;
     matched \<leftarrow> (if ud_comm ud = None \<and> lock_communities sss then rule_match (re_classes sss) (rules sss) (community cmn) else Some True);
     if \<not> matched then Some (-1, sss, rt)
     else do {
       (_, query, _) \<leftarrow> decode_QUERY_PEER cmn (ud_buf ud) (ud_pos ud);
       (ok, sss, rt) \<leftarrow> stamp_ok_any ud (qp_srcMac query) True sss rt;
       if \<not> ok then Some (-1, sss, rt)
       else do {
         let cmn2 = \<lparr>ttl = N2N_DEFAULT_TTL, pc = n2n_peer_info, flags = N2N_FLAGS_FROM_SUPERNODE, community = community cmn\<rparr>;
         let seal_comm = (\<lambda>buf encx rt. case ud_comm ud of Some c \<Rightarrow> seal True (communities sss ! c) buf encx encx rt | None \<Rightarrow> Some (buf, rt));
         let answer = (\<lambda>cmn2 pi rt. do {
           (_, buf, encx) \<leftarrow> encode_PEER_INFO cmn2 pi (empty_pktbuf, 0);
           (buf, rt) \<leftarrow> seal_comm buf encx rt;
           let (_, _, sss, rt) = sendto_sock sss (ud_fd ud) (ud_sender_sock ud) (take encx buf) N2N_KCP_CHANNEL_CTRL N2N_SN_TRANSPORT_POLICY_DEFAULT rt;
           Some (0, sss, rt) });
         if is_null_mac (qp_targetMac query) then
           answer cmn2 (pi0\<lparr>pi_aflags := 0, pi_mac := qp_targetMac query, pi_srcMac := sn_mac_addr sss, pi_sock := ud_sender ud,
             pi_load := ucast (sn_selection_criterion_gather_data sss), pi_version := sn_version sss,
             pi_uptime := of_int (ud_now ud - sn_start_time sss)\<rparr>) rt
         else case ud_comm ud of
           None \<Rightarrow> Some (-1, sss, rt)
         | Some c \<Rightarrow>
             (case HASH_FIND_PEER (edges (communities sss ! c)) (qp_targetMac query) of
                Some i \<Rightarrow>
                  let scan = edges (communities sss ! c) ! i;
                      pi = pi0\<lparr>pi_aflags := 0, pi_srcMac := qp_srcMac query, pi_mac := qp_targetMac query, pi_sock := peer_sock scan\<rparr>
                  in if family (preferred_sock scan) \<noteq> AF_INVALID
                     then answer (cmn2\<lparr>flags := flags cmn2 OR N2N_FLAGS_SOCKET\<rparr>) (pi\<lparr>pi_preferred_sock := preferred_sock scan\<rparr>) rt
                     else answer cmn2 pi rt
              | None \<Rightarrow>
                  if ud_from_sn ud then Some (0, sss, rt)
                  else do {
                    (_, buf, encx) \<leftarrow> encode_QUERY_PEER (cmn\<lparr>flags := flags cmn OR N2N_FLAGS_FROM_SUPERNODE\<rparr>) query (empty_pktbuf, 0);
                    (buf, rt) \<leftarrow> seal_comm buf encx rt;
                    (sss, rt) \<leftarrow> try_broadcast sss None cmn (qp_srcMac query) False (take encx buf) (ud_now ud) rt;
                    Some (0, sss, rt) }) } } }"

definition handle_PEER_INFO :: "udp_locals \<Rightarrow> n2n_sn \<Rightarrow> runtime \<Rightarrow> udp_result" where
  "handle_PEER_INFO ud sss rt =
     (case ud_comm ud of
        None \<Rightarrow> Some (-1, sss, rt)
      | Some c \<Rightarrow> do {
          (_, pi, _) \<leftarrow> decode_PEER_INFO (ud_cmn ud) (ud_buf ud) (ud_pos ud);
          (ok, sss, rt) \<leftarrow> stamp_ok ud c (pi_srcMac pi) False sss rt;
          if \<not> ok then Some (-1, sss, rt)
          else case HASH_FIND_PEER (edges (communities sss ! c)) (pi_srcMac pi) of
            None \<Rightarrow> Some (0, sss, rt)
          | Some i \<Rightarrow>
              if is_federation (communities sss ! c) \<or> is_null_mac (pi_srcMac pi) then Some (0, sss, rt)
              else do {
                let sss = upd_comm c (\<lambda>comm. update_node_supernode_association comm (pi_mac pi) (ud_sender_sock ud) (ud_sock_size ud) (ud_now ud)) sss;
                (_, buf, encx) \<leftarrow> encode_PEER_INFO (ud_cmn ud) pi (empty_pktbuf, 0);
                (buf, rt) \<leftarrow> seal True (communities sss ! c) buf encx encx rt;
                let (_, _, sss, rt) = sendto_peer sss (edges (communities sss ! c) ! i) (take encx buf) False N2N_KCP_CHANNEL_CTRL N2N_SN_TRANSPORT_POLICY_DEFAULT rt;
                Some (0, sss, rt) } })"

end
