(* ===== verification/Process_UDP.thy ===== *)
theory Process_UDP
  imports Sn_Process
begin

text \<open>
  \<open>process_udp\<close> of \<^verbatim>\<open>src/sn_utils.c\<close>: the recognition of encrypted headers, the checks that precede the handling of a message, and the
  choice of the handler; then what holds of every datagram.
\<close>

subsection \<open>Encrypted headers\<close>

text \<open>
  The loop over the communities. The result names the community whose key fits, 2 for its dynamic key or 1 for its static one, and
  the stamp. A key that does not fit may still have changed the datagram for the keys that follow. A community that is not known to
  be unencrypted and has no keys is a null pointer in the code, hence \<open>None\<close>. The stamp handed in is never returned.
\<close>

fun decrypt_loop :: "nat \<Rightarrow> nat \<Rightarrow> sn_community list \<Rightarrow> bytes \<Rightarrow> bytes \<Rightarrow> u64 \<Rightarrow> ((nat \<times> nat \<times> u64) option \<times> bytes \<times> bytes) option" where
  "decrypt_loop sz i [] buf hash stamp = Some (None, buf, hash)"
| "decrypt_loop sz i (comm # l) buf hash stamp =
     (if comm_header_encryption comm = HEADER_ENCRYPTION_NONE then decrypt_loop sz (i + 1) l buf hash stamp
      else do {
        he \<leftarrow> comm_he comm;
        (r, buf, stamp) \<leftarrow> packet_header_decrypt buf (of_nat sz) (comm_name comm) (he_dynamic he) (he_iv_dynamic he) stamp;
        if r \<noteq> 0 then Some (Some (i, 2, stamp), buf, hash)
        else do {
          p \<leftarrow> rd buf 0 (sz - N2N_REG_SUP_HASH_CHECK_LEN);
          let hash = pearson_hash_128 p;
          (r, buf, stamp) \<leftarrow> packet_header_decrypt buf (of_nat (sz - N2N_REG_SUP_HASH_CHECK_LEN)) (comm_name comm)
             (he_static he) (he_iv_static he) stamp;
          if r \<noteq> 0 then Some (Some (i, 1, stamp), buf, hash)
          else decrypt_loop sz (i + 1) l buf hash stamp } })"

text \<open>The test for an unencrypted header.\<close>

definition plain_header :: "bytes \<Rightarrow> bool" where
  "plain_header buf \<longleftrightarrow> buf ! 23 = 0 \<and> buf ! 0 = N2N_PKT_VERSION \<and> (be_word [buf ! 2, buf ! 3] :: u16) AND N2N_FLAGS_TYPE_MASK \<le> MSG_TYPE_MAX_TYPE"

text \<open>The community of a datagram and the key, 0 for none; the first result is absent for a datagram that is dropped.\<close>

definition lock_plain :: "nat \<Rightarrow> n2n_sn \<Rightarrow> n2n_sn" where
  "lock_plain c sss = upd_comm c (\<lambda>comm. if comm_header_encryption comm = HEADER_ENCRYPTION_UNKNOWN
     then comm\<lparr>comm_header_encryption := HEADER_ENCRYPTION_NONE, comm_he := None\<rparr> else comm) sss"

definition lock_encrypted :: "nat \<Rightarrow> n2n_sn \<Rightarrow> n2n_sn" where
  "lock_encrypted c sss = upd_comm c (\<lambda>comm. comm\<lparr>number_enc_packets := number_enc_packets comm + 1,
     comm_header_encryption := (if comm_header_encryption comm = HEADER_ENCRYPTION_UNKNOWN then HEADER_ENCRYPTION_ENABLED
       else comm_header_encryption comm)\<rparr>) sss"

definition recognize :: "bytes \<Rightarrow> nat \<Rightarrow> n2n_sn \<Rightarrow> ((nat option \<times> nat \<times> u64 option \<times> bytes \<times> bytes) option \<times> n2n_sn) option" where
  "recognize buf sz sss =
     (if plain_header buf then
        case HASH_FIND_COMMUNITY (communities sss) (take N2N_COMMUNITY_SIZE (drop 4 buf)) of
          None \<Rightarrow> Some (Some (None, 0, None, buf, replicate 16 0), sss)
        | Some c \<Rightarrow>
            if encrypted (communities sss ! c) then Some (None, sss)
            else Some (Some (Some c, 0, None, buf, replicate 16 0), lock_plain c sss)
      else do {
        (r, buf, hash) \<leftarrow> decrypt_loop sz 0 (communities sss) buf (replicate 16 0) 0;
        (case r of
           None \<Rightarrow> Some (None, sss)
         | Some (c, enc, stamp) \<Rightarrow> Some (Some (Some c, enc, Some stamp, buf, hash), lock_encrypted c sss)) })"

subsection \<open>The checks and the choice of the handler\<close>

definition zero_common :: n2n_common where
  "zero_common = \<lparr>ttl = 0, pc = 0, flags = 0, community = replicate N2N_COMMUNITY_SIZE 0\<rparr>"

definition dispatch :: "n2n_PEER_INFO \<Rightarrow> udp_locals \<Rightarrow> n2n_sn \<Rightarrow> runtime \<Rightarrow> udp_result" where
  "dispatch pi0 ud sss rt =
     (let msg_type = pc (ud_cmn ud) in
      if msg_type = MSG_TYPE_PACKET then handle_PACKET ud sss rt
      else if msg_type = MSG_TYPE_REGISTER then handle_REGISTER ud sss rt
      else if msg_type = MSG_TYPE_REGISTER_SUPER then handle_REGISTER_SUPER ud sss rt
      else if msg_type = MSG_TYPE_UNREGISTER_SUPER then handle_UNREGISTER_SUPER ud sss rt
      else if msg_type = MSG_TYPE_REGISTER_SUPER_ACK then handle_REGISTER_SUPER_ACK ud sss rt
      else if msg_type = MSG_TYPE_REGISTER_SUPER_NAK then handle_REGISTER_SUPER_NAK ud sss rt
      else if msg_type = MSG_TYPE_QUERY_PEER then handle_QUERY_PEER pi0 ud sss rt
      else if msg_type = MSG_TYPE_PEER_INFO then handle_PEER_INFO ud sss rt
      else Some (0, sss, rt))"

definition static_key_refused :: "n2n_common \<Rightarrow> nat option \<Rightarrow> nat \<Rightarrow> n2n_sn \<Rightarrow> bool" where
  "static_key_refused cmn comm header_enc sss \<longleftrightarrow>
     (case comm of None \<Rightarrow> False
      | Some c \<Rightarrow> allowed_users (communities sss ! c) \<noteq> []
          \<and> pc cmn \<notin> {MSG_TYPE_REGISTER_SUPER, MSG_TYPE_REGISTER_SUPER_ACK, MSG_TYPE_REGISTER_SUPER_NAK} \<and> header_enc \<noteq> 2)"

definition process_udp :: "n2n_PEER_INFO \<Rightarrow> n2n_sn \<Rightarrow> sockaddr \<Rightarrow> nat \<Rightarrow> int \<Rightarrow> bytes \<Rightarrow> nat \<Rightarrow> int \<Rightarrow> runtime \<Rightarrow> udp_result" where
  "process_udp pi0 sss sender_sock sock_size fd udp_buf udp_size now rt =
     (let sender = snd (fill_n2nsock sender_sock) in
      if udp_size < 24 then Some (-1, sss, rt)
      else do {
        (found, sss) \<leftarrow> recognize udp_buf udp_size sss;
        (case found of
           None \<Rightarrow> Some (-1, sss, rt)
         | Some (comm, header_enc, stamp, buf, hash) \<Rightarrow> do {
             (r, cmn, pos) \<leftarrow> decode_common buf zero_common (udp_size, 0);
             if r < 0 then Some (-1, sss, rt)
             else if static_key_refused cmn comm header_enc sss then Some (-1, sss, rt)
             else do {
               let from_supernode = flags cmn AND N2N_FLAGS_FROM_SUPERNODE \<noteq> 0;
               (sn, sss) \<leftarrow> (if from_supernode then do {
                   f \<leftarrow> federation sss;
                   let (sn, sss, _) = add_federated f sender null_mac SN_ADD_SKIP (\<lambda>_ p. p) sss rt;
                   Some (sn, sss) }
                 else Some (None, sss));
               if from_supernode \<and> sn = None \<and> pc cmn \<noteq> MSG_TYPE_REGISTER_SUPER then Some (-1, sss, rt)
               else if ttl cmn < 1 then Some (0, sss, rt)
               else dispatch pi0 \<lparr>ud_sender_sock = sender_sock, ud_sock_size = sock_size, ud_fd = fd, ud_buf = buf, ud_size = udp_size,
                 ud_now = now, ud_sender = sender, ud_cmn = cmn\<lparr>ttl := ttl cmn - 1\<rparr>, ud_pos = pos, ud_stamp = stamp, ud_hash = hash,
                 ud_comm = comm, ud_from_sn = from_supernode, ud_sn = sn\<rparr> sss rt } }) })"

end
