(* ===== verification/Sn_Invariant.thy ===== *)
theory Sn_Invariant
  imports Process_UDP
begin

text \<open>
  How the supernode's state develops while datagrams are processed: a relation that all operations respect, and from it
  the invariants of the reachable states.
\<close>

named_theorems grows_rules

subsection \<open>The development of a community\<close>

definition he_ok :: "sn_community \<Rightarrow> bool" where
  "he_ok comm \<longleftrightarrow> (comm_header_encryption comm \<noteq> HEADER_ENCRYPTION_NONE \<longrightarrow> comm_he comm \<noteq> None)"

definition table_ok :: "sn_community \<Rightarrow> bool" where
  "table_ok comm \<longleftrightarrow> (if is_federation comm then sn_list_ok (edges comm) else edges_ok (edges comm))"

definition static_keys :: "sn_community \<Rightarrow> (speck_context \<times> speck_context) option" where
  "static_keys comm = map_option (\<lambda>h. (he_static h, he_iv_static h)) (comm_he comm)"

text \<open>
  Name, kind and users of a community never change. Once it is known whether its headers are encrypted this never changes either, nor do
  the static keys. Tables keep their keys apart.
\<close>

definition comm_step :: "sn_community \<Rightarrow> sn_community \<Rightarrow> bool" where
  "comm_step a b \<longleftrightarrow> comm_name b = comm_name a \<and> is_federation b = is_federation a \<and> comm_purgeable b = comm_purgeable a
     \<and> allowed_users b = allowed_users a
     \<and> (comm_header_encryption a \<noteq> HEADER_ENCRYPTION_UNKNOWN \<longrightarrow> comm_header_encryption b = comm_header_encryption a \<and> static_keys b = static_keys a)
     \<and> (he_ok a \<longrightarrow> he_ok b) \<and> (table_ok a \<longrightarrow> table_ok b)
     \<and> (distinct (map assoc_mac (assoc a)) \<longrightarrow> distinct (map assoc_mac (assoc b)))"

text \<open>A community that was added on a registration.\<close>

definition fresh :: "sn_community \<Rightarrow> bool" where
  "fresh c \<longleftrightarrow> \<not> is_federation c \<and> comm_purgeable c \<and> allowed_users c = [] \<and> comm_header_encryption c = HEADER_ENCRYPTION_NONE
     \<and> table_ok c \<and> distinct (map assoc_mac (assoc c))"

lemma comm_step_refl [simp]: "comm_step a a"
  by (simp add: comm_step_def)

lemma comm_step_trans: "comm_step a b \<Longrightarrow> comm_step b c \<Longrightarrow> comm_step a c"
  unfolding comm_step_def by auto

lemma comm_step_fresh: "fresh a \<Longrightarrow> comm_step a b \<Longrightarrow> fresh b"
  unfolding comm_step_def fresh_def by auto

lemma subseq_distinct: "subseq l m \<Longrightarrow> distinct m \<Longrightarrow> distinct l"
  by (metis in_set_subseqs subseqs_distinctD)

lemma subseq_sn_list_ok: "subseq l m \<Longrightarrow> sn_list_ok m \<Longrightarrow> sn_list_ok l"
  unfolding sn_list_ok_def known_macs_def by (rule subseq_distinct [OF subseq_filter [OF subseq_map]])

lemma subseq_edges_ok: "subseq l m \<Longrightarrow> edges_ok m \<Longrightarrow> edges_ok l"
  by (rule subseq_distinct [OF subseq_map])

lemma comm_step_fewer: "fewer_edges a b \<Longrightarrow> comm_step a b"
  by (auto simp: fewer_edges_def comm_step_def he_ok_def table_ok_def static_keys_def dest: subseq_sn_list_ok subseq_edges_ok)

text \<open>Changes of the edges.\<close>

lemma comm_step_edges:
  "(if is_federation a then sn_list_ok (edges a) \<longrightarrow> sn_list_ok l else edges_ok (edges a) \<longrightarrow> edges_ok l) \<Longrightarrow> comm_step a (a\<lparr>edges := l\<rparr>)"
  by (auto simp: comm_step_def he_ok_def table_ok_def static_keys_def split: if_splits)

lemma known_macs_update: "mac_addr p = mac_addr (l ! i) \<Longrightarrow> known_macs (l[i := p]) = known_macs l"
  by (simp only: known_macs_def update_fields_macs)

lemma comm_step_edge:
  assumes "mac_addr p = mac_addr (edges a ! i)"
  shows "comm_step a (a\<lparr>edges := (edges a)[i := p]\<rparr>)"
  by (rule comm_step_edges) (simp add: assms sn_list_ok_def known_macs_update)

lemma comm_step_auto_ip: "comm_step a (a\<lparr>auto_ip_net := n\<rparr>)"
  by (simp add: comm_step_def he_ok_def table_ok_def static_keys_def)

lemma comm_step_perm: "mset l = mset (edges a) \<Longrightarrow> comm_step a (a\<lparr>edges := l\<rparr>)"
proof -
  assume m: "mset l = mset (edges a)"
  have "mset (map mac_addr l) = mset (map mac_addr (edges a))" "mset (known_macs l) = mset (known_macs (edges a))"
    using m by (simp_all add: known_macs_def)
  then have "distinct (map mac_addr l) = distinct (map mac_addr (edges a))" "sn_list_ok l = sn_list_ok (edges a)"
    unfolding sn_list_ok_def by (metis mset_eq_imp_distinct_iff)+
  then show ?thesis by (intro comm_step_edges) simp
qed

lemma comm_step_assoc: "comm_step a (update_node_supernode_association a mac sa n now)"
  using hash.distinct_hadd [of assoc_mac "assoc a"]
  by (auto simp: update_node_supernode_association_def comm_step_def he_ok_def table_ok_def static_keys_def hash.hfind_None
      simp flip: hash.hfind_None split: option.split)

lemma comm_step_update_edge:
  assumes "update_edge sss cmn reg a sk fd ans skip now rt = Some (ret, b, ans', rt')" and "\<not> is_federation a"
  shows "comm_step a b"
proof -
  obtain r l where l: "lookup_edge reg (edges a) = (r, l)" by fastforce
  obtain st rt1 where rt: "rt_initial_time_stamp rt = (st, rt1)" by fastforce
  have "\<exists>m. b = a\<lparr>edges := m\<rparr>"
    using assms(1) by (cases r) (auto simp: update_edge_def l rt Let_def bind_eq_Some_conv split: if_splits)
  then have "b = a\<lparr>edges := edges b\<rparr>" by auto
  moreover have "comm_step a (a\<lparr>edges := edges b\<rparr>)"
    using update_edge_ok [OF assms(1)] assms(2) by (intro comm_step_edges) simp
  ultimately show ?thesis by metis
qed

lemma comm_step_dynamic_key: "comm_step a (comm_dynamic_key kt fed a)"
proof -
  have "map_option (\<lambda>h. (he_static h, he_iv_static h)) (map_option (packet_header_change_dynamic_key k) x) =
      map_option (\<lambda>h. (he_static h, he_iv_static h)) x" for k x
    by (cases x) (simp_all add: packet_header_change_dynamic_key_def Let_def)
  then show ?thesis
    by (auto simp: comm_dynamic_key_def comm_step_def he_ok_def table_ok_def static_keys_def Let_def)
qed

subsection \<open>The development of the supernode\<close>

definition sn_config :: "n2n_sn \<Rightarrow> n2n_sn" where
  "sn_config s = (sn_rest s)\<lparr>dynamic_key_time := 0\<rparr>"

definition comm_keys :: "n2n_sn \<Rightarrow> bytes list" where
  "comm_keys s = map comm_key (communities s)"

definition grows :: "n2n_sn \<Rightarrow> n2n_sn \<Rightarrow> bool" where
  "grows s t \<longleftrightarrow> (\<exists>l new. communities t = l @ new \<and> list_all2 comm_step (communities s) l \<and> (\<forall>c \<in> set new. fresh c))
     \<and> (distinct (comm_keys s) \<longrightarrow> distinct (comm_keys t))
     \<and> sn_config t = sn_config s \<and> dynamic_key_time s \<le> dynamic_key_time t"

lemma grows_refl [simp, intro]: "grows s s"
  unfolding grows_def by (intro conjI exI [of _ "communities s"] exI [of _ "[]"]) (simp_all add: list_all2_refl)

lemma grows_trans:
  assumes "grows s t" "grows t u"
  shows "grows s u"
proof -
  obtain l n l2 m where 1: "communities t = l @ n" "list_all2 comm_step (communities s) l" "\<forall>c \<in> set n. fresh c"
    and 2: "communities u = l2 @ m" "list_all2 comm_step (communities t) l2" "\<forall>c \<in> set m. fresh c"
    using assms unfolding grows_def by blast
  obtain a b where ab: "l2 = a @ b" "list_all2 comm_step l a" "list_all2 comm_step n b"
    using 2(2) unfolding 1(1) by (auto simp: list_all2_append1)
  have "list_all2 comm_step (communities s) a"
    by (rule list_all2_trans [OF _ 1(2) ab(2)]) (rule comm_step_trans)
  moreover have "\<forall>c \<in> set (b @ m). fresh c"
    using 1(3) 2(3) ab(3) comm_step_fresh [OF bspec [OF 1(3)]] by (auto simp: list_all2_conv_all_nth in_set_conv_nth) (metis nth_mem)
  ultimately show ?thesis using assms 2(1) ab(1) unfolding grows_def
    by (intro conjI exI [of _ a] exI [of _ "b @ m"]) auto
qed

lemma comm_step_key: "comm_step a b \<Longrightarrow> comm_key b = comm_key a"
  by (simp add: comm_step_def comm_key_def)

lemma steps_keys: "list_all2 comm_step l m \<Longrightarrow> map comm_key m = map comm_key l"
  by (induction rule: list_all2_induct) (simp_all add: comm_step_key)

text \<open>The two ways in which the table of communities changes: in place, and by a new one.\<close>

lemma grows_in_place:
  assumes "list_all2 comm_step (communities s) (communities t)" "sn_config t = sn_config s" "dynamic_key_time s \<le> dynamic_key_time t"
  shows "grows s t"
  unfolding grows_def comm_keys_def using assms steps_keys [OF assms(1)] by (auto intro: exI [of _ "communities t"])

lemma grows_frame: "sn_frame s t \<Longrightarrow> grows s t"
  using sn_frame_fields(4) [of s t]
  by (intro grows_in_place) (auto simp: sn_frame_def sn_config_def intro: list_all2_mono comm_step_fewer)

lemma grows_upd_comm:
  assumes "c < length (communities s) \<Longrightarrow> comm_step (communities s ! c) (f (communities s ! c))"
  shows "grows s (upd_comm c f s)"
proof -
  have "comm_step (communities s ! i) ((communities s)[c := f (communities s ! c)] ! i)" if "i < length (communities s)" for i
    using that assms by (cases "i = c") simp_all
  then have "list_all2 comm_step (communities s) ((communities s)[c := f (communities s ! c)])"
    by (simp add: list_all2_conv_all_nth)
  then show ?thesis by (intro grows_in_place) (simp_all add: upd_comm_def sn_config_def sn_rest_def)
qed

lemma grows_add:
  assumes "fresh c" "comm_key c \<notin> set (comm_keys s)"
  shows "grows s (s\<lparr>communities := HASH_ADD c (communities s)\<rparr>)"
  unfolding grows_def using assms
  by (intro conjI exI [of _ "communities s"] exI [of _ "[c]"])
    (simp_all add: HASH_ADD_def comm_keys_def sn_config_def sn_rest_def list_all2_refl)

text \<open>The rules of the collection carry the relation along a run: from the state so far to the state that the next operation returns.\<close>

lemma grows_stats [grows_rules]: "grows s t \<Longrightarrow> grows s (t\<lparr>stats := x\<rparr>)"
  by (erule grows_trans) (rule grows_frame, simp)

lemma grows_sendto_sock [grows_rules]: "sendto_sock t fd sa pkt ch pol rt = (n, e, u, rt') \<Longrightarrow> grows s t \<Longrightarrow> grows s u"
  using grows_trans [OF _ grows_frame [OF sendto_sock_cases(1)]] by blast

lemma grows_sendto_peer [grows_rules]: "sendto_peer t p pkt d ch pol rt = (n, e, u, rt') \<Longrightarrow> grows s t \<Longrightarrow> grows s u"
  using grows_trans [OF _ grows_frame [OF sendto_peer_cases(1)]] by blast

lemma grows_send_loop [grows_rules]: "send_loop k c i sel d cmn pkt t rt = Some (u, rt') \<Longrightarrow> grows s t \<Longrightarrow> grows s u"
proof (induction k arbitrary: i t rt)
  case (Suc k)
  obtain n e v rt1 where v: "sendto_peer t (edges (communities t ! c) ! i) pkt d (packet_channel cmn) (packet_policy cmn) rt = (n, e, v, rt1)"
    by (metis prod_cases4)
  have "grows s v" by (rule grows_sendto_peer [OF v Suc.prems(2)])
  then show ?case
    using Suc.prems Suc.IH
    by (auto simp: v Let_def bind_eq_Some_conv intro: grows_stats split: if_splits)
qed simp

lemma grows_broadcast [grows_rules]: "try_broadcast t comm cmn mac from_sn pkt now rt = Some (u, rt') \<Longrightarrow> grows s t \<Longrightarrow> grows s u"
  by (auto simp: try_broadcast_def bind_eq_Some_conv split: if_splits option.splits prod.splits dest!: grows_send_loop)

lemma grows_forward [grows_rules]: "try_forward t c cmn mac from_sn pkt now rt = Some (n, u, rt') \<Longrightarrow> grows s t \<Longrightarrow> grows s u"
  by (auto simp: try_forward_def bind_eq_Some_conv Let_def split: if_splits option.splits prod.splits
      dest!: grows_broadcast grows_sendto_peer grows_sendto_sock intro: grows_stats)

lemma grows_upd [grows_rules]: "grows s t \<Longrightarrow> comm_step (communities t ! c) (f (communities t ! c)) \<Longrightarrow> grows s (upd_comm c f t)"
  by (rule grows_trans [OF _ grows_upd_comm])

lemma grows_upd_edge [grows_rules]: "grows s t \<Longrightarrow> (\<And>p. mac_addr (f p) = mac_addr p) \<Longrightarrow> grows s (upd_edge c i f t)"
  unfolding upd_edge_def by (rule grows_upd) (simp_all add: comm_step_edge)

lemma grows_remove_edge [grows_rules]: "remove_edge c i t rt = (u, rt') \<Longrightarrow> grows s t \<Longrightarrow> grows s u"
  using grows_trans [OF _ grows_frame [OF close_tcp_frame [of t "HASH_FIND tc_fd (socket_fd (edges (communities t ! c) ! i)) (tcp_connections t)" rt]], of s]
    grows_trans [OF _ grows_frame [OF free_edge_frame [of t "(c, i)"]], of s]
  by (auto simp: remove_edge_def Let_def split: if_splits)

lemma grows_add_federated [grows_rules]:
  assumes "add_federated f sock mac skip upd t rt = (p, u, rt')" "grows s t" "is_federation (communities t ! f)"
    "\<And>k p. mac_addr (upd k p) = mac_addr p"
  shows "grows s u"
proof -
  obtain q l k rt1 where a: "add_sn_to_list_by_mac_or_sock (edges (communities t ! f)) sock mac skip rt = (q, l, k, rt1)"
    by (metis prod_cases4)
  define m where "m = (case q of Some i \<Rightarrow> l[i := upd k (l ! i)] | None \<Rightarrow> l)"
  have u: "u = upd_comm f (\<lambda>comm. comm\<lparr>edges := m\<rparr>) t" using assms(1) by (auto simp: add_federated_def a m_def)
  have "known_macs m = known_macs l" using assms(4) by (auto simp: m_def known_macs_update split: option.split)
  then have "sn_list_ok (edges (communities t ! f)) \<longrightarrow> sn_list_ok m"
    using add_sn_list_ok [of "edges (communities t ! f)" sock mac skip rt] by (simp add: a sn_list_ok_def)
  then show ?thesis unfolding u using assms(2,3) by (intro grows_upd comm_step_edges) simp_all
qed

subsection \<open>Maintenance\<close>

lemma edge_loop_keeps:
  assumes "\<And>i t rt e u rt'. body i t rt = Some (e, u, rt') \<Longrightarrow> P t \<Longrightarrow> P u"
  shows "edge_loop k c i body t rt = Some (u, rt') \<Longrightarrow> P t \<Longrightarrow> P u"
  by (induction k arbitrary: i t rt) (auto simp: Let_def bind_eq_Some_conv split: if_splits prod.splits dest: assms)

lemma re_register_loop_frame: "re_register_loop n c t rt = Some (u, rt') \<Longrightarrow> sn_frame s t \<Longrightarrow> sn_frame s u"
proof (induction n arbitrary: c t rt)
  case (Suc n)
  have step: "re_register_edge c i a rt = Some (e, b, rt') \<Longrightarrow> sn_frame s a \<Longrightarrow> sn_frame s b" for i a rt e b rt'
    by (auto simp: re_register_edge_def Let_def elim!: bind_SomeE split: prod.splits dest!: sendto_peer_cases(1) intro: sn_frame_trans)
  have "sn_frame s v" if "edge_loop k c i (re_register_edge c) t rt = Some (v, rt1)" for k i v rt1
    using step by (rule edge_loop_keeps [where P = "sn_frame s", OF _ that Suc.prems(2)])
  then show ?case using Suc.prems Suc.IH by (auto simp: Let_def elim!: bind_SomeE split: if_splits)
qed simp

lemma re_register_frame: "send_re_register_super s rt = Some (t, rt') \<Longrightarrow> sn_frame s t"
  unfolding send_re_register_super_def by (erule re_register_loop_frame) simp

lemma dynamic_keys_grows: "calculate_dynamic_keys (s\<lparr>dynamic_key_time := k\<rparr>) = Some t \<Longrightarrow> dynamic_key_time s \<le> k \<Longrightarrow> grows s t"
  by (intro grows_in_place)
    (auto simp: calculate_dynamic_keys_def bind_eq_Some_conv sn_config_def sn_rest_def list_all2_conv_all_nth comm_step_dynamic_key)

lemma grows_register_with_peer [grows_rules]:
  "register_with_peer c forced now i t rt = Some (e, u, rt') \<Longrightarrow> grows s t \<Longrightarrow> grows s u"
  by (auto simp: register_with_peer_def Let_def split: if_splits prod.splits elim!: bind_SomeE grows_sendto_peer intro!: grows_upd_edge)

lemma comm_step_filter: "comm_step a (a\<lparr>edges := filter P (edges a)\<rparr>)"
  by (rule comm_step_edges) (auto intro: subseq_sn_list_ok [OF subseq_filter_left] subseq_edges_ok [OF subseq_filter_left])

lemma grows_re_register [grows_rules]:
  assumes "re_register_and_purge_supernodes t comm lp now forced tn rt = Some (u, last', rt')" "grows s t"
  shows "grows s u"
proof (cases "(\<not> forced \<and> now - lp < RE_REG_AND_PURGE_FREQUENCY) \<or> comm = None")
  case False
  then obtain c where c: "comm = Some c" by auto
  obtain n es conns last1 rt1 where p: "purge_expired_nodes (edges (communities t ! c)) (sn_sock t) (Some (tcp_connections t)) lp
      RE_REG_AND_PURGE_FREQUENCY LAST_SEEN_SN_INACTIVE tn rt = (n, es, conns, last1, rt1)" by (metis prod_cases5)
  have "edges (communities t ! c) = filter (\<lambda>_. True) (edges (communities t ! c))" by simp
  then obtain P where es: "es = filter P (edges (communities t ! c))"
    using p by (auto simp only: purge_expired_nodes_def purge_peer_list_def prod.inject Let_def dest!: purge_loop_result split: if_splits prod.splits)
  define v where "v = (if forced then t else case conns of
    Some cs \<Rightarrow> (upd_comm c (\<lambda>comm. comm\<lparr>edges := es\<rparr>) t)\<lparr>tcp_connections := cs\<rparr> | None \<Rightarrow> upd_comm c (\<lambda>comm. comm\<lparr>edges := es\<rparr>) t)"
  have "grows s (upd_comm c (\<lambda>comm. comm\<lparr>edges := es\<rparr>) t)"
    by (rule grows_upd [OF assms(2)]) (simp add: es comm_step_filter)
  moreover have "grows x (x\<lparr>tcp_connections := cs\<rparr>)" for x cs
    by (rule grows_frame) (simp add: sn_frame_def sn_rest_def list_all2_refl)
  ultimately have v: "grows s v" using assms(2) by (auto simp: v_def split: option.split intro: grows_trans)
  obtain k rt2 rt3 where "edge_loop k c 0 (register_with_peer c forced now) v rt2 = Some (u, rt3)"
    using assms(1) False by (auto simp: re_register_and_purge_supernodes_def c p v_def Let_def bind_eq_Some_conv split: if_splits)
  from edge_loop_keeps [where P = "grows s", OF _ this v] grows_register_with_peer show ?thesis by blast
qed (use assms in \<open>auto simp: re_register_and_purge_supernodes_def split: if_splits option.splits\<close>)

lemma grows_set_key_time [grows_rules]:
  assumes "set_key_time k now t rt = Some (u, rt')" "grows s t"
  shows "grows s u"
proof (cases "dynamic_key_time t < k")
  case True
  then obtain a rt1 b f l where "send_re_register_super t rt = Some (a, rt1)"
    and k: "calculate_dynamic_keys (a\<lparr>dynamic_key_time := k\<rparr>) = Some b"
    and r: "re_register_and_purge_supernodes b (Some f) 0 now True now rt1 = Some (u, l, rt')"
    using assms(1) by (auto simp: set_key_time_def bind_eq_Some_conv)
  then have a: "sn_frame t a" using re_register_frame by blast
  have "grows a b" using sn_frame_fields(4) [OF a] True by (intro dynamic_keys_grows [OF k]) simp
  then show ?thesis using grows_re_register [OF r] grows_trans [OF assms(2) grows_frame [OF a]] grows_trans by blast
qed (use assms in \<open>auto simp: set_key_time_def\<close>)

subsection \<open>Messages\<close>

lemma grows_nth:
  assumes "grows s t" "c < length (communities s)"
  shows "c < length (communities t)" "comm_step (communities s ! c) (communities t ! c)"
proof -
  obtain l new where l: "communities t = l @ new" "list_all2 comm_step (communities s) l" using assms(1) unfolding grows_def by blast
  then have "length l = length (communities s)" by (auto dest: list_all2_lengthD)
  then show "c < length (communities t)" "comm_step (communities s ! c) (communities t ! c)"
    using l assms(2) by (auto simp: nth_append list_all2_nthD)
qed

lemma federation_is: "federation s = Some f \<Longrightarrow> f < length (communities s) \<and> is_federation (communities s ! f)"
  by (auto simp: federation_def dest: find_index_Some)

lemma grows_stamp_verify [grows_rules]:
  "find_edge_time_stamp_and_verify c sn mac stamp j t rt = Some (ok, u, rt') \<Longrightarrow> grows s t \<Longrightarrow> grows s u"
  by (auto simp: find_edge_time_stamp_and_verify_def Let_def elim!: bind_SomeE split: prod.splits option.splits intro!: grows_upd_edge)

lemma grows_stamp_ok [grows_rules]: "stamp_ok ud c mac j t rt = Some (ok, u, rt') \<Longrightarrow> grows s t \<Longrightarrow> grows s u"
  by (auto simp: stamp_ok_def elim!: bind_SomeE split: if_splits intro: grows_stamp_verify)

lemma grows_stamp_ok_any [grows_rules]: "stamp_ok_any ud mac j t rt = Some (ok, u, rt') \<Longrightarrow> grows s t \<Longrightarrow> grows s u"
  by (auto simp: stamp_ok_any_def split: option.splits intro: grows_stamp_ok)

lemma grows_subnet [grows_rules]: "assign_one_ip_subnet t c = Some (r, u) \<Longrightarrow> grows s t \<Longrightarrow> grows s u"
proof -
  assume a: "assign_one_ip_subnet t c = Some (r, u)" "grows s t"
  then obtain n where "u = upd_comm c (\<lambda>comm. comm\<lparr>auto_ip_net := n\<rparr>) t"
    by (auto simp: assign_one_ip_subnet_def upd_comm_def Let_def elim!: bind_SomeE split: if_splits prod.splits)
  then show "grows s u" using a(2) by (simp add: grows_upd comm_step_auto_ip)
qed

lemma grows_ack_address [grows_rules]: "ack_address c reg t = Some (ip, u) \<Longrightarrow> grows s t \<Longrightarrow> grows s u"
proof -
  assume a: "ack_address c reg t = Some (ip, u)" "grows s t"
  have "comm_step comm comm'" if "assign_one_ip_addr comm desc ip = Some (r, comm', ip')" for comm comm' desc ip r ip'
    using that by (auto simp: assign_one_ip_addr_def Let_def sort_edges_def mset_HASH_SORT elim!: bind_SomeE split: if_splits prod.splits intro!: comm_step_perm)
  then show "grows s u" using a by (auto simp: ack_address_def Let_def elim!: bind_SomeE split: if_splits intro!: grows_upd)
qed

lemma new_community_fresh: "fresh (new_community name)"
  by (simp add: fresh_def new_community_def comm_init_def zero_community_def table_ok_def Let_def)

definition ud_valid :: "udp_locals \<Rightarrow> n2n_sn \<Rightarrow> bool" where
  "ud_valid ud s \<longleftrightarrow> (case ud_comm ud of Some c \<Rightarrow> c < length (communities s)
     | None \<Rightarrow> comm_key (new_community (community (ud_cmn ud))) \<notin> set (comm_keys s))"

lemma admit_cases:
  assumes "admit_community ud t = Some (r, u)"
  obtains (known) c where "ud_comm ud = Some c" "r = Some c" "u = t"
  | (refused) "ud_comm ud = None" "r = None" "u = t"
  | (added) k where "ud_comm ud = None" "r = Some (length (communities t))"
      "assign_one_ip_subnet (t\<lparr>communities := HASH_ADD (new_community (community (ud_cmn ud))) (communities t)\<rparr>) (length (communities t)) = Some (k, u)"
  using assms by (auto simp: admit_community_def Let_def elim!: bind_SomeE split: option.splits if_splits)

lemma subnet_length: "assign_one_ip_subnet t c = Some (r, u) \<Longrightarrow> length (communities u) = length (communities t)"
  by (auto simp: assign_one_ip_subnet_def Let_def elim!: bind_SomeE split: if_splits prod.splits)

lemma admit_grows:
  assumes "admit_community ud t = Some (r, u)" "ud_valid ud t"
  shows "grows t u" and "r = Some c \<Longrightarrow> c < length (communities u)"
proof -
  have "grows t u \<and> (\<forall>c. r = Some c \<longrightarrow> c < length (communities u))"
    using assms(1)
  proof (cases rule: admit_cases)
    case (added k)
    have "grows t (t\<lparr>communities := HASH_ADD (new_community (community (ud_cmn ud))) (communities t)\<rparr>)"
      using added(1) assms(2) by (intro grows_add new_community_fresh) (simp add: ud_valid_def)
    then show ?thesis using grows_subnet [OF added(3)] subnet_length [OF added(3)] added(2) by (simp add: HASH_ADD_def)
  qed (use assms(2) in \<open>auto simp: ud_valid_def\<close>)
  then show "grows t u" and "r = Some c \<Longrightarrow> c < length (communities u)" by blast+
qed

lemma grows_PACKET [grows_rules]: "handle_PACKET ud t rt = Some (r, u, rt') \<Longrightarrow> grows s t \<Longrightarrow> grows s u"
  by (auto simp: handle_PACKET_def Let_def elim!: bind_SomeE grows_forward grows_broadcast grows_stamp_ok
      split: option.splits if_splits prod.splits intro!: grows_stats)

lemma grows_REGISTER [grows_rules]: "handle_REGISTER ud t rt = Some (r, u, rt') \<Longrightarrow> grows s t \<Longrightarrow> grows s u"
  by (auto simp: handle_REGISTER_def Let_def elim!: bind_SomeE grows_forward grows_stamp_ok
      split: option.splits if_splits prod.splits intro!: grows_stats)

lemma grows_nak [grows_rules]: "send_nak ud c reg cmn hash t rt = Some (r, u, rt') \<Longrightarrow> grows s t \<Longrightarrow> grows s u"
  by (auto simp: send_nak_def Let_def elim!: bind_SomeE grows_sendto_sock split: if_splits prod.splits)

lemma grows_ack [grows_rules]: "send_ack ud c ack payload cmn user t rt = Some (r, u, rt') \<Longrightarrow> grows s t \<Longrightarrow> grows s u"
  by (auto simp: send_ack_def Let_def elim!: bind_SomeE grows_sendto_sock split: prod.splits)

lemma grows_forward_registration [grows_rules]: "forward_registration ud c reg cmn user t rt = Some (u, rt') \<Longrightarrow> grows s t \<Longrightarrow> grows s u"
  by (auto simp: forward_registration_def Let_def elim!: bind_SomeE grows_broadcast split: if_splits prod.splits)

lemma grows_elsewhere [grows_rules]: "register_elsewhere ud c reg t rt = (u, rt') \<Longrightarrow> grows s t \<Longrightarrow> grows s u"
  by (auto simp: register_elsewhere_def Let_def elim!: grows_remove_edge split: option.splits intro!: grows_upd comm_step_assoc)

lemma grows_UNREGISTER_SUPER [grows_rules]: "handle_UNREGISTER_SUPER ud t rt = Some (r, u, rt') \<Longrightarrow> grows s t \<Longrightarrow> grows s u"
  by (auto simp: handle_UNREGISTER_SUPER_def Let_def elim!: bind_SomeE grows_remove_edge grows_stamp_ok split: option.splits if_splits prod.splits)

lemma grows_REGISTER_SUPER_NAK [grows_rules]: "handle_REGISTER_SUPER_NAK ud t rt = Some (r, u, rt') \<Longrightarrow> grows s t \<Longrightarrow> grows s u"
  by (auto simp: handle_REGISTER_SUPER_NAK_def Let_def elim!: bind_SomeE grows_remove_edge grows_sendto_peer grows_stamp_ok
      split: option.splits if_splits prod.splits)

lemma grows_PEER_INFO [grows_rules]: "handle_PEER_INFO ud t rt = Some (r, u, rt') \<Longrightarrow> grows s t \<Longrightarrow> grows s u"
  by (auto simp: handle_PEER_INFO_def Let_def elim!: bind_SomeE grows_sendto_peer grows_stamp_ok
      split: option.splits if_splits prod.splits intro!: grows_upd comm_step_assoc)

lemma grows_QUERY_PEER [grows_rules]: "handle_QUERY_PEER pi0 ud t rt = Some (r, u, rt') \<Longrightarrow> grows s t \<Longrightarrow> grows s u"
  by (auto simp: handle_QUERY_PEER_def Let_def elim!: bind_SomeE grows_sendto_sock grows_broadcast grows_stamp_ok_any
      split: option.splits if_splits prod.splits)

lemma step_federation: "comm_step a b \<Longrightarrow> is_federation b = is_federation a"
  by (simp add: comm_step_def)

lemma grows_payload [grows_rules]:
  "add_payload_loop n k f buf now t rt = Some (u, rt') \<Longrightarrow> grows s t \<Longrightarrow> f < length (communities t) \<Longrightarrow> is_federation (communities t ! f) \<Longrightarrow> grows s u"
proof (induction n arbitrary: k t rt)
  case (Suc n)
  obtain x sock y v rt1 where a: "add_federated f sock x SN_ADD (\<lambda>skip p. if skip = SN_ADD_ADDED
        then p\<lparr>socket_fd := sn_sock t, last_seen := now - LAST_SEEN_SN_NEW\<rparr> else p\<lparr>socket_fd := sn_sock t\<rparr>) t rt = (y, v, rt1)"
    and l: "add_payload_loop n (k + 1) f buf now v rt1 = Some (u, rt')"
    using Suc.prems(1) by (auto elim!: bind_SomeE split: prod.splits)
  note v = grows_add_federated [OF a _ Suc.prems(4)]
  have "grows t v" "grows s v" by (rule v; use Suc.prems(2) in simp)+
  then show ?case
    using Suc.IH [OF l] grows_nth [of t v f] Suc.prems step_federation by simp
qed simp

lemma add_federated_is:
  assumes "add_federated f sock mac skip upd t rt = (p, u, rt')" "federation t = Some f"
  shows "f < length (communities u)" "is_federation (communities u ! f)"
  using assms(1) federation_is [OF assms(2)] by (auto simp: add_federated_def upd_comm_def split: prod.splits)

lemma grows_add_supernode [grows_rules]:
  "add_federated f sock mac skip (\<lambda>_ p. p\<lparr>last_seen := now\<rparr>) t rt = (p, u, rt') \<Longrightarrow> federation t = Some f \<Longrightarrow> grows s t \<Longrightarrow> grows s u"
  using grows_add_federated federation_is by fastforce

lemma grows_REGISTER_SUPER_ACK [grows_rules]: "handle_REGISTER_SUPER_ACK ud t rt = Some (r, u, rt') \<Longrightarrow> grows s t \<Longrightarrow> grows s u"
  by (auto simp: handle_REGISTER_SUPER_ACK_def Let_def elim!: bind_SomeE grows_set_key_time grows_payload grows_add_supernode grows_stamp_ok
      split: option.splits if_splits prod.splits) (erule (1) add_federated_is)+

lemma grows_update_edge [grows_rules]:
  assumes "update_edge x cmn reg (communities t ! c) sk fd ans skip now rt = Some (ret, comm, ans', rt')" "grows s t" "\<not> is_federation (communities t ! c)"
  shows "grows s (upd_comm c (\<lambda>_. comm) t)"
  using comm_step_update_edge [OF assms(1,3)] by (intro grows_upd assms(2))

lemma grows_register_super [grows_rules]:
  assumes "register_super ud c reg user hash t rt = Some (r, u, rt')" "grows s t" "c < length (communities t)"
  shows "grows s u"
proof -
  obtain ip t1 where ip: "ack_address c reg t = Some (ip, t1)" using assms(1) by (auto simp: register_super_def Let_def elim!: bind_SomeE)
  have t1: "grows t t1" using grows_ack_address [OF ip] by blast
  have fed: "is_federation (communities t1 ! c) = is_federation (communities t ! c)"
    using grows_nth(2) [OF t1 assms(3)] step_federation by blast
  define fed where "fed = is_federation (communities t ! c)"
  obtain q t2 rt2 where ad: "(if fed then add_federated c (ud_sender ud) (rs_edgeMac reg) SN_ADD (\<lambda>_ p. p\<lparr>last_seen := ud_now ud, socket_fd := sn_sock t1\<rparr>) t1 rt
      else (None, t1, rt)) = (q, t2, rt2)" by (metis prod_cases3)
  have t2: "grows s t2" using ad fed grows_trans [OF assms(2) t1] grows_add_federated [of c _ _ _ _ t1 rt q t2 rt2 s]
    by (auto simp: fed_def split: if_splits)
  have fed2: "is_federation (communities t2 ! c) = fed"
    using ad fed assms(3) grows_nth(1) [OF t1 assms(3)]
    by (auto simp: fed_def add_federated_def upd_comm_def split: if_splits prod.splits)
  have same: "grows s (upd_comm c (\<lambda>_. communities t2 ! c) t2)" by (rule grows_upd [OF t2]) simp
  have reg: "grows s (upd_comm c (\<lambda>_. comm) t2)"
    if "update_edge t2 cmn reg (communities t2 ! c) sk fd zero_auth skip now rt = Some (ret, comm, auth, rt')" "\<not> fed"
      for cmn sk fd skip now rt ret comm auth rt'
    using that t2 fed2 grows_update_edge by blast
  show ?thesis
    using assms(1) unfolding register_super_def ip Let_def fed_def [symmetric] Option.bind.simps split_conv ad
    by (auto elim!: bind_SomeE grows_nak grows_ack grows_set_key_time grows_forward_registration grows_elsewhere
        split: if_splits prod.splits intro: same reg)
qed

lemma ud_valid_stats: "ud_valid ud (s\<lparr>stats := x\<rparr>) = ud_valid ud s"
  by (simp add: ud_valid_def comm_keys_def split: option.split)

lemma ud_valid_stamp: "stamp_ok_any ud mac j s rt = Some (ok, t, rt') \<Longrightarrow> ud_valid ud s \<Longrightarrow> ud_valid ud t"
  using grows_stamp_ok_any [of ud mac j s rt ok t rt' s] grows_nth(1) [of s t]
  by (auto simp: ud_valid_def stamp_ok_any_def split: option.splits)

lemma grows_REGISTER_SUPER:
  assumes "handle_REGISTER_SUPER ud s rt = Some (r, u, rt')" "ud_valid ud s"
  shows "grows s u"
proof -
  define s1 where "s1 = s\<lparr>stats := (stats s)\<lparr>st_last_reg_super := ud_now ud, st_reg_super := st_reg_super (stats s) + 1\<rparr>\<rparr>"
  have s1: "grows s s1" "ud_valid ud s1" using assms(2) by (auto simp: s1_def ud_valid_stats intro!: grows_stats)
  obtain mac reg ok s2 rt2 where st: "stamp_ok_any ud mac False s1 rt = Some (ok, s2, rt2)"
    and rest: "u = s2 \<or> (\<exists>x. admit_community ud s2 = Some (x, u)) \<or>
      (\<exists>c s3 user hash. admit_community ud s2 = Some (Some c, s3) \<and> register_super ud c reg user hash s3 rt2 = Some (r, u, rt'))"
    using assms(1) unfolding handle_REGISTER_SUPER_def Let_def s1_def [symmetric]
    by (auto elim!: bind_SomeE split: if_splits option.splits prod.splits) blast+
  have s2: "grows s s2" "ud_valid ud s2" using grows_stamp_ok_any [OF st s1(1)] ud_valid_stamp [OF st s1(2)] .
  from rest have "grows s2 u"
    using admit_grows [OF _ s2(2)] grows_register_super by blast
  then show ?thesis using grows_trans s2(1) by blast
qed

lemma grows_dispatch: "dispatch pi0 ud s rt = Some (r, t, rt') \<Longrightarrow> ud_valid ud s \<Longrightarrow> grows s t"
  by (auto simp: dispatch_def Let_def split: if_splits elim: grows_REGISTER_SUPER grows_PACKET [OF _ grows_refl] grows_REGISTER [OF _ grows_refl]
      grows_UNREGISTER_SUPER [OF _ grows_refl] grows_REGISTER_SUPER_ACK [OF _ grows_refl] grows_REGISTER_SUPER_NAK [OF _ grows_refl]
      grows_QUERY_PEER [OF _ grows_refl] grows_PEER_INFO [OF _ grows_refl])

subsection \<open>Datagrams\<close>

lemma decrypt_loop_index: "decrypt_loop n i l buf hash stamp = Some (Some (c, enc, st), buf', hash') \<Longrightarrow> i \<le> c \<and> c < i + length l"
proof (induction l arbitrary: i buf hash stamp)
  case (Cons comm l)
  have "i \<le> c \<and> c < i + length (comm # l)" if "decrypt_loop n (i + 1) l b h z = Some (Some (c, enc, st), buf', hash')" for b h z
    using Cons.IH [OF that] by simp
  then show ?case using Cons.prems by (auto simp: Let_def elim!: bind_SomeE split: if_splits)
qed simp

lemma lock_plain_grows: "\<not> encrypted (communities s ! c) \<Longrightarrow> grows s (lock_plain c s)"
  unfolding lock_plain_def by (rule grows_upd_comm) (auto simp: comm_step_def he_ok_def table_ok_def)

lemma lock_encrypted_grows: "grows s (lock_encrypted c s)"
  unfolding lock_encrypted_def by (rule grows_upd_comm) (auto simp: comm_step_def he_ok_def table_ok_def static_keys_def)

text \<open>A datagram that is not dropped belongs to a community of the table, or to none that is in the table.\<close>

lemma recognize_cases:
  assumes "recognize buf n s = Some (found, t)"
  shows "grows s t" and "found = Some (Some c, rest) \<Longrightarrow> c < length (communities s)"
    and "found = Some (None, enc, st, buf', hash) \<Longrightarrow> t = s \<and> buf' = buf \<and> plain_header buf \<and>
      HASH_FIND_COMMUNITY (communities s) (take N2N_COMMUNITY_SIZE (drop 4 buf)) = None"
proof -
  have idx: "c < length (communities s)" if "decrypt_loop n 0 (communities s) buf h z = Some (Some (c, e, st), b, h')" for c h z e st b h'
    using decrypt_loop_index [OF that] by simp
  show "grows s t"
    using assms by (auto simp: recognize_def lock_plain_grows lock_encrypted_grows elim!: bind_SomeE split: if_splits option.splits prod.splits)
  show "c < length (communities s)" if "found = Some (Some c, rest)"
    using assms that by (auto simp: recognize_def HASH_FIND_COMMUNITY_def dest: hash.hfind_Some elim!: bind_SomeE split: if_splits option.splits prod.splits
        dest!: idx)
  show "t = s \<and> buf' = buf \<and> plain_header buf \<and> HASH_FIND_COMMUNITY (communities s) (take N2N_COMMUNITY_SIZE (drop 4 buf)) = None"
    if "found = Some (None, enc, st, buf', hash)"
    using assms that by (auto simp: recognize_def elim!: bind_SomeE split: if_splits option.splits prod.splits)
qed

lemma cstr_take:
  assumes "length name = N2N_COMMUNITY_SIZE" "name ! 19 = 0"
  shows "length (cstr name) < N2N_COMMUNITY_SIZE" and "comm_key (new_community name) = cstr name"
proof -
  have z: "0 \<notin> set (cstr name)" by (auto simp: cstr_def dest: set_takeWhileD)
  have "cstr name = takeWhile (\<lambda>b. b \<noteq> 0) (take 19 name @ name ! 19 # drop 20 name)"
    unfolding cstr_def using assms(1) id_take_nth_drop [of 19 name] by simp
  also have "\<dots> = takeWhile (\<lambda>b. b \<noteq> 0) (take 19 name)" using assms(2) by (simp add: takeWhile_tail)
  finally show len: "length (cstr name) < N2N_COMMUNITY_SIZE"
    using length_takeWhile_le [of "\<lambda>b. b \<noteq> 0" "take 19 name"] assms(1) by simp
  define m where "m = 20 - length (cstr name)"
  have m: "take N2N_COMMUNITY_SIZE (cstr name @ replicate N2N_COMMUNITY_SIZE 0) = cstr name @ replicate m 0"
    using len by (simp add: m_def)
  have "(cstr name @ replicate m 0)[19 := 0] = cstr name @ replicate m 0"
    using len by (intro list_update_same_conv [THEN iffD2]) (auto simp: nth_append m_def)
  then have "comm_name (new_community name) = cstr name @ replicate m 0"
    by (simp only: new_community_def comm_init_def Let_def m sn_community.simps sn_community.update_convs) (simp add: m)
  then show "comm_key (new_community name) = cstr name"
    using z by (auto simp: comm_key_def cstr_def takeWhile_append takeWhile_eq_all_conv)
qed

lemma decode_common_fields:
  assumes "decode_common buf zero_common (n, 0) = Some (r, cmn, pos)" "24 \<le> n" "\<not> r < 0"
  shows "community cmn = take N2N_COMMUNITY_SIZE (drop 4 buf)" and "24 \<le> length buf"
  using assms by (auto simp: decode_common_def decode_uint8_def decode_uint16_def decode_buf_def zero_common_def Let_def wr_def overlay_def rd_Some_iff
      elim!: bind_SomeE split: if_splits) (simp add: numeral_eq_Suc)

lemma HASH_FIND_COMMUNITY_None: "HASH_FIND_COMMUNITY (communities s) name = None \<longleftrightarrow> cstr name \<notin> set (comm_keys s)"
  by (simp add: HASH_FIND_COMMUNITY_def comm_keys_def hash.hfind_None)

text \<open>Looking up a supernode by its socket changes nothing.\<close>

lemma add_federated_lookup:
  "add_federated f sk null_mac SN_ADD_SKIP (\<lambda>_ p. p) t rt = (find_index (\<lambda>scan. peer_sock scan = sk) (edges (communities t ! f)), t, rt)"
  by (auto simp: add_federated_def add_sn_to_list_by_mac_or_sock_def is_null_mac_def upd_comm_def Let_def split: option.splits)

text \<open>Whatever datagram arrives, the state develops as described.\<close>

lemma process_udp_grows:
  assumes "process_udp pi0 s sa len fd buf n now rt = Some (r, u, rt')"
  shows "grows s u"
proof (cases "n < 24")
  case False
  obtain found t where f: "recognize buf n s = Some (found, t)" using assms False by (auto simp: process_udp_def Let_def elim!: bind_SomeE)
  note rec = recognize_cases [OF f]
  show ?thesis
  proof (cases found)
    case (Some x)
    obtain c enc st buf' hash where x: "x = (c, enc, st, buf', hash)" by (metis prod_cases5)
    obtain q cmn pos where d: "decode_common buf' zero_common (n, 0) = Some (q, cmn, pos)"
      using assms False f Some x by (auto simp: process_udp_def Let_def elim!: bind_SomeE)
    have valid: "ud_valid ud t" if "ud_comm ud = c" "community (ud_cmn ud) = community cmn" "\<not> q < 0" for ud
    proof (cases c)
      case None
      have b: "t = s" "buf' = buf" "plain_header buf" "cstr (take N2N_COMMUNITY_SIZE (drop 4 buf)) \<notin> set (comm_keys s)"
        using rec(3) Some x None by (auto simp: HASH_FIND_COMMUNITY_None)
      note dc = decode_common_fields [OF d _ that(3)]
      have "comm_key (new_community (community cmn)) = cstr (community cmn)"
        by (rule cstr_take(2)) (use dc b False in \<open>simp_all add: plain_header_def\<close>)
      then show ?thesis using that dc b False None by (simp add: ud_valid_def)
    next
      case (Some i)
      then have "i < length (communities s)" using rec(2) \<open>found = Some x\<close> x by simp
      then show ?thesis using that Some grows_nth(1) [OF rec(1)] by (simp add: ud_valid_def)
    qed
    show ?thesis
      using assms False f Some x d rec(1) grows_trans [OF rec(1) grows_dispatch [OF _ valid]]
      by (auto simp: process_udp_def Let_def add_federated_lookup elim!: bind_SomeE split: if_splits prod.splits)
  qed (use assms False f rec(1) in \<open>auto simp: process_udp_def\<close>)
qed (use assms in \<open>auto simp: process_udp_def\<close>)

end
