(* ===== verification/Sn_Reachable.thy ===== *)
theory Sn_Reachable
  imports Sn_Invariant
begin

text \<open>
  The reachable states of the supernode: datagrams, purging, sorting and the registration with other supernodes in any order, and
  the invariants that hold in all of them.
\<close>

subsection \<open>Steps\<close>

text \<open>What the main loop \<open>run_sn_loop\<close> of \<^verbatim>\<open>src/sn_utils.c\<close> does to the state, for every datagram, every time and every behaviour of the environment.\<close>

inductive sn_step :: "n2n_sn \<Rightarrow> n2n_sn \<Rightarrow> bool" where
  datagram: "process_udp pi0 s sa len fd buf n now rt = Some (r, t, rt') \<Longrightarrow> sn_step s t"
| purge: "purge_expired_communities s last_purge now rt = (t, last_purge', rt') \<Longrightarrow> sn_step s t"
| sort: "sort_communities s last_sort now = (t, last_sort') \<Longrightarrow> sn_step s t"
| reregister: "re_register_and_purge_supernodes s (federation s) last_purge now False time_now rt = Some (t, last_purge', rt') \<Longrightarrow> sn_step s t"
| close: "close_tcp_connection s conn rt = (freed, t, rt') \<Longrightarrow> sn_step s t"
| connections: "sn_step s (s\<lparr>tcp_connections := conns\<rparr>)"
| sessions: "sn_step s (set_kcp_table channel sessions s)"

inductive_cases sn_stepE: "sn_step s t"

abbreviation sn_reaches :: "n2n_sn \<Rightarrow> n2n_sn \<Rightarrow> bool" where
  "sn_reaches \<equiv> sn_step\<^sup>*\<^sup>*"

text \<open>The three ways in which steps change the table of communities.\<close>

definition after_purge :: "int \<Rightarrow> n2n_tcp_connection list \<Rightarrow> n2n_sn \<Rightarrow> n2n_sn" where
  "after_purge now conns s = s\<lparr>communities := filter (\<lambda>comm. \<not> idle comm) (map (purged now) (communities s)), tcp_connections := conns\<rparr>"

definition reset_count :: "sn_community \<Rightarrow> sn_community" where
  "reset_count comm = comm\<lparr>number_enc_packets := 0\<rparr>"

definition after_sort :: "sn_community list \<Rightarrow> n2n_sn \<Rightarrow> n2n_sn" where
  "after_sort l s = s\<lparr>communities := map reset_count l\<rparr>"

lemma purge_expired_communities_result:
  "fst (purge_expired_communities s lp now rt) = s \<or> (\<exists>conns. fst (purge_expired_communities s lp now rt) = after_purge now conns s)"
proof -
  obtain cs conns rt' where l: "purge_communities_loop (sn_sock s) now (communities s) (tcp_connections s) rt = (cs, conns, rt')"
    by (metis prod_cases3)
  then show ?thesis
    using purge_communities_loop_eq [of "sn_sock s" now "communities s" "tcp_connections s" rt]
    by (auto simp: purge_expired_communities_def after_purge_def)
qed

lemma sort_communities_result:
  "fst (sort_communities s ls now) = s \<or> (\<exists>l. mset l = mset (communities s) \<and> fst (sort_communities s ls now) = after_sort l s)"
  using mset_HASH_SORT [of number_enc_packets_sort "communities s"]
  by (auto simp: sort_communities_def after_sort_def reset_count_def [abs_def])

lemma sn_step_cases:
  assumes "sn_step s t"
  obtains "grows s t" | now conns where "t = after_purge now conns s" | l where "mset l = mset (communities s)" "t = after_sort l s"
  using assms
proof cases
  case (purge lp now rt lp' rt')
  then show thesis using purge_expired_communities_result [of s lp now rt] that by auto
next
  case (sort ls now ls')
  then show thesis using sort_communities_result [of s ls now] that by auto
next
  case datagram
  then show thesis using process_udp_grows that(1) by blast
next
  case (close conn rt)
  then show thesis using grows_frame [OF close_tcp_frame [of s conn rt]] that(1) by simp
next
  case (connections conns)
  then have "grows s t" by (auto intro!: grows_in_place simp: sn_config_def sn_rest_def list.rel_refl)
  then show thesis by (rule that(1))
next
  case (sessions ch l)
  then have "grows s t" by (cases ch) (auto intro!: grows_in_place simp: sn_config_def sn_rest_def list.rel_refl)
  then show thesis by (rule that(1))
next
  case reregister
  then show thesis using grows_re_register [OF _ grows_refl] that(1) by blast
qed

subsection \<open>Invariants\<close>

text \<open>A property that survives each of the three kinds of changes holds in every reachable state.\<close>

locale sn_invariant =
  fixes I :: "n2n_sn \<Rightarrow> bool"
  assumes grows: "I s \<Longrightarrow> grows s t \<Longrightarrow> I t"
    and purge: "I s \<Longrightarrow> I (after_purge now conns s)"
    and sort: "I s \<Longrightarrow> mset l = mset (communities s) \<Longrightarrow> I (after_sort l s)"
begin

lemma step: "sn_step s t \<Longrightarrow> I s \<Longrightarrow> I t"
  by (erule sn_step_cases) (auto intro: grows purge sort)

lemma reachable: "sn_reaches s t \<Longrightarrow> I s \<Longrightarrow> I t"
  by (induction rule: rtranclp_induct) (auto intro: step)

end

text \<open>Well-formed states.\<close>

definition comm_ok :: "sn_community \<Rightarrow> bool" where
  "comm_ok c \<longleftrightarrow> he_ok c \<and> table_ok c \<and> distinct (map assoc_mac (assoc c)) \<and> (is_federation c \<or> allowed_users c \<noteq> [] \<longrightarrow> encrypted c)"

definition sn_ok :: "n2n_sn \<Rightarrow> bool" where
  "sn_ok s \<longleftrightarrow> distinct (comm_keys s) \<and> length (filter is_federation (communities s)) = 1 \<and> (\<forall>c \<in> set (communities s). comm_ok c)"

lemma comm_step_ok: "comm_step a b \<Longrightarrow> comm_ok a \<Longrightarrow> comm_ok b"
  by (auto simp: comm_step_def comm_ok_def encrypted_def)

lemma fresh_ok: "fresh c \<Longrightarrow> comm_ok c"
  by (auto simp: fresh_def comm_ok_def he_ok_def)

lemma steps_federations: "list_all2 comm_step l m \<Longrightarrow> length (filter is_federation m) = length (filter is_federation l)"
  by (induction rule: list_all2_induct) (simp_all add: step_federation)

lemma sn_ok_grows:
  assumes "sn_ok s" "grows s t"
  shows "sn_ok t"
proof -
  obtain l new where l: "communities t = l @ new" "list_all2 comm_step (communities s) l" "\<forall>c \<in> set new. fresh c"
    and d: "distinct (comm_keys t)" using assms unfolding grows_def sn_ok_def by blast
  have "comm_ok c" if "c \<in> set l" for c
    using that l(2) assms(1) comm_step_ok by (auto simp: sn_ok_def list_all2_conv_all_nth in_set_conv_nth) (metis nth_mem)
  moreover have "filter is_federation new = []" using l(3) by (auto simp: filter_empty_conv fresh_def)
  ultimately show ?thesis
    using assms(1) d l steps_federations [OF l(2)] fresh_ok by (auto simp: sn_ok_def)
qed

lemma purged_simps [simp]:
  "comm_name (purged now c) = comm_name c" "is_federation (purged now c) = is_federation c" "allowed_users (purged now c) = allowed_users c"
  "comm_header_encryption (purged now c) = comm_header_encryption c" "comm_he (purged now c) = comm_he c" "comm_purgeable (purged now c) = comm_purgeable c"
  "comm_key (purged now c) = comm_key c" "encrypted (purged now c) = encrypted c" "static_keys (purged now c) = static_keys c"
  by (simp_all add: purged_def comm_key_def encrypted_def static_keys_def)

lemma purged_ok: "comm_ok c \<Longrightarrow> comm_ok (purged now c)"
proof -
  assume c: "comm_ok c"
  have "distinct (map assoc_mac (dropWhile P (assoc c)))" for P
    using c unfolding comm_ok_def dropWhile_eq_drop drop_map [symmetric] by (intro distinct_drop) simp
  then show ?thesis using c comm_step_filter [of c "live_edge now"]
    by (auto simp: comm_ok_def he_ok_def table_ok_def purged_def encrypted_def comm_step_def)
qed

lemma reset_count_simps [simp]:
  "comm_key (reset_count c) = comm_key c" "is_federation (reset_count c) = is_federation c" "comm_ok (reset_count c) = comm_ok c"
  "encrypted (reset_count c) = encrypted c" "comm_purgeable (reset_count c) = comm_purgeable c" "static_keys (reset_count c) = static_keys c"
  "allowed_users (reset_count c) = allowed_users c"
  by (simp_all add: reset_count_def comm_key_def comm_ok_def he_ok_def table_ok_def encrypted_def static_keys_def)

lemma sn_ok_purge: "sn_ok s \<Longrightarrow> sn_ok (after_purge now conns s)"
proof -
  assume s: "sn_ok s"
  have "distinct (map comm_key (filter P (map (purged now) (communities s))))" for P
    using s by (auto simp: sn_ok_def comm_keys_def comp_def intro!: distinct_map_filter)
  moreover have "filter is_federation (filter (\<lambda>c. \<not> idle c) (map (purged now) (communities s))) = map (purged now) (filter is_federation (communities s))"
    by (auto simp: filter_map comp_def idle_def filter_filter intro!: arg_cong [of _ _ "map (purged now)"] filter_cong)
  ultimately show ?thesis using s purged_ok by (auto simp: sn_ok_def after_purge_def comm_keys_def)
qed

lemma sn_ok_sort: "sn_ok s \<Longrightarrow> mset l = mset (communities s) \<Longrightarrow> sn_ok (after_sort l s)"
proof -
  assume s: "sn_ok s" and l: "mset l = mset (communities s)"
  have "mset (map comm_key l) = mset (comm_keys s)" using l by (simp add: comm_keys_def)
  then have "distinct (map comm_key l)" using s by (metis mset_eq_imp_distinct_iff sn_ok_def)
  moreover have "mset (filter is_federation l) = mset (filter is_federation (communities s))" using l by simp
  then have "length (filter is_federation l) = 1" using s by (metis size_mset sn_ok_def)
  moreover have "set l = set (communities s)" using l by (metis set_mset_mset)
  ultimately show ?thesis using s by (simp add: sn_ok_def after_sort_def comm_keys_def comp_def filter_map)
qed

interpretation ok: sn_invariant sn_ok
  by unfold_locales (fact sn_ok_grows sn_ok_purge sn_ok_sort)+

text \<open>A community with encrypted headers that is not purgeable keeps its name, its users and its static keys.\<close>

definition locked :: "bytes \<Rightarrow> (speck_context \<times> speck_context) option \<Rightarrow> sn_user list \<Rightarrow> n2n_sn \<Rightarrow> bool" where
  "locked name keys users s \<longleftrightarrow> (\<exists>c \<in> set (communities s). comm_key c = name \<and> encrypted c \<and> \<not> comm_purgeable c
     \<and> static_keys c = keys \<and> allowed_users c = users)"

lemma locked_grows: "locked name keys users s \<Longrightarrow> grows s t \<Longrightarrow> locked name keys users t"
proof -
  assume "locked name keys users s" and g: "grows s t"
  then obtain i where i: "i < length (communities s)" "comm_key (communities s ! i) = name" "encrypted (communities s ! i)"
      "\<not> comm_purgeable (communities s ! i)" "static_keys (communities s ! i) = keys" "allowed_users (communities s ! i) = users"
    unfolding locked_def by (metis in_set_conv_nth)
  note t = grows_nth [OF g i(1)]
  show "locked name keys users t"
    unfolding locked_def using t i by (intro bexI [of _ "communities t ! i"]) (auto simp: comm_step_def comm_key_def encrypted_def)
qed

interpretation lock: sn_invariant "locked name keys users" for name keys users
proof unfold_locales
  show "locked name keys users (after_purge now conns s)" if "locked name keys users s" for s now conns
    using that by (auto simp: locked_def after_purge_def idle_def)
  show "locked name keys users (after_sort l s)" if "locked name keys users s" "mset l = mset (communities s)" for s l
    using that by (auto simp: locked_def after_sort_def dest: mset_eq_setD)
qed (fact locked_grows)

interpretation config: sn_invariant "\<lambda>s. sn_config s = cfg \<and> k \<le> dynamic_key_time s" for cfg k
  by unfold_locales (auto simp: grows_def after_purge_def after_sort_def sn_config_def sn_rest_def)

subsection \<open>Properties\<close>

text \<open>A supernode with its federation and one community with encrypted headers, for concrete runs.\<close>

definition test_keys :: he_contexts where
  "test_keys = (let k = \<lparr>speck_key = replicate 34 7, speck_keysize = 256\<rparr> in \<lparr>he_static = k, he_dynamic = k, he_iv_static = k, he_iv_dynamic = k\<rparr>)"

definition test_fed :: sn_community where
  "test_fed = zero_community\<lparr>comm_name := 42 # 70 # replicate 18 0, is_federation := True, comm_header_encryption := HEADER_ENCRYPTION_ENABLED, comm_he := Some test_keys\<rparr>"

definition test_enc :: sn_community where
  "test_enc = zero_community\<lparr>comm_name := 99 # 49 # replicate 18 0, comm_header_encryption := HEADER_ENCRYPTION_ENABLED, comm_he := Some test_keys, number_enc_packets := 9\<rparr>"

definition enc_sn :: n2n_sn where
  "enc_sn = bare_sn\<lparr>communities := [test_fed, test_enc]\<rparr>"

lemma enc_sn_comms: "communities enc_sn = [test_fed, test_enc]"
  by (simp add: enc_sn_def)

lemma test_comm_simps [simp]:
  "comm_key test_fed = [42, 70]" "comm_key test_enc = [99, 49]" "encrypted test_enc" "encrypted test_fed" "is_federation test_fed" "\<not> is_federation test_enc"
  "\<not> comm_purgeable test_enc" "comm_ok test_fed" "comm_ok test_enc" "allowed_users test_enc = []"
  "number_enc_packets test_fed = 0" "number_enc_packets test_enc = 9"
  by (simp_all add: comm_key_def cstr_def test_fed_def test_enc_def encrypted_def comm_ok_def he_ok_def table_ok_def sn_list_ok_def zero_community_def)

lemma enc_sn_ok: "sn_ok enc_sn"
  by (simp add: sn_ok_def enc_sn_comms comm_keys_def)

lemma enc_sn_sorts: "\<exists>t. sn_step enc_sn t \<and> communities t = [reset_count test_enc, reset_count test_fed]"
proof -
  have "HASH_SORT number_enc_packets_sort [test_fed, test_enc] = sort_key (\<lambda>c. - number_enc_packets c) [test_fed, test_enc]"
    by (rule HASH_SORT_by_rank) (auto simp: number_enc_packets_sort_def to_int32_def)
  then have "communities (fst (sort_communities enc_sn 0 100)) = [reset_count test_enc, reset_count test_fed]"
    by (simp add: sort_communities_def enc_sn_comms reset_count_def)
  then show ?thesis by (metis sn_step.sort prod.collapse)
qed

text \<open>
  C37. In every state that the supernode reaches, by whatever datagrams and whatever order of its maintenance, the names of the communities
  are distinct, exactly one of them is the federation, every community has the keys that its header encryption needs, and its tables hold
  no hardware address twice.
\<close>

theorem reachable_sn_ok:
  assumes "sn_ok s" and "sn_reaches s t"
  shows "sn_ok t"
  using ok.reachable [OF assms(2,1)] .

theorem reachable_sn_ok_witness: "\<exists>t. sn_reaches enc_sn t \<and> communities t = [reset_count test_enc, reset_count test_fed] \<and> sn_ok t"
  using enc_sn_sorts reachable_sn_ok [OF enc_sn_ok] by (meson r_into_rtranclp)



text \<open>
  The time of the dynamic keys never goes back, and the configuration of the supernode (its address, its socket, its rules, its lock on
  communities and its ranges of addresses) never changes.
\<close>

theorem key_time_monotone:
  assumes "sn_reaches s t"
  shows "dynamic_key_time s \<le> dynamic_key_time t \<and> sn_config t = sn_config s"
  using config.reachable [OF assms, of "sn_config s" "dynamic_key_time s"] by simp

theorem key_time_monotone_witness:
  "\<exists>t. sn_reaches enc_sn t \<and> communities t = [reset_count test_enc, reset_count test_fed] \<and> dynamic_key_time enc_sn \<le> dynamic_key_time t \<and> sn_config t = sn_config enc_sn"
  using enc_sn_sorts key_time_monotone by (meson r_into_rtranclp)

end
