(* ===== verification/Registry.thy ===== *)
theory Registry
  imports Sn_Reachable
begin

text \<open>
  The table of edges of a community as what it promises, a finite map from hardware addresses to edges, and the refinement of
  the map's operations by those of \<^verbatim>\<open>src/sn_utils.c\<close> on the table.
\<close>

subsection \<open>The abstract registry\<close>

type_synonym registry = "bytes \<rightharpoonup> peer_info"

text \<open>
  Registering replaces the entry of the address. An edge that comes back under a new address with the tap address of a registered edge also
  takes the place of one such edge.
\<close>

definition abs_register :: "bytes \<Rightarrow> u32 \<Rightarrow> peer_info \<Rightarrow> registry \<Rightarrow> registry \<Rightarrow> bool" where
  "abs_register mac tap p m m' \<longleftrightarrow>
     (if mac \<in> dom m \<or> (\<forall>q \<in> ran m. net_addr (dev_addr q) \<noteq> tap) then m' = m(mac \<mapsto> p)
      else \<exists>old q. m old = Some q \<and> net_addr (dev_addr q) = tap \<and> m' = m(old := None, mac \<mapsto> p))"

definition abs_unregister :: "bytes \<Rightarrow> registry \<Rightarrow> registry" where
  "abs_unregister mac m = m(mac := None)"

definition abs_purge :: "int \<Rightarrow> registry \<Rightarrow> registry" where
  "abs_purge now m = (\<lambda>mac. case m mac of Some p \<Rightarrow> if live_edge now p then Some p else None | None \<Rightarrow> None)"

subsection \<open>The table implements it\<close>

definition registry :: "peer_info list \<Rightarrow> registry" where
  "registry l mac = map_option ((!) l) (HASH_FIND_PEER l mac)"

lemma registry_entry: "registry l mac = hash.entry mac_addr mac l"
  by (simp add: registry_def hash.entry_def)

lemma registry_Some: "edges_ok l \<Longrightarrow> registry l mac = Some p \<longleftrightarrow> p \<in> set l \<and> mac_addr p = mac"
  by (simp add: registry_entry hash.entry_Some)

lemma registry_dom: "mac \<in> dom (registry l) \<longleftrightarrow> mac \<in> mac_addr ` set l"
  using hash.entry_None [of mac_addr mac l] by (auto simp: registry_entry dom_def)

lemma registry_ran: "edges_ok l \<Longrightarrow> ran (registry l) = set l"
  by (auto simp: ran_def registry_Some)

lemma registry_eqI:
  assumes "edges_ok l" "\<And>mac p. p \<in> set l \<and> mac_addr p = mac \<longleftrightarrow> m mac = Some p"
  shows "registry l = m"
  by (rule ext) (metis assms registry_Some option.exhaust)

lemma registry_add: "edges_ok l \<Longrightarrow> mac_addr p \<notin> mac_addr ` set l \<Longrightarrow> registry (HASH_ADD p l) = (registry l)(mac_addr p \<mapsto> p)"
  by (rule ext) (simp add: registry_entry hash.entry_hadd)

lemma registry_del: "edges_ok l \<Longrightarrow> i < length l \<Longrightarrow> registry (HASH_DEL i l) = (registry l)(mac_addr (l ! i) := None)"
  by (rule ext) (simp add: registry_entry hash.entry_hdel)

lemma registry_filter: "edges_ok l \<Longrightarrow> registry (filter P l) = (\<lambda>mac. case registry l mac of Some p \<Rightarrow> if P p then Some p else None | None \<Rightarrow> None)"
proof (rule registry_eqI)
  assume l: "edges_ok l"
  show "edges_ok (filter P l)" using l by (rule distinct_map_filter)
  have iff: "p \<in> set l \<and> mac_addr p = mac \<longleftrightarrow> registry l mac = Some p" for p mac by (simp only: registry_Some [OF l])
  show "p \<in> set (filter P l) \<and> mac_addr p = mac \<longleftrightarrow> (case registry l mac of Some p \<Rightarrow> if P p then Some p else None | None \<Rightarrow> None) = Some p" for mac p
    using iff [of p mac] by (cases "registry l mac") (auto split: if_splits)
qed

lemma registry_update:
  assumes "edges_ok l" "i < length l" "mac_addr p = mac_addr (l ! i)"
  shows "registry (l[i := p]) = (registry l)(mac_addr p \<mapsto> p)"
proof (rule registry_eqI)
  show "edges_ok (l[i := p])" using assms by simp
  have "distinct l" using assms(1) by (simp add: distinct_map)
  have inj: "q = l ! i" if "q \<in> set l" "mac_addr q = mac_addr (l ! i)" for q
    using that assms(1,2) by (auto simp: distinct_map inj_on_def)
  have "set (l[i := p]) = insert p (set l - {l ! i})" using \<open>distinct l\<close> assms(2) by (rule set_update_distinct)
  then show "q \<in> set (l[i := p]) \<and> mac_addr q = mac \<longleftrightarrow> ((registry l)(mac_addr p \<mapsto> p)) mac = Some q" for mac q
    using inj assms(3) by (auto simp: registry_Some [OF assms(1)])
qed

lemma lookup_edge_registry:
  assumes "edges_ok l" "mac = rs_edgeMac reg" "tap = net_addr (rs_dev_addr reg)"
    "i < length (snd (lookup_edge reg l))" "mac_addr p = mac" "mac_addr (snd (lookup_edge reg l) ! i) = mac"
  shows "abs_register mac tap p (registry l) (registry ((snd (lookup_edge reg l))[i := p]))"
proof -
  let ?m = "snd (lookup_edge reg l)"
  have r: "registry (?m[i := p]) = (registry ?m)(mac \<mapsto> p)"
    using registry_update [OF lookup_edge_ok [OF assms(1), of reg] assms(4), of p] assms(5,6) by simp
  show ?thesis
  proof (cases "HASH_FIND_PEER l mac")
    case (Some j)
    then have "mac \<in> dom (registry l)" "?m = l" using assms(2) by (auto simp: registry_def lookup_edge_def)
    then show ?thesis using r by (simp add: abs_register_def)
  next
    case None
    then have new: "mac \<notin> dom (registry l)" by (auto simp: registry_def)
    show ?thesis
    proof (cases "find_index (\<lambda>iter. net_addr (dev_addr iter) = tap) l")
      case None': None
      then have "?m = l" using assms(2,3) None by (simp add: lookup_edge_def)
      then show ?thesis using r None' registry_ran [OF assms(1)] by (auto simp: abs_register_def find_index_None)
    next
      case (Some j)
      note j = find_index_Some [OF Some]
      have m: "?m = HASH_ADD ((l ! j)\<lparr>mac_addr := mac\<rparr>) (HASH_DEL j l)" using assms(2,3) None Some by (simp add: lookup_edge_def Let_def)
      have "mac \<notin> mac_addr ` set (HASH_DEL j l)"
        using new set_HASH_DEL_subset [of j l] by (auto simp: registry_dom)
      then have "registry ?m = (registry l)(mac_addr (l ! j) := None, mac \<mapsto> (l ! j)\<lparr>mac_addr := mac\<rparr>)"
        unfolding m using registry_add [of "HASH_DEL j l" "(l ! j)\<lparr>mac_addr := mac\<rparr>"] hash.distinct_hdel [OF assms(1)] registry_del [OF assms(1)] j by simp
      then have "registry (?m[i := p]) = (registry l)(mac_addr (l ! j) := None, mac \<mapsto> p)" using r by simp
      moreover have "registry l (mac_addr (l ! j)) = Some (l ! j)" using j by (simp add: registry_Some [OF assms(1)])
      ultimately show ?thesis using new j registry_ran [OF assms(1)] by (auto simp: abs_register_def)
    qed
  qed
qed

lemma lookup_edge_unknown: "fst (lookup_edge reg l) = None \<longleftrightarrow>
    rs_edgeMac reg \<notin> mac_addr ` set l \<and> (\<forall>q \<in> set l. net_addr (dev_addr q) \<noteq> net_addr (rs_dev_addr reg))"
proof (cases "HASH_FIND_PEER l (rs_edgeMac reg)")
  case None
  then show ?thesis
    using find_index_None [of "\<lambda>iter. net_addr (dev_addr iter) = net_addr (rs_dev_addr reg)" l]
    by (simp add: lookup_edge_def Let_def hash.hfind_None [symmetric] split: option.split) auto
next
  case (Some i)
  then show ?thesis using hash.hfind_None [of mac_addr "rs_edgeMac reg" l] by (simp add: lookup_edge_def)
qed

lemma new_sn_unknown:
  "update_edge sss cmn reg comm sk fd ans skip now rt = Some (update_edge_new_sn, comm', ans', rt') \<Longrightarrow> fst (lookup_edge reg (edges comm)) = None"
  by (cases "lookup_edge reg (edges comm)"; cases "fst (lookup_edge reg (edges comm))")
    (auto simp: update_edge_def Let_def elim!: bind_SomeE split: if_splits)

subsection \<open>Closed connections and purging\<close>

lemma find_edge_by_fd_Some:
  "find_edge_by_fd fd l = Some (c, i) \<Longrightarrow> c < length l \<and> i < length (edges (l ! c)) \<and> socket_fd (edges (l ! c) ! i) = fd"
  by (induction l arbitrary: c) (auto split: option.splits dest: find_index_Some)

abbreviation registries :: "n2n_sn \<Rightarrow> registry list" where
  "registries sss \<equiv> map (\<lambda>comm. registry (edges comm)) (communities sss)"

lemma close_tcp_connection_registries:
  assumes "\<forall>comm \<in> set (communities sss). edges_ok (edges comm)" and "close_tcp_connection sss (Some k) rt = (freed, sss', rt')"
  shows "freed = find_edge_by_fd (tc_fd (tcp_connections sss ! k)) (communities sss)"
    and "registries sss' = (case freed of None \<Rightarrow> registries sss
      | Some (c, i) \<Rightarrow> (registries sss)[c := abs_unregister (mac_addr (edges (communities sss ! c) ! i)) (registries sss ! c)])"
proof -
  show f: "freed = find_edge_by_fd (tc_fd (tcp_connections sss ! k)) (communities sss)"
    using assms(2) by (simp add: close_tcp_connection_def Let_def)
  show "registries sss' = (case freed of None \<Rightarrow> registries sss
      | Some (c, i) \<Rightarrow> (registries sss)[c := abs_unregister (mac_addr (edges (communities sss ! c) ! i)) (registries sss ! c)])"
  proof (cases freed)
    case None
    then show ?thesis using assms(2) f by (auto simp: close_tcp_connection_def Let_def)
  next
    case (Some e)
    obtain c i where e: "e = (c, i)" by fastforce
    then have fe: "find_edge_by_fd (tc_fd (tcp_connections sss ! k)) (communities sss) = Some (c, i)" using f Some by simp
    then have ci: "c < length (communities sss)" "i < length (edges (communities sss ! c))" using find_edge_by_fd_Some by blast+
    then have "edges_ok (edges (communities sss ! c))" using assms(1) nth_mem by blast
    then have "registry (HASH_DEL i (edges (communities sss ! c))) =
        abs_unregister (mac_addr (edges (communities sss ! c) ! i)) (registry (edges (communities sss ! c)))"
      using registry_del ci(2) by (simp add: abs_unregister_def)
    moreover have "communities sss' = (communities sss)[c := (communities sss ! c)\<lparr>edges := HASH_DEL i (edges (communities sss ! c))\<rparr>]"
      using assms(2) by (auto simp: close_tcp_connection_def fe free_edge_def upd_comm_def Let_def)
    ultimately show ?thesis using ci(1) by (simp add: Some e map_update)
  qed
qed

text \<open>The communities that purging keeps: the federation, those that are not purgeable, and those with an edge left.\<close>

definition abs_kept :: "int \<Rightarrow> sn_community \<Rightarrow> bool" where
  "abs_kept now comm \<longleftrightarrow> is_federation comm \<or> \<not> comm_purgeable comm \<or> abs_purge now (registry (edges comm)) \<noteq> Map.empty"

lemma registry_empty: "registry l = Map.empty \<longleftrightarrow> l = []"
proof -
  have "dom (registry l) = mac_addr ` set l" using registry_dom by blast
  then show ?thesis using dom_eq_empty_conv [of "registry l"] by simp
qed

lemma purged_registry:
  assumes "edges_ok (edges comm)"
  shows "registry (edges (purged now comm)) = (if is_federation comm then registry (edges comm) else abs_purge now (registry (edges comm)))"
    and "\<not> idle (purged now comm) \<longleftrightarrow> abs_kept now comm"
proof -
  show r: "registry (edges (purged now comm)) = (if is_federation comm then registry (edges comm) else abs_purge now (registry (edges comm)))"
    using registry_filter [OF assms] by (simp add: purged_def abs_purge_def)
  have "edges (purged now comm) = [] \<longleftrightarrow> abs_purge now (registry (edges comm)) = Map.empty" if "\<not> is_federation comm"
    using r that registry_empty by metis
  then show "\<not> idle (purged now comm) \<longleftrightarrow> abs_kept now comm"
    by (auto simp: idle_def abs_kept_def purged_def)
qed

lemma purge_expired_communities_registries:
  assumes "\<forall>comm \<in> set (communities sss). edges_ok (edges comm)" and "PURGE_REGISTRATION_FREQUENCY \<le> now - last_purge"
    and "purge_expired_communities sss last_purge now rt = (sss', last', rt')"
  shows "registries sss' = map (\<lambda>comm. if is_federation comm then registry (edges comm) else abs_purge now (registry (edges comm)))
    (filter (abs_kept now) (communities sss))"
proof -
  have "communities sss' = filter (\<lambda>comm. \<not> idle comm) (map (purged now) (communities sss))"
    using assms(2,3) purge_communities_loop_eq [of "sn_sock sss" now "communities sss" "tcp_connections sss" rt]
    by (auto simp: purge_expired_communities_def split: prod.splits)
  then have "registries sss' = map (\<lambda>comm. registry (edges (purged now comm))) (filter (\<lambda>comm. \<not> idle (purged now comm)) (communities sss))"
    by (simp add: filter_map comp_def)
  also have "filter (\<lambda>comm. \<not> idle (purged now comm)) (communities sss) = filter (abs_kept now) (communities sss)"
    using assms(1) by (intro filter_cong) (simp_all add: purged_registry)
  finally show ?thesis using assms(1) by (simp add: purged_registry)
qed

text \<open>
  C40. The tables of edges implement the registries of the communities, maps from hardware addresses to edges: a registration that is not refused registers the edge; closing
  a TCP connection unregisters the one edge that it frees, the first with the socket of the connection, and nothing else; purging takes the silent edges from
  the registries of all communities but the federation and drops the purgeable communities whose registry becomes empty.
\<close>

theorem registry_refinement:
  assumes "\<forall>comm \<in> set (communities sss). edges_ok (edges comm)" and "comm \<in> set (communities sss)"
  shows "(update_edge sss cmn reg comm sk fd ans skip now rt = Some (ret, comm', ans', rt') \<and> ret \<noteq> update_edge_auth_fail
        \<and> (skip = SN_ADD \<or> ret \<noteq> update_edge_new_sn) \<longrightarrow>
      (\<exists>p. abs_register (rs_edgeMac reg) (net_addr (rs_dev_addr reg)) p (registry (edges comm)) (registry (edges comm'))
        \<and> mac_addr p = rs_edgeMac reg \<and> sock_equal sk (peer_sock p) \<and> last_cookie p = rs_cookie reg \<and> last_seen p = now))
    \<and> (close_tcp_connection sss (Some k) rt1 = (freed, sss1, rt1') \<longrightarrow>
      freed = find_edge_by_fd (tc_fd (tcp_connections sss ! k)) (communities sss) \<and>
      registries sss1 = (case freed of None \<Rightarrow> registries sss
        | Some (c, i) \<Rightarrow> (registries sss)[c := abs_unregister (mac_addr (edges (communities sss ! c) ! i)) (registries sss ! c)]))
    \<and> (PURGE_REGISTRATION_FREQUENCY \<le> now - last_purge \<and> purge_expired_communities sss last_purge now rt2 = (sss2, last', rt2') \<longrightarrow>
      registries sss2 = map (\<lambda>comm. if is_federation comm then registry (edges comm) else abs_purge now (registry (edges comm)))
        (filter (abs_kept now) (communities sss)))"
    (is "?reg \<and> ?del \<and> ?purge")
proof (intro conjI)
  show ?del using close_tcp_connection_registries [OF assms(1)] by blast
  show ?purge using purge_expired_communities_registries [OF assms(1)] by blast
  have ok: "edges_ok (edges comm)" using assms by blast
  show ?reg
  proof (intro impI, elim conjE)
    assume u: "update_edge sss cmn reg comm sk fd ans skip now rt = Some (ret, comm', ans', rt')"
      and ret: "ret \<noteq> update_edge_auth_fail" "skip = SN_ADD \<or> ret \<noteq> update_edge_new_sn"
    from u show "\<exists>p. abs_register (rs_edgeMac reg) (net_addr (rs_dev_addr reg)) p (registry (edges comm)) (registry (edges comm'))
        \<and> mac_addr p = rs_edgeMac reg \<and> sock_equal sk (peer_sock p) \<and> last_cookie p = rs_cookie reg \<and> last_seen p = now"
    proof (cases rule: update_edge_cases)
      case (known i p)
      then show ?thesis using lookup_edge_registry [OF ok refl refl, of i reg p] by auto
    next
      case (added p)
      have "fst (lookup_edge reg (edges comm)) = None" using new_sn_unknown u added(1) by blast
      then have "abs_register (rs_edgeMac reg) (net_addr (rs_dev_addr reg)) p (registry (edges comm)) (registry (edges comm'))"
        using registry_add [OF ok, of p] added registry_ran [OF ok] by (simp add: abs_register_def lookup_edge_unknown)
      then show ?thesis using added by blast
    qed (use ret in auto)
  qed
qed

text \<open>A community with an edge that is out of date, one that is not, and one over TCP.\<close>

definition reg_comm :: sn_community where
  "reg_comm = zero_community\<lparr>edges := [(test_edge 1)\<lparr>purgeable := True\<rparr>, (test_edge 2)\<lparr>purgeable := True, last_seen := 990\<rparr>, (test_edge 3)\<lparr>socket_fd := 7\<rparr>]\<rparr>"

definition reg_sn :: n2n_sn where
  "reg_sn = tcp_test_sn\<lparr>communities := [reg_comm, zero_community\<lparr>comm_purgeable := True, edges := [(test_edge 4)\<lparr>purgeable := True\<rparr>]\<rparr>]\<rparr>"

lemma reg_sn_edges:
  "communities reg_sn = [reg_comm, zero_community\<lparr>comm_purgeable := True, edges := [(test_edge 4)\<lparr>purgeable := True\<rparr>]\<rparr>]"
  "edges reg_comm = [(test_edge 1)\<lparr>purgeable := True\<rparr>, (test_edge 2)\<lparr>purgeable := True, last_seen := 990\<rparr>, (test_edge 3)\<lparr>socket_fd := 7\<rparr>]"
  "last_seen (test_edge b) = 0" "socket_fd (test_edge b) = 3" "net_addr (dev_addr (test_edge b)) = 0" "comm_purgeable reg_comm = False"
  "is_federation reg_comm = False"
  by (simp_all add: reg_sn_def reg_comm_def test_edge_def zero_peer_def zero_community_def)

theorem registry_refinement_witness:
  "\<exists>comm' ans' rt' p s1 rt1 s2 rt2.
     update_edge reg_sn plain_common (plain_reg [2, 0, 0, 0, 0, 9] 5 1) reg_comm zero_sock 3 zero_auth SN_ADD 1000 quiet_runtime
       = Some (update_edge_new_sn, comm', ans', rt')
   \<and> last_seen p = 1000 \<and> registry (edges comm') = (registry (edges reg_comm))([2, 0, 0, 0, 0, 9] \<mapsto> p)
   \<and> close_tcp_connection reg_sn (Some 0) quiet_runtime = (Some (0, 2), s1, rt1)
   \<and> registries s1 = (registries reg_sn)[0 := abs_unregister [2, 0, 0, 0, 0, 3] (registry (edges reg_comm))]
   \<and> purge_expired_communities reg_sn 0 1000 quiet_runtime = (s2, 1000, rt2)
   \<and> registries s2 = [abs_purge 1000 (registry (edges reg_comm))]
   \<and> dom (abs_purge 1000 (registry (edges reg_comm))) = {[2, 0, 0, 0, 0, 2], [2, 0, 0, 0, 0, 3]}"
proof -
  have ok: "\<forall>comm \<in> set (communities reg_sn). edges_ok (edges comm)" "reg_comm \<in> set (communities reg_sn)"
    by (simp_all add: reg_sn_edges test_sn_edges)
  obtain st rt' where rt: "rt_initial_time_stamp quiet_runtime = (st, rt')" by fastforce
  have unknown: "fst (lookup_edge (plain_reg [2, 0, 0, 0, 0, 9] 5 1) (edges reg_comm)) = None"
    by (simp add: lookup_edge_unknown plain_reg_def reg_sn_edges test_sn_edges)
  obtain comm' ans' where u: "update_edge reg_sn plain_common (plain_reg [2, 0, 0, 0, 0, 9] 5 1) reg_comm zero_sock 3 zero_auth SN_ADD 1000 quiet_runtime
     = Some (update_edge_new_sn, comm', ans', rt')"
    by (simp add: update_edge_def lookup_edge_def HASH_FIND_def reg_sn_edges test_sn_edges handle_remote_auth_def plain_reg_def rt)
      (simp add: reg_comm_def zero_community_def rt)
  obtain freed s1 rt1 where c: "close_tcp_connection reg_sn (Some 0) quiet_runtime = (freed, s1, rt1)" by (metis prod_cases3)
  obtain s2 l rt2 where p: "purge_expired_communities reg_sn 0 1000 quiet_runtime = (s2, l, rt2)" by (metis prod_cases3)
  then have l: "l = 1000" by (auto simp: purge_expired_communities_def split: prod.splits)
  note R = registry_refinement [OF ok]
  have freed: "find_edge_by_fd (tc_fd (tcp_connections reg_sn ! 0)) (communities reg_sn) = Some (0, 2)"
    by (simp add: reg_sn_edges) (simp add: reg_sn_def tcp_test_sn_def)
  have cl: "freed = Some (0, 2)" "registries s1 = (registries reg_sn)[0 := abs_unregister [2, 0, 0, 0, 0, 3] (registry (edges reg_comm))]"
    using R [where k = 0 and ?rt1.0 = quiet_runtime and freed = freed and ?sss1.0 = s1 and rt1' = rt1] c freed
    by (simp_all add: reg_sn_edges(1)) (simp_all add: reg_sn_edges(2) test_sn_edges)
  obtain q where q: "abs_register [2, 0, 0, 0, 0, 9] 5 q (registry (edges reg_comm)) (registry (edges comm'))" "last_seen q = 1000"
    using R [THEN conjunct1, THEN mp, OF conjI [OF u]] by (auto simp: plain_reg_def)
  moreover have "abs_register [2, 0, 0, 0, 0, 9] 5 q (registry (edges reg_comm)) m \<Longrightarrow> m = (registry (edges reg_comm))([2, 0, 0, 0, 0, 9] \<mapsto> q)" for m
    using ok by (auto simp: abs_register_def registry_dom registry_ran reg_sn_edges)
  moreover have purge: "registries s2 = map (\<lambda>comm. if is_federation comm then registry (edges comm) else abs_purge 1000 (registry (edges comm)))
      (filter (abs_kept 1000) (communities reg_sn))"
    using R [where now = 1000 and last_purge = 0 and ?rt2.0 = quiet_runtime and ?sss2.0 = s2 and last' = l and rt2' = rt2] p by simp
  have dom: "dom (abs_purge 1000 (registry l)) = mac_addr ` set (filter (live_edge 1000) l)" if "edges_ok l" for l
    using that registry_filter [of l "live_edge 1000"] registry_dom [of _ "filter (live_edge 1000) l"] by (auto simp: abs_purge_def)
  have d: "dom (abs_purge 1000 (registry (edges reg_comm))) = {[2, 0, 0, 0, 0, 2], [2, 0, 0, 0, 0, 3]}"
    using ok by (simp add: dom reg_sn_edges test_sn_edges live_edge_def) (simp add: test_edge_def zero_peer_def)
  moreover have "filter (abs_kept 1000) (communities reg_sn) = [reg_comm]"
  proof -
    have "dom (abs_purge 1000 (registry [(test_edge 4)\<lparr>purgeable := True\<rparr>])) = {}" by (simp add: dom live_edge_def reg_sn_edges)
    then show ?thesis by (simp add: reg_sn_edges(1,6) abs_kept_def zero_community_def del: dom_eq_empty_conv) (simp add: reg_sn_edges(6))
  qed
  ultimately show ?thesis using u c cl p l purge reg_sn_edges(7) by auto
qed

end
