(* ===== verification/Tcp_Stream.thy ===== *)
theory Tcp_Stream
  imports Peers "HOL-Library.Sublist"
begin

text \<open>
  The framing of packets on TCP connections: a packet is preceded by its length in two bytes. The receiving side is the part of
  \<open>run_sn_loop\<close> of \<^verbatim>\<open>src/sn_utils.c\<close> that handles one readable connection, the sending side the part of \<open>sendto_sock\<close> that
  prepends the length.
\<close>

subsection \<open>Receiving\<close>

abbreviation TCP_BUFFER_SIZE :: nat where "TCP_BUFFER_SIZE \<equiv> 4098"
abbreviation N2N_SN_TCP_LIMIT :: u16 where "N2N_SN_TCP_LIMIT \<equiv> 4096"

text \<open>
  The number of bytes \<open>recvfrom\<close> is asked for: the difference of the two 16-bit counters is computed as an \<open>int\<close> and converted to
  \<open>size_t\<close>. \<open>recvfrom\<close> takes at most that many of the bytes that have arrived.
\<close>

definition recv_size :: "n2n_tcp_connection \<Rightarrow> nat" where
  "recv_size conn = nat ((uint (tc_expected conn) - uint (tc_position conn)) mod 2 ^ 64)"

datatype tcp_event = Tcp_wait | Tcp_close | Tcp_packet bytes

text \<open>
  What a connection does with the bytes \<open>recvfrom\<close> has returned. Writing behind the buffer of the connection is \<open>None\<close>. A complete
  packet is handed over to \<open>process_udp\<close>, after which the counters are reset.
\<close>

definition tcp_received :: "n2n_tcp_connection \<Rightarrow> bytes \<Rightarrow> (tcp_event \<times> n2n_tcp_connection) option" where
  "tcp_received conn data =
     (if data = [] then Some (Tcp_close, conn)
      else do {
        buf \<leftarrow> wr (tc_buffer conn) (unat (tc_position conn)) data;
        let conn = conn\<lparr>tc_buffer := buf, tc_position := tc_position conn + of_nat (length data)\<rparr>;
        if tc_position conn = tc_expected conn then
          if tc_position conn = 2 then do {
            l \<leftarrow> rd buf 0 2;
            let conn = conn\<lparr>tc_expected := tc_expected conn + be_word l\<rparr>;
            if tc_expected conn > N2N_SN_TCP_LIMIT then Some (Tcp_close, conn) else Some (Tcp_wait, conn) }
          else if tc_position conn < 2 then None
          else do {
            p \<leftarrow> rd buf 2 (unat (tc_position conn) - 2);
            Some (Tcp_packet p, conn) }
        else Some (Tcp_wait, conn) })"

definition tcp_reset :: "n2n_tcp_connection \<Rightarrow> n2n_tcp_connection" where
  "tcp_reset conn = conn\<lparr>tc_expected := 2, tc_position := 0\<rparr>"

definition tcp_accepted :: "int \<Rightarrow> sockaddr \<Rightarrow> nat \<Rightarrow> n2n_tcp_connection" where
  "tcp_accepted fd sa len = \<lparr>tc_fd = fd, tc_sock = sa, tc_sock_len = len, tc_expected = 2, tc_position = 0,
     tc_buffer = replicate TCP_BUFFER_SIZE 0, tc_inactive = False\<rparr>"

subsection \<open>A stream of packets\<close>

text \<open>The bytes that \<open>sendto_sock\<close> sends for a packet.\<close>

definition tcp_frame :: "bytes \<Rightarrow> bytes" where
  "tcp_frame pkt = be_bytes 2 (of_nat (length pkt) :: u16) @ pkt"

text \<open>
  The connection becomes readable again and again, each time with some bytes of the stream available. The result are the packets
  that were handed over, the state of the connection and the rest of the stream; \<open>None\<close> also stands for a connection that was closed.
\<close>

fun tcp_run :: "nat list \<Rightarrow> n2n_tcp_connection \<Rightarrow> bytes \<Rightarrow> (bytes list \<times> n2n_tcp_connection \<times> bytes) option" where
  "tcp_run [] conn s = Some ([], conn, s)"
| "tcp_run (n # ns) conn s =
     (let k = min n (recv_size conn) in
      if s = [] then Some ([], conn, s)
      else do {
        (ev, conn) \<leftarrow> tcp_received conn (take k s);
        (case ev of
           Tcp_close \<Rightarrow> None
         | Tcp_wait \<Rightarrow> tcp_run ns conn (drop k s)
         | Tcp_packet p \<Rightarrow> do { (ps, conn, r) \<leftarrow> tcp_run ns (tcp_reset conn) (drop k s); Some (p # ps, conn, r) }) })"

text \<open>
  The bytes \<open>pre\<close> of the packets \<open>pkts\<close> that are still to come are in the buffer, and the counters agree with that.
\<close>

definition tcp_inv :: "n2n_tcp_connection \<Rightarrow> bytes \<Rightarrow> bytes \<Rightarrow> bytes list \<Rightarrow> bool" where
  "tcp_inv conn pre s pkts \<longleftrightarrow> pre @ s = concat (map tcp_frame pkts)
     \<and> (if pkts = [] then pre = [] else length pre < length (tcp_frame (hd pkts)))
     \<and> length (tc_buffer conn) = TCP_BUFFER_SIZE \<and> take (length pre) (tc_buffer conn) = pre
     \<and> tc_position conn = of_nat (length pre)
     \<and> tc_expected conn = (if length pre < 2 then 2 else of_nat (length (tcp_frame (hd pkts))))"

definition tcp_fits :: "bytes \<Rightarrow> bool" where
  "tcp_fits pkt \<longleftrightarrow> pkt \<noteq> [] \<and> length pkt + 2 \<le> 4096"

lemma length_tcp_frame [simp]: "length (tcp_frame pkt) = length pkt + 2"
  by (simp add: tcp_frame_def)

lemma frame_prefix:
  assumes "pre @ s = concat (map tcp_frame (p # ps))" and "length pre \<le> length p + 2"
  shows "pre = take (length pre) (tcp_frame p)" "s = drop (length pre) (tcp_frame p) @ concat (map tcp_frame ps)"
proof -
  have eq: "pre @ s = tcp_frame p @ concat (map tcp_frame ps)" using assms(1) by simp
  have "take (length pre) (pre @ s) = take (length pre) (tcp_frame p)" using assms(2) by (simp add: eq)
  then show "pre = take (length pre) (tcp_frame p)" by simp
  have "drop (length pre) (pre @ s) = drop (length pre) (tcp_frame p) @ concat (map tcp_frame ps)" using assms(2) by (simp add: eq)
  then show "s = drop (length pre) (tcp_frame p) @ concat (map tcp_frame ps)" by simp
qed

lemma unat_small [simp]: "n < 65536 \<Longrightarrow> unat (of_nat n :: u16) = n"
  by (simp add: unat_of_nat)

lemma of_nat_u16_eq: "m < 65536 \<Longrightarrow> n < 65536 \<Longrightarrow> (of_nat m :: u16) = of_nat n \<longleftrightarrow> m = n"
  by (metis unat_small)

text \<open>How many bytes a connection is waiting for.\<close>

definition tcp_missing :: "bytes \<Rightarrow> bytes \<Rightarrow> nat" where
  "tcp_missing pre p = (if length pre < 2 then 2 - length pre else length p + 2 - length pre)"

lemma recv_size_inv:
  assumes "tcp_inv conn pre s (p # ps)" and "tcp_fits p"
  shows "recv_size conn = tcp_missing pre p"
proof -
  have pre: "length pre < length p + 2" using assms(1) by (simp add: tcp_inv_def)
  have u: "uint (of_nat n :: u16) = int n" if "n < 65536" for n using that by (simp add: unsigned_of_nat take_bit_nat_eq_self)
  show ?thesis
  proof (cases "length pre < 2")
    case True
    then have "uint (tc_expected conn) = 2" "uint (tc_position conn) = int (length pre)" using assms(1) by (auto simp: tcp_inv_def u)
    then show ?thesis using True by (simp add: recv_size_def tcp_missing_def nat_diff_distrib mod_pos_pos_trivial)
  next
    case False
    have lim: "length p + 2 < 65536" "length pre < 65536" using assms(2) pre by (auto simp: tcp_fits_def)
    then have "uint (tc_expected conn) = int (length p + 2)" "uint (tc_position conn) = int (length pre)"
      using assms(1) False u [OF lim(1)] u [OF lim(2)] by (auto simp: tcp_inv_def)
    then show ?thesis using False pre lim by (simp add: recv_size_def tcp_missing_def mod_pos_pos_trivial nat_eq_iff)
  qed
qed

text \<open>One readable event: the bytes go into the buffer, or complete the packet.\<close>

lemma tcp_received_step:
  assumes inv: "tcp_inv conn pre s (p # ps)" and fits: "tcp_fits p" and n: "0 < n" "n \<le> tcp_missing pre p" "n \<le> length s"
  shows "(\<exists>conn'. tcp_received conn (take n s) = Some (Tcp_wait, conn') \<and> tcp_inv conn' (pre @ take n s) (drop n s) (p # ps))
    \<or> (\<exists>conn'. tcp_received conn (take n s) = Some (Tcp_packet p, conn') \<and> tcp_inv (tcp_reset conn') [] (drop n s) ps)"
proof -
  let ?d = "take n s" and ?pre = "pre @ take n s"
  let ?buf = "overlay (tc_buffer conn) (length pre) ?d"
  have eq: "pre @ s = concat (map tcp_frame (p # ps))" and pre: "length pre < length p + 2"
    and buf: "length (tc_buffer conn) = TCP_BUFFER_SIZE" "take (length pre) (tc_buffer conn) = pre"
    and pos: "tc_position conn = of_nat (length pre)"
    and expected: "tc_expected conn = (if length pre < 2 then 2 else of_nat (length p + 2))"
    using inv by (auto simp: tcp_inv_def)
  have lim: "length p + 2 \<le> 4096" "p \<noteq> []" using fits by (auto simp: tcp_fits_def)
  have len: "length ?pre = length pre + n" "length ?pre \<le> length p + 2" using n pre by (auto simp: tcp_missing_def split: if_splits)
  have eq': "?pre @ drop n s = concat (map tcp_frame (p # ps))" using eq by simp
  note P = frame_prefix [OF eq' len(2)]
  have w: "wr (tc_buffer conn) (unat (tc_position conn)) ?d = Some ?buf" "length ?buf = TCP_BUFFER_SIZE" "take (length ?pre) ?buf = ?pre"
    using len lim buf pre n by (auto simp: wr_def pos overlay_def min_def)
  have ne: "?d \<noteq> []" using n by auto
  have pos': "tc_position conn + of_nat (length ?d) = of_nat (length ?pre)" by (simp add: pos)
  define conn1 where "conn1 = conn\<lparr>tc_buffer := ?buf, tc_position := of_nat (length ?pre)\<rparr>"
  have recv: "tcp_received conn ?d =
      (if (of_nat (length ?pre) :: u16) = tc_expected conn then
         if (of_nat (length ?pre) :: u16) = 2 then do {
           l \<leftarrow> rd ?buf 0 2;
           let conn2 = conn1\<lparr>tc_expected := tc_expected conn + be_word l\<rparr>;
           if tc_expected conn2 > N2N_SN_TCP_LIMIT then Some (Tcp_close, conn2) else Some (Tcp_wait, conn2) }
         else if (of_nat (length ?pre) :: u16) < 2 then None
         else do { q \<leftarrow> rd ?buf 2 (unat (of_nat (length ?pre) :: u16) - 2); Some (Tcp_packet q, conn1) }
       else Some (Tcp_wait, conn1))"
    using w(1) ne by (simp add: tcp_received_def Let_def conn1_def pos' del: length_append of_nat_add length_take)
  have two: "(of_nat (length ?pre) :: u16) = 2 \<longleftrightarrow> length ?pre = 2"
    using of_nat_u16_eq [of "length ?pre" 2] len lim by simp
  have full: "(of_nat (length ?pre) :: u16) = of_nat (length p + 2) \<longleftrightarrow> length ?pre = length p + 2"
    using of_nat_u16_eq [of "length ?pre" "length p + 2"] len lim by simp
  have ul: "unat (of_nat (length p + 2) :: u16) = length p + 2" using lim by (intro unat_small) simp
  have I: "tcp_inv (conn1\<lparr>tc_expected := x\<rparr>) ?pre (drop n s) (p # ps)"
    if "length ?pre < length p + 2" "x = (if length ?pre < 2 then 2 else of_nat (length p + 2))" for x
    using that w(2,3) eq' by (simp add: tcp_inv_def conn1_def del: length_append of_nat_add)
  have same: "conn1 = conn1\<lparr>tc_expected := tc_expected conn\<rparr>" by (simp add: conn1_def)
  consider (a) "length ?pre < 2" | (b) "length ?pre = 2" "length pre < 2" | (c) "2 \<le> length pre" "length ?pre < length p + 2"
    | (d) "2 \<le> length pre" "length ?pre = length p + 2"
    using len n by (fastforce simp: tcp_missing_def split: if_splits)
  then show ?thesis
  proof cases
    case a
    then have "tcp_received conn ?d = Some (Tcp_wait, conn1)" using recv two expected len(1) by (simp del: length_append)
    moreover have "tcp_inv conn1 ?pre (drop n s) (p # ps)" using I [of "tc_expected conn"] a expected by (subst same) simp
    ultimately show ?thesis by blast
  next
    case b
    have l: "rd ?buf 0 2 = Some (be_bytes 2 (of_nat (length p) :: u16))"
      using w(2,3) b(1) P(1) lim by (simp add: rd_def tcp_frame_def)
    have "\<not> (of_nat (length p + 2) :: u16) > 4096" using lim ul by (simp add: word_less_nat_alt)
    moreover have "tc_expected conn = 2" "(of_nat (length ?pre) :: u16) = 2" using b expected two by simp_all
    moreover have "(2 :: u16) + be_word (be_bytes 2 (of_nat (length p) :: u16)) = of_nat (length p + 2)" by (simp add: be_word_be_bytes)
    ultimately have "tcp_received conn ?d = Some (Tcp_wait, conn1\<lparr>tc_expected := of_nat (length p + 2)\<rparr>)"
      unfolding recv l by (simp only: Let_def if_True simp_thms Option.bind.bind_lunit if_False) (simp add: conn1_def del: of_nat_add)
    then show ?thesis using I [of "of_nat (length p + 2)"] b lim(2) by (auto simp del: of_nat_add length_append)
  next
    case c
    then have "tcp_received conn ?d = Some (Tcp_wait, conn1)" using recv full expected by (simp del: length_append of_nat_add)
    moreover have "tcp_inv conn1 ?pre (drop n s) (p # ps)" using I [of "tc_expected conn"] c expected by (subst same) simp
    ultimately show ?thesis by blast
  next
    case d
    have q: "rd ?buf 2 (length p + 2 - 2) = Some p"
    proof -
      have "take (length p) (drop 2 ?buf) = drop 2 (take (length p + 2) ?buf)" by (simp add: take_drop)
      also have "\<dots> = drop 2 (tcp_frame p)" using w(3) d P(1) by simp
      finally show ?thesis using w(2) lim by (simp add: rd_def tcp_frame_def)
    qed
    have "(of_nat (length p + 2) :: u16) \<noteq> 2" "\<not> (of_nat (length p + 2) :: u16) < 2" "tc_expected conn = of_nat (length p + 2)"
      using two d lim(2) expected ul by (auto simp: word_less_nat_alt simp del: length_append of_nat_add)
    then have "tcp_received conn ?d = Some (Tcp_packet p, conn1)"
      unfolding recv d(2) ul q by (simp only: simp_thms if_True if_False Option.bind.bind_lunit)
    then show ?thesis using w(2) d P(2) by (intro disjI2) (auto simp: tcp_inv_def conn1_def tcp_reset_def)
  qed
qed

lemma tcp_inv_start: "tcp_inv (tcp_accepted fd sa len) [] (concat (map tcp_frame pkts)) pkts"
  by (auto simp: tcp_inv_def tcp_accepted_def)

lemma tcp_inv_Nil: "tcp_inv conn pre s [] \<Longrightarrow> pre = [] \<and> s = []"
  by (auto simp: tcp_inv_def)

lemma tcp_inv_missing: "tcp_inv conn pre s (p # ps) \<Longrightarrow> tcp_fits p \<Longrightarrow> 0 < tcp_missing pre p \<and> s \<noteq> []"
  by (auto simp: tcp_inv_def tcp_missing_def)

lemma tcp_run_correct:
  assumes "tcp_inv conn pre s pkts" and "\<forall>p \<in> set pkts. tcp_fits p" and "\<forall>n \<in> set ns. 0 < n"
  shows "\<exists>ps qs conn' pre' rest. tcp_run ns conn s = Some (ps, conn', rest) \<and> pkts = ps @ qs
    \<and> tcp_inv conn' pre' rest qs \<and> (length s \<le> length ns \<longrightarrow> qs = [])"
  using assms
proof (induction ns arbitrary: conn pre s pkts)
  case Nil
  then show ?case using tcp_inv_missing by (cases pkts) fastforce+
next
  case (Cons n ns)
  show ?case
  proof (cases pkts)
    case Nil
    then show ?thesis using Cons.prems(1) tcp_inv_Nil by fastforce
  next
    case (Cons p ps)
    have inv: "tcp_inv conn pre s (p # ps)" and fits: "tcp_fits p" using Cons.prems Cons by auto
    let ?k = "min n (recv_size conn)" and ?m = "min (min n (recv_size conn)) (length s)"
    have m: "0 < ?m" "?m \<le> tcp_missing pre p" "?m \<le> length s"
      using tcp_inv_missing [OF inv fits] recv_size_inv [OF inv fits] Cons.prems(3) by auto
    have t: "take ?k s = take ?m s" "drop ?k s = drop ?m s" by (auto simp: min_def)
    have s: "s \<noteq> []" using tcp_inv_missing [OF inv fits] by blast
    have dl: "length (drop ?m s) \<le> length ns" if "length s \<le> length (n # ns)"
    proof -
      have "length s - ?m \<le> length ns" using that m(1) by (simp del: min_less_iff_conj)
      then show ?thesis by simp
    qed
    from tcp_received_step [OF inv fits m] show ?thesis
    proof (elim disjE exE conjE)
      fix conn' assume r: "tcp_received conn (take ?m s) = Some (Tcp_wait, conn')"
        and inv': "tcp_inv conn' (pre @ take ?m s) (drop ?m s) (p # ps)"
      have "tcp_run (n # ns) conn s = tcp_run ns conn' (drop ?m s)" using s r by (simp add: t)
      then show ?thesis using Cons.IH [OF inv'] Cons.prems Cons dl by fastforce
    next
      fix conn' assume r: "tcp_received conn (take ?m s) = Some (Tcp_packet p, conn')"
        and inv': "tcp_inv (tcp_reset conn') [] (drop ?m s) ps"
      obtain qs rs c pre' rest where ih: "tcp_run ns (tcp_reset conn') (drop ?m s) = Some (qs, c, rest)" "ps = qs @ rs"
          "tcp_inv c pre' rest rs" "length (drop ?m s) \<le> length ns \<longrightarrow> rs = []"
        using Cons.IH [OF inv'] Cons.prems Cons by auto
      have "tcp_run (n # ns) conn s = Some (p # qs, c, rest)" using s r ih(1) by (simp add: t)
      then show ?thesis using ih Cons dl by fastforce
    qed
  qed
qed

text \<open>
  C5. Whatever the sizes of the pieces in which a stream of packets arrives, a connection hands over the packets in order and unchanged, and
  all of them once enough pieces have arrived. The packets have at least one byte and fit into the buffer.
\<close>

theorem tcp_stream_correct:
  assumes "\<forall>p \<in> set pkts. tcp_fits p" and "\<forall>n \<in> set ns. 0 < n"
  shows "\<exists>ps conn rest. tcp_run ns (tcp_accepted fd sa len) (concat (map tcp_frame pkts)) = Some (ps, conn, rest)
    \<and> prefix ps pkts \<and> (length (concat (map tcp_frame pkts)) \<le> length ns \<longrightarrow> ps = pkts \<and> rest = [])"
  using tcp_run_correct [OF tcp_inv_start assms, of fd sa len] tcp_inv_Nil by (fastforce simp: prefix_def)

theorem tcp_stream_correct_witness:
  "\<forall>fd sa len. \<exists>conn. tcp_run [1, 7, 2, 5, 1, 3, 1, 1] (tcp_accepted fd sa len) [0, 3, 10, 11, 12, 0, 1, 13] = Some ([[10, 11, 12], [13]], conn, [])"
proof (intro allI)
  fix fd sa len
  have "concat (map tcp_frame [[10, 11, 12], [13]]) = [0, 3, 10, 11, 12, 0, 1, 13]" by code_simp
  then show "\<exists>conn. tcp_run [1, 7, 2, 5, 1, 3, 1, 1] (tcp_accepted fd sa len) [0, 3, 10, 11, 12, 0, 1, 13] = Some ([[10, 11, 12], [13]], conn, [])"
    using tcp_stream_correct [of "[[10, 11, 12], [13]]" "[1, 7, 2, 5, 1, 3, 1, 1]" fd sa len] by (auto simp: tcp_fits_def)
qed

text \<open>
  C24. A peer that announces a packet of 65535 bytes makes the 16-bit sum wrap around to 1, which passes the check of the limit. The next
  \<open>recvfrom\<close> is then asked for \<open>2^64 - 1\<close> bytes, and whatever exceeds the 4096 bytes left in the buffer is written behind it.
\<close>

theorem tcp_length_wraps:
  assumes "4096 < length data" and "length data < 2 ^ 64"
  shows "\<exists>conn. tcp_received (tcp_accepted fd sa len) [255, 255] = Some (Tcp_wait, conn) \<and> recv_size conn = 2 ^ 64 - 1
    \<and> tcp_received conn (take (recv_size conn) data) = None"
proof -
  let ?c = "(tcp_accepted fd sa len)\<lparr>tc_buffer := overlay (replicate TCP_BUFFER_SIZE 0) 0 [255, 255], tc_position := 2, tc_expected := 1\<rparr>"
  have w: "(be_word [255, 255] :: u16) = 0xFFFF" by code_simp
  have r: "tcp_received (tcp_accepted fd sa len) [255, 255] = Some (Tcp_wait, ?c)"
    by (simp add: tcp_received_def tcp_accepted_def wr_def rd_def overlay_def w)
  have n: "recv_size ?c = 2 ^ 64 - 1" by (simp add: recv_size_def)
  have "take (recv_size ?c) data = data" using assms(2) unfolding n by simp
  moreover have "tcp_received ?c data = None" using assms(1) by (auto simp: tcp_received_def tcp_accepted_def wr_def overlay_def)
  ultimately show ?thesis using r n by auto
qed

theorem tcp_length_wraps_witness:
  "\<forall>fd sa len. \<exists>conn. tcp_received (tcp_accepted fd sa len) [255, 255] = Some (Tcp_wait, conn)
    \<and> tcp_received conn (take (recv_size conn) (replicate 4097 7)) = None"
  using tcp_length_wraps [of "replicate 4097 7"] unfolding length_replicate by fastforce

end
