(* ===== verification/Kcp.thy ===== *)
theory Kcp
  imports Sn_Send
begin

text \<open>
  How supernode and edge tell KCP packets from others and the two channels apart, from \<^verbatim>\<open>src/kcp_bridge.c\<close>.
\<close>

subsection \<open>Recognition of KCP packets\<close>

abbreviation N2N_KCP_OVERHEAD :: nat where "N2N_KCP_OVERHEAD \<equiv> 24"
abbreviation N2N_KCP_CMD_PUSH :: byte where "N2N_KCP_CMD_PUSH \<equiv> 81"
abbreviation N2N_KCP_CMD_ACK :: byte where "N2N_KCP_CMD_ACK \<equiv> 82"
abbreviation N2N_KCP_CMD_WASK :: byte where "N2N_KCP_CMD_WASK \<equiv> 83"
abbreviation N2N_KCP_CMD_WINS :: byte where "N2N_KCP_CMD_WINS \<equiv> 84"
abbreviation N2N_KCP_CONV_CHANNEL_BIT :: u32 where "N2N_KCP_CONV_CHANNEL_BIT \<equiv> 0x80000000"
abbreviation N2N_KCP_CONV_VALUE_MASK :: u32 where "N2N_KCP_CONV_VALUE_MASK \<equiv> 0x7fffffff"

definition n2n_kcp_conv_with_channel :: "u32 \<Rightarrow> n2n_kcp_channel \<Rightarrow> u32" where
  "n2n_kcp_conv_with_channel conv channel =
     (let conv = conv AND N2N_KCP_CONV_VALUE_MASK; conv = (if conv = 0 then 1 else conv)
      in if channel = N2N_KCP_CHANNEL_DATA then conv OR N2N_KCP_CONV_CHANNEL_BIT else conv)"

definition n2n_kcp_channel_from_conv :: "u32 \<Rightarrow> n2n_kcp_channel" where
  "n2n_kcp_channel_from_conv conv =
     (if conv AND N2N_KCP_CONV_CHANNEL_BIT \<noteq> 0 then N2N_KCP_CHANNEL_DATA else N2N_KCP_CHANNEL_CTRL)"

definition n2n_kcp_read_le32 :: "bytes \<Rightarrow> nat \<Rightarrow> u32" where
  "n2n_kcp_read_le32 p i = ucast (p ! i) OR push_bit 8 (ucast (p ! (i + 1))) OR push_bit 16 (ucast (p ! (i + 2))) OR push_bit 24 (ucast (p ! (i + 3)))"

definition n2n_kcp_cmd_is_valid :: "byte \<Rightarrow> bool" where
  "n2n_kcp_cmd_is_valid cmd \<longleftrightarrow> cmd = N2N_KCP_CMD_PUSH \<or> cmd = N2N_KCP_CMD_ACK \<or> cmd = N2N_KCP_CMD_WASK \<or> cmd = N2N_KCP_CMD_WINS"

text \<open>
  The loop over the segments of a datagram; the bytes that are left are the datagram itself. \<open>ikcp_getconv\<close> of the KCP library reads the
  first four bytes in little-endian order. The 32-bit sum of overhead and length does not wrap around, because the length has been compared
  with the rest of the datagram.
\<close>

function kcp_segments :: "u32 \<Rightarrow> bytes \<Rightarrow> bool" where
  "kcp_segments conv p =
     (if length p \<ge> N2N_KCP_OVERHEAD then
        let seg_len = unat (n2n_kcp_read_le32 p 20) in
        if n2n_kcp_read_le32 p 0 \<noteq> conv then False
        else if \<not> n2n_kcp_cmd_is_valid (p ! 4) then False
        else if seg_len > length p - N2N_KCP_OVERHEAD then False
        else kcp_segments conv (drop (N2N_KCP_OVERHEAD + seg_len) p)
      else p = [])"
  by pat_completeness auto
termination
  by (relation "measure (\<lambda>(conv, p). length p)") auto

declare kcp_segments.simps [simp del]

definition n2n_kcp_packet_get_conv :: "bytes \<Rightarrow> u32 option" where
  "n2n_kcp_packet_get_conv buf =
     (if length buf < N2N_KCP_OVERHEAD then None
      else let packet_conv = n2n_kcp_read_le32 buf 0 in if kcp_segments packet_conv buf then Some packet_conv else None)"

text \<open>A segment: the conversation, a command and, at its end, the data of the announced length.\<close>

definition kcp_segment :: "u32 \<Rightarrow> bytes \<Rightarrow> bool" where
  "kcp_segment conv seg \<longleftrightarrow> length seg = N2N_KCP_OVERHEAD + unat (n2n_kcp_read_le32 seg 20)
     \<and> n2n_kcp_read_le32 seg 0 = conv \<and> n2n_kcp_cmd_is_valid (seg ! 4)"

lemma read_le32_take: "i + 3 < n \<Longrightarrow> n2n_kcp_read_le32 (take n p) i = n2n_kcp_read_le32 p i"
  by (simp add: n2n_kcp_read_le32_def)

lemma read_le32_append: "i + 3 < length p \<Longrightarrow> n2n_kcp_read_le32 (p @ q) i = n2n_kcp_read_le32 p i"
  by (simp add: n2n_kcp_read_le32_def nth_append)

lemma kcp_segments_sound: "kcp_segments conv p \<Longrightarrow> \<exists>segs. p = concat segs \<and> (\<forall>seg \<in> set segs. kcp_segment conv seg)"
proof (induction conv p rule: kcp_segments.induct)
  case (1 conv p)
  show ?case
  proof (cases "24 \<le> length p")
    case True
    let ?n = "24 + unat (n2n_kcp_read_le32 p 20)"
    have p: "n2n_kcp_read_le32 p 0 = conv" "n2n_kcp_cmd_is_valid (p ! 4)" "?n \<le> length p" "kcp_segments conv (drop ?n p)"
      using "1.prems" True by (subst (asm) kcp_segments.simps, auto simp: Let_def split: if_splits)+
    then obtain segs where segs: "drop ?n p = concat segs" "\<forall>seg \<in> set segs. kcp_segment conv seg" using "1.IH" True by fastforce
    have "kcp_segment conv (take ?n p)" using p by (simp add: kcp_segment_def read_le32_take)
    moreover have "p = concat (take ?n p # segs)" using segs(1) by (metis append_take_drop_id concat.simps(2))
    ultimately show ?thesis using segs(2) by (metis set_ConsD)
  next
    case False
    then have "p = []" using "1.prems" by (subst (asm) kcp_segments.simps) simp
    then show ?thesis by (intro exI [of _ "[]"]) simp
  qed
qed

lemma kcp_segments_complete: "\<forall>seg \<in> set segs. kcp_segment conv seg \<Longrightarrow> kcp_segments conv (concat segs)"
proof (induction segs)
  case Nil
  then show ?case by (subst kcp_segments.simps) simp
next
  case (Cons seg segs)
  then have seg: "kcp_segment conv seg" and ih: "kcp_segments conv (concat segs)" by auto
  have n: "24 \<le> length seg" "unat (n2n_kcp_read_le32 seg 20) = length seg - 24" using seg by (auto simp: kcp_segment_def)
  define p where "p = seg @ concat segs"
  have p: "n2n_kcp_read_le32 p 20 = n2n_kcp_read_le32 seg 20" "n2n_kcp_read_le32 p 0 = conv" "n2n_kcp_cmd_is_valid (p ! 4)"
      "24 \<le> length p" "(length p - 24 < length seg - 24) = False" "drop (24 + (length seg - 24)) p = concat segs"
    using n seg by (simp_all add: p_def read_le32_append nth_append kcp_segment_def)
  have "kcp_segments conv p = kcp_segments conv (concat segs)"
    by (subst kcp_segments.simps) (simp only: p n(2) Let_def not_less if_True if_False simp_thms)
  then show ?case using ih by (simp add: p_def)
qed

text \<open>
  C36. A datagram counts as a KCP packet of a conversation if and only if it consists of one or more whole segments of that conversation with
  known commands.
\<close>

theorem kcp_packet_recognised:
  "n2n_kcp_packet_get_conv buf = Some conv \<longleftrightarrow> (\<exists>segs. segs \<noteq> [] \<and> buf = concat segs \<and> list_all (kcp_segment conv) segs)"
  unfolding list_all_iff
proof
  assume "n2n_kcp_packet_get_conv buf = Some conv"
  then have p: "kcp_segments conv buf" "buf \<noteq> []" by (auto simp: n2n_kcp_packet_get_conv_def Let_def split: if_splits)
  obtain segs where "buf = concat segs" "\<forall>seg \<in> set segs. kcp_segment conv seg" using kcp_segments_sound [OF p(1)] by blast
  moreover have "segs \<noteq> []" using p(2) calculation(1) by auto
  ultimately show "\<exists>segs. segs \<noteq> [] \<and> buf = concat segs \<and> (\<forall>seg \<in> set segs. kcp_segment conv seg)" by blast
next
  assume "\<exists>segs. segs \<noteq> [] \<and> buf = concat segs \<and> (\<forall>seg \<in> set segs. kcp_segment conv seg)"
  then obtain segs where segs: "segs \<noteq> []" "buf = concat segs" "\<forall>seg \<in> set segs. kcp_segment conv seg" by blast
  then obtain seg rest where c: "segs = seg # rest" by (cases segs) auto
  then have "length buf \<ge> 24" "n2n_kcp_read_le32 buf 0 = conv" using segs by (auto simp: kcp_segment_def read_le32_append)
  then show "n2n_kcp_packet_get_conv buf = Some conv"
    using kcp_segments_complete [OF segs(3)] segs(2) by (auto simp: n2n_kcp_packet_get_conv_def Let_def)
qed

end
