(* ===== verification/Sn_Loop.thy ===== *)
theory Sn_Loop
  imports Sn_Reachable Tcp_Stream Kcp
begin

text \<open>
  The main loop of the supernode, \<open>run_sn_loop\<close> of \<^verbatim>\<open>src/sn_utils.c\<close>, with the KCP sessions of \<^verbatim>\<open>src/kcp_bridge.c\<close>.
  The management port and the thread that resolves names are left out.
\<close>

subsection \<open>Sessions\<close>

text \<open>
  The session for a sender and whether it was created. \<open>time_now\<close> is the reading of the clock.
\<close>

definition n2n_kcp_sn_find_or_create :: "n2n_sn \<Rightarrow> n2n_sock \<Rightarrow> u32 \<Rightarrow> n2n_kcp_channel \<Rightarrow> int \<Rightarrow> nat \<times> bool \<times> n2n_sn" where
  "n2n_kcp_sn_find_or_create sss remote conv channel time_now =
     (let create = (\<lambda>sss.
        let l = HASH_ADD \<lparr>kcp_remote_sock = remote, kcp_conv = conv, kcp_active = True, kcp_rx_confirm_count = 0,
                  kcp_last_seen = time_now, kcp_dead = False\<rparr> (n2n_kcp_sn_table sss channel)
        in (length l - 1, True, set_kcp_table channel l sss)) in
      case HASH_FIND kcp_remote_sock remote (n2n_kcp_sn_table sss channel) of
        None \<Rightarrow> create sss
      | Some i \<Rightarrow>
          let ctx = n2n_kcp_sn_table sss channel ! i in
          if kcp_dead ctx then create (n2n_kcp_sn_drop_ctx sss i channel)
          else if kcp_conv ctx \<noteq> conv then create (n2n_kcp_sn_drop_ctx sss i channel)
          else (i, False, sss))"

text \<open>
  What the KCP library does with a datagram of a session: the result of \<open>ikcp_input\<close> and the messages that it can deliver afterwards.
\<close>

type_synonym kcp_answer = "int \<times> bytes list"

abbreviation N2N_SN_PKTBUF_LEN :: nat where "N2N_SN_PKTBUF_LEN \<equiv> 4096"

text \<open>The messages that \<open>n2n_kcp_recv_pending_ctx\<close> yields, up to the first one that is empty or does not fit into the buffer.\<close>

definition receivable :: "bytes list \<Rightarrow> bytes list" where
  "receivable msgs = takeWhile (\<lambda>m. m \<noteq> [] \<and> length m \<le> N2N_SN_PKTBUF_LEN) msgs"

text \<open>The result, the channel, the messages and the new state.\<close>

definition n2n_kcp_sn_process_input :: "n2n_sn \<Rightarrow> sockaddr \<Rightarrow> bytes \<Rightarrow> int \<Rightarrow> int \<Rightarrow> kcp_answer \<Rightarrow> int \<times> n2n_kcp_channel \<times> bytes list \<times> n2n_sn" where
  "n2n_kcp_sn_process_input sss sender_sock buf now time_now answer =
     (case n2n_kcp_packet_get_conv buf of
        None \<Rightarrow> (0, N2N_KCP_CHANNEL_CTRL, [], sss)
      | Some conv \<Rightarrow>
          let remote = snd (fill_n2nsock sender_sock);
              channel = n2n_kcp_channel_from_conv conv;
              (i, created, sss) = n2n_kcp_sn_find_or_create sss remote conv channel time_now;
              (rc, msgs) = answer
          in if rc < 0 then (-1, channel, [], if created then n2n_kcp_sn_drop_ctx sss i channel else sss)
             else let l = n2n_kcp_sn_table sss channel
                  in (1, channel, receivable msgs, set_kcp_table channel (l[i := (l ! i)\<lparr>kcp_last_seen := now\<rparr>]) sss))"

text \<open>The session may have been dropped while the message before was processed; then nothing more is received.\<close>

fun kcp_messages :: "n2n_PEER_INFO \<Rightarrow> sockaddr \<Rightarrow> nat \<Rightarrow> n2n_kcp_channel \<Rightarrow> int \<Rightarrow> bytes list \<Rightarrow> n2n_sn \<Rightarrow> runtime \<Rightarrow> (n2n_sn \<times> runtime) option" where
  "kcp_messages pi0 sa len channel now [] sss rt = Some (sss, rt)"
| "kcp_messages pi0 sa len channel now (m # ms) sss rt = do {
     (_, sss, rt) \<leftarrow> process_udp pi0 sss sa len (sn_sock sss) m (length m) now rt;
     (case n2n_kcp_sn_find_ctx sss (snd (fill_n2nsock sa)) channel of
        None \<Rightarrow> Some (sss, rt)
      | Some i \<Rightarrow> if kcp_active (n2n_kcp_sn_table sss channel ! i) then kcp_messages pi0 sa len channel now ms sss rt else Some (sss, rt)) }"

text \<open>A readable UDP socket.\<close>

definition udp_ready :: "n2n_PEER_INFO \<Rightarrow> sockaddr \<Rightarrow> nat \<Rightarrow> bytes \<Rightarrow> int \<Rightarrow> int \<Rightarrow> kcp_answer \<Rightarrow> n2n_sn \<Rightarrow> runtime \<Rightarrow> (n2n_sn \<times> runtime) option" where
  "udp_ready pi0 sa len pktbuf now time_now answer sss rt =
     (if pktbuf = [] then Some (sss, rt)
      else case n2n_kcp_sn_process_input sss sa pktbuf now time_now answer of
        (kcp_rc, channel, msgs, sss) \<Rightarrow>
          if kcp_rc \<noteq> 0 then if kcp_rc > 0 then kcp_messages pi0 sa len channel now msgs sss rt else Some (sss, rt)
          else do { (_, sss, rt) \<leftarrow> process_udp pi0 sss sa len (sn_sock sss) pktbuf (length pktbuf) now rt; Some (sss, rt) })"

text \<open>
  The update of all sessions. The library decides which of them have become dead (\<open>deads\<close>); dead and silent ones are dropped.
\<close>

definition n2n_kcp_sn_update :: "(n2n_kcp_channel \<Rightarrow> n2n_kcp_ctx \<Rightarrow> bool) \<Rightarrow> int \<Rightarrow> n2n_sn \<Rightarrow> n2n_sn" where
  "n2n_kcp_sn_update deads now sss =
     (let upd = (\<lambda>ch l. filter (\<lambda>ctx. \<not> kcp_dead ctx \<and> \<not> now - kcp_last_seen ctx > 120)
                 (map (\<lambda>ctx. ctx\<lparr>kcp_dead := deads ch ctx\<rparr>) l));
          sss = set_kcp_table N2N_KCP_CHANNEL_CTRL (upd N2N_KCP_CHANNEL_CTRL (n2n_kcp_sn_table sss N2N_KCP_CHANNEL_CTRL)) sss
      in set_kcp_table N2N_KCP_CHANNEL_DATA (upd N2N_KCP_CHANNEL_DATA (n2n_kcp_sn_table sss N2N_KCP_CHANNEL_DATA)) sss)"

subsection \<open>TCP connections\<close>

definition upd_conn :: "nat \<Rightarrow> (n2n_tcp_connection \<Rightarrow> n2n_tcp_connection) \<Rightarrow> n2n_sn \<Rightarrow> n2n_sn" where
  "upd_conn k f sss = sss\<lparr>tcp_connections := (tcp_connections sss)[k := f (tcp_connections sss ! k)]\<rparr>"

text \<open>
  A readable connection on which the bytes \<open>avail\<close> have arrived. When the connection has been freed while its packet was processed, the reset of
  its counters is an access to freed memory, hence \<open>None\<close>.
\<close>

definition tcp_read :: "n2n_PEER_INFO \<Rightarrow> nat \<Rightarrow> bytes \<Rightarrow> int \<Rightarrow> n2n_sn \<Rightarrow> runtime \<Rightarrow> (n2n_sn \<times> runtime) option" where
  "tcp_read pi0 k avail now sss rt = do {
     let conn = tcp_connections sss ! k;
     (ev, conn) \<leftarrow> tcp_received conn (take (recv_size conn) avail);
     let sss = upd_conn k (\<lambda>_. conn) sss;
     (case ev of
        Tcp_wait \<Rightarrow> Some (sss, rt)
      | Tcp_close \<Rightarrow> let (_, sss, rt) = close_tcp_connection sss (Some k) rt in Some (sss, rt)
      | Tcp_packet p \<Rightarrow> do {
          (_, sss, rt) \<leftarrow> process_udp pi0 sss (tc_sock conn) (tc_sock_len conn) (tc_fd conn) p (length p) now rt;
          k \<leftarrow> HASH_FIND tc_fd (tc_fd conn) (tcp_connections sss);
          Some (upd_conn k tcp_reset sss, rt) }) }"

text \<open>
  The loop over the connections; \<open>ready\<close> says what has arrived on the readable ones. \<open>HASH_ITER\<close> has fetched the next connection before the body
  runs; when it has been freed in the meantime the loop follows a dangling pointer. The first argument bounds the number of iterations.
\<close>

primrec conn_loop :: "nat \<Rightarrow> n2n_PEER_INFO \<Rightarrow> (int \<Rightarrow> bytes option) \<Rightarrow> int \<Rightarrow> nat \<Rightarrow> n2n_sn \<Rightarrow> runtime \<Rightarrow> (n2n_sn \<times> runtime) option" where
  "conn_loop 0 pi0 ready now k sss rt = Some (sss, rt)"
| "conn_loop (Suc n) pi0 ready now k sss rt =
     (let conns = tcp_connections sss in
      if k < length conns then do {
        let next = (if k + 1 < length conns then Some (tc_fd (conns ! (k + 1))) else None);
        (sss, rt) \<leftarrow> (if tc_inactive (conns ! k) then Some (sss, rt)
          else (case ready (tc_fd (conns ! k)) of None \<Rightarrow> Some (sss, rt) | Some avail \<Rightarrow> tcp_read pi0 k avail now sss rt));
        (case next of
           None \<Rightarrow> Some (sss, rt)
         | Some fd \<Rightarrow> do { k \<leftarrow> HASH_FIND tc_fd fd (tcp_connections sss); conn_loop n pi0 ready now k sss rt }) }
      else Some (sss, rt))"

definition remove_inactive :: "n2n_sn \<Rightarrow> n2n_sn" where
  "remove_inactive sss = sss\<lparr>tcp_connections := filter (\<lambda>conn. \<not> tc_inactive conn) (tcp_connections sss)\<rparr>"

abbreviation FD_SETSIZE :: nat where "FD_SETSIZE \<equiv> 1024"

text \<open>The arguments are what \<open>accept\<close> returns: a descriptor, the address of the other side and its length.\<close>

definition tcp_accept :: "int \<times> sockaddr \<times> nat \<Rightarrow> n2n_sn \<Rightarrow> n2n_sn" where
  "tcp_accept a sss =
     (case a of (fd, sa, len) \<Rightarrow>
        if length (tcp_connections sss) + 4 < FD_SETSIZE \<and> fd \<ge> 0
        then sss\<lparr>tcp_connections := HASH_ADD (tcp_accepted fd sa len) (tcp_connections sss)\<rparr> else sss)"

primrec close_all :: "nat \<Rightarrow> nat \<Rightarrow> n2n_sn \<Rightarrow> runtime \<Rightarrow> n2n_sn \<times> runtime" where
  "close_all 0 k sss rt = (sss, rt)"
| "close_all (Suc n) k sss rt = (let (_, sss, rt) = close_tcp_connection sss (Some k) rt in close_all n (k + 1) sss rt)"

subsection \<open>An iteration\<close>

text \<open>
  What one iteration finds: the time before and after \<open>select\<close>, whether it reports readable descriptors and which ones, the answers of
  the KCP library and the readings of the clock, and whether the process is to keep running.
\<close>

record sn_input =
  si_now :: int
  si_early :: bool
  si_ready :: bool
  si_udp :: "(sockaddr \<times> nat \<times> bytes \<times> kcp_answer) option"
  si_tcp :: "int \<Rightarrow> bytes option"
  si_accept :: "(int \<times> sockaddr \<times> nat) option"
  si_dead :: "n2n_kcp_channel \<Rightarrow> n2n_kcp_ctx \<Rightarrow> bool"
  si_time :: int

record sn_timers =
  last_purge_edges :: int
  last_sort_communities :: int
  last_re_reg_and_purge :: int

definition sn_receive :: "n2n_PEER_INFO \<Rightarrow> sn_input \<Rightarrow> n2n_sn \<Rightarrow> runtime \<Rightarrow> (n2n_sn \<times> runtime) option" where
  "sn_receive pi0 inp sss rt =
     (if si_ready inp then do {
        (sss, rt) \<leftarrow> (case si_udp inp of None \<Rightarrow> Some (sss, rt)
          | Some (sa, len, buf, answer) \<Rightarrow> udp_ready pi0 sa len buf (si_now inp) (si_time inp) answer sss rt);
        (sss, rt) \<leftarrow> conn_loop (length (tcp_connections sss)) pi0 (si_tcp inp) (si_now inp) 0 sss rt;
        let sss = remove_inactive sss;
        Some (case si_accept inp of None \<Rightarrow> sss | Some a \<Rightarrow> tcp_accept a sss, rt) }
      else Some (if si_early inp then close_all (length (tcp_connections sss)) 0 sss rt else (sss, rt)))"

definition sn_iteration :: "n2n_PEER_INFO \<Rightarrow> sn_input \<Rightarrow> sn_timers \<Rightarrow> n2n_sn \<Rightarrow> runtime \<Rightarrow> (sn_timers \<times> n2n_sn \<times> runtime) option" where
  "sn_iteration pi0 inp tm sss rt = do {
     let now = si_now inp;
     let sss = n2n_kcp_sn_update (si_dead inp) (si_time inp) sss;
     (sss, rt) \<leftarrow> sn_receive pi0 inp sss rt;
     (sss, l1, rt) \<leftarrow> re_register_and_purge_supernodes sss (federation sss) (last_re_reg_and_purge tm) now False (si_time inp) rt;
     let (sss, l2, rt) = purge_expired_communities sss (last_purge_edges tm) now rt;
     let (sss, l3) = sort_communities sss (last_sort_communities tm) now;
     Some (\<lparr>last_purge_edges = l2, last_sort_communities = l3, last_re_reg_and_purge = l1\<rparr>, sss, rt) }"

fun run_sn_loop :: "n2n_PEER_INFO \<Rightarrow> sn_input list \<Rightarrow> sn_timers \<Rightarrow> n2n_sn \<Rightarrow> runtime \<Rightarrow> (sn_timers \<times> n2n_sn \<times> runtime) option" where
  "run_sn_loop pi0 [] tm sss rt = Some (tm, sss, rt)"
| "run_sn_loop pi0 (inp # inps) tm sss rt = do {
     (tm, sss, rt) \<leftarrow> sn_iteration pi0 inp tm sss rt;
     run_sn_loop pi0 inps tm sss rt }"

subsection \<open>The loop stays within the steps\<close>

named_theorems reach_rules

lemma reach_step: "sn_reaches s t \<Longrightarrow> sn_step t u \<Longrightarrow> sn_reaches s u"
  by (rule rtranclp.rtrancl_into_rtrancl)

lemma reach_udp [reach_rules]: "process_udp pi0 t sa len fd buf n now rt = Some (r, u, rt') \<Longrightarrow> sn_reaches s t \<Longrightarrow> sn_reaches s u"
  by (blast intro: reach_step sn_step.datagram)

lemma reach_close [reach_rules]: "close_tcp_connection t conn rt = (e, u, rt') \<Longrightarrow> sn_reaches s t \<Longrightarrow> sn_reaches s u"
  by (blast intro: reach_step sn_step.close)

lemma reach_sessions: "sn_reaches s t \<Longrightarrow> sn_reaches s (set_kcp_table ch l t)"
  by (blast intro: reach_step sn_step.sessions)

lemma reach_connections: "sn_reaches s t \<Longrightarrow> sn_reaches s (t\<lparr>tcp_connections := l\<rparr>)"
  by (blast intro: reach_step sn_step.connections)

lemma reach_process_input [reach_rules]:
  assumes "n2n_kcp_sn_process_input t sa buf now tn ans = (r, ch, msgs, u)" and "sn_reaches s t"
  shows "sn_reaches s u"
proof -
  have "sn_reaches s v" if "n2n_kcp_sn_find_or_create t remote conv c tn = (i, b, v)" for remote conv c i b v
    using that assms(2) by (auto simp: n2n_kcp_sn_find_or_create_def n2n_kcp_sn_drop_ctx_def Let_def intro: reach_sessions split: option.splits if_splits)
  then show ?thesis
    using assms by (auto simp: n2n_kcp_sn_process_input_def n2n_kcp_sn_drop_ctx_def Let_def intro!: reach_sessions split: option.splits prod.splits if_splits)
qed

lemma reach_messages [reach_rules]:
  "kcp_messages pi0 sa len ch now ms t rt = Some (u, rt') \<Longrightarrow> sn_reaches s t \<Longrightarrow> sn_reaches s u"
  by (induction ms arbitrary: t rt) (auto elim!: bind_SomeE split: option.splits if_splits prod.splits dest: reach_udp)

lemma reach_udp_ready [reach_rules]: "udp_ready pi0 sa len buf now tn ans t rt = Some (u, rt') \<Longrightarrow> sn_reaches s t \<Longrightarrow> sn_reaches s u"
  by (auto simp: udp_ready_def elim!: bind_SomeE reach_rules split: if_splits prod.splits)

lemma reach_update: "sn_reaches s t \<Longrightarrow> sn_reaches s (n2n_kcp_sn_update d now t)"
  unfolding n2n_kcp_sn_update_def Let_def by (intro reach_sessions)

lemma reach_upd_conn: "sn_reaches s t \<Longrightarrow> sn_reaches s (upd_conn k f t)"
  by (simp add: upd_conn_def reach_connections)

lemma reach_tcp_read [reach_rules]: "tcp_read pi0 k avail now t rt = Some (u, rt') \<Longrightarrow> sn_reaches s t \<Longrightarrow> sn_reaches s u"
  by (auto simp: tcp_read_def Let_def elim!: bind_SomeE reach_rules split: prod.splits tcp_event.splits intro!: reach_upd_conn)

lemma reach_conn_loop [reach_rules]:
  "conn_loop n pi0 ready now k t rt = Some (u, rt') \<Longrightarrow> sn_reaches s t \<Longrightarrow> sn_reaches s u"
proof (induction n arbitrary: k t rt)
  case (Suc n)
  then show ?case
    by (auto simp: Let_def elim!: bind_SomeE split: prod.splits if_splits option.splits dest: reach_tcp_read)
qed simp

lemma reach_close_all [reach_rules]: "close_all n k t rt = (u, rt') \<Longrightarrow> sn_reaches s t \<Longrightarrow> sn_reaches s u"
  by (induction n arbitrary: k t rt) (auto split: prod.splits dest: reach_close)

lemma reach_receive [reach_rules]: "sn_receive pi0 inp t rt = Some (u, rt') \<Longrightarrow> sn_reaches s t \<Longrightarrow> sn_reaches s u"
  by (auto simp: sn_receive_def remove_inactive_def tcp_accept_def Let_def elim!: bind_SomeE reach_rules
      split: prod.splits if_splits option.splits intro!: reach_connections)

lemma reach_iteration: "sn_iteration pi0 inp tm t rt = Some (tm', u, rt') \<Longrightarrow> sn_reaches s t \<Longrightarrow> sn_reaches s u"
proof -
  assume it: "sn_iteration pi0 inp tm t rt = Some (tm', u, rt')" and t: "sn_reaches s t"
  let ?t0 = "n2n_kcp_sn_update (si_dead inp) (si_time inp) t"
  obtain t1 rt1 t2 l1 rt2 t3 l2 rt3 l3 where r: "sn_receive pi0 inp ?t0 rt = Some (t1, rt1)"
      "re_register_and_purge_supernodes t1 (federation t1) (last_re_reg_and_purge tm) (si_now inp) False (si_time inp) rt1 = Some (t2, l1, rt2)"
      "purge_expired_communities t2 (last_purge_edges tm) (si_now inp) rt2 = (t3, l2, rt3)"
      "sort_communities t3 (last_sort_communities tm) (si_now inp) = (u, l3)"
    using it by (auto simp: sn_iteration_def Let_def elim!: bind_SomeE split: prod.splits)
  have "sn_reaches s t1" using reach_receive [OF r(1) reach_update [OF t]] .
  then have "sn_reaches s t3" using reach_step sn_step.reregister [OF r(2)] sn_step.purge [OF r(3)] by blast
  then show "sn_reaches s u" using reach_step sn_step.sort [OF r(4)] by blast
qed

lemma run_sn_loop_reaches: "run_sn_loop pi0 inps tm u rt = Some (tm', t, rt') \<Longrightarrow> sn_reaches s u \<Longrightarrow> sn_reaches s t"
  by (induction inps arbitrary: tm u rt) (auto elim!: bind_SomeE split: prod.splits dest: reach_iteration)



end
