(* ===== verification/Traffic_Filter.thy ===== *)
theory Traffic_Filter
  imports Tables N2n_Util Header_Encryption "HOL-Library.Sublist"
begin

text \<open>
  The filter of network traffic, \<^verbatim>\<open>src/network_traffic_filter.c\<close>: the classification of frames, the choice of a rule, the cache of verdicts
  per connection. Addresses are in network byte order, as they lie in memory.
\<close>

subsection \<open>Data\<close>

datatype filter_packet_proto = FPP_UNKNOWN | FPP_ARP | FPP_TCP | FPP_UDP | FPP_ICMP | FPP_IGMP

record packet_address_proto_info =
  src_ip :: u32
  src_port :: u16
  dst_ip :: u32
  dst_port :: u16
  proto :: filter_packet_proto

record port_range =
  start_port :: u16
  end_port :: u16

record filter_rule_key =
  src_net_cidr :: u32
  src_net_bit_len :: byte
  src_port_range :: port_range
  dst_net_cidr :: u32
  dst_net_bit_len :: byte
  dst_port_range :: port_range
  bool_tcp_configured :: bool
  bool_udp_configured :: bool
  bool_icmp_configured :: bool

record filter_rule =
  rule_key :: filter_rule_key
  bool_accept_icmp :: bool
  bool_accept_udp :: bool
  bool_accept_tcp :: bool

record filter_rule_pair_cache =
  cache_key :: packet_address_proto_info
  bool_allow_traffic :: bool
  active_count :: u32

record network_traffic_filter =
  rules :: "filter_rule list"
  connections_rule_cache :: "filter_rule_pair_cache list"
  work_count_scene_last_clear :: u32

subsection \<open>Classification of a frame\<close>

definition zero_info :: packet_address_proto_info where
  "zero_info = \<lparr>src_ip = 0, src_port = 0, dst_ip = 0, dst_port = 0, proto = FPP_UNKNOWN\<rparr>"

text \<open>
  The ports of a packet with the header of its transport protocol at offset \<open>off\<close>. The size that is left is only compared with zero, so
  that fields behind the end of the frame are read from what the buffer holds there; \<open>None\<close> if they are outside of the buffer.
\<close>

definition collect_ports :: "bytes \<Rightarrow> nat \<Rightarrow> int \<Rightarrow> packet_address_proto_info \<Rightarrow> packet_address_proto_info option" where
  "collect_ports buffer off sz info =
     (if sz \<le> 0 then Some info
      else do {
        source \<leftarrow> rd buffer off 2;
        dest \<leftarrow> rd buffer (off + 2) 2;
        Some (info\<lparr>src_port := be_word source, dst_port := be_word dest\<rparr>) })"

definition collect_packet_info :: "bytes \<Rightarrow> int \<Rightarrow> packet_address_proto_info option" where
  "collect_packet_info buffer sz = do {
     ty \<leftarrow> rd buffer 12 2;
     if be_word ty = (0x0800 :: u16) then
       let sz = sz - 14 in
       if sz \<le> 0 then Some zero_info
       else do {
         ip \<leftarrow> rd buffer 14 20;
         if drop_bit 4 (ip ! 0) = 4 then
           let info = zero_info\<lparr>src_ip := ld32 (take 4 (drop 12 ip)), dst_ip := ld32 (take 4 (drop 16 ip))\<rparr>;
               protocol = ip ! 9; header = unat (ip ! 0 AND 0xF) * 4 in
           if protocol = 1 then Some (info\<lparr>proto := FPP_ICMP\<rparr>)
           else if protocol = 2 then Some (info\<lparr>proto := FPP_IGMP\<rparr>)
           else if protocol = 6 then collect_ports buffer (14 + header) (sz - int header) (info\<lparr>proto := FPP_TCP\<rparr>)
           else if protocol = 17 then collect_ports buffer (14 + header) (sz - int header) (info\<lparr>proto := FPP_UDP\<rparr>)
           else Some info
         else Some zero_info }
     else if be_word ty = (0x0806 :: u16) then Some (zero_info\<lparr>proto := FPP_ARP\<rparr>)
     else Some zero_info }"

subsection \<open>Choice of a rule\<close>

text \<open>A prefix length above 32 makes the shift undefined. The rules are \<open>0\<close> for no match, otherwise the length of the prefix plus one.\<close>

definition march_cidr_and_address :: "u32 \<Rightarrow> byte \<Rightarrow> u32 \<Rightarrow> byte option" where
  "march_cidr_and_address network bitlen ip_addr =
     (if bitlen > 32 then None
      else let network = htobe32 network; ip_addr = htobe32 ip_addr;
               mask1 = (if bitlen \<noteq> 0 then push_bit (32 - unat bitlen) (- 1) else 0);
               ip_addr_network = ip_addr AND mask1
           in Some (if network = ip_addr_network then bitlen + 1 else 0))"

definition march_rule_and_cache_key :: "filter_rule_key \<Rightarrow> packet_address_proto_info \<Rightarrow> byte option" where
  "march_rule_and_cache_key key info =
     (if \<not> (case proto info of FPP_ICMP \<Rightarrow> bool_icmp_configured key | FPP_UDP \<Rightarrow> bool_udp_configured key
            | FPP_TCP \<Rightarrow> bool_tcp_configured key | _ \<Rightarrow> False) then Some 0
      else if proto info = FPP_ICMP \<or> start_port (src_port_range key) \<le> src_port info \<and> src_port info \<le> end_port (src_port_range key)
          \<and> start_port (dst_port_range key) \<le> dst_port info \<and> dst_port info \<le> end_port (dst_port_range key) then do {
        s \<leftarrow> march_cidr_and_address (src_net_cidr key) (src_net_bit_len key) (src_ip info);
        d \<leftarrow> march_cidr_and_address (dst_net_cidr key) (dst_net_bit_len key) (dst_ip info);
        Some (if s > 0 \<and> d > 0 then s + d else 0) }
      else Some 0)"

primrec get_filter_rule_loop :: "filter_rule list \<Rightarrow> packet_address_proto_info \<Rightarrow> filter_rule option \<Rightarrow> byte \<Rightarrow> filter_rule option option" where
  "get_filter_rule_loop [] info marched_rule march_score = Some marched_rule"
| "get_filter_rule_loop (item # l) info marched_rule march_score = do {
     cur \<leftarrow> march_rule_and_cache_key (rule_key item) info;
     if cur > march_score then get_filter_rule_loop l info (Some item) cur else get_filter_rule_loop l info marched_rule march_score }"

definition get_filter_rule :: "filter_rule list \<Rightarrow> packet_address_proto_info \<Rightarrow> filter_rule option option" where
  "get_filter_rule rs info = get_filter_rule_loop rs info None 0"

subsection \<open>The cache\<close>

abbreviation CLEAR_CACHE_EVERY_X_COUNT :: u32 where "CLEAR_CACHE_EVERY_X_COUNT \<equiv> 10000"
abbreviation CLAER_CACHE_ACTIVE_COUNT :: u32 where "CLAER_CACHE_ACTIVE_COUNT \<equiv> 10"

definition clear_cache :: "filter_rule_pair_cache list \<Rightarrow> filter_rule_pair_cache list" where
  "clear_cache l = map (\<lambda>item. item\<lparr>active_count := 0\<rparr>) (filter (\<lambda>item. \<not> active_count item < CLAER_CACHE_ACTIVE_COUNT) l)"

definition update_and_clear_cache_if_need :: "network_traffic_filter \<Rightarrow> network_traffic_filter" where
  "update_and_clear_cache_if_need f =
     (let f = f\<lparr>work_count_scene_last_clear := work_count_scene_last_clear f + 1\<rparr> in
      if work_count_scene_last_clear f > CLEAR_CACHE_EVERY_X_COUNT
      then f\<lparr>connections_rule_cache := clear_cache (connections_rule_cache f), work_count_scene_last_clear := 0\<rparr> else f)"

text \<open>
  The result is a pointer to the entry for the packet, or \<open>NULL\<close>. A pointer is named by the key of the entry, because the entry it points to may
  have been freed when the function returns.
\<close>

definition rule_verdict :: "filter_rule \<Rightarrow> filter_packet_proto \<Rightarrow> bool option" where
  "rule_verdict rule p = (case p of FPP_ICMP \<Rightarrow> Some (bool_accept_icmp rule) | FPP_UDP \<Rightarrow> Some (bool_accept_udp rule)
     | FPP_TCP \<Rightarrow> Some (bool_accept_tcp rule) | _ \<Rightarrow> None)"

definition get_or_create_filter_rule_cache ::
  "network_traffic_filter \<Rightarrow> packet_address_proto_info \<Rightarrow> (packet_address_proto_info option \<times> network_traffic_filter) option" where
  "get_or_create_filter_rule_cache f info =
     (let hit = (\<lambda>l i. Some (Some info, update_and_clear_cache_if_need (f\<lparr>connections_rule_cache := l[i := (l ! i)\<lparr>active_count := active_count (l ! i) + 1\<rparr>]\<rparr>)));
          cache = connections_rule_cache f in
      case HASH_FIND cache_key info cache of
        Some i \<Rightarrow> hit cache i
      | None \<Rightarrow> do {
          rule \<leftarrow> get_filter_rule (rules f) info;
          (case rule of
             None \<Rightarrow> Some (None, f)
           | Some rule \<Rightarrow>
               (case rule_verdict rule (proto info) of
                  None \<Rightarrow> Some (None, f)
                | Some allow \<Rightarrow> hit (HASH_ADD \<lparr>cache_key = info, bool_allow_traffic = allow, active_count = 0\<rparr> cache) (length cache))) })"

text \<open>The verdict of the filter: whether the frame is dropped. It is \<open>None\<close> if the verdict is read from an entry that has been freed.\<close>

definition filter_packet :: "network_traffic_filter \<Rightarrow> bytes \<Rightarrow> u16 \<Rightarrow> (bool \<times> network_traffic_filter) option" where
  "filter_packet f payload payload_size = do {
     info \<leftarrow> collect_packet_info payload (uint payload_size);
     (entry, f) \<leftarrow> get_or_create_filter_rule_cache f info;
     (case entry of
        None \<Rightarrow> Some (False, f)
      | Some k \<Rightarrow> do {
          i \<leftarrow> HASH_FIND cache_key k (connections_rule_cache f);
          Some (\<not> bool_allow_traffic (connections_rule_cache f ! i), f) }) }"

definition create_network_traffic_filter :: network_traffic_filter where
  "create_network_traffic_filter = \<lparr>rules = [], connections_rule_cache = [], work_count_scene_last_clear = 0\<rparr>"

definition network_traffic_filter_add_rule :: "network_traffic_filter \<Rightarrow> filter_rule list \<Rightarrow> network_traffic_filter" where
  "network_traffic_filter_add_rule f new = f\<lparr>rules := fold HASH_ADD new (rules f)\<rparr>"


subsection \<open>What the choice means\<close>

text \<open>The rule of a connection: its protocol is configured, its ports are in the ranges, its addresses in the networks.\<close>

definition covers :: "u32 \<Rightarrow> byte \<Rightarrow> u32 \<Rightarrow> bool" where
  "covers network n ip \<longleftrightarrow> uint (htobe32 network) = uint (htobe32 ip) div 2 ^ (32 - unat n) * 2 ^ (32 - unat n)"

definition matches :: "filter_rule_key \<Rightarrow> packet_address_proto_info \<Rightarrow> bool" where
  "matches key info \<longleftrightarrow>
     (case proto info of FPP_ICMP \<Rightarrow> bool_icmp_configured key | FPP_UDP \<Rightarrow> bool_udp_configured key | FPP_TCP \<Rightarrow> bool_tcp_configured key | _ \<Rightarrow> False)
     \<and> (proto info = FPP_ICMP \<or> src_port info \<in> {start_port (src_port_range key)..end_port (src_port_range key)}
          \<and> dst_port info \<in> {start_port (dst_port_range key)..end_port (dst_port_range key)})
     \<and> covers (src_net_cidr key) (src_net_bit_len key) (src_ip info) \<and> covers (dst_net_cidr key) (dst_net_bit_len key) (dst_ip info)"

definition specificity :: "filter_rule_key \<Rightarrow> nat" where
  "specificity key = unat (src_net_bit_len key) + unat (dst_net_bit_len key)"

definition rule_wf :: "filter_rule \<Rightarrow> bool" where
  "rule_wf r \<longleftrightarrow> src_net_bit_len (rule_key r) \<le> 32 \<and> dst_net_bit_len (rule_key r) \<le> 32"

lemma and_prefix: "uint ((ip :: u32) AND push_bit k (- 1)) = uint ip div 2 ^ k * 2 ^ k"
proof -
  have "uint (ip AND push_bit k (- 1)) = push_bit k (drop_bit k (uint ip))"
    by (rule bit_eqI) (auto simp: bit_simps dest: bit_imp_le_length)
  then show ?thesis by (simp add: push_bit_eq_mult drop_bit_eq_div)
qed

lemma march_cidr_covers:
  assumes "n \<le> 32"
  shows "march_cidr_and_address network n ip = Some (if covers network n ip then n + 1 else 0)"
proof -
  define m :: u32 where "m = (if n \<noteq> 0 then push_bit (32 - unat n) (- 1) else 0)"
  have "m = push_bit (32 - unat n) (- 1)" unfolding m_def by (auto simp: push_bit_eq_mult)
  then have "htobe32 network = htobe32 ip AND m \<longleftrightarrow> covers network n ip"
    unfolding covers_def word_uint_eq_iff [of "htobe32 network"] by (simp only: and_prefix)
  then show ?thesis using assms by (auto simp: march_cidr_and_address_def Let_def m_def)
qed

lemma march_rule_matches:
  assumes "rule_wf r"
  shows "march_rule_and_cache_key (rule_key r) info = Some (if matches (rule_key r) info then of_nat (specificity (rule_key r) + 2) else 0)"
proof -
  have n: "src_net_bit_len (rule_key r) \<le> 32" "dst_net_bit_len (rule_key r) \<le> 32" using assms by (simp_all add: rule_wf_def)
  have p: "n + 1 > 0" if "n \<le> 32" for n :: byte using that by (simp add: word_less_nat_alt word_le_nat_alt unat_word_ariths)
  show ?thesis using n p
    by (auto simp: march_rule_and_cache_key_def march_cidr_covers matches_def specificity_def)
qed


text \<open>The rule that is chosen is the first of the most specific ones that match.\<close>

definition best_rule :: "filter_rule list \<Rightarrow> packet_address_proto_info \<Rightarrow> filter_rule option" where
  "best_rule rs info =
     (let ms = filter (\<lambda>r. matches (rule_key r) info) rs
      in find (\<lambda>r. \<forall>q \<in> set ms. specificity (rule_key q) \<le> specificity (rule_key r)) ms)"

lemma specificity_score: "rule_wf r \<Longrightarrow> unat (of_nat (specificity (rule_key r) + 2) :: byte) = specificity (rule_key r) + 2"
  unfolding unat_of_nat by (rule mod_less) (simp add: rule_wf_def specificity_def word_le_nat_alt)

lemma best_rule_Cons:
  "best_rule (r # rs) info =
     (if matches (rule_key r) info
      then (case best_rule rs info of None \<Rightarrow> Some r | Some q \<Rightarrow> if specificity (rule_key q) \<le> specificity (rule_key r) then Some r else Some q)
      else best_rule rs info)"
proof (cases "matches (rule_key r) info")
  case True
  define ms where "ms = filter (\<lambda>r. matches (rule_key r) info) rs"
  let ?sp = "\<lambda>r. specificity (rule_key r)"
  let ?top = "\<lambda>l r. \<forall>q \<in> set l. ?sp q \<le> ?sp r"
  have b: "best_rule rs info = find (?top ms) ms" "best_rule (r # rs) info = find (?top (r # ms)) (r # ms)"
    using True by (simp_all add: best_rule_def ms_def)
  show ?thesis
  proof (cases "?top ms r")
    case top: True
    then show ?thesis using True unfolding b by (auto split: option.split simp: find_Some_iff)
  next
    case False
    then have ne: "ms \<noteq> []" by auto
    have "Max (?sp ` set ms) \<in> ?sp ` set ms" using ne by (intro Max_in) simp_all
    then obtain m where m: "m \<in> set ms" "?sp m = Max (?sp ` set ms)" by fastforce
    then have "?top ms m" by simp
    with m obtain q where q: "find (?top ms) ms = Some q" "?top ms q" "q \<in> set ms" 
      by (cases "find (?top ms) ms") (auto simp: find_None_iff find_Some_iff)
    have lt: "?sp r < ?sp q" using False q(2) by (meson le_trans not_le)
    have "?sp r \<le> ?sp x" if "?top ms x" for x using that q(3) lt by fastforce
    then have "find (?top (r # ms)) ms = find (?top ms) ms" by (intro find_cong) auto
    then show ?thesis using True False lt q(1) unfolding b by auto
  qed
qed (simp add: best_rule_def)


lemma get_filter_rule_loop_best:
  assumes "list_all rule_wf rs"
  shows "get_filter_rule_loop rs info m sc = Some (case best_rule rs info of None \<Rightarrow> m
    | Some q \<Rightarrow> if unat sc < specificity (rule_key q) + 2 then Some q else m)"
  using assms
proof (induction rs arbitrary: m sc)
  case (Cons r rs)
  then show ?case
    using march_rule_matches [of r info] specificity_score [of r]
    by (auto simp: best_rule_Cons word_less_nat_alt simp del: of_nat_add of_nat_numeral split: option.split)
qed (simp add: best_rule_def)

lemma get_filter_rule_best: "list_all rule_wf rs \<Longrightarrow> get_filter_rule rs info = Some (best_rule rs info)"
  by (simp add: get_filter_rule_def get_filter_rule_loop_best split: option.split)

lemma best_rule_SomeD:
  assumes "best_rule rs info = Some r"
  shows "r \<in> set rs" "matches (rule_key r) info" "q \<in> set rs \<Longrightarrow> matches (rule_key q) info \<Longrightarrow> specificity (rule_key q) \<le> specificity (rule_key r)"
proof -
  let ?ms = "filter (\<lambda>r. matches (rule_key r) info) rs"
  have r: "r \<in> set ?ms" "\<forall>q \<in> set ?ms. specificity (rule_key q) \<le> specificity (rule_key r)"
    using assms by (auto simp: best_rule_def Let_def find_Some_iff simp del: set_filter)
  then show "r \<in> set rs" "matches (rule_key r) info" "q \<in> set rs \<Longrightarrow> matches (rule_key q) info \<Longrightarrow> specificity (rule_key q) \<le> specificity (rule_key r)"
    by auto
qed

lemma best_rule_None: "best_rule rs info = None \<longleftrightarrow> (\<forall>q \<in> set rs. \<not> matches (rule_key q) info)"
  by (induction rs) (auto simp: best_rule_Cons best_rule_def [of "[]"] split: option.splits)

lemma matches_proto: "matches key info \<Longrightarrow> proto info \<in> {FPP_ICMP, FPP_UDP, FPP_TCP}"
  by (cases "proto info") (simp_all add: matches_def)

subsection \<open>The cache is transparent\<close>

text \<open>The verdict of the rules, without a cache: whether a packet is dropped.\<close>

definition drops :: "filter_rule list \<Rightarrow> packet_address_proto_info \<Rightarrow> bool" where
  "drops rs info \<longleftrightarrow> (case best_rule rs info of None \<Rightarrow> False | Some r \<Rightarrow> rule_verdict r (proto info) = Some False)"

text \<open>What the cache holds are verdicts of the rules.\<close>

definition cache_ok :: "network_traffic_filter \<Rightarrow> bool" where
  "cache_ok f \<longleftrightarrow> list_all rule_wf (rules f) \<and> distinct (map cache_key (connections_rule_cache f))
     \<and> (\<forall>c \<in> set (connections_rule_cache f). bool_allow_traffic c = (\<not> drops (rules f) (cache_key c)))"

lemma keys_clear: "map cache_key (clear_cache l) = map cache_key (filter (\<lambda>item. \<not> active_count item < CLAER_CACHE_ACTIVE_COUNT) l)"
  by (simp add: clear_cache_def)

lemma cache_ok_update: "cache_ok f \<Longrightarrow> cache_ok (update_and_clear_cache_if_need f) \<and> rules (update_and_clear_cache_if_need f) = rules f"
  by (auto simp: update_and_clear_cache_if_need_def cache_ok_def Let_def keys_clear distinct_map_filter) (auto simp: clear_cache_def)

lemma cache_ok_hit:
  assumes "cache_ok (f\<lparr>connections_rule_cache := l\<rparr>)" "i < length l"
  shows "cache_ok (f\<lparr>connections_rule_cache := l[i := (l ! i)\<lparr>active_count := n\<rparr>]\<rparr>)"
proof -
  have "map cache_key (l[i := (l ! i)\<lparr>active_count := n\<rparr>]) = map cache_key l" using assms(2) by (simp add: map_update list_update_same_conv)
  then show ?thesis using assms by (auto simp: cache_ok_def dest!: set_update_subset_insert [THEN subsetD])
qed


text \<open>An entry for the packet: it is the one found, or a new one for the rule of the packet.\<close>

definition looked_up :: "network_traffic_filter \<Rightarrow> packet_address_proto_info \<Rightarrow> (filter_rule_pair_cache list \<times> nat) option" where
  "looked_up f info =
     (case HASH_FIND cache_key info (connections_rule_cache f) of
        Some i \<Rightarrow> Some (connections_rule_cache f, i)
      | None \<Rightarrow> map_option (\<lambda>r. (connections_rule_cache f @ [\<lparr>cache_key = info, bool_allow_traffic = (\<not> drops (rules f) info), active_count = 0\<rparr>],
          length (connections_rule_cache f))) (best_rule (rules f) info))"

definition touched :: "network_traffic_filter \<Rightarrow> filter_rule_pair_cache list \<Rightarrow> nat \<Rightarrow> network_traffic_filter" where
  "touched f l i = f\<lparr>connections_rule_cache := l[i := (l ! i)\<lparr>active_count := active_count (l ! i) + 1\<rparr>]\<rparr>"

lemma looked_up_cases:
  assumes "cache_ok f"
  shows "get_or_create_filter_rule_cache f info = Some (case looked_up f info of None \<Rightarrow> (None, f) | Some (l, i) \<Rightarrow> (Some info, update_and_clear_cache_if_need (touched f l i)))"
proof (cases "HASH_FIND cache_key info (connections_rule_cache f)")
  case None
  have g: "get_filter_rule (rules f) info = Some (best_rule (rules f) info)" using assms by (simp add: cache_ok_def get_filter_rule_best)
  show ?thesis
  proof (cases "best_rule (rules f) info")
    case (Some r)
    then obtain a where "rule_verdict r (proto info) = Some a" "a = (\<not> drops (rules f) info)"
      using matches_proto [OF best_rule_SomeD(2) [OF Some]] by (auto simp: rule_verdict_def drops_def)
    then show ?thesis using None g Some by (simp add: get_or_create_filter_rule_cache_def looked_up_def touched_def HASH_ADD_def)
  qed (simp add: get_or_create_filter_rule_cache_def looked_up_def None g)
qed (simp add: get_or_create_filter_rule_cache_def looked_up_def touched_def)

lemma looked_up_SomeD:
  assumes "cache_ok f" "looked_up f info = Some (l, i)"
  shows "i < length l" "cache_key (l ! i) = info" "cache_ok (f\<lparr>connections_rule_cache := l\<rparr>)" "set (map cache_key l) = insert info (set (map cache_key (connections_rule_cache f)))"
proof -
  show i: "i < length l" "cache_key (l ! i) = info"
    using assms(2) find_index_Some by (fastforce simp: looked_up_def HASH_FIND_def split: option.splits)+
  have f: "info \<notin> cache_key ` set (connections_rule_cache f)" if "HASH_FIND cache_key info (connections_rule_cache f) = None"
    using that by (auto simp: HASH_FIND_def find_index_None)
  show "cache_ok (f\<lparr>connections_rule_cache := l\<rparr>)" using assms f by (auto simp: looked_up_def cache_ok_def split: option.splits)
  show "set (map cache_key l) = insert info (set (map cache_key (connections_rule_cache f)))"
  proof (cases "HASH_FIND cache_key info (connections_rule_cache f)")
    case (Some j)
    then have "l = connections_rule_cache f" using assms(2) by (simp add: looked_up_def)
    then show ?thesis using nth_mem [OF i(1)] i(2) by auto
  qed (use assms(2) in \<open>auto simp: looked_up_def\<close>)
qed

lemma cache_ok_entry:
  assumes "cache_ok f" "HASH_FIND cache_key info (connections_rule_cache f) = Some j"
  shows "bool_allow_traffic (connections_rule_cache f ! j) = (\<not> drops (rules f) info)"
  using assms find_index_Some by (fastforce simp: HASH_FIND_def cache_ok_def)

lemma touched_ok:
  assumes "cache_ok f" "looked_up f info = Some (l, i)"
  shows "cache_ok (touched f l i)" "rules (touched f l i) = rules f" "work_count_scene_last_clear (touched f l i) = work_count_scene_last_clear f"
    "map cache_key (connections_rule_cache (touched f l i)) = map cache_key l"
  using cache_ok_hit [OF looked_up_SomeD(3,1) [OF assms]] looked_up_SomeD(1) [OF assms]
  by (simp_all add: touched_def map_update list_update_same_conv)

lemma filter_packet_ok:
  assumes "cache_ok f" "collect_packet_info payload (uint n) = Some info" "filter_packet f payload n = Some (d, f')"
  shows "d = drops (rules f) info \<and> cache_ok f' \<and> rules f' = rules f"
proof (cases "looked_up f info")
  case None
  then have "best_rule (rules f) info = None" by (simp add: looked_up_def split: option.splits)
  then show ?thesis using assms None by (auto simp: filter_packet_def looked_up_cases drops_def)
next
  case (Some li)
  obtain l i where l: "looked_up f info = Some (l, i)" using Some by (cases li) simp
  define g where "g = update_and_clear_cache_if_need (touched f l i)"
  have g: "cache_ok g" "rules g = rules f" using cache_ok_update [OF touched_ok(1) [OF assms(1) l]] touched_ok(2) [OF assms(1) l] by (simp_all add: g_def)
  obtain j where "HASH_FIND cache_key info (connections_rule_cache g) = Some j" "d = (\<not> bool_allow_traffic (connections_rule_cache g ! j))" "f' = g"
    using assms l by (auto simp: filter_packet_def looked_up_cases g_def elim!: bind_SomeE)
  then show ?thesis using cache_ok_entry [OF g(1)] g by auto
qed

text \<open>As long as the cache is not cleared the verdict can be read.\<close>

lemma filter_packet_total:
  assumes "cache_ok f" "collect_packet_info payload (uint n) = Some info" "unat (work_count_scene_last_clear f) < 10000"
  shows "\<exists>d f'. filter_packet f payload n = Some (d, f') \<and> unat (work_count_scene_last_clear f') \<le> unat (work_count_scene_last_clear f) + 1
    \<and> set (map cache_key (connections_rule_cache f')) \<subseteq> insert info (set (map cache_key (connections_rule_cache f)))
    \<and> (best_rule (rules f) info \<noteq> None \<longrightarrow> work_count_scene_last_clear f' = work_count_scene_last_clear f + 1)"
proof (cases "looked_up f info")
  case None
  then show ?thesis using assms by (auto simp: filter_packet_def looked_up_cases looked_up_def split: option.splits)
next
  case (Some li)
  obtain l i where l: "looked_up f info = Some (l, i)" using Some by (cases li) simp
  define t where "t = touched f l i"
  note t = touched_ok [OF assms(1) l, folded t_def]
  have w: "unat (work_count_scene_last_clear f + 1) = unat (work_count_scene_last_clear f) + 1" using assms(3) by (simp add: unat_word_ariths)
  then have u: "update_and_clear_cache_if_need t = t\<lparr>work_count_scene_last_clear := work_count_scene_last_clear f + 1\<rparr>"
    using assms(3) t(3) by (simp add: update_and_clear_cache_if_need_def Let_def word_less_nat_alt)
  have "info \<in> set (map cache_key (connections_rule_cache t))" using t(4) looked_up_SomeD(4) [OF assms(1) l] by simp
  then obtain j where j: "HASH_FIND cache_key info (connections_rule_cache t) = Some j"
    by (cases "HASH_FIND cache_key info (connections_rule_cache t)") (auto simp: HASH_FIND_def find_index_None)
  have k: "set (map cache_key (connections_rule_cache t)) = insert info (set (map cache_key (connections_rule_cache f)))"
    using t(4) looked_up_SomeD(4) [OF assms(1) l] by simp
  show ?thesis using assms(1,2) l w u j k by (auto simp: filter_packet_def looked_up_cases t_def [symmetric])
qed


text \<open>A sequence of frames, from either side: the callbacks for frames of peers and of the TAP device are the same.\<close>

fun filter_run :: "network_traffic_filter \<Rightarrow> (bytes \<times> u16) list \<Rightarrow> (bool list \<times> network_traffic_filter) option" where
  "filter_run f [] = Some ([], f)"
| "filter_run f ((payload, n) # pkts) = do {
     (d, f) \<leftarrow> filter_packet f payload n;
     (ds, f) \<leftarrow> filter_run f pkts;
     Some (d # ds, f) }"

text \<open>The filter of the specification, which has no cache.\<close>

definition frame_info :: "bytes \<times> u16 \<Rightarrow> packet_address_proto_info option" where
  "frame_info p = collect_packet_info (fst p) (uint (snd p))"

definition drops_frame :: "filter_rule list \<Rightarrow> bytes \<times> u16 \<Rightarrow> bool" where
  "drops_frame rs p = (case frame_info p of None \<Rightarrow> False | Some info \<Rightarrow> drops rs info)"

lemma filter_run_drops:
  assumes "cache_ok f" "list_all (\<lambda>p. frame_info p \<noteq> None) pkts" "filter_run f pkts = Some (ds, f')"
  shows "ds = map (drops_frame (rules f)) pkts \<and> cache_ok f' \<and> rules f' = rules f"
  using assms
proof (induction f pkts arbitrary: ds f' rule: filter_run.induct)
  case (2 f payload n pkts)
  obtain info where i: "frame_info (payload, n) = Some info" using 2(3) by auto
  obtain d g ds1 where s: "filter_packet f payload n = Some (d, g)" "filter_run g pkts = Some (ds1, f')" "ds = d # ds1"
    using 2(4) by (auto elim!: bind_SomeE)
  have g: "d = drops (rules f) info \<and> cache_ok g \<and> rules g = rules f" by (rule filter_packet_ok [OF 2(2) _ s(1)]) (use i in \<open>simp add: frame_info_def\<close>)
  then show ?case using 2(1) [OF s(1) refl _ _ s(2)] 2(3) s(3) i by (simp add: drops_frame_def)
qed auto

lemma filter_run_total:
  assumes "cache_ok f" "list_all (\<lambda>p. frame_info p \<noteq> None) pkts" "unat (work_count_scene_last_clear f) + length pkts \<le> 10000"
  shows "\<exists>ds f'. filter_run f pkts = Some (ds, f') \<and> set (map cache_key (connections_rule_cache f')) \<subseteq> set (map cache_key (connections_rule_cache f)) \<union> the ` frame_info ` set pkts
    \<and> (list_all (\<lambda>p. best_rule (rules f) (the (frame_info p)) \<noteq> None) pkts \<longrightarrow> work_count_scene_last_clear f' = work_count_scene_last_clear f + of_nat (length pkts))"
  using assms
proof (induction f pkts rule: filter_run.induct)
  case (2 f payload n pkts)
  obtain info where i: "frame_info (payload, n) = Some info" using 2(3) by auto
  obtain d g where s: "filter_packet f payload n = Some (d, g)" "unat (work_count_scene_last_clear g) \<le> unat (work_count_scene_last_clear f) + 1"
    "set (map cache_key (connections_rule_cache g)) \<subseteq> insert info (set (map cache_key (connections_rule_cache f)))"
    "best_rule (rules f) info \<noteq> None \<Longrightarrow> work_count_scene_last_clear g = work_count_scene_last_clear f + 1"
    using filter_packet_total [OF 2(2), of payload n info] i 2(4) by (auto simp: frame_info_def)
  have g: "cache_ok g \<and> rules g = rules f" using filter_packet_ok [OF 2(2) _ s(1)] i by (simp add: frame_info_def)
  obtain ds h where r: "filter_run g pkts = Some (ds, h)"
    "set (map cache_key (connections_rule_cache h)) \<subseteq> set (map cache_key (connections_rule_cache g)) \<union> the ` frame_info ` set pkts"
    "list_all (\<lambda>p. best_rule (rules f) (the (frame_info p)) \<noteq> None) pkts \<Longrightarrow> work_count_scene_last_clear h = work_count_scene_last_clear g + of_nat (length pkts)"
    using 2(1) [OF s(1) refl] g 2(3,4) s(2) by auto
  have "set (map cache_key (connections_rule_cache h)) \<subseteq> set (map cache_key (connections_rule_cache f)) \<union> the ` frame_info ` set ((payload, n) # pkts)"
    using r(2) s(3) i by auto
  then show ?case using s(1,4) r(1,3) i by (auto simp: add_ac)
qed auto

lemma filter_start:
  "list_all rule_wf rs \<Longrightarrow> cache_ok (network_traffic_filter_add_rule create_network_traffic_filter rs)"
  "rules (network_traffic_filter_add_rule create_network_traffic_filter rs) = rs"
proof -
  have "fold HASH_ADD xs l = l @ xs" for xs l :: "filter_rule list" by (induction xs arbitrary: l) (simp_all add: HASH_ADD_def)
  then show "list_all rule_wf rs \<Longrightarrow> cache_ok (network_traffic_filter_add_rule create_network_traffic_filter rs)"
    "rules (network_traffic_filter_add_rule create_network_traffic_filter rs) = rs"
    by (simp_all add: network_traffic_filter_add_rule_def create_network_traffic_filter_def cache_ok_def)
qed

subsection \<open>Properties\<close>

text \<open>
  C9. The filter with its cache implements the rules: for the first 10000 frames after its creation, the filter returns, and its verdict on each
  frame is the one of the rules, namely that of the first of the most specific rules that match the connection, and acceptance if there is none.
  This is what allows to treat the filter as a function of the frame.
\<close>

theorem filter_implements_rules:
  assumes "list_all rule_wf rs" and "list_all (\<lambda>p. frame_info p \<noteq> None) pkts" and "length pkts \<le> 10000"
  shows "\<exists>f'. filter_run (network_traffic_filter_add_rule create_network_traffic_filter rs) pkts = Some (map (drops_frame rs) pkts, f')"
proof -
  let ?f = "network_traffic_filter_add_rule create_network_traffic_filter rs"
  obtain ds f' where r: "filter_run ?f pkts = Some (ds, f')"
    using filter_run_total [OF filter_start(1) [OF assms(1)] assms(2)] assms(3)
    by (auto simp: network_traffic_filter_add_rule_def create_network_traffic_filter_def)
  then show ?thesis using filter_run_drops [OF filter_start(1) [OF assms(1)] assms(2) r] filter_start(2) by auto
qed

text \<open>
  C12. The cache is cleared by the frame after 10000 ones for which it has been used, and an entry that was used fewer than ten times is freed, even if it
  is the one that has just been created for the frame: for a frame of a new connection the verdict is then read from freed memory.
\<close>

theorem filter_use_after_free:
  assumes "list_all rule_wf rs" and "list_all (\<lambda>p. frame_info p \<noteq> None \<and> best_rule rs (the (frame_info p)) \<noteq> None) (q # pkts)"
    and "length pkts = 10000" and "frame_info q \<notin> frame_info ` set pkts"
  shows "filter_run (network_traffic_filter_add_rule create_network_traffic_filter rs) pkts \<noteq> None
    \<and> filter_run (network_traffic_filter_add_rule create_network_traffic_filter rs) (pkts @ [q]) = None"
proof -
  let ?f = "network_traffic_filter_add_rule create_network_traffic_filter rs"
  have ok: "cache_ok ?f" "list_all (\<lambda>p. frame_info p \<noteq> None) pkts" "list_all (\<lambda>p. best_rule (rules ?f) (the (frame_info p)) \<noteq> None) pkts"
    using assms(1,2) filter_start by (auto simp: list_all_iff)
  have z: "work_count_scene_last_clear ?f = 0" "connections_rule_cache ?f = []"
    by (simp_all add: network_traffic_filter_add_rule_def create_network_traffic_filter_def)
  obtain ds g where r: "filter_run ?f pkts = Some (ds, g)" "set (map cache_key (connections_rule_cache g)) \<subseteq> the ` frame_info ` set pkts"
    "work_count_scene_last_clear g = 10000"
    using filter_run_total [OF ok(1,2)] ok(3) z assms(3) by auto
  have g: "cache_ok g" "rules g = rs" using filter_run_drops [OF ok(1,2) r(1)] filter_start(2) by simp_all
  obtain info where i: "frame_info q = Some info" using assms(2) by auto
  have "info \<notin> the ` frame_info ` set pkts" using assms(4) i ok(2) by (force simp: list_all_iff)
  then have k: "info \<notin> set (map cache_key (connections_rule_cache g))" using r(2) by blast
  then have n: "HASH_FIND cache_key info (connections_rule_cache g) = None" by (auto simp: HASH_FIND_def find_index_None)
  obtain l where l: "looked_up g info = Some (l, length (connections_rule_cache g))" "l = connections_rule_cache g @ [\<lparr>cache_key = info, bool_allow_traffic = (\<not> drops (rules g) info), active_count = 0\<rparr>]"
    using assms(2) i n g(2) by (auto simp: looked_up_def)
  define h where "h = update_and_clear_cache_if_need (touched g l (length (connections_rule_cache g)))"
  have "info \<notin> set (map cache_key (connections_rule_cache h))"
    using k r(3) unfolding h_def l(2) by (auto simp: update_and_clear_cache_if_need_def touched_def Let_def clear_cache_def)
  then have "HASH_FIND cache_key info (connections_rule_cache h) = None" by (auto simp: HASH_FIND_def find_index_None)
  then have "filter_packet g (fst q) (snd q) = None"
    using l(1) i by (simp add: filter_packet_def frame_info_def looked_up_cases [OF g(1)] h_def)
  moreover have "filter_run f (xs @ [q]) = Option.bind (filter_run f xs) (\<lambda>(ds, g). Option.bind (filter_packet g (fst q) (snd q)) (\<lambda>(d, g). Some (ds @ [d], g)))" for f xs
    by (induction f xs rule: filter_run.induct; cases q) (auto split: Option.bind_splits prod.split)
  ultimately show ?thesis using r(1) by simp
qed


text \<open>A rule against all TCP connections, and the first frame of a connection to a port.\<close>

definition no_tcp :: filter_rule where
  "no_tcp = \<lparr>rule_key = \<lparr>src_net_cidr = 0, src_net_bit_len = 0, src_port_range = \<lparr>start_port = 0, end_port = 65535\<rparr>, dst_net_cidr = 0, dst_net_bit_len = 0,
     dst_port_range = \<lparr>start_port = 0, end_port = 65535\<rparr>, bool_tcp_configured = True, bool_udp_configured = False, bool_icmp_configured = False\<rparr>,
     bool_accept_icmp = False, bool_accept_udp = False, bool_accept_tcp = False\<rparr>"

definition ex_tcp :: "byte \<Rightarrow> bytes \<times> u16" where
  "ex_tcp p = ([2, 0, 0, 0, 0, 2, 2, 0, 0, 0, 0, 1, 8, 0, 0x45, 0, 0, 40, 0, 0, 0, 0, 64, 6, 0, 0, 10, 0, 0, 1, 10, 0, 0, 2, 4, 0, 0, p] @ replicate 16 0, 54)"

lemma ex_tcp_info: "frame_info (ex_tcp 80) = Some \<lparr>src_ip = 0x100000A, src_port = 1024, dst_ip = 0x200000A, dst_port = 80, proto = FPP_TCP\<rparr>"
  "frame_info (ex_tcp 22) = Some \<lparr>src_ip = 0x100000A, src_port = 1024, dst_ip = 0x200000A, dst_port = 22, proto = FPP_TCP\<rparr>"
  by code_simp+

lemma ex_tcp_rule: "best_rule [no_tcp] (the (frame_info (ex_tcp 80))) = Some no_tcp" "best_rule [no_tcp] (the (frame_info (ex_tcp 22))) = Some no_tcp"
proof -
  have "covers 0 0 ip" for ip
  proof -
    have "htobe32 0 = 0" by code_simp
    moreover have "uint (htobe32 ip) div 2 ^ 32 = 0" using uint_lt2p [of "htobe32 ip"] by simp
    ultimately show ?thesis by (simp add: covers_def)
  qed
  then show "best_rule [no_tcp] (the (frame_info (ex_tcp 80))) = Some no_tcp" "best_rule [no_tcp] (the (frame_info (ex_tcp 22))) = Some no_tcp"
    by (simp_all add: best_rule_def ex_tcp_info matches_def no_tcp_def)
qed

theorem filter_implements_rules_witness:
  "\<exists>f'. filter_run (network_traffic_filter_add_rule create_network_traffic_filter [no_tcp]) [ex_tcp 80, ex_tcp 22, ex_tcp 80] = Some ([True, True, True], f')"
proof -
  have "drops_frame [no_tcp] (ex_tcp 80)" "drops_frame [no_tcp] (ex_tcp 22)"
    using ex_tcp_rule unfolding drops_frame_def drops_def ex_tcp_info by (simp_all add: rule_verdict_def no_tcp_def)
  then show ?thesis using filter_implements_rules [of "[no_tcp]" "[ex_tcp 80, ex_tcp 22, ex_tcp 80]"] by (simp add: ex_tcp_info rule_wf_def no_tcp_def)
qed

theorem filter_use_after_free_witness:
  "filter_run (network_traffic_filter_add_rule create_network_traffic_filter [no_tcp]) (replicate 10000 (ex_tcp 80)) \<noteq> None
    \<and> filter_run (network_traffic_filter_add_rule create_network_traffic_filter [no_tcp]) (replicate 10000 (ex_tcp 80) @ [ex_tcp 22]) = None"
proof (rule filter_use_after_free)
  show "list_all (\<lambda>p. frame_info p \<noteq> None \<and> best_rule [no_tcp] (the (frame_info p)) \<noteq> None) (ex_tcp 22 # replicate 10000 (ex_tcp 80))"
    using ex_tcp_rule by (simp add: list_all_iff ex_tcp_info)
qed (simp_all add: rule_wf_def no_tcp_def ex_tcp_info)

end
