(* ===== verification/Filter_Rules.thy ===== *)
theory Filter_Rules
  imports Traffic_Filter
begin

text \<open>
  The textual form of the rules of the traffic filter: how a rule is read from the command line and how it is printed, the second half of
  \<^verbatim>\<open>src/network_traffic_filter.c\<close>, with what it uses of the C library.
\<close>

subsection \<open>Numbers and addresses\<close>

definition digit_value :: "char \<Rightarrow> nat" where
  "digit_value c = of_char c - 48"

definition isdigit :: "char \<Rightarrow> bool" where
  "isdigit c \<longleftrightarrow> 48 \<le> (of_char c :: nat) \<and> (of_char c :: nat) \<le> 57"

definition number :: "nat \<Rightarrow> string \<Rightarrow> nat" where
  "number base s = foldl (\<lambda>v c. v * base + digit_value c) 0 s"

text \<open>\<open>strtoul\<close> with base 0, as far as it concerns digits: a leading zero makes a number octal. The rest of the string is returned too.\<close>

definition octal :: "string \<Rightarrow> bool" where
  "octal s \<longleftrightarrow> (case s of c # _ \<Rightarrow> c = CHR ''0'' | [] \<Rightarrow> False)"

definition strtoul0 :: "string \<Rightarrow> nat \<times> string" where
  "strtoul0 s =
     (let in_base = (\<lambda>c. isdigit c \<and> (octal s \<longrightarrow> digit_value c < 8))
      in (number (if octal s then 8 else 10) (takeWhile in_base s), dropWhile in_base s))"

lemma strtoul0_shorter: "(v, d # r) = strtoul0 s \<Longrightarrow> length r < length s"
proof -
  assume "(v, d # r) = strtoul0 s"
  then obtain P where "dropWhile P s = d # r" by (auto simp: strtoul0_def Let_def)
  then show ?thesis using length_dropWhile_le [of P s] by simp
qed

text \<open>\<open>inet_addr\<close> for strings of digits and dots: up to four parts, of which the last one fills the remaining bytes. \<open>bs\<close> are the bytes so far.\<close>

function inet_aton :: "bytes \<Rightarrow> string \<Rightarrow> u32 option" where
  "inet_aton bs s =
     (case s of
        [] \<Rightarrow> None
      | c # _ \<Rightarrow>
          if \<not> isdigit c then None
          else (case strtoul0 s of
              (val, []) \<Rightarrow> if val \<ge> 2 ^ (32 - 8 * length bs) then None else Some (ld32 (bs @ replicate (4 - length bs) 0) OR htobe32 (of_nat val))
            | (val, d # r) \<Rightarrow> if d \<noteq> CHR ''.'' \<or> length bs > 2 \<or> val > 255 then None else inet_aton (bs @ [of_nat val]) r))"
  by pat_completeness auto
termination
  by (relation "measure (\<lambda>(_, s). length s)") (auto dest: strtoul0_shorter)

declare inet_aton.simps [simp del]

definition inet_addr :: "string \<Rightarrow> u32" where
  "inet_addr s = (case inet_aton [] s of Some a \<Rightarrow> a | None \<Rightarrow> - 1)"

text \<open>A token of the rule is the text between two positions.\<close>

definition get_int32_addr_from_ip_string :: "string \<Rightarrow> u32" where
  "get_int32_addr_from_ip_string tok = (if length tok > 15 then - 1 else inet_addr tok)"

definition get_int32_from_number_string :: "string \<Rightarrow> nat" where
  "get_int32_from_number_string tok = (if length tok > 5 then 0 else number 10 (takeWhile isdigit tok))"

subsection \<open>The parser\<close>

definition upd_key :: "(filter_rule_key \<Rightarrow> filter_rule_key) \<Rightarrow> filter_rule \<Rightarrow> filter_rule" where
  "upd_key f r = r\<lparr>rule_key := f (rule_key r)\<rparr>"

text \<open>
  The buffer has six bytes; a longer token is copied all the same, and one of six bytes leaves the string without an end. Both are undefined.
\<close>

definition process_traffic_filter_proto :: "string \<Rightarrow> filter_rule \<Rightarrow> filter_rule option" where
  "process_traffic_filter_proto tok r =
     (let buf = tok @ replicate (6 - length tok) (CHR 0x00) in
      if length tok > 5 then None
      else if sublist ''TCP'' tok then Some ((upd_key (\<lambda>k. k\<lparr>bool_tcp_configured := True\<rparr>) r)\<lparr>bool_accept_tcp := (buf ! 3 = CHR ''+'')\<rparr>)
      else if sublist ''UDP'' tok then Some ((upd_key (\<lambda>k. k\<lparr>bool_udp_configured := True\<rparr>) r)\<lparr>bool_accept_udp := (buf ! 3 = CHR ''+'')\<rparr>)
      else if sublist ''ICMP'' tok then Some ((upd_key (\<lambda>k. k\<lparr>bool_icmp_configured := True\<rparr>) r)\<lparr>bool_accept_icmp := (buf ! 4 = CHR ''+'')\<rparr>)
      else Some r)"

datatype filter_process_stage =
  FPS_SRC_NET | FPS_SRC_NET_BIT_LEN | FPS_SRC_PORT_SINGLE | FPS_SRC_PORT_RANGE | FPS_SRC_PORT_START | FPS_SRC_PORT_END
| FPS_DST_NET | FPS_DST_NET_BIT_LEN | FPS_DST_PORT_SINGLE | FPS_DST_PORT_RANGE | FPS_DST_PORT_START | FPS_DST_PORT_END | FPS_PROTO

text \<open>
  What one pass of the loop does: the next stage, the token so far, the rule, and how many characters are skipped; the rejection of the rule; or
  a write outside of a buffer.
\<close>

datatype fps_result = FPS_next filter_process_stage string filter_rule nat | FPS_error | FPS_overflow

definition all_ports :: port_range where
  "all_ports = \<lparr>start_port = 0, end_port = 65535\<rparr>"

fun fps_step :: "filter_process_stage \<Rightarrow> string \<Rightarrow> char \<Rightarrow> char \<Rightarrow> filter_rule \<Rightarrow> fps_result" where
  "fps_step FPS_SRC_NET tok c nx r =
     (let a = get_int32_addr_from_ip_string tok in
      if isdigit c \<or> c = CHR ''.'' then FPS_next FPS_SRC_NET (tok @ [c]) r 0
      else if c = CHR ''/'' then FPS_next FPS_SRC_NET_BIT_LEN [] (upd_key (\<lambda>k. k\<lparr>src_net_cidr := a\<rparr>) r) 0
      else if c = CHR '':'' then FPS_next (if nx = CHR ''['' then FPS_SRC_PORT_RANGE else FPS_SRC_PORT_SINGLE) []
        (upd_key (\<lambda>k. k\<lparr>src_net_cidr := a, src_net_bit_len := 32\<rparr>) r) 0
      else if c = CHR '','' then FPS_next FPS_DST_NET [] (upd_key (\<lambda>k. k\<lparr>src_net_cidr := a, src_net_bit_len := 32, src_port_range := all_ports\<rparr>) r) 0
      else FPS_error)"
| "fps_step FPS_SRC_NET_BIT_LEN tok c nx r =
     (let n = of_nat (get_int32_from_number_string tok) in
      if isdigit c then FPS_next FPS_SRC_NET_BIT_LEN (tok @ [c]) r 0
      else if c = CHR '':'' then FPS_next (if nx = CHR ''['' then FPS_SRC_PORT_RANGE else FPS_SRC_PORT_SINGLE) []
        (upd_key (\<lambda>k. k\<lparr>src_net_bit_len := n\<rparr>) r) 0
      else if c = CHR '','' then FPS_next FPS_DST_NET [] (upd_key (\<lambda>k. k\<lparr>src_net_bit_len := n, src_port_range := all_ports\<rparr>) r) 0
      else FPS_error)"
| "fps_step FPS_SRC_PORT_SINGLE tok c nx r =
     (let p = of_nat (get_int32_from_number_string tok) in
      if isdigit c then FPS_next FPS_SRC_PORT_SINGLE (tok @ [c]) r 0
      else if c = CHR '','' then FPS_next FPS_DST_NET [] (upd_key (\<lambda>k. k\<lparr>src_port_range := \<lparr>start_port = p, end_port = p\<rparr>\<rparr>) r) 0
      else FPS_error)"
| "fps_step FPS_SRC_PORT_RANGE tok c nx r = (if c = CHR ''['' then FPS_next FPS_SRC_PORT_START [] r 0 else FPS_error)"
| "fps_step FPS_SRC_PORT_START tok c nx r =
     (let p = of_nat (get_int32_from_number_string tok) in
      if isdigit c then FPS_next FPS_SRC_PORT_START (tok @ [c]) r 0
      else if c = CHR '','' then FPS_next FPS_SRC_PORT_END [] (upd_key (\<lambda>k. k\<lparr>src_port_range := (src_port_range k)\<lparr>start_port := p\<rparr>\<rparr>) r) 0
      else FPS_error)"
| "fps_step FPS_SRC_PORT_END tok c nx r =
     (let p = of_nat (get_int32_from_number_string tok) in
      if isdigit c then FPS_next FPS_SRC_PORT_END (tok @ [c]) r 0
      else if c = CHR '']'' \<and> nx = CHR '','' then FPS_next FPS_DST_NET [] (upd_key (\<lambda>k. k\<lparr>src_port_range := (src_port_range k)\<lparr>end_port := p\<rparr>\<rparr>) r) 1
      else FPS_error)"
| "fps_step FPS_DST_NET tok c nx r =
     (let a = get_int32_addr_from_ip_string tok in
      if isdigit c \<or> c = CHR ''.'' then FPS_next FPS_DST_NET (tok @ [c]) r 0
      else if c = CHR ''/'' then FPS_next FPS_DST_NET_BIT_LEN [] (upd_key (\<lambda>k. k\<lparr>dst_net_cidr := a\<rparr>) r) 0
      else if c = CHR '':'' then FPS_next (if nx = CHR ''['' then FPS_DST_PORT_RANGE else FPS_DST_PORT_SINGLE) []
        (upd_key (\<lambda>k. k\<lparr>dst_net_cidr := a, dst_net_bit_len := 32\<rparr>) r) 0
      else if c = CHR '','' \<or> c = CHR 0x00 then
        FPS_next FPS_PROTO [] (upd_key (\<lambda>k. k\<lparr>dst_net_cidr := a, dst_net_bit_len := 32, dst_port_range := all_ports\<rparr>) r) 0
      else FPS_error)"
| "fps_step FPS_DST_NET_BIT_LEN tok c nx r =
     (let n = of_nat (get_int32_from_number_string tok) in
      if isdigit c then FPS_next FPS_DST_NET_BIT_LEN (tok @ [c]) r 0
      else if c = CHR '':'' then FPS_next (if nx = CHR ''['' then FPS_DST_PORT_RANGE else FPS_DST_PORT_SINGLE) []
        (upd_key (\<lambda>k. k\<lparr>dst_net_bit_len := n\<rparr>) r) 0
      else if c = CHR '','' \<or> c = CHR 0x00 then FPS_next FPS_PROTO [] (upd_key (\<lambda>k. k\<lparr>dst_net_bit_len := n, dst_port_range := all_ports\<rparr>) r) 0
      else FPS_error)"
| "fps_step FPS_DST_PORT_SINGLE tok c nx r =
     (let p = of_nat (get_int32_from_number_string tok) in
      if isdigit c then FPS_next FPS_DST_PORT_SINGLE (tok @ [c]) r 0
      else if c = CHR '','' \<or> c = CHR 0x00 then FPS_next FPS_PROTO [] (upd_key (\<lambda>k. k\<lparr>dst_port_range := \<lparr>start_port = p, end_port = p\<rparr>\<rparr>) r) 0
      else FPS_error)"
| "fps_step FPS_DST_PORT_RANGE tok c nx r = (if c = CHR ''['' then FPS_next FPS_DST_PORT_START [] r 0 else FPS_error)"
| "fps_step FPS_DST_PORT_START tok c nx r =
     (let p = of_nat (get_int32_from_number_string tok) in
      if isdigit c then FPS_next FPS_DST_PORT_START (tok @ [c]) r 0
      else if c = CHR '','' then FPS_next FPS_DST_PORT_END [] (upd_key (\<lambda>k. k\<lparr>dst_port_range := (dst_port_range k)\<lparr>start_port := p\<rparr>\<rparr>) r) 0
      else FPS_error)"
| "fps_step FPS_DST_PORT_END tok c nx r =
     (let p = of_nat (get_int32_from_number_string tok);
          r' = upd_key (\<lambda>k. k\<lparr>dst_port_range := (dst_port_range k)\<lparr>end_port := p\<rparr>\<rparr>) r in
      if isdigit c then FPS_next FPS_DST_PORT_END (tok @ [c]) r 0
      else if c = CHR '']'' then
        if nx = CHR '','' then FPS_next FPS_PROTO [] r' 1
        else if nx \<noteq> CHR 0x00 then FPS_error
        else FPS_next FPS_PROTO (tok @ [c]) r' 0
      else FPS_error)"
| "fps_step FPS_PROTO tok c nx r =
     (if c \<noteq> CHR ''-'' \<and> c \<noteq> CHR ''+'' \<and> c \<noteq> CHR '','' then FPS_next FPS_PROTO (tok @ [c]) r 0
      else if c \<noteq> CHR '','' then
        (case process_traffic_filter_proto (tok @ [c]) r of
           None \<Rightarrow> FPS_overflow
         | Some r \<Rightarrow> if nx = CHR 0x00 then FPS_next FPS_PROTO (tok @ [c]) r 0 else FPS_next FPS_PROTO [] r 1)
      else FPS_error)"

text \<open>A string ends with a zero byte.\<close>

definition char_at :: "string \<Rightarrow> nat \<Rightarrow> char" where
  "char_at s i = (if i < length s then s ! i else CHR 0x00)"

text \<open>The loop. The result is \<open>None\<close> for a write outside of a buffer, and the rule, if it is accepted.\<close>

function fps_loop :: "filter_process_stage \<Rightarrow> string \<Rightarrow> string \<Rightarrow> filter_rule \<Rightarrow> filter_rule option option" where
  "fps_loop stage tok s r =
     (case fps_step stage tok (char_at s 0) (char_at s 1) r of
        FPS_overflow \<Rightarrow> None
      | FPS_error \<Rightarrow> Some None
      | FPS_next stage tok r skip \<Rightarrow>
          if char_at s skip = CHR 0x00 then Some (Some r) else fps_loop stage tok (drop (Suc skip) s) r)"
  by pat_completeness auto
termination
  by (relation "measure (\<lambda>(_, _, s, _). length s)") (auto simp: char_at_def split: if_splits)

declare fps_loop.simps [simp del] fps_step.simps [simp del]

definition process_traffic_filter_rule_str :: "string \<Rightarrow> filter_rule \<Rightarrow> filter_rule option option" where
  "process_traffic_filter_rule_str rule_str r = fps_loop FPS_SRC_NET [] rule_str r"

subsection \<open>The printed form\<close>

fun dec :: "nat \<Rightarrow> string" where
  "dec n = (if n < 10 then [char_of (48 + n)] else dec (n div 10) @ [char_of (48 + n mod 10)])"

declare dec.simps [simp del]

definition inet_ntoa :: "u32 \<Rightarrow> string" where
  "inet_ntoa a = (let b = map (\<lambda>x. dec (unat x)) (st32 a) in b ! 0 @ ''.'' @ b ! 1 @ ''.'' @ b ! 2 @ ''.'' @ b ! 3)"

definition net_string :: "u32 \<Rightarrow> byte \<Rightarrow> port_range \<Rightarrow> string" where
  "net_string a n p = inet_ntoa a @ ''/'' @ dec (unat n) @ '':['' @ dec (unat (start_port p)) @ '','' @ dec (unat (end_port p)) @ '']''"

definition get_filter_rule_info_log_string :: "filter_rule \<Rightarrow> string" where
  "get_filter_rule_info_log_string r =
     (let k = rule_key r; pm = (\<lambda>b. if b then ''+'' else ''-'') in
      net_string (src_net_cidr k) (src_net_bit_len k) (src_port_range k) @ '','' @ net_string (dst_net_cidr k) (dst_net_bit_len k) (dst_port_range k)
      @ (if bool_tcp_configured k then '',TCP'' @ pm (bool_accept_tcp r) else [])
      @ (if bool_udp_configured k then '',UDP'' @ pm (bool_accept_udp r) else [])
      @ (if bool_icmp_configured k then '',ICMP'' @ pm (bool_accept_icmp r) else []))"


subsection \<open>Numbers and addresses survive printing and parsing\<close>

lemma digit_char: "n < 10 \<Longrightarrow> isdigit (char_of (48 + n))" "n < 10 \<Longrightarrow> digit_value (char_of (48 + n)) = n"
  by (simp_all add: isdigit_def digit_value_def)

lemma number_append: "number b (s @ [c]) = number b s * b + digit_value c"
  by (simp add: number_def)

lemma dec_digits: "list_all isdigit (dec n)"
proof (induction n rule: dec.induct)
  case (1 n)
  then show ?case by (subst dec.simps) (simp add: digit_char)
qed

lemma number_dec: "number 10 (dec n) = n"
proof (induction n rule: dec.induct)
  case (1 n)
  then show ?case
    by (subst dec.simps) (auto simp: number_append digit_char, simp add: number_def digit_char)
qed

lemma length_dec: "n < 10 ^ k \<Longrightarrow> 0 < k \<Longrightarrow> length (dec n) \<le> k"
proof (induction k arbitrary: n)
  case (Suc k)
  show ?case
  proof (cases "n < 10")
    case False
    then have "0 < k" using Suc.prems by (cases k) auto
    moreover have "n div 10 < 10 ^ k" using Suc.prems(1) by (simp add: less_mult_imp_div_less mult.commute)
    ultimately have "0 < k" "n div 10 < 10 ^ k" by simp_all
    then show ?thesis using Suc.IH [of "n div 10"] False by (subst dec.simps) simp
  qed (simp add: dec.simps)
qed simp

lemma dec_head: "\<exists>c s. dec n = c # s \<and> isdigit c \<and> (c = CHR ''0'' \<longrightarrow> n = 0 \<and> s = [])"
proof (induction n rule: dec.induct)
  case (1 n)
  show ?case
  proof (cases "n < 10")
    case True
    then have "char_of (48 + n) = CHR ''0'' \<longleftrightarrow> n = 0" by (auto simp: char_of_eq_iff take_bit_eq_mod)
    then show ?thesis using True by (subst dec.simps) (simp add: digit_char)
  next
    case False
    then show ?thesis using 1 by (subst dec.simps) auto
  qed
qed

lemma strtoul0_dec:
  assumes "s = [] \<or> \<not> isdigit (hd s)"
  shows "strtoul0 (dec n @ s) = (n, s)"
proof -
  obtain c t where d: "dec n = c # t" "isdigit c" "c = CHR ''0'' \<longrightarrow> n = 0 \<and> t = []" using dec_head by blast
  have all: "\<forall>x \<in> set (dec n). isdigit x \<and> (octal (dec n @ s) \<longrightarrow> digit_value x < 8)"
    using dec_digits [of n] d by (auto simp: octal_def list_all_iff digit_value_def split: if_splits)
  have v: "number (if octal (dec n @ s) then 8 else 10) (dec n) = n"
    using number_dec [of n] d by (auto simp: octal_def number_def digit_value_def)
  have "takeWhile (\<lambda>c. isdigit c \<and> (octal (dec n @ s) \<longrightarrow> digit_value c < 8)) (dec n @ s) = dec n"
    "dropWhile (\<lambda>c. isdigit c \<and> (octal (dec n @ s) \<longrightarrow> digit_value c < 8)) (dec n @ s) = s"
    using all assms by (cases s; auto simp: takeWhile_append2 dropWhile_append2)+
  then show ?thesis using v by (simp add: strtoul0_def Let_def)
qed

lemma inet_aton_dec:
  "n \<le> 255 \<Longrightarrow> length bs \<le> 2 \<Longrightarrow> inet_aton bs (dec n @ CHR ''.'' # s) = inet_aton (bs @ [of_nat n]) s"
  "n \<le> 255 \<Longrightarrow> length bs = 3 \<Longrightarrow> inet_aton bs (dec n) = Some (ld32 (bs @ [0]) OR htobe32 (of_nat n))"
proof -
  obtain c t where d: "dec n = c # t" "isdigit c" using dec_head by blast
  have "\<not> isdigit (CHR ''.'')" by code_simp
  then show "n \<le> 255 \<Longrightarrow> length bs \<le> 2 \<Longrightarrow> inet_aton bs (dec n @ CHR ''.'' # s) = inet_aton (bs @ [of_nat n]) s"
    using strtoul0_dec [of "CHR ''.'' # s" n] d by (subst inet_aton.simps) simp
  show "n \<le> 255 \<Longrightarrow> length bs = 3 \<Longrightarrow> inet_aton bs (dec n) = Some (ld32 (bs @ [0]) OR htobe32 (of_nat n))"
    using strtoul0_dec [of "[]" n] d by (subst inet_aton.simps) simp
qed


lemma word_bounds: "unat (b :: byte) < 256" "unat (p :: u16) < 65536"
  using unsigned_less [of b, where ?'a = nat] unsigned_less [of p, where ?'a = nat] by simp_all

lemma inet_addr_ntoa: "inet_addr (inet_ntoa a) = a"
proof -
  obtain b0 b1 b2 b3 where b: "st32 a = [b0, b1, b2, b3]"
    using length_le_bytes [of 4 a] by (metis list_4)
  have u: "unat (x :: byte) \<le> 255" for x using word_bounds(1) [of x] by simp
  have h: "htobe32 (ucast b3) = ld32 [0, 0, 0, b3]"
  proof -
    have "st32 (ucast b3) = [b3, 0, 0, 0]"
    proof -
      have "ld32 [b3, 0, 0, 0] = ucast b3" by simp
      then show ?thesis using st_ld(1) [of "[b3, 0, 0, 0]"] by simp
    qed
    then show ?thesis by (simp add: htobe32_def)
  qed
  have "ld32 [b0, b1, b2, 0] OR ld32 [0, 0, 0, b3] = ld32 [b0, b1, b2, b3]"
    by (rule bit_eqI) (auto simp: bit_le_word nth_Cons' bit_simps)
  then show ?thesis
    using b ld_st(1) [of a] h
    by (simp add: inet_addr_def inet_ntoa_def inet_aton_dec u)
qed

lemma length_ntoa: "length (inet_ntoa a) \<le> 15"
proof -
  have "length (dec (unat (x :: byte))) \<le> 3" for x using length_dec [of "unat x" 3] word_bounds(1) [of x] by simp
  then have l: "list_all (\<lambda>s. length s \<le> 3) (map (\<lambda>x. dec (unat x)) (st32 a))" by (simp add: list_all_iff)
  obtain b0 b1 b2 b3 where b: "st32 a = [b0, b1, b2, b3]" using length_le_bytes [of 4 a] by (metis list_4)
  show ?thesis using l by (simp add: inet_ntoa_def b)
qed

lemma ntoa_chars: "list_all (\<lambda>c. isdigit c \<or> c = CHR ''.'') (inet_ntoa a)"
  using dec_digits by (auto simp: inet_ntoa_def Let_def list_all_iff)

subsection \<open>The parser reads what is printed\<close>

definition number_stage :: "filter_process_stage \<Rightarrow> bool" where
  "number_stage st \<longleftrightarrow> st \<in> {FPS_SRC_NET_BIT_LEN, FPS_SRC_PORT_SINGLE, FPS_SRC_PORT_START, FPS_SRC_PORT_END, FPS_DST_NET_BIT_LEN, FPS_DST_PORT_SINGLE,
     FPS_DST_PORT_START, FPS_DST_PORT_END}"

lemma digit_not_nul: "isdigit c \<Longrightarrow> c \<noteq> CHR 0x00" by (auto simp: isdigit_def)

lemma fps_number: "number_stage st \<Longrightarrow> list_all isdigit ds \<Longrightarrow> fps_loop st tok (ds @ s) r = fps_loop st (tok @ ds) s r"
proof (induction ds arbitrary: tok)
  case (Cons c ds)
  then have "fps_step st tok c nx r = FPS_next st (tok @ [c]) r 0" for nx by (auto simp: number_stage_def fps_step.simps Let_def)
  then show ?case using Cons digit_not_nul [of c] by (subst fps_loop.simps) (simp add: char_at_def)
qed simp

lemma fps_address:
  "st \<in> {FPS_SRC_NET, FPS_DST_NET} \<Longrightarrow> list_all (\<lambda>c. isdigit c \<or> c = CHR ''.'') ds \<Longrightarrow> fps_loop st tok (ds @ s) r = fps_loop st (tok @ ds) s r"
proof (induction ds arbitrary: tok)
  case (Cons c ds)
  then have "fps_step st tok c nx r = FPS_next st (tok @ [c]) r 0" for nx by (auto simp: fps_step.simps Let_def)
  then show ?case using Cons digit_not_nul [of c] by (subst fps_loop.simps) (auto simp: char_at_def)
qed simp

lemma not_digits: "\<not> isdigit (CHR ''/'')" "\<not> isdigit (CHR '':'')" "\<not> isdigit (CHR '','')" "\<not> isdigit (CHR ''['')" "\<not> isdigit (CHR '']'')" "\<not> isdigit (CHR 0x00)"
  by code_simp+

lemma token_values:
  "get_int32_addr_from_ip_string (inet_ntoa a) = a"
  "n < 100000 \<Longrightarrow> get_int32_from_number_string (dec n) = n"
  using length_ntoa [of a] inet_addr_ntoa [of a] length_dec [of n 5] number_dec [of n] dec_digits [of n]
  by (simp_all add: get_int32_addr_from_ip_string_def get_int32_from_number_string_def takeWhile_eq_all_conv [THEN iffD2] list_all_iff)

lemma token_words [simp]:
  "of_nat (get_int32_from_number_string (dec (unat (n :: byte)))) = n" "of_nat (get_int32_from_number_string (dec (unat (p :: u16)))) = p"
  using token_values(2) [of "unat n"] token_values(2) [of "unat p"] word_bounds(1) [of n] word_bounds(2) [of p] by simp_all

lemma fps_char:
  "fps_loop st tok (c # s) r = (case fps_step st tok c (char_at s 0) r of FPS_overflow \<Rightarrow> None | FPS_error \<Rightarrow> Some None
     | FPS_next st tok r 0 \<Rightarrow> if c = CHR 0x00 then Some (Some r) else fps_loop st tok s r
     | FPS_next st tok r (Suc k) \<Rightarrow> if char_at s k = CHR 0x00 then Some (Some r) else fps_loop st tok (drop (Suc k) s) r)"
  by (subst fps_loop.simps) (auto simp: char_at_def split: fps_result.split nat.split)

lemma char_at_Cons [simp]: "char_at (c # s) 0 = c" "char_at [] i = CHR 0x00"
  by (simp_all add: char_at_def)


lemma both_ports: "x\<lparr>start_port := start_port p, end_port := end_port p\<rparr> = (p :: port_range)"
  by (cases x; cases p) simp

lemmas fps_simps = fps_char fps_step.simps Let_def not_digits token_values(1) fps_number number_stage_def dec_digits fps_address ntoa_chars both_ports

lemma parse_src:
  "fps_loop FPS_SRC_NET [] (net_string a n p @ CHR '','' # s) r =
     fps_loop FPS_DST_NET [] s (upd_key (\<lambda>k. k\<lparr>src_net_cidr := a, src_net_bit_len := n, src_port_range := p\<rparr>) r)"
  by (simp add: net_string_def fps_simps upd_key_def)

lemma fps_end: "fps_loop FPS_PROTO tok [] r = Some (Some r)"
  by (subst fps_loop.simps) (simp add: fps_step.simps)

lemma parse_dst:
  "fps_loop FPS_DST_NET [] (net_string a n p) r = Some (Some (upd_key (\<lambda>k. k\<lparr>dst_net_cidr := a, dst_net_bit_len := n, dst_port_range := p\<rparr>) r))"
  "fps_loop FPS_DST_NET [] (net_string a n p @ CHR '','' # s) r =
     fps_loop FPS_PROTO [] s (upd_key (\<lambda>k. k\<lparr>dst_net_cidr := a, dst_net_bit_len := n, dst_port_range := p\<rparr>) r)"
  by (simp_all add: net_string_def fps_simps upd_key_def fps_end)

definition accept_tcp :: "bool \<Rightarrow> filter_rule \<Rightarrow> filter_rule" where
  "accept_tcp b r = (upd_key (\<lambda>k. k\<lparr>bool_tcp_configured := True\<rparr>) r)\<lparr>bool_accept_tcp := b\<rparr>"

definition accept_udp :: "bool \<Rightarrow> filter_rule \<Rightarrow> filter_rule" where
  "accept_udp b r = (upd_key (\<lambda>k. k\<lparr>bool_udp_configured := True\<rparr>) r)\<lparr>bool_accept_udp := b\<rparr>"

definition accept_icmp :: "bool \<Rightarrow> filter_rule \<Rightarrow> filter_rule" where
  "accept_icmp b r = (upd_key (\<lambda>k. k\<lparr>bool_icmp_configured := True\<rparr>) r)\<lparr>bool_accept_icmp := b\<rparr>"

lemma process_proto:
  "process_traffic_filter_proto ''TCP+'' r = Some (accept_tcp True r)" "process_traffic_filter_proto ''TCP-'' r = Some (accept_tcp False r)"
  "process_traffic_filter_proto ''UDP+'' r = Some (accept_udp True r)" "process_traffic_filter_proto ''UDP-'' r = Some (accept_udp False r)"
  "process_traffic_filter_proto ''ICMP+'' r = Some (accept_icmp True r)" "process_traffic_filter_proto ''ICMP-'' r = Some (accept_icmp False r)"
  by (simp_all add: process_traffic_filter_proto_def accept_tcp_def accept_udp_def accept_icmp_def Let_def sublist_Cons_right)

lemma fps_proto_char:
  "c \<notin> {CHR ''-'', CHR ''+'', CHR '','', CHR 0x00} \<Longrightarrow> fps_loop FPS_PROTO tok (c # s) r = fps_loop FPS_PROTO (tok @ [c]) s r"
  by (simp add: fps_char fps_step.simps)

lemma fps_proto_sign:
  assumes "process_traffic_filter_proto (tok @ [c]) r = Some r'" "c = CHR ''+'' \<or> c = CHR ''-''"
  shows "fps_loop FPS_PROTO tok (c # s) r = (if char_at s 0 = CHR 0x00 then Some (Some r') else fps_loop FPS_PROTO [] (tl s) r')"
proof (cases "char_at s 0 = CHR 0x00")
  case True
  then have "fps_loop FPS_PROTO (tok @ [c]) s r' = Some (Some r')" by (subst fps_loop.simps) (simp add: fps_step.simps)
  then show ?thesis using assms True by (subst fps_char) (auto simp: fps_step.simps)
next
  case False
  then show ?thesis using assms by (subst fps_char) (auto simp: fps_step.simps drop_Suc)
qed

subsection \<open>Properties\<close>

definition zero_rule :: filter_rule where
  "zero_rule = \<lparr>rule_key = \<lparr>src_net_cidr = 0, src_net_bit_len = 0, src_port_range = \<lparr>start_port = 0, end_port = 0\<rparr>, dst_net_cidr = 0, dst_net_bit_len = 0,
     dst_port_range = \<lparr>start_port = 0, end_port = 0\<rparr>, bool_tcp_configured = False, bool_udp_configured = False, bool_icmp_configured = False\<rparr>,
     bool_accept_icmp = False, bool_accept_udp = False, bool_accept_tcp = False\<rparr>"

text \<open>What is accepted of a protocol for which the rule is not configured does not matter.\<close>

definition effective_rule :: "filter_rule \<Rightarrow> filter_rule" where
  "effective_rule r = r\<lparr>bool_accept_icmp := bool_accept_icmp r \<and> bool_icmp_configured (rule_key r),
     bool_accept_udp := bool_accept_udp r \<and> bool_udp_configured (rule_key r), bool_accept_tcp := bool_accept_tcp r \<and> bool_tcp_configured (rule_key r)\<rparr>"

lemma parse_nets:
  "process_traffic_filter_rule_str (net_string a n p @ CHR '','' # net_string a' n' p') r = Some (Some (upd_key (\<lambda>k. k\<lparr>src_net_cidr := a, src_net_bit_len := n,
     src_port_range := p, dst_net_cidr := a', dst_net_bit_len := n', dst_port_range := p'\<rparr>) r))"
  "process_traffic_filter_rule_str (net_string a n p @ CHR '','' # net_string a' n' p' @ CHR '','' # s) r = fps_loop FPS_PROTO [] s (upd_key (\<lambda>k. k\<lparr>src_net_cidr := a,
     src_net_bit_len := n, src_port_range := p, dst_net_cidr := a', dst_net_bit_len := n', dst_port_range := p'\<rparr>) r)"
  by (simp_all add: process_traffic_filter_rule_str_def parse_src parse_dst upd_key_def)

lemmas proto_defs = accept_tcp_def accept_udp_def accept_icmp_def

text \<open>
  C11. A rule of the traffic filter survives printing and parsing: whatever the networks, the prefix lengths, the ranges of ports and the protocols of a
  rule, the parser of the command line accepts what is logged for it and yields the same rule, up to the verdicts on protocols for which the rule is not configured, which are never used.
\<close>

theorem filter_rule_roundtrip:
  "process_traffic_filter_rule_str (get_filter_rule_info_log_string r) zero_rule = Some (Some (effective_rule r))"
proof -
  obtain k ai au at where r: "r = \<lparr>rule_key = k, bool_accept_icmp = ai, bool_accept_udp = au, bool_accept_tcp = at\<rparr>" by (cases r)
  obtain a n p a' n' p' ct cu ci where k: "k = \<lparr>src_net_cidr = a, src_net_bit_len = n, src_port_range = p, dst_net_cidr = a', dst_net_bit_len = n',
    dst_port_range = p', bool_tcp_configured = ct, bool_udp_configured = cu, bool_icmp_configured = ci\<rparr>" by (cases k)
  show ?thesis
    by (cases ct; cases cu; cases ci)
      (simp_all add: get_filter_rule_info_log_string_def Let_def r k effective_rule_def zero_rule_def parse_nets fps_proto_char fps_proto_sign process_proto
        upd_key_def proto_defs)
qed


lemma fps_proto_text: "set t \<inter> {CHR ''-'', CHR ''+'', CHR '','', CHR 0x00} = {} \<Longrightarrow> fps_loop FPS_PROTO tok (t @ s) r = fps_loop FPS_PROTO (tok @ t) s r"
  by (induction t arbitrary: tok) (auto simp: fps_proto_char)

text \<open>
  The name of a protocol with more than four characters fills the buffer of six bytes for it, so that the string in it has no end, and a longer one is copied past its end: the length is checked, but the
  check only writes a message. A rule is part of the command line or of the configuration file.
\<close>

theorem filter_rule_overflow:
  assumes "4 < length t" and "set t \<inter> {CHR ''-'', CHR ''+'', CHR '','', CHR 0x00} = {}" and "c = CHR ''+'' \<or> c = CHR ''-''"
  shows "process_traffic_filter_rule_str (net_string a n p @ '','' @ net_string a' n' p' @ '','' @ t @ c # s) r = None"
proof -
  have "process_traffic_filter_proto (t @ [c]) r' = None" for r' using assms(1) by (simp add: process_traffic_filter_proto_def)
  then have "fps_loop FPS_PROTO t (c # s) r' = None" for r' using assms(3) by (subst fps_char) (auto simp: fps_step.simps)
  then show ?thesis by (simp add: parse_nets fps_proto_text [OF assms(2)])
qed

theorem filter_rule_overflow_witness:
  "process_traffic_filter_rule_str (net_string 0 0 all_ports @ '','' @ net_string 0 0 all_ports @ '','' @ ''TCPv4'' @ ''+'') zero_rule = None"
  using filter_rule_overflow [of "''TCPv4''" "CHR ''+''" 0 0 all_ports 0 0 all_ports "[]" zero_rule] by simp

end
