(* ===== verification/Sn_Forward.thy ===== *)
theory Sn_Forward
  imports Sn_Reachable Wire_Messages
begin

text \<open>
  From the datagram that an edge sends to the datagram that the supernode sends on: the composition of the wire format, \<open>process_udp\<close>, and the
  forwarding.
\<close>

subsection \<open>The datagram of an edge\<close>

definition packet_datagram :: "n2n_common \<Rightarrow> n2n_PACKET \<Rightarrow> bytes \<Rightarrow> bytes" where
  "packet_datagram c p payload = common_bytes c @ PACKET_bytes (has_sock c) p @ payload"

text \<open>What an edge puts into the header of a packet for the supernode: the flags say whether the frame is a TCP or a UDP one (\<open>0x100\<close>, \<open>0x200\<close>).\<close>

definition from_edge :: "n2n_common \<Rightarrow> bool" where
  "from_edge c \<longleftrightarrow> common_wf c \<and> community c ! 19 = 0 \<and> pc c = MSG_TYPE_PACKET \<and> flags c \<in> {0, 0x100, 0x200} \<and> ttl c \<ge> 1"

text \<open>The header that the supernode sends on.\<close>

definition forwarded_common :: "n2n_common \<Rightarrow> n2n_common" where
  "forwarded_common c = c\<lparr>ttl := ttl c - 1, flags := flags c OR (N2N_FLAGS_SOCKET OR N2N_FLAGS_FROM_SUPERNODE)\<rparr>"

lemma from_edge_canon:
  assumes "from_edge c"
  shows "common_canon c" "common_canon (c\<lparr>ttl := t\<rparr>)" "common_canon (forwarded_common c)" "\<not> has_sock c" "has_sock (forwarded_common c)"
    "flags (forwarded_common c) AND N2N_FLAGS_FROM_SUPERNODE \<noteq> 0"
  using assms by (auto simp: from_edge_def common_canon_def common_wf_def forwarded_common_def)

lemma common_bytes_nth:
  assumes "from_edge c"
  shows "plain_header (common_bytes c @ rest)" "take N2N_COMMUNITY_SIZE (drop 4 (common_bytes c @ rest)) = community c"
proof -
  obtain f where f: "f \<in> {0, 1, 2}" and c: "common_bytes c = [N2N_PKT_VERSION, ttl c, f, 3] @ community c" "length (community c) = 20"
    using assms by (auto simp: from_edge_def common_bytes_def be_bytes_1 be_bytes_2 common_wf_def)
  then show "take N2N_COMMUNITY_SIZE (drop 4 (common_bytes c @ rest)) = community c" by simp
  have "\<forall>f \<in> set [0, 1, 2]. (be_word [f, 3] :: u16) AND N2N_FLAGS_TYPE_MASK \<le> MSG_TYPE_MAX_TYPE" by code_simp
  then have "(be_word [f, 3] :: u16) AND N2N_FLAGS_TYPE_MASK \<le> MSG_TYPE_MAX_TYPE" using f by auto
  then show "plain_header (common_bytes c @ rest)"
    using c assms by (simp add: plain_header_def nth_append from_edge_def)
qed

lemma lock_plain_none: "comm_header_encryption (communities s ! c) = HEADER_ENCRYPTION_NONE \<Longrightarrow> lock_plain c s = s"
  by (simp add: lock_plain_def upd_comm_def)

lemma fill_n2nsock_v4:
  assumes "sa_family sa = AF_INET" "length (sin_addr sa) = 4"
  defines "k \<equiv> snd (fill_n2nsock sa)"
  shows "sock_canon (k\<lparr>socktype := SOCK_DGRAM\<rparr>)" "sock_bytes k = sock_bytes (k\<lparr>socktype := SOCK_DGRAM\<rparr>)" "encode_sock k = encode_sock (k\<lparr>socktype := SOCK_DGRAM\<rparr>)"
  using assms by (auto simp: fill_n2nsock_def sock_canon_def sock_wf_def zero_sock_def sock_bytes_def sock_flags_def encode_sock_def overlay_def fun_eq_iff)

text \<open>The packet that is sent on, in a buffer that is large enough.\<close>

lemma encode_forwarded:
  assumes "from_edge c" "PACKET_canon False p" "sa_family sa = AF_INET" "length (sin_addr sa) = 4"
  defines "k \<equiv> snd (fill_n2nsock sa)"
  shows "\<exists>v. encode_PACKET (forwarded_common c) (p\<lparr>pkt_sock := k\<rparr>) = emit v (common_bytes (forwarded_common c) @ PACKET_bytes True (p\<lparr>pkt_sock := k\<rparr>))"
proof -
  note k = fill_n2nsock_v4 [OF assms(3,4), folded k_def]
  let ?p = "p\<lparr>pkt_sock := k\<lparr>socktype := SOCK_DGRAM\<rparr>\<rparr>"
  have "encode_PACKET (forwarded_common c) (p\<lparr>pkt_sock := k\<rparr>) = encode_PACKET (forwarded_common c) ?p"
    by (rule ext) (simp add: encode_PACKET_def k(3) cong: if_cong)
  moreover have "PACKET_bytes True (p\<lparr>pkt_sock := k\<rparr>) = PACKET_bytes True ?p"
    using k(2) by (simp add: PACKET_bytes_def opt_sock_bytes_def)
  moreover have "PACKET_canon True ?p" using assms(2) k(1) by (simp add: PACKET_canon_def opt_sock_canon_def)
  ultimately show ?thesis using encode_PACKET_emit [OF from_edge_canon(3) [OF assms(1)], of ?p] from_edge_canon(5) [OF assms(1)] by auto
qed

lemma try_forward_edge:
  assumes "HASH_FIND_PEER (edges (communities s ! c)) mac = Some i" "udp_peer s (edges (communities s ! c) ! i)"
    "length pkt \<le> N2N_SN_LEGACY_SAFE_UDP_SIZE" "pc cmn = n2n_packet"
  shows "\<exists>r st. try_forward s c cmn mac from_sn pkt now rt = Some (r, s\<lparr>stats := st\<rparr>, rt\<lparr>rt_sent := rt_sent rt @ [datagram s pkt (edges (communities s ! c) ! i)]\<rparr>)"
  using sendto_peer_udp [OF assms(2,3)]
  by (auto simp: try_forward_def assms(1,4) packet_policy_def packet_transport_policy_from_flags_def)

lemma handle_PACKET_forwards:
  assumes c: "from_edge c" and p: "PACKET_canon False p" and uni: "\<not> is_multi_broadcast (pkt_dstMac p)"
    and comm: "\<not> encrypted (communities s ! k)"
    and dst: "HASH_FIND_PEER (edges (communities s ! k)) (pkt_dstMac p) = Some i" "udp_peer s (edges (communities s ! k) ! i)"
    and sa: "sa_family sa = AF_INET" "length (sin_addr sa) = 4"
    and out: "out = packet_datagram (forwarded_common c) (p\<lparr>pkt_sock := snd (fill_n2nsock sa)\<rparr>) payload" "length out \<le> N2N_SN_LEGACY_SAFE_UDP_SIZE"
    and feed: "feed (ud_buf ud) (ud_size ud) (ud_pos ud) (PACKET_bytes False p @ payload)"
    and ud: "ud_comm ud = Some k" "ud_cmn ud = c\<lparr>ttl := ttl c - 1\<rparr>" "\<not> ud_from_sn ud" "ud_sender ud = snd (fill_n2nsock sa)"
  shows "\<exists>st. handle_PACKET ud s rt = Some (0, s\<lparr>stats := st\<rparr>, rt\<lparr>rt_sent := rt_sent rt @ [datagram s out (edges (communities s ! k) ! i)]\<rparr>)"
proof -
  define s1 where "s1 = s\<lparr>stats := (stats s)\<lparr>st_last_fwd := ud_now ud\<rparr>\<rparr>"
  let ?cmn = "c\<lparr>ttl := ttl c - 1\<rparr>" and ?p = "p\<lparr>pkt_sock := snd (fill_n2nsock sa)\<rparr>"
  define hdr where "hdr = common_bytes (forwarded_common c) @ PACKET_bytes True ?p"
  have sock: "\<not> has_sock ?cmn" "has_sock (forwarded_common c)" using from_edge_canon [OF c] by simp_all
  have "yields (ud_buf ud) (ud_size ud) (decode_PACKET ?cmn (ud_buf ud) (ud_pos ud)) (int (length (PACKET_bytes False p)) - int (length (opt_sock_bytes False (pkt_sock p)))) p payload"
    using decode_PACKET_yields [of "ud_buf ud" "ud_size ud" "ud_pos ud" ?cmn p payload] feed p sock(1) by simp
  then obtain r st where dec: "decode_PACKET ?cmn (ud_buf ud) (ud_pos ud) = Some (r, p, st)" and fst: "feed (ud_buf ud) (ud_size ud) st payload"
    by (auto simp: yields_def)
  have pos: "st = (length payload, ud_size ud - length payload)" "snd st \<le> ud_size ud" "ud_size ud - snd st = length payload"
    "rd (ud_buf ud) (snd st) (length payload) = Some payload"
    using feed_pos [OF fst] fst by (auto simp: feed_def bounded_def rd_def)
  obtain v where enc: "encode_PACKET (forwarded_common c) ?p = emit v hdr"
    using encode_forwarded [OF c p sa] unfolding hdr_def by blast
  have o: "out = hdr @ payload" using out(1) sock(2) by (simp add: packet_datagram_def hdr_def)
  then have len: "length hdr + length payload \<le> length empty_pktbuf" using out(2) by (simp add: empty_pktbuf_def)
  then have e1: "emit v hdr (empty_pktbuf, 0) = Some (v, overlay empty_pktbuf 0 hdr, length hdr)" by (simp add: emit_def)
  have e2: "encode_buf payload (length payload) (overlay empty_pktbuf 0 hdr, length hdr) =
      Some (int (length payload), overlay (overlay empty_pktbuf 0 hdr) (length hdr) payload, length hdr + length payload)"
    using len by (simp add: encode_buf_emit emit_def)
  have t: "take (length hdr + length payload) (overlay (overlay empty_pktbuf 0 hdr) (length hdr) payload) = out"
    using len o by (simp add: overlay_def)
  have f: "c\<lparr>ttl := ttl c - 1, flags := flags c OR 96\<rparr> = forwarded_common c"
    using c by (simp add: forwarded_common_def from_edge_def)
  have ns: "\<not> encrypted (communities s1 ! k)" using comm by (simp add: s1_def)
  have fwd: "\<exists>r st. try_forward s1 k ?cmn (pkt_dstMac p) False out (ud_now ud) rt =
      Some (r, s1\<lparr>stats := st\<rparr>, rt\<lparr>rt_sent := rt_sent rt @ [datagram s1 out (edges (communities s1 ! k) ! i)]\<rparr>)"
    using c dst by (intro try_forward_edge [OF _ _ out(2)]) (simp_all add: s1_def from_edge_def)
  then obtain r' st' where fwd: "try_forward s1 k ?cmn (pkt_dstMac p) False out (ud_now ud) rt =
      Some (r', s\<lparr>stats := st'\<rparr>, rt\<lparr>rt_sent := rt_sent rt @ [datagram s out (edges (communities s ! k) ! i)]\<rparr>)"
    by (auto simp: s1_def)
  show ?thesis
    unfolding handle_PACKET_def ud(1,2) option.case Let_def s1_def [symmetric] dec Option.bind.simps split_conv stamp_ok_def seal_def
    using ud(3,4) uni ns pos(2-4)
    by (simp add: f enc e1 e2 t fwd) blast
qed

lemma forward_packet:
  assumes c: "from_edge c" and p: "PACKET_canon False p" and uni: "\<not> is_multi_broadcast (pkt_dstMac p)"
    and comm: "HASH_FIND_COMMUNITY (communities s) (community c) = Some k"
      "comm_header_encryption (communities s ! k) = HEADER_ENCRYPTION_NONE" "allowed_users (communities s ! k) = []"
    and dst: "HASH_FIND_PEER (edges (communities s ! k)) (pkt_dstMac p) = Some i" "udp_peer s (edges (communities s ! k) ! i)"
    and sa: "sa_family sa = AF_INET" "length (sin_addr sa) = 4"
    and out: "out = packet_datagram (forwarded_common c) (p\<lparr>pkt_sock := snd (fill_n2nsock sa)\<rparr>) payload" "length out \<le> N2N_SN_LEGACY_SAFE_UDP_SIZE"
    and n: "n = length (packet_datagram c p payload)"
  shows "\<exists>st. process_udp pi0 s sa len fd (packet_datagram c p payload @ rest) n now rt =
    Some (0, s\<lparr>stats := st\<rparr>, rt\<lparr>rt_sent := rt_sent rt @ [datagram s out (edges (communities s ! k) ! i)]\<rparr>)"
proof -
  define buf where "buf = packet_datagram c p payload @ rest"
  let ?cmn = "c\<lparr>ttl := ttl c - 1\<rparr>"
  note canon = from_edge_canon [OF c]
  have "buf = common_bytes c @ PACKET_bytes False p @ payload @ rest" using canon(4) by (simp add: buf_def packet_datagram_def)
  then have b: "plain_header buf" "take N2N_COMMUNITY_SIZE (drop 4 buf) = community c" using common_bytes_nth [OF c] by metis+
  have wf: "length (common_bytes c) = 24" using c by (simp add: from_edge_def)
  have n24: "24 \<le> n" using n wf by (simp add: packet_datagram_def)
  have ne: "\<not> encrypted (communities s ! k)" using comm(2) by (simp add: encrypted_def)
  have rec: "recognize buf n s = Some (Some (Some k, 0, None, buf, replicate 16 0), s)"
    using comm ne by (simp add: recognize_def b lock_plain_none)
  have "feed buf n (n, 0) (common_bytes c @ PACKET_bytes False p @ payload)"
    using n canon(4) by (simp add: feed_def bounded_def packet_datagram_def buf_def)
  from decode_common_yields [OF this canon(1), of zero_common]
  obtain pos where dec: "decode_common buf zero_common (n, 0) = Some (24, c, pos)" and feed: "feed buf n pos (PACKET_bytes False p @ payload)"
    by (auto simp: yields_def zero_common_def common_wf_def)
  define ud where "ud = \<lparr>ud_sender_sock = sa, ud_sock_size = len, ud_fd = fd, ud_buf = buf, ud_size = n,
     ud_now = now, ud_sender = snd (fill_n2nsock sa), ud_cmn = ?cmn, ud_pos = pos, ud_stamp = None, ud_hash = replicate 16 0,
     ud_comm = Some k, ud_from_sn = False, ud_sn = None\<rparr>"
  have "flags c AND N2N_FLAGS_FROM_SUPERNODE = 0" using c by (auto simp: from_edge_def)
  then have "process_udp pi0 s sa len fd buf n now rt = dispatch pi0 ud s rt"
    using n24 rec dec c comm(3) by (simp add: process_udp_def static_key_refused_def ud_def from_edge_def word_le_nat_alt unat_gt_0 word_less_nat_alt)
  also have "\<dots> = handle_PACKET ud s rt" using c by (simp add: dispatch_def ud_def from_edge_def)
  finally show ?thesis
    using handle_PACKET_forwards [OF c p uni ne dst sa out, of ud] feed by (simp add: ud_def buf_def)
qed

subsection \<open>Properties\<close>

text \<open>
  A packet reaches its destination: when an edge sends a packet of moderate size for a registered edge of a community with unencrypted headers
  to the supernode, the supernode sends exactly one datagram, to the socket under which the destination has registered; it carries the packet
  with the payload unchanged, with a lower TTL and with the socket of the sender for the edges to connect directly.
\<close>

theorem packet_forwarded:
  assumes c: "from_edge c" and p: "PACKET_canon False p" and uni: "\<not> is_multi_broadcast (pkt_dstMac p)"
    and comm: "HASH_FIND_COMMUNITY (communities s) (community c) = Some k"
      "comm_header_encryption (communities s ! k) = HEADER_ENCRYPTION_NONE" "allowed_users (communities s ! k) = []"
    and dst: "HASH_FIND_PEER (edges (communities s ! k)) (pkt_dstMac p) = Some i" "udp_peer s (edges (communities s ! k) ! i)"
    and sa: "sa_family sa = AF_INET" "length (sin_addr sa) = 4"
    and out: "out = packet_datagram (forwarded_common c) (p\<lparr>pkt_sock := snd (fill_n2nsock sa)\<rparr>) payload" "length out \<le> N2N_SN_LEGACY_SAFE_UDP_SIZE"
    and n: "n = length (packet_datagram c p payload)"
  shows "\<exists>st. process_udp pi0 s sa len fd (packet_datagram c p payload @ rest) n now rt =
    Some (0, s\<lparr>stats := st\<rparr>, rt\<lparr>rt_sent := rt_sent rt @ [datagram s out (edges (communities s ! k) ! i)]\<rparr>)"
  by (rule forward_packet [OF assms])

definition plain_comm :: sn_community where
  "plain_comm = zero_community\<lparr>comm_name := 99 # 49 # replicate 18 0, comm_header_encryption := HEADER_ENCRYPTION_NONE, edges := [test_edge 1, test_edge 2]\<rparr>"

definition plain_sn :: n2n_sn where
  "plain_sn = bare_sn\<lparr>communities := [test_fed, plain_comm]\<rparr>"

definition ex_edge_common :: n2n_common where
  "ex_edge_common = \<lparr>ttl = 2, pc = MSG_TYPE_PACKET, flags = 0, community = 99 # 49 # replicate 18 0\<rparr>"

definition edge_packet :: n2n_PACKET where
  "edge_packet = \<lparr>pkt_srcMac = [2, 0, 0, 0, 0, 1], pkt_dstMac = [2, 0, 0, 0, 0, 2], pkt_sock = zero_sock, pkt_transform = 1, pkt_compression = 1\<rparr>"

definition edge_address :: sockaddr where
  "edge_address = zero_sockaddr\<lparr>sa_family := AF_INET, sin_addr := [10, 0, 0, 1]\<rparr>"

theorem packet_forwarded_witness:
  "\<forall>pi0. \<exists>st out. length out = 51 \<and> process_udp pi0 plain_sn edge_address 16 3 (packet_datagram ex_edge_common edge_packet [1, 2, 3, 4, 5]) 43 100 quiet_runtime =
    Some (0, plain_sn\<lparr>stats := st\<rparr>, quiet_runtime\<lparr>rt_sent := [datagram plain_sn out (test_edge 2)]\<rparr>)"
proof
  fix pi0
  let ?out = "packet_datagram (forwarded_common ex_edge_common) (edge_packet\<lparr>pkt_sock := snd (fill_n2nsock edge_address)\<rparr>) [1, 2, 3, 4, 5]"
  have comm: "HASH_FIND_COMMUNITY (communities plain_sn) (community ex_edge_common) = Some 1" "communities plain_sn ! 1 = plain_comm"
    by (simp_all add: HASH_FIND_COMMUNITY_def HASH_FIND_def plain_sn_def ex_edge_common_def cstr_def) (simp add: comm_key_def plain_comm_def cstr_def)
  have pc: "comm_header_encryption plain_comm = HEADER_ENCRYPTION_NONE" "allowed_users plain_comm = []" "edges plain_comm = [test_edge 1, test_edge 2]"
    by (simp_all add: plain_comm_def zero_community_def)
  have len: "length ?out = 51" "length (packet_datagram ex_edge_common edge_packet [1, 2, 3, 4, 5]) = 43"
    by (simp_all add: packet_datagram_def forwarded_common_def ex_edge_common_def edge_packet_def common_bytes_def PACKET_bytes_def opt_sock_bytes_def
        sock_bytes_def edge_address_def fill_n2nsock_def zero_sockaddr_def zero_sock_def)
  have "\<exists>st. process_udp pi0 plain_sn edge_address 16 3 (packet_datagram ex_edge_common edge_packet [1, 2, 3, 4, 5] @ []) 43 100 quiet_runtime =
    Some (0, plain_sn\<lparr>stats := st\<rparr>, quiet_runtime\<lparr>rt_sent := rt_sent quiet_runtime @ [datagram plain_sn ?out (edges (communities plain_sn ! 1) ! 1)]\<rparr>)"
  proof (rule packet_forwarded [OF _ _ _ comm(1)])
    show "from_edge ex_edge_common" by (simp add: from_edge_def ex_edge_common_def common_wf_def)
    show "PACKET_canon False edge_packet" by (simp add: PACKET_canon_def edge_packet_def mac_wf_def opt_sock_canon_def)
    show "\<not> is_multi_broadcast (pkt_dstMac edge_packet)" unfolding edge_packet_def by code_simp
    show "HASH_FIND_PEER (edges (communities plain_sn ! 1)) (pkt_dstMac edge_packet) = Some 1"
      by (simp only: comm(2) pc) (simp add: HASH_FIND_def test_sn_edges edge_packet_def)
    show "udp_peer plain_sn (edges (communities plain_sn ! 1) ! 1)"
      by (simp only: comm(2) pc) (simp add: udp_peer_def test_edge_def plain_sn_def bare_sn_def)
  qed (use comm(2) pc len in \<open>simp_all add: edge_address_def\<close>)
  then obtain st where "process_udp pi0 plain_sn edge_address 16 3 (packet_datagram ex_edge_common edge_packet [1, 2, 3, 4, 5]) 43 100 quiet_runtime =
    Some (0, plain_sn\<lparr>stats := st\<rparr>, quiet_runtime\<lparr>rt_sent := [datagram plain_sn ?out (test_edge 2)]\<rparr>)"
    using comm(2) pc by (auto simp: quiet_runtime_def)
  then show "\<exists>st out. length out = 51 \<and> process_udp pi0 plain_sn edge_address 16 3 (packet_datagram ex_edge_common edge_packet [1, 2, 3, 4, 5]) 43 100 quiet_runtime =
    Some (0, plain_sn\<lparr>stats := st\<rparr>, quiet_runtime\<lparr>rt_sent := [datagram plain_sn out (test_edge 2)]\<rparr>)"
    using len(1) by blast
qed

end
