(* ===== verification/Edge_State.thy ===== *)
theory Edge_State
  imports Sn_Send
begin

text \<open>
  The data of the edge and its transports to the supernode, from \<^verbatim>\<open>include/n2n_typedefs.h\<close> and \<^verbatim>\<open>src/edge_utils.c\<close>.

  The current supernode is referred to by its index in the list of supernodes. The configuration has the contexts of the header
  encryption together, and a shared secret together with its context. Function pointers (the transforms, the compression, the filter of network
  traffic) are functions. The callbacks that a program embedding the edge may install are not modelled, nor are the socket
  options. What the operating system returns is part of the environment.
\<close>

subsection \<open>The environment of the edge\<close>

text \<open>
  Besides what supernode and edge share, the readings of \<open>time\<close>, the results of \<open>open_socket\<close>, of \<open>connect\<close> (whether it has been initiated), of joining the multicast group and of the
  \<open>select\<close> that waits for a TCP connection, the detected local sockets, each as a function of the number of calls before; what an
  uninitialised socket address holds; and the frames that were written to the TAP device.
\<close>

record edge_env =
  ev_rt :: runtime
  ev_time :: "nat \<Rightarrow> int"
  ev_open :: "nat \<Rightarrow> int"
  ev_connect :: "nat \<Rightarrow> bool"
  ev_writable :: "nat \<Rightarrow> int"
  ev_local :: "nat \<Rightarrow> n2n_sock option"
  ev_calls :: nat
  ev_stack :: sockaddr
  ev_tap :: "bytes list"

definition ev_next :: "edge_env \<Rightarrow> edge_env" where
  "ev_next ev = ev\<lparr>ev_calls := ev_calls ev + 1\<rparr>"

definition get_time :: "edge_env \<Rightarrow> int \<times> edge_env" where
  "get_time ev = (ev_time ev (ev_calls ev), ev_next ev)"

definition open_socket :: "edge_env \<Rightarrow> int \<times> edge_env" where
  "open_socket ev = (ev_open ev (ev_calls ev), ev_next ev)"

definition initiate_connect :: "edge_env \<Rightarrow> bool \<times> edge_env" where
  "initiate_connect ev = (ev_connect ev (ev_calls ev), ev_next ev)"

definition wait_writable :: "edge_env \<Rightarrow> int \<times> edge_env" where
  "wait_writable ev = (ev_writable ev (ev_calls ev), ev_next ev)"

definition detect_local :: "edge_env \<Rightarrow> n2n_sock option \<times> edge_env" where
  "detect_local ev = (ev_local ev (ev_calls ev), ev_next ev)"

definition closesocket :: "int \<Rightarrow> edge_env \<Rightarrow> edge_env" where
  "closesocket fd ev = ev\<lparr>ev_rt := rt_close fd (ev_rt ev)\<rparr>"

definition ev_rand :: "edge_env \<Rightarrow> u64 \<times> edge_env" where
  "ev_rand ev = (let (r, rt) = rt_rand (ev_rt ev) in (r, ev\<lparr>ev_rt := rt\<rparr>))"

definition ev_time_stamp :: "edge_env \<Rightarrow> u64 \<times> edge_env" where
  "ev_time_stamp ev = (let (s, rt) = rt_time_stamp (ev_rt ev) in (s, ev\<lparr>ev_rt := rt\<rparr>))"

definition ev_initial_time_stamp :: "edge_env \<Rightarrow> u64 \<times> edge_env" where
  "ev_initial_time_stamp ev = (let (s, rt) = rt_initial_time_stamp (ev_rt ev) in (s, ev\<lparr>ev_rt := rt\<rparr>))"

text \<open>The clock in milliseconds, in 32 bits; it reads the same clock as the time stamps.\<close>

definition n2n_kcp_now_ms :: "edge_env \<Rightarrow> u32 \<times> edge_env" where
  "n2n_kcp_now_ms ev =
     (let (tv_sec, tv_usec) = rt_clock (ev_rt ev) (rt_reads (ev_rt ev))
      in (ucast (tv_sec * 1000 + tv_usec div 1000), ev\<lparr>ev_rt := (ev_rt ev)\<lparr>rt_reads := rt_reads (ev_rt ev) + 1\<rparr>\<rparr>))"

subsection \<open>Configuration and state\<close>

type_synonym transform_fwd = "bytes \<Rightarrow> nat \<Rightarrow> bytes \<Rightarrow> nat \<Rightarrow> rn_generator_state \<Rightarrow> (int \<times> bytes \<times> rn_generator_state) option"
type_synonym transform_rev = "bytes \<Rightarrow> nat \<Rightarrow> bytes \<Rightarrow> nat \<Rightarrow> (int \<times> bytes) option"

record n2n_trans_op =
  transform_id :: byte
  fwd :: transform_fwd
  rev_op :: transform_rev

datatype n2n_sn_transport = N2N_SN_TRANSPORT_UDP | N2N_SN_TRANSPORT_TCP

datatype rx_supernode_transport =
  N2N_RX_SUPERNODE_TRANSPORT_NONE | N2N_RX_SUPERNODE_TRANSPORT_UDP | N2N_RX_SUPERNODE_TRANSPORT_TCP | N2N_RX_SUPERNODE_TRANSPORT_KCP

record n2n_edge_conf =
  supernodes :: "peer_info list"
  community_name :: bytes
  conf_dev_desc :: bytes
  shared_secret :: "(bytes \<times> speck_context) option"
  conf_header_encryption :: header_encryption
  conf_he :: "he_contexts option"
  transop_id :: byte
  compression :: byte
  tuntap_ip_mode :: byte
  allow_routing :: bool
  drop_multicast :: bool
  allow_p2p :: bool
  register_interval :: int
  register_ttl :: int
  conf_preferred_sock :: n2n_sock
  preferred_sock_auto :: bool
  local_port :: int
  connect_tcp :: bool
  prefer_kcp :: bool
  allow_tcp_fallback :: bool
  conf_auth :: n2n_auth
  sn_selection_strategy :: byte
  number_max_sn_pings :: byte

record host_info =
  host_mac_addr :: bytes
  host_edge_addr :: bytes
  host_last_seen :: int

record n2n_edge_stats =
  tx_p2p :: u32
  rx_p2p :: u32
  tx_sup :: u32
  rx_sup :: u32
  tx_sup_broadcast :: u32
  rx_sup_broadcast :: u32

text \<open>The address and the mask of the device are in network byte order.\<close>

record tuntap_dev =
  device_mac :: bytes
  device_ip :: u32
  device_mask :: u32

record n2n_edge =
  conf :: n2n_edge_conf
  curr_sn :: nat
  sn_wait :: nat
  sn_pong :: bool
  sup_attempts :: nat
  device :: tuntap_dev
  transop :: n2n_trans_op
  transop_lzo :: n2n_trans_op
  criterion_common_data :: u64
  active_sock :: int
  udp_sock :: int
  tcp_sock :: int
  close_socket_counter :: int
  tcp_sn_sock :: n2n_sock
  tcp_sn_sock_valid :: bool
  active_sn_transport :: n2n_sn_transport
  tcp_fallback_active :: bool
  tcp_sticky_after_fallback :: bool
  kcp_probe_pending :: bool
  kcp_probe_cookie :: u32
  last_kcp_probe :: int
  sn_kcp_ctrl_confirmed :: bool
  sn_kcp_data_confirmed :: bool
  last_register_req_ms :: u32
  register_fast_retry_count :: nat
  tcp_register_soft_retry_budget :: nat
  sending_register_super :: bool
  register_super_soft_retry_armed :: bool
  register_super_request_active :: bool
  sending_supernode_control :: bool
  current_supernode_rx_transport :: rx_supernode_transport
  register_super_cookie :: u32
  register_super_auth :: n2n_auth
  sn_kcp_ctrl :: n2n_kcp_ctx
  sn_kcp_data :: n2n_kcp_ctx
  multicast_peer :: n2n_sock
  udp_multicast_sock :: int
  multicast_joined :: bool
  known_peers :: "peer_info list"
  pending_peers :: "peer_info list"
  known_hosts :: "host_info list"
  last_register_req :: int
  edge_last_p2p :: int
  last_sup :: int
  last_udp_sup :: int
  last_sweep :: int
  edge_stats :: n2n_edge_stats
  resolution_request :: bool
  assigned_addr :: "(u32 \<times> u32) option"
  filter_packet_from_peer :: "n2n_sock \<Rightarrow> bytes \<Rightarrow> bool"

definition zero_kcp_ctx :: n2n_kcp_ctx where
  "zero_kcp_ctx = \<lparr>kcp_remote_sock = zero_sock, kcp_conv = 0, kcp_active = False, kcp_rx_confirm_count = 0, kcp_last_seen = 0, kcp_dead = False\<rparr>"

definition curr_sn_peer :: "n2n_edge \<Rightarrow> peer_info" where
  "curr_sn_peer eee = supernodes (conf eee) ! curr_sn eee"

definition upd_curr_sn :: "(peer_info \<Rightarrow> peer_info) \<Rightarrow> n2n_edge \<Rightarrow> n2n_edge" where
  "upd_curr_sn f eee = eee\<lparr>conf := (conf eee)\<lparr>supernodes := (supernodes (conf eee))[curr_sn eee := f (curr_sn_peer eee)]\<rparr>\<rparr>"

subsection \<open>The transport to the supernode\<close>

abbreviation N2N_EDGE_SUP_ATTEMPTS :: nat where "N2N_EDGE_SUP_ATTEMPTS \<equiv> 3"
abbreviation N2N_TCP_REGISTER_SOFT_RETRIES :: nat where "N2N_TCP_REGISTER_SOFT_RETRIES \<equiv> 2"
abbreviation N2N_SUPERNODE_UDP_ACTIVITY_GRACE_SECS :: int where "N2N_SUPERNODE_UDP_ACTIVITY_GRACE_SECS \<equiv> 2"
abbreviation N2N_DATA_KCP_IDLE_REAP_SECS :: int where "N2N_DATA_KCP_IDLE_REAP_SECS \<equiv> 100"

definition edge_transport_uses_tcp :: "n2n_edge \<Rightarrow> bool" where
  "edge_transport_uses_tcp eee \<longleftrightarrow> active_sn_transport eee = N2N_SN_TRANSPORT_TCP"

definition edge_transport_is_forced_tcp :: "n2n_edge \<Rightarrow> bool" where
  "edge_transport_is_forced_tcp eee \<longleftrightarrow> connect_tcp (conf eee)"

definition edge_transport_allows_tcp_fallback :: "n2n_edge \<Rightarrow> bool" where
  "edge_transport_allows_tcp_fallback eee \<longleftrightarrow> allow_tcp_fallback (conf eee)"

definition reset_sup_attempts :: "n2n_edge \<Rightarrow> n2n_edge" where
  "reset_sup_attempts eee = eee\<lparr>sup_attempts := (if edge_transport_uses_tcp eee then 1 else N2N_EDGE_SUP_ATTEMPTS)\<rparr>"

definition edge_reset_supernode_kcp_state :: "n2n_edge \<Rightarrow> n2n_edge" where
  "edge_reset_supernode_kcp_state eee = eee\<lparr>sn_kcp_ctrl := zero_kcp_ctx, sn_kcp_data := zero_kcp_ctx,
     sn_kcp_ctrl_confirmed := False, sn_kcp_data_confirmed := False\<rparr>"

definition edge_tcp_fallback_is_establishing :: "n2n_edge \<Rightarrow> bool" where
  "edge_tcp_fallback_is_establishing eee \<longleftrightarrow> tcp_fallback_active eee \<and> edge_transport_uses_tcp eee \<and> sn_wait eee \<noteq> 0"

definition edge_reset_register_super_request :: "n2n_edge \<Rightarrow> n2n_edge" where
  "edge_reset_register_super_request eee = eee\<lparr>register_super_request_active := False, register_super_cookie := 0, register_super_auth := zero_auth\<rparr>"

definition edge_recent_supernode_udp_activity :: "n2n_edge \<Rightarrow> int \<Rightarrow> bool" where
  "edge_recent_supernode_udp_activity eee now \<longleftrightarrow> last_udp_sup eee \<noteq> 0 \<and> now - last_udp_sup eee \<le> N2N_SUPERNODE_UDP_ACTIVITY_GRACE_SECS"

definition edge_recent_supernode_kcp_activity :: "n2n_edge \<Rightarrow> int \<Rightarrow> bool" where
  "edge_recent_supernode_kcp_activity eee now \<longleftrightarrow> kcp_active (sn_kcp_ctrl eee) \<and> sn_kcp_ctrl_confirmed eee
     \<and> kcp_last_seen (sn_kcp_ctrl eee) \<noteq> 0 \<and> now - kcp_last_seen (sn_kcp_ctrl eee) \<le> N2N_SUPERNODE_UDP_ACTIVITY_GRACE_SECS"

definition edge_sync_active_socket :: "n2n_edge \<Rightarrow> n2n_edge" where
  "edge_sync_active_socket eee = eee\<lparr>active_sock := (if edge_transport_uses_tcp eee then tcp_sock eee else udp_sock eee)\<rparr>"

definition edge_set_active_transport :: "n2n_sn_transport \<Rightarrow> n2n_edge \<Rightarrow> n2n_edge" where
  "edge_set_active_transport transport eee = edge_sync_active_socket (eee\<lparr>active_sn_transport := transport\<rparr>)"

definition edge_dest_is_current_supernode :: "n2n_edge \<Rightarrow> n2n_sock \<Rightarrow> bool" where
  "edge_dest_is_current_supernode eee sock \<longleftrightarrow> sock_equal sock (peer_sock (curr_sn_peer eee))"

definition supernode_disconnect_udp :: "n2n_edge \<Rightarrow> edge_env \<Rightarrow> n2n_edge \<times> edge_env" where
  "supernode_disconnect_udp eee ev =
     (let (eee, ev) = (if udp_sock eee \<ge> 0 then (eee\<lparr>udp_sock := -1\<rparr>, closesocket (udp_sock eee) ev) else (eee, ev))
      in (edge_reset_supernode_kcp_state eee, ev))"

definition supernode_disconnect_tcp :: "n2n_edge \<Rightarrow> edge_env \<Rightarrow> n2n_edge \<times> edge_env" where
  "supernode_disconnect_tcp eee ev =
     (let (eee, ev) = (if tcp_sock eee \<ge> 0 then (eee\<lparr>tcp_sock := -1\<rparr>, closesocket (tcp_sock eee) ev) else (eee, ev))
      in (eee\<lparr>tcp_sn_sock := zero_sock\<lparr>family := AF_INVALID\<rparr>, tcp_sn_sock_valid := False\<rparr>, ev))"

definition edge_release_tcp_sticky_after_disconnect :: "n2n_edge \<Rightarrow> n2n_edge" where
  "edge_release_tcp_sticky_after_disconnect eee =
     (if edge_transport_is_forced_tcp eee \<or> \<not> tcp_sticky_after_fallback eee then eee
      else let eee = eee\<lparr>tcp_sticky_after_fallback := False, tcp_fallback_active := False, kcp_probe_pending := False, kcp_probe_cookie := 0,
                 last_kcp_probe := 0, register_fast_retry_count := 0, tcp_register_soft_retry_budget := 0, register_super_soft_retry_armed := False\<rparr>;
               eee = edge_reset_register_super_request eee;
               eee = edge_reset_supernode_kcp_state eee;
               eee = edge_set_active_transport N2N_SN_TRANSPORT_UDP eee
           in reset_sup_attempts eee)"

definition edge_mark_udp_recovered :: "n2n_edge \<Rightarrow> n2n_edge" where
  "edge_mark_udp_recovered eee =
     (if edge_transport_is_forced_tcp eee \<or> \<not> tcp_fallback_active eee then eee
      else if tcp_sticky_after_fallback eee then eee
      else let eee = eee\<lparr>tcp_fallback_active := False, tcp_sticky_after_fallback := False, kcp_probe_pending := False, kcp_probe_cookie := 0,
                 last_kcp_probe := 0, register_fast_retry_count := 0, tcp_register_soft_retry_budget := 0, register_super_soft_retry_armed := False\<rparr>;
               eee = edge_reset_register_super_request eee;
               eee = edge_set_active_transport N2N_SN_TRANSPORT_UDP eee
           in reset_sup_attempts eee)"

definition retry_schedule_ms :: "nat list" where
  "retry_schedule_ms = [300, 600, 1000, 1500]"

definition edge_register_retry_interval_ms :: "n2n_edge \<Rightarrow> nat" where
  "edge_register_retry_interval_ms eee =
     (let stage = register_fast_retry_count eee; max_stage = length retry_schedule_ms - 1
      in retry_schedule_ms ! (if stage > max_stage then max_stage else stage))"

text \<open>The difference of two readings of the clock is taken in 32 bits, so that it is right when the clock wraps around.\<close>

definition edge_register_retry_wait_ms :: "n2n_edge \<Rightarrow> u32 \<Rightarrow> int \<Rightarrow> int" where
  "edge_register_retry_wait_ms eee current_ms default_ms =
     (if sn_wait eee = 0 then default_ms
      else if sn_wait eee = 2 \<or> last_register_req_ms eee = 0 then 0
      else let interval_ms = edge_register_retry_interval_ms eee; elapsed_ms = current_ms - last_register_req_ms eee
           in if unat elapsed_ms \<ge> interval_ms then 0
              else let interval_ms = int interval_ms - int (unat elapsed_ms)
                   in if interval_ms > default_ms then default_ms else interval_ms)"

subsection \<open>Connecting and falling back\<close>

definition supernode_update_local_socket :: "n2n_edge \<Rightarrow> edge_env \<Rightarrow> n2n_edge \<times> edge_env" where
  "supernode_update_local_socket eee ev =
     (case detect_local ev of
        (None, ev) \<Rightarrow> (eee, ev)
      | (Some local_sock, ev) \<Rightarrow>
          let eee = eee\<lparr>conf := (conf eee)\<lparr>conf_preferred_sock := (conf_preferred_sock (conf eee))\<lparr>port := port local_sock\<rparr>\<rparr>\<rparr>
          in (if preferred_sock_auto (conf eee) then eee\<lparr>conf := (conf eee)\<lparr>conf_preferred_sock := local_sock\<rparr>\<rparr> else eee, ev))"

text \<open>The results tell whether the socket is there.\<close>

definition supernode_connect_udp_socket :: "n2n_edge \<Rightarrow> edge_env \<Rightarrow> bool \<times> n2n_edge \<times> edge_env" where
  "supernode_connect_udp_socket eee ev =
     (if udp_sock eee \<ge> 0 then (True, eee, ev)
      else let (fd, ev) = open_socket ev; eee = eee\<lparr>udp_sock := fd\<rparr>
           in if fd < 0 then (False, eee, ev)
              else let (eee, ev) = supernode_update_local_socket eee ev in (True, eee, ev))"

definition supernode_connect_tcp_socket :: "n2n_edge \<Rightarrow> edge_env \<Rightarrow> bool \<times> n2n_edge \<times> edge_env" where
  "supernode_connect_tcp_socket eee ev =
     (if tcp_sock eee \<ge> 0 \<and> tcp_sn_sock_valid eee \<and> edge_dest_is_current_supernode eee (tcp_sn_sock eee) then (True, eee, ev)
      else let (eee, ev) = supernode_disconnect_tcp eee ev;
               (fd, ev) = open_socket ev;
               eee = eee\<lparr>tcp_sock := fd\<rparr>
           in if fd < 0 then (False, eee, ev)
              else let (ok, ev) = initiate_connect ev
                   in if \<not> ok then let (eee, ev) = supernode_disconnect_tcp eee ev in (False, eee, ev)
                      else let (eee, ev) = (if udp_sock eee < 0 then supernode_update_local_socket eee ev else (eee, ev))
                           in (True, eee\<lparr>tcp_sn_sock := peer_sock (curr_sn_peer eee), tcp_sn_sock_valid := True\<rparr>, ev))"

definition supernode_connect :: "n2n_edge \<Rightarrow> edge_env \<Rightarrow> bool \<times> n2n_edge \<times> edge_env" where
  "supernode_connect eee ev =
     (let eee = (if kcp_active (sn_kcp_ctrl eee) \<and> \<not> edge_dest_is_current_supernode eee (kcp_remote_sock (sn_kcp_ctrl eee))
               \<or> kcp_active (sn_kcp_data eee) \<and> \<not> edge_dest_is_current_supernode eee (kcp_remote_sock (sn_kcp_data eee))
             then edge_reset_supernode_kcp_state eee else eee);
          (eee, ev) = (if tcp_sn_sock_valid eee \<and> \<not> edge_dest_is_current_supernode eee (tcp_sn_sock eee)
             then supernode_disconnect_tcp eee ev else (eee, ev));
          (ok, eee, ev) = (if \<not> edge_transport_is_forced_tcp eee then supernode_connect_udp_socket eee ev else (True, eee, ev))
      in if \<not> ok then (False, eee, ev)
         else if edge_transport_is_forced_tcp eee \<or> tcp_fallback_active eee then
           let (ok, eee, ev) = supernode_connect_tcp_socket eee ev
           in if \<not> ok then (False, eee, ev)
              else (True, edge_sync_active_socket (eee\<lparr>active_sn_transport := N2N_SN_TRANSPORT_TCP\<rparr>), ev)
         else (True, edge_sync_active_socket (eee\<lparr>active_sn_transport := N2N_SN_TRANSPORT_UDP\<rparr>), ev))"

definition edge_switch_to_tcp_supernode :: "n2n_edge \<Rightarrow> edge_env \<Rightarrow> bool \<times> n2n_edge \<times> edge_env" where
  "edge_switch_to_tcp_supernode eee ev =
     (if edge_transport_is_forced_tcp eee \<or> edge_transport_uses_tcp eee then (False, eee, ev)
      else if \<not> edge_transport_allows_tcp_fallback eee then (False, eee, ev)
      else let eee = eee\<lparr>tcp_fallback_active := True, tcp_sticky_after_fallback := True, kcp_probe_pending := False, kcp_probe_cookie := 0,
                 last_kcp_probe := 0, register_fast_retry_count := 0, tcp_register_soft_retry_budget := N2N_TCP_REGISTER_SOFT_RETRIES,
                 register_super_soft_retry_armed := False\<rparr>;
               (ok, eee, ev) = supernode_connect_tcp_socket eee ev
           in if \<not> ok then (False, eee\<lparr>tcp_fallback_active := False, tcp_sticky_after_fallback := False, tcp_register_soft_retry_budget := 0,
                  register_super_soft_retry_armed := False\<rparr>, ev)
              else let eee = edge_set_active_transport N2N_SN_TRANSPORT_TCP eee; eee = reset_sup_attempts eee
                   in (True, eee\<lparr>sn_wait := 0\<rparr>, ev))"

definition supernode_disconnect :: "n2n_edge \<Rightarrow> edge_env \<Rightarrow> n2n_edge \<times> edge_env" where
  "supernode_disconnect eee ev =
     (let (eee, ev) = supernode_disconnect_tcp eee ev; (eee, ev) = supernode_disconnect_udp eee ev in (eee\<lparr>active_sock := -1\<rparr>, ev))"

definition edge_recycle_udp_supernode_socket :: "n2n_edge \<Rightarrow> edge_env \<Rightarrow> n2n_edge \<times> edge_env" where
  "edge_recycle_udp_supernode_socket eee ev =
     (if edge_transport_is_forced_tcp eee then (eee, ev)
      else let (eee, ev) = supernode_disconnect_udp eee ev; (ok, eee, ev) = supernode_connect_udp_socket eee ev
           in if \<not> ok then (eee, ev)
              else let eee = (if \<not> edge_transport_uses_tcp eee then edge_set_active_transport N2N_SN_TRANSPORT_UDP eee else eee)
                   in (edge_sync_active_socket eee, ev))"

definition edge_handle_dead_kcp_session :: "n2n_edge \<Rightarrow> edge_env \<Rightarrow> n2n_edge \<times> edge_env" where
  "edge_handle_dead_kcp_session eee ev =
     (if edge_transport_is_forced_tcp eee \<or> edge_transport_uses_tcp eee then (eee, ev)
      else let eee = (if kcp_active (sn_kcp_data eee) \<and> kcp_dead (sn_kcp_data eee)
                 then eee\<lparr>sn_kcp_data := zero_kcp_ctx, sn_kcp_data_confirmed := False\<rparr> else eee)
           in if \<not> kcp_active (sn_kcp_ctrl eee) then (eee, ev)
              else if \<not> kcp_dead (sn_kcp_ctrl eee) then (eee, ev)
              else let eee = edge_reset_supernode_kcp_state eee; (switched, eee, ev) = edge_switch_to_tcp_supernode eee ev
                   in if switched then (eee\<lparr>sn_wait := 2\<rparr>, ev)
                      else let (eee, ev) = edge_recycle_udp_supernode_socket eee ev; eee = reset_sup_attempts eee in (eee\<lparr>sn_wait := 2\<rparr>, ev))"

text \<open>\<open>waitsnd\<close> is the answer of the KCP library.\<close>

definition edge_handle_idle_data_kcp_session :: "int \<Rightarrow> nat \<Rightarrow> n2n_edge \<Rightarrow> n2n_edge" where
  "edge_handle_idle_data_kcp_session now waitsnd eee =
     (if edge_transport_is_forced_tcp eee \<or> edge_transport_uses_tcp eee then eee
      else if \<not> kcp_active (sn_kcp_data eee) \<or> \<not> sn_kcp_data_confirmed eee then eee
      else if kcp_dead (sn_kcp_data eee) then eee
      else if now - kcp_last_seen (sn_kcp_data eee) \<le> N2N_DATA_KCP_IDLE_REAP_SECS then eee
      else if waitsnd \<noteq> 0 then eee
      else eee\<lparr>sn_kcp_data := zero_kcp_ctx, sn_kcp_data_confirmed := False\<rparr>)"

end
