(* ===== verification/Edge_Send.thy ===== *)
theory Edge_Send
  imports Edge_State Sn_Process Handshake Kcp
begin

text \<open>
  How the edge sends: over UDP, TCP or KCP to a socket, and the messages it builds itself, from \<^verbatim>\<open>src/edge_utils.c\<close> and \<^verbatim>\<open>src/kcp_bridge.c\<close>.
\<close>

subsection \<open>KCP sessions of the edge\<close>

definition n2n_kcp_edge_ctx :: "n2n_edge \<Rightarrow> n2n_kcp_channel \<Rightarrow> n2n_kcp_ctx" where
  "n2n_kcp_edge_ctx eee channel = (if channel = N2N_KCP_CHANNEL_DATA then sn_kcp_data eee else sn_kcp_ctrl eee)"

definition n2n_kcp_edge_confirm_flag :: "n2n_edge \<Rightarrow> n2n_kcp_channel \<Rightarrow> bool" where
  "n2n_kcp_edge_confirm_flag eee channel = (if channel = N2N_KCP_CHANNEL_DATA then sn_kcp_data_confirmed eee else sn_kcp_ctrl_confirmed eee)"

definition set_kcp_edge :: "n2n_kcp_channel \<Rightarrow> n2n_kcp_ctx \<Rightarrow> bool \<Rightarrow> n2n_edge \<Rightarrow> n2n_edge" where
  "set_kcp_edge channel ctx confirmed eee =
     (if channel = N2N_KCP_CHANNEL_DATA then eee\<lparr>sn_kcp_data := ctx, sn_kcp_data_confirmed := confirmed\<rparr>
      else eee\<lparr>sn_kcp_ctrl := ctx, sn_kcp_ctrl_confirmed := confirmed\<rparr>)"

definition n2n_kcp_generate_conv :: "edge_env \<Rightarrow> u32 \<times> edge_env" where
  "n2n_kcp_generate_conv ev =
     (let (r, ev) = ev_rand ev; conv = ucast (r AND ucast N2N_KCP_CONV_VALUE_MASK) in (if conv = 0 then 1 else conv, ev))"

definition n2n_kcp_edge_setup_with_conv :: "n2n_sock \<Rightarrow> n2n_kcp_channel \<Rightarrow> u32 \<Rightarrow> n2n_edge \<Rightarrow> edge_env \<Rightarrow> n2n_edge \<times> edge_env" where
  "n2n_kcp_edge_setup_with_conv remote channel conv eee ev =
     (let ctx = n2n_kcp_edge_ctx eee channel in
      if udp_sock eee < 0 then (eee, ev)
      else if kcp_active ctx \<and> sock_equal (kcp_remote_sock ctx) remote \<and> \<not> kcp_dead ctx then (eee, ev)
      else let (t, ev) = get_time ev
           in (set_kcp_edge channel (zero_kcp_ctx\<lparr>kcp_conv := n2n_kcp_conv_with_channel conv channel, kcp_remote_sock := remote,
                 kcp_active := True, kcp_last_seen := t\<rparr>) False eee, ev))"

definition n2n_kcp_edge_setup :: "n2n_sock \<Rightarrow> n2n_kcp_channel \<Rightarrow> n2n_edge \<Rightarrow> edge_env \<Rightarrow> n2n_edge \<times> edge_env" where
  "n2n_kcp_edge_setup remote channel eee ev =
     (let (conv, ev) = n2n_kcp_generate_conv ev in n2n_kcp_edge_setup_with_conv remote channel conv eee ev)"

text \<open>The library's answer to a payload is part of the environment, as for the supernode.\<close>

definition n2n_kcp_edge_send :: "bytes \<Rightarrow> n2n_sock \<Rightarrow> n2n_kcp_channel \<Rightarrow> n2n_edge \<Rightarrow> edge_env \<Rightarrow> int \<times> n2n_edge \<times> edge_env" where
  "n2n_kcp_edge_send buf dest channel eee ev =
     (if udp_sock eee < 0 then (-1, eee, ev)
      else if \<not> sock_equal dest (peer_sock (curr_sn_peer eee)) then (-1, eee, ev)
      else let (eee, ev) = n2n_kcp_edge_setup dest channel eee ev; ctx = n2n_kcp_edge_ctx eee channel
           in if kcp_dead ctx then (-1, eee, ev)
              else let rt = ev_rt ev; (rc, dead) = rt_kcp rt (length (rt_kcp_sent rt));
                       ev = ev\<lparr>ev_rt := rt\<lparr>rt_kcp_sent := rt_kcp_sent rt @ [(dest, buf)]\<rparr>\<rparr>
                   in if rc < 0 then (-1, eee, ev)
                      else let (_, ev) = n2n_kcp_now_ms ev
                           in (int (length buf), set_kcp_edge channel (ctx\<lparr>kcp_dead := dead\<rparr>) (n2n_kcp_edge_confirm_flag eee channel) eee, ev))"

subsection \<open>Sending to a socket\<close>

definition check_sock_ready :: "n2n_edge \<Rightarrow> edge_env \<Rightarrow> int \<times> edge_env" where
  "check_sock_ready eee ev = (if edge_transport_uses_tcp eee then wait_writable ev else (1, ev))"

text \<open>What follows the label \<open>err_out\<close>.\<close>

definition sendto_failed :: "n2n_edge \<Rightarrow> edge_env \<Rightarrow> n2n_edge \<times> edge_env" where
  "sendto_failed eee ev =
     (if edge_transport_uses_tcp eee then
        if sending_register_super eee \<and> tcp_fallback_active eee \<and> \<not> register_super_soft_retry_armed eee \<and> tcp_register_soft_retry_budget eee > 0 then
          let eee = eee\<lparr>register_super_soft_retry_armed := True, tcp_register_soft_retry_budget := tcp_register_soft_retry_budget eee - 1\<rparr>;
              (eee, ev) = supernode_disconnect_tcp eee ev;
              (ok, eee, ev) = supernode_connect_tcp_socket eee ev;
              eee = (if ok then edge_set_active_transport N2N_SN_TRANSPORT_TCP eee else eee);
              (ms, ev) = n2n_kcp_now_ms ev
          in (edge_sync_active_socket (eee\<lparr>sn_wait := 2, last_register_req_ms := ms\<rparr>), ev)
        else
          let (eee, ev) = supernode_disconnect_tcp eee ev;
              eee = edge_release_tcp_sticky_after_disconnect eee
          in (edge_sync_active_socket (eee\<lparr>sn_wait := 1\<rparr>), ev)
      else (eee, ev))"

definition edge_sendto_fd :: "bytes \<Rightarrow> sockaddr \<Rightarrow> n2n_sock \<Rightarrow> n2n_edge \<Rightarrow> edge_env \<Rightarrow> int \<times> n2n_edge \<times> edge_env" where
  "edge_sendto_fd buf dest n2ndest eee ev =
     (let (ready, ev) = check_sock_ready eee ev in
      if ready < 1 then let (eee, ev) = sendto_failed eee ev in (-1, eee, ev)
      else
        let ctrl = (\<not> edge_transport_uses_tcp eee \<and> sock_equal n2ndest (peer_sock (curr_sn_peer eee)) \<and> sending_supernode_control eee);
            (kcp_sent, eee, ev) = (if ctrl \<and> kcp_active (sn_kcp_ctrl eee) \<and> sn_kcp_ctrl_confirmed eee
              then n2n_kcp_edge_send buf n2ndest N2N_KCP_CHANNEL_CTRL eee ev else (-1, eee, ev))
        in if kcp_sent \<ge> 0 then (kcp_sent, eee, ev)
           else
             let (_, eee, ev) = (if ctrl \<and> prefer_kcp (conf eee) \<and> \<not> sn_kcp_ctrl_confirmed eee
                   then n2n_kcp_edge_send buf n2ndest N2N_KCP_CHANNEL_CTRL eee ev else (-1, eee, ev));
                 ((sent, errno), rt) = rt_sendto (active_sock eee) dest buf (ev_rt ev);
                 ev = ev\<lparr>ev_rt := rt\<rparr>
             in if sent \<noteq> -1 then (sent, eee, ev)
                else let (eee, ev) = sendto_failed eee ev in (-1, eee, ev))"

definition edge_sendto_sock :: "bytes \<Rightarrow> n2n_sock \<Rightarrow> n2n_edge \<Rightarrow> edge_env \<Rightarrow> n2n_edge \<times> edge_env" where
  "edge_sendto_sock buf dest eee ev =
     (if family dest = 0 then (eee, ev)
      else if active_sock eee < 0 then (eee, ev)
      else if edge_tcp_fallback_is_establishing eee \<and> \<not> sending_supernode_control eee then (eee, ev)
      else
        let peer_addr = snd (fill_sockaddr (ev_stack ev) sizeof_sockaddr_in dest) in
        if edge_transport_uses_tcp eee then
          case edge_sendto_fd (be_bytes 2 (of_nat (length buf) :: u16)) peer_addr dest eee ev of
            (sent, eee, ev) \<Rightarrow>
              if sent \<le> 0 then (eee, ev) else let (_, eee, ev) = edge_sendto_fd buf peer_addr dest eee ev in (eee, ev)
        else let (_, eee, ev) = edge_sendto_fd buf peer_addr dest eee ev in (eee, ev))"

definition send_control :: "bytes \<Rightarrow> n2n_sock \<Rightarrow> n2n_edge \<Rightarrow> edge_env \<Rightarrow> n2n_edge \<times> edge_env" where
  "send_control buf dest eee ev =
     (let (eee, ev) = edge_sendto_sock buf dest (eee\<lparr>sending_supernode_control := True\<rparr>) ev in (eee\<lparr>sending_supernode_control := False\<rparr>, ev))"

subsection \<open>Building messages\<close>

abbreviation n2n_register :: byte where "n2n_register \<equiv> 1"
abbreviation n2n_register_ack :: byte where "n2n_register_ack \<equiv> 4"
abbreviation n2n_unregister_super :: byte where "n2n_unregister_super \<equiv> 6"
abbreviation n2n_query_peer :: byte where "n2n_query_peer \<equiv> 11"
abbreviation NUMBER_SN_PINGS_REGULAR :: byte where "NUMBER_SN_PINGS_REGULAR \<equiv> 5"
abbreviation N2N_NO_REG_COOKIE :: u32 where "N2N_NO_REG_COOKIE \<equiv> 0"
abbreviation N2N_FORWARDED_REG_COOKIE :: u32 where "N2N_FORWARDED_REG_COOKIE \<equiv> 0x1000"
abbreviation N2N_PORT_REG_COOKIE :: u32 where "N2N_PORT_REG_COOKIE \<equiv> 0x4000"
abbreviation N2N_REGULAR_REG_COOKIE :: u32 where "N2N_REGULAR_REG_COOKIE \<equiv> 0x10000"
abbreviation N2N_MCAST_REG_COOKIE :: u32 where "N2N_MCAST_REG_COOKIE \<equiv> 0x400000"
abbreviation N2N_LOCAL_REG_COOKIE :: u32 where "N2N_LOCAL_REG_COOKIE \<equiv> 0x1000000"

definition edge_encrypted :: "n2n_edge \<Rightarrow> bool" where
  "edge_encrypted eee \<longleftrightarrow> conf_header_encryption (conf eee) = HEADER_ENCRYPTION_ENABLED"

text \<open>Header encryption of a packet if the edge is configured for it; \<open>None\<close> where the keys are missing or a buffer is left.\<close>

definition edge_seal :: "bool \<Rightarrow> n2n_edge \<Rightarrow> bytes \<Rightarrow> nat \<Rightarrow> nat \<Rightarrow> edge_env \<Rightarrow> (bytes \<times> edge_env) option" where
  "edge_seal dynamic eee buf header_len packet_len ev =
     (if edge_encrypted eee then do {
        he \<leftarrow> conf_he (conf eee);
        let (stamp, ev) = ev_time_stamp ev;
        (_, buf, rn) \<leftarrow> packet_header_encrypt buf (of_nat header_len) (of_nat packet_len)
          (if dynamic then he_dynamic he else he_static he) (if dynamic then he_iv_dynamic he else he_iv_static he) stamp (rt_rn (ev_rt ev));
        Some (buf, ev\<lparr>ev_rt := (ev_rt ev)\<lparr>rt_rn := rn\<rparr>\<rparr>) }
      else Some (buf, ev))"

definition edge_common :: "byte \<Rightarrow> u16 \<Rightarrow> n2n_edge \<Rightarrow> n2n_common" where
  "edge_common pcode fl eee = \<lparr>ttl = N2N_DEFAULT_TTL, pc = pcode, flags = fl, community = community_name (conf eee)\<rparr>"

text \<open>The address of the device in host byte order.\<close>

definition edge_dev_addr :: "n2n_edge \<Rightarrow> n2n_ip_subnet" where
  "edge_dev_addr eee = \<lparr>net_addr = htonl (device_ip (device eee)), net_bitlen = mask2bitlen (htonl (device_mask (device eee)))\<rparr>"

text \<open>The loop over the supernodes that are pinged, with the numbers of supernodes to ping, to skip and to ping again.\<close>

fun ping_loop :: "peer_info list \<Rightarrow> nat \<Rightarrow> int \<Rightarrow> nat \<Rightarrow> bytes \<Rightarrow> n2n_edge \<Rightarrow> edge_env \<Rightarrow> n2n_edge \<times> edge_env" where
  "ping_loop [] n_top n_skip n_rest pkt eee ev = (eee, ev)"
| "ping_loop (peer # l) n_top n_skip n_rest pkt eee ev =
     (if n_top > 0 then let (eee, ev) = edge_sendto_sock pkt (peer_sock peer) eee ev in ping_loop l (n_top - 1) n_skip n_rest pkt eee ev
      else if n_skip \<noteq> 0 then ping_loop l n_top (n_skip - 1) n_rest pkt eee ev
      else if n_rest > 0 then let (eee, ev) = edge_sendto_sock pkt (peer_sock peer) eee ev in ping_loop l n_top n_skip (n_rest - 1) pkt eee ev
      else (eee, ev))"

definition send_query_peer :: "bytes \<Rightarrow> n2n_edge \<Rightarrow> edge_env \<Rightarrow> (n2n_edge \<times> edge_env) option" where
  "send_query_peer dst_mac eee ev = do {
     (_, pktbuf, idx) \<leftarrow> encode_QUERY_PEER (edge_common n2n_query_peer 0 eee)
       \<lparr>qp_aflags = 0, qp_srcMac = device_mac (device eee), qp_sock = zero_sock, qp_targetMac = dst_mac\<rparr> (empty_pktbuf, 0);
     (pktbuf, ev) \<leftarrow> edge_seal True eee pktbuf idx idx ev;
     if \<not> is_null_mac dst_mac then Some (send_control (take idx pktbuf) (peer_sock (curr_sn_peer eee)) eee ev)
     else do {
       let n_o_pings = unat (number_max_sn_pings (conf eee));
       let eee = eee\<lparr>conf := (conf eee)\<lparr>number_max_sn_pings := NUMBER_SN_PINGS_REGULAR\<rparr>\<rparr>;
       let skip = int (length (supernodes (conf eee))) - int n_o_pings;
       (skip, ev) \<leftarrow> (if skip < 0 then Some (0, ev)
         else do { (r, rn) \<leftarrow> n2n_rand_sqr (of_int skip) (rt_rn (ev_rt ev)); Some (r, ev\<lparr>ev_rt := (ev_rt ev)\<lparr>rt_rn := rn\<rparr>\<rparr>) });
       let (eee, ev) = ping_loop (supernodes (conf eee)) (n_o_pings div 2) skip ((n_o_pings + 1) div 2) (take idx pktbuf)
          (eee\<lparr>sending_supernode_control := True\<rparr>) ev;
       Some (eee\<lparr>sending_supernode_control := False\<rparr>, ev) } }"

text \<open>A new token of the edge; with user name and password it needs the context of the shared secret.\<close>

definition edge_ctx :: "n2n_edge \<Rightarrow> speck_context" where
  "edge_ctx eee = (case shared_secret (conf eee) of Some (_, ctx) \<Rightarrow> ctx | None \<Rightarrow> \<lparr>speck_key = [], speck_keysize = 0\<rparr>)"

definition edge_local_auth :: "n2n_auth \<Rightarrow> n2n_edge \<Rightarrow> edge_env \<Rightarrow> (n2n_auth \<times> n2n_edge \<times> edge_env) option" where
  "edge_local_auth auth eee ev =
     (if scheme (conf_auth (conf eee)) = n2n_auth_user_password \<and> shared_secret (conf eee) = None then None
      else do {
        (a, stored, rn) \<leftarrow> edge_get_local_auth (conf_auth (conf eee)) (edge_ctx eee) auth (rt_rn (ev_rt ev));
        Some (a, eee\<lparr>conf := (conf eee)\<lparr>conf_auth := stored\<rparr>\<rparr>, ev\<lparr>ev_rt := (ev_rt ev)\<lparr>rt_rn := rn\<rparr>\<rparr>) })"

text \<open>The request that is repeated until it is answered: its cookie and its token are drawn once.\<close>

definition begin_register_super :: "n2n_edge \<Rightarrow> edge_env \<Rightarrow> (n2n_edge \<times> edge_env) option" where
  "begin_register_super eee ev =
     (if register_super_request_active eee then Some (eee, ev)
      else do {
        let (r, ev) = ev_rand ev;
        let eee = eee\<lparr>register_super_cookie := ucast r\<rparr>;
        (a, eee, ev) \<leftarrow> edge_local_auth (register_super_auth eee) eee ev;
        Some (eee\<lparr>register_super_auth := a, register_super_request_active := True\<rparr>, ev) })"

definition register_super_packet :: "n2n_edge \<Rightarrow> edge_env \<Rightarrow> (bytes \<times> edge_env) option" where
  "register_super_packet eee ev = do {
     let psock = conf_preferred_sock (conf eee);
     let has_sock = (family psock \<noteq> AF_INVALID);
     (_, pktbuf, idx) \<leftarrow> encode_REGISTER_SUPER (edge_common n2n_register_super (if has_sock then N2N_FLAGS_SOCKET else 0) eee)
       \<lparr>rs_cookie = last_cookie (curr_sn_peer eee), rs_edgeMac = device_mac (device eee), rs_sock = (if has_sock then psock else zero_sock),
        rs_dev_addr = edge_dev_addr eee, rs_dev_desc = conf_dev_desc (conf eee), rs_auth = register_super_auth eee, rs_key_time = 0\<rparr> (empty_pktbuf, 0);
     (pktbuf, ev) \<leftarrow> edge_seal False eee pktbuf idx idx ev;
     if edge_encrypted eee \<and> shared_secret (conf eee) \<noteq> None then do {
       p \<leftarrow> rd pktbuf 0 idx;
       (_, pktbuf, idx) \<leftarrow> encode_buf (speck_128_encrypt (edge_ctx eee) (pearson_hash_128 p)) N2N_REG_SUP_HASH_CHECK_LEN (pktbuf, idx);
       Some (take idx pktbuf, ev) }
     else Some (take idx pktbuf, ev) }"

definition send_register_super :: "n2n_edge \<Rightarrow> edge_env \<Rightarrow> (n2n_edge \<times> edge_env) option" where
  "send_register_super eee ev = do {
     (eee, ev) \<leftarrow> begin_register_super eee ev;
     let eee = upd_curr_sn (\<lambda>p. p\<lparr>last_cookie := register_super_cookie eee\<rparr>) eee;
     (pkt, ev) \<leftarrow> register_super_packet eee ev;
     let eee = eee\<lparr>sending_register_super := True, sending_supernode_control := True, register_super_soft_retry_armed := False\<rparr>;
     let (eee, ev) = edge_sendto_sock pkt (peer_sock (curr_sn_peer eee)) eee ev;
     Some (eee\<lparr>sending_register_super := False, sending_supernode_control := False, register_super_soft_retry_armed := False\<rparr>, ev) }"

definition send_unregister_super :: "n2n_edge \<Rightarrow> edge_env \<Rightarrow> (n2n_edge \<times> edge_env) option" where
  "send_unregister_super eee ev = do {
     (a, eee, ev) \<leftarrow> edge_local_auth zero_auth eee ev;
     (_, pktbuf, idx) \<leftarrow> encode_UNREGISTER_SUPER (edge_common n2n_unregister_super 0 eee)
       \<lparr>unreg_auth = a, unreg_srcMac = device_mac (device eee)\<rparr> (empty_pktbuf, 0);
     (pktbuf, ev) \<leftarrow> edge_seal True eee pktbuf idx idx ev;
     Some (send_control (take idx pktbuf) (peer_sock (curr_sn_peer eee)) eee ev) }"

text \<open>\<open>peer_mac\<close> is absent for a registration by multicast.\<close>

definition send_register :: "n2n_sock \<Rightarrow> bytes option \<Rightarrow> u32 \<Rightarrow> n2n_edge \<Rightarrow> edge_env \<Rightarrow> (n2n_edge \<times> edge_env) option" where
  "send_register remote_peer peer_mac cookie eee ev =
     (if \<not> allow_p2p (conf eee) then Some (eee, ev)
      else do {
        (_, pktbuf, idx) \<leftarrow> encode_REGISTER (edge_common n2n_register 0 eee)
          \<lparr>reg_cookie = cookie, reg_srcMac = device_mac (device eee), reg_dstMac = (case peer_mac of Some m \<Rightarrow> m | None \<Rightarrow> zero_mac),
           reg_sock = zero_sock, reg_dev_addr = edge_dev_addr eee, reg_dev_desc = conf_dev_desc (conf eee)\<rparr> (empty_pktbuf, 0);
        (pktbuf, ev) \<leftarrow> edge_seal True eee pktbuf idx idx ev;
        let eee = (if edge_dest_is_current_supernode eee remote_peer then eee\<lparr>sending_supernode_control := True\<rparr> else eee);
        let (eee, ev) = edge_sendto_sock (take idx pktbuf) remote_peer eee ev;
        Some (eee\<lparr>sending_supernode_control := False\<rparr>, ev) })"

definition send_register_ack :: "n2n_sock \<Rightarrow> n2n_REGISTER \<Rightarrow> n2n_edge \<Rightarrow> edge_env \<Rightarrow> (n2n_edge \<times> edge_env) option" where
  "send_register_ack remote_peer reg eee ev =
     (if \<not> allow_p2p (conf eee) then Some (eee, ev)
      else do {
        (_, pktbuf, idx) \<leftarrow> encode_REGISTER_ACK (edge_common n2n_register_ack 0 eee)
          \<lparr>ack_cookie = reg_cookie reg, ack_srcMac = device_mac (device eee), ack_dstMac = reg_srcMac reg, ack_sock = zero_sock\<rparr> (empty_pktbuf, 0);
        (pktbuf, ev) \<leftarrow> edge_seal True eee pktbuf idx idx ev;
        Some (edge_sendto_sock (take idx pktbuf) remote_peer eee ev) })"

text \<open>Registration by multicast, for peers on the same network.\<close>

definition register_with_local_peers :: "n2n_edge \<Rightarrow> edge_env \<Rightarrow> (n2n_edge \<times> edge_env) option" where
  "register_with_local_peers eee ev =
     (if multicast_joined eee \<and> allow_p2p (conf eee) \<and> family (conf_preferred_sock (conf eee)) = AF_INVALID
      then send_register (multicast_peer eee) None N2N_MCAST_REG_COOKIE eee ev else Some (eee, ev))"

end
