(* ===== verification/Edge_Peers.thy ===== *)
theory Edge_Peers
  imports Edge_Send
begin

text \<open>
  The peers of an edge: how they become pending and known, how they are confirmed and given up, and where packets for them are sent,
  from \<^verbatim>\<open>src/edge_utils.c\<close>.
\<close>

subsection \<open>Sockets and time stamps\<close>

definition is_valid_peer_sock :: "n2n_sock \<Rightarrow> bool" where
  "is_valid_peer_sock sock \<longleftrightarrow>
     (if family sock = AF_INET then take IPV4_SIZE (addr sock) \<noteq> [127, 0, 0, 1]
      else if family sock = AF_INET6 then take IPV6_SIZE (addr sock) \<noteq> replicate 15 0 @ [1]
      else False)"

definition is_empty_ip_address :: "n2n_sock \<Rightarrow> bool" where
  "is_empty_ip_address sock \<longleftrightarrow> (\<forall>b \<in> set (take (if family sock = AF_INET6 then 16 else 4) (addr sock)). b = 0)"

definition find_and_remove_peer :: "peer_info list \<Rightarrow> bytes \<Rightarrow> bool \<times> peer_info list" where
  "find_and_remove_peer l mac = (case HASH_FIND_PEER l mac of Some i \<Rightarrow> (True, HASH_DEL i l) | None \<Rightarrow> (False, l))"

definition find_peer_by_sock :: "n2n_sock \<Rightarrow> peer_info list \<Rightarrow> nat option" where
  "find_peer_by_sock sock l = find_index (\<lambda>scan. peer_sock scan = sock) l"

definition set_stamp :: "u64 option \<Rightarrow> peer_info \<Rightarrow> peer_info" where
  "set_stamp s p = (case s of Some s \<Rightarrow> p\<lparr>last_valid_time_stamp := s\<rparr> | None \<Rightarrow> p)"

text \<open>\<open>sn\<close> is the index of the supernode that the packet came from, if any.\<close>

definition find_peer_time_stamp_and_verify :: "nat option \<Rightarrow> bytes \<Rightarrow> u64 \<Rightarrow> bool \<Rightarrow> n2n_edge \<Rightarrow> edge_env \<Rightarrow> bool \<times> n2n_edge \<times> edge_env" where
  "find_peer_time_stamp_and_verify sn mac stamp allow_jitter eee ev =
     (let (now, ev) = ev_time_stamp ev;
          check = (\<lambda>p. time_stamp_verify_and_update stamp (map_option last_valid_time_stamp p) allow_jitter now) in
      case sn of
        Some i \<Rightarrow>
          let (r, s) = check (Some (supernodes (conf eee) ! i))
          in (r \<noteq> 0, eee\<lparr>conf := (conf eee)\<lparr>supernodes := (supernodes (conf eee))[i := set_stamp s (supernodes (conf eee) ! i)]\<rparr>\<rparr>, ev)
      | None \<Rightarrow>
          (case HASH_FIND_PEER (pending_peers eee) mac of
             Some i \<Rightarrow>
               let (r, s) = check (Some (pending_peers eee ! i))
               in (r \<noteq> 0, eee\<lparr>pending_peers := (pending_peers eee)[i := set_stamp s (pending_peers eee ! i)]\<rparr>, ev)
           | None \<Rightarrow>
               (case HASH_FIND_PEER (known_peers eee) mac of
                  Some i \<Rightarrow>
                    let (r, s) = check (Some (known_peers eee ! i))
                    in (r \<noteq> 0, eee\<lparr>known_peers := (known_peers eee)[i := set_stamp s (known_peers eee ! i)]\<rparr>, ev)
                | None \<Rightarrow> (fst (check None) \<noteq> 0, eee, ev))))"

subsection \<open>Registration with peers\<close>

text \<open>The prediction of the ports of a symmetric NAT: 16 registrations to consecutive ports.\<close>

primrec port_loop :: "nat \<Rightarrow> n2n_sock \<Rightarrow> bytes \<Rightarrow> n2n_edge \<Rightarrow> edge_env \<Rightarrow> (n2n_edge \<times> edge_env) option" where
  "port_loop 0 sock mac eee ev = Some (eee, ev)"
| "port_loop (Suc alter) sock mac eee ev = do {
     (eee, ev) \<leftarrow> send_register sock (Some mac) N2N_PORT_REG_COOKIE eee ev;
     port_loop alter (sock\<lparr>port := port sock + 1\<rparr>) mac eee ev }"

text \<open>What is sent to a peer that has become pending.\<close>

definition announce_to_peer :: "bool \<Rightarrow> bytes \<Rightarrow> n2n_sock \<Rightarrow> n2n_edge \<Rightarrow> edge_env \<Rightarrow> (n2n_edge \<times> edge_env) option" where
  "announce_to_peer from_supernode mac sock eee ev = do {
     (eee, ev) \<leftarrow> (if from_supernode then do {
         (eee, ev) \<leftarrow> (if register_ttl (conf eee) = 1 then Some (eee, ev)
           else if register_ttl (conf eee) > 1 then port_loop 16 sock mac eee ev
           else send_register sock (Some mac) N2N_REGULAR_REG_COOKIE eee ev);
         send_register (peer_sock (curr_sn_peer eee)) (Some mac) N2N_FORWARDED_REG_COOKIE eee ev }
       else send_register sock (Some mac) N2N_REGULAR_REG_COOKIE eee ev);
     register_with_local_peers eee ev }"

definition describe_peer :: "int \<Rightarrow> n2n_ip_subnet option \<Rightarrow> bytes option \<Rightarrow> peer_info \<Rightarrow> peer_info" where
  "describe_peer now da desc p =
     (let p = p\<lparr>last_seen := now\<rparr>; p = (case da of Some a \<Rightarrow> p\<lparr>dev_addr := a\<rparr> | None \<Rightarrow> p)
      in case desc of Some d \<Rightarrow> p\<lparr>dev_desc := d\<rparr> | None \<Rightarrow> p)"

definition new_pending_peer :: "n2n_edge \<Rightarrow> bytes \<Rightarrow> u64 \<Rightarrow> peer_info" where
  "new_pending_peer eee mac stamp =
     zero_peer\<lparr>mac_addr := mac, peer_timeout := register_interval (conf eee), last_valid_time_stamp := stamp, purgeable := True\<rparr>"

definition register_with_new_peer :: "bool \<Rightarrow> bool \<Rightarrow> bytes \<Rightarrow> n2n_ip_subnet option \<Rightarrow> bytes option \<Rightarrow> n2n_sock \<Rightarrow> n2n_edge \<Rightarrow> edge_env
    \<Rightarrow> (n2n_edge \<times> edge_env) option" where
  "register_with_new_peer from_supernode via_multicast mac da desc peer eee ev =
     (case HASH_FIND_PEER (pending_peers eee) mac of
        None \<Rightarrow> do {
          let (stamp, ev) = ev_initial_time_stamp ev;
          let scan = (new_pending_peer eee mac stamp)\<lparr>peer_sock := peer, local_peer := (if via_multicast then 1 else 0)\<rparr>;
          let i = length (pending_peers eee);
          let eee = eee\<lparr>pending_peers := HASH_ADD scan (pending_peers eee)\<rparr>;
          (eee, ev) \<leftarrow> announce_to_peer from_supernode mac peer eee ev;
          let (now, ev) = get_time ev;
          Some (eee\<lparr>pending_peers := (pending_peers eee)[i := describe_peer now da desc (pending_peers eee ! i)]\<rparr>, ev) }
      | Some i \<Rightarrow>
          let (now, ev) = get_time ev
          in Some (eee\<lparr>pending_peers := (pending_peers eee)[i := describe_peer now da desc ((pending_peers eee ! i)\<lparr>peer_sock := peer\<rparr>)]\<rparr>, ev))"

definition check_known_peer_sock_change :: "bool \<Rightarrow> bool \<Rightarrow> bytes \<Rightarrow> n2n_ip_subnet option \<Rightarrow> bytes option \<Rightarrow> n2n_sock \<Rightarrow> int \<Rightarrow> n2n_edge \<Rightarrow> edge_env
    \<Rightarrow> (n2n_edge \<times> edge_env) option" where
  "check_known_peer_sock_change from_supernode via_multicast mac da desc peer when eee ev =
     (if is_empty_ip_address peer then Some (eee, ev)
      else if is_multi_broadcast mac then Some (eee, ev)
      else case HASH_FIND_PEER (known_peers eee) mac of
        None \<Rightarrow> Some (eee, ev)
      | Some i \<Rightarrow>
          if \<not> sock_equal (peer_sock (known_peers eee ! i)) peer then
            if \<not> from_supernode then
              register_with_new_peer from_supernode via_multicast mac da desc peer (eee\<lparr>known_peers := HASH_DEL i (known_peers eee)\<rparr>) ev
            else Some (eee, ev)
          else Some (eee\<lparr>known_peers := (known_peers eee)[i := (known_peers eee ! i)\<lparr>last_seen := when\<rparr>]\<rparr>, ev))"

text \<open>The known peer for a hardware address or, when its address has changed, for a socket; in that case it gets the new address.\<close>

definition find_known_peer :: "bytes \<Rightarrow> n2n_sock \<Rightarrow> peer_info list \<Rightarrow> nat option \<times> peer_info list" where
  "find_known_peer mac peer l =
     (case HASH_FIND_PEER l mac of
        Some i \<Rightarrow> (Some i, l)
      | None \<Rightarrow>
          (case find_peer_by_sock peer l of
             None \<Rightarrow> (None, l)
           | Some i \<Rightarrow>
               let l' = HASH_ADD ((l ! i)\<lparr>mac_addr := mac, last_cookie := N2N_NO_REG_COOKIE\<rparr>) (HASH_DEL i l) in (Some (length l' - 1), l')))"

definition check_peer_registration_needed :: "bool \<Rightarrow> bool \<Rightarrow> bytes \<Rightarrow> u32 \<Rightarrow> n2n_ip_subnet option \<Rightarrow> bytes option \<Rightarrow> n2n_sock \<Rightarrow> n2n_edge \<Rightarrow> edge_env
    \<Rightarrow> (n2n_edge \<times> edge_env) option" where
  "check_peer_registration_needed from_supernode via_multicast mac cookie da desc peer eee ev =
     (case find_known_peer mac peer (known_peers eee) of
        (None, _) \<Rightarrow> register_with_new_peer from_supernode via_multicast mac da desc peer eee ev
      | (Some i, l) \<Rightarrow>
          let (now, ev) = get_time ev;
              scan = l ! i;
              scan = (if \<not> from_supernode then scan\<lparr>last_p2p := now\<rparr> else scan);
              scan = (if via_multicast then scan\<lparr>local_peer := 1\<rparr> else scan);
              eee = eee\<lparr>known_peers := l[i := scan]\<rparr>
          in if now - last_seen scan > 0 \<or> cookie > last_cookie scan
             then check_known_peer_sock_change from_supernode via_multicast mac da desc peer now eee ev
             else Some (eee, ev))"

subsection \<open>Confirmation\<close>

text \<open>The quarter of the timeout is an integer division: 15 seconds.\<close>

definition peer_set_p2p_confirmed :: "bytes \<Rightarrow> u32 \<Rightarrow> n2n_sock \<Rightarrow> int \<Rightarrow> n2n_edge \<Rightarrow> n2n_edge" where
  "peer_set_p2p_confirmed mac cookie peer now eee =
     (let found = (case HASH_FIND_PEER (pending_peers eee) mac of
            Some i \<Rightarrow> Some (i, pending_peers eee ! i)
          | None \<Rightarrow> map_option (\<lambda>i. (i, (pending_peers eee ! i)\<lparr>last_cookie := N2N_NO_REG_COOKIE\<rparr>)) (find_peer_by_sock peer (pending_peers eee))) in
      case found of
        None \<Rightarrow> eee
      | Some (i, scan) \<Rightarrow>
          let eee = eee\<lparr>pending_peers := HASH_DEL i (pending_peers eee)\<rparr>;
              (scan, known) = (case find_peer_by_sock peer (known_peers eee) of
                  Some j \<Rightarrow> ((known_peers eee ! j)\<lparr>mac_addr := mac, last_cookie := N2N_NO_REG_COOKIE\<rparr>, HASH_DEL j (known_peers eee))
                | None \<Rightarrow>
                    (if now - last_seen scan > REGISTRATION_TIMEOUT div 4 \<or> cookie > last_cookie scan
                     then scan\<lparr>peer_sock := peer, last_cookie := cookie\<rparr> else scan, known_peers eee))
          in eee\<lparr>known_peers := HASH_ADD (scan\<lparr>last_p2p := now, last_seen := now\<rparr>) known\<rparr>)"

subsection \<open>Destinations\<close>

definition check_query_peer_info :: "int \<Rightarrow> bytes \<Rightarrow> n2n_edge \<Rightarrow> edge_env \<Rightarrow> (n2n_edge \<times> edge_env) option" where
  "check_query_peer_info now mac eee ev = do {
     let (i, eee, ev) = (case HASH_FIND_PEER (pending_peers eee) mac of
         Some i \<Rightarrow> (i, eee, ev)
       | None \<Rightarrow>
           let (stamp, ev) = ev_initial_time_stamp ev
           in (length (pending_peers eee),
               eee\<lparr>pending_peers := HASH_ADD ((new_pending_peer eee mac stamp)\<lparr>last_seen := now\<rparr>) (pending_peers eee)\<rparr>, ev));
     if now - last_sent_query (pending_peers eee ! i) > register_interval (conf eee) then do {
       (eee, ev) \<leftarrow> send_register (peer_sock (curr_sn_peer eee)) (Some mac) N2N_FORWARDED_REG_COOKIE eee ev;
       (eee, ev) \<leftarrow> send_query_peer mac eee ev;
       Some (eee\<lparr>pending_peers := (pending_peers eee)[i := (pending_peers eee ! i)\<lparr>last_sent_query := now\<rparr>]\<rparr>, ev) }
     else Some (eee, ev) }"

text \<open>
  The socket of the supernode is copied with the size of a \<open>sockaddr_in\<close>, 16 of the 20 bytes of a socket: the last four bytes of the address, which IPv4 does
  not use, are what the uninitialised variable of the caller held (\<open>garbage\<close>).
\<close>

definition copy_sn_sock :: "bytes \<Rightarrow> n2n_sock \<Rightarrow> n2n_sock" where
  "copy_sn_sock garbage s = s\<lparr>addr := take 12 (addr s) @ garbage\<rparr>"

definition find_peer_destination :: "bytes \<Rightarrow> bytes \<Rightarrow> n2n_edge \<Rightarrow> edge_env \<Rightarrow> (bool \<times> n2n_sock \<times> n2n_edge \<times> edge_env) option" where
  "find_peer_destination garbage mac eee ev =
     (let (now, ev) = get_time ev; to_sn = (\<lambda>eee. copy_sn_sock garbage (peer_sock (curr_sn_peer eee))) in
      if is_multi_broadcast mac then Some (False, to_sn eee, eee, ev)
      else
        let found = (case HASH_FIND_PEER (known_peers eee) mac of Some i \<Rightarrow> if last_seen (known_peers eee ! i) > 0 then Some i else None | None \<Rightarrow> None);
            (dest, eee) = (case found of
               None \<Rightarrow> (None, eee)
             | Some i \<Rightarrow>
                 let scan = known_peers eee ! i in
                 if now - last_p2p scan \<ge> peer_timeout scan div 2 then (None, eee\<lparr>known_peers := HASH_DEL i (known_peers eee)\<rparr>)
                 else (Some (peer_sock scan), eee))
        in case dest of
             Some s \<Rightarrow> Some (True, s, eee, ev)
           | None \<Rightarrow> do {
               (eee', ev) \<leftarrow> check_query_peer_info now mac eee ev;
               Some (False, to_sn eee, eee', ev) })"

end
