(* ===== verification/Edge_Packets.thy ===== *)
theory Edge_Packets
  imports Edge_Peers
begin

text \<open>
  The path of data packets through the edge: from the TAP device to the network and back, from \<^verbatim>\<open>src/edge_utils.c\<close>. Compression with zstd is not compiled in.
\<close>

subsection \<open>Ethernet frames\<close>

abbreviation ETH_FRAMESIZE :: nat where "ETH_FRAMESIZE \<equiv> 14"
abbreviation IP4_SRCOFFSET :: nat where "IP4_SRCOFFSET \<equiv> 12"
abbreviation IP4_DSTOFFSET :: nat where "IP4_DSTOFFSET \<equiv> 16"
abbreviation IP4_MIN_SIZE :: nat where "IP4_MIN_SIZE \<equiv> 20"
abbreviation N2N_FLAGS_PACKET_INNER_TCP :: u16 where "N2N_FLAGS_PACKET_INNER_TCP \<equiv> 0x100"
abbreviation N2N_FLAGS_PACKET_INNER_UDP :: u16 where "N2N_FLAGS_PACKET_INNER_UDP \<equiv> 0x200"
abbreviation N2N_COMPRESSION_ID_NONE :: byte where "N2N_COMPRESSION_ID_NONE \<equiv> 1"
abbreviation N2N_COMPRESSION_ID_LZO :: byte where "N2N_COMPRESSION_ID_LZO \<equiv> 2"

definition is_ethMulticast :: "bytes \<Rightarrow> nat \<Rightarrow> bool" where
  "is_ethMulticast buf bufsize \<longleftrightarrow> bufsize \<ge> ETH_FRAMESIZE \<and> buf ! 0 = 1 \<and> buf ! 1 = 0 \<and> buf ! 2 = 0x5E \<and> buf ! 3 AND 0x80 = 0"

definition is_ip6_discovery :: "bytes \<Rightarrow> nat \<Rightarrow> bool" where
  "is_ip6_discovery buf bufsize \<longleftrightarrow> bufsize \<ge> ETH_FRAMESIZE \<and> buf ! 0 = 0x33 \<and> buf ! 1 = 0x33"

definition ether_type :: "bytes \<Rightarrow> u16" where
  "ether_type buf = be_word [buf ! 12, buf ! 13]"

definition edge_packet_transport_flags :: "bytes \<Rightarrow> nat \<Rightarrow> u16" where
  "edge_packet_transport_flags tap_pkt len =
     (if len < ETH_FRAMESIZE then 0
      else if ether_type tap_pkt = 0x0800 then
        let ip_len = len - ETH_FRAMESIZE; b = tap_pkt ! 14; version = drop_bit 4 b; ihl = b AND 0xF; protocol = tap_pkt ! 23 in
        if ip_len < IP4_MIN_SIZE then 0
        else if version \<noteq> 4 \<or> ihl < 5 \<or> ip_len < unat ihl * 4 then 0
        else if protocol = 6 then N2N_FLAGS_PACKET_INNER_TCP
        else if protocol = 17 then N2N_FLAGS_PACKET_INNER_UDP
        else 0
      else 0)"

text \<open>An IPv4 address in a frame, as it lies in memory.\<close>

definition frame_ip :: "bytes \<Rightarrow> nat \<Rightarrow> u32 option" where
  "frame_ip buf off = map_option ld32 (rd buf (ETH_FRAMESIZE + off) 4)"

subsection \<open>From the TAP device to the network\<close>

fun send_to_all :: "bytes \<Rightarrow> peer_info list \<Rightarrow> n2n_edge \<Rightarrow> edge_env \<Rightarrow> n2n_edge \<times> edge_env" where
  "send_to_all pkt [] eee ev = (eee, ev)"
| "send_to_all pkt (peer # l) eee ev = (let (eee, ev) = edge_sendto_sock pkt (peer_sock peer) eee ev in send_to_all pkt l eee ev)"

definition upd_stats :: "(n2n_edge_stats \<Rightarrow> n2n_edge_stats) \<Rightarrow> n2n_edge \<Rightarrow> n2n_edge" where
  "upd_stats f eee = eee\<lparr>edge_stats := f (edge_stats eee)\<rparr>"

definition send_packet :: "bytes \<Rightarrow> bytes \<Rightarrow> bytes \<Rightarrow> n2n_edge \<Rightarrow> edge_env \<Rightarrow> (n2n_edge \<times> edge_env) option" where
  "send_packet garbage dstMac pkt eee ev =
     (if edge_tcp_fallback_is_establishing eee then Some (eee, ev)
      else do {
        (is_p2p, destination, eee, ev) \<leftarrow> find_peer_destination garbage dstMac eee ev;
        let eee = (if is_p2p then upd_stats (\<lambda>s. s\<lparr>tx_p2p := tx_p2p s + 1\<rparr>) eee else upd_stats (\<lambda>s. s\<lparr>tx_sup := tx_sup s + 1\<rparr>) eee);
        if is_multi_broadcast dstMac then
          let eee = upd_stats (\<lambda>s. s\<lparr>tx_sup_broadcast := tx_sup_broadcast s + 1\<rparr>) eee
          in Some (if sn_wait eee \<noteq> 0 then send_to_all pkt (known_peers eee) eee ev else edge_sendto_sock pkt destination eee ev)
        else Some (edge_sendto_sock pkt destination eee ev) })"

text \<open>The edge behind which a host is.\<close>

definition host_edge :: "n2n_edge \<Rightarrow> bytes \<Rightarrow> bytes" where
  "host_edge eee destMac =
     (if allow_routing (conf eee) \<and> \<not> is_multi_broadcast destMac
      then case HASH_FIND host_mac_addr destMac (known_hosts eee) of Some i \<Rightarrow> host_edge_addr (known_hosts eee ! i) | None \<Rightarrow> destMac
      else destMac)"

text \<open>The payload and the kind of compression that was applied to it.\<close>

definition compress_payload :: "bytes \<Rightarrow> nat \<Rightarrow> n2n_edge \<Rightarrow> edge_env \<Rightarrow> (byte \<times> bytes \<times> nat \<times> edge_env) option" where
  "compress_payload tap_pkt len eee ev =
     (if compression (conf eee) = N2N_COMPRESSION_ID_LZO then do {
        (clen, buf, rn) \<leftarrow> fwd (transop_lzo eee) (replicate N2N_PKT_BUF_SIZE 0) N2N_PKT_BUF_SIZE tap_pkt len (rt_rn (ev_rt ev));
        let ev = ev\<lparr>ev_rt := (ev_rt ev)\<lparr>rt_rn := rn\<rparr>\<rparr>;
        if clen > 0 \<and> clen < int len then Some (N2N_COMPRESSION_ID_LZO, buf, nat clen, ev)
        else Some (N2N_COMPRESSION_ID_NONE, tap_pkt, len, ev) }
      else Some (N2N_COMPRESSION_ID_NONE, tap_pkt, len, ev))"

text \<open>Header, payload as the transform encodes it, and the encryption of the header.\<close>

definition packet_for_net :: "bytes \<Rightarrow> bytes \<Rightarrow> nat \<Rightarrow> n2n_edge \<Rightarrow> edge_env \<Rightarrow> (bytes \<times> edge_env) option" where
  "packet_for_net destMac tap_pkt len eee ev = do {
     (comp, enc_src, enc_len, ev) \<leftarrow> compress_payload tap_pkt len eee ev;
     (_, pktbuf, headerIdx) \<leftarrow> encode_PACKET (edge_common n2n_packet (edge_packet_transport_flags tap_pkt len) eee)
       \<lparr>pkt_srcMac = device_mac (device eee), pkt_dstMac = destMac, pkt_sock = zero_sock, pkt_transform = transform_id (transop eee),
        pkt_compression = comp\<rparr> (empty_pktbuf, 0);
     (r, out, rn) \<leftarrow> fwd (transop eee) (drop headerIdx pktbuf) (N2N_PKT_BUF_SIZE - headerIdx) enc_src enc_len (rt_rn (ev_rt ev));
     let ev = ev\<lparr>ev_rt := (ev_rt ev)\<lparr>rt_rn := rn\<rparr>\<rparr>;
     let pktbuf = take headerIdx pktbuf @ out;
     let idx = nat (int headerIdx + r);
     let iv = (if shared_secret (conf eee) \<noteq> None then min (idx - headerIdx) N2N_SPECK_IVEC_SIZE else 0);
     (pktbuf, ev) \<leftarrow> edge_seal True eee pktbuf (headerIdx + iv) idx ev;
     Some (take idx pktbuf, ev) }"

definition edge_send_packet2net :: "bytes \<Rightarrow> bytes \<Rightarrow> nat \<Rightarrow> n2n_edge \<Rightarrow> edge_env \<Rightarrow> (n2n_edge \<times> edge_env) option" where
  "edge_send_packet2net garbage tap_pkt len eee ev = do {
     eh \<leftarrow> rd tap_pkt 0 ETH_FRAMESIZE;
     routed \<leftarrow> (if \<not> allow_routing (conf eee) \<and> ether_type eh = 0x0800
       then map_option (\<lambda>src. src \<noteq> device_ip (device eee)) (frame_ip tap_pkt IP4_SRCOFFSET) else Some False);
     if routed then Some (eee, ev)
     else do {
       let destMac = host_edge eee (take N2N_MAC_SIZE eh);
       (pkt, ev) \<leftarrow> packet_for_net destMac tap_pkt len eee ev;
       send_packet garbage destMac pkt eee ev } }"

text \<open>A frame that was read from the TAP device. \<open>from_tap\<close> is the verdict of the filter of network traffic: whether the frame is dropped.\<close>

definition edge_read_from_tap :: "(bytes \<Rightarrow> bool) \<Rightarrow> bytes \<Rightarrow> bytes \<Rightarrow> nat \<Rightarrow> n2n_edge \<Rightarrow> edge_env \<Rightarrow> (n2n_edge \<times> edge_env) option" where
  "edge_read_from_tap from_tap garbage eth_pkt len eee ev =
     (if len = 0 then Some (eee, ev)
      else if drop_multicast (conf eee) \<and> (is_ip6_discovery eth_pkt len \<or> is_ethMulticast eth_pkt len) then Some (eee, ev)
      else if last_sup eee = 0 then Some (eee, ev)
      else if from_tap (take len eth_pkt) then Some (eee, ev)
      else edge_send_packet2net garbage eth_pkt len eee ev)"

subsection \<open>Gratuitous ARP\<close>

definition build_gratuitous_arp :: "n2n_edge \<Rightarrow> bytes" where
  "build_gratuitous_arp eee =
     (let mac = device_mac (device eee); ip = st32 (device_ip (device eee))
      in replicate 6 0xFF @ mac @ [0x08, 0x06, 0x00, 0x01, 0x08, 0x00, 0x06, 0x04, 0x00, 0x02] @ mac @ ip @ replicate 6 0xFF @ ip)"

text \<open>The buffer is larger than the frame.\<close>

definition send_grat_arps :: "bytes \<Rightarrow> n2n_edge \<Rightarrow> edge_env \<Rightarrow> (n2n_edge \<times> edge_env) option" where
  "send_grat_arps garbage eee ev = do {
     let buffer = build_gratuitous_arp eee @ replicate 6 0;
     (eee, ev) \<leftarrow> edge_send_packet2net garbage buffer 42 eee ev;
     edge_send_packet2net garbage buffer 42 eee ev }"

subsection \<open>From the network to the TAP device\<close>

definition seen_supernode :: "int \<Rightarrow> n2n_edge \<Rightarrow> n2n_edge" where
  "seen_supernode now eee =
     (let eee = eee\<lparr>last_sup := now\<rparr>
      in if current_supernode_rx_transport eee = N2N_RX_SUPERNODE_TRANSPORT_UDP then eee\<lparr>last_udp_sup := now\<rparr> else eee)"

definition count_packet :: "bool \<Rightarrow> bytes \<Rightarrow> int \<Rightarrow> n2n_edge \<Rightarrow> n2n_edge" where
  "count_packet from_supernode dstMac now eee =
     (if from_supernode then
        let eee = (if is_multi_broadcast dstMac then upd_stats (\<lambda>s. s\<lparr>rx_sup_broadcast := rx_sup_broadcast s + 1\<rparr>) eee else eee);
            eee = upd_stats (\<lambda>s. s\<lparr>rx_sup := rx_sup s + 1\<rparr>) eee
        in seen_supernode now (eee\<lparr>close_socket_counter := 0\<rparr>)
      else (upd_stats (\<lambda>s. s\<lparr>rx_p2p := rx_p2p s + 1\<rparr>) eee)\<lparr>edge_last_p2p := now\<rparr>)"

text \<open>The results of the transforms are converted to \<open>size_t\<close>, so that a negative one becomes a huge size.\<close>

definition to_size :: "int \<Rightarrow> nat" where
  "to_size r = nat (r mod 2 ^ 64)"

text \<open>The frame in a packet; the result is absent for an unsupported kind of compression.\<close>

definition frame_of_packet :: "n2n_edge \<Rightarrow> n2n_PACKET \<Rightarrow> bytes \<Rightarrow> nat \<Rightarrow> ((bytes \<times> nat) option) option" where
  "frame_of_packet eee pkt payload psize = do {
     (r, decode_buf) \<leftarrow> rev_op (transop eee) (replicate N2N_PKT_BUF_SIZE 0) N2N_PKT_BUF_SIZE payload psize;
     let eth_size = to_size r;
     if pkt_compression pkt = N2N_COMPRESSION_ID_NONE then Some (Some (decode_buf, eth_size))
     else if pkt_compression pkt = N2N_COMPRESSION_ID_LZO then do {
       (r, deflate_buf) \<leftarrow> rev_op (transop_lzo eee) (replicate N2N_PKT_BUF_SIZE 0) N2N_PKT_BUF_SIZE decode_buf eth_size;
       Some (Some (deflate_buf, to_size r)) }
     else Some None }"

definition discard_routed :: "n2n_edge \<Rightarrow> bytes \<Rightarrow> nat \<Rightarrow> bool option" where
  "discard_routed eee eth_payload eth_size =
     (if ether_type eth_payload = 0x0800 \<and> eth_size \<ge> ETH_FRAMESIZE + IP4_MIN_SIZE then
        if take N2N_MAC_SIZE eth_payload = broadcast_mac then Some False
        else map_option (\<lambda>dst. dst \<noteq> device_ip (device eee)) (frame_ip eth_payload IP4_DSTOFFSET)
      else Some False)"

text \<open>The edge remembers which host is behind which other edge.\<close>

definition learn_host :: "bytes \<Rightarrow> bytes \<Rightarrow> int \<Rightarrow> n2n_edge \<Rightarrow> n2n_edge" where
  "learn_host shost srcMac now eee =
     (if allow_routing (conf eee) \<and> \<not> is_multi_broadcast shost then
        case HASH_FIND host_mac_addr shost (known_hosts eee) of
          None \<Rightarrow> eee\<lparr>known_hosts := HASH_ADD \<lparr>host_mac_addr = shost, host_edge_addr = srcMac, host_last_seen = now\<rparr> (known_hosts eee)\<rparr>
        | Some i \<Rightarrow> eee\<lparr>known_hosts := (known_hosts eee)[i := (known_hosts eee ! i)\<lparr>host_edge_addr := srcMac, host_last_seen := now\<rparr>]\<rparr>
      else eee)"

definition edge_handle_PACKET :: "bool \<Rightarrow> n2n_PACKET \<Rightarrow> n2n_sock \<Rightarrow> bytes \<Rightarrow> nat \<Rightarrow> n2n_edge \<Rightarrow> edge_env \<Rightarrow> (n2n_edge \<times> edge_env) option" where
  "edge_handle_PACKET from_supernode pkt orig_sender payload psize eee ev = do {
     let (now, ev) = get_time ev;
     let eee = count_packet from_supernode (pkt_dstMac pkt) now eee;
     if pkt_transform pkt \<noteq> transop_id (conf eee) then Some (eee, ev)
     else do {
       frame \<leftarrow> frame_of_packet eee pkt payload psize;
       (case frame of
          None \<Rightarrow> Some (eee, ev)
        | Some (eth_payload, eth_size) \<Rightarrow> do {
            let is_multicast = (is_ip6_discovery eth_payload eth_size \<or> is_ethMulticast eth_payload eth_size);
            discard \<leftarrow> (if drop_multicast (conf eee) \<and> is_multicast then Some True
              else if \<not> allow_routing (conf eee) \<and> \<not> is_multicast then discard_routed eee eth_payload eth_size else Some False);
            if discard then Some (eee, ev)
            else do {
              eh \<leftarrow> rd eth_payload 0 ETH_FRAMESIZE;
              let eee = learn_host (take N2N_MAC_SIZE (drop 6 eh)) (pkt_srcMac pkt) now eee;
              data \<leftarrow> rd eth_payload 0 eth_size;
              if filter_packet_from_peer eee orig_sender data then Some (eee, ev)
              else Some (eee, ev\<lparr>ev_tap := ev_tap ev @ [data]\<rparr>) } }) } }"

end
