(* ===== verification/Edge_Process.thy ===== *)
theory Edge_Process
  imports Edge_Packets Process_UDP
begin

text \<open>
  The processing of a datagram by the edge, \<open>process_udp\<close> of \<^verbatim>\<open>src/edge_utils.c\<close>, with one definition per kind of message, and the selection
  of supernodes of \<^verbatim>\<open>src/sn_selection.c\<close>.
\<close>

subsection \<open>Selection of supernodes\<close>

abbreviation SN_SELECTION_STRATEGY_LOAD :: byte where "SN_SELECTION_STRATEGY_LOAD \<equiv> 1"
abbreviation SN_SELECTION_STRATEGY_RTT :: byte where "SN_SELECTION_STRATEGY_RTT \<equiv> 2"
abbreviation SN_SELECTION_STRATEGY_MAC :: byte where "SN_SELECTION_STRATEGY_MAC \<equiv> 3"

text \<open>
  The criterion of the supernode at index \<open>i\<close> from the data of its answer. The product in 64 bits and the division are those of C: the sum is an
  \<open>int\<close> that is converted. The time stamp is truncated to 32 bits before it is shifted.
\<close>

definition sn_selection_criterion_calculate :: "n2n_edge \<Rightarrow> nat \<Rightarrow> u64 \<Rightarrow> edge_env \<Rightarrow> u64 \<times> edge_env" where
  "sn_selection_criterion_calculate eee i data ev =
     (let peer = supernodes (conf eee) ! i; common_data = criterion_common_data eee; strategy = sn_selection_strategy (conf eee) in
      if strategy = SN_SELECTION_STRATEGY_LOAD then
        let c = ucast (htobe32 (ucast data)) + common_data;
            n = of_nat (length (known_peers eee) + length (pending_peers eee))
        in (if i = curr_sn eee then c * n div (n + 1) else c, ev)
      else if strategy = SN_SELECTION_STRATEGY_RTT then
        let (s, ev) = ev_time_stamp ev in (ucast (drop_bit 22 (ucast s :: u32)) - common_data, ev)
      else if strategy = SN_SELECTION_STRATEGY_MAC then (drop_bit 16 (be_word (mac_addr peer @ [0, 0])), ev)
      else (selection_criterion peer, ev))"

text \<open>With no supernode the code divides by zero; an edge always has one.\<close>

definition sn_selection_criterion_common_data_default :: "n2n_edge \<Rightarrow> edge_env \<Rightarrow> n2n_edge \<times> edge_env" where
  "sn_selection_criterion_common_data_default eee ev =
     (let strategy = sn_selection_strategy (conf eee) in
      if strategy = SN_SELECTION_STRATEGY_LOAD then
        let tmp = of_nat (length (pending_peers eee)) :: u64;
            tmp = (if conf_header_encryption (conf eee) = HEADER_ENCRYPTION_ENABLED then tmp * 2 else tmp)
        in (eee\<lparr>criterion_common_data := tmp div of_nat (length (supernodes (conf eee)))\<rparr>, ev)
      else if strategy = SN_SELECTION_STRATEGY_RTT then
        let (s, ev) = ev_time_stamp ev in (eee\<lparr>criterion_common_data := ucast (drop_bit 22 (ucast s :: u32))\<rparr>, ev)
      else if strategy = SN_SELECTION_STRATEGY_MAC then (eee\<lparr>criterion_common_data := 0\<rparr>, ev)
      else (eee, ev))"

definition sn_selection_criterion_sort :: "peer_info \<Rightarrow> peer_info \<Rightarrow> int" where
  "sn_selection_criterion_sort a b =
     (if selection_criterion a > selection_criterion b then 1 else if selection_criterion a < selection_criterion b then -1 else 0)"

text \<open>Sorting moves the entries, and the pointer to the current supernode with its entry.\<close>

definition sn_selection_sort :: "n2n_edge \<Rightarrow> n2n_edge" where
  "sn_selection_sort eee =
     (let l = HASH_SORT (\<lambda>a b. sn_selection_criterion_sort (snd a) (snd b)) (enumerate 0 (supernodes (conf eee)))
      in eee\<lparr>conf := (conf eee)\<lparr>supernodes := map snd l\<rparr>,
             curr_sn := (case find_index (\<lambda>a. fst a = curr_sn eee) l of Some i \<Rightarrow> i | None \<Rightarrow> curr_sn eee)\<rparr>)"

subsection \<open>The list of supernodes and the pointer into it\<close>

text \<open>The index of an entry after the one at index \<open>i\<close> of a list of length \<open>n\<close> has moved to the end.\<close>

definition moved_to_end :: "nat \<Rightarrow> nat \<Rightarrow> nat \<Rightarrow> nat" where
  "moved_to_end n i j = (if j = i then n - 1 else if i < j then j - 1 else j)"

text \<open>The entry that \<open>add_sn_to_list_by_mac_or_sock\<close> moves: one that is found by its socket and gets an address.\<close>

definition renamed_entry :: "peer_info list \<Rightarrow> n2n_sock \<Rightarrow> bytes \<Rightarrow> nat option" where
  "renamed_entry l sock mac =
     (if is_null_mac mac then None
      else if HASH_FIND_PEER l mac \<noteq> None then None else find_index (\<lambda>scan. peer_sock scan = sock) l)"

definition edge_add_sn :: "n2n_sock \<Rightarrow> bytes \<Rightarrow> skip_add \<Rightarrow> n2n_edge \<Rightarrow> edge_env \<Rightarrow> nat option \<times> skip_add \<times> n2n_edge \<times> edge_env" where
  "edge_add_sn sock mac skip eee ev =
     (let l = supernodes (conf eee);
          (i, l', skip, rt) = add_sn_to_list_by_mac_or_sock l sock mac skip (ev_rt ev);
          curr = (case renamed_entry l sock mac of Some k \<Rightarrow> moved_to_end (length l) k (curr_sn eee) | None \<Rightarrow> curr_sn eee)
      in (i, skip, eee\<lparr>conf := (conf eee)\<lparr>supernodes := l'\<rparr>, curr_sn := curr\<rparr>, ev\<lparr>ev_rt := rt\<rparr>))"

definition upd_sn :: "nat \<Rightarrow> (peer_info \<Rightarrow> peer_info) \<Rightarrow> n2n_edge \<Rightarrow> n2n_edge" where
  "upd_sn i f eee = eee\<lparr>conf := (conf eee)\<lparr>supernodes := (supernodes (conf eee))[i := f (supernodes (conf eee) ! i)]\<rparr>\<rparr>"

subsection \<open>Messages of other edges\<close>

text \<open>The local variables of \<open>process_udp\<close>. The array \<open>hash_buf\<close> is \<open>None\<close> until it is written.\<close>

record edge_locals =
  el_in_sock :: int
  el_buf :: bytes
  el_size :: nat
  el_now :: int
  el_sender :: n2n_sock
  el_cmn :: n2n_common
  el_pos :: rpos
  el_stamp :: u64
  el_hash :: "bytes option"
  el_from_sn :: bool
  el_multicast :: bool
  el_sn :: "nat option"

type_synonym edge_result = "(n2n_edge \<times> edge_env) option"

definition edge_stamp_ok :: "edge_locals \<Rightarrow> bytes \<Rightarrow> bool \<Rightarrow> n2n_edge \<Rightarrow> edge_env \<Rightarrow> bool \<times> n2n_edge \<times> edge_env" where
  "edge_stamp_ok el mac allow_jitter eee ev =
     (if edge_encrypted eee then find_peer_time_stamp_and_verify (el_sn el) mac (el_stamp el) allow_jitter eee ev else (True, eee, ev))"

definition forget_pending :: "bytes \<Rightarrow> n2n_edge \<Rightarrow> n2n_edge" where
  "forget_pending mac eee = eee\<lparr>pending_peers := snd (find_and_remove_peer (pending_peers eee) mac)\<rparr>"

definition edge_PACKET :: "edge_locals \<Rightarrow> n2n_edge \<Rightarrow> edge_env \<Rightarrow> edge_result" where
  "edge_PACKET el eee ev = do {
     (_, pkt, pos) \<leftarrow> decode_PACKET (el_cmn el) (el_buf el) (el_pos el);
     let (ok, eee, ev) = edge_stamp_ok el (pkt_srcMac pkt) True eee ev;
     if \<not> ok \<or> last_sup eee = 0 then Some (eee, ev)
     else do {
       let eee = (if \<not> el_from_sn el then forget_pending (pkt_srcMac pkt) eee else eee);
       let orig_sender = (if el_from_sn el \<and> is_valid_peer_sock (pkt_sock pkt) then pkt_sock pkt else el_sender el);
       (eee, ev) \<leftarrow> check_peer_registration_needed (el_from_sn el) (el_multicast el) (pkt_srcMac pkt)
         (if el_from_sn el then N2N_FORWARDED_REG_COOKIE else N2N_REGULAR_REG_COOKIE) None None orig_sender eee ev;
       if snd pos \<le> el_size el
       then edge_handle_PACKET (el_from_sn el) pkt orig_sender (drop (snd pos) (el_buf el)) (el_size el - snd pos) eee ev
       else None } }"

definition edge_REGISTER :: "edge_locals \<Rightarrow> n2n_edge \<Rightarrow> edge_env \<Rightarrow> edge_result" where
  "edge_REGISTER el eee ev = do {
     (_, reg, _) \<leftarrow> decode_REGISTER (el_cmn el) (el_buf el) (el_pos el);
     let via_multicast = (el_multicast el \<and> is_null_mac (reg_dstMac reg));
     let (ok, eee, ev) = edge_stamp_ok el (reg_srcMac reg) via_multicast eee ev;
     let orig_sender = (if is_valid_peer_sock (reg_sock reg) then reg_sock reg else el_sender el);
     if \<not> ok then Some (eee, ev)
     else if via_multicast \<and> reg_srcMac reg = device_mac (device eee) then Some (eee, ev)
     else if \<not> via_multicast \<and> reg_dstMac reg \<noteq> device_mac (device eee) then Some (eee, ev)
     else do {
       (eee, ev) \<leftarrow> (if \<not> el_from_sn el then send_register_ack orig_sender reg (forget_pending (reg_srcMac reg) eee) ev else Some (eee, ev));
       check_peer_registration_needed (el_from_sn el) via_multicast (reg_srcMac reg) (reg_cookie reg) (Some (reg_dev_addr reg))
         (Some (reg_dev_desc reg)) orig_sender eee ev } }"

definition edge_REGISTER_ACK :: "edge_locals \<Rightarrow> n2n_edge \<Rightarrow> edge_env \<Rightarrow> edge_result" where
  "edge_REGISTER_ACK el eee ev = do {
     (_, ra, _) \<leftarrow> decode_REGISTER_ACK (el_cmn el) (el_buf el) (el_pos el);
     let (ok, eee, ev) = edge_stamp_ok el (ack_srcMac ra) False eee ev;
     if \<not> ok then Some (eee, ev)
     else Some (peer_set_p2p_confirmed (ack_srcMac ra) (ack_cookie ra) (el_sender el) (el_now el) eee, ev) }"

subsection \<open>Messages of supernodes\<close>

text \<open>
  The supernodes named in an acknowledgement. The printed form of their sockets, which only serves for tracing and the resolver, is left out.
\<close>

primrec edge_payload_loop :: "nat \<Rightarrow> nat \<Rightarrow> bytes \<Rightarrow> n2n_edge \<Rightarrow> edge_env \<Rightarrow> edge_result" where
  "edge_payload_loop 0 k buf eee ev = Some (eee, ev)"
| "edge_payload_loop (Suc n) k buf eee ev = do {
     b \<leftarrow> rd buf (k * REG_SUPER_ACK_PAYLOAD_ENTRY_SIZE) 20;
     mac \<leftarrow> rd buf (k * REG_SUPER_ACK_PAYLOAD_ENTRY_SIZE + 20) N2N_MAC_SIZE;
     (_, sock, _) \<leftarrow> decode_sock_payload b zero_sock (20, 0);
     let (sn, skip, eee, ev) = edge_add_sn sock mac SN_ADD eee ev;
     let eee = (case sn of Some i \<Rightarrow> if skip = SN_ADD_ADDED
         then upd_sn i (\<lambda>p. p\<lparr>selection_criterion := sn_selection_criterion_default, last_seen := 0\<rparr>) eee else eee | None \<Rightarrow> eee);
     edge_payload_loop n (k + 1) buf eee ev }"

text \<open>The current supernode gets its address when it answers for the first time, and moves to the end of the list.\<close>

definition learn_sn_mac :: "bytes \<Rightarrow> n2n_edge \<Rightarrow> n2n_edge" where
  "learn_sn_mac mac eee =
     (let l = supernodes (conf eee) in
      if is_null_mac (mac_addr (curr_sn_peer eee)) then
        let l' = HASH_ADD ((curr_sn_peer eee)\<lparr>mac_addr := mac\<rparr>) (HASH_DEL (curr_sn eee) l)
        in eee\<lparr>conf := (conf eee)\<lparr>supernodes := l'\<rparr>, curr_sn := length l' - 1\<rparr>
      else eee)"

text \<open>The answer to the challenge, with the dynamic key.\<close>

definition edge_remote_auth :: "n2n_auth \<Rightarrow> n2n_edge \<Rightarrow> (bool \<times> n2n_edge) option" where
  "edge_remote_auth remote_auth eee =
     (if scheme (conf_auth (conf eee)) = n2n_auth_user_password then do {
        (ss, ctx) \<leftarrow> shared_secret (conf eee);
        he \<leftarrow> conf_he (conf eee);
        (r, he) \<leftarrow> edge_handle_remote_auth (conf_auth (conf eee)) ctx ss he remote_auth;
        Some (r = 0, eee\<lparr>conf := (conf eee)\<lparr>conf_he := Some he\<rparr>\<rparr>) }
      else Some (True, eee))"

abbreviation TUNTAP_IP_MODE_SN_ASSIGN :: byte where "TUNTAP_IP_MODE_SN_ASSIGN \<equiv> 0"

definition assign_address :: "n2n_ip_subnet \<Rightarrow> n2n_edge \<Rightarrow> n2n_edge option" where
  "assign_address da eee =
     (if tuntap_ip_mode (conf eee) = TUNTAP_IP_MODE_SN_ASSIGN \<and> net_addr da \<noteq> 0 \<and> net_bitlen da \<noteq> 0 then do {
        msk \<leftarrow> bitlen2mask (net_bitlen da);
        Some (eee\<lparr>assigned_addr := Some (net_addr da, msk)\<rparr>) }
      else Some eee)"

definition registration_done :: "n2n_edge \<Rightarrow> n2n_edge" where
  "registration_done eee =
     reset_sup_attempts (edge_reset_register_super_request (eee\<lparr>sn_wait := 0, register_fast_retry_count := 0, tcp_register_soft_retry_budget := 0,
       register_super_soft_retry_armed := False\<rparr>))"

text \<open>The check of the hash that follows the packet when user names and passwords are used; it reads \<open>hash_buf\<close>.\<close>

definition edge_hash_ok :: "edge_locals \<Rightarrow> n2n_edge \<Rightarrow> bool option" where
  "edge_hash_ok el eee =
     (case shared_secret (conf eee) of
        None \<Rightarrow> Some True
      | Some (_, ctx) \<Rightarrow>
          if el_size el < N2N_REG_SUP_HASH_CHECK_LEN then None
          else do {
            h \<leftarrow> rd (el_buf el) (el_size el - N2N_REG_SUP_HASH_CHECK_LEN) N2N_REG_SUP_HASH_CHECK_LEN;
            hash \<leftarrow> el_hash el;
            Some (speck_128_encrypt ctx hash = h) })"

definition edge_accept_registration :: "bytes \<Rightarrow> edge_locals \<Rightarrow> n2n_REGISTER_SUPER_ACK \<Rightarrow> bytes \<Rightarrow> n2n_edge \<Rightarrow> edge_env \<Rightarrow> edge_result" where
  "edge_accept_registration garbage el ra payload eee ev = do {
     let eee = eee\<lparr>close_socket_counter := 0\<rparr>;
     let eee = (if tcp_fallback_active eee \<and> udp_sock eee \<ge> 0 \<and> el_in_sock el = udp_sock eee then edge_mark_udp_recovered eee else eee);
     let eee = learn_sn_mac (rsa_srcMac ra) eee;
     (eee, ev) \<leftarrow> edge_payload_loop (unat (rsa_num_sn ra)) 0 payload eee ev;
     eee \<leftarrow> assign_address (rsa_dev_addr ra) eee;
     let eee = registration_done eee;
     if is_null_mac (device_mac (device eee)) then Some (eee, ev)
     else do {
       (eee, ev) \<leftarrow> (if last_sup eee = 0 then send_grat_arps garbage eee ev else Some (eee, ev));
       Some (seen_supernode (el_now el) eee, ev) } }"

definition edge_REGISTER_SUPER_ACK :: "bytes \<Rightarrow> edge_locals \<Rightarrow> n2n_edge \<Rightarrow> edge_env \<Rightarrow> edge_result" where
  "edge_REGISTER_SUPER_ACK garbage el eee ev = do {
     (_, (ra, payload), _) \<leftarrow> decode_REGISTER_SUPER_ACK (el_cmn el) (el_buf el) (replicate REG_SUPER_ACK_PAYLOAD_SPACE 0) (el_pos el);
     if sn_wait eee = 0 then Some (eee, ev)
     else do {
       let (ok, eee, ev) = edge_stamp_ok el (rsa_srcMac ra) False eee ev;
       if \<not> ok then Some (eee, ev)
       else do {
         hash_ok \<leftarrow> edge_hash_ok el eee;
         if \<not> hash_ok \<or> rsa_cookie ra \<noteq> last_cookie (curr_sn_peer eee) then Some (eee, ev)
         else do {
           (auth_ok, eee) \<leftarrow> edge_remote_auth (rsa_auth ra) eee;
           if auth_ok then edge_accept_registration garbage el ra payload eee ev else Some (eee, ev) } } } }"

definition edge_REGISTER_SUPER_NAK :: "edge_locals \<Rightarrow> n2n_edge \<Rightarrow> edge_env \<Rightarrow> edge_result" where
  "edge_REGISTER_SUPER_NAK el eee ev =
     (if sn_wait eee = 0 then Some (eee, ev)
      else do {
        (_, nak, _) \<leftarrow> decode_REGISTER_SUPER_NAK (el_cmn el) (el_buf el) (el_pos el);
        let (ok, eee, ev) = edge_stamp_ok el (nak_srcMac nak) False eee ev;
        if \<not> ok \<or> nak_cookie nak \<noteq> last_cookie (curr_sn_peer eee) then Some (eee, ev)
        else Some (edge_reset_register_super_request eee, ev) })"

definition edge_PONG :: "edge_locals \<Rightarrow> n2n_PEER_INFO \<Rightarrow> n2n_edge \<Rightarrow> edge_env \<Rightarrow> n2n_edge \<times> edge_env" where
  "edge_PONG el pinfo eee ev =
     (case edge_add_sn (el_sender el) (pi_srcMac pinfo) SN_ADD_SKIP eee ev of
        (None, _, eee, ev) \<Rightarrow> (eee, ev)
      | (Some i, _, eee, ev) \<Rightarrow>
          let eee = seen_supernode (el_now el) (eee\<lparr>sn_pong := True\<rparr>);
              eee = upd_sn i (\<lambda>p. p\<lparr>last_seen := el_now el, uptime := uint (pi_uptime pinfo), version := pi_version pinfo\<rparr>) eee;
              (c, ev) = sn_selection_criterion_calculate eee i (ucast (pi_load pinfo)) ev
          in (upd_sn i (\<lambda>p. p\<lparr>selection_criterion := c\<rparr>) eee, ev))"

text \<open>
  Where a peer can be found: it is looked for among the pending peers and then among the known ones; \<open>redirect\<close> changes its sockets.
\<close>

definition redirect :: "n2n_common \<Rightarrow> n2n_PEER_INFO \<Rightarrow> peer_info \<Rightarrow> peer_info" where
  "redirect cmn pinfo p =
     (let p = p\<lparr>peer_sock := pi_sock pinfo\<rparr> in if flags cmn AND N2N_FLAGS_SOCKET \<noteq> 0 then p\<lparr>preferred_sock := pi_preferred_sock pinfo\<rparr> else p)"

definition edge_found_peer :: "edge_locals \<Rightarrow> n2n_PEER_INFO \<Rightarrow> n2n_edge \<Rightarrow> edge_env \<Rightarrow> edge_result" where
  "edge_found_peer el pinfo eee ev =
     (let found = (case HASH_FIND_PEER (pending_peers eee) (pi_mac pinfo) of
            Some i \<Rightarrow> Some (eee\<lparr>pending_peers := (pending_peers eee)[i := redirect (el_cmn el) pinfo (pending_peers eee ! i)]\<rparr>)
          | None \<Rightarrow> map_option (\<lambda>i. eee\<lparr>known_peers := (known_peers eee)[i := redirect (el_cmn el) pinfo (known_peers eee ! i)]\<rparr>)
              (HASH_FIND_PEER (known_peers eee) (pi_mac pinfo))) in
      case found of
        None \<Rightarrow> Some (eee, ev)
      | Some eee \<Rightarrow> do {
          let eee = seen_supernode (el_now el) eee;
          (eee, ev) \<leftarrow> (if flags (el_cmn el) AND N2N_FLAGS_SOCKET \<noteq> 0
            then send_register (pi_preferred_sock pinfo) (Some (pi_mac pinfo)) N2N_LOCAL_REG_COOKIE eee ev else Some (eee, ev));
          send_register (pi_sock pinfo) (Some (pi_mac pinfo)) N2N_REGULAR_REG_COOKIE eee ev })"

definition edge_PEER_INFO :: "edge_locals \<Rightarrow> n2n_edge \<Rightarrow> edge_env \<Rightarrow> edge_result" where
  "edge_PEER_INFO el eee ev = do {
     (_, pinfo, _) \<leftarrow> decode_PEER_INFO (el_cmn el) (el_buf el) (el_pos el);
     let (ok, eee, ev) = edge_stamp_ok el null_mac True eee ev;
     if \<not> ok then Some (eee, ev)
     else if flags (el_cmn el) AND N2N_FLAGS_SOCKET \<noteq> 0 \<and> \<not> is_valid_peer_sock (pi_sock pinfo) then Some (eee, ev)
     else if is_null_mac (pi_mac pinfo) then Some (edge_PONG el pinfo eee ev)
     else edge_found_peer el pinfo eee ev }"

definition edge_RE_REGISTER_SUPER :: "edge_locals \<Rightarrow> n2n_edge \<Rightarrow> edge_env \<Rightarrow> edge_result" where
  "edge_RE_REGISTER_SUPER el eee ev =
     (let (ok, eee, ev) = edge_stamp_ok el null_mac False eee ev in
      if \<not> ok then Some (eee, ev)
      else if shared_secret (conf eee) = None then Some (eee, ev)
      else Some (eee\<lparr>sn_wait := 2\<rparr>, ev))"

subsection \<open>A datagram\<close>

abbreviation MSG_TYPE_REGISTER_ACK :: byte where "MSG_TYPE_REGISTER_ACK \<equiv> 4"
abbreviation MSG_TYPE_RE_REGISTER_SUPER :: byte where "MSG_TYPE_RE_REGISTER_SUPER \<equiv> 12"

text \<open>
  The header: 2 for the dynamic key, 1 for the static one, 0 for a datagram to be dropped, with the hash and the stamp. The hash is computed only when the
  dynamic key does not fit and there are user names and passwords. Lengths are given to the decryption in 16 bits.
\<close>

definition edge_decrypt :: "n2n_edge \<Rightarrow> bytes \<Rightarrow> nat \<Rightarrow> (nat \<times> bytes \<times> bytes option \<times> u64) option" where
  "edge_decrypt eee buf sz = do {
     he \<leftarrow> conf_he (conf eee);
     (r, buf, stamp) \<leftarrow> packet_header_decrypt buf (of_nat sz) (community_name (conf eee)) (he_dynamic he) (he_iv_dynamic he) 0;
     if r \<noteq> 0 then Some (2, buf, None, stamp)
     else do {
       hash \<leftarrow> (if shared_secret (conf eee) \<noteq> None then map_option (Some \<circ> pearson_hash_128) (rd buf 0 (sz - N2N_REG_SUP_HASH_CHECK_LEN)) else Some None);
       (r, buf, stamp) \<leftarrow> packet_header_decrypt buf (of_nat (sz - N2N_REG_SUP_HASH_CHECK_LEN)) (community_name (conf eee)) (he_static he) (he_iv_static he) stamp;
       Some (if r \<noteq> 0 then 1 else 0, buf, hash, stamp) } }"

definition edge_dispatch :: "bytes \<Rightarrow> edge_locals \<Rightarrow> n2n_edge \<Rightarrow> edge_env \<Rightarrow> edge_result" where
  "edge_dispatch garbage el eee ev =
     (let msg_type = pc (el_cmn el) in
      if msg_type = MSG_TYPE_PACKET then edge_PACKET el eee ev
      else if msg_type = MSG_TYPE_REGISTER then edge_REGISTER el eee ev
      else if msg_type = MSG_TYPE_REGISTER_ACK then edge_REGISTER_ACK el eee ev
      else if msg_type = MSG_TYPE_REGISTER_SUPER_ACK then edge_REGISTER_SUPER_ACK garbage el eee ev
      else if msg_type = MSG_TYPE_REGISTER_SUPER_NAK then edge_REGISTER_SUPER_NAK el eee ev
      else if msg_type = MSG_TYPE_PEER_INFO then edge_PEER_INFO el eee ev
      else if msg_type = MSG_TYPE_RE_REGISTER_SUPER then edge_RE_REGISTER_SUPER el eee ev
      else Some (eee, ev))"

text \<open>The datagram is what the first \<open>udp_size\<close> bytes of the buffer hold.\<close>

definition edge_process_udp :: "bytes \<Rightarrow> sockaddr \<Rightarrow> int \<Rightarrow> bytes \<Rightarrow> nat \<Rightarrow> int \<Rightarrow> n2n_edge \<Rightarrow> edge_env \<Rightarrow> edge_result" where
  "edge_process_udp garbage sender_sock in_sock udp_buf udp_size now eee ev = do {
     let sender = (if tcp_sock eee \<ge> 0 \<and> in_sock = tcp_sock eee then peer_sock (curr_sn_peer eee) else snd (fill_n2nsock sender_sock));
     (header_enc, buf, hash, stamp) \<leftarrow> (if edge_encrypted eee then edge_decrypt eee udp_buf udp_size else Some (0, udp_buf, None, 0));
     if edge_encrypted eee \<and> header_enc = 0 then Some (eee, ev)
     else do {
       (r, cmn, pos) \<leftarrow> decode_common buf zero_common (udp_size, 0);
       if r < 0 then Some (eee, ev)
       else if shared_secret (conf eee) \<noteq> None \<and> pc cmn \<noteq> MSG_TYPE_REGISTER_SUPER_ACK \<and> pc cmn \<noteq> MSG_TYPE_REGISTER_SUPER_NAK \<and> header_enc \<noteq> 2
       then Some (eee, ev)
       else do {
         let from_supernode = (flags cmn AND N2N_FLAGS_FROM_SUPERNODE \<noteq> 0);
         let (sn, _, eee, ev) = (if from_supernode then edge_add_sn sender null_mac SN_ADD_SKIP eee ev else (None, SN_ADD_SKIP, eee, ev));
         if from_supernode \<and> sn = None then Some (eee, ev)
         else if community cmn \<noteq> community_name (conf eee) then Some (eee, ev)
         else edge_dispatch garbage \<lparr>el_in_sock = in_sock, el_buf = buf, el_size = udp_size, el_now = now, el_sender = sender, el_cmn = cmn,
           el_pos = pos, el_stamp = stamp, el_hash = hash, el_from_sn = from_supernode, el_multicast = (in_sock = udp_multicast_sock eee), el_sn = sn\<rparr> eee ev } } }"

end
