(* ===== verification/Edge_Loop.thy ===== *)
theory Edge_Loop
  imports Edge_Process
begin

text \<open>
  The main loop of the edge, \<open>run_edge_loop\<close> of \<^verbatim>\<open>src/edge_utils.c\<close>: the registration with supernodes, the reception over UDP, TCP and KCP, and the
  maintenance. The management port, the thread that resolves names and a dynamic address of the device are left out.
\<close>

subsection \<open>Registration with a supernode\<close>

abbreviation N2N_TCP_FALLBACK_KCP_PROBE_INTERVAL :: int where "N2N_TCP_FALLBACK_KCP_PROBE_INTERVAL \<equiv> 5"
abbreviation N2N_CLOSE_SOCKET_COUNTER_MAX :: int where "N2N_CLOSE_SOCKET_COUNTER_MAX \<equiv> 15"
abbreviation REGISTER_SUPER_INTERVAL_DFL :: int where "REGISTER_SUPER_INTERVAL_DFL \<equiv> 20"
abbreviation SWEEP_TIME :: int where "SWEEP_TIME \<equiv> 30"
abbreviation HOSTINFO_TIMEOUT :: int where "HOSTINFO_TIMEOUT \<equiv> 300"

definition check_join_multicast_group :: "n2n_edge \<Rightarrow> edge_env \<Rightarrow> n2n_edge \<times> edge_env" where
  "check_join_multicast_group eee ev =
     (if allow_p2p (conf eee) \<and> family (conf_preferred_sock (conf eee)) = AF_INVALID \<and> \<not> multicast_joined eee
      then let (ok, ev) = initiate_connect ev in (if ok then eee\<lparr>multicast_joined := True\<rparr> else eee, ev) else (eee, ev))"

definition fast_retry_due :: "n2n_edge \<Rightarrow> u32 \<Rightarrow> bool" where
  "fast_retry_due eee current_ms \<longleftrightarrow> sn_wait eee = 2
     \<or> sn_wait eee \<noteq> 0 \<and> last_register_req_ms eee \<noteq> 0 \<and> unat (current_ms - last_register_req_ms eee) \<ge> edge_register_retry_interval_ms eee"

text \<open>
  The random offset of the next registration. The remainder by three quarters of the interval, which are zero for an interval of one
  second, is a division by zero then.
\<close>

definition register_offset :: "n2n_edge \<Rightarrow> edge_env \<Rightarrow> (int \<times> edge_env) option" where
  "register_offset eee ev =
     (if sn_wait eee = 2 then
        let (r, ev) = ev_rand ev; m = (register_interval (conf eee) * 3) div 4
        in if m = 0 then None else Some (to_int32 (uint r mod m), ev)
      else Some (0, ev))"

text \<open>While the edge has fallen back to TCP it may probe UDP.\<close>

definition probe_udp :: "int \<Rightarrow> n2n_edge \<Rightarrow> edge_env \<Rightarrow> (n2n_edge \<times> edge_env) option" where
  "probe_udp now eee ev =
     (if tcp_fallback_active eee \<and> edge_transport_uses_tcp eee then do {
        (eee, ev) \<leftarrow>
          (if \<not> tcp_sticky_after_fallback eee \<and> (last_kcp_probe eee = 0 \<or> now \<ge> last_kcp_probe eee + N2N_TCP_FALLBACK_KCP_PROBE_INTERVAL) then do {
             let saved_transport = active_sn_transport eee;
             (eee, ev) \<leftarrow> send_register_super (edge_set_active_transport N2N_SN_TRANSPORT_UDP (eee\<lparr>last_kcp_probe := now\<rparr>)) ev;
             Some (edge_set_active_transport saved_transport eee, ev) }
           else Some (eee, ev));
        Some (eee\<lparr>sup_attempts := 1\<rparr>, ev) }
      else Some (eee, ev))"

definition defer_fallback :: "n2n_edge \<Rightarrow> n2n_edge" where
  "defer_fallback eee = reset_sup_attempts (eee\<lparr>sn_wait := 0, register_fast_retry_count := 0, tcp_register_soft_retry_budget := 0,
     register_super_soft_retry_armed := False\<rparr>)"

text \<open>Another supernode is tried, now and then with new sockets.\<close>

definition try_next_supernode :: "n2n_edge \<Rightarrow> edge_env \<Rightarrow> n2n_edge \<times> edge_env" where
  "try_next_supernode eee ev =
     (let eee = upd_curr_sn (\<lambda>p. p\<lparr>selection_criterion := sn_selection_criterion_bad\<rparr>) eee;
          eee = sn_selection_sort eee;
          eee = reset_sup_attempts (eee\<lparr>curr_sn := 0\<rparr>);
          eee = eee\<lparr>resolution_request := True\<rparr>;
          (eee, ev) =
            (if local_port (conf eee) = 0 \<or> local_port (conf eee) > 1024 then
               let close_socket_counter_max = (if edge_transport_allows_tcp_fallback eee then N2N_CLOSE_SOCKET_COUNTER_MAX else 3) in
               if list_all (\<lambda>peer. local_peer peer \<noteq> 0) (known_peers eee) then
                 let eee = eee\<lparr>close_socket_counter := close_socket_counter eee + 1\<rparr> in
                 if close_socket_counter eee \<ge> close_socket_counter_max
                 then supernode_disconnect (eee\<lparr>close_socket_counter := 0\<rparr>) ev else (eee, ev)
               else (eee, ev)
             else (eee, ev));
          (_, eee, ev) = supernode_connect eee ev
      in (eee, ev))"

text \<open>What happens when a registration is due: the first result tells whether to go on with it.\<close>

definition count_attempt :: "int \<Rightarrow> n2n_edge \<Rightarrow> edge_env \<Rightarrow> bool \<times> n2n_edge \<times> edge_env" where
  "count_attempt now eee ev =
     (if sup_attempts eee = 0 then
        if \<not> edge_transport_is_forced_tcp eee \<and> \<not> edge_transport_uses_tcp eee \<and> edge_recent_supernode_udp_activity eee now
        then (False, defer_fallback eee, ev)
        else if \<not> edge_transport_is_forced_tcp eee \<and> \<not> edge_transport_uses_tcp eee \<and> edge_recent_supernode_kcp_activity eee now
        then (False, defer_fallback eee, ev)
        else case edge_switch_to_tcp_supernode eee ev of
          (True, eee, ev) \<Rightarrow> (True, eee, ev)
        | (False, eee, ev) \<Rightarrow> (True, try_next_supernode eee ev)
      else (True, eee\<lparr>sup_attempts := sup_attempts eee - 1\<rparr>, ev))"

fun reregister_peers :: "int \<Rightarrow> peer_info list \<Rightarrow> n2n_edge \<Rightarrow> edge_env \<Rightarrow> (n2n_edge \<times> edge_env) option" where
  "reregister_peers now [] eee ev = Some (eee, ev)"
| "reregister_peers now (peer # l) eee ev = do {
     (eee, ev) \<leftarrow> (if now - last_seen peer > REGISTER_SUPER_INTERVAL_DFL
       then send_register (peer_sock peer) (Some (mac_addr peer)) (last_cookie peer) eee ev else Some (eee, ev));
     reregister_peers now l eee ev }"

definition next_retry :: "bool \<Rightarrow> n2n_edge \<Rightarrow> n2n_edge" where
  "next_retry was_waiting eee =
     (if was_waiting then if register_fast_retry_count eee < 3 then eee\<lparr>register_fast_retry_count := register_fast_retry_count eee + 1\<rparr> else eee
      else eee\<lparr>register_fast_retry_count := 0\<rparr>)"

definition register_now :: "int \<Rightarrow> u32 \<Rightarrow> int \<Rightarrow> bool \<Rightarrow> n2n_edge \<Rightarrow> edge_env \<Rightarrow> (n2n_edge \<times> edge_env) option" where
  "register_now now current_ms off was_waiting eee ev = do {
     (eee, ev) \<leftarrow> send_register_super eee ev;
     (eee, ev) \<leftarrow> register_with_local_peers eee ev;
     (eee, ev) \<leftarrow> (if sn_wait eee = 1 then reregister_peers now (known_peers eee) eee ev else Some (eee, ev));
     Some (next_retry was_waiting (eee\<lparr>sn_wait := 1, last_register_req := now - off, last_register_req_ms := current_ms\<rparr>), ev) }"

definition update_supernode_reg :: "int \<Rightarrow> n2n_edge \<Rightarrow> edge_env \<Rightarrow> (n2n_edge \<times> edge_env) option" where
  "update_supernode_reg now eee ev = do {
     let was_waiting = (sn_wait eee \<noteq> 0);
     let (current_ms, ev) = n2n_kcp_now_ms ev;
     if \<not> fast_retry_due eee current_ms \<and> now < last_register_req eee + register_interval (conf eee) then Some (eee, ev)
     else do {
       (off, ev) \<leftarrow> register_offset eee ev;
       let (eee, ev) = check_join_multicast_group eee ev;
       (eee, ev) \<leftarrow> probe_udp now eee ev;
       let (go_on, eee, ev) = count_attempt now eee ev;
       if \<not> go_on then Some (eee, ev)
       else if edge_transport_uses_tcp eee \<and> tcp_sock eee < 0 then
         (case supernode_connect_tcp_socket eee ev of
            (False, eee, ev) \<Rightarrow>
              let eee = eee\<lparr>sn_wait := 1, last_register_req := now, last_register_req_ms := current_ms\<rparr>
              in Some (if was_waiting then next_retry True eee else eee, ev)
          | (True, eee, ev) \<Rightarrow> register_now now current_ms off was_waiting (edge_set_active_transport N2N_SN_TRANSPORT_TCP eee) ev)
       else register_now now current_ms off was_waiting eee ev } }"

subsection \<open>Choice of the supernode\<close>

definition default_criteria :: "n2n_edge \<Rightarrow> n2n_edge" where
  "default_criteria eee = eee\<lparr>conf := (conf eee)\<lparr>supernodes :=
     map (\<lambda>(i, p). p\<lparr>selection_criterion := (if i = curr_sn eee then sn_selection_criterion_good else sn_selection_criterion_default)\<rparr>)
       (enumerate 0 (supernodes (conf eee)))\<rparr>\<rparr>"

definition sort_supernodes :: "int \<Rightarrow> n2n_edge \<Rightarrow> edge_env \<Rightarrow> (n2n_edge \<times> edge_env) option" where
  "sort_supernodes now eee ev =
     (if now - last_sweep eee > SWEEP_TIME then do {
        let eee = (if sn_wait eee = 0 then sn_selection_sort eee else eee);
        (eee, ev) \<leftarrow>
          (if curr_sn eee \<noteq> 0 then do {
             (eee, ev) \<leftarrow> send_unregister_super eee ev;
             let eee = reset_sup_attempts (eee\<lparr>curr_sn := 0\<rparr>);
             let (_, eee, ev) = supernode_connect eee ev;
             (eee, ev) \<leftarrow> send_register_super eee ev;
             Some (eee\<lparr>last_register_req := now, sn_wait := 1\<rparr>, ev) }
           else Some (eee, ev));
        let eee = default_criteria eee;
        let (eee, ev) = sn_selection_criterion_common_data_default eee ev;
        (eee, ev) \<leftarrow> (if \<not> connect_tcp (conf eee) then send_query_peer null_mac eee ev else Some (eee, ev));
        Some (eee\<lparr>last_sweep := now, sn_pong := False\<rparr>, ev) }
      else Some (eee, ev))"

subsection \<open>Reception\<close>

type_synonym edge_kcp_answer = "int \<times> bytes list"

text \<open>
  The result, the channel, the messages and the new state. The answer is the result of \<open>ikcp_input\<close> and the messages that can be delivered afterwards;
  a session counts as confirmed after two packets.
\<close>

definition n2n_kcp_edge_input :: "sockaddr \<Rightarrow> bytes \<Rightarrow> int \<Rightarrow> edge_kcp_answer \<Rightarrow> n2n_edge \<Rightarrow> int \<times> n2n_kcp_channel \<times> bytes list \<times> n2n_edge" where
  "n2n_kcp_edge_input sender_sock buf now answer eee =
     (let sender = snd (fill_n2nsock sender_sock) in
      if udp_sock eee < 0 then (0, N2N_KCP_CHANNEL_CTRL, [], eee)
      else if \<not> sock_equal sender (peer_sock (curr_sn_peer eee)) then (0, N2N_KCP_CHANNEL_CTRL, [], eee)
      else case n2n_kcp_packet_get_conv buf of
        None \<Rightarrow> (0, N2N_KCP_CHANNEL_CTRL, [], eee)
      | Some conv \<Rightarrow>
          let channel = n2n_kcp_channel_from_conv conv; ctx = n2n_kcp_edge_ctx eee channel; confirmed = n2n_kcp_edge_confirm_flag eee channel in
          if \<not> kcp_active ctx \<or> \<not> sock_equal (kcp_remote_sock ctx) sender then (-1, channel, [], eee)
          else if conv \<noteq> kcp_conv ctx then (-1, channel, [], eee)
          else if fst answer < 0 then (-1, channel, [], eee)
          else
            let ctx = (if \<not> confirmed \<and> kcp_rx_confirm_count ctx < 0xFF then ctx\<lparr>kcp_rx_confirm_count := kcp_rx_confirm_count ctx + 1\<rparr> else ctx);
                confirmed = (confirmed \<or> kcp_rx_confirm_count ctx \<ge> 2)
            in (1, channel, takeWhile (\<lambda>m. m \<noteq> [] \<and> length m \<le> N2N_PKT_BUF_SIZE) (snd answer),
                set_kcp_edge channel (ctx\<lparr>kcp_last_seen := now\<rparr>) confirmed eee))"

text \<open>
  A datagram of the given size at the start of a buffer. The messages of a session are delivered into a buffer of their own, a datagram into
  the buffer of the main loop, which multicast, UDP and TCP share and where the header is decrypted in place.
\<close>

definition in_buffer :: "nat \<Rightarrow> bytes \<Rightarrow> bytes" where
  "in_buffer cap m = m @ replicate (cap - length m) 0"

definition store_datagram :: "bytes \<Rightarrow> bytes \<Rightarrow> bytes" where
  "store_datagram m buf = m @ drop (length m) buf"

definition buffer_after :: "n2n_edge \<Rightarrow> bytes \<Rightarrow> nat \<Rightarrow> bytes" where
  "buffer_after eee buf sz = (if edge_encrypted eee then case edge_decrypt eee buf sz of Some (_, buf', _) \<Rightarrow> buf' | None \<Rightarrow> buf else buf)"

definition process_via :: "rx_supernode_transport \<Rightarrow> bytes \<Rightarrow> sockaddr \<Rightarrow> int \<Rightarrow> bytes \<Rightarrow> nat \<Rightarrow> int \<Rightarrow> n2n_edge \<Rightarrow> edge_env \<Rightarrow> edge_result" where
  "process_via transport garbage sa in_sock buf sz now eee ev = do {
     (eee, ev) \<leftarrow> edge_process_udp garbage sa in_sock buf sz now (eee\<lparr>current_supernode_rx_transport := transport\<rparr>) ev;
     Some (eee\<lparr>current_supernode_rx_transport := N2N_RX_SUPERNODE_TRANSPORT_NONE\<rparr>, ev) }"

fun edge_kcp_messages :: "bytes \<Rightarrow> sockaddr \<Rightarrow> int \<Rightarrow> n2n_kcp_channel \<Rightarrow> int \<Rightarrow> bytes list \<Rightarrow> n2n_edge \<Rightarrow> edge_env \<Rightarrow> edge_result" where
  "edge_kcp_messages garbage sa in_sock channel now [] eee ev = Some (eee, ev)"
| "edge_kcp_messages garbage sa in_sock channel now (m # ms) eee ev = do {
     (eee, ev) \<leftarrow> process_via N2N_RX_SUPERNODE_TRANSPORT_KCP garbage sa in_sock (in_buffer 4096 m) (length m) now eee ev;
     if kcp_active (n2n_kcp_edge_ctx eee channel) then edge_kcp_messages garbage sa in_sock channel now ms eee ev else Some (eee, ev) }"

definition edge_udp_ready :: "bytes \<Rightarrow> sockaddr \<Rightarrow> int \<Rightarrow> bytes \<Rightarrow> nat \<Rightarrow> int \<Rightarrow> edge_kcp_answer \<Rightarrow> n2n_edge \<Rightarrow> edge_env \<Rightarrow> (bytes \<times> n2n_edge \<times> edge_env) option" where
  "edge_udp_ready garbage sa in_sock pktbuf bread now answer eee ev =
     (if bread = 0 then Some (pktbuf, eee, ev)
      else if udp_sock eee \<ge> 0 \<and> in_sock = udp_sock eee then
        (case n2n_kcp_edge_input sa (take bread pktbuf) now answer eee of
           (kcp_rc, channel, msgs, eee) \<Rightarrow>
             if kcp_rc \<noteq> 0 then do {
               let eee = (if tcp_fallback_active eee \<and> channel = N2N_KCP_CHANNEL_CTRL then edge_mark_udp_recovered eee else eee);
               (eee, ev) \<leftarrow> (if kcp_rc > 0 then edge_kcp_messages garbage sa in_sock channel now msgs eee ev else Some (eee, ev));
               Some (pktbuf, eee, ev) }
             else do {
               (eee', ev) \<leftarrow> process_via N2N_RX_SUPERNODE_TRANSPORT_UDP garbage sa in_sock pktbuf bread now eee ev;
               Some (buffer_after eee pktbuf bread, eee', ev) })
      else do {
        (eee', ev) \<leftarrow> edge_process_udp garbage sa in_sock pktbuf bread now eee ev;
        Some (buffer_after eee pktbuf bread, eee', ev) })"

text \<open>
  The stream of a TCP connection. The variables belong to the main loop and outlive the connection. What \<open>recvfrom\<close> returns is absent when
  it has failed; zero bytes without an error number are taken as no progress.
\<close>

record edge_rx =
  rx_expected :: u16
  rx_position :: u16
  rx_buffer :: bytes

definition edge_recv_size :: "edge_rx \<Rightarrow> nat" where
  "edge_recv_size rx = nat ((uint (rx_expected rx) - uint (rx_position rx)) mod 2 ^ 64)"

definition edge_rx_init :: edge_rx where
  "edge_rx_init = \<lparr>rx_expected = 2, rx_position = 0, rx_buffer = replicate 4098 0\<rparr>"

definition edge_tcp_ready :: "bytes \<Rightarrow> sockaddr \<Rightarrow> int \<Rightarrow> bytes option \<Rightarrow> int \<Rightarrow> edge_rx \<Rightarrow> n2n_edge \<Rightarrow> edge_env \<Rightarrow> (edge_rx \<times> n2n_edge \<times> edge_env) option" where
  "edge_tcp_ready garbage sa in_sock received now rx eee ev =
     (case received of
        None \<Rightarrow>
          let (eee, ev) = supernode_disconnect_tcp eee ev;
              eee = edge_release_tcp_sticky_after_disconnect eee
          in Some (rx, edge_sync_active_socket (eee\<lparr>sn_wait := 1\<rparr>), ev)
      | Some data \<Rightarrow> do {
          buf \<leftarrow> wr (rx_buffer rx) (unat (rx_position rx)) data;
          let rx = rx\<lparr>rx_buffer := buf, rx_position := rx_position rx + of_nat (length data)\<rparr>;
          if rx_position rx \<noteq> rx_expected rx then Some (rx, eee, ev)
          else if rx_position rx = 2 then do {
            l \<leftarrow> rd buf 0 2;
            let rx = rx\<lparr>rx_expected := rx_expected rx + be_word l\<rparr>;
            if rx_expected rx > 4096 then
              let (eee, ev) = supernode_disconnect eee ev;
                  eee = edge_release_tcp_sticky_after_disconnect eee
              in Some (rx, eee\<lparr>sn_wait := 1\<rparr>, ev)
            else Some (rx, eee, ev) }
          else do {
            _ \<leftarrow> (if rx_position rx < 2 then None else rd buf 0 (unat (rx_position rx)));
            (eee, ev) \<leftarrow> process_via N2N_RX_SUPERNODE_TRANSPORT_TCP garbage sa in_sock (drop 2 buf) (unat (rx_position rx) - 2) now eee ev;
            Some (rx\<lparr>rx_expected := 2, rx_position := 0\<rparr>, eee, ev) } })"

subsection \<open>An iteration\<close>

text \<open>
  What one iteration finds: input on the active socket (a datagram, or bytes of the TCP stream), on the multicast socket and on the TAP device;
  the answers of the KCP library.
\<close>

record edge_input =
  ei_now :: int
  ei_active :: "(sockaddr \<times> bytes \<times> edge_kcp_answer \<times> bytes option) option"
  ei_multicast :: "(sockaddr \<times> bytes) option"
  ei_frame :: "(bytes \<times> nat) option"
  ei_dead :: "n2n_kcp_channel \<Rightarrow> bool"
  ei_waitsnd :: nat
  ei_garbage :: bytes
  ei_from_tap :: "bytes \<Rightarrow> bool"

definition fetch_datagram :: "edge_input \<Rightarrow> sockaddr \<Rightarrow> int \<Rightarrow> bytes \<Rightarrow> edge_kcp_answer \<Rightarrow> edge_rx \<Rightarrow> n2n_edge \<Rightarrow> edge_env \<Rightarrow> (edge_rx \<times> n2n_edge \<times> edge_env) option" where
  "fetch_datagram inp sa in_sock received answer rx eee ev = do {
     let m = take N2N_PKT_BUF_SIZE received;
     (buf, eee, ev) \<leftarrow> edge_udp_ready (ei_garbage inp) sa in_sock (store_datagram m (rx_buffer rx)) (length m) (ei_now inp) answer eee ev;
     Some (rx\<lparr>rx_buffer := buf\<rparr>, eee, ev) }"

definition fetch_active :: "edge_input \<Rightarrow> edge_rx \<Rightarrow> n2n_edge \<Rightarrow> edge_env \<Rightarrow> (edge_rx \<times> n2n_edge \<times> edge_env) option" where
  "fetch_active inp rx eee ev =
     (case ei_active inp of
        None \<Rightarrow> Some (rx, eee, ev)
      | Some (sa, buf, answer, received) \<Rightarrow>
          if active_sock eee < 0 then Some (rx, eee, ev)
          else do {
            let in_sock = active_sock eee;
            (rx, eee, ev) \<leftarrow> (if tcp_sock eee < 0 \<or> in_sock \<noteq> tcp_sock eee
              then fetch_datagram inp sa in_sock buf answer rx eee ev
              else edge_tcp_ready (ei_garbage inp) sa in_sock (map_option (take (edge_recv_size rx)) received) (ei_now inp) rx eee ev);
            if connect_tcp (conf eee) \<and> (rx_expected rx \<ge> 4096 \<or> rx_position rx \<ge> 4096) then
              let (eee, ev) = supernode_disconnect eee ev
              in Some (rx\<lparr>rx_expected := 2, rx_position := 0\<rparr>, eee\<lparr>sn_wait := 1\<rparr>, ev)
            else Some (rx, eee, ev) })"

record edge_timers =
  last_purge_known :: int
  last_purge_pending :: int
  last_purge_host :: int

definition n2n_kcp_edge_update :: "(n2n_kcp_channel \<Rightarrow> bool) \<Rightarrow> n2n_edge \<Rightarrow> n2n_edge" where
  "n2n_kcp_edge_update dead eee =
     (let upd = (\<lambda>ch ctx. if kcp_active ctx then ctx\<lparr>kcp_dead := dead ch\<rparr> else ctx)
      in eee\<lparr>sn_kcp_ctrl := upd N2N_KCP_CHANNEL_CTRL (sn_kcp_ctrl eee), sn_kcp_data := upd N2N_KCP_CHANNEL_DATA (sn_kcp_data eee)\<rparr>)"

definition purge_hosts :: "int \<Rightarrow> edge_timers \<Rightarrow> n2n_edge \<Rightarrow> edge_timers \<times> n2n_edge" where
  "purge_hosts now tm eee =
     (if allow_routing (conf eee) \<and> now > last_purge_host tm + SWEEP_TIME
      then (tm\<lparr>last_purge_host := now\<rparr>, eee\<lparr>known_hosts := filter (\<lambda>h. \<not> now > host_last_seen h + HOSTINFO_TIMEOUT) (known_hosts eee)\<rparr>)
      else (tm, eee))"

definition purge_peers :: "edge_timers \<Rightarrow> n2n_edge \<Rightarrow> edge_env \<Rightarrow> edge_timers \<times> n2n_edge \<times> edge_env" where
  "purge_peers tm eee ev =
     (let (tm, eee, ev) = (if sn_wait eee = 0 then
            let (t, ev) = get_time ev;
                (_, l, _, lp, rt) = purge_expired_nodes (known_peers eee) (active_sock eee) None (last_purge_known tm) PURGE_REGISTRATION_FREQUENCY REGISTRATION_TIMEOUT t (ev_rt ev)
            in (tm\<lparr>last_purge_known := lp\<rparr>, eee\<lparr>known_peers := l\<rparr>, ev\<lparr>ev_rt := rt\<rparr>)
          else (tm, eee, ev));
          (t, ev) = get_time ev;
          (_, l, _, lp, rt) = purge_expired_nodes (pending_peers eee) (active_sock eee) None (last_purge_pending tm) PURGE_REGISTRATION_FREQUENCY REGISTRATION_TIMEOUT t (ev_rt ev)
      in (tm\<lparr>last_purge_pending := lp\<rparr>, eee\<lparr>pending_peers := l\<rparr>, ev\<lparr>ev_rt := rt\<rparr>))"

definition edge_iteration :: "edge_input \<Rightarrow> edge_rx \<times> edge_timers \<Rightarrow> n2n_edge \<Rightarrow> edge_env \<Rightarrow> ((edge_rx \<times> edge_timers) \<times> n2n_edge \<times> edge_env) option" where
  "edge_iteration inp = (\<lambda>(rx, tm) eee ev. do {
     let now = ei_now inp;
     (rx, eee, ev) \<leftarrow> fetch_active inp rx eee ev;
     (rx, eee, ev) \<leftarrow> (case ei_multicast inp of None \<Rightarrow> Some (rx, eee, ev)
       | Some (sa, buf) \<Rightarrow> fetch_datagram inp sa (udp_multicast_sock eee) buf (0, []) rx eee ev);
     (eee, ev) \<leftarrow> (case ei_frame inp of None \<Rightarrow> Some (eee, ev)
       | Some (buf, len) \<Rightarrow> edge_read_from_tap (ei_from_tap inp) (ei_garbage inp) buf len eee ev);
     let eee = n2n_kcp_edge_update (ei_dead inp) eee;
     let eee = edge_handle_idle_data_kcp_session now (ei_waitsnd inp) eee;
     let (eee, ev) = edge_handle_dead_kcp_session eee ev;
     (eee, ev) \<leftarrow> update_supernode_reg now eee ev;
     let (tm, eee, ev) = purge_peers tm eee ev;
     let (tm, eee) = purge_hosts now tm eee;
     (eee, ev) \<leftarrow> sort_supernodes now eee ev;
     Some ((rx, tm), eee, ev) })"

fun edge_iterations :: "edge_input list \<Rightarrow> edge_rx \<times> edge_timers \<Rightarrow> n2n_edge \<Rightarrow> edge_env \<Rightarrow> ((edge_rx \<times> edge_timers) \<times> n2n_edge \<times> edge_env) option" where
  "edge_iterations [] st eee ev = Some (st, eee, ev)"
| "edge_iterations (inp # inps) st eee ev = do {
     (st, eee, ev) \<leftarrow> edge_iteration inp st eee ev;
     edge_iterations inps st eee ev }"

definition edge_timers_init :: edge_timers where
  "edge_timers_init = \<lparr>last_purge_known = 0, last_purge_pending = 0, last_purge_host = 0\<rparr>"

text \<open>The whole run, with as many iterations as there are inputs until the edge is stopped.\<close>

definition run_edge_loop :: "edge_input list \<Rightarrow> n2n_edge \<Rightarrow> edge_env \<Rightarrow> edge_result" where
  "run_edge_loop inps eee ev = do {
     let (now, ev) = get_time ev;
     (eee, ev) \<leftarrow> update_supernode_reg now eee ev;
     (_, eee, ev) \<leftarrow> edge_iterations inps (edge_rx_init, edge_timers_init) eee ev;
     (eee, ev) \<leftarrow> send_unregister_super eee ev;
     Some (supernode_disconnect eee ev) }"

end
