(* ===== verification/Edge_Frame.thy ===== *)
theory Edge_Frame
  imports Edge_Loop
begin

text \<open>
  What sending leaves alone: a relation between the states before and after that all sending operations of the edge respect.
\<close>

subsection \<open>Sending\<close>

text \<open>The part of the state that belongs to the registration and to the peers, not to the transport.\<close>

definition edge_core where
  "edge_core e = ((conf e)\<lparr>conf_preferred_sock := zero_sock\<rparr>, curr_sn e, device e, (transop e, transop_lzo e, filter_packet_from_peer e),
     known_peers e, pending_peers e, known_hosts e, last_sup e, udp_multicast_sock e, current_supernode_rx_transport e)"

lemma edge_core_conf:
  assumes "edge_core a = edge_core b"
  shows "supernodes (conf a) = supernodes (conf b)" "community_name (conf a) = community_name (conf b)" "conf_dev_desc (conf a) = conf_dev_desc (conf b)"
    "shared_secret (conf a) = shared_secret (conf b)" "conf_header_encryption (conf a) = conf_header_encryption (conf b)" "conf_he (conf a) = conf_he (conf b)"
    "transop_id (conf a) = transop_id (conf b)" "allow_routing (conf a) = allow_routing (conf b)" "drop_multicast (conf a) = drop_multicast (conf b)"
    "conf_auth (conf a) = conf_auth (conf b)" "connect_tcp (conf a) = connect_tcp (conf b)" "allow_p2p (conf a) = allow_p2p (conf b)"
    "register_interval (conf a) = register_interval (conf b)"
proof -
  have "(conf a)\<lparr>conf_preferred_sock := zero_sock\<rparr> = (conf b)\<lparr>conf_preferred_sock := zero_sock\<rparr>" using assms by (simp add: edge_core_def)
  from arg_cong [OF this, of supernodes] arg_cong [OF this, of community_name] arg_cong [OF this, of conf_dev_desc] arg_cong [OF this, of shared_secret]
    arg_cong [OF this, of conf_header_encryption] arg_cong [OF this, of conf_he] arg_cong [OF this, of transop_id] arg_cong [OF this, of allow_routing]
    arg_cong [OF this, of drop_multicast] arg_cong [OF this, of conf_auth] arg_cong [OF this, of connect_tcp] arg_cong [OF this, of allow_p2p]
    arg_cong [OF this, of register_interval]
  show "supernodes (conf a) = supernodes (conf b)" "community_name (conf a) = community_name (conf b)" "conf_dev_desc (conf a) = conf_dev_desc (conf b)"
    "shared_secret (conf a) = shared_secret (conf b)" "conf_header_encryption (conf a) = conf_header_encryption (conf b)" "conf_he (conf a) = conf_he (conf b)"
    "transop_id (conf a) = transop_id (conf b)" "allow_routing (conf a) = allow_routing (conf b)" "drop_multicast (conf a) = drop_multicast (conf b)"
    "conf_auth (conf a) = conf_auth (conf b)" "connect_tcp (conf a) = connect_tcp (conf b)" "allow_p2p (conf a) = allow_p2p (conf b)"
    "register_interval (conf a) = register_interval (conf b)" by simp_all
qed

lemma edge_core_fields:
  assumes "edge_core a = edge_core b"
  shows "curr_sn a = curr_sn b" "device a = device b" "transop a = transop b" "transop_lzo a = transop_lzo b"
    "filter_packet_from_peer a = filter_packet_from_peer b" "known_peers a = known_peers b" "pending_peers a = pending_peers b"
    "known_hosts a = known_hosts b" "last_sup a = last_sup b" "udp_multicast_sock a = udp_multicast_sock b"
    "current_supernode_rx_transport a = current_supernode_rx_transport b"
  using assms by (simp_all add: edge_core_def)

text \<open>
  The edge is on TCP exactly if it is configured for it or has fallen back, and a fallback is always the kind that lasts until the connection breaks.
\<close>

definition transport_ok :: "n2n_edge \<Rightarrow> bool" where
  "transport_ok e \<longleftrightarrow> tcp_sticky_after_fallback e = tcp_fallback_active e \<and> (tcp_fallback_active e \<longrightarrow> \<not> connect_tcp (conf e))
     \<and> (edge_transport_uses_tcp e \<longleftrightarrow> connect_tcp (conf e) \<or> tcp_fallback_active e)"

definition sends :: "n2n_edge \<Rightarrow> edge_env \<Rightarrow> n2n_edge \<Rightarrow> edge_env \<Rightarrow> bool" where
  "sends e ev e' ev' \<longleftrightarrow> edge_core e' = edge_core e \<and> ev_tap ev' = ev_tap ev
     \<and> (auth_wf (register_super_auth e) \<longrightarrow> auth_wf (register_super_auth e')) \<and> (transport_ok e \<longrightarrow> transport_ok e')"

lemma sends_refl [simp]: "sends e ev e ev"
  by (simp add: sends_def)

lemma sends_trans: "sends a u b v \<Longrightarrow> sends b v c w \<Longrightarrow> sends a u c w"
  by (auto simp: sends_def)

named_theorems sends_rules

lemmas transport_defs = transport_ok_def edge_transport_uses_tcp_def edge_core_def

lemma sends_env [simp]:
  "get_time v = (t, v') \<Longrightarrow> sends e ev e' v' = sends e ev e' v"
  "open_socket v = (fd, v') \<Longrightarrow> sends e ev e' v' = sends e ev e' v"
  "initiate_connect v = (ok, v') \<Longrightarrow> sends e ev e' v' = sends e ev e' v"
  "wait_writable v = (n, v') \<Longrightarrow> sends e ev e' v' = sends e ev e' v"
  "detect_local v = (s, v') \<Longrightarrow> sends e ev e' v' = sends e ev e' v"
  "n2n_kcp_now_ms v = (ms, v') \<Longrightarrow> sends e ev e' v' = sends e ev e' v"
  "ev_rand v = (r, v') \<Longrightarrow> sends e ev e' v' = sends e ev e' v"
  "ev_time_stamp v = (s', v') \<Longrightarrow> sends e ev e' v' = sends e ev e' v"
  "ev_initial_time_stamp v = (s', v') \<Longrightarrow> sends e ev e' v' = sends e ev e' v"
  "sends e ev e' (v\<lparr>ev_rt := rt\<rparr>) = sends e ev e' v"
  "sends e ev e' (closesocket n v) = sends e ev e' v"
  by (auto simp: sends_def get_time_def open_socket_def initiate_connect_def wait_writable_def detect_local_def n2n_kcp_now_ms_def ev_rand_def
      ev_time_stamp_def ev_initial_time_stamp_def closesocket_def ev_next_def split: prod.splits)

text \<open>Updates of fields of the transport.\<close>

lemma sends_upd [simp]:
  "sends e ev (t\<lparr>udp_sock := x1\<rparr>) v = sends e ev t v"
  "sends e ev (t\<lparr>tcp_sock := x1\<rparr>) v = sends e ev t v"
  "sends e ev (t\<lparr>active_sock := x1\<rparr>) v = sends e ev t v"
  "sends e ev (t\<lparr>tcp_sn_sock := x2\<rparr>) v = sends e ev t v"
  "sends e ev (t\<lparr>tcp_sn_sock_valid := b\<rparr>) v = sends e ev t v"
  "sends e ev (t\<lparr>sn_kcp_ctrl := c\<rparr>) v = sends e ev t v"
  "sends e ev (t\<lparr>sn_kcp_data := c\<rparr>) v = sends e ev t v"
  "sends e ev (t\<lparr>sn_kcp_ctrl_confirmed := b\<rparr>) v = sends e ev t v"
  "sends e ev (t\<lparr>sn_kcp_data_confirmed := b\<rparr>) v = sends e ev t v"
  "sends e ev (t\<lparr>sn_wait := n\<rparr>) v = sends e ev t v"
  "sends e ev (t\<lparr>sup_attempts := n\<rparr>) v = sends e ev t v"
  "sends e ev (t\<lparr>last_register_req_ms := ms\<rparr>) v = sends e ev t v"
  "sends e ev (t\<lparr>register_fast_retry_count := n\<rparr>) v = sends e ev t v"
  "sends e ev (t\<lparr>tcp_register_soft_retry_budget := n\<rparr>) v = sends e ev t v"
  "sends e ev (t\<lparr>register_super_soft_retry_armed := b\<rparr>) v = sends e ev t v"
  "sends e ev (t\<lparr>register_super_request_active := b\<rparr>) v = sends e ev t v"
  "sends e ev (t\<lparr>register_super_cookie := ms\<rparr>) v = sends e ev t v"
  "sends e ev (t\<lparr>sending_supernode_control := b\<rparr>) v = sends e ev t v"
  "sends e ev (t\<lparr>sending_register_super := b\<rparr>) v = sends e ev t v"
  "sends e ev (t\<lparr>kcp_probe_pending := b\<rparr>) v = sends e ev t v"
  "sends e ev (t\<lparr>kcp_probe_cookie := ms\<rparr>) v = sends e ev t v"
  "sends e ev (t\<lparr>last_kcp_probe := x1\<rparr>) v = sends e ev t v"
  "sends e ev (t\<lparr>last_register_req := x1\<rparr>) v = sends e ev t v"
  "sends e ev (t\<lparr>close_socket_counter := x1\<rparr>) v = sends e ev t v"
  "sends e ev (t\<lparr>resolution_request := b\<rparr>) v = sends e ev t v"
  "sends e ev (t\<lparr>multicast_joined := b\<rparr>) v = sends e ev t v"
  "sends e ev (t\<lparr>edge_stats := st\<rparr>) v = sends e ev t v"
  "sends e ev (t\<lparr>conf := (conf t)\<lparr>conf_preferred_sock := s\<rparr>\<rparr>) v = sends e ev t v"
  by (simp_all add: sends_def transport_defs)

lemma sends_auth [intro]: "sends e ev t v \<Longrightarrow> auth_wf a \<Longrightarrow> sends e ev (t\<lparr>register_super_auth := a\<rparr>) v"
  by (simp add: sends_def transport_defs)

lemma sends_reset [simp]:
  "sends e ev (reset_sup_attempts t) v = sends e ev t v" "sends e ev (edge_reset_supernode_kcp_state t) v = sends e ev t v"
  "sends e ev (edge_sync_active_socket t) v = sends e ev t v" "sends e ev (set_kcp_edge ch ctx b t) v = sends e ev t v"
  by (simp_all add: reset_sup_attempts_def edge_reset_supernode_kcp_state_def edge_sync_active_socket_def set_kcp_edge_def)

lemma sends_reset_request [intro]: "sends e ev t v \<Longrightarrow> sends e ev (edge_reset_register_super_request t) v"
  by (simp add: edge_reset_register_super_request_def sends_def transport_defs)

lemma sends_disconnect_tcp [sends_rules]: "supernode_disconnect_tcp t v = (t', v') \<Longrightarrow> sends e ev t v \<Longrightarrow> sends e ev t' v'"
  by (auto simp: supernode_disconnect_tcp_def Let_def split: if_splits)

lemma sends_disconnect_udp [sends_rules]: "supernode_disconnect_udp t v = (t', v') \<Longrightarrow> sends e ev t v \<Longrightarrow> sends e ev t' v'"
  by (auto simp: supernode_disconnect_udp_def Let_def split: if_splits)

lemma sends_disconnect [sends_rules]: "supernode_disconnect t v = (t', v') \<Longrightarrow> sends e ev t v \<Longrightarrow> sends e ev t' v'"
  by (auto simp: supernode_disconnect_def Let_def elim!: sends_rules split: prod.splits)

lemma sends_local [sends_rules]: "supernode_update_local_socket t v = (t', v') \<Longrightarrow> sends e ev t v \<Longrightarrow> sends e ev t' v'"
  by (auto simp: supernode_update_local_socket_def Let_def split: prod.splits option.splits if_splits)

lemma sends_connect_udp [sends_rules]: "supernode_connect_udp_socket t v = (ok, t', v') \<Longrightarrow> sends e ev t v \<Longrightarrow> sends e ev t' v'"
  by (auto simp: supernode_connect_udp_socket_def Let_def elim!: sends_rules split: prod.splits if_splits)

lemma sends_connect_tcp [sends_rules]: "supernode_connect_tcp_socket t v = (ok, t', v') \<Longrightarrow> sends e ev t v \<Longrightarrow> sends e ev t' v'"
  by (auto simp: supernode_connect_tcp_socket_def Let_def elim!: sends_rules split: prod.splits if_splits)

text \<open>Connecting and disconnecting leave the choice of the transport alone.\<close>

definition transport_choice where
  "transport_choice e = (active_sn_transport e, tcp_fallback_active e, tcp_sticky_after_fallback e, connect_tcp (conf e))"

lemma choice_local: "supernode_update_local_socket t v = (t', v') \<Longrightarrow> transport_choice t' = transport_choice t"
  by (auto simp: supernode_update_local_socket_def transport_choice_def Let_def split: prod.splits option.splits if_splits)

lemma choice_disconnect_tcp: "supernode_disconnect_tcp t v = (t', v') \<Longrightarrow> transport_choice t' = transport_choice t"
  by (auto simp: supernode_disconnect_tcp_def transport_choice_def Let_def split: if_splits)

lemma choice_connect_tcp: "supernode_connect_tcp_socket t v = (ok, t', v') \<Longrightarrow> transport_choice t' = transport_choice t"
  by (auto simp: supernode_connect_tcp_socket_def Let_def split: prod.splits if_splits
      dest!: choice_local choice_disconnect_tcp) (simp_all add: transport_choice_def)

lemma transport_ok_choice: "transport_ok e \<longleftrightarrow> (case transport_choice e of (a, fb, st, c) \<Rightarrow> st = fb \<and> (fb \<longrightarrow> \<not> c) \<and> (a = N2N_SN_TRANSPORT_TCP \<longleftrightarrow> c \<or> fb))"
  by (auto simp: transport_ok_def transport_choice_def edge_transport_uses_tcp_def)

lemma sends_choice:
  assumes "sends e ev t v" "edge_core t' = edge_core t" "ev_tap v' = ev_tap v" "register_super_auth t' = register_super_auth t \<or> auth_wf (register_super_auth t')"
    and "transport_ok t \<Longrightarrow> transport_ok t'"
  shows "sends e ev t' v'"
  using assms by (auto simp: sends_def)

lemma sends_release [sends_rules]: "sends e ev t v \<Longrightarrow> sends e ev (edge_release_tcp_sticky_after_disconnect t) v"
  by (erule sends_choice) (auto simp: edge_release_tcp_sticky_after_disconnect_def Let_def transport_defs edge_transport_is_forced_tcp_def
      edge_reset_register_super_request_def edge_reset_supernode_kcp_state_def edge_set_active_transport_def edge_sync_active_socket_def reset_sup_attempts_def)

lemma sends_set_transport: "sends e ev t v \<Longrightarrow> (transport_ok t \<Longrightarrow> transport_ok (t\<lparr>active_sn_transport := tr\<rparr>)) \<Longrightarrow> sends e ev (edge_set_active_transport tr t) v"
  by (erule sends_choice) (auto simp: edge_set_active_transport_def edge_sync_active_socket_def transport_defs)

lemma sends_connect [sends_rules]:
  assumes "supernode_connect t v = (ok, t', v')" "sends e ev t v"
  shows "sends e ev t' v'"
proof -
  have *: "sends e ev (s\<lparr>active_sn_transport := tr\<rparr>) w"
    if "sends e ev s w" "transport_ok s \<Longrightarrow> (tr = N2N_SN_TRANSPORT_TCP \<longleftrightarrow> connect_tcp (conf s) \<or> tcp_fallback_active s)" for s w tr
    using that by (auto simp: sends_def transport_defs)
  define t1 where "t1 = (if kcp_active (sn_kcp_ctrl t) \<and> \<not> edge_dest_is_current_supernode t (kcp_remote_sock (sn_kcp_ctrl t))
      \<or> kcp_active (sn_kcp_data t) \<and> \<not> edge_dest_is_current_supernode t (kcp_remote_sock (sn_kcp_data t)) then edge_reset_supernode_kcp_state t else t)"
  obtain t2 v2 where t2: "(if tcp_sn_sock_valid t1 \<and> \<not> edge_dest_is_current_supernode t1 (tcp_sn_sock t1) then supernode_disconnect_tcp t1 v else (t1, v)) = (t2, v2)"
    by fastforce
  obtain c t3 v3 where t3: "(if \<not> edge_transport_is_forced_tcp t2 then supernode_connect_udp_socket t2 v2 else (True, t2, v2)) = (c, t3, v3)"
    by (metis prod_cases3)
  obtain c' t4 v4 where t4: "supernode_connect_tcp_socket t3 v3 = (c', t4, v4)" by (metis prod_cases3)
  have "sends e ev t1 v" using assms(2) by (simp add: t1_def)
  then have "sends e ev t2 v2" using t2 sends_disconnect_tcp by (auto split: if_splits)
  then have s3: "sends e ev t3 v3" using t3 sends_connect_udp by (auto split: if_splits)
  have s4: "sends e ev t4 v4" by (rule sends_connect_tcp [OF t4 s3])
  have c4: "edge_transport_is_forced_tcp t4 = edge_transport_is_forced_tcp t3" "tcp_fallback_active t4 = tcp_fallback_active t3"
    using choice_connect_tcp [OF t4] by (simp_all add: transport_choice_def edge_transport_is_forced_tcp_def)
  have "(ok, t', v') = (if \<not> c then (False, t3, v3)
      else if edge_transport_is_forced_tcp t3 \<or> tcp_fallback_active t3 then
        (if \<not> c' then (False, t4, v4) else (True, edge_sync_active_socket (t4\<lparr>active_sn_transport := N2N_SN_TRANSPORT_TCP\<rparr>), v4))
      else (True, edge_sync_active_socket (t3\<lparr>active_sn_transport := N2N_SN_TRANSPORT_UDP\<rparr>), v3))"
    unfolding assms(1) [symmetric] supernode_connect_def Let_def t1_def [symmetric] t2 prod.case t3 t4 ..
  then show ?thesis
    using s3 s4 * [OF s3, of N2N_SN_TRANSPORT_UDP] * [OF s4, of N2N_SN_TRANSPORT_TCP] c4
    by (auto simp: edge_transport_is_forced_tcp_def split: if_splits)
qed

lemma sends_fallback:
  assumes "sends e ev t v" "\<not> edge_transport_is_forced_tcp t" "\<not> edge_transport_uses_tcp t"
    and t1: "edge_core t1 = edge_core t" "register_super_auth t1 = register_super_auth t" "transport_choice t1 = (N2N_SN_TRANSPORT_UDP, True, True, False)"
    and "supernode_connect_tcp_socket t1 v = (ok, t2, v2)"
  shows "sends e ev (t2\<lparr>tcp_fallback_active := False, tcp_sticky_after_fallback := False\<rparr>) v2"
    and "sends e ev (edge_set_active_transport N2N_SN_TRANSPORT_TCP t2) v2"
proof -
  have s: "sends t v t1 v" if "\<not> transport_ok t" using that t1 by (simp add: sends_def)
  have c: "transport_choice t2 = (N2N_SN_TRANSPORT_UDP, True, True, False)" using choice_connect_tcp assms by simp
  obtain x: "edge_core t2 = edge_core t1" "ev_tap v2 = ev_tap v" "auth_wf (register_super_auth t1) \<longrightarrow> auth_wf (register_super_auth t2)"
    using sends_connect_tcp [OF assms(7), of t1 v] by (auto simp: sends_def)
  show "sends e ev (t2\<lparr>tcp_fallback_active := False, tcp_sticky_after_fallback := False\<rparr>) v2"
    using x c t1 assms(1) by (auto simp: sends_def transport_defs transport_choice_def)
  show "sends e ev (edge_set_active_transport N2N_SN_TRANSPORT_TCP t2) v2"
    using x c t1 assms(1) by (auto simp: sends_def transport_defs transport_choice_def edge_set_active_transport_def edge_sync_active_socket_def)
qed

lemma not_tcp: "x \<noteq> N2N_SN_TRANSPORT_TCP \<longleftrightarrow> x = N2N_SN_TRANSPORT_UDP"
  by (cases x) auto

lemma sends_switch [sends_rules]:
  assumes "edge_switch_to_tcp_supernode t v = (ok, t', v')" "sends e ev t v"
  shows "sends e ev t' v'"
proof (cases "edge_transport_is_forced_tcp t \<or> edge_transport_uses_tcp t \<or> \<not> edge_transport_allows_tcp_fallback t")
  case True
  then show ?thesis using assms by (auto simp: edge_switch_to_tcp_supernode_def split: if_splits)
next
  case False
  define t1 where "t1 = t\<lparr>tcp_fallback_active := True, tcp_sticky_after_fallback := True, kcp_probe_pending := False, kcp_probe_cookie := 0,
    last_kcp_probe := 0, register_fast_retry_count := 0, tcp_register_soft_retry_budget := N2N_TCP_REGISTER_SOFT_RETRIES, register_super_soft_retry_armed := False\<rparr>"
  obtain c t2 v2 where c: "supernode_connect_tcp_socket t1 v = (c, t2, v2)" by (metis prod_cases3)
  have t1: "edge_core t1 = edge_core t" "register_super_auth t1 = register_super_auth t" "transport_choice t1 = (N2N_SN_TRANSPORT_UDP, True, True, False)"
    using False by (auto simp: t1_def edge_core_def transport_choice_def edge_transport_is_forced_tcp_def edge_transport_uses_tcp_def not_tcp)
  note s = sends_fallback [OF assms(2) _ _ t1 c]
  show ?thesis using assms(1) False s c unfolding edge_switch_to_tcp_supernode_def t1_def [symmetric]
    by (auto simp: Let_def split: if_splits)
qed

lemma sends_recycle [sends_rules]: "edge_recycle_udp_supernode_socket t v = (t', v') \<Longrightarrow> sends e ev t v \<Longrightarrow> sends e ev t' v'"
  by (auto simp: edge_recycle_udp_supernode_socket_def Let_def split: prod.splits if_splits elim!: sends_rules intro!: sends_set_transport)
    (auto simp: transport_defs not_tcp)

lemma sends_dead_kcp [sends_rules]: "edge_handle_dead_kcp_session t v = (t', v') \<Longrightarrow> sends e ev t v \<Longrightarrow> sends e ev t' v'"
  by (auto simp: edge_handle_dead_kcp_session_def Let_def split: prod.splits if_splits elim!: sends_rules)

lemma sends_idle_kcp [simp]: "sends e ev (edge_handle_idle_data_kcp_session now w t) v = sends e ev t v" "sends e ev (n2n_kcp_edge_update d t) v = sends e ev t v"
  by (simp_all add: edge_handle_idle_data_kcp_session_def n2n_kcp_edge_update_def Let_def)

lemma sends_kcp_send [sends_rules]: "n2n_kcp_edge_send pkt dest ch t v = (r, t', v') \<Longrightarrow> sends e ev t v \<Longrightarrow> sends e ev t' v'"
  by (auto simp: n2n_kcp_edge_send_def n2n_kcp_edge_setup_def n2n_kcp_generate_conv_def n2n_kcp_edge_setup_with_conv_def Let_def split: prod.splits if_splits)

lemma sends_failed [sends_rules]: "sendto_failed t v = (t', v') \<Longrightarrow> sends e ev t v \<Longrightarrow> sends e ev t' v'"
  by (auto simp: sendto_failed_def Let_def split: prod.splits if_splits elim!: sends_rules intro!: sends_set_transport sends_release)
    (auto simp: transport_ok_choice edge_transport_uses_tcp_def dest!: choice_connect_tcp choice_disconnect_tcp simp: transport_choice_def)


lemma sends_seal: "edge_seal d e0 pkt h n v = Some (pkt', v') \<Longrightarrow> sends e ev t v \<Longrightarrow> sends e ev t v'"
  by (auto simp: edge_seal_def Let_def elim!: bind_SomeE split: if_splits prod.splits)

lemma sends_sendto_fd [sends_rules]: "edge_sendto_fd pkt sa dest t v = (r, t', v') \<Longrightarrow> sends e ev t v \<Longrightarrow> sends e ev t' v'"
  by (auto simp: edge_sendto_fd_def check_sock_ready_def Let_def split: prod.splits if_splits elim!: sends_rules)

lemma sends_sendto_sock [sends_rules]: "edge_sendto_sock pkt dest t v = (t', v') \<Longrightarrow> sends e ev t v \<Longrightarrow> sends e ev t' v'"
  by (auto simp: edge_sendto_sock_def Let_def split: prod.splits if_splits elim!: sends_rules)

lemma sends_control [sends_rules]: "send_control pkt dest t v = (t', v') \<Longrightarrow> sends e ev t v \<Longrightarrow> sends e ev t' v'"
  by (auto simp: send_control_def Let_def split: prod.splits elim!: sends_rules)

lemma sends_ping_loop [sends_rules]: "ping_loop l a b c pkt t v = (t', v') \<Longrightarrow> sends e ev t v \<Longrightarrow> sends e ev t' v'"
  by (induction l arbitrary: a b c t v) (auto simp: Let_def split: prod.splits if_splits dest: sends_sendto_sock)

lemma sends_register [sends_rules]: "send_register sock mac c t v = Some (t', v') \<Longrightarrow> sends e ev t v \<Longrightarrow> sends e ev t' v'"
  by (auto simp: send_register_def Let_def split: prod.splits if_splits elim!: bind_SomeE sends_rules dest!: sends_seal)

lemma sends_register_ack [sends_rules]: "send_register_ack sock reg t v = Some (t', v') \<Longrightarrow> sends e ev t v \<Longrightarrow> sends e ev t' v'"
  by (auto simp: send_register_ack_def Let_def split: prod.splits if_splits elim!: bind_SomeE sends_rules dest!: sends_seal)

lemma sends_local_peers [sends_rules]: "register_with_local_peers t v = Some (t', v') \<Longrightarrow> sends e ev t v \<Longrightarrow> sends e ev t' v'"
  by (auto simp: register_with_local_peers_def split: if_splits elim!: sends_rules)

lemma sends_port_loop [sends_rules]: "port_loop n sock mac t v = Some (t', v') \<Longrightarrow> sends e ev t v \<Longrightarrow> sends e ev t' v'"
  by (induction n arbitrary: sock t v) (auto elim!: bind_SomeE dest: sends_register)

lemma sends_announce [sends_rules]: "announce_to_peer from_sn mac sock t v = Some (t', v') \<Longrightarrow> sends e ev t v \<Longrightarrow> sends e ev t' v'"
  by (auto simp: announce_to_peer_def split: if_splits elim!: bind_SomeE sends_rules)

lemma sends_to_all [sends_rules]: "send_to_all pkt l t v = (t', v') \<Longrightarrow> sends e ev t v \<Longrightarrow> sends e ev t' v'"
  by (induction l arbitrary: t v) (auto simp: Let_def split: prod.splits dest: sends_sendto_sock)

lemma sends_reregister [sends_rules]: "reregister_peers now l t v = Some (t', v') \<Longrightarrow> sends e ev t v \<Longrightarrow> sends e ev t' v'"
  by (induction l arbitrary: t v) (auto split: if_splits elim!: bind_SomeE dest: sends_register)

lemma sends_join [sends_rules]: "check_join_multicast_group t v = (t', v') \<Longrightarrow> sends e ev t v \<Longrightarrow> sends e ev t' v'"
  by (auto simp: check_join_multicast_group_def Let_def split: prod.splits if_splits)

end
