(* ===== verification/Edge_Invariant.thy ===== *)
theory Edge_Invariant
  imports Edge_Frame
begin

text \<open>
  The invariants of the edge that every operation and every iteration of its main loop keeps.
\<close>

subsection \<open>Configuration and invariant\<close>

text \<open>What never changes: the configuration but for the supernodes, the own socket, the stored token, the dynamic key and the number of pings.\<close>

definition edge_static where
  "edge_static e = ((conf e)\<lparr>conf_preferred_sock := zero_sock, supernodes := [], conf_auth := zero_auth, conf_he := None, number_max_sn_pings := 0\<rparr>,
     device e, (transop e, transop_lzo e, filter_packet_from_peer e), udp_multicast_sock e)"

text \<open>A table with hardware addresses as keys: they are of the right size and differ.\<close>

definition keys_ok :: "bytes list \<Rightarrow> bool" where
  "keys_ok ks \<longleftrightarrow> list_all mac_wf ks \<and> distinct ks"

definition edge_inv :: "n2n_edge \<Rightarrow> bool" where
  "edge_inv e \<longleftrightarrow> transport_ok e \<and> curr_sn e < length (supernodes (conf e)) \<and> auth_wf (conf_auth (conf e)) \<and> auth_wf (register_super_auth e)
     \<and> keys_ok (map mac_addr (pending_peers e)) \<and> list_all (mac_wf \<circ> mac_addr) (known_peers e) \<and> keys_ok (map host_mac_addr (known_hosts e))
     \<and> list_all (mac_wf \<circ> host_edge_addr) (known_hosts e)"

definition quiet :: "n2n_edge \<Rightarrow> edge_env \<Rightarrow> n2n_edge \<Rightarrow> edge_env \<Rightarrow> bool" where
  "quiet e ev e' ev' \<longleftrightarrow> (edge_inv e \<longrightarrow> edge_inv e' \<and> edge_static e' = edge_static e \<and> ev_tap ev' = ev_tap ev)"

lemma quiet_refl [simp]: "quiet e ev e ev"
  by (simp add: quiet_def)

lemma quiet_trans: "quiet a u b v \<Longrightarrow> quiet b v c w \<Longrightarrow> quiet a u c w"
  by (auto simp: quiet_def)

lemma core_static:
  assumes "edge_core a = edge_core b"
  shows "edge_static a = edge_static b"
proof -
  have c: "(conf a)\<lparr>conf_preferred_sock := zero_sock\<rparr> = (conf b)\<lparr>conf_preferred_sock := zero_sock\<rparr>" using assms by (simp add: edge_core_def)
  show ?thesis using arg_cong [OF c, of "\<lambda>c. c\<lparr>supernodes := [], conf_auth := zero_auth, conf_he := None, number_max_sn_pings := 0\<rparr>"]
    by (simp add: edge_static_def edge_core_fields [OF assms])
qed

lemma sends_quiet:
  assumes "sends a u b v"
  shows "quiet a u b v"
proof -
  have c: "edge_core b = edge_core a" using assms by (simp add: sends_def)
  show ?thesis using assms unfolding sends_def quiet_def edge_inv_def core_static [OF c] edge_core_conf [OF c] edge_core_fields [OF c] by blast
qed

named_theorems quiet_rules

lemma quiet_sends: "sends t v t' v' \<Longrightarrow> quiet e ev t v \<Longrightarrow> quiet e ev t' v'"
  by (blast intro: quiet_trans sends_quiet)

lemma quiet_then [quiet_rules]:
  "edge_sendto_sock pkt dest t v = (t', v') \<Longrightarrow> quiet e ev t v \<Longrightarrow> quiet e ev t' v'"
  "send_control pkt dest t v = (t', v') \<Longrightarrow> quiet e ev t v \<Longrightarrow> quiet e ev t' v'"
  "ping_loop l a b c pkt t v = (t', v') \<Longrightarrow> quiet e ev t v \<Longrightarrow> quiet e ev t' v'"
  "send_register sock mac k t v = Some (t', v') \<Longrightarrow> quiet e ev t v \<Longrightarrow> quiet e ev t' v'"
  "send_register_ack sock reg t v = Some (t', v') \<Longrightarrow> quiet e ev t v \<Longrightarrow> quiet e ev t' v'"
  "register_with_local_peers t v = Some (t', v') \<Longrightarrow> quiet e ev t v \<Longrightarrow> quiet e ev t' v'"
  "announce_to_peer from_sn m sock t v = Some (t', v') \<Longrightarrow> quiet e ev t v \<Longrightarrow> quiet e ev t' v'"
  "send_to_all pkt l t v = (t', v') \<Longrightarrow> quiet e ev t v \<Longrightarrow> quiet e ev t' v'"
  "reregister_peers now l t v = Some (t', v') \<Longrightarrow> quiet e ev t v \<Longrightarrow> quiet e ev t' v'"
  "check_join_multicast_group t v = (t', v') \<Longrightarrow> quiet e ev t v \<Longrightarrow> quiet e ev t' v'"
  "supernode_connect t v = (ok, t', v') \<Longrightarrow> quiet e ev t v \<Longrightarrow> quiet e ev t' v'"
  "supernode_connect_tcp_socket t v = (ok, t', v') \<Longrightarrow> quiet e ev t v \<Longrightarrow> quiet e ev t' v'"
  "supernode_disconnect_tcp t v = (t', v') \<Longrightarrow> quiet e ev t v \<Longrightarrow> quiet e ev t' v'"
  "supernode_disconnect t v = (t', v') \<Longrightarrow> quiet e ev t v \<Longrightarrow> quiet e ev t' v'"
  "edge_switch_to_tcp_supernode t v = (ok, t', v') \<Longrightarrow> quiet e ev t v \<Longrightarrow> quiet e ev t' v'"
  "edge_handle_dead_kcp_session t v = (t', v') \<Longrightarrow> quiet e ev t v \<Longrightarrow> quiet e ev t' v'"
  by (rule quiet_sends [rotated], assumption, erule sends_rules, rule sends_refl)+


lemma quiet_env [simp]:
  "get_time v = (tm, v') \<Longrightarrow> quiet e ev e' v' = quiet e ev e' v"
  "n2n_kcp_now_ms v = (ms, v') \<Longrightarrow> quiet e ev e' v' = quiet e ev e' v"
  "ev_rand v = (r, v') \<Longrightarrow> quiet e ev e' v' = quiet e ev e' v"
  "ev_time_stamp v = (s', v') \<Longrightarrow> quiet e ev e' v' = quiet e ev e' v"
  "ev_initial_time_stamp v = (s', v') \<Longrightarrow> quiet e ev e' v' = quiet e ev e' v"
  "quiet e ev e' (v\<lparr>ev_rt := rt\<rparr>) = quiet e ev e' v"
  by (auto simp: quiet_def get_time_def n2n_kcp_now_ms_def ev_rand_def ev_time_stamp_def ev_initial_time_stamp_def ev_next_def split: prod.splits)

lemmas inv_defs = quiet_def edge_inv_def edge_static_def transport_ok_def edge_transport_uses_tcp_def

lemma quiet_upd [simp]:
  "quiet e ev (t\<lparr>udp_sock := x1\<rparr>) v = quiet e ev t v"
  "quiet e ev (t\<lparr>tcp_sock := x1\<rparr>) v = quiet e ev t v"
  "quiet e ev (t\<lparr>active_sock := x1\<rparr>) v = quiet e ev t v"
  "quiet e ev (t\<lparr>tcp_sn_sock := x2\<rparr>) v = quiet e ev t v"
  "quiet e ev (t\<lparr>tcp_sn_sock_valid := b\<rparr>) v = quiet e ev t v"
  "quiet e ev (t\<lparr>sn_kcp_ctrl := c\<rparr>) v = quiet e ev t v"
  "quiet e ev (t\<lparr>sn_kcp_data := c\<rparr>) v = quiet e ev t v"
  "quiet e ev (t\<lparr>sn_kcp_ctrl_confirmed := b\<rparr>) v = quiet e ev t v"
  "quiet e ev (t\<lparr>sn_kcp_data_confirmed := b\<rparr>) v = quiet e ev t v"
  "quiet e ev (t\<lparr>sn_wait := n\<rparr>) v = quiet e ev t v"
  "quiet e ev (t\<lparr>sup_attempts := n\<rparr>) v = quiet e ev t v"
  "quiet e ev (t\<lparr>last_register_req_ms := ms\<rparr>) v = quiet e ev t v"
  "quiet e ev (t\<lparr>register_fast_retry_count := n\<rparr>) v = quiet e ev t v"
  "quiet e ev (t\<lparr>tcp_register_soft_retry_budget := n\<rparr>) v = quiet e ev t v"
  "quiet e ev (t\<lparr>register_super_soft_retry_armed := b\<rparr>) v = quiet e ev t v"
  "quiet e ev (t\<lparr>register_super_request_active := b\<rparr>) v = quiet e ev t v"
  "quiet e ev (t\<lparr>register_super_cookie := ms\<rparr>) v = quiet e ev t v"
  "quiet e ev (t\<lparr>sending_supernode_control := b\<rparr>) v = quiet e ev t v"
  "quiet e ev (t\<lparr>sending_register_super := b\<rparr>) v = quiet e ev t v"
  "quiet e ev (t\<lparr>kcp_probe_pending := b\<rparr>) v = quiet e ev t v"
  "quiet e ev (t\<lparr>kcp_probe_cookie := ms\<rparr>) v = quiet e ev t v"
  "quiet e ev (t\<lparr>last_kcp_probe := x1\<rparr>) v = quiet e ev t v"
  "quiet e ev (t\<lparr>last_register_req := x1\<rparr>) v = quiet e ev t v"
  "quiet e ev (t\<lparr>close_socket_counter := x1\<rparr>) v = quiet e ev t v"
  "quiet e ev (t\<lparr>resolution_request := b\<rparr>) v = quiet e ev t v"
  "quiet e ev (t\<lparr>edge_stats := st\<rparr>) v = quiet e ev t v"
  "quiet e ev (t\<lparr>last_sup := x1\<rparr>) v = quiet e ev t v"
  "quiet e ev (t\<lparr>last_udp_sup := x1\<rparr>) v = quiet e ev t v"
  "quiet e ev (t\<lparr>edge_last_p2p := x1\<rparr>) v = quiet e ev t v"
  "quiet e ev (t\<lparr>last_sweep := x1\<rparr>) v = quiet e ev t v"
  "quiet e ev (t\<lparr>sn_pong := b\<rparr>) v = quiet e ev t v"
  "quiet e ev (t\<lparr>criterion_common_data := w\<rparr>) v = quiet e ev t v"
  "quiet e ev (t\<lparr>assigned_addr := ad\<rparr>) v = quiet e ev t v"
  "quiet e ev (t\<lparr>current_supernode_rx_transport := tr\<rparr>) v = quiet e ev t v"
  "quiet e ev (t\<lparr>conf := (conf t)\<lparr>number_max_sn_pings := k\<rparr>\<rparr>) v = quiet e ev t v"
  "quiet e ev (t\<lparr>conf := (conf t)\<lparr>conf_he := h\<rparr>\<rparr>) v = quiet e ev t v"
  by (simp_all add: inv_defs)

lemma quiet_reset [simp]:
  "quiet e ev (reset_sup_attempts t) v = quiet e ev t v" "quiet e ev (edge_sync_active_socket t) v = quiet e ev t v"
  "quiet e ev (upd_stats f t) v = quiet e ev t v" "quiet e ev (seen_supernode now t) v = quiet e ev t v"
  "quiet e ev (n2n_kcp_edge_update d t) v = quiet e ev t v" "quiet e ev (edge_handle_idle_data_kcp_session now w t) v = quiet e ev t v"
  "quiet e ev (set_kcp_edge ch ctx b t) v = quiet e ev t v" "quiet e ev (count_packet from_sn m now t) v = quiet e ev t v"
  "quiet e ev (next_retry b t) v = quiet e ev t v" "quiet e ev (defer_fallback t) v = quiet e ev t v"
  by (simp_all add: reset_sup_attempts_def edge_sync_active_socket_def upd_stats_def seen_supernode_def n2n_kcp_edge_update_def
      edge_handle_idle_data_kcp_session_def set_kcp_edge_def count_packet_def next_retry_def defer_fallback_def Let_def)

lemma quiet_pending: "quiet e ev t v \<Longrightarrow> (edge_inv t \<Longrightarrow> keys_ok (map mac_addr l)) \<Longrightarrow> quiet e ev (t\<lparr>pending_peers := l\<rparr>) v"
  by (simp add: inv_defs)

lemma quiet_known: "quiet e ev t v \<Longrightarrow> (edge_inv t \<Longrightarrow> list_all (mac_wf \<circ> mac_addr) l) \<Longrightarrow> quiet e ev (t\<lparr>known_peers := l\<rparr>) v"
  by (simp add: inv_defs)

lemma quiet_hosts:
  "quiet e ev t v \<Longrightarrow> (edge_inv t \<Longrightarrow> keys_ok (map host_mac_addr l)) \<Longrightarrow> (edge_inv t \<Longrightarrow> list_all (mac_wf \<circ> host_edge_addr) l) \<Longrightarrow> quiet e ev (t\<lparr>known_hosts := l\<rparr>) v"
  by (simp add: inv_defs)

lemma quiet_supernodes:
  "quiet e ev t v \<Longrightarrow> (edge_inv t \<Longrightarrow> i < length l) \<Longrightarrow> quiet e ev (t\<lparr>conf := (conf t)\<lparr>supernodes := l\<rparr>, curr_sn := i\<rparr>) v"
  by (simp add: inv_defs)

lemma quiet_same_supernodes:
  "quiet e ev t v \<Longrightarrow> length (supernodes (conf t)) \<le> length l \<Longrightarrow> quiet e ev (t\<lparr>conf := (conf t)\<lparr>supernodes := l\<rparr>\<rparr>) v"
  by (auto simp: inv_defs)

lemma quiet_auth: "quiet e ev t v \<Longrightarrow> (edge_inv t \<Longrightarrow> auth_wf a) \<Longrightarrow> quiet e ev (t\<lparr>register_super_auth := a\<rparr>) v"
  by (simp add: inv_defs)

lemma quiet_conf_auth: "quiet e ev t v \<Longrightarrow> (edge_inv t \<Longrightarrow> auth_wf a) \<Longrightarrow> quiet e ev (t\<lparr>conf := (conf t)\<lparr>conf_auth := a\<rparr>\<rparr>) v"
  by (simp add: inv_defs)


subsection \<open>Tables\<close>

lemma keys_ok_del: "keys_ok (map f l) \<Longrightarrow> keys_ok (map f (HASH_DEL i l))"
  using set_HASH_DEL_subset [of i "map f l"] by (auto simp: keys_ok_def map_HASH_DEL list_all_iff distinct_HASH_DEL)

lemma keys_ok_add: "keys_ok (map f l) \<Longrightarrow> mac_wf (f x) \<Longrightarrow> HASH_FIND f (f x) l = None \<Longrightarrow> keys_ok (map f (HASH_ADD x l))"
  by (auto simp: keys_ok_def HASH_ADD_def HASH_FIND_def find_index_None)

lemma keys_same: "f x = f (l ! i) \<Longrightarrow> map f (l[i := x]) = map f l"
  by (cases "i < length l") (auto simp: map_update list_update_same_conv list_update_beyond)

lemma known_same: "P (f (l ! i)) = P (f x) \<or> P (f x) \<Longrightarrow> list_all (P \<circ> f) l \<Longrightarrow> i < length l \<Longrightarrow> list_all (P \<circ> f) (l[i := x])"
  by (auto simp: list_all_length nth_list_update)

lemma known_del: "list_all P l \<Longrightarrow> list_all P (HASH_DEL i l)"
  using set_HASH_DEL_subset [of i l] by (auto simp: list_all_iff)

lemma stamp_same [simp]: "mac_addr (set_stamp s p) = mac_addr p"
  by (simp add: set_stamp_def split: option.split)

lemma describe_same [simp]: "mac_addr (describe_peer now da desc p) = mac_addr p"
  by (simp add: describe_peer_def Let_def split: option.split)

lemma redirect_same [simp]: "mac_addr (redirect cmn pinfo p) = mac_addr p"
  by (simp add: redirect_def Let_def)

lemma find_peer_index: "HASH_FIND_PEER l m = Some i \<Longrightarrow> i < length l \<and> mac_addr (l ! i) = m"
  by (auto simp: HASH_FIND_def dest: find_index_Some)

lemma inv_tables:
  assumes "edge_inv t"
  shows "keys_ok (map mac_addr (pending_peers t))" "list_all (mac_wf \<circ> mac_addr) (known_peers t)" "keys_ok (map host_mac_addr (known_hosts t))"
    "list_all (mac_wf \<circ> host_edge_addr) (known_hosts t)" "curr_sn t < length (supernodes (conf t))"
  using assms by (simp_all add: edge_inv_def)

lemma keys_wf: "keys_ok (map mac_addr l) \<Longrightarrow> i < length l \<Longrightarrow> mac_wf (mac_addr (l ! i))"
  by (auto simp: keys_ok_def list_all_length)

lemma known_wf: "list_all (mac_wf \<circ> mac_addr) l \<Longrightarrow> i < length l \<Longrightarrow> mac_wf (mac_addr (l ! i))"
  by (auto simp: list_all_length)

lemmas table_rules = inv_tables keys_ok_del keys_ok_add keys_same known_same known_del

subsection \<open>Peers\<close>

lemma quiet_stamp [quiet_rules]:
  "find_peer_time_stamp_and_verify sn m s j t v = (ok, t', v') \<Longrightarrow> quiet e ev t v \<Longrightarrow> quiet e ev t' v'"
  by (auto simp: find_peer_time_stamp_and_verify_def Let_def inv_tables keys_same known_same known_wf split: prod.splits option.splits
      intro!: quiet_pending quiet_known quiet_same_supernodes dest!: find_peer_index)

lemma quiet_stamp_ok [quiet_rules]: "edge_stamp_ok el m j t v = (ok, t', v') \<Longrightarrow> quiet e ev t v \<Longrightarrow> quiet e ev t' v'"
  by (auto simp: edge_stamp_ok_def elim: quiet_rules split: if_splits)

lemma quiet_forget [quiet_rules]: "quiet e ev t v \<Longrightarrow> quiet e ev (forget_pending m t) v"
  by (auto simp: forget_pending_def find_and_remove_peer_def split: option.split intro!: quiet_pending keys_ok_del inv_tables)


lemma quiet_new_peer [quiet_rules]:
  assumes "register_with_new_peer from_sn via m da desc peer t v = Some (t', v')" "quiet e ev t v" "mac_wf m"
  shows "quiet e ev t' v'"
proof (cases "HASH_FIND_PEER (pending_peers t) m")
  case None
  have a: "quiet e ev (u\<lparr>pending_peers := HASH_ADD x (pending_peers u)\<rparr>) w"
    if "quiet e ev u w" "HASH_FIND_PEER (pending_peers u) m = None" "mac_addr x = m" for u w x
    using that assms(3) by (auto intro!: quiet_pending keys_ok_add inv_tables)
  have u: "quiet e ev (u\<lparr>pending_peers := (pending_peers u)[i := describe_peer now da desc (pending_peers u ! i)]\<rparr>) w" if "quiet e ev u w" for u w i now
    using that by (auto intro!: quiet_pending simp: keys_same inv_tables)
  show ?thesis using assms(1,2) None
    by (auto simp: register_with_new_peer_def new_pending_peer_def Let_def elim!: bind_SomeE split: prod.splits intro!: u)
      (erule quiet_rules, rule a, simp_all)
next
  case (Some i)
  then show ?thesis using assms(1,2)
    by (auto simp: register_with_new_peer_def Let_def keys_same inv_tables split: prod.splits intro!: quiet_pending)
qed

lemma quiet_sock_change [quiet_rules]:
  "check_known_peer_sock_change from_sn via m da desc peer w t v = Some (t', v') \<Longrightarrow> quiet e ev t v \<Longrightarrow> mac_wf m \<Longrightarrow> quiet e ev t' v'"
  by (auto simp: check_known_peer_sock_change_def known_same inv_tables known_del known_wf split: if_splits option.splits
      dest!: find_peer_index intro!: quiet_known elim!: quiet_new_peer)

lemma known_peer_wf:
  assumes "find_known_peer m peer l = (r, l')" "mac_wf m" "list_all (mac_wf \<circ> mac_addr) l"
  shows "list_all (mac_wf \<circ> mac_addr) l' \<and> (\<forall>i. r = Some i \<longrightarrow> i < length l')"
  using assms known_del [OF assms(3)]
  by (auto simp: find_known_peer_def find_peer_by_sock_def Let_def HASH_ADD_def split: option.splits dest: find_peer_index)

lemma quiet_registration_needed [quiet_rules]:
  assumes "check_peer_registration_needed from_sn via m k da desc peer t v = Some (t', v')" "quiet e ev t v" "mac_wf m"
  shows "quiet e ev t' v'"
proof -
  obtain r l where f: "find_known_peer m peer (known_peers t) = (r, l)" by fastforce
  have wf: "list_all (mac_wf \<circ> mac_addr) (l[i := (l ! i)\<lparr>last_p2p := a, local_peer := b\<rparr>])" "list_all (mac_wf \<circ> mac_addr) (l[i := (l ! i)\<lparr>last_p2p := a\<rparr>])"
    "list_all (mac_wf \<circ> mac_addr) (l[i := (l ! i)\<lparr>local_peer := b\<rparr>])" "list_all (mac_wf \<circ> mac_addr) l" if "edge_inv t" "r = Some i" for i a b
    using known_peer_wf [OF f assms(3)] inv_tables(2) [OF that(1)] that(2) known_wf [of l i] by (auto simp: known_same)
  show ?thesis using assms f
    by (auto simp: check_peer_registration_needed_def Let_def wf split: option.splits prod.splits if_splits intro!: quiet_known elim!: quiet_rules)
qed

lemma quiet_peers:
  "quiet e ev t v \<Longrightarrow> (edge_inv t \<Longrightarrow> keys_ok (map mac_addr l)) \<Longrightarrow> (edge_inv t \<Longrightarrow> list_all (mac_wf \<circ> mac_addr) k)
    \<Longrightarrow> quiet e ev (t\<lparr>pending_peers := l, known_peers := k\<rparr>) v"
  by (simp add: inv_defs)

lemma quiet_confirmed [quiet_rules]:
  assumes "quiet e ev t v" "mac_wf m"
  shows "quiet e ev (peer_set_p2p_confirmed m k peer now t) v"
proof -
  have w: "mac_wf (mac_addr (pending_peers t ! i))" if "edge_inv t" "HASH_FIND_PEER (pending_peers t) m = Some i \<or> find_peer_by_sock peer (pending_peers t) = Some i" for i
    using that keys_wf [OF inv_tables(1), of t i] by (auto simp: find_peer_by_sock_def dest: find_peer_index find_index_Some)
  show ?thesis using assms w
    by (auto simp: peer_set_p2p_confirmed_def Let_def HASH_ADD_def split: option.splits intro!: quiet_peers keys_ok_del known_del inv_tables)
qed

text \<open>The query writes back to the entry it found or added.\<close>

lemma quiet_query_peer [quiet_rules]: "send_query_peer m t v = Some (t', v') \<Longrightarrow> quiet e ev t v \<Longrightarrow> quiet e ev t' v'"
  by (auto simp: send_query_peer_def Let_def split: if_splits prod.splits elim!: bind_SomeE quiet_rules)
    (auto simp: edge_seal_def elim!: bind_SomeE split: if_splits prod.splits)

lemma quiet_query_info [quiet_rules]:
  assumes "check_query_peer_info now m t v = Some (t', v')" "quiet e ev t v" "mac_wf m"
  shows "quiet e ev t' v'"
proof -
  have a: "quiet e ev (u\<lparr>pending_peers := HASH_ADD x (pending_peers u)\<rparr>) w"
    if "quiet e ev u w" "HASH_FIND_PEER (pending_peers u) m = None" "mac_addr x = m" for u w x
    using that assms(3) by (auto intro!: quiet_pending keys_ok_add inv_tables)
  have u: "quiet e ev (u\<lparr>pending_peers := (pending_peers u)[i := (pending_peers u ! i)\<lparr>last_sent_query := now\<rparr>]\<rparr>) w" if "quiet e ev u w" for u w i
    using that by (auto intro!: quiet_pending simp: keys_same inv_tables)
  show ?thesis using assms(1,2)
    by (auto simp: check_query_peer_info_def new_pending_peer_def Let_def split: if_splits prod.splits option.splits
        elim!: bind_SomeE intro!: u a elim: quiet_rules)
      (erule quiet_rules, erule quiet_rules, rule a, simp_all)
qed


subsection \<open>Packets\<close>

lemma quiet_destination:
  assumes "find_peer_destination g m t v = Some (p2p, dest, t', v')" "quiet e ev t v" "mac_wf m"
  shows "quiet e ev t' v'"
  using assms by (auto simp: find_peer_destination_def Let_def split: if_splits prod.splits option.splits elim!: bind_SomeE
      intro!: quiet_known known_del inv_tables elim!: quiet_query_info)

lemma quiet_send_packet [quiet_rules]: "send_packet g m pkt t v = Some (t', v') \<Longrightarrow> quiet e ev t v \<Longrightarrow> mac_wf m \<Longrightarrow> quiet e ev t' v'"
  by (auto simp: send_packet_def Let_def split: if_splits elim!: bind_SomeE quiet_rules dest!: quiet_destination)

lemma quiet_packet_for_net: "packet_for_net m pkt n t v = Some (out, v') \<Longrightarrow> quiet e ev t' v \<Longrightarrow> quiet e ev t' v'"
  by (auto simp: packet_for_net_def compress_payload_def edge_seal_def Let_def split: if_splits prod.splits elim!: bind_SomeE)

lemma host_edge_wf: "edge_inv t \<Longrightarrow> mac_wf m \<Longrightarrow> mac_wf (host_edge t m)"
  by (auto simp: host_edge_def HASH_FIND_def split: option.split dest!: find_index_Some inv_tables(4) simp: list_all_length)

lemma rd_mac: "rd b i 14 = Some eh \<Longrightarrow> mac_wf (take N2N_MAC_SIZE eh)" "rd b i 14 = Some eh \<Longrightarrow> mac_wf (take N2N_MAC_SIZE (drop 6 eh))"
  by (auto simp: rd_def mac_wf_def split: if_splits)

text \<open>A frame is sent in a state that meets the invariant, as the host it is for is looked up.\<close>

lemma quiet_inv: "quiet e ev t v \<Longrightarrow> (edge_inv t \<Longrightarrow> quiet t v t' v') \<Longrightarrow> quiet e ev t' v'"
  by (auto simp: quiet_def)

lemma quiet_packet2net [quiet_rules]:
  assumes "edge_send_packet2net g pkt n t v = Some (t', v')" "quiet e ev t v"
  shows "quiet e ev t' v'"
  using assms(2)
proof (rule quiet_inv)
  assume i: "edge_inv t"
  have p: "quiet t v t v1" if "packet_for_net m pkt n t v = Some (out, v1)" for m out v1
    using quiet_packet_for_net [OF that] by simp
  show "quiet t v t' v'" using assms(1) i
    by (auto simp: edge_send_packet2net_def Let_def split: if_splits elim!: bind_SomeE quiet_send_packet)
      (erule p host_edge_wf, (rule rd_mac)?, assumption?)+
qed

lemma quiet_read_from_tap [quiet_rules]: "edge_read_from_tap f g pkt n t v = Some (t', v') \<Longrightarrow> quiet e ev t v \<Longrightarrow> quiet e ev t' v'"
  by (auto simp: edge_read_from_tap_def split: if_splits elim!: quiet_rules)

lemma quiet_grat_arps [quiet_rules]: "send_grat_arps g t v = Some (t', v') \<Longrightarrow> quiet e ev t v \<Longrightarrow> quiet e ev t' v'"
  by (auto simp: send_grat_arps_def Let_def elim!: bind_SomeE quiet_rules)

subsection \<open>Supernodes\<close>

lemma quiet_upd_sn [simp]: "quiet e ev (upd_sn i f t) v = quiet e ev t v" "quiet e ev (upd_curr_sn f t) v = quiet e ev t v"
  by (simp_all add: upd_sn_def upd_curr_sn_def inv_defs)

lemma length_add_sn:
  assumes "add_sn_to_list_by_mac_or_sock l sock m skip rt = (i, l', skip', rt')"
  shows "length l \<le> length l'"
  using assms by (auto simp: add_sn_to_list_by_mac_or_sock_def HASH_ADD_def Let_def split: if_splits option.splits prod.splits dest!: find_index_Some)


lemma moved_less: "k < n \<Longrightarrow> j < n \<Longrightarrow> moved_to_end n k j < n"
  by (auto simp: moved_to_end_def)

lemma renamed_less: "renamed_entry l sock m = Some k \<Longrightarrow> k < length l"
  by (auto simp: renamed_entry_def split: if_splits dest: find_index_Some)

lemma quiet_add_sn [quiet_rules]:
  assumes "edge_add_sn sock m skip t v = (i, skip', t', v')" "quiet e ev t v"
  shows "quiet e ev t' v'"
proof -
  obtain j l' s rt where a: "add_sn_to_list_by_mac_or_sock (supernodes (conf t)) sock m skip (ev_rt v) = (j, l', s, rt)" by (metis prod_cases4)
  show ?thesis using assms length_add_sn [OF a] inv_tables(5) [of t]
    by (auto simp: edge_add_sn_def a Let_def split: option.splits dest!: renamed_less intro!: quiet_supernodes quiet_same_supernodes order.strict_trans2 [OF moved_less])
qed

lemma sort_index:
  assumes "i < length l"
  shows "\<exists>j < length l. find_index (\<lambda>a. fst a = i) (HASH_SORT cmp (enumerate 0 l)) = Some j"
proof -
  let ?s = "HASH_SORT cmp (enumerate 0 l)"
  have m: "mset ?s = mset (enumerate 0 l)" by (rule mset_HASH_SORT)
  have "(i, l ! i) \<in> set ?s" using mset_eq_setD [OF m] assms by (auto simp: in_set_enumerate_eq)
  then have "find_index (\<lambda>a. fst a = i) ?s \<noteq> None" unfolding find_index_None by (metis fst_conv)
  then show ?thesis using mset_eq_length [OF m] find_index_Some [of "\<lambda>a. fst a = i" ?s] by auto
qed

lemma quiet_sort [quiet_rules]:
  assumes "quiet e ev t v"
  shows "quiet e ev (sn_selection_sort t) v"
proof -
  let ?cmp = "\<lambda>a b. sn_selection_criterion_sort (snd a) (snd b)"
  have "length (HASH_SORT ?cmp (enumerate 0 l)) = length l" for l using mset_eq_length [OF mset_HASH_SORT, of ?cmp "enumerate 0 l"] by simp
  then show ?thesis using assms sort_index [OF inv_tables(5), of t ?cmp]
    unfolding sn_selection_sort_def Let_def by (intro quiet_supernodes) auto
qed

lemma quiet_curr_0: "quiet e ev t v \<Longrightarrow> quiet e ev (t\<lparr>curr_sn := 0\<rparr>) v"
  by (auto simp: inv_defs)

lemma quiet_learn_mac [quiet_rules]: "quiet e ev t v \<Longrightarrow> quiet e ev (learn_sn_mac m t) v"
  by (auto simp: learn_sn_mac_def Let_def HASH_ADD_def intro!: quiet_supernodes)

lemma quiet_payload [quiet_rules]: "edge_payload_loop n k buf t v = Some (t', v') \<Longrightarrow> quiet e ev t v \<Longrightarrow> quiet e ev t' v'"
  by (induction n arbitrary: k t v)
    (auto simp: Let_def split: prod.splits option.splits if_splits elim!: bind_SomeE dest!: quiet_add_sn [where e = e and ev = ev])

lemma quiet_reset_request [quiet_rules]: "quiet e ev t v \<Longrightarrow> quiet e ev (edge_reset_register_super_request t) v"
  by (simp add: edge_reset_register_super_request_def quiet_auth)

lemma quiet_done [quiet_rules]: "quiet e ev t v \<Longrightarrow> quiet e ev (registration_done t) v"
  by (simp add: registration_done_def quiet_reset_request)

text \<open>A fallback lasts until the connection breaks, so that the way back to UDP is never taken.\<close>

lemma quiet_mark_recovered: "edge_inv t \<Longrightarrow> edge_mark_udp_recovered t = t"
  by (auto simp: edge_mark_udp_recovered_def edge_inv_def transport_ok_def)

lemma quiet_recovered [quiet_rules]: "quiet e ev t v \<Longrightarrow> quiet e ev (edge_mark_udp_recovered t) v"
  using quiet_mark_recovered [of t] by (auto simp: quiet_def)

lemma quiet_assign [quiet_rules]: "assign_address da t = Some t' \<Longrightarrow> quiet e ev t v \<Longrightarrow> quiet e ev t' v"
  by (auto simp: assign_address_def split: if_splits elim!: bind_SomeE)

lemma quiet_remote_auth [quiet_rules]: "edge_remote_auth a t = Some (ok, t') \<Longrightarrow> quiet e ev t v \<Longrightarrow> quiet e ev t' v"
  by (auto simp: edge_remote_auth_def split: if_splits elim!: bind_SomeE)


subsection \<open>Registration\<close>

lemma length_wr: "wr b i x = Some b' \<Longrightarrow> length b' = length b"
  by (auto simp: wr_def overlay_def split: if_splits)

lemma local_auth_wf:
  assumes "edge_get_local_auth c ctx a rn = Some (sent, stored, rn')" "auth_wf c" "auth_wf a"
  shows "auth_wf sent \<and> auth_wf stored"
  using assms by (auto simp: edge_get_local_auth_def auth_wf_def Let_def length_wr split: if_splits prod.splits elim!: bind_SomeE)

lemma quiet_local_auth:
  assumes "edge_local_auth a t v = Some (a', t', v')" "quiet e ev t v" "auth_wf a"
  shows "quiet e ev t' v'" "quiet e ev (t'\<lparr>register_super_auth := a'\<rparr>) v'"
proof -
  obtain stored rn where g: "edge_get_local_auth (conf_auth (conf t)) (edge_ctx t) a (rt_rn (ev_rt v)) = Some (a', stored, rn)"
    "t' = t\<lparr>conf := (conf t)\<lparr>conf_auth := stored\<rparr>\<rparr>" "v' = v\<lparr>ev_rt := (ev_rt v)\<lparr>rt_rn := rn\<rparr>\<rparr>"
    using assms(1) by (auto simp: edge_local_auth_def split: if_splits elim!: bind_SomeE)
  have wf: "auth_wf a' \<and> auth_wf stored" if "edge_inv t" using local_auth_wf [OF g(1)] that assms(3) by (simp add: edge_inv_def)
  show q: "quiet e ev t' v'" using assms(2) wf unfolding g(2,3) by (simp add: quiet_conf_auth)
  show "quiet e ev (t'\<lparr>register_super_auth := a'\<rparr>) v'" using assms(2) wf unfolding g(2,3) by (simp add: inv_defs)
qed


lemma quiet_begin [quiet_rules]:
  assumes "begin_register_super t v = Some (t', v')" "quiet e ev t v"
  shows "quiet e ev t' v'"
  using assms(2)
proof (rule quiet_inv)
  assume "edge_inv t"
  then have wf: "auth_wf (register_super_auth t)" by (simp add: edge_inv_def)
  show "quiet t v t' v'" using assms(1) wf
    by (auto simp: begin_register_super_def Let_def split: if_splits prod.splits elim!: bind_SomeE intro!: quiet_local_auth(2))
qed

lemma quiet_seal: "edge_seal d t' pkt h n v = Some (out, v') \<Longrightarrow> quiet e ev t v \<Longrightarrow> quiet e ev t v'"
  by (auto simp: edge_seal_def Let_def elim!: bind_SomeE split: if_splits prod.splits)

lemma quiet_super_packet: "register_super_packet t' v = Some (pkt, v') \<Longrightarrow> quiet e ev t v \<Longrightarrow> quiet e ev t v'"
  by (auto simp: register_super_packet_def Let_def elim!: bind_SomeE split: if_splits dest!: quiet_seal [where e = e and ev = ev and t = t])

lemma quiet_register_super [quiet_rules]: "send_register_super t v = Some (t', v') \<Longrightarrow> quiet e ev t v \<Longrightarrow> quiet e ev t' v'"
  by (auto simp: send_register_super_def Let_def elim!: bind_SomeE quiet_rules quiet_super_packet split: prod.splits)

lemma quiet_unregister [quiet_rules]: "send_unregister_super t v = Some (t', v') \<Longrightarrow> quiet e ev t v \<Longrightarrow> quiet e ev t' v'"
  by (auto simp: send_unregister_super_def elim!: bind_SomeE quiet_rules quiet_seal quiet_local_auth(1))

subsection \<open>Messages\<close>

lemma length_decode_buf: "decode_buf n b out st = Some (r, out', st') \<Longrightarrow> length out' = length out"
  by (cases st) (auto simp: decode_buf_def dest: length_wr split: if_splits elim!: bind_SomeE)

lemma decode_mac_wf: "decode_mac b zero_mac st = Some (r, m, st') \<Longrightarrow> mac_wf m"
  by (auto simp: decode_mac_def mac_wf_def dest: length_decode_buf)

lemma decoded_macs:
  "decode_PACKET c b st = Some (r, pkt, st') \<Longrightarrow> mac_wf (pkt_srcMac pkt)"
  "decode_REGISTER c b st = Some (r, reg, st') \<Longrightarrow> mac_wf (reg_srcMac reg)"
  "decode_REGISTER_ACK c b st = Some (r, ack, st') \<Longrightarrow> mac_wf (ack_srcMac ack)"
  unfolding decode_PACKET_def decode_REGISTER_def decode_REGISTER_ACK_def
  by (auto elim!: bind_SomeE dest: decode_mac_wf)

text \<open>A packet may add one frame to what was written to the TAP device.\<close>

definition keeps :: "n2n_edge \<Rightarrow> edge_env \<Rightarrow> n2n_edge \<Rightarrow> edge_env \<Rightarrow> bool" where
  "keeps e ev e' ev' \<longleftrightarrow> (edge_inv e \<longrightarrow> edge_inv e' \<and> edge_static e' = edge_static e \<and> (\<exists>fs. ev_tap ev' = ev_tap ev @ fs))"

lemma keeps_refl [simp]: "keeps e ev e ev"
  by (simp add: keeps_def)

lemma quiet_keeps: "quiet a u b v \<Longrightarrow> keeps a u b v"
  by (auto simp: quiet_def keeps_def)

lemma keeps_trans: "keeps a u b v \<Longrightarrow> keeps b v c w \<Longrightarrow> keeps a u c w"
  by (fastforce simp: keeps_def)

lemma quiet_learn_host:
  assumes "quiet e ev t v" "mac_wf m" "mac_wf src"
  shows "quiet e ev (learn_host m src now t) v"
proof -
  have "list_all (mac_wf \<circ> host_edge_addr) ((known_hosts t)[i := (known_hosts t ! i)\<lparr>host_edge_addr := src, host_last_seen := now\<rparr>])"
    if "edge_inv t" "HASH_FIND host_mac_addr m (known_hosts t) = Some i" for i
    using inv_tables(4) [OF that(1)] assms(3) by (auto simp: list_all_iff dest!: set_update_subset_insert [THEN subsetD])
  then show ?thesis using assms
    by (auto simp: learn_host_def split: option.split intro!: quiet_hosts inv_tables keys_ok_add)
      (auto simp: keys_same inv_tables HASH_ADD_def)
qed

lemma keeps_handle_PACKET:
  assumes "edge_handle_PACKET from_sn pkt sock payload n t v = Some (t', v')" "mac_wf (pkt_srcMac pkt)"
  shows "keeps t v t' v'"
proof -
  have w: "keeps t v t1 (v1\<lparr>ev_tap := ev_tap v1 @ [x]\<rparr>)" if "quiet t v t1 v1" for t1 v1 x
    using that by (auto simp: quiet_def keeps_def inv_defs)
  show ?thesis using assms
    by (auto simp: edge_handle_PACKET_def Let_def split: if_splits prod.splits option.splits
        elim!: bind_SomeE intro!: w quiet_learn_host rd_mac)
      (auto intro!: quiet_keeps quiet_learn_host rd_mac)
qed


lemma keeps_PACKET:
  assumes "edge_PACKET el t v = Some (t', v')"
  shows "keeps t v t' v'"
proof -
  have s: "keeps t v t1 v1" if "edge_stamp_ok el m j t v = (ok, t1, v1)" for m j ok t1 v1 using quiet_keeps [OF quiet_stamp_ok [OF that quiet_refl]] .
  have k: "keeps t v t' v'" if "edge_stamp_ok el m j t v = (ok, t1, v1)" "check_peer_registration_needed fs vm m ck None None sock t1' v1 = Some (t2, v2)"
    "edge_handle_PACKET f pkt sender payload n t2 v2 = Some (t', v')" "mac_wf m" "pkt_srcMac pkt = m" "t1' = t1 \<or> t1' = forget_pending m t1"
    for m j ok t1 v1 t1' t2 v2 fs vm ck sock f pkt sender payload n
  proof -
    have "quiet t v t1' v1" using that(6) quiet_stamp_ok [OF that(1) quiet_refl] by (auto intro: quiet_forget)
    then have "quiet t v t2 v2" by (rule quiet_registration_needed [OF that(2) _ that(4)])
    then show ?thesis using keeps_handle_PACKET [OF that(3)] that(4,5) by (blast intro: keeps_trans quiet_keeps)
  qed
  show ?thesis using assms
    by (auto simp: edge_PACKET_def Let_def split: if_splits prod.splits elim!: bind_SomeE dest!: decoded_macs)
      (erule s | erule k, assumption, assumption, assumption, simp, simp)+
qed

lemma quiet_REGISTER [quiet_rules]: "edge_REGISTER el t v = Some (t', v') \<Longrightarrow> quiet e ev t v \<Longrightarrow> quiet e ev t' v'"
  by (auto simp: edge_REGISTER_def Let_def split: if_splits prod.splits elim!: bind_SomeE quiet_rules intro!: quiet_forget dest!: decoded_macs)

lemma quiet_REGISTER_ACK [quiet_rules]: "edge_REGISTER_ACK el t v = Some (t', v') \<Longrightarrow> quiet e ev t v \<Longrightarrow> quiet e ev t' v'"
  by (auto simp: edge_REGISTER_ACK_def Let_def split: if_splits prod.splits elim!: bind_SomeE quiet_rules intro!: quiet_confirmed dest!: decoded_macs)

lemma quiet_accept [quiet_rules]: "edge_accept_registration g el ra payload t v = Some (t', v') \<Longrightarrow> quiet e ev t v \<Longrightarrow> quiet e ev t' v'"
  by (auto simp: edge_accept_registration_def Let_def split: if_splits elim!: bind_SomeE quiet_rules intro!: quiet_done quiet_learn_mac quiet_recovered)

lemma quiet_SUPER_ACK [quiet_rules]: "edge_REGISTER_SUPER_ACK g el t v = Some (t', v') \<Longrightarrow> quiet e ev t v \<Longrightarrow> quiet e ev t' v'"
  by (auto simp: edge_REGISTER_SUPER_ACK_def Let_def split: if_splits prod.splits elim!: bind_SomeE quiet_rules)

lemma quiet_SUPER_NAK [quiet_rules]: "edge_REGISTER_SUPER_NAK el t v = Some (t', v') \<Longrightarrow> quiet e ev t v \<Longrightarrow> quiet e ev t' v'"
  by (auto simp: edge_REGISTER_SUPER_NAK_def Let_def split: if_splits prod.splits elim!: bind_SomeE quiet_rules intro!: quiet_reset_request)

lemma quiet_PONG [quiet_rules]: "edge_PONG el pinfo t v = (t', v') \<Longrightarrow> quiet e ev t v \<Longrightarrow> quiet e ev t' v'"
  by (auto simp: edge_PONG_def sn_selection_criterion_calculate_def Let_def split: if_splits prod.splits option.splits elim!: quiet_rules)

lemma quiet_found_peer [quiet_rules]: "edge_found_peer el pinfo t v = Some (t', v') \<Longrightarrow> quiet e ev t v \<Longrightarrow> quiet e ev t' v'"
  by (auto simp: edge_found_peer_def Let_def keys_same known_same known_wf inv_tables split: if_splits option.splits
      dest!: find_peer_index elim!: bind_SomeE quiet_rules intro!: quiet_pending quiet_known)

lemma quiet_PEER_INFO [quiet_rules]: "edge_PEER_INFO el t v = Some (t', v') \<Longrightarrow> quiet e ev t v \<Longrightarrow> quiet e ev t' v'"
  by (auto simp: edge_PEER_INFO_def Let_def split: if_splits prod.splits elim!: bind_SomeE quiet_rules)

lemma quiet_RE_REGISTER [quiet_rules]: "edge_RE_REGISTER_SUPER el t v = Some (t', v') \<Longrightarrow> quiet e ev t v \<Longrightarrow> quiet e ev t' v'"
  by (auto simp: edge_RE_REGISTER_SUPER_def Let_def split: if_splits prod.splits elim!: quiet_rules)

lemma keeps_dispatch:
  assumes "edge_dispatch g el t v = Some (t', v')"
  shows "keeps t v t' v'"
  using assms by (auto simp: edge_dispatch_def Let_def split: if_splits intro: keeps_PACKET)
    (rule quiet_keeps, erule quiet_rules, rule quiet_refl)+

lemma keeps_process_udp:
  assumes "edge_process_udp g sa in_sock buf n now t v = Some (t', v')"
  shows "keeps t v t' v'"
proof -
  have a: "keeps t v t1 v1" if "edge_add_sn sock m skip t v = (i, skip', t1, v1)" for sock m skip i skip' t1 v1
    using quiet_keeps [OF quiet_add_sn [OF that quiet_refl]] .
  have d: "keeps t v t' v'" if "edge_add_sn sock m skip t v = (i, skip', t1, v1)" "edge_dispatch g el t1 v1 = Some (t', v')" for sock m skip i skip' t1 v1 el
    using keeps_trans [OF a [OF that(1)] keeps_dispatch [OF that(2)]] .
  show ?thesis using assms
    by (auto simp: edge_process_udp_def Let_def split: if_splits elim!: bind_SomeE split: prod.splits intro: keeps_dispatch a)
      (erule d, assumption | erule a keeps_dispatch)+
qed


subsection \<open>The main loop\<close>

lemma keeps_quiet: "keeps e ev t v \<Longrightarrow> quiet t v t' v' \<Longrightarrow> keeps e ev t' v'"
  by (blast intro: keeps_trans quiet_keeps)

lemma keeps_quiet_upd: "(\<And>e ev. quiet e ev (f t) v = quiet e ev t v) \<Longrightarrow> keeps e ev t v \<Longrightarrow> keeps e ev (f t) v"
  using keeps_quiet [of e ev t v "f t" v] quiet_refl [of t v] by blast

lemma keeps_via: "process_via tr g sa in_sock buf n now t v = Some (t', v') \<Longrightarrow> keeps t v t' v'"
proof -
  assume "process_via tr g sa in_sock buf n now t v = Some (t', v')"
  then obtain t1 where t1: "edge_process_udp g sa in_sock buf n now (t\<lparr>current_supernode_rx_transport := tr\<rparr>) v = Some (t1, v')"
    "t' = t1\<lparr>current_supernode_rx_transport := N2N_RX_SUPERNODE_TRANSPORT_NONE\<rparr>"
    by (auto simp: process_via_def elim!: bind_SomeE)
  then show "keeps t v t' v'" using keeps_process_udp [OF t1(1)] by (auto simp: keeps_def inv_defs)
qed

lemma keeps_kcp_messages: "edge_kcp_messages g sa s ch now ms t v = Some (t', v') \<Longrightarrow> keeps t v t' v'"
  by (induction ms arbitrary: t v) (auto split: if_splits elim!: bind_SomeE dest!: keeps_via intro: keeps_trans)

lemma quiet_kcp_input: "n2n_kcp_edge_input sa pkt now ans t = (rc, ch, ms, t') \<Longrightarrow> quiet t v t' v"
  by (auto simp: n2n_kcp_edge_input_def Let_def split: if_splits option.splits)

lemma keeps_udp_ready:
  assumes "edge_udp_ready g sa s buf n now ans t v = Some (buf', t', v')"
  shows "keeps t v t' v'"
proof -
  have k: "keeps t w t2 w2" if "n2n_kcp_edge_input sa pkt now ans t = (rc, ch, ms, t1)" "keeps t1 w t2 w2" for pkt rc ch ms t1 t2 w w2
    using keeps_trans [OF quiet_keeps [OF quiet_kcp_input [OF that(1)]] that(2)] .
  have r: "keeps t1 w (edge_mark_udp_recovered t1) w" for t1 w using quiet_keeps [OF quiet_recovered [OF quiet_refl]] .
  have m: "keeps t1 w t2 w2" if "edge_kcp_messages g sa sk ch now ms (edge_mark_udp_recovered t1) w = Some (t2, w2)" for t1 t2 w w2 ch ms sk
    using keeps_trans [OF r keeps_kcp_messages [OF that]] .
  show ?thesis using assms
    by (auto simp: edge_udp_ready_def Let_def split: if_splits elim!: bind_SomeE split: prod.splits)
      (erule keeps_process_udp | erule k, (rule r | rule keeps_refl | erule keeps_via keeps_kcp_messages m))+
qed

lemma quiet_release [quiet_rules]: "quiet e ev t v \<Longrightarrow> quiet e ev (edge_release_tcp_sticky_after_disconnect t) v"
  using quiet_sends [OF sends_release [OF sends_refl]] .

lemma keeps_tcp_ready:
  assumes "edge_tcp_ready g sa s rcv now rx t v = Some (rx', t', v')"
  shows "keeps t v t' v'"
  using assms by (auto simp: edge_tcp_ready_def Let_def split: option.splits if_splits prod.splits elim!: bind_SomeE keeps_via)
    (rule quiet_keeps, auto intro!: quiet_release elim!: quiet_rules)+


lemma keeps_fetch_datagram:
  assumes "fetch_datagram inp sa s rcv ans rx t v = Some (rx', t', v')"
  shows "keeps t v t' v'"
  using assms by (auto simp: fetch_datagram_def Let_def elim!: bind_SomeE keeps_udp_ready)

lemma keeps_fetch_active:
  assumes "fetch_active inp rx t v = Some (rx', t', v')"
  shows "keeps t v t' v'"
proof -
  have d: "keeps t v (t2\<lparr>sn_wait := n\<rparr>) v2" if "keeps t v t1 v1" "supernode_disconnect t1 v1 = (t2, v2)" for t1 v1 t2 v2 n
    using keeps_quiet [OF that(1)] quiet_rules(14) [OF that(2) quiet_refl] by simp
  show ?thesis using assms
    by (auto simp: fetch_active_def Let_def split: option.splits if_splits prod.splits elim!: bind_SomeE keeps_fetch_datagram keeps_tcp_ready)
      (rule d, erule keeps_fetch_datagram keeps_tcp_ready, assumption)+
qed

text \<open>While the edge is on TCP because it has fallen back it never probes UDP.\<close>

lemma quiet_probe [quiet_rules]:
  assumes "probe_udp now t v = Some (t', v')" "quiet e ev t v"
  shows "quiet e ev t' v'"
  using assms(2)
proof (rule quiet_inv)
  assume "edge_inv t"
  then show "quiet t v t' v'" using assms(1) by (auto simp: probe_udp_def edge_inv_def transport_ok_def split: if_splits elim!: bind_SomeE)
qed

lemma quiet_try_next [quiet_rules]: "try_next_supernode t v = (t', v') \<Longrightarrow> quiet e ev t v \<Longrightarrow> quiet e ev t' v'"
  by (auto simp: try_next_supernode_def Let_def split: if_splits prod.splits elim!: quiet_rules intro!: quiet_curr_0 quiet_sort)

lemma quiet_count_attempt [quiet_rules]: "count_attempt now t v = (b, t', v') \<Longrightarrow> quiet e ev t v \<Longrightarrow> quiet e ev t' v'"
  by (auto simp: count_attempt_def split: if_splits prod.splits bool.splits elim!: quiet_rules)

lemma quiet_register_now [quiet_rules]: "register_now now ms off w t v = Some (t', v') \<Longrightarrow> quiet e ev t v \<Longrightarrow> quiet e ev t' v'"
  by (auto simp: register_now_def split: if_splits elim!: bind_SomeE quiet_rules)

lemma quiet_set_tcp: "quiet e ev t v \<Longrightarrow> edge_transport_uses_tcp t \<Longrightarrow> quiet e ev (edge_set_active_transport N2N_SN_TRANSPORT_TCP t) v"
proof -
  assume q: "quiet e ev t v" "edge_transport_uses_tcp t"
  have "t = t\<lparr>active_sn_transport := active_sn_transport t\<rparr>" by simp
  then have "t\<lparr>active_sn_transport := N2N_SN_TRANSPORT_TCP\<rparr> = t" using q(2) by (metis edge_transport_uses_tcp_def)
  then show "quiet e ev (edge_set_active_transport N2N_SN_TRANSPORT_TCP t) v" using q(1) by (simp add: edge_set_active_transport_def)
qed

lemma uses_tcp_connect: "supernode_connect_tcp_socket t v = (ok, t', v') \<Longrightarrow> edge_transport_uses_tcp t' = edge_transport_uses_tcp t"
  using choice_connect_tcp [of t v ok t' v'] by (simp add: transport_choice_def edge_transport_uses_tcp_def)

lemma quiet_offset: "register_offset t v = Some (off, v') \<Longrightarrow> quiet e ev t' v' = quiet e ev t' v"
  by (auto simp: register_offset_def Let_def split: if_splits prod.splits)

lemma quiet_update_reg [quiet_rules]: "update_supernode_reg now t v = Some (t', v') \<Longrightarrow> quiet e ev t v \<Longrightarrow> quiet e ev t' v'"
  by (auto simp: update_supernode_reg_def Let_def uses_tcp_connect quiet_offset split: if_splits prod.splits bool.splits elim!: bind_SomeE quiet_rules intro!: quiet_set_tcp)


lemma quiet_unchanged_choice [quiet_rules]: "quiet e ev t v \<Longrightarrow> quiet e ev (default_criteria t) v"
  unfolding default_criteria_def by (rule quiet_same_supernodes) simp_all

lemma quiet_common_data [quiet_rules]: "sn_selection_criterion_common_data_default t v = (t', v') \<Longrightarrow> quiet e ev t v \<Longrightarrow> quiet e ev t' v'"
  by (auto simp: sn_selection_criterion_common_data_default_def Let_def split: if_splits prod.splits)

lemma quiet_sort_supernodes [quiet_rules]: "sort_supernodes now t v = Some (t', v') \<Longrightarrow> quiet e ev t v \<Longrightarrow> quiet e ev t' v'"
  by (auto simp: sort_supernodes_def Let_def split: if_splits prod.splits elim!: bind_SomeE quiet_rules intro!: quiet_curr_0 quiet_sort quiet_unchanged_choice)

lemma purge_filter:
  assumes "purge_expired_nodes l s tcp lp freq timeout now rt = (n, l', cs, lp', rt')"
  shows "\<exists>P. l' = filter P l"
proof (cases "now - lp < freq")
  case True
  then have "l' = filter (\<lambda>_. True) l" using assms by (simp add: purge_expired_nodes_def)
  then show ?thesis by blast
next
  case False
  obtain m l2 c2 rt2 where p: "purge_peer_list_loop s (now - timeout) l tcp rt = (m, l2, c2, rt2)" by (metis prod.exhaust)
  show ?thesis using assms False purge_loop_result [OF p] by (auto simp: purge_expired_nodes_def purge_peer_list_def p)
qed

lemma keys_ok_filter: "keys_ok (map f l) \<Longrightarrow> keys_ok (map f (filter P l))"
  by (auto simp: keys_ok_def list_all_iff distinct_map_filter)

lemma quiet_purge_peers:
  assumes "purge_peers tm t v = (tm', t', v')" "quiet e ev t v"
  shows "quiet e ev t' v'"
proof -
  have k: "list_all (mac_wf \<circ> mac_addr) l" if "purge_expired_nodes (known_peers t) s tcp lp freq timeout now rt = (n, l, cs, lp', rt')" "edge_inv t" for s tcp lp freq timeout now rt n l cs lp' rt'
    using purge_filter [OF that(1)] inv_tables(2) [OF that(2)] by (auto simp: list_all_iff)
  have p: "keys_ok (map mac_addr l)" if "purge_expired_nodes (pending_peers t) s tcp lp freq timeout now rt = (n, l, cs, lp', rt')" "edge_inv (t\<lparr>known_peers := k\<rparr>) \<or> edge_inv t"
    for s tcp lp freq timeout now rt n l cs lp' rt' k
    using purge_filter [OF that(1)] that(2) by (auto simp: keys_ok_filter edge_inv_def)
  show ?thesis using assms
    by (auto simp: purge_peers_def Let_def split: if_splits prod.splits intro!: quiet_pending quiet_known k) (erule p, erule disjI1 disjI2)+
qed

lemma quiet_purge_hosts: "purge_hosts now tm t = (tm', t') \<Longrightarrow> quiet e ev t v \<Longrightarrow> quiet e ev t' v"
  by (auto simp: purge_hosts_def list_all_iff split: if_splits intro!: quiet_hosts keys_ok_filter dest: inv_tables)

lemma keeps_iteration:
  assumes "edge_iteration inp st t v = Some (st', t', v')"
  shows "keeps t v t' v'"
proof -
  obtain rx tm where st: "st = (rx, tm)" by fastforce
  obtain rx1 t1 v1 rx2 t2 v2 where f: "fetch_active inp rx t v = Some (rx1, t1, v1)"
    "(case ei_multicast inp of None \<Rightarrow> Some (rx1, t1, v1) | Some (sa, buf) \<Rightarrow> fetch_datagram inp sa (udp_multicast_sock t1) buf (0, []) rx1 t1 v1) = Some (rx2, t2, v2)"
    using assms by (auto simp: edge_iteration_def st Let_def elim!: bind_SomeE)
  have k: "keeps t v t2 v2"
    using keeps_trans [OF keeps_fetch_active [OF f(1)], of t2 v2] f(2) by (auto split: option.splits dest: keeps_fetch_datagram)
  have "quiet t2 v2 t' v'" using assms f
    by (auto simp: edge_iteration_def st Let_def split: prod.splits option.splits elim!: bind_SomeE quiet_rules quiet_purge_hosts quiet_purge_peers)
  then show ?thesis by (rule keeps_quiet [OF k])
qed


text \<open>
  What a run of the edge preserves, whatever arrives: the edge is on TCP exactly if it is configured for TCP or has fallen back, the current
  supernode is an entry of the list, the tables of pending peers and of hosts have distinct keys of six bytes, the addresses of known peers have
  six bytes, the tokens have the declared size, the configuration does not change but for the supernodes, the own socket, the token, the dynamic
  key and the number of pings, and frames that were delivered to the TAP device stay delivered.
\<close>

lemma keeps_iterations: "edge_iterations inps st t v = Some (st', t', v') \<Longrightarrow> keeps t v t' v'"
  by (induction inps arbitrary: st t v) (auto elim!: bind_SomeE dest!: keeps_iteration intro: keeps_trans)

lemma keeps_run:
  assumes "run_edge_loop inps t v = Some (t', v')"
  shows "keeps t v t' v'"
proof -
  obtain t1 v1 st t2 v2 where r: "quiet t v t1 v1" "edge_iterations inps (edge_rx_init, edge_timers_init) t1 v1 = Some (st, t2, v2)" "quiet t2 v2 t' v'"
  proof -
    obtain now w t1 v1 st t2 v2 t3 v3 where u: "get_time v = (now, w)" "update_supernode_reg now t w = Some (t1, v1)"
      "edge_iterations inps (edge_rx_init, edge_timers_init) t1 v1 = Some (st, t2, v2)" "send_unregister_super t2 v2 = Some (t3, v3)"
      "supernode_disconnect t3 v3 = (t', v')"
      using assms by (auto simp: run_edge_loop_def Let_def split: prod.splits elim!: bind_SomeE)
    have "quiet t v t1 v1" using u(1,2) by (auto elim!: quiet_rules)
    moreover have "quiet t2 v2 t' v'" using u(4,5) by (auto elim!: quiet_rules)
    ultimately show thesis using that u(3) by blast
  qed
  show ?thesis using keeps_trans [OF quiet_keeps [OF r(1)] keeps_quiet [OF keeps_iterations [OF r(2)] r(3)]] .
qed

end
