(* ===== verification/Edge_Delivery.thy ===== *)
theory Edge_Delivery
  imports Transforms Wire_Messages Edge_Invariant
begin

text \<open>
  From the frame that one edge reads from its TAP device to the frame that another edge writes to its own: the composition of compression, transform,
  wire format and header encryption on both sides, with everything that the receiving edge does besides, and that none of it fails.
\<close>

subsection \<open>Encrypted headers\<close>

text \<open>A packet with an encrypted header survives the copy into another buffer.\<close>

lemma header_transfer:
  assumes "24 \<le> unat header_len" "header_len \<le> packet_len" "unat packet_len = length p" "take N2N_COMMUNITY_SIZE (drop 4 p) = name"
  shows "\<exists>p' rn'. length p' = length p \<and> (\<forall>tail. packet_header_encrypt (p @ tail) header_len packet_len ctx ctx_iv stamp rn = Some (0, p' @ tail, rn'))
    \<and> (\<forall>rest stamp0. packet_header_decrypt (p' @ rest) packet_len name ctx ctx_iv stamp0 = Some (1, p @ rest, stamp))"
proof -
  define A c1 c2 c3 c4 c5 where "A = take 4 p" and "c1 = take 4 (drop 4 p)" and "c2 = take 4 (drop 8 p)"
    and "c3 = take 4 (drop 12 p)" and "c4 = take 4 (drop 16 p)" and "c5 = take 4 (drop 20 p)"
  define H T where "H = take (unat header_len - 24) (drop 24 p)" and "T = drop (unat header_len) p"
  note defs = A_def c1_def c2_def c3_def c4_def c5_def H_def T_def
  have hp: "unat header_len \<le> unat packet_len" using assms(2) by (simp add: word_le_nat_alt)
  have step: "take 4 (drop k p) @ drop (k + 4) p = drop k p" for k by (metis add.commute append_take_drop_id drop_drop)
  have ht: "H @ T = drop 24 p" unfolding H_def T_def using assms(1) by (metis add.commute append_take_drop_id drop_drop le_add_diff_inverse)
  then have p: "p = A @ c1 @ c2 @ c3 @ c4 @ c5 @ H @ T"
    using step [of 0] step [of 4] step [of 8] step [of 12] step [of 16] step [of 20] by (simp add: defs)
  have len: "length A = 4" "length c1 = 4" "length c2 = 4" "length c3 = 4" "length c4 = 4" "length c5 = 4"
    "length H = unat header_len - 24" "24 \<le> unat header_len" "24 \<le> unat packet_len" "unat packet_len = 24 + length H + length T"
    using assms hp by (simp_all add: defs)
  have n: "name = c1 @ c2 @ c3 @ c4 @ c5" using assms(4) len by (subst (asm) p) simp
  define iv where "iv = speck_128_encrypt ctx_iv (pre_iv (pearson_hash_64 p) stamp (fst (n2n_rand rn)))"
  define p' where "p' = iv @ speck_ctr ctx iv (be_bytes 4 (he_magic + ucast header_len) @ A @ H) @ T"
  have tk: "take (unat packet_len) (A @ c1 @ c2 @ c3 @ c4 @ c5 @ H @ T @ x) = p" for x using len by (subst p) simp
  have e: "packet_header_encrypt (p @ x) header_len packet_len ctx ctx_iv stamp rn = Some (0, p' @ x, snd (n2n_rand rn))" for x
    using encrypt_result [where T = "T @ x" and iv = iv and ctx = ctx and ctx_iv = ctx_iv and stamp = stamp and rn = rn, OF len(1-9)] len(10) tk
    by (subst p) (simp add: iv_def p'_def)
  have px: "A @ name @ H @ T @ x = p @ x" for x unfolding n by (subst p) simp
  have d: "packet_header_decrypt (p' @ x) packet_len name ctx ctx_iv s0 = Some (1, p @ x, stamp)" for x s0
    using decrypt_result [where T = "T @ x" and iv = iv and ck = "pearson_hash_64 p" and name = name and ctx = ctx and ctx_iv = ctx_iv and stamp = stamp
        and r = "fst (n2n_rand rn)" and ?stamp0.0 = s0, OF len(1,7,8) _ assms(2)] len tk px
    by (simp add: iv_def p'_def n)
  have "length p' = length p" using len unfolding p'_def by (subst p) (simp add: iv_def)
  then show ?thesis using e d by blast
qed


subsection \<open>Messages of the edge can always be built\<close>

definition edge_wf :: "n2n_edge \<Rightarrow> bool" where
  "edge_wf e \<longleftrightarrow> mac_wf (device_mac (device e)) \<and> length (community_name (conf e)) = N2N_COMMUNITY_SIZE
     \<and> length (conf_dev_desc (conf e)) = N2N_DESC_SIZE \<and> (edge_encrypted e \<longrightarrow> conf_he (conf e) \<noteq> None)"

lemma edge_wf_core:
  assumes "edge_core a = edge_core b"
  shows "edge_wf a = edge_wf b"
  unfolding edge_wf_def edge_encrypted_def edge_core_conf [OF assms] edge_core_fields [OF assms] ..

lemma sends_wf: "sends t v t' v' \<Longrightarrow> edge_wf t' = edge_wf t"
  unfolding sends_def by (blast dest: edge_wf_core)

lemma edge_common_canon:
  assumes "edge_wf e" "ucast p AND N2N_FLAGS_TYPE_MASK = (ucast p :: u16)" "f AND N2N_FLAGS_BITS_MASK = f"
  shows "common_canon (edge_common p f e)"
  using assms by (simp add: common_canon_def common_wf_def edge_common_def edge_wf_def)

lemma emit_empty: "length bs \<le> N2N_PKT_BUF_SIZE \<Longrightarrow> emit v bs (empty_pktbuf, 0) = Some (v, bs @ replicate (N2N_PKT_BUF_SIZE - length bs) 0, length bs)"
  by (simp add: emit_def empty_pktbuf_def overlay_def)

lemma common_bytes_name: "common_wf c \<Longrightarrow> take N2N_COMMUNITY_SIZE (drop 4 (common_bytes c @ x)) = community c"
  by (simp add: common_bytes_def common_wf_def be_bytes_1 be_bytes_2)

text \<open>Sealing a packet in the buffer of a sender, and opening it in the buffer of a receiver.\<close>

lemma seal_total:
  assumes "edge_wf e" "24 \<le> h" "h \<le> length p" "length p \<le> N2N_PKT_BUF_SIZE" "take N2N_COMMUNITY_SIZE (drop 4 p) = community_name (conf e)"
  shows "\<exists>p' v'. edge_seal d e (p @ tail) h (length p) v = Some (p' @ tail, v') \<and> length p' = length p"
proof (cases "edge_encrypted e")
  case True
  then obtain he where he: "conf_he (conf e) = Some he" using assms(1) by (auto simp: edge_wf_def)
  obtain s v1 where s: "ev_time_stamp v = (s, v1)" by fastforce
  have w: "unat (of_nat h :: u16) = h" "unat (of_nat (length p) :: u16) = length p" using assms by (simp_all add: unat_of_nat)
  show ?thesis
    using header_transfer [of "of_nat h" "of_nat (length p)" p "community_name (conf e)" "if d then he_dynamic he else he_static he"
        "if d then he_iv_dynamic he else he_iv_static he" s "rt_rn (ev_rt v1)"] assms w True he
    by (auto simp: edge_seal_def s word_le_nat_alt)
qed (auto simp: edge_seal_def)

lemma send_register_total:
  assumes "edge_wf e" "list_all mac_wf (case m of Some m \<Rightarrow> [m] | None \<Rightarrow> [])"
  shows "\<exists>e' v'. send_register sock m k e v = Some (e', v')"
proof -
  define c where "c = edge_common n2n_register 0 e"
  define r where "r = \<lparr>reg_cookie = k, reg_srcMac = device_mac (device e), reg_dstMac = (case m of Some m \<Rightarrow> m | None \<Rightarrow> zero_mac),
    reg_sock = zero_sock, reg_dev_addr = edge_dev_addr e, reg_dev_desc = conf_dev_desc (conf e)\<rparr>"
  define p where "p = common_bytes c @ REGISTER_bytes False r"
  have c: "common_canon c" "\<not> has_sock c" unfolding c_def using edge_common_canon [OF assms(1)] by (simp_all add: edge_common_def)
  have r: "REGISTER_canon False r" using assms by (auto simp: REGISTER_canon_def r_def edge_wf_def opt_sock_canon_def split: option.splits)
  obtain x where e: "encode_REGISTER c r (empty_pktbuf, 0) = Some (x, p @ replicate (N2N_PKT_BUF_SIZE - length p) 0, length p)"
    and l: "24 \<le> length p" "length p \<le> N2N_PKT_BUF_SIZE"
  proof -
    have l: "length p = 61" using c(1) r by (simp add: p_def REGISTER_bytes_def opt_sock_bytes_def REGISTER_canon_def mac_wf_def common_canon_def)
    show thesis using that l encode_REGISTER_emit [OF c(1), of r] c(2) r by (simp add: emit_empty p_def [symmetric])
  qed
  have n: "take N2N_COMMUNITY_SIZE (drop 4 p) = community_name (conf e)"
    unfolding p_def using common_bytes_name [OF common_canon_wf [OF c(1)]] by (simp add: c_def edge_common_def)
  obtain p' v1 where s: "edge_seal True e (p @ replicate (N2N_PKT_BUF_SIZE - length p) 0) (length p) (length p) v = Some (p' @ replicate (N2N_PKT_BUF_SIZE - length p) 0, v1)"
    using seal_total [OF assms(1) l(1) order_refl l(2) n] by blast
  show ?thesis
    unfolding send_register_def c_def [symmetric] r_def [symmetric] by (simp add: e s Let_def split: prod.split)
qed


lemma send_register_step:
  assumes "edge_wf e" "list_all mac_wf (case m of Some m \<Rightarrow> [m] | None \<Rightarrow> [])"
  shows "\<exists>e' v'. send_register sock m k e v = Some (e', v') \<and> edge_wf e'"
  using send_register_total [OF assms] sends_wf [OF sends_register [OF _ sends_refl]] assms(1) by meson

lemma local_peers_total: "edge_wf e \<Longrightarrow> \<exists>e' v'. register_with_local_peers e v = Some (e', v') \<and> edge_wf e'"
  using send_register_step [of e None] by (simp add: register_with_local_peers_def)

lemma port_loop_total: "edge_wf e \<Longrightarrow> mac_wf m \<Longrightarrow> \<exists>e' v'. port_loop n sock m e v = Some (e', v') \<and> edge_wf e'"
proof (induction n arbitrary: sock e v)
  case (Suc n)
  obtain e1 v1 where "send_register sock (Some m) N2N_PORT_REG_COOKIE e v = Some (e1, v1)" "edge_wf e1"
    using send_register_step [of e "Some m"] Suc.prems by fastforce
  then show ?case using Suc by simp
qed simp

lemma announce_total:
  assumes "edge_wf e" "mac_wf m"
  shows "\<exists>e' v'. announce_to_peer from_sn m sock e v = Some (e', v') \<and> edge_wf e'"
proof -
  have s: "\<exists>e' v'. send_register sk (Some m) k f w = Some (e', v') \<and> edge_wf e'" if "edge_wf f" for sk k f w
    using send_register_step [of f "Some m"] that assms(2) by simp
  obtain e1 v1 where 1: "(if register_ttl (conf e) = 1 then Some (e, v) else if register_ttl (conf e) > 1 then port_loop 16 sock m e v
      else send_register sock (Some m) N2N_REGULAR_REG_COOKIE e v) = Some (e1, v1)" "edge_wf e1"
    using s [OF assms(1), of sock N2N_REGULAR_REG_COOKIE v] port_loop_total [OF assms, of 16 sock v] assms(1)
    by (cases "register_ttl (conf e) = 1"; cases "register_ttl (conf e) > 1") auto
  obtain e2 v2 where 2: "(if from_sn then send_register (peer_sock (curr_sn_peer e1)) (Some m) N2N_FORWARDED_REG_COOKIE e1 v1
      else send_register sock (Some m) N2N_REGULAR_REG_COOKIE e v) = Some (e2, v2)" "edge_wf e2"
    using s [OF 1(2), of "peer_sock (curr_sn_peer e1)" N2N_FORWARDED_REG_COOKIE v1] s [OF assms(1), of sock N2N_REGULAR_REG_COOKIE v]
    by (cases from_sn) auto
  show ?thesis using local_peers_total [OF 2(2), of v2] 1 2(1) by (cases from_sn) (simp_all add: announce_to_peer_def)
qed

lemma wf_tables [simp]: "edge_wf (e\<lparr>pending_peers := l\<rparr>) = edge_wf e" "edge_wf (e\<lparr>known_peers := l\<rparr>) = edge_wf e"
  by (simp_all add: edge_wf_def edge_encrypted_def)

lemma new_peer_total:
  assumes "edge_wf e" "mac_wf m"
  shows "\<exists>e' v'. register_with_new_peer from_sn via m da desc peer e v = Some (e', v')"
proof (cases "HASH_FIND_PEER (pending_peers e) m")
  case None
  obtain st v1 where st: "ev_initial_time_stamp v = (st, v1)" by fastforce
  let ?e = "e\<lparr>pending_peers := HASH_ADD ((new_pending_peer e m st)\<lparr>peer_sock := peer, local_peer := (if via then 1 else 0)\<rparr>) (pending_peers e)\<rparr>"
  obtain e2 v2 where "announce_to_peer from_sn m peer ?e v1 = Some (e2, v2)" using announce_total [of ?e m from_sn peer v1] assms by auto
  then show ?thesis by (simp add: register_with_new_peer_def None st Let_def split: prod.split)
qed (simp add: register_with_new_peer_def Let_def split: prod.split)

lemma sock_change_total:
  assumes "edge_wf e" "mac_wf m"
  shows "\<exists>e' v'. check_known_peer_sock_change from_sn via m da desc peer w e v = Some (e', v')"
  using new_peer_total [OF _ assms(2)] assms(1) by (simp add: check_known_peer_sock_change_def split: option.split)

lemma registration_total:
  assumes "edge_wf e" "mac_wf m"
  shows "\<exists>e' v'. check_peer_registration_needed from_sn via m k da desc peer e v = Some (e', v')"
  using new_peer_total [OF assms] sock_change_total [OF _ assms(2)] assms(1)
  by (auto simp: check_peer_registration_needed_def Let_def split: option.split prod.split)


subsection \<open>Reception\<close>

lemma edge_static_fields:
  assumes "edge_static a = edge_static b"
  shows "transop_id (conf a) = transop_id (conf b)" "allow_routing (conf a) = allow_routing (conf b)" "drop_multicast (conf a) = drop_multicast (conf b)"
    "device a = device b" "transop a = transop b" "filter_packet_from_peer a = filter_packet_from_peer b"
proof -
  define f where "f = (\<lambda>c :: n2n_edge_conf. c\<lparr>conf_preferred_sock := zero_sock, supernodes := [], conf_auth := zero_auth, conf_he := None, number_max_sn_pings := 0\<rparr>)"
  have c: "f (conf a) = f (conf b)" using assms by (simp add: edge_static_def f_def)
  have "transop_id (f c) = transop_id c" "allow_routing (f c) = allow_routing c" "drop_multicast (f c) = drop_multicast c" for c by (simp_all add: f_def)
  then show "transop_id (conf a) = transop_id (conf b)" "allow_routing (conf a) = allow_routing (conf b)" "drop_multicast (conf a) = drop_multicast (conf b)"
    using c by metis+
  show "device a = device b" "transop a = transop b" "filter_packet_from_peer a = filter_packet_from_peer b" using assms by (simp_all add: edge_static_def)
qed

definition is_multicast_frame :: "bytes \<Rightarrow> bool" where
  "is_multicast_frame frame \<longleftrightarrow> is_ip6_discovery frame (length frame) \<or> is_ethMulticast frame (length frame)"

text \<open>The frames that an edge passes to its TAP device: the complement of the reasons for which it drops one.\<close>

definition accepts_frame :: "n2n_edge \<Rightarrow> n2n_sock \<Rightarrow> bytes \<Rightarrow> bool" where
  "accepts_frame e sender frame \<longleftrightarrow> ETH_FRAMESIZE \<le> length frame \<and> \<not> filter_packet_from_peer e sender frame
     \<and> (if is_multicast_frame frame then \<not> drop_multicast (conf e)
        else allow_routing (conf e) \<or> ether_type frame \<noteq> 0x0800 \<or> length frame < ETH_FRAMESIZE + IP4_MIN_SIZE
          \<or> take N2N_MAC_SIZE frame = broadcast_mac \<or> take 4 (drop (ETH_FRAMESIZE + IP4_DSTOFFSET) frame) = st32 (device_ip (device e)))"

lemma accepts_static: "edge_static a = edge_static b \<Longrightarrow> accepts_frame a s f = accepts_frame b s f"
  by (simp add: accepts_frame_def edge_static_fields [of a b])

lemma same_frame:
  assumes "14 \<le> length f"
  shows "is_ip6_discovery (f @ x) (length f) = is_ip6_discovery f (length f)" "is_ethMulticast (f @ x) (length f) = is_ethMulticast f (length f)"
    "ether_type (f @ x) = ether_type f" "take N2N_MAC_SIZE (f @ x) = take N2N_MAC_SIZE f"
proof -
  have "(f @ x) ! i = f ! i" if "i < 14" for i using that assms by (simp add: nth_append)
  then have n: "(f @ x) ! 0 = f ! 0" "(f @ x) ! 1 = f ! 1" "(f @ x) ! 2 = f ! 2" "(f @ x) ! 3 = f ! 3" "(f @ x) ! 12 = f ! 12" "(f @ x) ! 13 = f ! 13"
    by auto
  show "is_ip6_discovery (f @ x) (length f) = is_ip6_discovery f (length f)" unfolding is_ip6_discovery_def n ..
  show "is_ethMulticast (f @ x) (length f) = is_ethMulticast f (length f)" unfolding is_ethMulticast_def n ..
  show "ether_type (f @ x) = ether_type f" unfolding ether_type_def n ..
  show "take N2N_MAC_SIZE (f @ x) = take N2N_MAC_SIZE f" using assms by simp
qed

lemma not_discarded:
  assumes "accepts_frame e s f" "\<not> is_multicast_frame f" "\<not> allow_routing (conf e)"
  shows "discard_routed e (f @ x) (length f) = Some False"
proof -
  have l: "14 \<le> length f" using assms(1) by (simp add: accepts_frame_def)
  have "rd (f @ x) (ETH_FRAMESIZE + IP4_DSTOFFSET) 4 = Some (take 4 (drop (ETH_FRAMESIZE + IP4_DSTOFFSET) f))" if "34 \<le> length f"
    using that by (simp add: rd_def)
  then show ?thesis using assms by (auto simp: discard_routed_def frame_ip_def same_frame [OF l] accepts_frame_def)
qed


text \<open>The last step: a decoded frame is written to the TAP device.\<close>

lemma handle_PACKET_delivers:
  assumes acc: "accepts_frame e sender frame"
    and pkt: "pkt_transform pkt = transop_id (conf e)" "pkt_compression pkt = N2N_COMPRESSION_ID_NONE"
    and dec: "rev_op (transop e) (replicate N2N_PKT_BUF_SIZE 0) N2N_PKT_BUF_SIZE payload n = Some (int (length frame), frame @ x)"
    and len: "length frame < 2 ^ 64"
  shows "\<exists>e' v'. edge_handle_PACKET from_sn pkt sender payload n e v = Some (e', v') \<and> ev_tap v' = ev_tap v @ [frame]"
proof -
  have l: "14 \<le> length frame" using acc by (simp add: accepts_frame_def)
  obtain now v1 where t: "get_time v = (now, v1)" "ev_tap v1 = ev_tap v" by (auto simp: get_time_def ev_next_def)
  define e1 where "e1 = count_packet from_sn (pkt_dstMac pkt) now e"
  have s: "edge_static e1 = edge_static e"
    by (simp add: e1_def count_packet_def upd_stats_def seen_supernode_def edge_static_def Let_def)
  note f = edge_static_fields [OF s]
  have fr: "frame_of_packet e1 pkt payload n = Some (Some (frame @ x, length frame))"
    using dec pkt(2) len by (simp add: frame_of_packet_def f to_size_def)
  have rd: "rd (frame @ x) 0 ETH_FRAMESIZE = Some (take ETH_FRAMESIZE frame)" "rd (frame @ x) 0 (length frame) = Some frame"
    using l by (simp_all add: rd_def)
  have d: "(if drop_multicast (conf e1) \<and> is_multicast_frame frame then Some True
     else if \<not> allow_routing (conf e1) \<and> \<not> is_multicast_frame frame then discard_routed e1 (frame @ x) (length frame) else Some False) = Some False"
    using acc not_discarded [of e1 sender frame x] accepts_static [OF s, of sender frame] by (auto simp: accepts_frame_def f)
  have flt: "filter_packet_from_peer (learn_host m src now e1) sender frame = False" for m src
    using acc by (simp add: learn_host_def f accepts_frame_def split: option.split)
  have m: "is_ip6_discovery (frame @ x) (length frame) \<or> is_ethMulticast (frame @ x) (length frame) \<longleftrightarrow> is_multicast_frame frame"
    by (simp add: same_frame [OF l] is_multicast_frame_def)
  show ?thesis
    unfolding edge_handle_PACKET_def t(1) Let_def prod.case e1_def [symmetric] fr Option.bind.simps option.case m d rd
    using pkt(1) flt t(2) by (simp add: f)
qed


text \<open>The stamp of a packet is checked, and nothing that matters for its delivery changes.\<close>

lemma stamp_ok_frame:
  assumes "edge_stamp_ok el m j t v = (ok, t', v')" "edge_wf t"
  shows "last_sup t' = last_sup t" "edge_wf t'"
  using assms
  by (auto simp: edge_stamp_ok_def find_peer_time_stamp_and_verify_def edge_wf_def edge_encrypted_def Let_def split: if_splits prod.splits option.splits)

lemma edge_PACKET_delivers:
  assumes inv: "edge_inv e" "edge_wf e" "last_sup e \<noteq> 0"
    and feed: "feed (el_buf el) (el_size el) (el_pos el) (PACKET_bytes (has_sock (el_cmn el)) pkt @ payload)" "PACKET_canon (has_sock (el_cmn el)) pkt"
    and stamp: "fst (edge_stamp_ok el (pkt_srcMac pkt) True e v)"
    and sender: "sender = (if el_from_sn el \<and> is_valid_peer_sock (pkt_sock pkt) then pkt_sock pkt else el_sender el)"
    and acc: "accepts_frame e sender frame" "length frame < 2 ^ 64"
    and pkt: "pkt_transform pkt = transop_id (conf e)" "pkt_compression pkt = N2N_COMPRESSION_ID_NONE"
    and dec: "rev_op (transop e) (replicate N2N_PKT_BUF_SIZE 0) N2N_PKT_BUF_SIZE (drop (el_size el - length payload) (el_buf el)) (length payload)
      = Some (int (length frame), frame @ x)"
  shows "\<exists>e' v'. edge_PACKET el e v = Some (e', v') \<and> ev_tap v' = ev_tap v @ [frame]"
proof -
  obtain r st where d: "decode_PACKET (el_cmn el) (el_buf el) (el_pos el) = Some (r, pkt, st)" and fst: "feed (el_buf el) (el_size el) st payload"
    using decode_PACKET_yields [OF feed] by (auto simp: yields_def)
  have pos: "snd st \<le> el_size el" "snd st = el_size el - length payload" "el_size el - snd st = length payload"
    using feed_pos [OF fst] fst by (auto simp: feed_def bounded_def)
  have mac: "mac_wf (pkt_srcMac pkt)" using feed(2) by (simp add: PACKET_canon_def)
  obtain t1 v1 where s: "edge_stamp_ok el (pkt_srcMac pkt) True e v = (True, t1, v1)" using stamp by (metis eq_fst_iff)
  define t2 where "t2 = (if \<not> el_from_sn el then forget_pending (pkt_srcMac pkt) t1 else t1)"
  have t2: "edge_wf t2" using stamp_ok_frame(2) [OF s inv(2)] by (simp add: t2_def forget_pending_def)
  have q2: "quiet e v t2 v1" using quiet_stamp_ok [OF s quiet_refl] by (auto simp: t2_def intro: quiet_forget)
  let ?k = "if el_from_sn el then N2N_FORWARDED_REG_COOKIE else N2N_REGULAR_REG_COOKIE"
  obtain t3 v3 where c: "check_peer_registration_needed (el_from_sn el) (el_multicast el) (pkt_srcMac pkt) ?k None None sender t2 v1 = Some (t3, v3)"
    using registration_total [OF t2 mac] by blast
  have "quiet e v t3 v3" by (rule quiet_registration_needed [OF c q2 mac])
  then have st3: "edge_static t3 = edge_static e" "ev_tap v3 = ev_tap v" using inv(1) by (simp_all add: quiet_def)
  note f = edge_static_fields [OF st3(1)]
  have "\<exists>e' v'. edge_handle_PACKET (el_from_sn el) pkt sender (drop (snd st) (el_buf el)) (length payload) t3 v3 = Some (e', v') \<and> ev_tap v' = ev_tap v @ [frame]"
    using handle_PACKET_delivers [of t3 sender frame pkt "drop (snd st) (el_buf el)" "length payload" x "el_from_sn el" v3] acc pkt dec pos(2) st3(2) accepts_static [OF st3(1)] by (simp add: f)
  then show ?thesis
    unfolding edge_PACKET_def d Option.bind.simps prod.case s Let_def t2_def [symmetric] sender [symmetric] c
    using pos stamp_ok_frame(1) [OF s inv(2)] inv(3) by simp
qed


subsection \<open>From one edge to another\<close>

text \<open>Two edges of one community: the second one can open what the first one seals.\<close>

definition same_network :: "n2n_edge \<Rightarrow> n2n_edge \<Rightarrow> bool" where
  "same_network a b \<longleftrightarrow> community_name (conf a) = community_name (conf b) \<and> edge_encrypted a = edge_encrypted b
     \<and> (shared_secret (conf b) \<noteq> None \<longrightarrow> edge_encrypted b)
     \<and> (edge_encrypted b \<longrightarrow> map_option he_dynamic (conf_he (conf a)) = map_option he_dynamic (conf_he (conf b))
          \<and> map_option he_iv_dynamic (conf_he (conf a)) = map_option he_iv_dynamic (conf_he (conf b)))"

text \<open>A packet as it is after the decryption of its header, with what \<open>process_udp\<close> knows of the key.\<close>

definition opens :: "n2n_edge \<Rightarrow> bytes \<Rightarrow> bytes \<Rightarrow> u64 \<Rightarrow> bool" where
  "opens b d p stamp \<longleftrightarrow> (\<forall>rest. if edge_encrypted b then edge_decrypt b (d @ rest) (length d) = Some (2, p @ rest, None, stamp) else d = p)"

lemma seal_opens:
  assumes "edge_wf a" "same_network a b" "24 \<le> h" "h \<le> length p" "length p \<le> N2N_PKT_BUF_SIZE" "take N2N_COMMUNITY_SIZE (drop 4 p) = community_name (conf a)"
  shows "\<exists>d v'. edge_seal True a (p @ tail) h (length p) v = Some (d @ tail, v') \<and> length d = length p \<and> opens b d p (fst (ev_time_stamp v))"
proof (cases "edge_encrypted a")
  case True
  then obtain he where he: "conf_he (conf a) = Some he" using assms(1) by (auto simp: edge_wf_def)
  then obtain hb where hb: "conf_he (conf b) = Some hb" "he_dynamic hb = he_dynamic he" "he_iv_dynamic hb = he_iv_dynamic he"
    using assms(2) True by (cases "conf_he (conf b)") (auto simp: same_network_def)
  obtain s v1 where s: "ev_time_stamp v = (s, v1)" by fastforce
  have w: "unat (of_nat h :: u16) = h" "unat (of_nat (length p) :: u16) = length p" using assms by (simp_all add: unat_of_nat)
  obtain d rn' where d: "length d = length p"
    "packet_header_encrypt (p @ tail) (of_nat h) (of_nat (length p)) (he_dynamic he) (he_iv_dynamic he) s (rt_rn (ev_rt v1)) = Some (0, d @ tail, rn')"
    "\<And>rest s0. packet_header_decrypt (d @ rest) (of_nat (length p)) (community_name (conf a)) (he_dynamic he) (he_iv_dynamic he) s0 = Some (1, p @ rest, s)"
    using header_transfer [of "of_nat h" "of_nat (length p)" p "community_name (conf a)" "he_dynamic he" "he_iv_dynamic he" s "rt_rn (ev_rt v1)"] assms w
    by (auto simp: word_le_nat_alt)
  have "opens b d p s" using assms(2) True hb d(1,3) by (auto simp: opens_def edge_decrypt_def same_network_def)
  then show ?thesis using d(1,2) True he by (auto simp: edge_seal_def s)
qed (use assms(2) in \<open>auto simp: edge_seal_def opens_def same_network_def\<close>)

text \<open>The header and the payload of the packet for a frame.\<close>

lemma transport_flags_values: "edge_packet_transport_flags f n \<in> {0, N2N_FLAGS_PACKET_INNER_TCP, N2N_FLAGS_PACKET_INNER_UDP}"
  by (auto simp: edge_packet_transport_flags_def Let_def)

lemma transport_flags [simp]:
  "edge_packet_transport_flags f n AND N2N_FLAGS_BITS_MASK = edge_packet_transport_flags f n"
  "edge_packet_transport_flags f n AND N2N_FLAGS_SOCKET = 0" "edge_packet_transport_flags f n AND N2N_FLAGS_FROM_SUPERNODE = 0"
  by (auto simp: edge_packet_transport_flags_def Let_def)

definition frame_header :: "n2n_edge \<Rightarrow> bytes \<Rightarrow> nat \<Rightarrow> n2n_common" where
  "frame_header a tap n = edge_common n2n_packet (edge_packet_transport_flags tap n) a"

definition frame_packet :: "n2n_edge \<Rightarrow> bytes \<Rightarrow> n2n_PACKET" where
  "frame_packet a dst = \<lparr>pkt_srcMac = device_mac (device a), pkt_dstMac = dst, pkt_sock = zero_sock, pkt_transform = transform_id (transop a),
     pkt_compression = N2N_COMPRESSION_ID_NONE\<rparr>"

lemma frame_canon:
  assumes "edge_wf a" "mac_wf dst"
  shows "common_canon (frame_header a tap n)" "\<not> has_sock (frame_header a tap n)" "PACKET_canon False (frame_packet a dst)"
    "pc (frame_header a tap n) = MSG_TYPE_PACKET" "community (frame_header a tap n) = community_name (conf a)"
    "flags (frame_header a tap n) AND N2N_FLAGS_FROM_SUPERNODE = 0"
  using assms edge_common_canon [OF assms(1), of n2n_packet "edge_packet_transport_flags tap n"]
  by (simp_all add: frame_header_def frame_packet_def edge_common_def PACKET_canon_def opt_sock_canon_def edge_wf_def)

lemma packet_for_net_opens:
  assumes a: "edge_wf a" "mac_wf dst" "compression (conf a) \<noteq> N2N_COMPRESSION_ID_LZO" and net: "same_network a b"
    and op: "Transforms.transop (fwd (transop a)) (rev_op (transop b)) ov" "n \<le> length tap" "n + ov + 38 \<le> N2N_PKT_BUF_SIZE"
  shows "\<exists>d va' payload. packet_for_net dst tap n a va = Some (d, va')
    \<and> opens b d (common_bytes (frame_header a tap n) @ PACKET_bytes False (frame_packet a dst) @ payload) (fst (ev_time_stamp va))
    \<and> length d = 38 + length payload \<and> length payload \<le> n + ov
    \<and> (\<forall>slack. 16 \<le> length slack \<longrightarrow> (\<exists>out. rev_op (transop b) (replicate N2N_PKT_BUF_SIZE 0) N2N_PKT_BUF_SIZE (payload @ slack) (length payload)
          = Some (int n, out) \<and> take n out = take n tap))"
proof -
  define hdr where "hdr = common_bytes (frame_header a tap n) @ PACKET_bytes False (frame_packet a dst)"
  note fc = frame_canon [OF a(1,2)]
  have lh: "length hdr = 38" using fc(1,3) by (simp add: hdr_def PACKET_bytes_def opt_sock_bytes_def PACKET_canon_def mac_wf_def common_canon_def)
  obtain x where enc: "encode_PACKET (frame_header a tap n) (frame_packet a dst) (empty_pktbuf, 0) = Some (x, hdr @ replicate (N2N_PKT_BUF_SIZE - 38) 0, 38)"
    using encode_PACKET_emit [OF fc(1), where r = "frame_packet a dst"] fc(2,3) lh by (simp add: hdr_def [symmetric] emit_empty)
  let ?o = "replicate (N2N_PKT_BUF_SIZE - 38) (0 :: byte)"
  have sz: "n + ov \<le> N2N_PKT_BUF_SIZE - 38" "N2N_PKT_BUF_SIZE - 38 \<le> length ?o" "N2N_PKT_BUF_SIZE - 38 \<le> N2N_PKT_BUF_SIZE" using op(3) by simp_all
  obtain m out rn where f: "fwd (transop a) ?o (N2N_PKT_BUF_SIZE - 38) tap n (rt_rn (ev_rt va)) = Some (int m, out, rn)" "m \<le> n + ov" "length out = N2N_PKT_BUF_SIZE - 38"
    using transop.fwd_ok [OF op(1,2) sz, of "rt_rn (ev_rt va)"] by auto
  define payload where "payload = take m out"
  have lp: "length payload = m" using f op(3) by (simp add: payload_def)
  define v1 where "v1 = va\<lparr>ev_rt := (ev_rt va)\<lparr>rt_rn := rn\<rparr>\<rparr>"
  define iv where "iv = (if shared_secret (conf a) \<noteq> None then min (38 + m - 38) N2N_SPECK_IVEC_SIZE else 0)"
  have st: "fst (ev_time_stamp v1) = fst (ev_time_stamp va)" by (simp add: v1_def ev_time_stamp_def rt_time_stamp_def Let_def)
  have nm: "take N2N_COMMUNITY_SIZE (drop 4 (hdr @ payload)) = community_name (conf a)"
    unfolding hdr_def append_assoc common_bytes_name [OF common_canon_wf [OF fc(1)]] fc(5) ..
  have iv: "iv \<le> m" by (simp add: iv_def)
  obtain d v2 where s: "edge_seal True a ((hdr @ payload) @ drop m out) (38 + iv) (length (hdr @ payload)) v1 = Some (d @ drop m out, v2)"
    "length d = length (hdr @ payload)" "opens b d (hdr @ payload) (fst (ev_time_stamp v1))"
    using seal_opens [OF a(1) net _ _ _ nm, of "38 + iv" "drop m out" v1] lh lp f(2) op(3) iv by auto
  have l: "length (hdr @ payload) = 38 + m" using lh lp by simp
  have b: "hdr @ out = (hdr @ payload) @ drop m out" by (simp add: payload_def)
  have sd: "edge_seal True a (hdr @ out) (38 + iv) (38 + m) v1 = Some (d @ drop m out, v2)" using s(1) unfolding b l .
  have cp: "compress_payload tap n a va = Some (N2N_COMPRESSION_ID_NONE, tap, n, va)" using a(3) by (simp add: compress_payload_def)
  have dt: "drop 38 (hdr @ ?o) = ?o" "take 38 (hdr @ ?o) = hdr" using lh by simp_all
  have ix: "nat (int 38 + int m) = 38 + m" by simp
  have p: "packet_for_net dst tap n a va = Some (d, v2)"
    unfolding packet_for_net_def cp Option.bind.simps prod.case frame_header_def [symmetric] frame_packet_def [symmetric] enc dt f(1) Let_def
      v1_def [symmetric] ix iv_def [symmetric] sd
    using s(2) l by simp
  have "\<exists>out'. rev_op (transop b) (replicate N2N_PKT_BUF_SIZE 0) N2N_PKT_BUF_SIZE (payload @ slack) m = Some (int n, out') \<and> take n out' = take n tap"
    if "16 \<le> length slack" for slack
    using transop.rev_ok [OF op(1,2) sz f(1), of "payload @ slack" N2N_PKT_BUF_SIZE "replicate N2N_PKT_BUF_SIZE 0"] that lp f(2,3) op(3) by (simp add: payload_def)
  then show ?thesis using p s(2,3) st lp l f(2) unfolding hdr_def by auto
qed


text \<open>What \<open>process_udp\<close> of the edge does with a packet that opens.\<close>

definition packet_locals :: "int \<Rightarrow> bytes \<Rightarrow> nat \<Rightarrow> int \<Rightarrow> sockaddr \<Rightarrow> n2n_common \<Rightarrow> rpos \<Rightarrow> u64 \<Rightarrow> n2n_edge \<Rightarrow> edge_locals" where
  "packet_locals in_sock buf sz now sa c pos st b = \<lparr>el_in_sock = in_sock, el_buf = buf, el_size = sz, el_now = now, el_sender = snd (fill_n2nsock sa), el_cmn = c,
    el_pos = pos, el_stamp = st, el_hash = None, el_from_sn = False, el_multicast = (in_sock = udp_multicast_sock b), el_sn = None\<rparr>"

lemma edge_process_packet_eq:
  assumes opens: "opens b d (common_bytes c @ PACKET_bytes False pkt @ payload) stamp" "length d = length (common_bytes c @ PACKET_bytes False pkt @ payload)"
    and c: "common_canon c" "\<not> has_sock c" "pc c = MSG_TYPE_PACKET" "community c = community_name (conf b)" "flags c AND N2N_FLAGS_FROM_SUPERNODE = 0"
    and key: "shared_secret (conf b) \<noteq> None \<Longrightarrow> edge_encrypted b"
    and sock: "in_sock \<noteq> tcp_sock b"
    and buf_def: "buf = (common_bytes c @ PACKET_bytes False pkt @ payload) @ rest"
  shows "\<exists>pos. feed buf (length d) pos (PACKET_bytes False pkt @ payload) \<and>
    edge_process_udp garbage sa in_sock (d @ rest) (length d) now b v =
      edge_PACKET (packet_locals in_sock buf (length d) now sa c pos (if edge_encrypted b then stamp else 0) b) b v"
proof -
  define p where "p = common_bytes c @ PACKET_bytes False pkt @ payload"
  define h where "h = (if edge_encrypted b then 2 else 0 :: nat)"
  define st where "st = (if edge_encrypted b then stamp else 0)"
  have lp: "length d = length p" using opens(2) by (simp add: p_def)
  have o: "(if edge_encrypted b then edge_decrypt b (d @ rest) (length p) else Some (0, d @ rest, None, 0)) = Some (h, p @ rest, None, st)"
    using opens(1) lp by (cases "edge_encrypted b") (simp_all add: opens_def p_def [symmetric] h_def st_def)
  have "feed (p @ rest) (length p) (length p, 0) (common_bytes c @ PACKET_bytes False pkt @ payload)" by (simp add: feed_def bounded_def p_def)
  from decode_common_yields [OF this c(1), of zero_common]
  obtain pos where dc: "decode_common (p @ rest) zero_common (length p, 0) = Some (24, c, pos)" and feed: "feed (p @ rest) (length p) pos (PACKET_bytes False pkt @ payload)"
    by (auto simp: yields_def zero_common_def common_wf_def)
  define el where "el = packet_locals in_sock (p @ rest) (length p) now sa c pos st b"
  have "edge_process_udp garbage sa in_sock (d @ rest) (length d) now b v = edge_dispatch garbage el b v"
    unfolding edge_process_udp_def lp Let_def o Option.bind.simps prod.case dc
    using sock(1) c key by (auto simp: h_def el_def packet_locals_def)
  also have "\<dots> = edge_PACKET el b v" using c(3) by (simp add: edge_dispatch_def el_def packet_locals_def)
  finally show ?thesis using feed unfolding buf_def p_def [symmetric] lp st_def [symmetric] el_def by blast
qed

lemma edge_process_packet:
  assumes b: "edge_inv b" "edge_wf b" "last_sup b \<noteq> 0"
    and opens: "opens b d (common_bytes c @ PACKET_bytes False pkt @ payload) stamp" "length d = length (common_bytes c @ PACKET_bytes False pkt @ payload)"
    and c: "common_canon c" "\<not> has_sock c" "pc c = MSG_TYPE_PACKET" "community c = community_name (conf b)" "flags c AND N2N_FLAGS_FROM_SUPERNODE = 0"
    and pkt: "PACKET_canon False pkt" "pkt_transform pkt = transop_id (conf b)" "pkt_compression pkt = N2N_COMPRESSION_ID_NONE"
    and key: "shared_secret (conf b) \<noteq> None \<Longrightarrow> edge_encrypted b"
    and sock: "in_sock \<noteq> tcp_sock b" "accepts_frame b (snd (fill_n2nsock sa)) frame" "length frame < 2 ^ 64"
    and stamp: "edge_encrypted b \<Longrightarrow> fst (find_peer_time_stamp_and_verify None (pkt_srcMac pkt) stamp True b v)"
    and dec: "rev_op (transop b) (replicate N2N_PKT_BUF_SIZE 0) N2N_PKT_BUF_SIZE (payload @ rest) (length payload) = Some (int (length frame), frame @ x)"
  shows "\<exists>b' v'. edge_process_udp garbage sa in_sock (d @ rest) (length d) now b v = Some (b', v') \<and> ev_tap v' = ev_tap v @ [frame]"
proof -
  define buf where "buf = (common_bytes c @ PACKET_bytes False pkt @ payload) @ rest"
  obtain pos where feed: "feed buf (length d) pos (PACKET_bytes False pkt @ payload)"
    and run: "edge_process_udp garbage sa in_sock (d @ rest) (length d) now b v =
      edge_PACKET (packet_locals in_sock buf (length d) now sa c pos (if edge_encrypted b then stamp else 0) b) b v"
    using edge_process_packet_eq [OF opens c key sock(1) buf_def, of garbage sa now v] by blast
  let ?el = "packet_locals in_sock buf (length d) now sa c pos (if edge_encrypted b then stamp else 0) b"
  show ?thesis unfolding run
  proof (rule edge_PACKET_delivers [OF b])
    show "feed (el_buf ?el) (el_size ?el) (el_pos ?el) (PACKET_bytes (has_sock (el_cmn ?el)) pkt @ payload)" using feed c(2) by (simp add: packet_locals_def)
    show "fst (edge_stamp_ok ?el (pkt_srcMac pkt) True b v)" using stamp by (simp add: edge_stamp_ok_def packet_locals_def)
    show "rev_op (transop b) (replicate N2N_PKT_BUF_SIZE 0) N2N_PKT_BUF_SIZE (drop (el_size ?el - length payload) (el_buf ?el)) (length payload)
      = Some (int (length frame), frame @ x)" using dec opens(2) by (simp add: packet_locals_def buf_def)
  qed (use pkt sock c(2) in \<open>simp_all add: packet_locals_def\<close>)
qed

subsection \<open>Properties\<close>

text \<open>
  C1. A frame that an edge packs for another edge of its community, whatever transform they share and whether headers are encrypted or not, is written
  to the TAP device of the other edge byte by byte, once, when the datagram reaches its UDP socket and its time stamp is fresh. Neither edge gets
  stuck: the registrations that the packet causes can always be sent.
\<close>

theorem frame_delivered:
  assumes a: "edge_wf a" "mac_wf dst" "compression (conf a) \<noteq> N2N_COMPRESSION_ID_LZO" and net: "same_network a b"
    and op: "Transforms.transop (fwd (transop a)) (rev_op (transop b)) ov" "transform_id (transop a) = transop_id (conf b)"
    and len: "n \<le> length tap" "n + ov + 38 \<le> N2N_PKT_BUF_SIZE" and rest: "16 \<le> length rest"
    and b: "edge_inv b" "edge_wf b" "last_sup b \<noteq> 0" "in_sock \<noteq> tcp_sock b" "accepts_frame b (snd (fill_n2nsock sa)) (take n tap)"
    and stamp: "edge_encrypted b \<Longrightarrow> fst (find_peer_time_stamp_and_verify None (device_mac (device a)) (fst (ev_time_stamp va)) True b vb)"
  shows "\<exists>d va' b' vb'. packet_for_net dst tap n a va = Some (d, va') \<and> edge_process_udp garbage sa in_sock (d @ rest) (length d) now b vb = Some (b', vb')
    \<and> ev_tap vb' = ev_tap vb @ [take n tap]"
proof -
  let ?c = "frame_header a tap n" and ?pkt = "frame_packet a dst"
  obtain d va' payload where d: "packet_for_net dst tap n a va = Some (d, va')"
    "opens b d (common_bytes ?c @ PACKET_bytes False ?pkt @ payload) (fst (ev_time_stamp va))" "length d = 38 + length payload"
    "\<And>slack. 16 \<le> length slack \<Longrightarrow> \<exists>out. rev_op (transop b) (replicate N2N_PKT_BUF_SIZE 0) N2N_PKT_BUF_SIZE (payload @ slack) (length payload)
          = Some (int n, out) \<and> take n out = take n tap"
    using packet_for_net_opens [OF a net op(1) len] by blast
  obtain out where out: "rev_op (transop b) (replicate N2N_PKT_BUF_SIZE 0) N2N_PKT_BUF_SIZE (payload @ rest) (length payload) = Some (int n, out)" "take n out = take n tap"
    using d(4) [OF rest] by blast
  have f: "length (take n tap) = n" "out = take n tap @ drop n out" using len(1) out(2) by (simp, metis append_take_drop_id)
  note fc = frame_canon [OF a(1,2)]
  have l: "length d = length (common_bytes ?c @ PACKET_bytes False ?pkt @ payload)"
    using fc(1,3) d(3) by (simp add: PACKET_bytes_def opt_sock_bytes_def PACKET_canon_def mac_wf_def common_canon_def)
  have "\<exists>b' v'. edge_process_udp garbage sa in_sock (d @ rest) (length d) now b vb = Some (b', v') \<and> ev_tap v' = ev_tap vb @ [take n tap]"
  proof (rule edge_process_packet [OF b(1-3) d(2) l])
    show "rev_op (transop b) (replicate N2N_PKT_BUF_SIZE 0) N2N_PKT_BUF_SIZE (payload @ rest) (length payload) = Some (int (length (take n tap)), take n tap @ drop n out)"
      using out(1) f by simp
  qed (use fc b net op stamp len in \<open>simp_all add: same_network_def frame_packet_def\<close>)
  then show ?thesis using d(1) by blast
qed


text \<open>An edge with encrypted headers and the Speck transform, one that has just registered.\<close>

definition ex_conf :: "header_encryption \<Rightarrow> n2n_edge_conf" where
  "ex_conf h = \<lparr>supernodes = [zero_peer\<lparr>peer_sock := zero_sock\<lparr>family := AF_INET, addr := [10, 0, 0, 9] @ replicate 12 0\<rparr>\<rparr>],
     community_name = 99 # 49 # replicate 18 0, conf_dev_desc = replicate 16 0, shared_secret = None, conf_header_encryption = h,
     conf_he = Some (packet_header_setup_key (99 # 49 # replicate 18 0)), transop_id = 5, compression = N2N_COMPRESSION_ID_NONE, tuntap_ip_mode = 0,
     allow_routing = False, drop_multicast = True, allow_p2p = True, register_interval = 20, register_ttl = 0, conf_preferred_sock = zero_sock,
     preferred_sock_auto = False, local_port = 0, connect_tcp = False, prefer_kcp = False, allow_tcp_fallback = False, conf_auth = zero_auth,
     sn_selection_strategy = 1, number_max_sn_pings = 0\<rparr>"

definition ex_speck :: n2n_trans_op where
  "ex_speck = \<lparr>transform_id = 5, fwd = transop_encode_speck (speck_expand_key (replicate 32 7) 256), rev_op = transop_decode_speck (speck_expand_key (replicate 32 7) 256)\<rparr>"

definition ex_edge :: "header_encryption \<Rightarrow> byte \<Rightarrow> n2n_edge" where
  "ex_edge h b = \<lparr>conf = ex_conf h, curr_sn = 0, sn_wait = 0, sn_pong = False, sup_attempts = 3,
     device = \<lparr>device_mac = [2, 0, 0, 0, 0, b], device_ip = ld32 [10, 1, 0, b], device_mask = 0\<rparr>, transop = ex_speck, transop_lzo = ex_speck, criterion_common_data = 0,
     active_sock = 3, udp_sock = 3, tcp_sock = -1, close_socket_counter = 0, tcp_sn_sock = zero_sock, tcp_sn_sock_valid = False,
     active_sn_transport = N2N_SN_TRANSPORT_UDP, tcp_fallback_active = False, tcp_sticky_after_fallback = False, kcp_probe_pending = False,
     kcp_probe_cookie = 0, last_kcp_probe = 0, sn_kcp_ctrl_confirmed = False, sn_kcp_data_confirmed = False, last_register_req_ms = 0,
     register_fast_retry_count = 0, tcp_register_soft_retry_budget = 0, sending_register_super = False, register_super_soft_retry_armed = False,
     register_super_request_active = False, sending_supernode_control = False, current_supernode_rx_transport = N2N_RX_SUPERNODE_TRANSPORT_UDP,
     register_super_cookie = 0, register_super_auth = zero_auth, sn_kcp_ctrl = zero_kcp_ctx, sn_kcp_data = zero_kcp_ctx, multicast_peer = zero_sock,
     udp_multicast_sock = 4, multicast_joined = False, known_peers = [], pending_peers = [], known_hosts = [], last_register_req = 0, edge_last_p2p = 0,
     last_sup = 90, last_udp_sup = 90, last_sweep = 0, edge_stats = \<lparr>tx_p2p = 0, rx_p2p = 0, tx_sup = 0, rx_sup = 0, tx_sup_broadcast = 0, rx_sup_broadcast = 0\<rparr>,
     resolution_request = False, assigned_addr = None, filter_packet_from_peer = (\<lambda>_ _. False)\<rparr>"

definition ex_env :: edge_env where
  "ex_env = \<lparr>ev_rt = quiet_runtime, ev_time = (\<lambda>_. 100), ev_open = (\<lambda>_. 3), ev_connect = (\<lambda>_. True), ev_writable = (\<lambda>_. 1), ev_local = (\<lambda>_. None),
     ev_calls = 0, ev_stack = zero_sockaddr, ev_tap = []\<rparr>"

text \<open>A request for an address, as an edge sends it to all hosts.\<close>

definition ex_frame :: bytes where
  "ex_frame = [2, 0, 0, 0, 0, 2, 2, 0, 0, 0, 0, 1, 8, 6] @ replicate 28 1"

lemma ex_edge_ok [simp]: "edge_wf (ex_edge h b)" "edge_inv (ex_edge h b)" "same_network (ex_edge h b) (ex_edge h c)"
  by (simp_all add: edge_wf_def mac_wf_def ex_edge_def ex_conf_def edge_inv_def transport_ok_def edge_transport_uses_tcp_def keys_ok_def same_network_def
      auth_wf_def zero_auth_def edge_encrypted_def)

lemma ex_edge_tables [simp]: "pending_peers (ex_edge h b) = []" "known_peers (ex_edge h b) = []"
  by (simp_all add: ex_edge_def)

lemma ex_accepts [simp]: "accepts_frame (ex_edge h b) sock ex_frame"
proof -
  have "length ex_frame = 42" "\<not> is_multicast_frame ex_frame" "ether_type ex_frame \<noteq> 0x0800" by code_simp+
  then show ?thesis by (simp add: accepts_frame_def ex_edge_def)
qed

theorem frame_delivered_witness:
  "\<exists>d va' b' vb'. packet_for_net [2, 0, 0, 0, 0, 2] ex_frame 42 (ex_edge HEADER_ENCRYPTION_ENABLED 1) ex_env = Some (d, va')
    \<and> edge_process_udp [] zero_sockaddr 3 (d @ replicate 100 0) (length d) 100 (ex_edge HEADER_ENCRYPTION_ENABLED 2) ex_env = Some (b', vb')
    \<and> ev_tap vb' = ev_tap ex_env @ [take 42 ex_frame]"
proof (rule frame_delivered)
  show "Transforms.transop (fwd (transop (ex_edge HEADER_ENCRYPTION_ENABLED 1))) (rev_op (transop (ex_edge HEADER_ENCRYPTION_ENABLED 2))) 16"
    by (simp add: ex_edge_def ex_speck_def speck_op.transop_axioms)
  show "fst (find_peer_time_stamp_and_verify None (device_mac (device (ex_edge HEADER_ENCRYPTION_ENABLED 1))) (fst (ev_time_stamp ex_env)) True (ex_edge HEADER_ENCRYPTION_ENABLED 2) ex_env)"
    by (simp add: find_peer_time_stamp_and_verify_def HASH_FIND_def time_stamp_verify_and_update_def ex_env_def ev_time_stamp_def Let_def split: prod.split)
  have "length ex_frame = 42" by code_simp
  then show "42 \<le> length ex_frame" "accepts_frame (ex_edge HEADER_ENCRYPTION_ENABLED 2) (snd (fill_n2nsock zero_sockaddr)) (take 42 ex_frame)" by simp_all
qed (simp_all add: mac_wf_def, simp_all add: ex_edge_def ex_conf_def ex_speck_def)

end
