(* ===== verification/Network.thy ===== *)
theory Network
  imports Sn_Forward Edge_Delivery
begin

text \<open>
  The composition of three programs: an edge, the supernode, and another edge.
\<close>

subsection \<open>A packet from the supernode\<close>

lemma known_supernode:
  assumes "find_index (\<lambda>scan. peer_sock scan = sock) (supernodes (conf b)) = Some j"
  shows "edge_add_sn sock null_mac SN_ADD_SKIP b v = (Some j, SN_ADD_SKIP, b, v)"
  using assms by (simp add: edge_add_sn_def add_sn_to_list_by_mac_or_sock_def renamed_entry_def is_null_mac_def)

text \<open>The socket from which a forwarded packet came originally.\<close>

definition origin :: "n2n_sock \<Rightarrow> n2n_sock \<Rightarrow> n2n_sock" where
  "origin sock sn = (if is_valid_peer_sock sock then sock else sn)"

lemma edge_process_forwarded:
  assumes b: "edge_inv b" "edge_wf b" "last_sup b \<noteq> 0" "\<not> edge_encrypted b" "shared_secret (conf b) = None"
    and d: "d = common_bytes c @ PACKET_bytes True pkt @ payload"
    and c: "common_canon c" "has_sock c" "pc c = MSG_TYPE_PACKET" "community c = community_name (conf b)" "flags c AND N2N_FLAGS_FROM_SUPERNODE \<noteq> 0"
    and pkt: "PACKET_canon True pkt" "pkt_transform pkt = transop_id (conf b)" "pkt_compression pkt = N2N_COMPRESSION_ID_NONE"
    and sn: "find_index (\<lambda>scan. peer_sock scan = snd (fill_n2nsock sa)) (supernodes (conf b)) = Some j"
    and sock: "in_sock \<noteq> tcp_sock b" "accepts_frame b (origin (pkt_sock pkt) (snd (fill_n2nsock sa))) frame" "length frame < 2 ^ 64"
    and dec: "rev_op (transop b) (replicate N2N_PKT_BUF_SIZE 0) N2N_PKT_BUF_SIZE (payload @ rest) (length payload) = Some (int (length frame), frame @ x)"
  shows "\<exists>b' v'. edge_process_udp garbage sa in_sock (d @ rest) (length d) now b v = Some (b', v') \<and> ev_tap v' = ev_tap v @ [frame]"
proof -
  have "feed (d @ rest) (length d) (length d, 0) (common_bytes c @ PACKET_bytes True pkt @ payload)" by (simp add: feed_def bounded_def d)
  from decode_common_yields [OF this c(1), of zero_common]
  obtain pos where dc: "decode_common (d @ rest) zero_common (length d, 0) = Some (24, c, pos)" and feed: "feed (d @ rest) (length d) pos (PACKET_bytes True pkt @ payload)"
    by (auto simp: yields_def zero_common_def common_wf_def)
  define el where "el = \<lparr>el_in_sock = in_sock, el_buf = d @ rest, el_size = length d, el_now = now, el_sender = snd (fill_n2nsock sa), el_cmn = c,
    el_pos = pos, el_stamp = 0, el_hash = None, el_from_sn = True, el_multicast = (in_sock = udp_multicast_sock b), el_sn = Some j\<rparr>"
  have "edge_process_udp garbage sa in_sock (d @ rest) (length d) now b v = edge_dispatch garbage el b v"
    unfolding edge_process_udp_def Let_def using dc sock(1) c b(4,5) known_supernode [OF sn] by (auto simp: el_def)
  also have "\<dots> = edge_PACKET el b v" using c(3) by (simp add: edge_dispatch_def el_def)
  also have "\<exists>b' v'. edge_PACKET el b v = Some (b', v') \<and> ev_tap v' = ev_tap v @ [frame]"
  proof (rule edge_PACKET_delivers [OF b(1-3)])
    show "feed (el_buf el) (el_size el) (el_pos el) (PACKET_bytes (has_sock (el_cmn el)) pkt @ payload)" using feed c(2) by (simp add: el_def)
    show "fst (edge_stamp_ok el (pkt_srcMac pkt) True b v)" using b(4) by (simp add: edge_stamp_ok_def)
    show "rev_op (transop b) (replicate N2N_PKT_BUF_SIZE 0) N2N_PKT_BUF_SIZE (drop (el_size el - length payload) (el_buf el)) (length payload)
      = Some (int (length frame), frame @ x)" using dec by (simp add: el_def d)
  qed (use pkt sock c(2) in \<open>simp_all add: el_def origin_def\<close>)
  finally show ?thesis .
qed

subsection \<open>Properties\<close>

text \<open>
  C2. The path through the supernode: an edge packs a frame for another edge, be it a TCP, a UDP or any other frame, and sends it to the supernode, which sends one
  datagram to the socket of the destination; what the destination then writes to its TAP device is the frame, byte by byte. The scope: a community with unencrypted
  headers and without user names, whose name has at most 19 characters; any transform that both edges share, without LZO compression; a destination that is registered at the supernode
  over UDP, knows the supernode and accepts the frame; and a datagram of at most 2048 bytes.
\<close>

theorem frame_via_supernode:
  assumes a: "edge_wf a" "mac_wf dst" "compression (conf a) \<noteq> N2N_COMPRESSION_ID_LZO"
    and net: "same_network a b" "\<not> edge_encrypted b" "community_name (conf a) ! 19 = 0"
    and op: "Transforms.transop (fwd (transop a)) (rev_op (transop b)) ov" "transform_id (transop a) = transop_id (conf b)"
    and len: "n \<le> length tap" "n + ov + 46 \<le> N2N_SN_LEGACY_SAFE_UDP_SIZE" "16 \<le> length rest2"
    and s: "HASH_FIND_COMMUNITY (communities s) (community_name (conf a)) = Some k"
      "comm_header_encryption (communities s ! k) = HEADER_ENCRYPTION_NONE" "allowed_users (communities s ! k) = []"
      "HASH_FIND_PEER (edges (communities s ! k)) dst = Some i" "udp_peer s (edges (communities s ! k) ! i)" "\<not> is_multi_broadcast dst"
    and sa: "sa_family sa = AF_INET" "length (sin_addr sa) = 4"
    and b: "edge_inv b" "edge_wf b" "last_sup b \<noteq> 0" "in_sock \<noteq> tcp_sock b"
      "find_index (\<lambda>scan. peer_sock scan = snd (fill_n2nsock sn_sa)) (supernodes (conf b)) = Some j"
      "accepts_frame b (origin ((snd (fill_n2nsock sa))\<lparr>socktype := SOCK_DGRAM\<rparr>) (snd (fill_n2nsock sn_sa))) (take n tap)"
  shows "\<exists>d va' out s' rt' b' vb'. packet_for_net dst tap n a va = Some (d, va')
    \<and> process_udp pi0 s sa alen fd (d @ rest1) (length d) now1 rt = Some (0, s', rt')
    \<and> rt_sent rt' = rt_sent rt @ [datagram s out (edges (communities s ! k) ! i)]
    \<and> edge_process_udp garbage sn_sa in_sock (out @ rest2) (length out) now2 b vb = Some (b', vb')
    \<and> ev_tap vb' = ev_tap vb @ [take n tap]"
proof -
  let ?c = "frame_header a tap n" and ?pkt = "frame_packet a dst" and ?k = "snd (fill_n2nsock sa)"
  obtain d va' payload where d: "packet_for_net dst tap n a va = Some (d, va')"
    "opens b d (common_bytes ?c @ PACKET_bytes False ?pkt @ payload) (fst (ev_time_stamp va))" "length payload \<le> n + ov"
    "\<And>slack. 16 \<le> length slack \<Longrightarrow> \<exists>out. rev_op (transop b) (replicate N2N_PKT_BUF_SIZE 0) N2N_PKT_BUF_SIZE (payload @ slack) (length payload)
          = Some (int n, out) \<and> take n out = take n tap"
    using packet_for_net_opens [OF a(1-3) net(1) op(1) len(1), of va] len(2) by auto
  note fc = frame_canon [OF a(1,2)] and v4 = fill_n2nsock_v4 [OF sa]
  have fe: "from_edge ?c" using fc(1) [where tap = tap and n = n] fc(4,5) transport_flags_values [of tap n] net(3)
    by (auto simp: from_edge_def common_canon_def frame_header_def edge_common_def)
  have dg: "d = packet_datagram ?c ?pkt payload" using d(2) net(2) fc(2) by (simp add: opens_def packet_datagram_def)
  define pkt where "pkt = ?pkt\<lparr>pkt_sock := ?k\<lparr>socktype := SOCK_DGRAM\<rparr>\<rparr>"
  define out where "out = packet_datagram (forwarded_common ?c) (?pkt\<lparr>pkt_sock := ?k\<rparr>) payload"
  have pb: "PACKET_bytes True (?pkt\<lparr>pkt_sock := ?k\<rparr>) = PACKET_bytes True pkt" using v4(2) by (simp add: pkt_def PACKET_bytes_def opt_sock_bytes_def)
  have pc: "PACKET_canon True pkt" using fc(3) v4(1) by (simp add: pkt_def PACKET_canon_def opt_sock_canon_def)
  note canon = from_edge_canon [OF fe]
  have o: "out = common_bytes (forwarded_common ?c) @ PACKET_bytes True pkt @ payload" using canon(5) pb by (simp add: out_def packet_datagram_def)
  have lk: "length (sock_bytes ?k) = 8" using sa by (simp add: fill_n2nsock_def sock_bytes_def zero_sock_def overlay_def)
  have lo: "length out \<le> N2N_SN_LEGACY_SAFE_UDP_SIZE"
    using canon(3) pc lk v4(2) d(3) len(2) by (simp add: o PACKET_bytes_def PACKET_canon_def mac_wf_def opt_sock_bytes_def pkt_def common_canon_def)
  have "\<exists>st. process_udp pi0 s sa alen fd (packet_datagram ?c ?pkt payload @ rest1) (length d) now1 rt =
      Some (0, s\<lparr>stats := st\<rparr>, rt\<lparr>rt_sent := rt_sent rt @ [datagram s out (edges (communities s ! k) ! i)]\<rparr>)"
    by (rule forward_packet [OF fe fc(3) _ _ s(2,3) _ s(5) sa out_def lo]) (use s fc(5) dg in \<open>simp_all add: frame_packet_def\<close>)
  then obtain st where st: "process_udp pi0 s sa alen fd (d @ rest1) (length d) now1 rt =
      Some (0, s\<lparr>stats := st\<rparr>, rt\<lparr>rt_sent := rt_sent rt @ [datagram s out (edges (communities s ! k) ! i)]\<rparr>)"
    unfolding dg by blast
  obtain o' where o': "rev_op (transop b) (replicate N2N_PKT_BUF_SIZE 0) N2N_PKT_BUF_SIZE (payload @ rest2) (length payload) = Some (int n, o')" "take n o' = take n tap"
    using d(4) [OF len(3)] by blast
  have "o' = take n tap @ drop n o'" using o'(2) by (metis append_take_drop_id)
  then have dec: "rev_op (transop b) (replicate N2N_PKT_BUF_SIZE 0) N2N_PKT_BUF_SIZE (payload @ rest2) (length payload)
      = Some (int (length (take n tap)), take n tap @ drop n o')" using o'(1) len(1) by simp
  have ss: "shared_secret (conf b) = None" using net(1,2) by (cases "shared_secret (conf b)") (auto simp: same_network_def)
  have "\<exists>b' v'. edge_process_udp garbage sn_sa in_sock (out @ rest2) (length out) now2 b vb = Some (b', v') \<and> ev_tap v' = ev_tap vb @ [take n tap]"
    by (rule edge_process_forwarded [OF b(1-3) net(2) ss o canon(3,5) _ _ canon(6) pc _ _ b(5,4) _ _ dec])
      (use b(6) net fc(4,5) op(2) len in \<open>simp_all add: same_network_def pkt_def frame_packet_def forwarded_common_def\<close>)
  then show ?thesis using d(1) st by fastforce
qed

definition ex_sn_address :: sockaddr where
  "ex_sn_address = zero_sockaddr\<lparr>sa_family := AF_INET, sin_addr := [10, 0, 0, 9]\<rparr>"

text \<open>A UDP datagram in an IPv4 packet.\<close>

definition ex_udp_frame :: bytes where
  "ex_udp_frame = [2, 0, 0, 0, 0, 2, 2, 0, 0, 0, 0, 1, 8, 0] @ [0x45, 0, 0, 28, 0, 0, 0, 0, 64, 17, 0, 0, 10, 1, 0, 1, 10, 1, 0, 2] @ replicate 8 1"

lemma ex_udp_frame_flags: "edge_packet_transport_flags ex_udp_frame 42 = N2N_FLAGS_PACKET_INNER_UDP"
  by code_simp

lemma ex_udp_accepts: "accepts_frame (ex_edge h 2) sock ex_udp_frame"
proof -
  have "length ex_udp_frame = 42" "\<not> is_multicast_frame ex_udp_frame" "take 4 (drop (ETH_FRAMESIZE + IP4_DSTOFFSET) ex_udp_frame) = st32 (ld32 [10, 1, 0, 2])"
    by code_simp+
  then show ?thesis by (simp add: accepts_frame_def ex_edge_def del: drop_drop)
qed

theorem frame_via_supernode_witness:
  "\<forall>pi0. \<exists>d va' out s' rt' b' vb'. packet_for_net [2, 0, 0, 0, 0, 2] ex_udp_frame 42 (ex_edge HEADER_ENCRYPTION_NONE 1) ex_env = Some (d, va')
    \<and> process_udp pi0 plain_sn edge_address 16 3 (d @ []) (length d) 100 quiet_runtime = Some (0, s', rt')
    \<and> rt_sent rt' = rt_sent quiet_runtime @ [datagram plain_sn out (edges (communities plain_sn ! 1) ! 1)]
    \<and> edge_process_udp [] ex_sn_address 3 (out @ replicate 100 0) (length out) 100 (ex_edge HEADER_ENCRYPTION_NONE 2) ex_env = Some (b', vb')
    \<and> ev_tap vb' = ev_tap ex_env @ [take 42 ex_udp_frame]"
proof (rule allI, rule frame_via_supernode)
  let ?a = "ex_edge HEADER_ENCRYPTION_NONE 1" and ?b = "ex_edge HEADER_ENCRYPTION_NONE 2"
  have n: "community_name (conf ?a) = 99 # 49 # replicate 18 0" by (simp add: ex_edge_def ex_conf_def)
  show "Transforms.transop (fwd (transop ?a)) (rev_op (transop ?b)) 16" by (simp add: ex_edge_def ex_speck_def speck_op.transop_axioms)
  have "length ex_udp_frame = 42" by code_simp
  then show "42 \<le> length ex_udp_frame" "accepts_frame ?b (origin ((snd (fill_n2nsock edge_address))\<lparr>socktype := SOCK_DGRAM\<rparr>) (snd (fill_n2nsock ex_sn_address))) (take 42 ex_udp_frame)"
    by (simp_all add: ex_udp_accepts)
  show "\<not> is_multi_broadcast [2, 0, 0, 0, 0, 2]" by code_simp
  show "HASH_FIND_COMMUNITY (communities plain_sn) (community_name (conf ?a)) = Some 1"
    unfolding n by (simp add: HASH_FIND_COMMUNITY_def HASH_FIND_def plain_sn_def cstr_def) (simp add: comm_key_def plain_comm_def cstr_def)
  have k: "communities plain_sn ! 1 = plain_comm" by (simp add: plain_sn_def)
  have pc: "comm_header_encryption plain_comm = HEADER_ENCRYPTION_NONE" "allowed_users plain_comm = []" "edges plain_comm = [test_edge 1, test_edge 2]"
    by (simp_all add: plain_comm_def zero_community_def)
  show "comm_header_encryption (communities plain_sn ! 1) = HEADER_ENCRYPTION_NONE" "allowed_users (communities plain_sn ! 1) = []" unfolding k by (rule pc)+
  show "HASH_FIND_PEER (edges (communities plain_sn ! 1)) [2, 0, 0, 0, 0, 2] = Some 1"
    unfolding k pc by (simp add: HASH_FIND_def test_sn_edges)
  show "udp_peer plain_sn (edges (communities plain_sn ! 1) ! 1)"
    unfolding k pc by (simp add: udp_peer_def test_edge_def plain_sn_def bare_sn_def)
  show "find_index (\<lambda>scan. peer_sock scan = snd (fill_n2nsock ex_sn_address)) (supernodes (conf ?b)) = Some 0"
  proof -
    have "htons 0 = 0" by code_simp
    then show ?thesis by (simp add: ex_edge_def ex_conf_def fill_n2nsock_def ex_sn_address_def zero_sock_def zero_sockaddr_def overlay_def)
  qed
qed (simp_all add: mac_wf_def edge_address_def, simp_all add: ex_edge_def ex_conf_def ex_speck_def edge_encrypted_def)

end
