(* ===== verification/Edge_Properties.thy ===== *)
theory Edge_Properties
  imports Edge_Delivery
begin

text \<open>
  What holds of every run of the edge from its start to its end.
\<close>

subsection \<open>The end of a run\<close>

lemma send_unregister_super_total:
  assumes "edge_wf e" "scheme (conf_auth (conf e)) = n2n_auth_none"
  shows "\<exists>e' v'. send_unregister_super e v = Some (e', v')"
proof -
  define c where "c = edge_common n2n_unregister_super 0 e"
  define u where "u = \<lparr>unreg_auth = zero_auth, unreg_srcMac = device_mac (device e)\<rparr>"
  define p where "p = common_bytes c @ UNREGISTER_SUPER_bytes u"
  have c: "common_canon c" unfolding c_def using edge_common_canon [OF assms(1)] by simp
  have u: "UNREGISTER_SUPER_canon u"
    using assms by (simp add: UNREGISTER_SUPER_canon_def u_def edge_wf_def auth_canon_def zero_auth_def auth_wf_def padded_def)
  have l: "length p = 34" using c u by (simp add: p_def UNREGISTER_SUPER_bytes_def UNREGISTER_SUPER_canon_def u_def auth_bytes_def zero_auth_def mac_wf_def common_canon_def)
  obtain x where e: "encode_UNREGISTER_SUPER c u (empty_pktbuf, 0) = Some (x, p @ replicate (N2N_PKT_BUF_SIZE - length p) 0, length p)"
    using encode_UNREGISTER_SUPER_emit [OF c u] l by (simp add: emit_empty p_def [symmetric])
  have n: "take N2N_COMMUNITY_SIZE (drop 4 p) = community_name (conf e)"
    unfolding p_def using common_bytes_name [OF common_canon_wf [OF c]] by (simp add: c_def edge_common_def)
  obtain p' v1 where s: "edge_seal True e (p @ replicate (N2N_PKT_BUF_SIZE - length p) 0) (length p) (length p) v = Some (p' @ replicate (N2N_PKT_BUF_SIZE - length p) 0, v1)"
    using seal_total [OF assms(1) _ order_refl _ n] l by fastforce
  have a: "edge_local_auth zero_auth e v = Some (zero_auth, e, v)"
    using assms(2) by (simp add: edge_local_auth_def edge_get_local_auth_def)
  show ?thesis
    unfolding send_unregister_super_def a Option.bind.simps prod.case c_def [symmetric] u_def [symmetric] by (simp add: e s split: prod.split)
qed

subsection \<open>Iterations that only receive\<close>

text \<open>
  An edge at rest: its registration is not due, no session of KCP is active, and the supernodes have been sorted lately. An iteration then
  consists of the reception and the purging of the tables.
\<close>

definition resting :: "int \<Rightarrow> n2n_edge \<Rightarrow> bool" where
  "resting now e \<longleftrightarrow> edge_wf e \<and> scheme (conf_auth (conf e)) = n2n_auth_none \<and> sn_wait e = 0 \<and> now < last_register_req e + register_interval (conf e)
     \<and> now - last_sweep e \<le> SWEEP_TIME \<and> \<not> kcp_active (sn_kcp_ctrl e) \<and> \<not> kcp_active (sn_kcp_data e)"

text \<open>Equal but for the tables, the statistics and what is known of the last packet.\<close>

definition without_tables :: "n2n_edge \<Rightarrow> n2n_edge" where
  "without_tables e = e\<lparr>known_peers := [], pending_peers := [], known_hosts := [], edge_last_p2p := 0, current_supernode_rx_transport := N2N_RX_SUPERNODE_TRANSPORT_NONE,
     edge_stats := \<lparr>tx_p2p = 0, rx_p2p = 0, tx_sup = 0, rx_sup = 0, tx_sup_broadcast = 0, rx_sup_broadcast = 0\<rparr>\<rparr>"

definition calm :: "n2n_edge \<Rightarrow> n2n_edge \<Rightarrow> bool" where
  "calm e e' \<longleftrightarrow> without_tables e' = without_tables e"

lemma calm_refl [simp]: "calm e e"
  by (simp add: calm_def)

lemma calm_trans: "calm a b \<Longrightarrow> calm b c \<Longrightarrow> calm a c"
  by (simp add: calm_def)

lemma calm_updates [simp]:
  "calm e (t\<lparr>known_peers := kp\<rparr>) = calm e t" "calm e (t\<lparr>pending_peers := pp\<rparr>) = calm e t" "calm e (t\<lparr>known_hosts := kh\<rparr>) = calm e t"
  "calm e (t\<lparr>edge_stats := st\<rparr>) = calm e t" "calm e (t\<lparr>edge_last_p2p := lp\<rparr>) = calm e t" "calm e (t\<lparr>current_supernode_rx_transport := rx\<rparr>) = calm e t"
  by (simp_all add: calm_def without_tables_def)

lemma calm_fields:
  assumes "calm e e'"
  shows "conf e' = conf e" "edge_encrypted e' = edge_encrypted e" "active_sock e' = active_sock e" "udp_sock e' = udp_sock e" "tcp_sock e' = tcp_sock e"
    "udp_multicast_sock e' = udp_multicast_sock e" "curr_sn_peer e' = curr_sn_peer e" "resting now e' = resting now e"
proof -
  have f: "f e' = f e" if "\<And>x. f (without_tables x) = f x" for f :: "n2n_edge \<Rightarrow> 'a" using that assms by (metis calm_def)
  show "conf e' = conf e" "edge_encrypted e' = edge_encrypted e" "active_sock e' = active_sock e" "udp_sock e' = udp_sock e" "tcp_sock e' = tcp_sock e"
    "udp_multicast_sock e' = udp_multicast_sock e" "curr_sn_peer e' = curr_sn_peer e" "resting now e' = resting now e"
    by (rule f; simp add: without_tables_def resting_def edge_wf_def edge_encrypted_def curr_sn_peer_def)+
qed

lemma kcp_at_rest:
  assumes "resting now e"
  shows "n2n_kcp_edge_update d e = e" "edge_handle_idle_data_kcp_session now w e = e" "edge_handle_dead_kcp_session e v = (e, v)"
  using assms by (cases e, simp add: n2n_kcp_edge_update_def resting_def)
    (use assms in \<open>simp_all add: edge_handle_idle_data_kcp_session_def edge_handle_dead_kcp_session_def resting_def\<close>)

lemma registration_at_rest: "resting now e \<Longrightarrow> \<exists>v'. update_supernode_reg now e v = Some (e, v') \<and> ev_tap v' = ev_tap v \<and> ev_time v' = ev_time v"
  by (cases "n2n_kcp_now_ms v") (auto simp: update_supernode_reg_def resting_def fast_retry_due_def n2n_kcp_now_ms_def split: prod.splits)

lemma purge_peers_calm: "purge_peers tm e v = (tm', e', v') \<Longrightarrow> calm e e' \<and> ev_tap v' = ev_tap v \<and> ev_time v' = ev_time v"
  by (auto simp: purge_peers_def get_time_def ev_next_def Let_def split: prod.splits if_splits)

lemma purge_hosts_calm: "purge_hosts now tm e = (tm', e') \<Longrightarrow> calm e e'"
  by (auto simp: purge_hosts_def split: if_splits)

lemma iteration_at_rest:
  assumes "fetch_active inp rx e v = Some (rx1, e1, v1)"
    and "(case ei_multicast inp of None \<Rightarrow> Some (rx1, e1, v1) | Some (sa, buf) \<Rightarrow> fetch_datagram inp sa (udp_multicast_sock e1) buf (0, []) rx1 e1 v1) = Some (rx2, e2, v2)"
    and "ei_frame inp = None" and "resting (ei_now inp) e2"
  shows "\<exists>tm' e' v'. edge_iteration inp (rx, tm) e v = Some ((rx2, tm'), e', v') \<and> calm e2 e' \<and> ev_tap v' = ev_tap v2 \<and> ev_time v' = ev_time v2"
proof -
  obtain v3 where u: "update_supernode_reg (ei_now inp) e2 v2 = Some (e2, v3)" "ev_tap v3 = ev_tap v2" "ev_time v3 = ev_time v2"
    using registration_at_rest [OF assms(4)] by blast
  obtain tm4 e4 v4 where p: "purge_peers tm e2 v3 = (tm4, e4, v4)" by (metis prod_cases3)
  obtain tm5 e5 where h: "purge_hosts (ei_now inp) tm4 e4 = (tm5, e5)" by fastforce
  have c: "calm e2 e5" using purge_peers_calm [OF p] purge_hosts_calm [OF h] calm_trans by blast
  then have "resting (ei_now inp) e5" using calm_fields(8) assms(4) by blast
  then have "sort_supernodes (ei_now inp) e5 v4 = Some (e5, v4)" by (simp add: sort_supernodes_def resting_def)
  then have "edge_iteration inp (rx, tm) e v = Some ((rx2, tm5), e5, v4)"
    using assms(1-3) by (simp add: edge_iteration_def kcp_at_rest [OF assms(4)] u(1) p h cong: option.case_cong)
  then show ?thesis using c purge_peers_calm [OF p] u by auto
qed

subsection \<open>Packets of known peers\<close>

lemma learn_host_calm [simp]: "calm e (learn_host m src now t) = calm e t" "calm e (count_packet False dst now t) = calm e t"
  by (simp_all add: learn_host_def count_packet_def upd_stats_def split: option.split)

lemma handle_PACKET_calm:
  assumes "edge_handle_PACKET False pkt sender payload n t v = Some (t', v')" and "calm e t"
  shows "calm e t' \<and> ev_time v' = ev_time v"
proof -
  obtain now v1 where t: "get_time v = (now, v1)" "ev_time v1 = ev_time v" by (auto simp: get_time_def ev_next_def)
  define t1 where "t1 = count_packet False (pkt_dstMac pkt) now t"
  have t1: "calm e t1" using assms(2) by (simp add: t1_def)
  show ?thesis
    using assms(1) t1 t(2) unfolding edge_handle_PACKET_def t(1) Let_def prod.case t1_def [symmetric]
    by (auto elim!: bind_SomeE split: if_splits option.splits)
qed

lemma known_peer_calm:
  assumes "\<not> edge_encrypted e" "HASH_FIND_PEER (known_peers e) (pkt_srcMac pkt) = Some i" "ev_time v (ev_calls v) \<le> last_seen (known_peers e ! i)"
    "N2N_REGULAR_REG_COOKIE \<le> last_cookie (known_peers e ! i)"
    and el: "decode_PACKET (el_cmn el) (el_buf el) (el_pos el) = Some (r, pkt, st)" "\<not> el_from_sn el"
    and run: "edge_PACKET el e v = Some (e', v')"
  shows "calm e e' \<and> ev_time v' = ev_time v"
proof -
  define e1 where "e1 = forget_pending (pkt_srcMac pkt) e"
  have e1: "calm e e1" "known_peers e1 = known_peers e" by (simp_all add: e1_def forget_pending_def)
  have i: "i < length (known_peers e)" using assms(2) by (auto simp: HASH_FIND_def dest: find_index_Some)
  define scan where "scan = (if el_multicast el then (known_peers e ! i)\<lparr>last_p2p := ev_time v (ev_calls v), local_peer := 1\<rparr>
    else (known_peers e ! i)\<lparr>last_p2p := ev_time v (ev_calls v)\<rparr>)"
  define e2 where "e2 = e1\<lparr>known_peers := (known_peers e)[i := scan]\<rparr>"
  have e2: "calm e e2" using e1 by (simp add: e2_def)
  have "\<not> ev_time v (ev_calls v) - last_seen scan > 0" "\<not> N2N_REGULAR_REG_COOKIE > last_cookie scan"
    using assms(3,4) by (simp_all add: scan_def)
  then have c: "check_peer_registration_needed False (el_multicast el) (pkt_srcMac pkt) N2N_REGULAR_REG_COOKIE None None (el_sender el) e1 v = Some (e2, ev_next v)"
    using assms(2) e1(2) by (cases "el_multicast el") (simp_all add: check_peer_registration_needed_def find_known_peer_def get_time_def Let_def e2_def scan_def)
  have "last_sup e = 0 \<and> e' = e \<and> v' = v \<or> edge_handle_PACKET False pkt (el_sender el) (drop (snd st) (el_buf el)) (el_size el - snd st) e2 (ev_next v) = Some (e', v')"
    using run el assms(1) c by (auto simp: edge_PACKET_def edge_stamp_ok_def e1_def split: if_splits)
  then show ?thesis
  proof
    assume "edge_handle_PACKET False pkt (el_sender el) (drop (snd st) (el_buf el)) (el_size el - snd st) e2 (ev_next v) = Some (e', v')"
    then show ?thesis using handle_PACKET_calm [OF _ e2] by (fastforce simp: ev_next_def)
  qed simp
qed

lemma wrong_version_dropped:
  assumes "\<not> edge_encrypted e" "b \<noteq> N2N_PKT_VERSION"
  shows "edge_process_udp garbage sa in_sock (b # rest) (Suc n) now e v = Some (e, v)"
proof -
  have "b AND 0xFF = b" by (rule bit_word_eqI) (auto simp: bit_and_iff bit_simps)
  then have "decode_common (b # rest) zero_common (Suc n, 0) = Some (-1, zero_common, n, 1)"
    using assms(2) by (simp add: decode_common_def decode_uint8_def rd_def)
  then show ?thesis using assms(1) by (simp add: edge_process_udp_def)
qed

text \<open>A run whose iterations are known ends with the message to the supernode.\<close>

lemma run_at_rest:
  assumes "resting (ev_time v (ev_calls v)) e" and inv: "edge_inv e"
    and "\<And>w. ev_tap w = ev_tap v \<Longrightarrow> ev_time w = ev_time v \<Longrightarrow>
      \<exists>st e1 v1. edge_iterations inps (edge_rx_init, edge_timers_init) e w = Some (st, e1, v1) \<and> calm e e1 \<and> ev_tap v1 = ev_tap v @ fs"
  shows "\<exists>e' v'. run_edge_loop inps e v = Some (e', v') \<and> ev_tap v' = ev_tap v @ fs"
proof -
  obtain w where w: "update_supernode_reg (ev_time v (ev_calls v)) e (ev_next v) = Some (e, w)" "ev_tap w = ev_tap v" "ev_time w = ev_time v"
    using registration_at_rest [OF assms(1), of "ev_next v"] by (auto simp: ev_next_def)
  obtain st e1 v1 where it: "edge_iterations inps (edge_rx_init, edge_timers_init) e w = Some (st, e1, v1)" "calm e e1" "ev_tap v1 = ev_tap v @ fs"
    using assms(3) [OF w(2,3)] by blast
  have "resting (ev_time v (ev_calls v)) e1" using calm_fields(8) [OF it(2)] assms(1) by blast
  then obtain e2 v2 where u: "send_unregister_super e1 v1 = Some (e2, v2)" using send_unregister_super_total [of e1 v1] by (auto simp: resting_def)
  obtain e3 v3 where d: "supernode_disconnect e2 v2 = (e3, v3)" by fastforce
  have "edge_inv e1" using keeps_iterations [OF it(1)] inv by (simp add: keeps_def)
  then have "ev_tap v2 = ev_tap v1" using quiet_unregister [OF u quiet_refl] by (simp add: quiet_def)
  moreover have "ev_tap v3 = ev_tap v2"
    using d by (auto simp: supernode_disconnect_def supernode_disconnect_tcp_def supernode_disconnect_udp_def closesocket_def split: prod.splits if_splits)
  ultimately show ?thesis using w it u d by (simp add: run_edge_loop_def get_time_def)
qed

subsection \<open>Properties\<close>


text \<open>
  Two runs. In the first one an edge on UDP receives, in one iteration, a packet of a peer that it knows and a datagram by multicast that is not of this
  protocol; in the second one an edge on TCP receives the length of a packet and then the packet, in two iterations.
\<close>

definition ex_peer_address :: sockaddr where
  "ex_peer_address = zero_sockaddr\<lparr>sa_family := AF_INET, sin_addr := [10, 0, 0, 1]\<rparr>"

definition run_udp_edge :: n2n_edge where
  "run_udp_edge = (ex_edge HEADER_ENCRYPTION_NONE 2)\<lparr>last_register_req := 90, last_sweep := 90,
     known_peers := [zero_peer\<lparr>mac_addr := [2, 0, 0, 0, 0, 1], last_seen := 100, last_cookie := N2N_REGULAR_REG_COOKIE\<rparr>]\<rparr>"

definition run_tcp_edge :: n2n_edge where
  "run_tcp_edge = (ex_edge HEADER_ENCRYPTION_NONE 2)\<lparr>last_register_req := 90, last_sweep := 90, conf := (ex_conf HEADER_ENCRYPTION_NONE)\<lparr>connect_tcp := True\<rparr>,
     active_sn_transport := N2N_SN_TRANSPORT_TCP, tcp_sock := 5, active_sock := 5, udp_sock := -1\<rparr>"

definition udp_input :: "bytes \<Rightarrow> edge_input" where
  "udp_input d = \<lparr>ei_now = 100, ei_active = Some (ex_peer_address, d, (0, []), None), ei_multicast = Some (ex_peer_address, [0, 0, 0]), ei_frame = None,
     ei_dead = (\<lambda>_. False), ei_waitsnd = 0, ei_garbage = [], ei_from_tap = (\<lambda>_. False)\<rparr>"

definition tcp_input :: "bytes \<Rightarrow> edge_input" where
  "tcp_input bs = \<lparr>ei_now = 100, ei_active = Some (zero_sockaddr, [], (0, []), Some bs), ei_multicast = None, ei_frame = None,
     ei_dead = (\<lambda>_. False), ei_waitsnd = 0, ei_garbage = [], ei_from_tap = (\<lambda>_. False)\<rparr>"

lemma run_edges_ok:
  "edge_inv run_udp_edge" "edge_wf run_udp_edge" "resting 100 run_udp_edge" "\<not> edge_encrypted run_udp_edge" "same_network (ex_edge HEADER_ENCRYPTION_NONE 1) run_udp_edge"
  "edge_inv run_tcp_edge" "resting 100 run_tcp_edge" "\<not> edge_encrypted run_tcp_edge"
  by (simp_all add: run_udp_edge_def run_tcp_edge_def resting_def edge_wf_def mac_wf_def ex_edge_def ex_conf_def edge_inv_def transport_ok_def edge_transport_uses_tcp_def
      keys_ok_def same_network_def auth_wf_def zero_auth_def edge_encrypted_def zero_kcp_ctx_def)

lemma run_udp_accepts: "accepts_frame run_udp_edge sock ex_frame"
proof -
  have "edge_static run_udp_edge = edge_static (ex_edge HEADER_ENCRYPTION_NONE 2)" by (simp add: edge_static_def run_udp_edge_def)
  from accepts_static [OF this] show ?thesis by simp
qed

text \<open>The packet of the peer.\<close>

lemma run_udp_process:
  obtains d va' where "packet_for_net [2, 0, 0, 0, 0, 2] ex_frame 42 (ex_edge HEADER_ENCRYPTION_NONE 1) ex_env = Some (d, va')" "38 \<le> length d" "length d \<le> 96"
    "\<And>rest w x. 16 \<le> length rest \<Longrightarrow> ev_time w = (\<lambda>_. 100) \<Longrightarrow>
      \<exists>e1 v1. edge_process_udp [] ex_peer_address 3 (d @ rest) (length d) 100 (run_udp_edge\<lparr>current_supernode_rx_transport := x\<rparr>) w = Some (e1, v1)
        \<and> calm run_udp_edge e1 \<and> ev_tap v1 = ev_tap w @ [ex_frame] \<and> ev_time v1 = ev_time w"
proof -
  let ?a = "ex_edge HEADER_ENCRYPTION_NONE 1" and ?dst = "[2, 0, 0, 0, 0, 2] :: bytes"
  let ?c = "frame_header ?a ex_frame 42" and ?pkt = "frame_packet ?a ?dst"
  have n: "length ex_frame = 42" by code_simp
  have dst: "mac_wf ?dst" by (simp add: mac_wf_def)
  have lzo: "compression (conf ?a) \<noteq> N2N_COMPRESSION_ID_LZO" by (simp add: ex_edge_def ex_conf_def)
  have op: "Transforms.transop (fwd (transop ?a)) (rev_op (transop run_udp_edge)) 16"
    by (simp add: run_udp_edge_def ex_edge_def ex_speck_def speck_op.transop_axioms)
  have len: "42 \<le> length ex_frame" "42 + 16 + 38 \<le> N2N_PKT_BUF_SIZE" using n by simp_all
  obtain d va' payload where d: "packet_for_net ?dst ex_frame 42 ?a ex_env = Some (d, va')"
    "opens run_udp_edge d (common_bytes ?c @ PACKET_bytes False ?pkt @ payload) (fst (ev_time_stamp ex_env))" "length d = 38 + length payload" "length payload \<le> 42 + 16"
    "\<And>slack. 16 \<le> length slack \<Longrightarrow> \<exists>out. rev_op (transop run_udp_edge) (replicate N2N_PKT_BUF_SIZE 0) N2N_PKT_BUF_SIZE (payload @ slack) (length payload)
          = Some (int 42, out) \<and> take 42 out = take 42 ex_frame"
    using packet_for_net_opens [OF ex_edge_ok(1) dst lzo run_edges_ok(5) op len] by blast
  note fc = frame_canon [OF ex_edge_ok(1) [of HEADER_ENCRYPTION_NONE 1] dst]
  have l: "length d = length (common_bytes ?c @ PACKET_bytes False ?pkt @ payload)"
    using fc(1,3) d(3) by (simp add: PACKET_bytes_def opt_sock_bytes_def PACKET_canon_def mac_wf_def common_canon_def)
  have "\<exists>e1 v1. edge_process_udp [] ex_peer_address 3 (d @ rest) (length d) 100 (run_udp_edge\<lparr>current_supernode_rx_transport := x\<rparr>) w = Some (e1, v1)
      \<and> calm run_udp_edge e1 \<and> ev_tap v1 = ev_tap w @ [ex_frame] \<and> ev_time v1 = ev_time w" if r: "16 \<le> length rest" and t: "ev_time w = (\<lambda>_. 100)" for rest w x
  proof -
    let ?b = "run_udp_edge\<lparr>current_supernode_rx_transport := x\<rparr>"
    have o: "opens ?b d (common_bytes ?c @ PACKET_bytes False ?pkt @ payload) (fst (ev_time_stamp ex_env))"
      using d(2) run_edges_ok(4) by (simp add: opens_def edge_encrypted_def)
    have b: "edge_inv ?b" "edge_wf ?b" "last_sup ?b \<noteq> 0" "\<not> edge_encrypted ?b" "3 \<noteq> tcp_sock ?b" "community ?c = community_name (conf ?b)"
      "shared_secret (conf ?b) \<noteq> None \<Longrightarrow> edge_encrypted ?b"
      using run_edges_ok(1,2,4) fc(5) [of ex_frame 42]
      by (simp_all add: edge_inv_def transport_ok_def edge_transport_uses_tcp_def edge_wf_def edge_encrypted_def) (simp_all add: run_udp_edge_def ex_edge_def ex_conf_def)
    obtain out where out: "rev_op (transop ?b) (replicate N2N_PKT_BUF_SIZE 0) N2N_PKT_BUF_SIZE (payload @ rest) (length payload) = Some (int (length ex_frame), ex_frame @ out)"
      using d(5) [OF r] n by (simp, metis append_take_drop_id take_all order_refl)
    have acc: "accepts_frame ?b s ex_frame" for s using run_udp_accepts [of s] accepts_static [of ?b run_udp_edge] by (simp add: edge_static_def)
    obtain e1 v1 where run: "edge_process_udp [] ex_peer_address 3 (d @ rest) (length d) 100 ?b w = Some (e1, v1)" "ev_tap v1 = ev_tap w @ [ex_frame]"
    proof -
      have "\<exists>b' v'. edge_process_udp [] ex_peer_address 3 (d @ rest) (length d) 100 ?b w = Some (b', v') \<and> ev_tap v' = ev_tap w @ [ex_frame]"
        by (rule edge_process_packet [OF b(1-3) o l fc(1,2,4) b(6) fc(6) fc(3) _ _ b(7,5) acc _ _ out])
          (use b(4) n in \<open>simp_all add: frame_packet_def run_udp_edge_def ex_edge_def ex_conf_def ex_speck_def\<close>)
      then show thesis using that by blast
    qed
    define buf where "buf = (common_bytes ?c @ PACKET_bytes False ?pkt @ payload) @ rest"
    obtain pos where feed: "feed buf (length d) pos (PACKET_bytes False ?pkt @ payload)"
      and eq: "edge_process_udp [] ex_peer_address 3 (d @ rest) (length d) 100 ?b w =
        edge_PACKET (packet_locals 3 buf (length d) 100 ex_peer_address ?c pos (if edge_encrypted ?b then fst (ev_time_stamp ex_env) else 0) ?b) ?b w"
      using edge_process_packet_eq [OF o l fc(1,2,4) b(6) fc(6) b(7,5) buf_def, of "[]" ex_peer_address 100 w] by blast
    have "PACKET_canon (has_sock ?c) ?pkt" "feed buf (length d) pos (PACKET_bytes (has_sock ?c) ?pkt @ payload)" using feed fc(2,3) by simp_all
    then obtain r st where "decode_PACKET ?c buf pos = Some (r, ?pkt, st)"
      using decode_PACKET_yields [of buf "length d" pos ?c ?pkt payload] unfolding yields_def by blast
    then have "calm ?b e1 \<and> ev_time v1 = ev_time w"
      using run(1) b(4) t unfolding eq
      by (intro known_peer_calm [where i = 0]) (simp_all add: packet_locals_def run_udp_edge_def frame_packet_def HASH_FIND_def ex_edge_def)
    then show ?thesis using run by (auto simp: calm_def without_tables_def)
  qed
  then show thesis using that d(1,3,4) by auto
qed

lemma run_udp_iteration:
  assumes "38 \<le> length d" "length d \<le> 96" "ev_time v = (\<lambda>_. 100)"
    and "\<And>rest w x. 16 \<le> length rest \<Longrightarrow> ev_time w = (\<lambda>_. 100) \<Longrightarrow>
      \<exists>e1 v1. edge_process_udp [] ex_peer_address 3 (d @ rest) (length d) 100 (run_udp_edge\<lparr>current_supernode_rx_transport := x\<rparr>) w = Some (e1, v1)
        \<and> calm run_udp_edge e1 \<and> ev_tap v1 = ev_tap w @ [ex_frame] \<and> ev_time v1 = ev_time w"
  shows "\<exists>st e' v'. edge_iteration (udp_input d) (edge_rx_init, tm) run_udp_edge v = Some (st, e', v') \<and> calm run_udp_edge e' \<and> ev_tap v' = ev_tap v @ [ex_frame]"
proof -
  let ?rest = "replicate (4098 - length d) (0 :: byte)"
  have r: "16 \<le> length ?rest" and ne: "d \<noteq> []" using assms(1,2) by auto
  obtain e1 v1 where p: "edge_process_udp [] ex_peer_address 3 (d @ ?rest) (length d) 100 (run_udp_edge\<lparr>current_supernode_rx_transport := N2N_RX_SUPERNODE_TRANSPORT_UDP\<rparr>) v = Some (e1, v1)"
    and c: "calm run_udp_edge e1" and v1: "ev_tap v1 = ev_tap v @ [ex_frame]" using assms(4) [OF r assms(3)] by blast
  let ?e = "e1\<lparr>current_supernode_rx_transport := N2N_RX_SUPERNODE_TRANSPORT_NONE\<rparr>" and ?rx = "edge_rx_init\<lparr>rx_buffer := d @ ?rest\<rparr>"
  have ce: "calm run_udp_edge ?e" using c by simp
  note f = calm_fields [OF ce]
  have "\<not> sock_equal (snd (fill_n2nsock ex_peer_address)) (peer_sock (curr_sn_peer run_udp_edge))"
    by (simp add: run_udp_edge_def ex_edge_def ex_conf_def curr_sn_peer_def ex_peer_address_def fill_n2nsock_def zero_sockaddr_def sock_equal_def zero_sock_def overlay_def)
  then have kcp: "n2n_kcp_edge_input ex_peer_address x 100 a run_udp_edge = (0, N2N_KCP_CHANNEL_CTRL, [], run_udp_edge)" for x a
    by (simp add: n2n_kcp_edge_input_def Let_def)
  have socks: "udp_sock run_udp_edge = 3" "active_sock run_udp_edge = 3" "tcp_sock run_udp_edge = -1" "connect_tcp (conf run_udp_edge) = False" "udp_multicast_sock run_udp_edge = 4"
    by (simp_all add: run_udp_edge_def ex_edge_def ex_conf_def)
  have fetch: "fetch_active (udp_input d) edge_rx_init run_udp_edge v = Some (?rx, ?e, v1)"
    using assms(2) ne f(1) run_edges_ok(4)
    by (simp add: fetch_active_def udp_input_def fetch_datagram_def edge_udp_ready_def edge_rx_init_def store_datagram_def kcp socks process_via_def p buffer_after_def split: prod.split)
  have "fetch_datagram (udp_input d) ex_peer_address (udp_multicast_sock ?e) [0, 0, 0] (0, []) ?rx ?e v1 = Some (?rx\<lparr>rx_buffer := [0, 0, 0] @ drop 3 (rx_buffer ?rx)\<rparr>, ?e, v1)"
    using f(2,4,6) run_edges_ok(4) wrong_version_dropped [of ?e 0 "[]"]
    by (simp add: fetch_datagram_def edge_udp_ready_def store_datagram_def socks udp_input_def buffer_after_def wrong_version_dropped numeral_3_eq_3)
  then have m: "(case ei_multicast (udp_input d) of None \<Rightarrow> Some (?rx, ?e, v1)
      | Some (sa, buf) \<Rightarrow> fetch_datagram (udp_input d) sa (udp_multicast_sock ?e) buf (0, []) ?rx ?e v1) = Some (?rx\<lparr>rx_buffer := [0, 0, 0] @ drop 3 (rx_buffer ?rx)\<rparr>, ?e, v1)"
    by (simp add: udp_input_def)
  have "resting (ei_now (udp_input d)) ?e" using f(8) [of 100] run_edges_ok(3) by (simp add: udp_input_def)
  from iteration_at_rest [OF fetch m _ this, of tm] show ?thesis
    using calm_trans [OF ce] v1 by (fastforce simp: udp_input_def)
qed

lemma run_tcp_iterations:
  "\<exists>st e' v'. edge_iterations [tcp_input [0, 1], tcp_input [7]] (edge_rx_init, tm) run_tcp_edge v = Some (st, e', v') \<and> calm run_tcp_edge e' \<and> ev_tap v' = ev_tap v"
proof -
  have socks: "tcp_sock e = 5 \<and> active_sock e = 5 \<and> \<not> edge_encrypted e \<and> resting 100 e" if "calm run_tcp_edge e" for e
    using calm_fields [OF that] run_edges_ok(7,8) by (simp add: run_tcp_edge_def)
  define rx1 where "rx1 = \<lparr>rx_expected = 3, rx_position = 2, rx_buffer = [0, 1] @ replicate 4096 0\<rparr>"
  have 1: "fetch_active (tcp_input [0, 1]) edge_rx_init run_tcp_edge v = Some (rx1, run_tcp_edge, v)"
    using socks [OF calm_refl]
    by (simp add: fetch_active_def tcp_input_def edge_tcp_ready_def edge_rx_init_def edge_recv_size_def wr_def rd_def overlay_def rx1_def be_word_def)
  obtain tm1 e1 v1 where i1: "edge_iteration (tcp_input [0, 1]) (edge_rx_init, tm) run_tcp_edge v = Some ((rx1, tm1), e1, v1)" "calm run_tcp_edge e1" "ev_tap v1 = ev_tap v"
    using iteration_at_rest [OF 1, of rx1 run_tcp_edge v tm] run_edges_ok(7) by (auto simp: tcp_input_def)
  define e2 where "e2 = e1\<lparr>current_supernode_rx_transport := N2N_RX_SUPERNODE_TRANSPORT_NONE\<rparr>"
  have c2: "calm run_tcp_edge e2" using i1(2) by (simp add: e2_def)
  define rx2 where "rx2 = \<lparr>rx_expected = 2, rx_position = 0, rx_buffer = [0, 1, 7] @ replicate 4095 0\<rparr>"
  have 2: "fetch_active (tcp_input [7]) rx1 e1 v1 = Some (rx2, e2, v1)"
    using socks [OF i1(2)]
    by (simp add: fetch_active_def tcp_input_def edge_tcp_ready_def edge_recv_size_def wr_def rd_def overlay_def rx1_def rx2_def e2_def process_via_def
        wrong_version_dropped edge_encrypted_def)
  obtain tm2 e3 v3 where i2: "edge_iteration (tcp_input [7]) (rx1, tm1) e1 v1 = Some ((rx2, tm2), e3, v3)" "calm e2 e3" "ev_tap v3 = ev_tap v1"
    using iteration_at_rest [OF 2, of rx2 e2 v1 tm1] socks [OF c2] by (auto simp: tcp_input_def)
  then show ?thesis using i1 calm_trans [OF c2 i2(2)] by simp
qed


end
