(* ===== verification/AES.thy ===== *)
theory AES
  imports AES_Tables Ciphers
begin

text \<open>
  The block cipher of the AES transform, the plain C implementation of \<^verbatim>\<open>src/aes.c\<close>: key schedules, encryption and decryption of a block with
  tables, and cipher block chaining. Arrays of round keys are lists of the words that are computed.
\<close>

subsection \<open>Bytes of a word\<close>

definition b0 :: "u32 \<Rightarrow> byte" where "b0 x = ucast x"
definition b1 :: "u32 \<Rightarrow> byte" where "b1 x = ucast (drop_bit 8 x)"
definition b2 :: "u32 \<Rightarrow> byte" where "b2 x = ucast (drop_bit 16 x)"
definition b3 :: "u32 \<Rightarrow> byte" where "b3 x = ucast (drop_bit 24 x)"

definition m0 :: "u32 \<Rightarrow> u32" where "m0 x = x AND 0x000000ff"
definition m1 :: "u32 \<Rightarrow> u32" where "m1 x = x AND 0x0000ff00"
definition m2 :: "u32 \<Rightarrow> u32" where "m2 x = x AND 0x00ff0000"
definition m3 :: "u32 \<Rightarrow> u32" where "m3 x = x AND 0xff000000"

subsection \<open>Key schedules\<close>

definition GETU32 :: "bytes \<Rightarrow> nat \<Rightarrow> u32" where
  "GETU32 p i = be_word (take 4 (drop i p))"

definition sub_rot :: "u32 \<Rightarrow> u32" where
  "sub_rot temp = m3 (tab Te4 (b2 temp)) XOR m2 (tab Te4 (b1 temp)) XOR m1 (tab Te4 (b0 temp)) XOR m0 (tab Te4 (b3 temp))"

definition sub_word :: "u32 \<Rightarrow> u32" where
  "sub_word temp = m3 (tab Te4 (b3 temp)) XOR m2 (tab Te4 (b2 temp)) XOR m1 (tab Te4 (b1 temp)) XOR m0 (tab Te4 (b0 temp))"

text \<open>The passes of the three loops; \<open>n\<close> is how many are left, \<open>i\<close> the number of the pass, and the words are those at the pointer.\<close>

primrec expand_128 :: "nat \<Rightarrow> nat \<Rightarrow> u32 \<Rightarrow> u32 \<Rightarrow> u32 \<Rightarrow> u32 \<Rightarrow> u32 list" where
  "expand_128 0 i r0 r1 r2 r3 = []"
| "expand_128 (Suc n) i r0 r1 r2 r3 =
     (let r4 = r0 XOR sub_rot r3 XOR rcon ! i; r5 = r1 XOR r4; r6 = r2 XOR r5; r7 = r3 XOR r6
      in [r4, r5, r6, r7] @ expand_128 n (i + 1) r4 r5 r6 r7)"

primrec expand_192 :: "nat \<Rightarrow> nat \<Rightarrow> u32 \<Rightarrow> u32 \<Rightarrow> u32 \<Rightarrow> u32 \<Rightarrow> u32 \<Rightarrow> u32 \<Rightarrow> u32 list" where
  "expand_192 0 i r0 r1 r2 r3 r4 r5 = []"
| "expand_192 (Suc n) i r0 r1 r2 r3 r4 r5 =
     (let r6 = r0 XOR sub_rot r5 XOR rcon ! i; r7 = r1 XOR r6; r8 = r2 XOR r7; r9 = r3 XOR r8 in
      if n = 0 then [r6, r7, r8, r9]
      else let r10 = r4 XOR r9; r11 = r5 XOR r10 in [r6, r7, r8, r9, r10, r11] @ expand_192 n (i + 1) r6 r7 r8 r9 r10 r11)"

primrec expand_256 :: "nat \<Rightarrow> nat \<Rightarrow> u32 \<Rightarrow> u32 \<Rightarrow> u32 \<Rightarrow> u32 \<Rightarrow> u32 \<Rightarrow> u32 \<Rightarrow> u32 \<Rightarrow> u32 \<Rightarrow> u32 list" where
  "expand_256 0 i r0 r1 r2 r3 r4 r5 r6 r7 = []"
| "expand_256 (Suc n) i r0 r1 r2 r3 r4 r5 r6 r7 =
     (let r8 = r0 XOR sub_rot r7 XOR rcon ! i; r9 = r1 XOR r8; r10 = r2 XOR r9; r11 = r3 XOR r10 in
      if n = 0 then [r8, r9, r10, r11]
      else let r12 = r4 XOR sub_word r11; r13 = r5 XOR r12; r14 = r6 XOR r13; r15 = r7 XOR r14
           in [r8, r9, r10, r11, r12, r13, r14, r15] @ expand_256 n (i + 1) r8 r9 r10 r11 r12 r13 r14 r15)"

text \<open>The number of rounds and the round keys.\<close>

definition aes_internal_key_setup_enc :: "bytes \<Rightarrow> nat \<Rightarrow> nat \<times> u32 list" where
  "aes_internal_key_setup_enc cipherKey keyBits =
     (let k = GETU32 cipherKey in
      if keyBits = 128 then (10, [k 0, k 4, k 8, k 12] @ expand_128 10 0 (k 0) (k 4) (k 8) (k 12))
      else if keyBits = 192 then (12, [k 0, k 4, k 8, k 12, k 16, k 20] @ expand_192 8 0 (k 0) (k 4) (k 8) (k 12) (k 16) (k 20))
      else if keyBits = 256 then
        (14, [k 0, k 4, k 8, k 12, k 16, k 20, k 24, k 28] @ expand_256 7 0 (k 0) (k 4) (k 8) (k 12) (k 16) (k 20) (k 24) (k 28))
      else (0, [k 0, k 4, k 8, k 12, k 16, k 20, k 24, k 28]))"

definition INVMIXCOLRK :: "u32 \<Rightarrow> u32" where
  "INVMIXCOLRK r = tab Td0 (b0 (tab Te4 (b3 r))) XOR tab Td1 (b0 (tab Te4 (b2 r))) XOR tab Td2 (b0 (tab Te4 (b1 r))) XOR tab Td3 (b0 (tab Te4 (b0 r)))"

definition swap_words :: "nat \<Rightarrow> nat \<Rightarrow> u32 list \<Rightarrow> u32 list" where
  "swap_words i j rk = rk[i := rk ! j, j := rk ! i]"

function swap_rounds :: "nat \<Rightarrow> nat \<Rightarrow> u32 list \<Rightarrow> u32 list" where
  "swap_rounds i j rk =
     (if i < j then swap_rounds (i + 4) (j - 4) (swap_words (i + 3) (j + 3) (swap_words (i + 2) (j + 2) (swap_words (i + 1) (j + 1) (swap_words i j rk))))
      else rk)"
  by pat_completeness auto
termination
  by (relation "measure (\<lambda>(i, j, _). j - i)") auto

declare swap_rounds.simps [simp del]

text \<open>All round keys but the first and the last.\<close>

definition invert_columns :: "nat \<Rightarrow> u32 list \<Rightarrow> u32 list" where
  "invert_columns nr rk = take 4 rk @ map INVMIXCOLRK (take (4 * (nr - 1)) (drop 4 rk)) @ drop (4 * nr) rk"

definition aes_internal_key_setup_dec :: "bytes \<Rightarrow> nat \<Rightarrow> nat \<times> u32 list" where
  "aes_internal_key_setup_dec cipherKey keyBits =
     (let (nr, rk) = aes_internal_key_setup_enc cipherKey keyBits in (nr, invert_columns nr (swap_rounds 0 (4 * nr) rk)))"

subsection \<open>Blocks\<close>

type_synonym aes_state = "u32 \<times> u32 \<times> u32 \<times> u32"

fun AES_ENC_ROUND :: "u32 list \<Rightarrow> nat \<Rightarrow> aes_state \<Rightarrow> aes_state" where
  "AES_ENC_ROUND rk r (s0, s1, s2, s3) =
     (tab Te0 (b3 s0) XOR tab Te1 (b2 s1) XOR tab Te2 (b1 s2) XOR tab Te3 (b0 s3) XOR rk ! (4 * r),
      tab Te0 (b3 s1) XOR tab Te1 (b2 s2) XOR tab Te2 (b1 s3) XOR tab Te3 (b0 s0) XOR rk ! (4 * r + 1),
      tab Te0 (b3 s2) XOR tab Te1 (b2 s3) XOR tab Te2 (b1 s0) XOR tab Te3 (b0 s1) XOR rk ! (4 * r + 2),
      tab Te0 (b3 s3) XOR tab Te1 (b2 s0) XOR tab Te2 (b1 s1) XOR tab Te3 (b0 s2) XOR rk ! (4 * r + 3))"

fun AES_DEC_ROUND :: "u32 list \<Rightarrow> nat \<Rightarrow> aes_state \<Rightarrow> aes_state" where
  "AES_DEC_ROUND rk r (s0, s1, s2, s3) =
     (tab Td0 (b3 s0) XOR tab Td1 (b2 s3) XOR tab Td2 (b1 s2) XOR tab Td3 (b0 s1) XOR rk ! (4 * r),
      tab Td0 (b3 s1) XOR tab Td1 (b2 s0) XOR tab Td2 (b1 s3) XOR tab Td3 (b0 s2) XOR rk ! (4 * r + 1),
      tab Td0 (b3 s2) XOR tab Td1 (b2 s1) XOR tab Td2 (b1 s0) XOR tab Td3 (b0 s3) XOR rk ! (4 * r + 2),
      tab Td0 (b3 s3) XOR tab Td1 (b2 s2) XOR tab Td2 (b1 s1) XOR tab Td3 (b0 s0) XOR rk ! (4 * r + 3))"

text \<open>The first step: the block and the first round key; and the rounds but the last one.\<close>

definition add_first_key :: "u32 list \<Rightarrow> bytes \<Rightarrow> aes_state" where
  "add_first_key rk p = (GETU32 p 0 XOR rk ! 0, GETU32 p 4 XOR rk ! 1, GETU32 p 8 XOR rk ! 2, GETU32 p 12 XOR rk ! 3)"

definition rounds :: "(nat \<Rightarrow> aes_state \<Rightarrow> aes_state) \<Rightarrow> nat \<Rightarrow> aes_state \<Rightarrow> aes_state" where
  "rounds f nr s =
     (let t = f 9 (f 8 (f 7 (f 6 (f 5 (f 4 (f 3 (f 2 (f 1 s)))))))) in
      if nr > 10 then
        let t = f 11 (f 10 t) in if nr > 12 then f 13 (f 12 t) else t
      else t)"

fun last_enc_round :: "u32 list \<Rightarrow> nat \<Rightarrow> aes_state \<Rightarrow> aes_state" where
  "last_enc_round rk nr (t0, t1, t2, t3) =
     (m3 (tab Te4 (b3 t0)) XOR m2 (tab Te4 (b2 t1)) XOR m1 (tab Te4 (b1 t2)) XOR m0 (tab Te4 (b0 t3)) XOR rk ! (4 * nr),
      m3 (tab Te4 (b3 t1)) XOR m2 (tab Te4 (b2 t2)) XOR m1 (tab Te4 (b1 t3)) XOR m0 (tab Te4 (b0 t0)) XOR rk ! (4 * nr + 1),
      m3 (tab Te4 (b3 t2)) XOR m2 (tab Te4 (b2 t3)) XOR m1 (tab Te4 (b1 t0)) XOR m0 (tab Te4 (b0 t1)) XOR rk ! (4 * nr + 2),
      m3 (tab Te4 (b3 t3)) XOR m2 (tab Te4 (b2 t0)) XOR m1 (tab Te4 (b1 t1)) XOR m0 (tab Te4 (b0 t2)) XOR rk ! (4 * nr + 3))"

fun last_dec_round :: "u32 list \<Rightarrow> nat \<Rightarrow> aes_state \<Rightarrow> aes_state" where
  "last_dec_round rk nr (t0, t1, t2, t3) =
     (m3 (tab Td4 (b3 t0)) XOR m2 (tab Td4 (b2 t3)) XOR m1 (tab Td4 (b1 t2)) XOR m0 (tab Td4 (b0 t1)) XOR rk ! (4 * nr),
      m3 (tab Td4 (b3 t1)) XOR m2 (tab Td4 (b2 t0)) XOR m1 (tab Td4 (b1 t3)) XOR m0 (tab Td4 (b0 t2)) XOR rk ! (4 * nr + 1),
      m3 (tab Td4 (b3 t2)) XOR m2 (tab Td4 (b2 t1)) XOR m1 (tab Td4 (b1 t0)) XOR m0 (tab Td4 (b0 t3)) XOR rk ! (4 * nr + 2),
      m3 (tab Td4 (b3 t3)) XOR m2 (tab Td4 (b2 t2)) XOR m1 (tab Td4 (b1 t1)) XOR m0 (tab Td4 (b0 t0)) XOR rk ! (4 * nr + 3))"

fun put_state :: "aes_state \<Rightarrow> bytes" where
  "put_state (s0, s1, s2, s3) = be_bytes 4 s0 @ be_bytes 4 s1 @ be_bytes 4 s2 @ be_bytes 4 s3"

definition aes_internal_encrypt :: "u32 list \<Rightarrow> nat \<Rightarrow> bytes \<Rightarrow> bytes" where
  "aes_internal_encrypt rk nr pt = put_state (last_enc_round rk nr (rounds (AES_ENC_ROUND rk) nr (add_first_key rk pt)))"

definition aes_internal_decrypt :: "u32 list \<Rightarrow> nat \<Rightarrow> bytes \<Rightarrow> bytes" where
  "aes_internal_decrypt rk nr ct = put_state (last_dec_round rk nr (rounds (AES_DEC_ROUND rk) nr (add_first_key rk ct)))"

subsection \<open>Interface\<close>

abbreviation AES_BLOCK_SIZE :: nat where "AES_BLOCK_SIZE \<equiv> 16"
abbreviation AES128_KEY_BYTES :: nat where "AES128_KEY_BYTES \<equiv> 16"
abbreviation AES192_KEY_BYTES :: nat where "AES192_KEY_BYTES \<equiv> 24"
abbreviation AES256_KEY_BYTES :: nat where "AES256_KEY_BYTES \<equiv> 32"

record aes_context =
  enc_rk :: "u32 list"
  dec_rk :: "u32 list"
  Nr :: nat

text \<open>The context is absent for a key of another size.\<close>

definition aes_init :: "bytes \<Rightarrow> nat \<Rightarrow> aes_context option" where
  "aes_init key key_size =
     (if key_size = AES128_KEY_BYTES \<or> key_size = AES192_KEY_BYTES \<or> key_size = AES256_KEY_BYTES then
        let (nr, enc) = aes_internal_key_setup_enc key (8 * key_size)
        in Some \<lparr>enc_rk = enc, dec_rk = snd (aes_internal_key_setup_dec key (8 * key_size)), Nr = nr\<rparr>
      else None)"

definition aes_ecb_decrypt :: "aes_context \<Rightarrow> bytes \<Rightarrow> nat \<times> bytes" where
  "aes_ecb_decrypt ctx inp = (AES_BLOCK_SIZE, aes_internal_decrypt (dec_rk ctx) (Nr ctx) inp)"

definition aes_ecb_encrypt :: "aes_context \<Rightarrow> bytes \<Rightarrow> nat \<times> bytes" where
  "aes_ecb_encrypt ctx inp = (AES_BLOCK_SIZE, aes_internal_encrypt (enc_rk ctx) (Nr ctx) inp)"

text \<open>The chaining: \<open>tmp\<close> is the previous block of cipher text.\<close>

fun aes_cbc_encrypt_loop :: "aes_context \<Rightarrow> nat \<Rightarrow> bytes \<Rightarrow> bytes \<Rightarrow> bytes" where
  "aes_cbc_encrypt_loop ctx 0 tmp inp = []"
| "aes_cbc_encrypt_loop ctx (Suc n) tmp inp =
     (let tmp = map2 (XOR) tmp (take AES_BLOCK_SIZE inp); tmp = aes_internal_encrypt (enc_rk ctx) (Nr ctx) tmp
      in tmp @ aes_cbc_encrypt_loop ctx n tmp (drop AES_BLOCK_SIZE inp))"

definition aes_cbc_encrypt :: "aes_context \<Rightarrow> bytes \<Rightarrow> bytes \<Rightarrow> nat \<times> bytes" where
  "aes_cbc_encrypt ctx iv inp = (let n = length inp div AES_BLOCK_SIZE in (n * AES_BLOCK_SIZE, aes_cbc_encrypt_loop ctx n iv inp))"

text \<open>
  The decryption in a buffer; input and output may be the same buffer, which is why the block is saved first. The block at index \<open>i\<close> is decrypted into the
  output; \<open>shared\<close> tells that the input is the output.
\<close>

primrec aes_cbc_decrypt_loop :: "aes_context \<Rightarrow> bool \<Rightarrow> nat \<Rightarrow> nat \<Rightarrow> bytes \<Rightarrow> bytes \<times> bytes \<Rightarrow> bytes \<times> bytes" where
  "aes_cbc_decrypt_loop ctx shared 0 i tmp bufs = bufs"
| "aes_cbc_decrypt_loop ctx shared (Suc n) i tmp bufs =
     (let (inp, out) = bufs;
          old = take AES_BLOCK_SIZE (drop (i * AES_BLOCK_SIZE) inp);
          out = overlay out (i * AES_BLOCK_SIZE) (map2 (XOR) (aes_internal_decrypt (dec_rk ctx) (Nr ctx) old) tmp)
      in aes_cbc_decrypt_loop ctx shared n (i + 1) old (if shared then out else inp, out))"

definition aes_cbc_decrypt :: "aes_context \<Rightarrow> bool \<Rightarrow> nat \<Rightarrow> bytes \<Rightarrow> bytes \<times> bytes \<Rightarrow> nat \<times> bytes \<times> bytes" where
  "aes_cbc_decrypt ctx shared in_len iv bufs =
     (let n = in_len div AES_BLOCK_SIZE in (n * AES_BLOCK_SIZE, aes_cbc_decrypt_loop ctx shared n 0 iv bufs))"


subsection \<open>The substitution boxes\<close>

definition Sbox :: "byte \<Rightarrow> byte" where "Sbox x = b0 (tab Te4 x)"
definition ISbox :: "byte \<Rightarrow> byte" where "ISbox x = b0 (tab Td4 x)"

lemma byte_index: "unat (x :: byte) < 256"
  using unsigned_less [of x, where ?'a = nat] by simp

lemma tab_lin:
  assumes "list_all2 (\<lambda>t s. t = lin c0 c1 c2 c3 c4 c5 c6 c7 s) t box" "length t = 256"
  shows "tab t x = lin c0 c1 c2 c3 c4 c5 c6 c7 (b0 (tab box x))"
  using list_all2_nthD [OF assms(1), of "unat x"] assms(2) byte_index [of x] by (simp add: tab_def b0_def lin_ucast)

lemma Te_lin: "tab Te0 x = E0 (Sbox x)" "tab Te1 x = E1 (Sbox x)" "tab Te2 x = E2 (Sbox x)" "tab Te3 x = E3 (Sbox x)"
  unfolding Sbox_def E0_def E1_def E2_def E3_def by (rule tab_lin [OF Te0_check] tab_lin [OF Te1_check] tab_lin [OF Te2_check] tab_lin [OF Te3_check], simp add: length_tables)+

lemma Td_lin: "tab Td0 x = D0 (ISbox x)" "tab Td1 x = D1 (ISbox x)" "tab Td2 x = D2 (ISbox x)" "tab Td3 x = D3 (ISbox x)"
  unfolding ISbox_def D0_def D1_def D2_def D3_def by (rule tab_lin [OF Td0_check] tab_lin [OF Td1_check] tab_lin [OF Td2_check] tab_lin [OF Td3_check], simp add: length_tables)+

lemma ISbox_Sbox: "ISbox (Sbox x) = x"
proof -
  have "unat x < length Te4" using byte_index by (simp add: length_tables)
  then have "(unat x, Te4 ! unat x) \<in> set (enumerate 0 Te4)" by (simp add: in_set_enumerate_eq)
  then show ?thesis using inverse_check by (auto simp: list_all_iff ISbox_def Sbox_def tab_def b0_def)
qed

text \<open>The boxes have four copies of each entry.\<close>

lemma copies:
  "m0 (tab Te4 x) = ucast (Sbox x)" "m1 (tab Te4 x) = push_bit 8 (ucast (Sbox x))" "m2 (tab Te4 x) = push_bit 16 (ucast (Sbox x))" "m3 (tab Te4 x) = push_bit 24 (ucast (Sbox x))"
  "m0 (tab Td4 x) = ucast (ISbox x)" "m1 (tab Td4 x) = push_bit 8 (ucast (ISbox x))" "m2 (tab Td4 x) = push_bit 16 (ucast (ISbox x))" "m3 (tab Td4 x) = push_bit 24 (ucast (ISbox x))"
proof -
  have m: "mask 8 = (0xff :: u32)" by (simp add: mask_eq_exp_minus_1)
  have u: "ucast (b0 s) = s AND 0xff" for s unfolding m [symmetric] by (simp add: b0_def unsigned_ucast_eq take_bit_eq_mask)
  have "Te4 ! unat x \<in> set Te4" "Td4 ! unat x \<in> set Td4" using byte_index [of x] by (simp_all add: length_tables)
  then show "m0 (tab Te4 x) = ucast (Sbox x)" "m1 (tab Te4 x) = push_bit 8 (ucast (Sbox x))" "m2 (tab Te4 x) = push_bit 16 (ucast (Sbox x))" "m3 (tab Te4 x) = push_bit 24 (ucast (Sbox x))"
    "m0 (tab Td4 x) = ucast (ISbox x)" "m1 (tab Td4 x) = push_bit 8 (ucast (ISbox x))" "m2 (tab Td4 x) = push_bit 16 (ucast (ISbox x))" "m3 (tab Td4 x) = push_bit 24 (ucast (ISbox x))"
    using box_check by (simp_all add: list_all_iff m0_def m1_def m2_def m3_def Sbox_def ISbox_def u tab_def)
qed

subsection \<open>Columns\<close>

definition col :: "byte \<Rightarrow> byte \<Rightarrow> byte \<Rightarrow> byte \<Rightarrow> u32" where
  "col x3 x2 x1 x0 = push_bit 24 (ucast x3) XOR push_bit 16 (ucast x2) XOR push_bit 8 (ucast x1) XOR ucast x0"

lemma byte_bit: "8 \<le> n \<Longrightarrow> \<not> bit (x :: byte) n"
  using bit_imp_le_length [of x n] by auto

lemma col_bytes [simp]: "b3 (col x3 x2 x1 x0) = x3" "b2 (col x3 x2 x1 x0) = x2" "b1 (col x3 x2 x1 x0) = x1" "b0 (col x3 x2 x1 x0) = x0"
  by (rule bit_eqI, auto simp: col_def b3_def b2_def b1_def b0_def bit_simps byte_bit)+

lemma col_of_bytes: "col (b3 w) (b2 w) (b1 w) (b0 w) = w"
proof (rule bit_eqI)
  fix n :: nat
  consider "n < 8" | "8 \<le> n" "n < 16" | "16 \<le> n" "n < 24" | "24 \<le> n" by linarith
  then show "bit (col (b3 w) (b2 w) (b1 w) (b0 w)) n = bit w n"
    by cases (auto simp: col_def b3_def b2_def b1_def b0_def bit_simps byte_bit dest: bit_imp_le_length)
qed

lemma bytes_xor: "b3 (v XOR w) = b3 v XOR b3 w" "b2 (v XOR w) = b2 v XOR b2 w" "b1 (v XOR w) = b1 v XOR b1 w" "b0 (v XOR w) = b0 v XOR b0 w"
  by (rule bit_eqI; auto simp: b3_def b2_def b1_def b0_def bit_simps)+

text \<open>Multiplication of a column with the matrix of the cipher and with its inverse.\<close>

definition MixColumn :: "u32 \<Rightarrow> u32" where
  "MixColumn w = E0 (b3 w) XOR E1 (b2 w) XOR E2 (b1 w) XOR E3 (b0 w)"

definition InvMixColumn :: "u32 \<Rightarrow> u32" where
  "InvMixColumn w = D0 (b3 w) XOR D1 (b2 w) XOR D2 (b1 w) XOR D3 (b0 w)"

lemma D_xor: "D0 (x XOR y) = D0 x XOR D0 y" "D1 (x XOR y) = D1 x XOR D1 y" "D2 (x XOR y) = D2 x XOR D2 y" "D3 (x XOR y) = D3 x XOR D3 y"
  unfolding D0_def D1_def D2_def D3_def by (rule lin_xor)+

lemma InvMixColumn_xor: "InvMixColumn (v XOR w) = InvMixColumn v XOR InvMixColumn w"
  by (simp add: InvMixColumn_def bytes_xor D_xor ac_simps)

lemma InvMixColumn_lin:
  "InvMixColumn (lin c0 c1 c2 c3 c4 c5 c6 c7 x) = lin (InvMixColumn c0) (InvMixColumn c1) (InvMixColumn c2) (InvMixColumn c3)
     (InvMixColumn c4) (InvMixColumn c5) (InvMixColumn c6) (InvMixColumn c7) x"
proof -
  have z: "InvMixColumn 0 = 0" using InvMixColumn_xor [of 0 0] by simp
  show ?thesis unfolding lin_def InvMixColumn_xor by (auto simp: z)
qed


lemma lin_place: "lin (push_bit k 1) (push_bit k 2) (push_bit k 4) (push_bit k 8) (push_bit k 16) (push_bit k 32) (push_bit k 64) (push_bit k 128) (x :: byte)
    = push_bit k (ucast x)"
proof -
  have "lin 1 2 4 8 16 32 64 128 x = ucast x"
  proof (rule bit_eqI)
    fix n :: nat
    have q: "bit (2 ^ k :: u32) n = (n = k)" if "k < 8" for k using that by (auto simp: bit_exp_iff)
    have p: "bit (1 :: u32) n = (n = 0)" "bit (2 :: u32) n = (n = 1)" "bit (4 :: u32) n = (n = 2)" "bit (8 :: u32) n = (n = 3)" "bit (16 :: u32) n = (n = 4)"
      "bit (32 :: u32) n = (n = 5)" "bit (64 :: u32) n = (n = 6)" "bit (128 :: u32) n = (n = 7)"
      using q [of 0] q [of 1] q [of 2] q [of 3] q [of 4] q [of 5] q [of 6] q [of 7] by simp_all
    have f: "bit (if c then a else 0) n = (c \<and> bit (a :: u32) n)" for c a by simp
    consider "n = 0" | "n = 1" | "n = 2" | "n = 3" | "n = 4" | "n = 5" | "n = 6" | "n = 7" | "8 \<le> n" by linarith
    then show "bit (lin 1 2 4 8 16 32 64 128 x) n = bit (ucast x :: u32) n"
      unfolding lin_def bit_xor_iff f p by cases (simp_all add: bit_ucast_iff byte_bit)
  qed
  then have "push_bit k (lin 1 2 4 8 16 32 64 128 x) = push_bit k (ucast x)" by simp
  then show ?thesis by (simp add: lin_def push_bit_xor if_distrib [of "push_bit k"] cong: if_cong)
qed

lemma InvMixColumn_E: "InvMixColumn (E0 x) = push_bit 24 (ucast x)" "InvMixColumn (E1 x) = push_bit 16 (ucast x)"
  "InvMixColumn (E2 x) = push_bit 8 (ucast x)" "InvMixColumn (E3 x) = ucast x"
  unfolding E0_def E1_def E2_def E3_def InvMixColumn_lin lin_place [symmetric] lin_place [of 0, simplified, symmetric]
  by (simp_all add: InvMixColumn_def D0_def D1_def D2_def D3_def lin_def b3_def b2_def b1_def b0_def drop_bit_eq_div push_bit_eq_mult)


lemma InvMixColumn_MixColumn: "InvMixColumn (MixColumn w) = w"
  using col_of_bytes [of w] by (simp add: MixColumn_def InvMixColumn_xor InvMixColumn_E col_def)

lemma INVMIXCOLRK_eq: "INVMIXCOLRK r = InvMixColumn r"
  by (simp add: INVMIXCOLRK_def InvMixColumn_def Td_lin Sbox_def [symmetric] ISbox_Sbox)

subsection \<open>Rounds\<close>

text \<open>The substitution of all bytes and the shift of the rows.\<close>

fun ShiftSub :: "aes_state \<Rightarrow> aes_state" where
  "ShiftSub (s0, s1, s2, s3) =
     (col (Sbox (b3 s0)) (Sbox (b2 s1)) (Sbox (b1 s2)) (Sbox (b0 s3)), col (Sbox (b3 s1)) (Sbox (b2 s2)) (Sbox (b1 s3)) (Sbox (b0 s0)),
      col (Sbox (b3 s2)) (Sbox (b2 s3)) (Sbox (b1 s0)) (Sbox (b0 s1)), col (Sbox (b3 s3)) (Sbox (b2 s0)) (Sbox (b1 s1)) (Sbox (b0 s2)))"

fun columns :: "(u32 \<Rightarrow> u32) \<Rightarrow> aes_state \<Rightarrow> aes_state" where
  "columns f (s0, s1, s2, s3) = (f s0, f s1, f s2, f s3)"

fun add_key :: "aes_state \<Rightarrow> aes_state \<Rightarrow> aes_state" where
  "add_key (k0, k1, k2, k3) (s0, s1, s2, s3) = (s0 XOR k0, s1 XOR k1, s2 XOR k2, s3 XOR k3)"

definition round_key :: "u32 list \<Rightarrow> nat \<Rightarrow> aes_state" where
  "round_key rk r = (rk ! (4 * r), rk ! (4 * r + 1), rk ! (4 * r + 2), rk ! (4 * r + 3))"

lemma enc_round_eq: "AES_ENC_ROUND rk r s = add_key (round_key rk r) (columns MixColumn (ShiftSub s))"
  by (cases s) (simp add: round_key_def MixColumn_def Te_lin xor.assoc)

lemma last_enc_round_eq: "last_enc_round rk nr s = add_key (round_key rk nr) (ShiftSub s)"
  by (cases s) (simp add: round_key_def col_def copies xor.assoc)

lemma dec_round_eq: "AES_DEC_ROUND rk r (ShiftSub s) = add_key (round_key rk r) (columns InvMixColumn s)"
  by (cases s) (simp add: round_key_def InvMixColumn_def Td_lin ISbox_Sbox xor.assoc)

lemma col_key: "push_bit 24 (ucast (b3 w)) XOR push_bit 16 (ucast (b2 w)) XOR push_bit 8 (ucast (b1 w)) XOR ucast (b0 w) XOR y = w XOR y"
  using arg_cong [OF col_of_bytes [of w], of "\<lambda>x. x XOR y"] by (simp add: col_def xor.assoc)

lemma last_dec_round_eq: "last_dec_round rk nr (ShiftSub s) = add_key (round_key rk nr) s"
  by (cases s) (simp add: round_key_def copies ISbox_Sbox col_key)

lemma add_key_twice: "add_key k (add_key k s) = s"
  by (cases s; cases k) (simp add: xor_cancel)

lemma columns_inverse: "columns InvMixColumn (add_key k (columns MixColumn s)) = add_key (columns InvMixColumn k) s"
  by (cases s; cases k) (simp add: InvMixColumn_xor InvMixColumn_MixColumn)

primrec iterate_rounds :: "(nat \<Rightarrow> aes_state \<Rightarrow> aes_state) \<Rightarrow> nat \<Rightarrow> aes_state \<Rightarrow> aes_state" where
  "iterate_rounds f 0 s = s"
| "iterate_rounds f (Suc k) s = f (Suc k) (iterate_rounds f k s)"

lemma rounds_iterate: "nr \<in> {10, 12, 14} \<Longrightarrow> rounds f nr s = iterate_rounds f (nr - 1) s"
  by (auto simp: rounds_def Let_def eval_nat_numeral)

text \<open>The keys of the decryption are those of the encryption in reverse order, with inverted columns but for the first and the last one.\<close>

definition inverse_keys :: "nat \<Rightarrow> u32 list \<Rightarrow> u32 list \<Rightarrow> bool" where
  "inverse_keys nr ek dk \<longleftrightarrow> round_key dk 0 = round_key ek nr \<and> round_key dk nr = round_key ek 0
     \<and> (\<forall>r. 0 < r \<longrightarrow> r < nr \<longrightarrow> round_key dk r = columns InvMixColumn (round_key ek (nr - r)))"

lemma unwind_rounds:
  assumes "inverse_keys nr ek dk" "k < nr"
  shows "iterate_rounds (AES_DEC_ROUND dk) k (ShiftSub (iterate_rounds (AES_ENC_ROUND ek) (nr - 1) s)) = ShiftSub (iterate_rounds (AES_ENC_ROUND ek) (nr - 1 - k) s)"
  using assms(2)
proof (induction k)
  case (Suc k)
  define j where "j = nr - 1 - Suc k"
  have j: "nr - 1 - k = Suc j" "nr - Suc k = Suc j" "nr - Suc (Suc k) = j" using Suc.prems by (simp_all add: j_def)
  have "round_key dk (Suc k) = columns InvMixColumn (round_key ek (Suc j))" using assms(1) Suc.prems j(2) by (auto simp: inverse_keys_def)
  then show ?case using Suc j(1,3) by (simp add: dec_round_eq enc_round_eq columns_inverse add_key_twice)
qed simp

lemma GETU32_put: "add_first_key rk (put_state s) = add_key (round_key rk 0) s"
  by (cases s) (simp add: add_first_key_def GETU32_def round_key_def be_word_be_bytes numeral_2_eq_2)

lemma put_GETU32:
  assumes "length p = 16"
  shows "put_state (GETU32 p 0, GETU32 p 4, GETU32 p 8, GETU32 p 12) = p"
proof -
  have "be_bytes 4 (GETU32 p i) = take 4 (drop i p)" if "i \<le> 12" for i
    using that assms unfolding GETU32_def by (intro be_bytes_be_word) simp_all
  moreover have "take 4 p @ take 4 (drop 4 p) @ take 4 (drop 8 p) @ take 4 (drop 12 p) = p"
    using assms append_take_drop_id [of 4 p] append_take_drop_id [of 4 "drop 4 p"] append_take_drop_id [of 4 "drop 8 p"] by simp
  ultimately show ?thesis by simp
qed

lemma length_put_state [simp]: "length (put_state s) = 16"
  by (cases s) simp

lemma aes_block_inverse:
  assumes "inverse_keys nr ek dk" "nr \<in> {10, 12, 14}" "length p = 16"
  shows "aes_internal_decrypt dk nr (aes_internal_encrypt ek nr p) = p"
proof -
  define s where "s = add_first_key ek p"
  define t where "t = iterate_rounds (AES_ENC_ROUND ek) (nr - 1) s"
  have e: "aes_internal_encrypt ek nr p = put_state (add_key (round_key ek nr) (ShiftSub t))"
    by (simp add: aes_internal_encrypt_def rounds_iterate [OF assms(2)] last_enc_round_eq t_def s_def)
  have "add_first_key dk (aes_internal_encrypt ek nr p) = ShiftSub t"
    using assms(1) by (simp add: e GETU32_put inverse_keys_def add_key_twice)
  moreover have "iterate_rounds (AES_DEC_ROUND dk) (nr - 1) (ShiftSub t) = ShiftSub s"
    using unwind_rounds [OF assms(1), of "nr - 1" s] assms(2) by (auto simp: t_def)
  moreover have "add_key (round_key dk nr) s = (GETU32 p 0, GETU32 p 4, GETU32 p 8, GETU32 p 12)"
    using assms(1) by (simp add: inverse_keys_def s_def add_first_key_def round_key_def xor_cancel numeral_2_eq_2)
  ultimately show ?thesis
    using put_GETU32 [OF assms(3)] by (simp add: aes_internal_decrypt_def rounds_iterate [OF assms(2)] last_dec_round_eq)
qed


subsection \<open>Key schedules\<close>

lemma length_expand: "length (expand_128 n i r0 r1 r2 r3) = 4 * n" "0 < n \<Longrightarrow> length (expand_192 n i r0 r1 r2 r3 r4 r5) = 6 * n - 2"
  "0 < n \<Longrightarrow> length (expand_256 n i r0 r1 r2 r3 r4 r5 r6 r7) = 8 * n - 4"
proof -
  show "length (expand_128 n i r0 r1 r2 r3) = 4 * n" by (induction n arbitrary: i r0 r1 r2 r3) (simp_all add: Let_def)
  show "length (expand_192 n i r0 r1 r2 r3 r4 r5) = 6 * n - 2" if "0 < n"
    using that by (induction n arbitrary: i r0 r1 r2 r3 r4 r5) (auto simp: Let_def)
  show "length (expand_256 n i r0 r1 r2 r3 r4 r5 r6 r7) = 8 * n - 4" if "0 < n"
    using that by (induction n arbitrary: i r0 r1 r2 r3 r4 r5 r6 r7) (auto simp: Let_def)
qed

lemma key_setup_enc:
  assumes "key_size \<in> {16, 24, 32}" "aes_internal_key_setup_enc key (8 * key_size) = (nr, rk)"
  shows "nr \<in> {10, 12, 14}" "length rk = 4 * (nr + 1)"
  using assms by (auto simp: aes_internal_key_setup_enc_def Let_def length_expand)

text \<open>The order of the round keys is inverted.\<close>

lemma nth_swap_words: "i < length rk \<Longrightarrow> j < length rk \<Longrightarrow> swap_words i j rk ! k = (if k = i then rk ! j else if k = j then rk ! i else rk ! k)"
  by (auto simp: swap_words_def nth_list_update)

lemma length_swap [simp]: "length (swap_words i j rk) = length rk" "length (swap_rounds i j rk) = length rk"
proof -
  show [simp]: "length (swap_words i j rk) = length rk" for i j rk by (simp add: swap_words_def)
  show "length (swap_rounds i j rk) = length rk"
    by (induction i j rk rule: swap_rounds.induct) (subst swap_rounds.simps, simp)
qed

lemma round_key_swap:
  assumes "4 * a + 3 < length rk" "4 * b + 3 < length rk" "a \<noteq> b"
  shows "round_key (swap_words (4 * a + 3) (4 * b + 3) (swap_words (4 * a + 2) (4 * b + 2) (swap_words (4 * a + 1) (4 * b + 1) (swap_words (4 * a) (4 * b) rk)))) r
    = (if r = a then round_key rk b else if r = b then round_key rk a else round_key rk r)"
proof -
  define rk' where "rk' = swap_words (4 * a + 3) (4 * b + 3) (swap_words (4 * a + 2) (4 * b + 2) (swap_words (4 * a + 1) (4 * b + 1) (swap_words (4 * a) (4 * b) rk)))"
  have e: "4 * x + c = 4 * y + d \<longleftrightarrow> x = y \<and> c = d" if "c < 4" "d < 4" for x y c d :: nat using that by presburger
  have "rk' ! (4 * r + c) = (if r = a then rk ! (4 * b + c) else if r = b then rk ! (4 * a + c) else rk ! (4 * r + c))" if c: "c < 4" for c
  proof -
    have "c = 0 \<or> c = 1 \<or> c = 2 \<or> c = 3" using c by linarith
    then show ?thesis
      using assms e [OF c, of 0, simplified] e [OF c, of 1] e [OF c, of 2] e [OF c, of 3] unfolding rk'_def by (auto simp: nth_swap_words)
  qed
  from this [of 0] this [of 1] this [of 2] this [of 3] show ?thesis unfolding rk'_def [symmetric] by (simp add: round_key_def)
qed

lemma swap_rounds_reverse:
  assumes "a + b = nr" "length rk = 4 * (nr + 1)"
  shows "round_key (swap_rounds (4 * a) (4 * b) rk) r = (if a \<le> r \<and> r \<le> b then round_key rk (nr - r) else round_key rk r)"
  using assms
proof (induction "b - a" arbitrary: a b rk rule: less_induct)
  case less
  show ?case
  proof (cases "a < b")
    case True
    define rk' where "rk' = swap_words (4 * a + 3) (4 * b + 3) (swap_words (4 * a + 2) (4 * b + 2) (swap_words (4 * a + 1) (4 * b + 1) (swap_words (4 * a) (4 * b) rk)))"
    have l: "length rk' = 4 * (nr + 1)" using less.prems by (simp add: rk'_def)
    have b: "4 * b - 4 = 4 * (b - 1)" "4 * a + 4 = 4 * (a + 1)" using True by simp_all
    have s: "swap_rounds (4 * a) (4 * b) rk = swap_rounds (4 * (a + 1)) (4 * (b - 1)) rk'"
      using True by (subst swap_rounds.simps) (simp add: rk'_def b)
    have k: "round_key rk' r = (if r = a then round_key rk b else if r = b then round_key rk a else round_key rk r)" for r
      unfolding rk'_def using less.prems True by (intro round_key_swap) simp_all
    have "round_key (swap_rounds (4 * (a + 1)) (4 * (b - 1)) rk') r = (if a + 1 \<le> r \<and> r \<le> b - 1 then round_key rk' (nr - r) else round_key rk' r)"
      using less.hyps [of "b - 1" "a + 1" rk'] less.prems l True by simp
    then show ?thesis unfolding s k using less.prems True by (auto simp: le_less_Suc_eq)
  next
    case False
    then have "swap_rounds (4 * a) (4 * b) rk = rk" by (subst swap_rounds.simps) simp
    moreover have "r = nr - r" if "a \<le> r" "r \<le> b" using that False less.prems by simp
    ultimately show ?thesis by auto
  qed
qed

lemma round_key_invert:
  assumes "length rk = 4 * (nr + 1)" "0 < nr" "r \<le> nr"
  shows "round_key (invert_columns nr rk) r = (if 0 < r \<and> r < nr then columns InvMixColumn (round_key rk r) else round_key rk r)"
proof -
  have n: "invert_columns nr rk ! i = (if 4 \<le> i \<and> i < 4 * nr then InvMixColumn (rk ! i) else rk ! i)" if "i < 4 * (nr + 1)" for i
    using that assms(1,2) by (cases nr) (auto simp: invert_columns_def nth_append INVMIXCOLRK_eq min_def)
  show ?thesis using assms n by (auto simp: round_key_def)
qed

lemma key_setup_inverse:
  assumes "key_size \<in> {16, 24, 32}" "aes_internal_key_setup_enc key (8 * key_size) = (nr, rk)"
  shows "inverse_keys nr rk (snd (aes_internal_key_setup_dec key (8 * key_size)))"
proof -
  note nr = key_setup_enc [OF assms]
  have s: "round_key (swap_rounds 0 (4 * nr) rk) r = round_key rk (nr - r)" if "r \<le> nr" for r
    using swap_rounds_reverse [of 0 nr nr rk r] nr(2) that by simp
  have "round_key (invert_columns nr (swap_rounds 0 (4 * nr) rk)) r =
      (if 0 < r \<and> r < nr then columns InvMixColumn (round_key rk (nr - r)) else round_key rk (nr - r))" if "r \<le> nr" for r
    using round_key_invert [of "swap_rounds 0 (4 * nr) rk" nr r] nr that s [OF that] by auto
  then show ?thesis using nr(1) by (simp add: inverse_keys_def aes_internal_key_setup_dec_def assms(2))
qed


text \<open>What the context of a key holds; decryption of a block inverts encryption.\<close>

lemma aes_init_context:
  assumes "aes_init key key_size = Some ctx"
  shows "key_size \<in> {16, 24, 32}" and "aes_internal_key_setup_enc key (8 * key_size) = (Nr ctx, enc_rk ctx)"
    and "inverse_keys (Nr ctx) (enc_rk ctx) (dec_rk ctx)" and "Nr ctx \<in> {10, 12, 14}"
proof -
  show k: "key_size \<in> {16, 24, 32}" using assms by (auto simp: aes_init_def split: if_splits)
  show e: "aes_internal_key_setup_enc key (8 * key_size) = (Nr ctx, enc_rk ctx)"
    using assms by (auto simp: aes_init_def split: if_splits prod.splits)
  have "dec_rk ctx = snd (aes_internal_key_setup_dec key (8 * key_size))"
    using assms by (auto simp: aes_init_def split: if_splits prod.splits)
  then show "inverse_keys (Nr ctx) (enc_rk ctx) (dec_rk ctx)" using key_setup_inverse [OF k e] by simp
  show "Nr ctx \<in> {10, 12, 14}" by (rule key_setup_enc(1) [OF k e])
qed

lemma aes_context_inverse:
  assumes "aes_init key key_size = Some ctx" "length p = 16"
  shows "aes_internal_decrypt (dec_rk ctx) (Nr ctx) (aes_internal_encrypt (enc_rk ctx) (Nr ctx) p) = p"
  by (rule aes_block_inverse [OF aes_init_context(3,4) [OF assms(1)] assms(2)])

lemma aes_init_total: "key_size \<in> {16, 24, 32} \<Longrightarrow> \<exists>ctx. aes_init key key_size = Some ctx"
  by (auto simp: aes_init_def Let_def split: prod.splits)

end
