(* ===== verification/AES_Standard.thy ===== *)
theory AES_Standard
  imports AES
begin

text \<open>
  The standard that the table-driven cipher of \<^verbatim>\<open>src/aes.c\<close> implements, FIPS 197: the substitution box by inversion in the field of 256 elements, the
  steps of a round on the bytes of the state, the key expansion by its recursion on words of four bytes.
\<close>

subsection \<open>The field\<close>

definition xtime :: "byte \<Rightarrow> byte" where
  "xtime a = push_bit 1 a XOR (if bit a 7 then 0x1b else 0)"

text \<open>The product: the sum of \<open>a\<close> multiplied with the powers that \<open>b\<close> has.\<close>

primrec gmul_bits :: "nat \<Rightarrow> byte \<Rightarrow> byte \<Rightarrow> byte" where
  "gmul_bits 0 a b = 0"
| "gmul_bits (Suc n) a b = (if bit b 0 then a else 0) XOR gmul_bits n (xtime a) (drop_bit 1 b)"

definition gmul :: "byte \<Rightarrow> byte \<Rightarrow> byte" where
  "gmul a b = gmul_bits 8 a b"

definition rotate_byte :: "nat \<Rightarrow> byte \<Rightarrow> byte" where
  "rotate_byte k b = push_bit k b XOR drop_bit (8 - k) b"

definition affine :: "byte \<Rightarrow> byte" where
  "affine b = b XOR rotate_byte 1 b XOR rotate_byte 2 b XOR rotate_byte 3 b XOR rotate_byte 4 b XOR 0x63"

text \<open>The substitution: the affine image of the inverse, where zero is its own inverse.\<close>

definition is_SBox :: "(byte \<Rightarrow> byte) \<Rightarrow> bool" where
  "is_SBox S \<longleftrightarrow> S 0 = affine 0 \<and> (\<forall>x. x \<noteq> 0 \<longrightarrow> (\<exists>y. gmul x y = 1 \<and> S x = affine y))"

subsection \<open>Key expansion\<close>

definition RotWord :: "bytes \<Rightarrow> bytes" where
  "RotWord w = [w ! 1, w ! 2, w ! 3, w ! 0]"

primrec xpower :: "nat \<Rightarrow> byte" where
  "xpower 0 = 1"
| "xpower (Suc n) = xtime (xpower n)"

definition Rcon :: "nat \<Rightarrow> bytes" where
  "Rcon j = [xpower (j - 1), 0, 0, 0]"

text \<open>Word \<open>i\<close> of the schedule for a key of \<open>nk\<close> words.\<close>

fun KeyExpansion :: "(byte \<Rightarrow> byte) \<Rightarrow> bytes \<Rightarrow> nat \<Rightarrow> nat \<Rightarrow> bytes" where
  "KeyExpansion S key nk i =
     (if i < nk \<or> nk = 0 then take 4 (drop (4 * i) key)
      else map2 (XOR) (KeyExpansion S key nk (i - nk))
        (if i mod nk = 0 then map2 (XOR) (map S (RotWord (KeyExpansion S key nk (i - 1)))) (Rcon (i div nk))
         else if nk > 6 \<and> i mod nk = 4 then map S (KeyExpansion S key nk (i - 1))
         else KeyExpansion S key nk (i - 1)))"

declare KeyExpansion.simps [simp del]

subsection \<open>The cipher\<close>

text \<open>The state is a block of sixteen bytes, column by column.\<close>

definition ShiftRows :: "bytes \<Rightarrow> bytes" where
  "ShiftRows s = [s ! 0, s ! 5, s ! 10, s ! 15, s ! 4, s ! 9, s ! 14, s ! 3, s ! 8, s ! 13, s ! 2, s ! 7, s ! 12, s ! 1, s ! 6, s ! 11]"

definition mix :: "byte \<Rightarrow> byte \<Rightarrow> byte \<Rightarrow> byte \<Rightarrow> bytes" where
  "mix a b c d = [gmul a 2 XOR gmul b 3 XOR c XOR d, a XOR gmul b 2 XOR gmul c 3 XOR d, a XOR b XOR gmul c 2 XOR gmul d 3, gmul a 3 XOR b XOR c XOR gmul d 2]"

definition MixColumns :: "bytes \<Rightarrow> bytes" where
  "MixColumns s = mix (s ! 0) (s ! 1) (s ! 2) (s ! 3) @ mix (s ! 4) (s ! 5) (s ! 6) (s ! 7)
     @ mix (s ! 8) (s ! 9) (s ! 10) (s ! 11) @ mix (s ! 12) (s ! 13) (s ! 14) (s ! 15)"

definition AddRoundKey :: "(nat \<Rightarrow> bytes) \<Rightarrow> nat \<Rightarrow> bytes \<Rightarrow> bytes" where
  "AddRoundKey w r s = map2 (XOR) s (w (4 * r) @ w (4 * r + 1) @ w (4 * r + 2) @ w (4 * r + 3))"

primrec Cipher_rounds :: "(byte \<Rightarrow> byte) \<Rightarrow> (nat \<Rightarrow> bytes) \<Rightarrow> nat \<Rightarrow> bytes \<Rightarrow> bytes" where
  "Cipher_rounds S w 0 s = s"
| "Cipher_rounds S w (Suc r) s = AddRoundKey w (Suc r) (MixColumns (ShiftRows (map S (Cipher_rounds S w r s))))"

definition Cipher :: "(byte \<Rightarrow> byte) \<Rightarrow> bytes \<Rightarrow> nat \<Rightarrow> bytes \<Rightarrow> bytes" where
  "Cipher S key nk p = (let w = KeyExpansion S key nk; nr = nk + 6 in
     AddRoundKey w nr (ShiftRows (map S (Cipher_rounds S w (nr - 1) (AddRoundKey w 0 p)))))"

subsection \<open>The substitution box\<close>

definition inverses :: "byte list" where
  "inverses = [
    0x00, 0x01, 0x8d, 0xf6, 0xcb, 0x52, 0x7b, 0xd1, 0xe8, 0x4f, 0x29, 0xc0, 0xb0, 0xe1, 0xe5, 0xc7,
    0x74, 0xb4, 0xaa, 0x4b, 0x99, 0x2b, 0x60, 0x5f, 0x58, 0x3f, 0xfd, 0xcc, 0xff, 0x40, 0xee, 0xb2,
    0x3a, 0x6e, 0x5a, 0xf1, 0x55, 0x4d, 0xa8, 0xc9, 0xc1, 0x0a, 0x98, 0x15, 0x30, 0x44, 0xa2, 0xc2,
    0x2c, 0x45, 0x92, 0x6c, 0xf3, 0x39, 0x66, 0x42, 0xf2, 0x35, 0x20, 0x6f, 0x77, 0xbb, 0x59, 0x19,
    0x1d, 0xfe, 0x37, 0x67, 0x2d, 0x31, 0xf5, 0x69, 0xa7, 0x64, 0xab, 0x13, 0x54, 0x25, 0xe9, 0x09,
    0xed, 0x5c, 0x05, 0xca, 0x4c, 0x24, 0x87, 0xbf, 0x18, 0x3e, 0x22, 0xf0, 0x51, 0xec, 0x61, 0x17,
    0x16, 0x5e, 0xaf, 0xd3, 0x49, 0xa6, 0x36, 0x43, 0xf4, 0x47, 0x91, 0xdf, 0x33, 0x93, 0x21, 0x3b,
    0x79, 0xb7, 0x97, 0x85, 0x10, 0xb5, 0xba, 0x3c, 0xb6, 0x70, 0xd0, 0x06, 0xa1, 0xfa, 0x81, 0x82,
    0x83, 0x7e, 0x7f, 0x80, 0x96, 0x73, 0xbe, 0x56, 0x9b, 0x9e, 0x95, 0xd9, 0xf7, 0x02, 0xb9, 0xa4,
    0xde, 0x6a, 0x32, 0x6d, 0xd8, 0x8a, 0x84, 0x72, 0x2a, 0x14, 0x9f, 0x88, 0xf9, 0xdc, 0x89, 0x9a,
    0xfb, 0x7c, 0x2e, 0xc3, 0x8f, 0xb8, 0x65, 0x48, 0x26, 0xc8, 0x12, 0x4a, 0xce, 0xe7, 0xd2, 0x62,
    0x0c, 0xe0, 0x1f, 0xef, 0x11, 0x75, 0x78, 0x71, 0xa5, 0x8e, 0x76, 0x3d, 0xbd, 0xbc, 0x86, 0x57,
    0x0b, 0x28, 0x2f, 0xa3, 0xda, 0xd4, 0xe4, 0x0f, 0xa9, 0x27, 0x53, 0x04, 0x1b, 0xfc, 0xac, 0xe6,
    0x7a, 0x07, 0xae, 0x63, 0xc5, 0xdb, 0xe2, 0xea, 0x94, 0x8b, 0xc4, 0xd5, 0x9d, 0xf8, 0x90, 0x6b,
    0xb1, 0x0d, 0xd6, 0xeb, 0xc6, 0x0e, 0xcf, 0xad, 0x08, 0x4e, 0xd7, 0xe3, 0x5d, 0x50, 0x1e, 0xb3,
    0x5b, 0x23, 0x38, 0x34, 0x68, 0x46, 0x03, 0x8c, 0xdd, 0x9c, 0x7d, 0xa0, 0xcd, 0x1a, 0x41, 0x1c]"

lemma gmul_unfold: "gmul a b = gmul_bits (Suc (Suc (Suc (Suc (Suc (Suc (Suc (Suc 0)))))))) a b"
  by (simp add: gmul_def eval_nat_numeral)

definition inverse_pair :: "byte \<Rightarrow> byte \<Rightarrow> bool" where
  "inverse_pair x y \<longleftrightarrow> gmul x y = 1"

definition image_pair :: "byte \<Rightarrow> u32 \<Rightarrow> bool" where
  "image_pair y s \<longleftrightarrow> affine y = ucast s"

lemma inverses_check: "list_all2 inverse_pair
  [
    0x01, 0x02, 0x03, 0x04, 0x05, 0x06, 0x07, 0x08, 0x09, 0x0a, 0x0b, 0x0c, 0x0d, 0x0e, 0x0f,
    0x10, 0x11, 0x12, 0x13, 0x14, 0x15, 0x16, 0x17, 0x18, 0x19, 0x1a, 0x1b, 0x1c, 0x1d, 0x1e, 0x1f,
    0x20, 0x21, 0x22, 0x23, 0x24, 0x25, 0x26, 0x27, 0x28, 0x29, 0x2a, 0x2b, 0x2c, 0x2d, 0x2e, 0x2f,
    0x30, 0x31, 0x32, 0x33, 0x34, 0x35, 0x36, 0x37, 0x38, 0x39, 0x3a, 0x3b, 0x3c, 0x3d, 0x3e, 0x3f,
    0x40, 0x41, 0x42, 0x43, 0x44, 0x45, 0x46, 0x47, 0x48, 0x49, 0x4a, 0x4b, 0x4c, 0x4d, 0x4e, 0x4f,
    0x50, 0x51, 0x52, 0x53, 0x54, 0x55, 0x56, 0x57, 0x58, 0x59, 0x5a, 0x5b, 0x5c, 0x5d, 0x5e, 0x5f,
    0x60, 0x61, 0x62, 0x63, 0x64, 0x65, 0x66, 0x67, 0x68, 0x69, 0x6a, 0x6b, 0x6c, 0x6d, 0x6e, 0x6f,
    0x70, 0x71, 0x72, 0x73, 0x74, 0x75, 0x76, 0x77, 0x78, 0x79, 0x7a, 0x7b, 0x7c, 0x7d, 0x7e, 0x7f,
    0x80, 0x81, 0x82, 0x83, 0x84, 0x85, 0x86, 0x87, 0x88, 0x89, 0x8a, 0x8b, 0x8c, 0x8d, 0x8e, 0x8f,
    0x90, 0x91, 0x92, 0x93, 0x94, 0x95, 0x96, 0x97, 0x98, 0x99, 0x9a, 0x9b, 0x9c, 0x9d, 0x9e, 0x9f,
    0xa0, 0xa1, 0xa2, 0xa3, 0xa4, 0xa5, 0xa6, 0xa7, 0xa8, 0xa9, 0xaa, 0xab, 0xac, 0xad, 0xae, 0xaf,
    0xb0, 0xb1, 0xb2, 0xb3, 0xb4, 0xb5, 0xb6, 0xb7, 0xb8, 0xb9, 0xba, 0xbb, 0xbc, 0xbd, 0xbe, 0xbf,
    0xc0, 0xc1, 0xc2, 0xc3, 0xc4, 0xc5, 0xc6, 0xc7, 0xc8, 0xc9, 0xca, 0xcb, 0xcc, 0xcd, 0xce, 0xcf,
    0xd0, 0xd1, 0xd2, 0xd3, 0xd4, 0xd5, 0xd6, 0xd7, 0xd8, 0xd9, 0xda, 0xdb, 0xdc, 0xdd, 0xde, 0xdf,
    0xe0, 0xe1, 0xe2, 0xe3, 0xe4, 0xe5, 0xe6, 0xe7, 0xe8, 0xe9, 0xea, 0xeb, 0xec, 0xed, 0xee, 0xef,
    0xf0, 0xf1, 0xf2, 0xf3, 0xf4, 0xf5, 0xf6, 0xf7, 0xf8, 0xf9, 0xfa, 0xfb, 0xfc, 0xfd, 0xfe, 0xff] (tl inverses)"
  by (simp add: inverses_def inverse_pair_def gmul_unfold xtime_def)

lemma affine_check: "list_all2 image_pair inverses Te4"
  by (simp add: inverses_def Te4_def image_pair_def affine_def rotate_byte_def)

lemma Sbox_standard: "is_SBox Sbox"
proof -
  have l: "length inverses = 256" by (simp add: inverses_def)
  have img: "Sbox x = affine (inverses ! unat x)" for x
    using list_all2_nthD [OF affine_check, of "unat x"] byte_index [of x] l by (simp add: image_pair_def Sbox_def b0_def tab_def)
  have "inverses ! 0 = 0" by (simp add: inverses_def)
  moreover have "gmul x (inverses ! unat x) = 1" if "x \<noteq> 0" for x
  proof -
    define n where "n = unat x - 1"
    have n: "unat x = Suc n" "n < 255" using that byte_index [of x] unat_gt_0 [of x] by (auto simp: n_def)
    have "list_all2 inverse_pair (map word_of_nat [1..<256]) (tl inverses)"
      using inverses_check by (simp add: upt_rec [of _ 256])
    then have "inverse_pair (word_of_nat (1 + n)) (tl inverses ! n)" using list_all2_nthD [of inverse_pair _ _ n] n(2) by fastforce
    moreover have "word_of_nat (1 + n) = x" unfolding plus_1_eq_Suc n(1) [symmetric] by simp
    ultimately show ?thesis using n l by (simp add: inverse_pair_def nth_tl)
  qed
  ultimately show ?thesis unfolding is_SBox_def using img by auto
qed

subsection \<open>Columns\<close>

lemma bit_if_0: "bit (if c then a else 0) n \<longleftrightarrow> c \<and> bit (a :: byte) n"
  by simp

lemma byte_sum:
  fixes x :: byte
  shows "x = (if bit x 0 then 1 else 0) XOR (if bit x 1 then 2 else 0) XOR (if bit x 2 then 4 else 0) XOR (if bit x 3 then 8 else 0)
     XOR (if bit x 4 then 16 else 0) XOR (if bit x 5 then 32 else 0) XOR (if bit x 6 then 64 else 0) XOR (if bit x 7 then 128 else 0)"
proof (rule bit_eqI)
  fix n :: nat
  assume "possible_bit TYPE(byte) n"
  then consider "n = 0" | "n = 1" | "n = 2" | "n = 3" | "n = 4" | "n = 5" | "n = 6" | "n = 7" by (simp; linarith)
  then show "bit x n \<longleftrightarrow> bit ((if bit x 0 then 1 else (0 :: byte)) XOR (if bit x 1 then 2 else 0) XOR (if bit x 2 then 4 else 0) XOR (if bit x 3 then 8 else 0)
     XOR (if bit x 4 then 16 else 0) XOR (if bit x 5 then 32 else 0) XOR (if bit x 6 then 64 else 0) XOR (if bit x 7 then 128 else 0)) n"
    unfolding bit_xor_iff bit_if_0 by cases simp_all
qed

lemma additive_lin:
  fixes f :: "byte \<Rightarrow> u32"
  assumes "\<And>x y. f (x XOR y) = f x XOR f y"
  shows "f x = lin (f 1) (f 2) (f 4) (f 8) (f 16) (f 32) (f 64) (f 128) x"
proof -
  have z: "f 0 = 0" using assms [of 0 0] by simp
  show ?thesis unfolding lin_def by (subst byte_sum [of x]) (simp add: assms z if_distrib [of f])
qed

lemma xtime_xor: "xtime (x XOR y) = xtime x XOR xtime y"
  by (simp add: xtime_def push_bit_xor bit_xor_iff ac_simps)

lemma gmul_2_3: "gmul a 2 = xtime a" "gmul a 3 = a XOR xtime a"
  by (simp_all add: gmul_unfold)

lemma col_xor: "col (a XOR a') (b XOR b') (c XOR c') (d XOR d') = col a b c d XOR col a' b' c' d'"
  by (simp add: col_def push_bit_xor unsigned_xor_eq ac_simps)

lemma E_col: "E0 x = col (gmul x 2) x x (gmul x 3)" "E1 x = col (gmul x 3) (gmul x 2) x x"
  "E2 x = col x (gmul x 3) (gmul x 2) x" "E3 x = col x x (gmul x 3) (gmul x 2)"
proof -
  have a: "gmul (x XOR y) 2 = gmul x 2 XOR gmul y 2" "gmul (x XOR y) 3 = gmul x 3 XOR gmul y 3" for x y
    by (simp_all add: gmul_2_3 xtime_xor ac_simps)
  show "E0 x = col (gmul x 2) x x (gmul x 3)" "E1 x = col (gmul x 3) (gmul x 2) x x"
    "E2 x = col x (gmul x 3) (gmul x 2) x" "E3 x = col x x (gmul x 3) (gmul x 2)"
    unfolding E0_def E1_def E2_def E3_def
    by (subst additive_lin [of "\<lambda>x. col (gmul x 2) x x (gmul x 3)"] additive_lin [of "\<lambda>x. col (gmul x 3) (gmul x 2) x x"]
          additive_lin [of "\<lambda>x. col x (gmul x 3) (gmul x 2) x"] additive_lin [of "\<lambda>x. col x x (gmul x 3) (gmul x 2)"],
        simp add: a col_xor, simp add: gmul_2_3 xtime_def col_def push_bit_eq_mult)+
qed


subsection \<open>The key schedule\<close>

abbreviation be4 :: "u32 \<Rightarrow> bytes" where
  "be4 w \<equiv> be_bytes 4 w"

lemma be4_bytes: "be4 w = [b3 w, b2 w, b1 w, b0 w]"
  by (simp add: be_bytes_def le_bytes_def b3_def b2_def b1_def b0_def eval_nat_numeral)

lemma be4_xor: "be4 (v XOR w) = map2 (XOR) (be4 v) (be4 w)"
  by (simp add: be4_bytes bytes_xor)

lemma be4_sub_rot: "be4 (sub_rot t) = map Sbox (RotWord (be4 t))"
proof -
  have "sub_rot t = col (Sbox (b2 t)) (Sbox (b1 t)) (Sbox (b0 t)) (Sbox (b3 t))" by (simp add: sub_rot_def col_def copies)
  then show ?thesis by (simp add: be4_bytes RotWord_def)
qed

lemma be4_sub_word: "be4 (sub_word t) = map Sbox (be4 t)"
proof -
  have "sub_word t = col (Sbox (b3 t)) (Sbox (b2 t)) (Sbox (b1 t)) (Sbox (b0 t))" by (simp add: sub_word_def col_def copies)
  then show ?thesis by (simp add: be4_bytes)
qed

lemma xpowers: "map xpower [0..<10] = [1, 2, 4, 8, 16, 32, 64, 128, 0x1b, 0x36]"
  by code_simp

lemma rcon_bytes: "map be4 rcon = map (\<lambda>x. [x, 0, 0, 0]) [1, 2, 4, 8, 16, 32, 64, 128, 0x1b, 0x36]"
  unfolding be4_bytes by (simp add: rcon_def b3_def b2_def b1_def b0_def drop_bit_eq_div)

lemma be4_rcon: "j < 10 \<Longrightarrow> be4 (rcon ! j) = Rcon (Suc j)"
proof -
  assume j: "j < 10"
  have "map be4 rcon = map (\<lambda>x. [x, 0, 0, 0]) (map xpower [0..<10])" unfolding rcon_bytes xpowers ..
  then have "map be4 rcon ! j = map (\<lambda>j. [xpower j, 0, 0, 0]) [0..<10] ! j" by (simp only: map_map comp_def)
  moreover have "length rcon = 10" by (simp add: rcon_def)
  ultimately show ?thesis using j by (simp add: Rcon_def)
qed

text \<open>One word of the schedule, from the word before and the word of the last pass.\<close>

definition next_word :: "nat \<Rightarrow> nat \<Rightarrow> u32 \<Rightarrow> u32 \<Rightarrow> u32" where
  "next_word nk i a t = a XOR (if i mod nk = 0 then sub_rot t XOR rcon ! (i div nk - 1) else if nk > 6 \<and> i mod nk = 4 then sub_word t else t)"

lemma KeyExpansion_step:
  assumes "0 < nk" "KeyExpansion Sbox key nk i = be4 a" "KeyExpansion Sbox key nk (i + nk - 1) = be4 t" "i div nk < 10"
  shows "KeyExpansion Sbox key nk (i + nk) = be4 (next_word nk (i + nk) a t)"
proof -
  have "be4 (rcon ! (i div nk)) = Rcon (Suc (i div nk))" using be4_rcon [OF assms(4)] .
  moreover have "(i + nk) div nk = Suc (i div nk)" using assms(1) by (simp add: div_add_self2)
  ultimately show ?thesis
    using assms(1-3) by (subst KeyExpansion.simps) (simp add: next_word_def be4_xor be4_sub_rot be4_sub_word)
qed

lemma expand_128_standard:
  fixes key defines "W \<equiv> KeyExpansion Sbox key 4"
  shows "i + n \<le> 10 \<Longrightarrow> W (4 * i) = be4 r0 \<Longrightarrow> W (4 * i + 1) = be4 r1 \<Longrightarrow> W (4 * i + 2) = be4 r2 \<Longrightarrow> W (4 * i + 3) = be4 r3 \<Longrightarrow>
    map be4 (expand_128 n i r0 r1 r2 r3) = map W [4 * i + 4..<4 * i + 4 + 4 * n]"
proof (induction n arbitrary: i r0 r1 r2 r3)
  case (Suc n)
  note st = KeyExpansion_step [where nk = 4 and key = key, folded W_def]
  define r4 where "r4 = r0 XOR sub_rot r3 XOR rcon ! i"
  define r5 where "r5 = r1 XOR r4"
  define r6 where "r6 = r2 XOR r5"
  define r7 where "r7 = r3 XOR r6"
  have w4: "W (4 * (i + 1)) = be4 r4" using st [of "4 * i" r0 r3] Suc.prems by (simp add: next_word_def r4_def xor.assoc add.commute)
  have w5: "W (4 * (i + 1) + 1) = be4 r5" using st [of "4 * i + 1" r1 r4] Suc.prems w4 by (simp add: next_word_def r5_def add.commute)
  have w6: "W (4 * (i + 1) + 2) = be4 r6" using st [of "4 * i + 2" r2 r5] Suc.prems w5 by (simp add: next_word_def r6_def add.commute)
  have w7: "W (4 * (i + 1) + 3) = be4 r7" using st [of "4 * i + 3" r3 r6] Suc.prems w6 by (simp add: next_word_def r7_def add.commute)
  have "map be4 (expand_128 n (i + 1) r4 r5 r6 r7) = map W [4 * (i + 1) + 4..<4 * (i + 1) + 4 + 4 * n]"
    by (rule Suc.IH) (use Suc.prems w4 w5 w6 w7 in simp_all)
  moreover have "[4 * i + 4..<4 * i + 4 + 4 * Suc n] =
      [4 * (i + 1), 4 * (i + 1) + 1, 4 * (i + 1) + 2, 4 * (i + 1) + 3] @ [4 * (i + 1) + 4..<4 * (i + 1) + 4 + 4 * n]"
    by (simp add: upt_conv_Cons eval_nat_numeral)
  moreover have "expand_128 (Suc n) i r0 r1 r2 r3 = [r4, r5, r6, r7] @ expand_128 n (i + 1) r4 r5 r6 r7"
    unfolding expand_128.simps Let_def r7_def r6_def r5_def r4_def ..
  ultimately show ?case using w4 w5 w6 w7 by (simp only: map_append list.map)
qed simp


lemma expand_192_standard:
  fixes key defines "W \<equiv> KeyExpansion Sbox key 6"
  shows "0 < n \<Longrightarrow> i + n \<le> 10 \<Longrightarrow> W (6 * i) = be4 r0 \<Longrightarrow> W (6 * i + 1) = be4 r1 \<Longrightarrow> W (6 * i + 2) = be4 r2 \<Longrightarrow> W (6 * i + 3) = be4 r3 \<Longrightarrow> W (6 * i + 4) = be4 r4 \<Longrightarrow> W (6 * i + 5) = be4 r5 \<Longrightarrow>
    map be4 (expand_192 n i r0 r1 r2 r3 r4 r5) = map W [6 * i + 6..<6 * i + 6 + (6 * n - 2)]"
proof (induction n arbitrary: i r0 r1 r2 r3 r4 r5)
  case (Suc n)
  note st = KeyExpansion_step [where nk = 6 and key = key, folded W_def]
  define r6 where "r6 = r0 XOR sub_rot r5 XOR rcon ! i"
  define r7 where "r7 = r1 XOR r6"
  define r8 where "r8 = r2 XOR r7"
  define r9 where "r9 = r3 XOR r8"
  define r10 where "r10 = r4 XOR r9"
  define r11 where "r11 = r5 XOR r10"
  have w6: "W (6 * (i + 1)) = be4 r6" using st [of "6 * i" r0 r5] Suc.prems by (simp add: next_word_def r6_def xor.assoc add.commute)
  have w7: "W (6 * (i + 1) + 1) = be4 r7" using st [of "6 * i + 1" r1 r6] Suc.prems w6 by (simp add: next_word_def r7_def add.commute)
  have w8: "W (6 * (i + 1) + 2) = be4 r8" using st [of "6 * i + 2" r2 r7] Suc.prems w7 by (simp add: next_word_def r8_def add.commute)
  have w9: "W (6 * (i + 1) + 3) = be4 r9" using st [of "6 * i + 3" r3 r8] Suc.prems w8 by (simp add: next_word_def r9_def add.commute)
  have w10: "W (6 * (i + 1) + 4) = be4 r10" using st [of "6 * i + 4" r4 r9] Suc.prems w9 by (simp add: next_word_def r10_def add.commute)
  have w11: "W (6 * (i + 1) + 5) = be4 r11" using st [of "6 * i + 5" r5 r10] Suc.prems w10 by (simp add: next_word_def r11_def add.commute)
  show ?case
  proof (cases "n = 0")
    case True
    have "[6 * i + 6..<6 * i + 6 + 4] = [6 * (i + 1), 6 * (i + 1) + 1, 6 * (i + 1) + 2, 6 * (i + 1) + 3]"
      by (simp add: upt_conv_Cons eval_nat_numeral)
    moreover have "expand_192 (Suc n) i r0 r1 r2 r3 r4 r5 = [r6, r7, r8, r9]"
      using True unfolding expand_192.simps Let_def r9_def r8_def r7_def r6_def by (simp only: simp_thms if_True)
    ultimately show ?thesis using True w6 w7 w8 w9 by simp
  next
    case False
    have "map be4 (expand_192 n (i + 1) r6 r7 r8 r9 r10 r11) = map W [6 * (i + 1) + 6..<6 * (i + 1) + 6 + (6 * n - 2)]"
      by (rule Suc.IH) (use False Suc.prems w6 w7 w8 w9 w10 w11 in simp_all)
    moreover have "[6 * i + 6..<6 * i + 6 + (6 * Suc n - 2)] = [6 * (i + 1), 6 * (i + 1) + 1, 6 * (i + 1) + 2, 6 * (i + 1) + 3, 6 * (i + 1) + 4, 6 * (i + 1) + 5] @ [6 * (i + 1) + 6..<6 * (i + 1) + 6 + (6 * n - 2)]"
      using False by (cases n) (simp_all add: upt_conv_Cons eval_nat_numeral)
    moreover have "expand_192 (Suc n) i r0 r1 r2 r3 r4 r5 = [r6, r7, r8, r9, r10, r11] @ expand_192 n (i + 1) r6 r7 r8 r9 r10 r11"
      using False unfolding expand_192.simps Let_def r11_def r10_def r9_def r8_def r7_def r6_def by (simp only: if_False)
    ultimately show ?thesis using w6 w7 w8 w9 w10 w11 by (simp only: map_append list.map)
  qed
qed simp


lemma expand_256_standard:
  fixes key defines "W \<equiv> KeyExpansion Sbox key 8"
  shows "0 < n \<Longrightarrow> i + n \<le> 10 \<Longrightarrow> W (8 * i) = be4 r0 \<Longrightarrow> W (8 * i + 1) = be4 r1 \<Longrightarrow> W (8 * i + 2) = be4 r2 \<Longrightarrow> W (8 * i + 3) = be4 r3 \<Longrightarrow> W (8 * i + 4) = be4 r4 \<Longrightarrow> W (8 * i + 5) = be4 r5 \<Longrightarrow> W (8 * i + 6) = be4 r6 \<Longrightarrow> W (8 * i + 7) = be4 r7 \<Longrightarrow>
    map be4 (expand_256 n i r0 r1 r2 r3 r4 r5 r6 r7) = map W [8 * i + 8..<8 * i + 8 + (8 * n - 4)]"
proof (induction n arbitrary: i r0 r1 r2 r3 r4 r5 r6 r7)
  case (Suc n)
  note st = KeyExpansion_step [where nk = 8 and key = key, folded W_def]
  define r8 where "r8 = r0 XOR sub_rot r7 XOR rcon ! i"
  define r9 where "r9 = r1 XOR r8"
  define r10 where "r10 = r2 XOR r9"
  define r11 where "r11 = r3 XOR r10"
  define r12 where "r12 = r4 XOR sub_word r11"
  define r13 where "r13 = r5 XOR r12"
  define r14 where "r14 = r6 XOR r13"
  define r15 where "r15 = r7 XOR r14"
  have w8: "W (8 * (i + 1)) = be4 r8" using st [of "8 * i" r0 r7] Suc.prems by (simp add: next_word_def r8_def xor.assoc add.commute)
  have w9: "W (8 * (i + 1) + 1) = be4 r9" using st [of "8 * i + 1" r1 r8] Suc.prems w8 by (simp add: next_word_def r9_def add.commute)
  have w10: "W (8 * (i + 1) + 2) = be4 r10" using st [of "8 * i + 2" r2 r9] Suc.prems w9 by (simp add: next_word_def r10_def add.commute)
  have w11: "W (8 * (i + 1) + 3) = be4 r11" using st [of "8 * i + 3" r3 r10] Suc.prems w10 by (simp add: next_word_def r11_def add.commute)
  have w12: "W (8 * (i + 1) + 4) = be4 r12" using st [of "8 * i + 4" r4 r11] Suc.prems w11 by (simp add: next_word_def r12_def add.commute)
  have w13: "W (8 * (i + 1) + 5) = be4 r13" using st [of "8 * i + 5" r5 r12] Suc.prems w12 by (simp add: next_word_def r13_def add.commute)
  have w14: "W (8 * (i + 1) + 6) = be4 r14" using st [of "8 * i + 6" r6 r13] Suc.prems w13 by (simp add: next_word_def r14_def add.commute)
  have w15: "W (8 * (i + 1) + 7) = be4 r15" using st [of "8 * i + 7" r7 r14] Suc.prems w14 by (simp add: next_word_def r15_def add.commute)
  show ?case
  proof (cases "n = 0")
    case True
    have "[8 * i + 8..<8 * i + 8 + 4] = [8 * (i + 1), 8 * (i + 1) + 1, 8 * (i + 1) + 2, 8 * (i + 1) + 3]"
      by (simp add: upt_conv_Cons eval_nat_numeral)
    moreover have "expand_256 (Suc n) i r0 r1 r2 r3 r4 r5 r6 r7 = [r8, r9, r10, r11]"
      using True unfolding expand_256.simps Let_def r11_def r10_def r9_def r8_def by (simp only: simp_thms if_True)
    ultimately show ?thesis using True w8 w9 w10 w11 by simp
  next
    case False
    have "map be4 (expand_256 n (i + 1) r8 r9 r10 r11 r12 r13 r14 r15) = map W [8 * (i + 1) + 8..<8 * (i + 1) + 8 + (8 * n - 4)]"
      by (rule Suc.IH) (use False Suc.prems w8 w9 w10 w11 w12 w13 w14 w15 in simp_all)
    moreover have "[8 * i + 8..<8 * i + 8 + (8 * Suc n - 4)] = [8 * (i + 1), 8 * (i + 1) + 1, 8 * (i + 1) + 2, 8 * (i + 1) + 3, 8 * (i + 1) + 4, 8 * (i + 1) + 5, 8 * (i + 1) + 6, 8 * (i + 1) + 7] @ [8 * (i + 1) + 8..<8 * (i + 1) + 8 + (8 * n - 4)]"
      using False by (cases n) (simp_all add: upt_conv_Cons eval_nat_numeral)
    moreover have "expand_256 (Suc n) i r0 r1 r2 r3 r4 r5 r6 r7 = [r8, r9, r10, r11, r12, r13, r14, r15] @ expand_256 n (i + 1) r8 r9 r10 r11 r12 r13 r14 r15"
      using False unfolding expand_256.simps Let_def r15_def r14_def r13_def r12_def r11_def r10_def r9_def r8_def by (simp only: if_False)
    ultimately show ?thesis using w8 w9 w10 w11 w12 w13 w14 w15 by (simp only: map_append list.map)
  qed
qed simp



lemma be4_GETU32: "i + 4 \<le> length key \<Longrightarrow> be4 (GETU32 key i) = take 4 (drop i key)"
  unfolding GETU32_def by (intro be_bytes_be_word) simp_all

lemma KeyExpansion_key: "i < nk \<Longrightarrow> 4 * nk \<le> length key \<Longrightarrow> KeyExpansion S key nk i = be4 (GETU32 key (4 * i))"
  by (subst KeyExpansion.simps) (simp add: be4_GETU32)

lemma key_schedule_standard:
  assumes "key_size \<in> {16, 24, 32}" "key_size \<le> length key" "aes_internal_key_setup_enc key (8 * key_size) = (nr, rk)"
  shows "map be4 rk = map (KeyExpansion Sbox key (key_size div 4)) [0..<4 * (nr + 1)]" and "nr = key_size div 4 + 6"
proof -
  let ?W = "KeyExpansion Sbox key"
  note k = KeyExpansion_key [of _ _ key Sbox]
  have up: "[0..<4] = [0, 1, 2, 3 :: nat]" "[0..<6] = [0, 1, 2, 3, 4, 5 :: nat]" "[0..<8] = [0, 1, 2, 3, 4, 5, 6, 7 :: nat]" by (simp_all add: upt_rec)
  consider "key_size = 16" | "key_size = 24" | "key_size = 32" using assms(1) by blast
  then have "map be4 rk = map (?W (key_size div 4)) [0..<4 * (nr + 1)] \<and> nr = key_size div 4 + 6"
  proof cases
    case 1
    have "[0..<44] = [0..<4] @ [4..<44 :: nat]" using upt_add_eq_append [of 0 4 40] by simp
    then show ?thesis
      using 1 assms(2,3) expand_128_standard [where key = key and i = 0 and n = 10] k [of _ 4]
      by (auto simp: aes_internal_key_setup_enc_def Let_def up)
  next
    case 2
    have "[0..<52] = [0..<6] @ [6..<52 :: nat]" using upt_add_eq_append [of 0 6 46] by simp
    then show ?thesis
      using 2 assms(2,3) expand_192_standard [where key = key and i = 0 and n = 8] k [of _ 6]
      by (auto simp: aes_internal_key_setup_enc_def Let_def up)
  next
    case 3
    have "[0..<60] = [0..<8] @ [8..<60 :: nat]" using upt_add_eq_append [of 0 8 52] by simp
    then show ?thesis
      using 3 assms(2,3) expand_256_standard [where key = key and i = 0 and n = 7] k [of _ 8]
      by (auto simp: aes_internal_key_setup_enc_def Let_def up)
  qed
  then show "map be4 rk = map (?W (key_size div 4)) [0..<4 * (nr + 1)]" "nr = key_size div 4 + 6" by simp_all
qed

subsection \<open>Rounds\<close>

lemma put_state_add_key: "put_state (add_key k s) = map2 (XOR) (put_state s) (put_state k)"
  by (cases s; cases k) (simp add: be4_bytes bytes_xor)

lemma put_state_ShiftSub: "put_state (ShiftSub s) = ShiftRows (map Sbox (put_state s))"
  by (cases s) (simp add: be4_bytes ShiftRows_def)

lemma be4_MixColumn: "be4 (MixColumn w) = mix (b3 w) (b2 w) (b1 w) (b0 w)"
  by (simp add: be4_bytes MixColumn_def E_col bytes_xor mix_def xor.assoc)

lemma put_state_columns: "put_state (columns MixColumn s) = MixColumns (put_state s)"
  by (cases s) (simp add: be4_MixColumn, simp add: be4_bytes MixColumns_def)

lemma iterate_rounds_standard:
  assumes "\<And>r. r \<le> k \<Longrightarrow> put_state (round_key rk r) = w (4 * r) @ w (4 * r + 1) @ w (4 * r + 2) @ w (4 * r + 3)"
  shows "put_state (iterate_rounds (AES_ENC_ROUND rk) k s) = Cipher_rounds Sbox w k (put_state s)"
  using assms by (induction k) (simp_all add: enc_round_eq put_state_add_key put_state_columns put_state_ShiftSub AddRoundKey_def)

subsection \<open>Properties\<close>

text \<open>
  C8. For keys of 128, 192 and 256 bits, the table-driven encryption of a block, with the round keys of its key schedule, is the cipher of FIPS 197: rounds of
  substitution, shifted rows, mixed columns and added round keys, where the substitution is the affine image of the inverse in the field; and decryption with
  the round keys of the other schedule inverts it.
\<close>

theorem aes_implements_standard:
  assumes "aes_init key key_size = Some ctx" and "key_size \<le> length key" and "length p = 16"
  shows "\<exists>S. is_SBox S \<and> aes_ecb_encrypt ctx p = (16, Cipher S key (key_size div 4) p)
    \<and> aes_ecb_decrypt ctx (Cipher S key (key_size div 4) p) = (16, p)"
proof -
  define nr rk where "nr = Nr ctx" and "rk = enc_rk ctx"
  note c = aes_init_context [OF assms(1), folded nr_def rk_def]
  note nr = key_setup_enc [OF c(1,2)] and std = key_schedule_standard [OF c(1) assms(2) c(2)]
  let ?w = "KeyExpansion Sbox key (key_size div 4)"
  have w: "be4 (rk ! i) = ?w i" if "i < 4 * (nr + 1)" for i
    using arg_cong [OF std(1), of "\<lambda>l. l ! i"] that nr(2) by simp
  have rk: "put_state (round_key rk r) = ?w (4 * r) @ ?w (4 * r + 1) @ ?w (4 * r + 2) @ ?w (4 * r + 3)" if "r \<le> nr" for r
    using that w [of "4 * r"] w [of "4 * r + 1"] w [of "4 * r + 2"] w [of "4 * r + 3"] by (simp add: round_key_def)
  have "add_first_key rk p = add_key (round_key rk 0) (GETU32 p 0, GETU32 p 4, GETU32 p 8, GETU32 p 12)"
    by (simp add: add_first_key_def round_key_def numeral_2_eq_2)
  then have first: "put_state (add_first_key rk p) = AddRoundKey ?w 0 p"
    using rk [of 0] put_GETU32 [OF assms(3)] by (simp only: put_state_add_key AddRoundKey_def le0)
  have "aes_internal_encrypt rk nr p =
      map2 (XOR) (ShiftRows (map Sbox (put_state (iterate_rounds (AES_ENC_ROUND rk) (nr - 1) (add_first_key rk p))))) (put_state (round_key rk nr))"
    by (simp only: aes_internal_encrypt_def rounds_iterate [OF nr(1)] last_enc_round_eq put_state_add_key put_state_ShiftSub)
  also have "\<dots> = AddRoundKey ?w nr (ShiftRows (map Sbox (Cipher_rounds Sbox ?w (nr - 1) (AddRoundKey ?w 0 p))))"
    using iterate_rounds_standard [of "nr - 1" rk ?w "add_first_key rk p"] rk first by (simp only: AddRoundKey_def diff_le_self le_trans order.refl)
  also have "\<dots> = Cipher Sbox key (key_size div 4) p" by (simp only: Cipher_def Let_def std(2))
  finally have "aes_internal_encrypt rk nr p = Cipher Sbox key (key_size div 4) p" .
  moreover have "aes_internal_decrypt (dec_rk ctx) nr (aes_internal_encrypt rk nr p) = p"
    using aes_context_inverse [OF assms(1,3)] by (simp add: nr_def rk_def)
  ultimately show ?thesis using Sbox_standard by (intro exI [of _ Sbox]) (simp add: aes_ecb_encrypt_def aes_ecb_decrypt_def nr_def rk_def)
qed

theorem aes_implements_standard_witness:
  "\<exists>ctx S. aes_init (replicate 24 1) 24 = Some ctx \<and> is_SBox S \<and> aes_ecb_encrypt ctx (replicate 16 7) = (16, Cipher S (replicate 24 1) (24 div 4) (replicate 16 7))
    \<and> aes_ecb_decrypt ctx (Cipher S (replicate 24 1) (24 div 4) (replicate 16 7)) = (16, replicate 16 7)"
proof -
  obtain ctx where "aes_init (replicate 24 1) 24 = Some ctx" using aes_init_total [of 24] by auto
  then show ?thesis using aes_implements_standard [of "replicate 24 1" 24 ctx "replicate 16 7"] by simp
qed

end
