(* ===== verification/Transform_AES.thy ===== *)
theory Transform_AES
  imports Transforms AES
begin

text \<open>
  The AES transform, \<^verbatim>\<open>src/transform_aes.c\<close>: cipher block chaining without an initial value over a random first block and the payload, with
  the last two blocks exchanged for cipher text stealing. The buffers are those of the other transforms.
\<close>

subsection \<open>Operations\<close>

abbreviation AES_PREAMBLE_SIZE :: nat where "AES_PREAMBLE_SIZE \<equiv> 16"

definition aes_null_iv :: bytes where
  "aes_null_iv = replicate 16 0"

definition transop_encode_aes :: "aes_context \<Rightarrow> bytes \<Rightarrow>
    bytes \<Rightarrow> nat \<Rightarrow> bytes \<Rightarrow> nat \<Rightarrow> rn_generator_state \<Rightarrow> (int \<times> bytes \<times> rn_generator_state) option" where
  "transop_encode_aes ctx assembly outbuf out_len inbuf in_len rn =
     (if in_len \<le> N2N_PKT_BUF_SIZE then
        if in_len + AES_PREAMBLE_SIZE + AES_BLOCK_SIZE \<le> out_len then do {
          let (r, rn) = n2n_rand rn;
          (_, st) \<leftarrow> encode_uint64 r (assembly, 0);
          let (r, rn) = n2n_rand rn;
          (_, assembly, _) \<leftarrow> encode_uint64 r st;
          (_, assembly, idx) \<leftarrow> encode_buf inbuf in_len (assembly, AES_PREAMBLE_SIZE);
          let padded_len = ((idx - 1) div AES_BLOCK_SIZE + 1) * AES_BLOCK_SIZE;
          let padding = padded_len - idx;
          assembly \<leftarrow> wr assembly idx (replicate AES_BLOCK_SIZE 0);
          p \<leftarrow> rd assembly 0 padded_len;
          outbuf \<leftarrow> wr outbuf 0 (snd (aes_cbc_encrypt ctx aes_null_iv p));
          outbuf \<leftarrow> (if padding \<noteq> 0 then do {
              buf \<leftarrow> rd outbuf (padded_len - AES_BLOCK_SIZE) AES_BLOCK_SIZE;
              prev \<leftarrow> rd outbuf (padded_len - 2 * AES_BLOCK_SIZE) AES_BLOCK_SIZE;
              outbuf \<leftarrow> wr outbuf (padded_len - AES_BLOCK_SIZE) prev;
              wr outbuf (padded_len - 2 * AES_BLOCK_SIZE) buf }
            else Some outbuf);
          Some (int idx, outbuf, rn) }
        else Some (0, outbuf, rn)
      else Some (0, outbuf, rn))"

definition transop_decode_aes :: "aes_context \<Rightarrow> bytes \<Rightarrow> bytes \<Rightarrow> nat \<Rightarrow> bytes \<Rightarrow> nat \<Rightarrow> (int \<times> bytes) option" where
  "transop_decode_aes ctx assembly outbuf out_len inbuf in_len =
     (if size_sub in_len AES_PREAMBLE_SIZE \<le> N2N_PKT_BUF_SIZE \<and> in_len \<ge> AES_PREAMBLE_SIZE \<and> in_len \<ge> AES_BLOCK_SIZE
      then do {
        let rest = in_len mod AES_BLOCK_SIZE;
        result \<leftarrow> (if rest \<noteq> 0 then do {
            let penultimate_block = (in_len div AES_BLOCK_SIZE - 1) * AES_BLOCK_SIZE;
            p \<leftarrow> rd inbuf 0 penultimate_block;
            assembly \<leftarrow> wr assembly 0 p;
            pen \<leftarrow> rd inbuf penultimate_block AES_BLOCK_SIZE;
            let buf = snd (aes_ecb_decrypt ctx pen);
            t \<leftarrow> rd inbuf (in_len - rest) rest;
            buf \<leftarrow> wr buf 0 t;
            assembly \<leftarrow> wr assembly (penultimate_block + AES_BLOCK_SIZE) pen;
            assembly \<leftarrow> wr assembly penultimate_block buf;
            _ \<leftarrow> rd assembly 0 (in_len + AES_BLOCK_SIZE - rest);
            let assembly = snd (snd (aes_cbc_decrypt ctx True (in_len + AES_BLOCK_SIZE - rest) aes_null_iv (assembly, assembly)));
            z \<leftarrow> rd assembly in_len (AES_BLOCK_SIZE - rest);
            Some (if z \<noteq> take (AES_BLOCK_SIZE - rest) aes_null_iv then None else Some assembly) }
          else do {
            c \<leftarrow> rd inbuf 0 in_len;
            _ \<leftarrow> rd assembly 0 in_len;
            Some (Some (snd (snd (aes_cbc_decrypt ctx False in_len aes_null_iv (inbuf, assembly))))) });
        case result of
          None \<Rightarrow> Some (-1, outbuf)
        | Some assembly \<Rightarrow> do {
            let len = in_len - AES_PREAMBLE_SIZE;
            p \<leftarrow> rd assembly AES_PREAMBLE_SIZE len;
            outbuf \<leftarrow> wr outbuf 0 p;
            Some (int len, outbuf) } }
      else Some (-1, outbuf))"

text \<open>The key is the end of the hash, as long as the length of the password asks for.\<close>

definition setup_aes_key :: "bytes \<Rightarrow> aes_context option" where
  "setup_aes_key password =
     (let key_mat = pearson_hash_256 password;
          key_size = (if length password \<ge> 33 then AES256_KEY_BYTES else if length password \<ge> 23 then AES192_KEY_BYTES else AES128_KEY_BYTES)
      in aes_init (drop (32 - key_size) key_mat) key_size)"

definition n2n_transop_aes_init :: "bytes \<Rightarrow> aes_context option" where
  "n2n_transop_aes_init encrypt_key = setup_aes_key (takeWhile (\<lambda>c. c \<noteq> 0) encrypt_key)"

subsection \<open>Contexts\<close>

lemma setup_aes_key_total: "\<exists>ctx. setup_aes_key password = Some ctx"
  by (simp add: setup_aes_key_def aes_init_total)

text \<open>The context of a password.\<close>

definition aes_key_context :: "bytes \<Rightarrow> aes_context" where
  "aes_key_context password = the (setup_aes_key password)"

lemma aes_key_context: "setup_aes_key password = Some (aes_key_context password)"
  using setup_aes_key_total [of password] by (auto simp: aes_key_context_def)

abbreviation aes_enc :: "bytes \<Rightarrow> bytes \<Rightarrow> bytes" where
  "aes_enc password \<equiv> aes_internal_encrypt (enc_rk (aes_key_context password)) (Nr (aes_key_context password))"

abbreviation aes_dec :: "bytes \<Rightarrow> bytes \<Rightarrow> bytes" where
  "aes_dec password \<equiv> aes_internal_decrypt (dec_rk (aes_key_context password)) (Nr (aes_key_context password))"

interpretation aes: block_cipher aes_enc aes_dec
proof
  show "length (aes_enc k b) = 16" "length (aes_dec k b) = 16" for k b
    by (simp_all add: aes_internal_encrypt_def aes_internal_decrypt_def)
  show "aes_dec k (aes_enc k b) = b" if "length b = 16" for k b
    using aes_context_inverse [OF aes_key_context [unfolded setup_aes_key_def Let_def] that] .
qed

subsection \<open>Chaining\<close>

lemma aes_cbc_encrypt_loop_spec:
  "aes_cbc_encrypt_loop ctx n tmp inp = cbc_enc (aes_internal_encrypt (enc_rk ctx) (Nr ctx)) n tmp inp"
  by (induction n arbitrary: tmp inp) (simp_all add: Let_def)

lemma aes_cbc_decrypt_loop_spec:
  "length tmp = 16 \<Longrightarrow> 16 * (i + n) \<le> length inp \<Longrightarrow> 16 * (i + n) \<le> length out \<Longrightarrow> (shared \<longrightarrow> inp = out) \<Longrightarrow>
   snd (aes_cbc_decrypt_loop ctx shared n i tmp (inp, out)) =
     take (16 * i) out @ cbc_dec (aes_internal_decrypt (dec_rk ctx) (Nr ctx)) n tmp (drop (16 * i) inp) @ drop (16 * (i + n)) out"
proof (induction n arbitrary: i tmp inp out)
  case (Suc n)
  let ?D = "aes_internal_decrypt (dec_rk ctx) (Nr ctx)"
  let ?old = "take 16 (drop (16 * i) inp)"
  let ?x = "map2 (XOR) (?D ?old) tmp"
  let ?out = "overlay out (16 * i) ?x"
  let ?inp = "if shared then ?out else inp"
  have x: "length ?x = 16" using Suc.prems by (simp add: aes_internal_decrypt_def)
  have out: "?out = take (16 * i) out @ ?x @ drop (16 * i + 16) out"
    unfolding overlay_def x ..
  have len: "length ?out = length out" using Suc.prems x by simp
  have i: "length (take (16 * i) out) = 16 * i" using Suc.prems by simp
  have part: "take (16 * (i + 1)) ?out = take (16 * i) out @ ?x" "drop (16 * (i + 1)) ?out = drop (16 * i + 16) out"
    unfolding out using x i by simp_all
  have tail: "drop (16 * (i + 1 + n)) ?out = drop (16 * (i + Suc n)) out"
  proof -
    have k: "16 * (i + 1 + n) = 16 * n + 16 * (i + 1)" "16 * (i + Suc n) = 16 * n + (16 * i + 16)" by simp_all
    show ?thesis unfolding k drop_drop [symmetric] part(2) ..
  qed
  have rest: "drop (16 * (i + 1)) ?inp = drop 16 (drop (16 * i) inp)"
    using part(2) Suc.prems(4) by (cases shared) (simp_all add: add.commute)
  have "snd (aes_cbc_decrypt_loop ctx shared n (i + 1) ?old (?inp, ?out)) =
      take (16 * (i + 1)) ?out @ cbc_dec ?D n ?old (drop (16 * (i + 1)) ?inp) @ drop (16 * (i + 1 + n)) ?out"
    using Suc.prems len by (intro Suc.IH) simp_all
  moreover have "aes_cbc_decrypt_loop ctx shared (Suc n) i tmp (inp, out) = aes_cbc_decrypt_loop ctx shared n (i + 1) ?old (?inp, ?out)"
    by (simp add: Let_def mult.commute [of i])
  ultimately show ?case unfolding part(1) tail rest by (simp only: cbc_dec.simps append_assoc)
qed simp

interpretation aes_cts: cts aes_enc aes_dec "\<lambda>pw p. snd (aes_cbc_encrypt (aes_key_context pw) aes_null_iv p)"
    "\<lambda>pw b. snd (aes_ecb_decrypt (aes_key_context pw) b)"
    "\<lambda>pw shared n m. snd (snd (aes_cbc_decrypt (aes_key_context pw) shared n aes_null_iv m))"
proof
  have iv: "aes_null_iv = null_iv" by (simp add: aes_null_iv_def null_iv_def)
  show "snd (aes_cbc_encrypt (aes_key_context ctx) aes_null_iv p) = cbc_enc (aes_enc ctx) n null_iv p" if "length p = 16 * n" for p n ctx
    using that by (simp add: iv aes_cbc_encrypt_def aes_cbc_encrypt_loop_spec Let_def)
  show "snd (snd (aes_cbc_decrypt (aes_key_context ctx) shared (16 * n) aes_null_iv (i, out))) = cbc_dec (aes_dec ctx) n null_iv i @ drop (16 * n) out"
    if "16 * n \<le> length i" "16 * n \<le> length out" "shared \<longrightarrow> i = out" for n i out ctx shared
    using that aes_cbc_decrypt_loop_spec [of null_iv 0 n i out shared "aes_key_context ctx"] by (simp add: iv aes_cbc_decrypt_def)
qed (simp add: aes_ecb_decrypt_def)

lemma aes_coders:
  "transop_encode_aes ctx = cts_encode (\<lambda>p. snd (aes_cbc_encrypt ctx aes_null_iv p))"
  "transop_decode_aes ctx = cts_decode (\<lambda>b. snd (aes_ecb_decrypt ctx b)) (\<lambda>shared n m. snd (snd (aes_cbc_decrypt ctx shared n aes_null_iv m)))"
proof -
  have iv: "aes_null_iv = null_iv" by (simp add: aes_null_iv_def null_iv_def)
  show "transop_encode_aes ctx = cts_encode (\<lambda>p. snd (aes_cbc_encrypt ctx aes_null_iv p))"
    "transop_decode_aes ctx = cts_decode (\<lambda>b. snd (aes_ecb_decrypt ctx b)) (\<lambda>shared n m. snd (snd (aes_cbc_decrypt ctx shared n aes_null_iv m)))"
    by (intro ext; simp only: transop_encode_aes_def transop_decode_aes_def cts_encode_def cts_decode_def iv)+
qed

interpretation aes_op: transop "transop_encode_aes (aes_key_context pw) (take 4096 a @ replicate (4096 - length a) 0)"
    "transop_decode_aes (aes_key_context pw) (take 4096 b @ replicate (4096 - length b) 0)" 32 for pw a b
  unfolding aes_coders by (rule aes_cts.cts_transop)

subsection \<open>Properties\<close>

text \<open>
  C10. A payload encoded with the AES transform is recovered by the receiver's decoder from the bytes that were sent, for
  every password, whose length chooses the size of the key, whatever stands in the buffers and on the stack before, whatever follows the packet in the
  receiver's buffer (of which there are at least sixteen bytes), and for all states of the random number generator.
\<close>

theorem aes_transop_roundtrip:
  assumes "setup_aes_key password = Some ctx"
    and "in_len \<le> length inbuf" and "in_len + 32 \<le> out_len" and "out_len \<le> length outbuf"
    and "out_len \<le> N2N_PKT_BUF_SIZE" and "in_len + 32 \<le> out_len'" and "in_len + 32 \<le> length outbuf'" and "16 \<le> length slack"
    and "length assembly = N2N_PKT_BUF_SIZE" and "length assembly' = N2N_PKT_BUF_SIZE"
  shows "\<exists>n out rn' out'. transop_encode_aes ctx assembly outbuf out_len inbuf in_len rn = Some (int n, out, rn')
    \<and> transop_decode_aes ctx assembly' outbuf' out_len' (take n out @ slack) n = Some (int in_len, out') \<and> take in_len out' = take in_len inbuf"
proof -
  have "ctx = aes_key_context password" using assms(1) aes_key_context [of password] by simp
  then show ?thesis using aes_op.transport [OF assms(2-8), of password assembly rn assembly'] assms(9,10) by simp
qed

theorem aes_transop_roundtrip_witness:
  "\<exists>ctx. setup_aes_key [1, 2, 3] = Some ctx \<and>
   (\<exists>n out rn' out'. transop_encode_aes ctx (replicate 4096 9) (replicate 200 7) 100 (replicate 21 5) 21 rn_default_state = Some (int n, out, rn')
    \<and> transop_decode_aes ctx (replicate 4096 8) (replicate 60 6) 60 (take n out @ replicate 16 4) n = Some (int 21, out')
    \<and> take 21 out' = take 21 (replicate 21 5))"
proof -
  obtain ctx where ctx: "setup_aes_key [1, 2, 3] = Some ctx" using setup_aes_key_total by blast
  show ?thesis
    by (intro exI [of _ ctx] conjI ctx, rule aes_transop_roundtrip [OF ctx]) simp_all
qed

end
