(* ===== verification/Spec2Isabelle.thy ===== *)
theory Spec2Isabelle
  imports Wire_Messages Header_Encryption Time_Stamp Auth Transforms Tables N2n_Util Peers Supernode Handshake Auto_IP Registry Sn_Loop Filter_Rules
    Network Edge_Properties AES_Standard Transform_AES
begin

text \<open>
  A verification development for n2n, a peer-to-peer virtual private network.

  \<^bold>\<open>The program.\<close> Hosts run an \<^emph>\<open>edge\<close> (\<^verbatim>\<open>src/edge_utils.c\<close>), which reads Ethernet frames from a TAP device and sends them to other edges of its
  \<^emph>\<open>community\<close>, directly or over a \<^emph>\<open>supernode\<close> (\<^verbatim>\<open>src/sn_utils.c\<close>), with which every edge registers. A message starts with a common header and is encoded
  by \<^verbatim>\<open>src/wire.c\<close>; its header may be encrypted with a key derived from the name of the community (\<^verbatim>\<open>src/header_encryption.c\<close>), with a time stamp against
  replays; the frame in it is encoded by one of several transforms. Communities may authenticate users, who then share a dynamic key. Between edge and supernode messages
  travel over UDP, over TCP with a length in front, or over sessions of a KCP library.

  \<^bold>\<open>How C is modelled.\<close> Integers have the width they have in C and wrap around as there. Structures are records, tables of \<^verbatim>\<open>uthash.h\<close> lists in
  application order, pointers to entries indices. A buffer is the list of its bytes; reading or writing outside of it, reading what was never written and following
  a freed pointer give \<open>None\<close>, so a theorem that an operation returns \<open>Some\<close> states memory safety with it. Errors that the code reports are values, as
  in the code. What the operating system and libraries answer is an argument: \<open>runtime\<close> for the supernode, \<open>edge_env\<close> for the edge, with the clock,
  the results of system calls, the answers of KCP and the traces of what was sent and written to the TAP device.

  \<^bold>\<open>Theories.\<close>

  \<^item> \<open>Prelude\<close>: types, checked buffers, byte order, lemmas shared by all. \<open>Types\<close>: constants and message structures of \<^verbatim>\<open>n2n_typedefs.h\<close> and \<^verbatim>\<open>n2n_define.h\<close>.
  \<^item> \<open>Wire_Format\<close>, \<open>Wire\<close>, \<open>Wire_Messages\<close>: the encoders and decoders of \<^verbatim>\<open>wire.c\<close>. They are inverse to each other for every message, the decoders
    stay inside their buffers on every datagram, and the one exception, a token that is too long, is a theorem.
  \<^item> \<open>Random_Numbers\<close>, \<open>Time_Stamp\<close>, \<open>Pearson\<close>, \<open>Auth\<close>, \<open>N2n_Util\<close>, \<open>Regex\<close>: the files of these names (time stamps are in \<^verbatim>\<open>n2n.c\<close>). The generator never reaches the
    state zero, stamps increase and an accepted one is newer than all accepted before up to the jitter allowed for its message, keys survive their textual form, an expression with at most one quantifier describes
    the names that it matches, and with two the length of a match is wrong by an amount that is given.
  \<^item> \<open>Ciphers\<close>: the interfaces of stream and block ciphers as locales. \<open>Speck\<close>, \<open>CC20\<close>, \<open>Twofish\<close>, \<open>AES_Tables\<close>, \<open>AES\<close>: the portable variants of the ciphers,
    which interpret them. \<open>AES_Standard\<close>: FIPS 197 as a reference, which the table-driven AES computes; \<open>Twofish\<close> has the same for its optimised chaining.
  \<^item> \<open>Transforms\<close>, \<open>Transform_AES\<close>: the null, Speck, ChaCha20, Twofish and AES transforms, each an interpretation of the locale \<open>transop\<close>: what is encoded is decoded again,
    inside the buffers. The two block ciphers share the proof of cipher text stealing, a locale over \<open>block_cipher\<close>.
  \<^item> \<open>Header_Encryption\<close>: encryption and decryption of headers are inverse, with the time stamp and the checksum.
  \<^item> \<open>Tables\<close>, \<open>Peers\<close>: hash tables and the lists of peers with insertion, re-keying, purging.
  \<^item> \<open>Supernode\<close>, \<open>Sn_Send\<close>, \<open>Auto_IP\<close>, \<open>Sn_Maintain\<close>, \<open>Sn_Process\<close>, \<open>Process_UDP\<close>, \<open>Kcp\<close>, \<open>Tcp_Stream\<close>, \<open>Sn_Loop\<close>: the supernode, from its data and the table of edges over
    sending, the assignment of addresses, maintenance, the handlers of all messages and \<open>process_udp\<close> to the main loop \<open>run_sn_loop\<close>. \<open>Sn_Send\<close> shows whom a broadcast and a forwarded packet reach, and that a TCP connection that breaks on the way makes
    the supernode read a freed entry; \<open>Registry\<close> that the tables of edges refine finite maps under registering, closing of connections and purging; \<open>Sn_Invariant\<close>, \<open>Sn_Reachable\<close> have the invariants of all reachable states, among them that an encrypted community is never served in plain text again; \<open>Tcp_Stream\<close> that
    packets are recovered from a stream whatever its pieces.
  \<^item> \<open>Handshake\<close>: the authentication across edge and supernode.
  \<^item> \<open>Edge_State\<close>, \<open>Edge_Send\<close>, \<open>Edge_Peers\<close>, \<open>Edge_Packets\<close>, \<open>Edge_Process\<close>, \<open>Edge_Loop\<close>: the edge, from its transports with the fallback to TCP over sending, peers, the path of frames and all handlers
    to \<open>run_edge_loop\<close>, with \<^verbatim>\<open>sn_selection.c\<close>. \<open>Edge_Frame\<close> and \<open>Edge_Invariant\<close> have what all operations keep, \<open>Edge_Properties\<close> what holds of every run.
  \<^item> \<open>Traffic_Filter\<close>, \<open>Filter_Rules\<close>: the filter of \<^verbatim>\<open>network_traffic_filter.c\<close>, that its cache does not change the verdicts of the rules until it is first cleared, and the parser and printer of rules.
  \<^item> \<open>Edge_Delivery\<close>, \<open>Sn_Forward\<close>, \<open>Network\<close>: the composition. A frame that one edge packs is written to the TAP device of another one byte by byte: directly with plain or
    encrypted headers, over the supernode with plain headers, and with every transform that satisfies the contract.

  \<^bold>\<open>Bounds.\<close> Recursion follows the data or has a proof of termination; the loops over a table whose body may free entries count the entries at their start, which is enough as entries only disappear; the main loops recurse over the list of inputs of their iterations, so that a theorem
  about them is one about runs of every length. Three loops that need not end are partial functions, with \<open>None\<close> for not ending: the two searches for a free subnet and the count of bits before
  the square root; their theorems state that they return. Limits in theorems are those of the code: buffers of 4096 bytes in the transforms, packets with their length in at most 4096
  bytes on a stream, 10000 frames until the cache of the filter is cleared, 46338 nodes for the draw with a square root in 32 bits.

  \<^bold>\<open>Not modelled.\<close> Compression: minilzo is vendored and zstd an external library; the edge takes a compression with the contract of a transform as an argument.
  Curve25519: the arithmetic of public keys; the authentication starts from the secret that edge and supernode share. The variants of the ciphers on OpenSSL and on vector instructions, which are to compute what
  the portable ones do. The KCP library, whose answers are part of the environment. The management interface with its JSON and events, port mapping, hex dumps and tracing, which do not affect the network, but for the traces that read an entry which sending may have freed;
  TAP devices, opening of sockets, name resolution, threads and the queue of the Windows build, which are the operating system's; the reading of options in \<^verbatim>\<open>edge.c\<close> and \<^verbatim>\<open>supernode.c\<close> and of the file of
  communities; callbacks of programs that embed the edge. Allocation does not fail.
\<close>

end
